(* ===== verification/Prelude.thy ===== *)
theory Prelude
  imports Main "HOL-Library.Word"
begin

text \<open>
  Shared vocabulary of the development: the C integer types, link-layer addresses, byte
  buffers with bounds-checked access, and the list lemmas the components use.

  Conventions used by every component theory:
  \<^item> \<open>uint8_t\<close>, \<open>uint16_t\<close>, \<open>uint32_t\<close> are words of that width (arithmetic wraps);
    plain \<open>int\<close> results are \<open>int\<close>;
  \<^item> a pointer that may be NULL is an \<open>option\<close>; a pointer into a pool of blocks is the
    block's index;
  \<^item> a buffer is a byte list; reading or writing outside it is undefined behaviour in C and
    is the value \<open>Fault\<close> of the type \<open>outcome\<close>, a returned error code is \<open>Failed\<close>.
\<close>

unbundle bit_operations_syntax

named_theorems tsch_defs "definitions of the model that proofs about it unfold"
named_theorems byte_simps "rules that evaluate byte buffers and multi-byte fields"

type_synonym u8 = "8 word"
type_synonym u16 = "16 word"
type_synonym u32 = "32 word"
type_synonym linkaddr = "u8 list"

section \<open>Outcomes of C functions\<close>

datatype 'a outcome = Done 'a | Failed | Fault

primrec obind :: "'a outcome \<Rightarrow> ('a \<Rightarrow> 'b outcome) \<Rightarrow> 'b outcome" where
  "obind (Done x) f = f x"
| "obind Failed f = Failed"
| "obind Fault f = Fault"

lemma obind_Done_iff: "obind m f = Done y \<longleftrightarrow> (\<exists>x. m = Done x \<and> f x = Done y)"
  by (cases m) auto

lemma obind_assoc: "obind (obind m f) g = obind m (\<lambda>x. obind (f x) g)"
  by (cases m) simp_all

lemma obind_Fault_iff: "obind m f = Fault \<longleftrightarrow> m = Fault \<or> (\<exists>x. m = Done x \<and> f x = Fault)"
  by (cases m) auto

text \<open>Partial correctness: whatever a computation returns satisfies a predicate.\<close>

definition ensures :: "('a \<Rightarrow> bool) \<Rightarrow> 'a outcome \<Rightarrow> bool" where
  "ensures P m \<longleftrightarrow> (\<forall>x. m = Done x \<longrightarrow> P x)"

lemma ensures_simps [simp]: "ensures P (Done x) \<longleftrightarrow> P x" "ensures P Failed" "ensures P Fault"
  by (simp_all add: ensures_def)

lemma ensuresD: "ensures P m \<Longrightarrow> m = Done x \<Longrightarrow> P x"
  by (simp add: ensures_def)

lemma ensures_obind: "(\<And>x. m = Done x \<Longrightarrow> ensures P (f x)) \<Longrightarrow> ensures P (obind m f)"
  by (cases m) simp_all

lemma ensures_obind_mono: "ensures Q m \<Longrightarrow> (\<And>x. Q x \<Longrightarrow> ensures P (f x)) \<Longrightarrow> ensures P (obind m f)"
  by (cases m) simp_all

lemma ensures_if: "(b \<Longrightarrow> ensures P m) \<Longrightarrow> (\<not> b \<Longrightarrow> ensures P n) \<Longrightarrow> ensures P (if b then m else n)"
  by simp

section \<open>Byte buffers\<close>

definition mem_read :: "nat \<Rightarrow> nat \<Rightarrow> u8 list \<Rightarrow> u8 list outcome" where
  "mem_read off n buf = (if off + n \<le> length buf then Done (take n (drop off buf)) else Fault)"

definition mem_write :: "nat \<Rightarrow> u8 list \<Rightarrow> u8 list \<Rightarrow> u8 list outcome" where
  "mem_write off bs buf =
     (if off + length bs \<le> length buf
      then Done (take off buf @ bs @ drop (off + length bs) buf) else Fault)"

lemma mem_read_Fault_iff [simp]: "mem_read off n buf = Fault \<longleftrightarrow> length buf < off + n"
  by (simp add: mem_read_def)

lemma mem_read_not_Failed [simp]: "mem_read off n buf \<noteq> Failed"
  by (simp add: mem_read_def)

lemma mem_write_Fault_iff [simp]: "mem_write off bs buf = Fault \<longleftrightarrow> length buf < off + length bs"
  by (simp add: mem_write_def)

lemma mem_write_not_Failed [simp]: "mem_write off bs buf \<noteq> Failed"
  by (simp add: mem_write_def)

lemma mem_read_length: "mem_read off n buf = Done bs \<Longrightarrow> length bs = n"
  by (auto simp: mem_read_def split: if_splits)

lemma mem_write_length: "mem_write off bs buf = Done buf' \<Longrightarrow> length buf' = length buf"
  by (auto simp: mem_write_def split: if_splits)

lemma mem_read_write_same:
  assumes "mem_write off bs buf = Done buf'"
  shows "mem_read off (length bs) buf' = Done bs"
  using assms by (auto simp: mem_write_def mem_read_def split: if_splits)

lemma mem_read_write_before:
  assumes "mem_write off bs buf = Done buf'" and "i + n \<le> off"
  shows "mem_read i n buf' = mem_read i n buf"
  using assms by (auto simp: mem_write_def mem_read_def drop_take min_def split: if_splits)

lemma mem_read_write_after:
  assumes "mem_write off bs buf = Done buf'" and "off + length bs \<le> i"
  shows "mem_read i n buf' = mem_read i n buf"
  using assms by (auto simp: mem_write_def mem_read_def split: if_splits)

text \<open>Writing a contiguous block in two parts, the second one first.\<close>

lemma mem_write_Done: "off + length bs \<le> length m \<Longrightarrow> mem_write off bs m = Done (take off m @ bs @ drop (off + length bs) m)"
  by (simp add: mem_write_def)

lemma mem_write_before:
  assumes "q = off + length a" "q + length b \<le> length m"
  shows "obind (mem_write q b m) (mem_write off a) = mem_write off (a @ b) m"
  using assms by (auto simp: mem_write_def add.assoc)

lemma mem_write_after:
  assumes "q = off + length a" "q + length b \<le> length m"
  shows "obind (mem_write off a m) (mem_write q b) = mem_write off (a @ b) m"
  using assms by (auto simp: mem_write_def add.assoc add.commute [of "length b"])

definition put_at :: "nat \<Rightarrow> u8 list \<Rightarrow> u8 list \<Rightarrow> u8 list" where
  "put_at off bs m = take off m @ bs @ drop (off + length bs) m"

lemma mem_write_put_at: "off + length bs \<le> length m \<Longrightarrow> mem_write off bs m = Done (put_at off bs m)"
  by (simp add: mem_write_def put_at_def)

lemma mem_write_Nil: "off \<le> length m \<Longrightarrow> mem_write off [] m = Done m"
  by (simp add: mem_write_def)

lemma put_at_put_at:
  "off + length a + length b \<le> length m \<Longrightarrow> put_at (off + length a) b (put_at off a m) = put_at off (a @ b) m"
  by (simp add: put_at_def add.assoc add.commute [of "length b"])

lemma length_put_at [simp]: "off + length bs \<le> length m \<Longrightarrow> length (put_at off bs m) = length m"
  by (simp add: put_at_def)

text \<open>The bytes \<open>bs\<close> stand in the memory at \<open>off\<close>.\<close>

definition has_at :: "u8 list \<Rightarrow> nat \<Rightarrow> u8 list \<Rightarrow> bool" where
  "has_at mem off bs \<longleftrightarrow> take (length bs) (drop off mem) = bs \<and> off \<le> length mem"

lemma has_at_length: "has_at mem off bs \<Longrightarrow> off + length bs \<le> length mem"
  unfolding has_at_def by (metis add.commute le_diff_conv2 length_drop length_take min.cobounded1 min.commute)

lemma has_at_append: "has_at mem off (a @ b) \<longleftrightarrow> has_at mem off a \<and> has_at mem (off + length a) b"
proof
  assume h: "has_at mem off (a @ b)"
  then have "take (length a + length b) (drop off mem) = a @ b" by (simp add: has_at_def)
  then have "take (length a) (take (length a + length b) (drop off mem)) = a"
    "drop (length a) (take (length a + length b) (drop off mem)) = b" by simp_all
  then show "has_at mem off a \<and> has_at mem (off + length a) b"
    using has_at_length [OF h] by (simp add: has_at_def drop_take add.commute)
next
  assume "has_at mem off a \<and> has_at mem (off + length a) b"
  then show "has_at mem off (a @ b)"
    by (auto simp: has_at_def take_add add.commute)
qed

lemma has_at_put_at: "off + length bs \<le> length m \<Longrightarrow> has_at (put_at off bs m) off bs"
  by (simp add: has_at_def put_at_def)

lemma mem_read_at:
  assumes "has_at mem off bs" "p = off + k" "k + n \<le> length bs"
  shows "mem_read p n mem = Done (take n (drop k bs))"
proof -
  have "take n (drop k bs) = take n (drop k (take (length bs) (drop off mem)))"
    using assms(1) by (simp add: has_at_def)
  also have "\<dots> = take n (drop p mem)" using assms(2,3) by (simp add: drop_take min_def add.commute)
  finally show ?thesis using has_at_length [OF assms(1)] assms(2,3) by (simp add: mem_read_def)
qed

lemma length_concat_const: "(\<And>x. x \<in> set xs \<Longrightarrow> length (f x) = k) \<Longrightarrow> length (concat (map f xs)) = k * length xs"
  by (induction xs) auto

text \<open>Little-endian 16-bit fields: the macros WRITE16 and READ16 of frame802154e-ie.c and the
  field accesses of sixp-pkt.c.\<close>

definition write16 :: "u16 \<Rightarrow> u8 list" where
  "write16 v = [ucast (v AND 0xff), ucast (drop_bit 8 v AND 0xff)]"

definition read16 :: "u8 \<Rightarrow> u8 \<Rightarrow> u16" where
  "read16 lo hi = ucast lo OR push_bit 8 (ucast hi)"

lemma length_write16 [simp]: "length (write16 v) = 2"
  by (simp add: write16_def)

text \<open>Masks of the form \<open>2 ^ k - 1\<close> keep the low bits.\<close>

lemma and_255 [byte_simps]: "(v :: 'a::len word) AND 255 = take_bit 8 v"
  by (simp add: take_bit_eq_mask mask_eq_exp_minus_1)

lemma and_15 [byte_simps]: "(v :: 'a::len word) AND 15 = take_bit 4 v"
  by (simp add: take_bit_eq_mask mask_eq_exp_minus_1)

lemma and_7 [byte_simps]: "(v :: 'a::len word) AND 7 = take_bit 3 v"
  by (simp add: take_bit_eq_mask mask_eq_exp_minus_1)

lemma and_3 [byte_simps]: "(v :: 'a::len word) AND 3 = take_bit 2 v"
  by (simp add: take_bit_eq_mask mask_eq_exp_minus_1)

lemma and_1 [byte_simps]: "(v :: 'a::len word) AND 1 = take_bit 1 v"
  by (simp add: take_bit_eq_mask mask_eq_exp_minus_1)

lemma read16_write16 [simp]: "read16 (write16 v ! 0) (write16 v ! Suc 0) = v"
  by (rule bit_word_eqI) (auto simp: read16_def write16_def and_255 bit_simps)

lemma bit_u8_ge [simp]: "8 \<le> n \<Longrightarrow> \<not> bit (w :: u8) n"
  using bit_imp_le_length [of w n] by auto

lemma write16_read16 [simp]: "write16 (read16 lo hi) = [lo, hi]"
  by (auto simp: read16_def write16_def and_255 bit_simps intro!: bit_word_eqI)


section \<open>Words as numbers\<close>

lemma u8_bound: "unat (w :: u8) < 256"
  using unsigned_less [of w] by simp

lemma u16_bound: "unat (w :: u16) < 65536"
  using unsigned_less [of w] by simp

lemma u32_bound: "unat (w :: u32) < 4294967296"
  using unsigned_less [of w] by simp

lemma unat_word_of_nat_small: "n < 2 ^ LENGTH('a) \<Longrightarrow> unat (word_of_nat n :: 'a::len word) = n"
  by (simp add: unsigned_of_nat take_bit_nat_eq_self)

lemma unat_ucast_mod: "unat (ucast (w :: 'a::len word) :: 'b::len word) = unat w mod 2 ^ LENGTH('b)"
  by (simp add: unsigned_ucast_eq take_bit_eq_mod)

lemma uint_lt_pow: "uint (w :: 'a::len word) < 2 ^ LENGTH('a)"
  by (rule unsigned_less)


section \<open>Searching a list\<close>

lemma find_ex: "x \<in> set xs \<Longrightarrow> P x \<Longrightarrow> \<exists>m. find P xs = Some m \<and> m \<in> set xs \<and> P m"
  by (induction xs) auto

lemma find_sound: "find P xs = Some m \<Longrightarrow> m \<in> set xs \<and> P m"
  by (auto simp: find_Some_iff)

end
