(* ===== verification/RingBuf.thy ===== *)
theory RingBuf
  imports Prelude
begin

text \<open>
  The ring buffers of \<^verbatim>\<open>os/lib/ringbufindex.c\<close> (index-only, used for the transmit queue of every
  TSCH neighbor and for the slot operation's input and dequeued buffers) and
  \<^verbatim>\<open>os/lib/ringbuf.c\<close> (bytes). The interface they promise to their clients is the locale
  \<open>bounded_fifo\<close>; both buffers are interpreted as instances of it.
\<close>

section \<open>ringbufindex.c\<close>

record ringbufindex =
  rb_mask :: u8
  put_ptr :: u8
  get_ptr :: u8

definition ringbufindex_init :: "u8 \<Rightarrow> ringbufindex" where
  "ringbufindex_init sz = \<lparr>rb_mask = sz - 1, put_ptr = 0, get_ptr = 0\<rparr>"

definition ringbufindex_put :: "ringbufindex \<Rightarrow> int \<times> ringbufindex" where
  "ringbufindex_put r =
     (if (put_ptr r - get_ptr r) AND rb_mask r = rb_mask r then (0, r)
      else (1, r\<lparr>put_ptr := (put_ptr r + 1) AND rb_mask r\<rparr>))"

definition ringbufindex_peek_put :: "ringbufindex \<Rightarrow> int" where
  "ringbufindex_peek_put r =
     (if (put_ptr r - get_ptr r) AND rb_mask r = rb_mask r then -1 else uint (put_ptr r))"

definition ringbufindex_get :: "ringbufindex \<Rightarrow> int \<times> ringbufindex" where
  "ringbufindex_get r =
     (if (put_ptr r - get_ptr r) AND rb_mask r > 0
      then (uint (get_ptr r), r\<lparr>get_ptr := (get_ptr r + 1) AND rb_mask r\<rparr>)
      else (-1, r))"

definition ringbufindex_peek_get :: "ringbufindex \<Rightarrow> int" where
  "ringbufindex_peek_get r =
     (if (put_ptr r - get_ptr r) AND rb_mask r > 0 then uint (get_ptr r) else -1)"

definition ringbufindex_size :: "ringbufindex \<Rightarrow> int" where
  "ringbufindex_size r = uint (rb_mask r) + 1"

definition ringbufindex_elements :: "ringbufindex \<Rightarrow> int" where
  "ringbufindex_elements r = uint ((put_ptr r - get_ptr r) AND rb_mask r)"

definition ringbufindex_full :: "ringbufindex \<Rightarrow> bool" where
  "ringbufindex_full r \<longleftrightarrow> (put_ptr r - get_ptr r) AND rb_mask r = rb_mask r"

definition ringbufindex_empty :: "ringbufindex \<Rightarrow> bool" where
  "ringbufindex_empty r \<longleftrightarrow> ringbufindex_elements r = 0"

lemmas ringbufindex_defs = ringbufindex_init_def ringbufindex_put_def ringbufindex_peek_put_def
  ringbufindex_get_def ringbufindex_peek_get_def ringbufindex_size_def
  ringbufindex_elements_def ringbufindex_full_def ringbufindex_empty_def

subsection \<open>Invariant and pointer arithmetic\<close>

text \<open>The buffer has \<open>2 ^ k\<close> slots, the mask selects the \<open>k\<close> low bits, and both
  pointers are slot numbers. The slots in use are \<open>rb_slots\<close>, oldest first.\<close>

definition rb_inv :: "nat \<Rightarrow> ringbufindex \<Rightarrow> bool" where
  "rb_inv k r \<longleftrightarrow> k \<le> 8 \<and> rb_mask r = mask k \<and>
     unat (put_ptr r) < 2 ^ k \<and> unat (get_ptr r) < 2 ^ k"

definition rb_count :: "nat \<Rightarrow> ringbufindex \<Rightarrow> nat" where
  "rb_count k r = (unat (put_ptr r) + (2 ^ k - unat (get_ptr r))) mod 2 ^ k"

definition rb_slots :: "nat \<Rightarrow> ringbufindex \<Rightarrow> nat list" where
  "rb_slots k r = map (\<lambda>i. (unat (get_ptr r) + i) mod 2 ^ k) [0..<rb_count k r]"

lemma unat_and_mask: "unat (w AND mask k) = unat (w :: u8) mod 2 ^ k"
  by (metis take_bit_eq_mask take_bit_eq_mod unsigned_take_bit_eq)

lemma mod_256_mod_pow: "k \<le> 8 \<Longrightarrow> (i :: nat) mod 256 mod 2 ^ k = i mod 2 ^ k"
  using le_imp_power_dvd [of k 8 "2::nat"] by (simp add: mod_mod_cancel)

lemma unat_mask_u8:
  assumes "k \<le> 8"
  shows "unat (mask k :: u8) = 2 ^ k - 1"
proof -
  have "k = 0 \<or> k = 1 \<or> k = 2 \<or> k = 3 \<or> k = 4 \<or> k = 5 \<or> k = 6 \<or> k = 7 \<or> k = 8"
    using assms by arith
  then show ?thesis
    by (elim disjE) (simp_all add: mask_eq_exp_minus_1)
qed

lemma uint_mask_u8: "k \<le> 8 \<Longrightarrow> uint (mask k :: u8) = 2 ^ k - 1"
  using unat_mask_u8 [of k] by (simp add: uint_nat of_nat_diff)

lemma unat_succ_and_mask:
  "k \<le> 8 \<Longrightarrow> unat (((w :: u8) + 1) AND mask k) = (unat w + 1) mod 2 ^ k"
  by (simp add: unat_and_mask unat_word_ariths mod_256_mod_pow)

lemma unat_sub_u8: "unat ((p :: u8) - g) = (unat p + (256 - unat g)) mod 256"
proof -
  have b: "unat p < 256" "unat g < 256"
    using unsigned_less [of p] unsigned_less [of g] by simp_all
  show ?thesis
  proof (cases "unat g \<le> unat p")
    case True
    then have "unat p + (256 - unat g) = (unat p - unat g) + 256"
      using b by simp
    then have "(unat p + (256 - unat g)) mod 256 = unat p - unat g"
      by (simp only: mod_add_self2) (simp add: b less_imp_diff_less)
    then show ?thesis
      using True by (simp add: unat_sub_if')
  next
    case False
    then have "unat p + (256 - unat g) < 256"
      using b by simp
    then show ?thesis
      using False b by (simp add: unat_sub_if')
  qed
qed

lemma unat_sub_and_mask:
  assumes "k \<le> 8" "unat (g :: u8) < 2 ^ k"
  shows "unat ((p - g) AND mask k) = (unat p + (2 ^ k - unat g)) mod 2 ^ k"
proof -
  have d: "(2 :: nat) ^ k dvd 256"
    using le_imp_power_dvd [of k 8 "2::nat"] assms(1) by simp
  have "unat (p - g) mod 2 ^ k = (unat p + (256 - unat g)) mod 256 mod 2 ^ k"
    by (simp only: unat_sub_u8)
  also have "\<dots> = (unat p + (256 - unat g)) mod 2 ^ k"
    by (rule mod_256_mod_pow [OF assms(1)])
  also have "256 - unat g = (2 ^ k - unat g) + (256 - 2 ^ k)"
    using assms(2) d dvd_imp_le [OF d] by simp
  also have "(unat p + ((2 ^ k - unat g) + (256 - 2 ^ k))) mod 2 ^ k
      = (unat p + (2 ^ k - unat g)) mod 2 ^ k"
  proof -
    have "(2::nat) ^ k dvd 256 - 2 ^ k"
      using d by (rule dvd_diff_nat) simp
    then show ?thesis
      by (metis add.assoc dvdE mod_mult_self2)
  qed
  finally show ?thesis
    by (simp add: unat_and_mask)
qed

lemma rb_count_less [simp]: "rb_count k r < 2 ^ k"
  by (simp add: rb_count_def)

lemma length_rb_slots [simp]: "length (rb_slots k r) = rb_count k r"
  by (simp add: rb_slots_def)

lemma rb_slots_less: "i \<in> set (rb_slots k r) \<Longrightarrow> i < 2 ^ k"
  by (auto simp: rb_slots_def)

lemma rb_elems_unat:
  "rb_inv k r \<Longrightarrow> unat ((put_ptr r - get_ptr r) AND rb_mask r) = rb_count k r"
  by (simp add: rb_inv_def rb_count_def unat_sub_and_mask)

lemma rb_full_iff:
  assumes "rb_inv k r"
  shows "(put_ptr r - get_ptr r) AND rb_mask r = rb_mask r \<longleftrightarrow> rb_count k r = 2 ^ k - 1"
proof -
  have "unat (rb_mask r) = 2 ^ k - 1"
    using assms by (simp add: rb_inv_def unat_mask_u8)
  then show ?thesis
    by (metis rb_elems_unat [OF assms] unsigned_word_eqI)
qed

lemma rb_nonempty_iff:
  "rb_inv k r \<Longrightarrow> (put_ptr r - get_ptr r) AND rb_mask r > 0 \<longleftrightarrow> rb_count k r > 0"
  by (metis rb_elems_unat unat_eq_zero neq0_conv word_gt_0)

lemma put_slot_eq:
  "rb_inv k r \<Longrightarrow> unat (put_ptr r) = (unat (get_ptr r) + rb_count k r) mod 2 ^ k"
  by (simp add: rb_inv_def rb_count_def mod_add_right_eq)

lemma mod_succ_sub:
  fixes p g n :: nat
  assumes "p < n" "g < n"
  shows "((p + 1) mod n + (n - g)) mod n = (Suc ((p + (n - g)) mod n)) mod n"
    and "(p + (n - (g + 1) mod n)) mod n = ((p + (n - g)) mod n + (n - 1)) mod n"
proof -
  show "((p + 1) mod n + (n - g)) mod n = (Suc ((p + (n - g)) mod n)) mod n"
    by (simp add: mod_simps)
  show "(p + (n - (g + 1) mod n)) mod n = ((p + (n - g)) mod n + (n - 1)) mod n"
  proof (cases "Suc g = n")
    case True
    then have "(p + (n - g)) mod n + (n - 1) = (p + 1) mod n + g"
      by auto
    moreover have "((p + 1) mod n + g) mod n = (p + (g + 1)) mod n"
      by (simp add: mod_simps)
    ultimately show ?thesis
      using True assms by simp
  next
    case False
    then have "(g + 1) mod n = g + 1" using assms by simp
    moreover have "p + (n - g) + (n - 1) = p + (n - (g + 1)) + n"
      using assms False by simp
    ultimately show ?thesis
      by (metis mod_add_left_eq mod_add_self2)
  qed
qed

subsection \<open>The operations on the slots in use\<close>

lemma rb_inv_init:
  "k \<le> 8 \<Longrightarrow> rb_inv k (ringbufindex_init (word_of_nat (2 ^ k)))"
  by (simp add: rb_inv_def ringbufindex_init_def mask_eq_exp_minus_1)

lemma rb_slots_init: "rb_slots k (ringbufindex_init sz) = []"
  by (simp add: rb_slots_def rb_count_def ringbufindex_init_def)

lemma rb_count_put:
  assumes "rb_inv k r" "rb_count k r < 2 ^ k - 1"
  shows "rb_count k (r\<lparr>put_ptr := (put_ptr r + 1) AND rb_mask r\<rparr>) = Suc (rb_count k r)"
  using assms mod_succ_sub(1) [of "unat (put_ptr r)" "2 ^ k" "unat (get_ptr r)"]
  by (simp add: rb_inv_def rb_count_def unat_succ_and_mask)

lemma rb_count_get:
  assumes "rb_inv k r" "0 < rb_count k r"
  shows "rb_count k (r\<lparr>get_ptr := (get_ptr r + 1) AND rb_mask r\<rparr>) = rb_count k r - 1"
proof -
  have "rb_count k (r\<lparr>get_ptr := (get_ptr r + 1) AND rb_mask r\<rparr>)
      = (rb_count k r + (2 ^ k - 1)) mod 2 ^ k"
    using assms(1) mod_succ_sub(2) [of "unat (put_ptr r)" "2 ^ k" "unat (get_ptr r)"]
    by (simp add: rb_inv_def rb_count_def unat_succ_and_mask)
  also have "rb_count k r + (2 ^ k - 1) = (rb_count k r - 1) + 2 ^ k"
    using assms(2) by simp
  also have "\<dots> mod 2 ^ k = rb_count k r - 1"
    by (simp only: mod_add_self2) (simp add: less_imp_diff_less)
  finally show ?thesis .
qed

lemma ringbufindex_put_spec:
  assumes "rb_inv k r" "ringbufindex_put r = (res, r')"
  shows "rb_inv k r'"
    and "rb_count k r < 2 ^ k - 1 \<Longrightarrow> res = 1 \<and> rb_slots k r' = rb_slots k r @ [unat (put_ptr r)]"
    and "rb_count k r = 2 ^ k - 1 \<Longrightarrow> res = 0 \<and> r' = r"
proof -
  have k: "k \<le> 8" using assms(1) by (simp add: rb_inv_def)
  show "rb_inv k r'"
    using assms by (auto simp: ringbufindex_put_def rb_inv_def unat_succ_and_mask split: if_splits)
  show "res = 0 \<and> r' = r" if "rb_count k r = 2 ^ k - 1"
    using assms that rb_full_iff [OF assms(1)] by (simp add: ringbufindex_put_def)
  show "res = 1 \<and> rb_slots k r' = rb_slots k r @ [unat (put_ptr r)]" if "rb_count k r < 2 ^ k - 1"
    using assms(2) that rb_full_iff [OF assms(1)] rb_count_put [OF assms(1) that]
      put_slot_eq [OF assms(1)]
    by (auto simp: ringbufindex_put_def rb_slots_def)
qed

lemma rb_slots_get:
  assumes "rb_inv k r" "0 < rb_count k r"
  shows "rb_slots k r = unat (get_ptr r) # rb_slots k (r\<lparr>get_ptr := (get_ptr r + 1) AND rb_mask r\<rparr>)"
proof -
  have k: "k \<le> 8" "unat (get_ptr r) < 2 ^ k" "rb_mask r = mask k"
    using assms(1) by (simp_all add: rb_inv_def)
  obtain n where n: "rb_count k r = Suc n"
    using assms(2) by (cases "rb_count k r") auto
  show ?thesis
    using k n rb_count_get [OF assms]
    by (simp add: rb_slots_def upt_conv_Cons [of 0] map_Suc_upt [symmetric] unat_succ_and_mask
        mod_simps del: upt_Suc)
qed

lemma ringbufindex_get_spec:
  assumes "rb_inv k r" "ringbufindex_get r = (res, r')"
  shows "rb_inv k r'"
    and "rb_slots k r = s # ss \<Longrightarrow> res = int s \<and> s = unat (get_ptr r) \<and> rb_slots k r' = ss"
    and "rb_slots k r = [] \<Longrightarrow> res = -1 \<and> r' = r"
proof -
  have c: "rb_slots k r = [] \<longleftrightarrow> rb_count k r = 0"
    by (metis length_0_conv length_rb_slots)
  show "rb_inv k r'"
    using assms by (auto simp: ringbufindex_get_def rb_inv_def unat_succ_and_mask split: if_splits)
  show "res = -1 \<and> r' = r" if "rb_slots k r = []"
    using assms that c rb_nonempty_iff [OF assms(1)] by (simp add: ringbufindex_get_def)
  show "res = int s \<and> s = unat (get_ptr r) \<and> rb_slots k r' = ss" if "rb_slots k r = s # ss"
  proof -
    have p: "0 < rb_count k r" using that c by auto
    show ?thesis
      using assms(2) that p rb_nonempty_iff [OF assms(1)] rb_slots_get [OF assms(1) p]
      by (auto simp: ringbufindex_get_def)
  qed
qed

lemma ringbufindex_peek_spec:
  assumes "rb_inv k r"
  shows "ringbufindex_peek_get r = (case rb_slots k r of [] \<Rightarrow> -1 | s # _ \<Rightarrow> int s)"
    and "ringbufindex_peek_put r = (if rb_count k r = 2 ^ k - 1 then -1 else int (unat (put_ptr r)))"
    and "ringbufindex_elements r = int (length (rb_slots k r))"
    and "ringbufindex_full r \<longleftrightarrow> length (rb_slots k r) = 2 ^ k - 1"
    and "ringbufindex_empty r \<longleftrightarrow> rb_slots k r = []"
    and "ringbufindex_size r = 2 ^ k"
proof -
  have c: "rb_slots k r = [] \<longleftrightarrow> rb_count k r = 0"
    by (metis length_0_conv length_rb_slots)
  show "ringbufindex_peek_get r = (case rb_slots k r of [] \<Rightarrow> -1 | s # _ \<Rightarrow> int s)"
    using rb_nonempty_iff [OF assms] rb_slots_get [OF assms] c
    by (auto simp: ringbufindex_peek_get_def split: list.splits)
  show "ringbufindex_peek_put r = (if rb_count k r = 2 ^ k - 1 then -1 else int (unat (put_ptr r)))"
    using rb_full_iff [OF assms] by (simp add: ringbufindex_peek_put_def)
  show elems: "ringbufindex_elements r = int (length (rb_slots k r))"
    by (simp add: ringbufindex_elements_def flip: rb_elems_unat [OF assms])
  show "ringbufindex_full r \<longleftrightarrow> length (rb_slots k r) = 2 ^ k - 1"
    using rb_full_iff [OF assms] by (simp add: ringbufindex_full_def)
  show "ringbufindex_empty r \<longleftrightarrow> rb_slots k r = []"
    by (simp only: ringbufindex_empty_def elems of_nat_eq_0_iff length_0_conv)
  show "ringbufindex_size r = 2 ^ k"
    using assms uint_mask_u8 [of k] by (simp add: ringbufindex_size_def rb_inv_def)
qed

lemma put_slot_fresh:
  assumes "rb_inv k r" "rb_count k r < 2 ^ k - 1"
  shows "unat (put_ptr r) \<notin> set (rb_slots k r)"
proof
  assume "unat (put_ptr r) \<in> set (rb_slots k r)"
  then obtain i where i: "i < rb_count k r"
      "(unat (get_ptr r) + i) mod 2 ^ k = (unat (get_ptr r) + rb_count k r) mod 2 ^ k"
    using put_slot_eq [OF assms(1)] by (auto simp: rb_slots_def)
  then have "2 ^ k dvd rb_count k r - i"
    using mod_eq_dvd_iff_nat [of "unat (get_ptr r) + i" "unat (get_ptr r) + rb_count k r" "2 ^ k"]
    by simp
  then show False
    using i(1) nat_dvd_not_less [of "rb_count k r - i" "2 ^ k"] rb_count_less [of k r] by simp
qed

section \<open>The interface: a bounded first-in first-out queue\<close>

text \<open>
  \<open>put x s\<close> answers 1 when it stored \<open>x\<close> and 0 when the queue is full; \<open>get s\<close> answers the
  oldest element or None when the queue is empty. An access outside the storage would be
  \<open>Fault\<close>: the laws exclude it.
\<close>

datatype 'a fifo_op = Put 'a | Get

text \<open>A sequence of operations on the buffer, and on an abstract queue of the same capacity.
  The result lists what the gets returned.\<close>

fun fifo_run :: "('a \<Rightarrow> 's \<Rightarrow> (int \<times> 's) outcome) \<Rightarrow> ('s \<Rightarrow> ('a option \<times> 's) outcome) \<Rightarrow>
    'a fifo_op list \<Rightarrow> 's \<Rightarrow> ('a option list \<times> 's) outcome" where
  "fifo_run put get [] s = Done ([], s)"
| "fifo_run put get (Put x # ops) s = obind (put x s) (\<lambda>(_, s'). fifo_run put get ops s')"
| "fifo_run put get (Get # ops) s =
     obind (get s) (\<lambda>(r, s'). obind (fifo_run put get ops s') (\<lambda>(rs, s''). Done (r # rs, s'')))"

fun fifo_spec :: "nat \<Rightarrow> 'a fifo_op list \<Rightarrow> 'a list \<Rightarrow> 'a option list \<times> 'a list" where
  "fifo_spec c [] q = ([], q)"
| "fifo_spec c (Put x # ops) q = fifo_spec c ops (if length q < c then q @ [x] else q)"
| "fifo_spec c (Get # ops) [] = (let (rs, q') = fifo_spec c ops [] in (None # rs, q'))"
| "fifo_spec c (Get # ops) (x # q) = (let (rs, q') = fifo_spec c ops q in (Some x # rs, q'))"

locale bounded_fifo =
  fixes put :: "'a \<Rightarrow> 's \<Rightarrow> (int \<times> 's) outcome"
    and get :: "'s \<Rightarrow> ('a option \<times> 's) outcome"
    and contents :: "'s \<Rightarrow> 'a list"
    and invar :: "'s \<Rightarrow> bool"
    and capacity :: "'s \<Rightarrow> nat"
  assumes put_room:
      "invar s \<Longrightarrow> length (contents s) < capacity s \<Longrightarrow>
         \<exists>s'. put x s = Done (1, s') \<and> invar s' \<and> contents s' = contents s @ [x] \<and>
              capacity s' = capacity s"
    and put_full:
      "invar s \<Longrightarrow> length (contents s) = capacity s \<Longrightarrow> put x s = Done (0, s)"
    and get_some:
      "invar s \<Longrightarrow> contents s = x # xs \<Longrightarrow>
         \<exists>s'. get s = Done (Some x, s') \<and> invar s' \<and> contents s' = xs \<and> capacity s' = capacity s"
    and get_none: "invar s \<Longrightarrow> contents s = [] \<Longrightarrow> get s = Done (None, s)"
    and bounded: "invar s \<Longrightarrow> length (contents s) \<le> capacity s"
begin

lemma run_refines:
  assumes "invar s"
  shows "\<exists>s'. fifo_run put get ops s = Done (fst (fifo_spec (capacity s) ops (contents s)), s') \<and> invar s' \<and>
           contents s' = snd (fifo_spec (capacity s) ops (contents s))"
  using assms
proof (induction ops arbitrary: s)
  case Nil
  then show ?case by simp
next
  case (Cons op ops)
  show ?case
  proof (cases op)
    case (Put x)
    show ?thesis
    proof (cases "length (contents s) < capacity s")
      case True
      with put_room [OF Cons.prems True, of x] Cons.IH Put show ?thesis by force
    next
      case False
      then have "length (contents s) = capacity s"
        using bounded [OF Cons.prems] by simp
      with put_full [OF Cons.prems this, of x] Cons.IH [OF Cons.prems] Put False
      show ?thesis by simp
    qed
  next
    case Get
    show ?thesis
    proof (cases "contents s")
      case Nil
      with get_none [OF Cons.prems Nil] Cons.IH [OF Cons.prems] Get show ?thesis
        by (auto simp: split_beta)
    next
      case (Cons x xs)
      obtain s' where s': "get s = Done (Some x, s')" "invar s'" "contents s' = xs"
          "capacity s' = capacity s"
        using get_some [OF Cons.prems Cons] by blast
      with Cons.IH [OF s'(2)] Get Cons show ?thesis
        by (auto simp: split_beta)
    qed
  qed
qed

lemma puts_then_gets:
  assumes "invar s" "contents s = []" "length xs \<le> capacity s"
  shows "\<exists>s'. fifo_run put get (map Put xs @ replicate (length xs) Get) s = Done (map Some xs, s') \<and>
           contents s' = []"
proof -
  have puts: "fifo_spec c (map Put ys @ ops) q = fifo_spec c ops (q @ ys)"
    if "length q + length ys \<le> c" for c ys ops q
    using that by (induction ys arbitrary: q) auto
  have gets: "fifo_spec c (replicate (length ys) Get) ys = (map Some ys, [])" for c ys
    by (induction ys) auto
  show ?thesis
    using run_refines [OF assms(1), of "map Put xs @ replicate (length xs) Get"]
      puts [of "[]" xs "capacity s" "replicate (length xs) Get"] assms(2,3)
    by (auto simp: gets)
qed

end

section \<open>ringbuf.c\<close>

record ringbuf =
  rbuf_data :: "u8 list"
  rbuf_mask :: u8
  rbuf_put_ptr :: u8
  rbuf_get_ptr :: u8

definition ringbuf_init :: "u8 list \<Rightarrow> u8 \<Rightarrow> ringbuf" where
  "ringbuf_init dataptr sz =
     \<lparr>rbuf_data = dataptr, rbuf_mask = sz - 1, rbuf_put_ptr = 0, rbuf_get_ptr = 0\<rparr>"

definition ringbuf_put :: "u8 \<Rightarrow> ringbuf \<Rightarrow> (int \<times> ringbuf) outcome" where
  "ringbuf_put c r =
     (if (rbuf_put_ptr r - rbuf_get_ptr r) AND rbuf_mask r = rbuf_mask r then Done (0, r)
      else if unat (rbuf_put_ptr r) < length (rbuf_data r)
      then Done (1, r\<lparr>rbuf_data := (rbuf_data r)[unat (rbuf_put_ptr r) := c],
                      rbuf_put_ptr := (rbuf_put_ptr r + 1) AND rbuf_mask r\<rparr>)
      else Fault)"

definition ringbuf_get :: "ringbuf \<Rightarrow> (int \<times> ringbuf) outcome" where
  "ringbuf_get r =
     (if (rbuf_put_ptr r - rbuf_get_ptr r) AND rbuf_mask r > 0
      then if unat (rbuf_get_ptr r) < length (rbuf_data r)
           then Done (uint (rbuf_data r ! unat (rbuf_get_ptr r)),
                      r\<lparr>rbuf_get_ptr := (rbuf_get_ptr r + 1) AND rbuf_mask r\<rparr>)
           else Fault
      else Done (-1, r))"

definition ringbuf_size :: "ringbuf \<Rightarrow> int" where
  "ringbuf_size r = uint (rbuf_mask r) + 1"

definition ringbuf_elements :: "ringbuf \<Rightarrow> int" where
  "ringbuf_elements r = uint ((rbuf_put_ptr r - rbuf_get_ptr r) AND rbuf_mask r)"

text \<open>The indices of a byte buffer are a ringbufindex; the bytes in it are the data at the
  slots in use. The number of index bits is read off the mask.\<close>

definition rbuf_index :: "ringbuf \<Rightarrow> ringbufindex" where
  "rbuf_index r = \<lparr>rb_mask = rbuf_mask r, put_ptr = rbuf_put_ptr r, get_ptr = rbuf_get_ptr r\<rparr>"

definition rbuf_contents :: "nat \<Rightarrow> ringbuf \<Rightarrow> u8 list" where
  "rbuf_contents k r = map ((!) (rbuf_data r)) (rb_slots k (rbuf_index r))"

definition rbuf_inv :: "nat \<Rightarrow> ringbuf \<Rightarrow> bool" where
  "rbuf_inv k r \<longleftrightarrow> rb_inv k (rbuf_index r) \<and> 2 ^ k \<le> length (rbuf_data r)"

text \<open>The byte a get returns is its non-negative result.\<close>

definition rbuf_get_byte :: "ringbuf \<Rightarrow> (u8 option \<times> ringbuf) outcome" where
  "rbuf_get_byte r =
     obind (ringbuf_get r) (\<lambda>(v, r'). Done (if v < 0 then None else Some (word_of_int v), r'))"

lemma ringbuf_put_index:
  "ringbuf_put c r =
     (let (res, i) = ringbufindex_put (rbuf_index r) in
      if res = 0 then Done (0, r)
      else if unat (rbuf_put_ptr r) < length (rbuf_data r)
      then Done (1, r\<lparr>rbuf_data := (rbuf_data r)[unat (rbuf_put_ptr r) := c],
                      rbuf_put_ptr := put_ptr i\<rparr>)
      else Fault)"
  by (simp add: ringbuf_put_def ringbufindex_put_def rbuf_index_def)

lemma ringbuf_get_index:
  "ringbuf_get r =
     (let (res, i) = ringbufindex_get (rbuf_index r) in
      if res = -1 then Done (-1, r)
      else if unat (rbuf_get_ptr r) < length (rbuf_data r)
      then Done (uint (rbuf_data r ! unat (rbuf_get_ptr r)), r\<lparr>rbuf_get_ptr := get_ptr i\<rparr>)
      else Fault)"
proof -
  have "uint (rbuf_get_ptr r) \<noteq> -1"
    using uint_ge_0 [of "rbuf_get_ptr r"] by linarith
  then show ?thesis
    by (simp add: ringbuf_get_def ringbufindex_get_def rbuf_index_def)
qed

text \<open>Storing at the put slot and advancing the index appends; the array keeps the other
  slots in use.\<close>

lemma slots_store:
  assumes "rb_inv k r" "rb_count k r < 2 ^ k - 1" "2 ^ k \<le> length xs"
    and "ringbufindex_put r = (res, r')"
  shows "map ((!) (xs[unat (put_ptr r) := x])) (rb_slots k r') = map ((!) xs) (rb_slots k r) @ [x]"
proof -
  have "rb_slots k r' = rb_slots k r @ [unat (put_ptr r)]"
    using ringbufindex_put_spec(2) [OF assms(1,4,2)] by simp
  moreover have "unat (put_ptr r) < length xs"
    using assms(1,3) by (simp add: rb_inv_def)
  ultimately show ?thesis
    using put_slot_fresh [OF assms(1,2)] by (auto intro: nth_list_update_neq)
qed

lemma rbuf_put_room:
  assumes inv: "rbuf_inv k r" and room: "length (rbuf_contents k r) < 2 ^ k - 1"
  shows "\<exists>r'. ringbuf_put c r = Done (1, r') \<and> rbuf_inv k r' \<and>
           rbuf_contents k r' = rbuf_contents k r @ [c]"
proof -
  let ?i = "rbuf_index r"
  obtain res i where p: "ringbufindex_put ?i = (res, i)"
    by (cases "ringbufindex_put ?i")
  have ri: "rb_inv k ?i" and len: "2 ^ k \<le> length (rbuf_data r)"
    using inv by (simp_all add: rbuf_inv_def)
  have cnt: "rb_count k ?i < 2 ^ k - 1"
    using room by (simp add: rbuf_contents_def)
  note spec = ringbufindex_put_spec [OF ri p]
  have i: "i = ?i\<lparr>put_ptr := put_ptr i\<rparr>" and res: "res = 1"
    using p spec(2) [OF cnt] by (auto simp: ringbufindex_put_def split: if_splits)
  have slot: "unat (rbuf_put_ptr r) < length (rbuf_data r)"
    using ri len by (simp add: rb_inv_def rbuf_index_def)
  let ?r' = "r\<lparr>rbuf_data := (rbuf_data r)[unat (rbuf_put_ptr r) := c], rbuf_put_ptr := put_ptr i\<rparr>"
  have ix: "rbuf_index ?r' = i"
    using i by (simp add: rbuf_index_def)
  have "rbuf_contents k ?r' = rbuf_contents k r @ [c]"
    using slots_store [OF ri cnt len p, of c] ix by (simp add: rbuf_contents_def rbuf_index_def)
  moreover have "rbuf_inv k ?r'"
    using ix spec(1) len by (simp add: rbuf_inv_def)
  ultimately show ?thesis
    using p res slot by (simp add: ringbuf_put_index)
qed

lemma rbuf_put_full:
  assumes "rbuf_inv k r" "length (rbuf_contents k r) = 2 ^ k - 1"
  shows "ringbuf_put c r = Done (0, r)"
proof -
  have "rb_inv k (rbuf_index r)" "rb_count k (rbuf_index r) = 2 ^ k - 1"
    using assms by (simp_all add: rbuf_inv_def rbuf_contents_def)
  then show ?thesis
    using rb_full_iff by (simp add: ringbuf_put_index ringbufindex_put_def)
qed

lemma rbuf_get_some:
  assumes inv: "rbuf_inv k r" and c: "rbuf_contents k r = b # bs"
  shows "\<exists>r'. ringbuf_get r = Done (uint b, r') \<and> rbuf_inv k r' \<and> rbuf_contents k r' = bs \<and>
           rbuf_mask r' = rbuf_mask r"
proof -
  let ?i = "rbuf_index r"
  obtain res i where p: "ringbufindex_get ?i = (res, i)"
    by (cases "ringbufindex_get ?i")
  obtain s ss where s: "rb_slots k ?i = s # ss" "b = rbuf_data r ! s" "bs = map ((!) (rbuf_data r)) ss"
    using c by (auto simp: rbuf_contents_def map_eq_Cons_conv)
  have ri: "rb_inv k ?i" and len: "2 ^ k \<le> length (rbuf_data r)"
    using inv by (simp_all add: rbuf_inv_def)
  note spec = ringbufindex_get_spec [OF ri p]
  have r: "res = int s" "s = unat (rbuf_get_ptr r)" "rb_slots k i = ss"
    using spec(2) [OF s(1)] by (simp_all add: rbuf_index_def)
  let ?r' = "r\<lparr>rbuf_get_ptr := get_ptr i\<rparr>"
  have ix: "rbuf_index ?r' = i"
    using p by (auto simp: rbuf_index_def ringbufindex_get_def split: if_splits)
  have "s < length (rbuf_data r)"
    using rb_slots_less [of s k ?i] s(1) len by simp
  moreover have "res \<noteq> -1"
    using r(1) by simp
  ultimately show ?thesis
    using p r s ix spec(1) len by (simp add: ringbuf_get_index rbuf_contents_def rbuf_inv_def)
qed

lemma rbuf_get_none:
  assumes "rbuf_inv k r" "rbuf_contents k r = []"
  shows "ringbuf_get r = Done (-1, r)"
proof -
  obtain res i where p: "ringbufindex_get (rbuf_index r) = (res, i)"
    by (cases "ringbufindex_get (rbuf_index r)")
  then show ?thesis
    using ringbufindex_get_spec(3) [of k "rbuf_index r" res i] assms
    by (simp add: ringbuf_get_index rbuf_inv_def rbuf_contents_def)
qed

interpretation rbuf: bounded_fifo ringbuf_put rbuf_get_byte "rbuf_contents k" "rbuf_inv k"
  "\<lambda>_. 2 ^ k - 1" for k
proof unfold_locales
  fix s :: ringbuf and x :: u8 and xs
  show "length (rbuf_contents k s) < 2 ^ k - 1 \<Longrightarrow> rbuf_inv k s \<Longrightarrow>
      \<exists>s'. ringbuf_put x s = Done (1, s') \<and> rbuf_inv k s' \<and>
        rbuf_contents k s' = rbuf_contents k s @ [x] \<and> (2::nat) ^ k - 1 = 2 ^ k - 1"
    using rbuf_put_room by simp
  show "rbuf_inv k s \<Longrightarrow> length (rbuf_contents k s) = 2 ^ k - 1 \<Longrightarrow> ringbuf_put x s = Done (0, s)"
    by (rule rbuf_put_full)
  show "\<exists>s'. rbuf_get_byte s = Done (Some x, s') \<and> rbuf_inv k s' \<and> rbuf_contents k s' = xs \<and>
      (2::nat) ^ k - 1 = 2 ^ k - 1" if "rbuf_inv k s" "rbuf_contents k s = x # xs"
    using rbuf_get_some [OF that] by (force simp: rbuf_get_byte_def not_less)
  show "rbuf_inv k s \<Longrightarrow> rbuf_contents k s = [] \<Longrightarrow> rbuf_get_byte s = Done (None, s)"
    by (simp add: rbuf_get_byte_def rbuf_get_none)
  show "length (rbuf_contents k s) \<le> 2 ^ k - 1" if "rbuf_inv k s"
    using rb_count_less [of k "rbuf_index s"] by (simp add: rbuf_contents_def Suc_le_eq le_diff_conv2)
qed

lemma rbuf_inv_init:
  assumes "k \<le> 8" "2 ^ k \<le> length d"
  shows "rbuf_inv k (ringbuf_init d (word_of_nat (2 ^ k)))"
    "rbuf_contents k (ringbuf_init d (word_of_nat (2 ^ k))) = []"
  using assms rb_inv_init [of k] rb_slots_init [of k "word_of_nat (2 ^ k)"]
  by (simp_all add: rbuf_inv_def rbuf_contents_def ringbuf_init_def rbuf_index_def ringbufindex_init_def)

section \<open>Properties\<close>



text \<open>C28. The index-only ring buffer: what \<open>put\<close>, \<open>get\<close> and the peeks do to the slots in use.
  A put takes a slot that is not in use and makes it the newest, or answers 0 when \<open>2 ^ k - 1\<close>
  slots are in use; a get frees the oldest, or answers -1 when none is; the invariant is kept.\<close>

theorem ringbufindex_ops:
  assumes "rb_inv k r"
  shows "(case ringbufindex_put r of (res, r') \<Rightarrow> rb_inv k r' \<and>
           (if length (rb_slots k r) = 2 ^ k - 1 then res = 0 \<and> r' = r \<and> ringbufindex_peek_put r = -1
            else res = 1 \<and> ringbufindex_peek_put r = int (unat (put_ptr r)) \<and>
                 unat (put_ptr r) \<notin> set (rb_slots k r) \<and>
                 rb_slots k r' = rb_slots k r @ [unat (put_ptr r)])) \<and>
         (case ringbufindex_get r of (res, r') \<Rightarrow> rb_inv k r' \<and> ringbufindex_peek_get r = res \<and>
           (case rb_slots k r of [] \<Rightarrow> res = -1 \<and> r' = r | s # ss \<Rightarrow> res = int s \<and> rb_slots k r' = ss))"
    (is "?put \<and> ?get")
proof -
  obtain p q where e: "ringbufindex_put r = (fst p, snd p)" "ringbufindex_get r = (fst q, snd q)"
    by (metis prod.collapse)
  have lt: "rb_count k r \<noteq> 2 ^ k - 1 \<Longrightarrow> rb_count k r < 2 ^ k - 1"
    using rb_count_less [of k r] by linarith
  have ?put
    using ringbufindex_put_spec [OF assms e(1)] ringbufindex_peek_spec(2) [OF assms] lt
      put_slot_fresh [OF assms] e(1) by auto
  moreover have ?get
    using ringbufindex_get_spec [OF assms e(2)] ringbufindex_peek_spec(1) [OF assms] e(2)
    by (cases "rb_slots k r") auto
  ultimately show ?thesis ..
qed

theorem ringbufindex_ops_witness:
  "snd (ringbufindex_get (snd (ringbufindex_put \<lparr>rb_mask = 3, put_ptr = 3, get_ptr = 2\<rparr>)))
     = \<lparr>rb_mask = 3, put_ptr = 0, get_ptr = 3\<rparr> \<and>
   rb_inv 2 (snd (ringbufindex_put \<lparr>rb_mask = 3, put_ptr = 3, get_ptr = 2\<rparr>))"
  using ringbufindex_ops [of 2 "\<lparr>rb_mask = 3, put_ptr = 3, get_ptr = 2\<rparr>"]
  by (simp add: rb_inv_def ringbufindex_put_def ringbufindex_get_def mask_eq_exp_minus_1)

end
