(* ===== verification/Memb.thy ===== *)
theory Memb
  imports Prelude
begin

text \<open>
  The fixed-size block allocator of \<^verbatim>\<open>os/lib/memb.c\<close>. A pool has \<open>mb_num\<close> blocks, a reference
  count per block and the blocks themselves; a pointer to a block is its index, and a pointer
  that is no block of the pool is an index outside it. Every pool of the development
  (neighbors, packets, links, slotframes, transactions) is a value of this type, so identity and
  aliasing of blocks are visible. The contract is the locale \<open>block_pool\<close>.
\<close>

record 'b memb =
  mb_num :: nat
  mb_count :: "nat \<Rightarrow> int"
  mb_mem :: "nat \<Rightarrow> 'b"

definition memb_init :: "'b \<Rightarrow> 'b memb \<Rightarrow> 'b memb" where
  "memb_init zero m = m\<lparr>mb_count := \<lambda>_. 0, mb_mem := \<lambda>_. zero\<rparr>"

definition memb_alloc :: "'b memb \<Rightarrow> nat option \<times> 'b memb" where
  "memb_alloc m =
     (case find (\<lambda>i. mb_count m i = 0) [0..<mb_num m] of
        Some i \<Rightarrow> (Some i, m\<lparr>mb_count := (mb_count m)(i := mb_count m i + 1)\<rparr>)
      | None \<Rightarrow> (None, m))"

definition memb_free :: "nat \<Rightarrow> 'b memb \<Rightarrow> int \<times> 'b memb" where
  "memb_free ptr m =
     (case find (\<lambda>i. i = ptr) [0..<mb_num m] of
        Some i \<Rightarrow>
          (let m' = if mb_count m i > 0
                    then m\<lparr>mb_count := (mb_count m)(i := mb_count m i - 1)\<rparr> else m
           in (mb_count m' i, m'))
      | None \<Rightarrow> (-1, m))"

definition memb_inmemb :: "nat \<Rightarrow> 'b memb \<Rightarrow> bool" where
  "memb_inmemb ptr m \<longleftrightarrow> ptr < mb_num m"

definition memb_numfree :: "'b memb \<Rightarrow> nat" where
  "memb_numfree m = length (filter (\<lambda>i. mb_count m i = 0) [0..<mb_num m])"

text \<open>Writing a field of a block through its pointer.\<close>

definition blk_upd :: "nat \<Rightarrow> ('b \<Rightarrow> 'b) \<Rightarrow> 'b memb \<Rightarrow> 'b memb" where
  "blk_upd i f m = m\<lparr>mb_mem := (mb_mem m)(i := f (mb_mem m i))\<rparr>"

section \<open>Invariant and allocated blocks\<close>

definition memb_inv :: "'b memb \<Rightarrow> bool" where
  "memb_inv m \<longleftrightarrow> (\<forall>i < mb_num m. mb_count m i \<in> {0, 1})"

definition memb_used :: "'b memb \<Rightarrow> nat set" where
  "memb_used m = {i. i < mb_num m \<and> mb_count m i \<noteq> 0}"

lemma find_upt_eq: "find (\<lambda>i. i = p) [0..<n] = (if p < n then Some p else None)"
proof (cases "p < n")
  case True
  then have "\<exists>i<length [0..<n]. [0..<n] ! i = p \<and> p = [0..<n] ! i \<and> (\<forall>j<i. [0..<n] ! j \<noteq> p)"
    by (intro exI [of _ p]) simp
  with True show ?thesis by (simp add: find_Some_iff)
qed (simp add: find_None_iff)

lemma finite_memb_used [simp]: "finite (memb_used m)"
  by (simp add: memb_used_def)

lemma memb_used_less: "i \<in> memb_used m \<Longrightarrow> i < mb_num m"
  by (simp add: memb_used_def)

lemma card_memb_used: "card (memb_used m) \<le> mb_num m"
  using card_mono [of "{..<mb_num m}" "memb_used m"] by (auto simp: memb_used_def)

lemma memb_numfree_eq: "memb_numfree m = mb_num m - card (memb_used m)"
proof -
  have "memb_numfree m = card ({..<mb_num m} - memb_used m)"
    unfolding memb_numfree_def by (subst distinct_card [symmetric]) (auto intro!: arg_cong [of _ _ card] simp: memb_used_def)
  then show ?thesis
    by (simp add: card_Diff_subset memb_used_def subset_iff)
qed

lemma memb_init_inv [simp]: "memb_inv (memb_init z m)"
  by (simp add: memb_inv_def memb_init_def)

lemma memb_init_used [simp]: "memb_used (memb_init z m) = {}"
  by (simp add: memb_used_def memb_init_def)

lemma memb_init_mem [simp]: "mb_mem (memb_init z m) i = z"
  by (simp add: memb_init_def)

lemma memb_init_num [simp]: "mb_num (memb_init z m) = mb_num m"
  by (simp add: memb_init_def)

lemma memb_alloc_cases:
  obtains (full) "memb_alloc m = (None, m)" "memb_used m = {..<mb_num m}"
  | (block) i where "memb_alloc m = (Some i, m\<lparr>mb_count := (mb_count m)(i := 1)\<rparr>)"
      "i < mb_num m" "i \<notin> memb_used m" "mb_count m i = 0"
proof (cases "find (\<lambda>i. mb_count m i = 0) [0..<mb_num m]")
  case None
  then show ?thesis
    by (intro full) (simp add: memb_alloc_def, auto simp: memb_used_def find_None_iff)
next
  case (Some i)
  then have "i < mb_num m" "mb_count m i = 0"
    by (auto simp: find_Some_iff)
  then show ?thesis
    using Some block by (simp add: memb_alloc_def memb_used_def)
qed

lemma memb_alloc_None: "memb_alloc m = (None, m') \<Longrightarrow> m' = m \<and> memb_used m = {..<mb_num m}"
  by (cases rule: memb_alloc_cases [of m]) auto

lemma memb_alloc_Some:
  assumes "memb_alloc m = (Some i, m')"
  shows "i < mb_num m" "i \<notin> memb_used m" "memb_used m' = insert i (memb_used m)"
    "mb_num m' = mb_num m" "mb_mem m' = mb_mem m" "memb_inv m \<Longrightarrow> memb_inv m'"
  using assms by (cases rule: memb_alloc_cases [of m]; auto simp: memb_used_def memb_inv_def)+

lemma memb_free_eq:
  assumes "memb_inv m" "i \<in> memb_used m"
  shows "memb_free i m = (0, m\<lparr>mb_count := (mb_count m)(i := 0)\<rparr>)"
  using assms by (auto simp: memb_free_def memb_used_def memb_inv_def find_upt_eq)

lemma memb_free_unused:
  assumes "memb_inv m" "i \<notin> memb_used m"
  shows "memb_free i m = (if i < mb_num m then 0 else -1, m)"
  using assms by (auto simp: memb_free_def memb_used_def memb_inv_def find_upt_eq)

lemma memb_free_props:
  assumes "memb_inv m"
  shows "memb_inv (snd (memb_free i m))" "memb_used (snd (memb_free i m)) = memb_used m - {i}"
    "mb_num (snd (memb_free i m)) = mb_num m" "mb_mem (snd (memb_free i m)) = mb_mem m"
proof -
  have m: "snd (memb_free i m) = (if i \<in> memb_used m then m\<lparr>mb_count := (mb_count m)(i := 0)\<rparr> else m)"
    using memb_free_eq [OF assms] memb_free_unused [OF assms] by simp
  show "memb_inv (snd (memb_free i m))" "mb_num (snd (memb_free i m)) = mb_num m"
    "mb_mem (snd (memb_free i m)) = mb_mem m"
    using assms by (simp_all add: m memb_inv_def)
  show "memb_used (snd (memb_free i m)) = memb_used m - {i}"
    by (auto simp: m memb_used_def split: if_splits)
qed

lemma blk_upd_simps [simp]:
  "mb_num (blk_upd i f m) = mb_num m" "mb_count (blk_upd i f m) = mb_count m"
  "mb_mem (blk_upd i f m) j = (if j = i then f (mb_mem m i) else mb_mem m j)"
  "memb_used (blk_upd i f m) = memb_used m" "memb_inv (blk_upd i f m) = memb_inv m"
  by (simp_all add: blk_upd_def memb_used_def memb_inv_def)

section \<open>The contract\<close>

locale block_pool =
  fixes alloc :: "'s \<Rightarrow> nat option \<times> 's"
    and free :: "nat \<Rightarrow> 's \<Rightarrow> 's"
    and used :: "'s \<Rightarrow> nat set"
    and invar :: "'s \<Rightarrow> bool"
    and size_of :: "'s \<Rightarrow> nat"
  assumes alloc_Some: "invar s \<Longrightarrow> alloc s = (Some i, s') \<Longrightarrow>
      invar s' \<and> i \<notin> used s \<and> used s' = insert i (used s) \<and> size_of s' = size_of s"
    and alloc_None: "invar s \<Longrightarrow> alloc s = (None, s') \<Longrightarrow> s' = s \<and> card (used s) = size_of s"
    and free: "invar s \<Longrightarrow> invar (free i s) \<and> used (free i s) = used s - {i} \<and>
      size_of (free i s) = size_of s"
    and used_bound: "invar s \<Longrightarrow> finite (used s) \<and> card (used s) \<le> size_of s"
begin

text \<open>Allocating \<open>n\<close> blocks in a row: distinct blocks, none of them in use before; it succeeds exactly
  when at least \<open>n\<close> blocks are free.\<close>

fun alloc_n :: "nat \<Rightarrow> 's \<Rightarrow> (nat list \<times> 's) option" where
  "alloc_n 0 s = Some ([], s)"
| "alloc_n (Suc n) s =
     (case alloc s of (None, _) \<Rightarrow> None
      | (Some i, s') \<Rightarrow> (case alloc_n n s' of None \<Rightarrow> None | Some (is, s'') \<Rightarrow> Some (i # is, s'')))"

lemma alloc_n_Some:
  assumes "invar s" "alloc_n n s = Some (is, s')"
  shows "invar s' \<and> length is = n \<and> distinct is \<and> set is \<inter> used s = {} \<and>
    used s' = set is \<union> used s \<and> size_of s' = size_of s"
  using assms
proof (induction n arbitrary: s "is")
  case (Suc n)
  then obtain i s1 js where s1: "alloc s = (Some i, s1)" "alloc_n n s1 = Some (js, s')" "is = i # js"
    by (auto split: prod.splits option.splits)
  note a = alloc_Some [OF Suc.prems(1) s1(1)]
  with Suc.IH [of s1 js] s1 show ?case by auto
qed simp

lemma alloc_n_succeeds:
  assumes "invar s" "card (used s) + n \<le> size_of s"
  shows "alloc_n n s \<noteq> None"
  using assms
proof (induction n arbitrary: s)
  case (Suc n)
  obtain r s1 where r: "alloc s = (r, s1)" by (cases "alloc s")
  show ?case
  proof (cases r)
    case None
    then show ?thesis using alloc_None [OF Suc.prems(1)] r Suc.prems(2) by simp
  next
    case (Some i)
    then have a: "invar s1 \<and> i \<notin> used s \<and> used s1 = insert i (used s) \<and> size_of s1 = size_of s"
      using alloc_Some [OF Suc.prems(1)] r by simp
    then have "card (used s1) = Suc (card (used s))"
      using used_bound [OF Suc.prems(1)] by simp
    then have "alloc_n n s1 \<noteq> None"
      using Suc.IH [of s1] a Suc.prems(2) by simp
    then show ?thesis using r Some by auto
  qed
qed simp

end

interpretation memb_pool: block_pool memb_alloc "\<lambda>i m. snd (memb_free i m)" memb_used memb_inv mb_num
proof unfold_locales
  fix m m' :: "'b memb" and i
  show "memb_inv m' \<and> i \<notin> memb_used m \<and> memb_used m' = insert i (memb_used m) \<and> mb_num m' = mb_num m"
    if "memb_inv m" "memb_alloc m = (Some i, m')"
    using memb_alloc_Some [OF that(2)] that(1) by simp
  show "m' = m \<and> card (memb_used m) = mb_num m" if "memb_alloc m = (None, m')"
    using memb_alloc_None [OF that] by simp
  show "memb_inv m \<Longrightarrow> memb_inv (snd (memb_free i m)) \<and> memb_used (snd (memb_free i m)) = memb_used m - {i} \<and>
      mb_num (snd (memb_free i m)) = mb_num m"
    by (simp add: memb_free_props)
  show "finite (memb_used m) \<and> card (memb_used m) \<le> mb_num m"
    by (simp add: card_memb_used)
qed

section \<open>Properties\<close>

text \<open>C29. A pool never hands out a block that is in use, succeeds exactly while a block is free, and
  freeing a block makes exactly that block available again; freeing twice changes nothing.\<close>

theorem memb_alloc_free:
  assumes "memb_inv m"
  shows "(case memb_alloc m of
            (None, m') \<Rightarrow> m' = m \<and> memb_numfree m = 0
          | (Some i, m') \<Rightarrow> i < mb_num m \<and> i \<notin> memb_used m \<and> memb_inv m' \<and>
              memb_used m' = insert i (memb_used m) \<and> memb_numfree m = Suc (memb_numfree m') \<and>
              snd (memb_free i m') = m \<and> memb_free i m = (0, m))"
proof (cases rule: memb_alloc_cases [of m])
  case full
  then show ?thesis by (simp add: memb_numfree_eq)
next
  case (block i)
  note p = memb_alloc_Some [OF block(1)]
  have "memb_numfree m = Suc (memb_numfree (m\<lparr>mb_count := (mb_count m)(i := 1)\<rparr>))"
    using p block(2,3) card_memb_used [of "m\<lparr>mb_count := (mb_count m)(i := 1)\<rparr>"]
    by (simp add: memb_numfree_eq)
  moreover have "snd (memb_free i (m\<lparr>mb_count := (mb_count m)(i := 1)\<rparr>)) = m"
    using block by (simp add: memb_free_def find_upt_eq fun_upd_idem)
  ultimately show ?thesis
    using p block assms memb_free_unused [OF assms, of i] by simp
qed

theorem memb_alloc_free_witness:
  "memb_numfree \<lparr>mb_num = 3, mb_count = (\<lambda>_. 0)(0 := 1), mb_mem = \<lambda>_. (0::nat)\<rparr> = 2 \<and>
   fst (memb_alloc \<lparr>mb_num = 3, mb_count = (\<lambda>_. 0)(0 := 1), mb_mem = \<lambda>_. (0::nat)\<rparr>) = Some 1"
  using memb_alloc_free [of "\<lparr>mb_num = 3, mb_count = (\<lambda>_. 0)(0 := 1), mb_mem = \<lambda>_. (0::nat)\<rparr>"]
  by (simp add: memb_inv_def memb_alloc_def memb_numfree_def upt_conv_Cons)

end
