(* ===== verification/LinkedList.thy ===== *)
theory LinkedList
  imports Prelude
begin

text \<open>
  The linked lists of \<^verbatim>\<open>os/lib/list.c\<close>. The list variable is \<open>l_head\<close>; the \<open>next\<close> field of every
  item is the heap \<open>l_next\<close>, shared with any other list. The loops are partial functions into
  \<open>option\<close>: on a cyclic chain they do not return, which is None, and following a NULL pointer
  is None as well. \<open>chain\<close> says that the head reaches NULL through a given list of items; on such lists
  every operation returns, and it does to the list what \<open>item_list\<close>, the interface the
  client theories use, promises.
\<close>

record lheap =
  l_head :: "nat option"
  l_next :: "nat \<Rightarrow> nat option"

definition list_init :: "lheap \<Rightarrow> lheap" where
  "list_init s = s\<lparr>l_head := None\<rparr>"

definition list_head :: "lheap \<Rightarrow> nat option" where
  "list_head s = l_head s"

definition list_copy :: "lheap \<Rightarrow> lheap \<Rightarrow> lheap" where
  "list_copy dst src = dst\<lparr>l_head := l_head src\<rparr>"

partial_function (option) list_tail_loop :: "(nat \<Rightarrow> nat option) \<Rightarrow> nat \<Rightarrow> nat option" where
  "list_tail_loop nx l = (case nx l of None \<Rightarrow> Some l | Some l' \<Rightarrow> list_tail_loop nx l')"

definition list_tail :: "lheap \<Rightarrow> nat option option" where
  "list_tail s =
     (case l_head s of None \<Rightarrow> Some None
      | Some l \<Rightarrow> (case list_tail_loop (l_next s) l of None \<Rightarrow> None | Some t \<Rightarrow> Some (Some t)))"

text \<open>The body of the match in the removal loop: bypass the item, then clear its \<open>next\<close>.\<close>

definition list_unlink :: "nat \<Rightarrow> nat option \<Rightarrow> lheap \<Rightarrow> lheap" where
  "list_unlink x r s =
     (let s1 = (case r of None \<Rightarrow> s\<lparr>l_head := l_next s x\<rparr>
                | Some y \<Rightarrow> s\<lparr>l_next := (l_next s)(y := l_next s x)\<rparr>)
      in s1\<lparr>l_next := (l_next s1)(x := None)\<rparr>)"

partial_function (option) list_remove_loop ::
    "nat \<Rightarrow> nat option \<Rightarrow> nat option \<Rightarrow> lheap \<Rightarrow> lheap option" where
  "list_remove_loop item r l s =
     (case l of None \<Rightarrow> Some s
      | Some x \<Rightarrow>
          if x = item then
            Some (list_unlink x r s)
          else list_remove_loop item (Some x) (l_next s x) s)"

definition list_remove :: "nat \<Rightarrow> lheap \<Rightarrow> lheap option" where
  "list_remove item s =
     (if l_head s = None then Some s else list_remove_loop item None (l_head s) s)"

definition list_add :: "nat \<Rightarrow> lheap \<Rightarrow> lheap option" where
  "list_add item s =
     (case list_remove item s of None \<Rightarrow> None
      | Some s1 \<Rightarrow>
          (let s2 = s1\<lparr>l_next := (l_next s1)(item := None)\<rparr> in
           case list_tail s2 of None \<Rightarrow> None
           | Some None \<Rightarrow> Some (s2\<lparr>l_head := Some item\<rparr>)
           | Some (Some l) \<Rightarrow> Some (s2\<lparr>l_next := (l_next s2)(l := Some item)\<rparr>)))"

definition list_push :: "nat \<Rightarrow> lheap \<Rightarrow> lheap option" where
  "list_push item s =
     (case list_remove item s of None \<Rightarrow> None
      | Some s1 \<Rightarrow> Some (s1\<lparr>l_next := (l_next s1)(item := l_head s1), l_head := Some item\<rparr>))"

partial_function (option) list_chop_loop :: "(nat \<Rightarrow> nat option) \<Rightarrow> nat \<Rightarrow> nat option" where
  "list_chop_loop nx l =
     (case nx l of None \<Rightarrow> None
      | Some l' \<Rightarrow> (case nx l' of None \<Rightarrow> Some l | Some _ \<Rightarrow> list_chop_loop nx l'))"

definition list_chop :: "lheap \<Rightarrow> (nat option \<times> lheap) option" where
  "list_chop s =
     (case l_head s of None \<Rightarrow> Some (None, s)
      | Some l \<Rightarrow>
          if l_next s l = None then Some (Some l, s\<lparr>l_head := None\<rparr>)
          else (case list_chop_loop (l_next s) l of None \<Rightarrow> None
                | Some p \<Rightarrow> Some (l_next s p, s\<lparr>l_next := (l_next s)(p := None)\<rparr>)))"

definition list_pop :: "lheap \<Rightarrow> nat option \<times> lheap" where
  "list_pop s =
     (case l_head s of None \<Rightarrow> (None, s) | Some l \<Rightarrow> (Some l, s\<lparr>l_head := l_next s l\<rparr>))"

partial_function (option) list_length_loop :: "(nat \<Rightarrow> nat option) \<Rightarrow> nat option \<Rightarrow> int \<Rightarrow> int option" where
  "list_length_loop nx l n =
     (case l of None \<Rightarrow> Some n | Some x \<Rightarrow> list_length_loop nx (nx x) (n + 1))"

definition list_length :: "lheap \<Rightarrow> int option" where
  "list_length s = list_length_loop (l_next s) (l_head s) 0"

definition list_insert :: "nat option \<Rightarrow> nat \<Rightarrow> lheap \<Rightarrow> lheap option" where
  "list_insert previtem newitem s =
     (case previtem of None \<Rightarrow> list_push newitem s
      | Some p \<Rightarrow>
          (case list_remove newitem s of None \<Rightarrow> None
           | Some s1 \<Rightarrow>
               (let s2 = s1\<lparr>l_next := (l_next s1)(newitem := l_next s1 p)\<rparr>
                in Some (s2\<lparr>l_next := (l_next s2)(p := Some newitem)\<rparr>))))"

definition list_item_next :: "nat option \<Rightarrow> lheap \<Rightarrow> nat option" where
  "list_item_next item s = (case item of None \<Rightarrow> None | Some x \<Rightarrow> l_next s x)"

section \<open>Chains\<close>

fun chain :: "(nat \<Rightarrow> nat option) \<Rightarrow> nat option \<Rightarrow> nat list \<Rightarrow> bool" where
  "chain nx p [] \<longleftrightarrow> p = None"
| "chain nx p (x # xs) \<longleftrightarrow> p = Some x \<and> chain nx (nx x) xs"

text \<open>A chain up to, and not including, a given end.\<close>

fun seg :: "(nat \<Rightarrow> nat option) \<Rightarrow> nat option \<Rightarrow> nat list \<Rightarrow> nat option \<Rightarrow> bool" where
  "seg nx p [] q \<longleftrightarrow> p = q"
| "seg nx p (x # xs) q \<longleftrightarrow> p = Some x \<and> seg nx (nx x) xs q"

lemma chain_seg: "chain nx p xs = seg nx p xs None"
  by (induction xs arbitrary: p) auto

lemma seg_append: "seg nx p (xs @ ys) q \<longleftrightarrow> (\<exists>r. seg nx p xs r \<and> seg nx r ys q)"
  by (induction xs arbitrary: p) auto

lemma seg_frame [simp]: "x \<notin> set xs \<Longrightarrow> seg (nx(x := v)) p xs q = seg nx p xs q"
  by (induction xs arbitrary: p) auto

lemma chain_unique: "chain nx p xs \<Longrightarrow> chain nx p ys \<Longrightarrow> xs = ys"
proof (induction xs arbitrary: p ys)
  case Nil
  then show ?case by (cases ys) auto
next
  case (Cons x xs)
  then show ?case by (cases ys) auto
qed

lemma chain_distinct: "chain nx p xs \<Longrightarrow> distinct xs"
proof (induction xs arbitrary: p)
  case (Cons x xs)
  have "x \<notin> set xs"
  proof
    assume "x \<in> set xs"
    then obtain ys zs where "xs = ys @ x # zs" by (auto simp: in_set_conv_decomp)
    then have "chain nx (nx x) zs" "chain nx (nx x) xs"
      using Cons.prems by (auto simp: chain_seg seg_append)
    then have "zs = xs" by (rule chain_unique)
    then show False using \<open>xs = ys @ x # zs\<close> by (metis length_append length_Cons less_add_Suc2 nat_less_le)
  qed
  then show ?case using Cons by auto
qed simp

lemma chain_frame [simp]: "x \<notin> set xs \<Longrightarrow> chain (nx(x := v)) p xs = chain nx p xs"
  by (simp add: chain_seg)

section \<open>The loops return\<close>

lemma list_tail_loop_chain:
  "chain nx (Some x) (x # xs) \<Longrightarrow> list_tail_loop nx x = Some (last (x # xs))"
proof (induction xs arbitrary: x)
  case Nil
  then show ?case by (subst list_tail_loop.simps) simp
next
  case (Cons y ys)
  then show ?case by (subst list_tail_loop.simps) simp
qed

lemma list_length_loop_chain: "chain nx p xs \<Longrightarrow> list_length_loop nx p n = Some (n + int (length xs))"
proof (induction xs arbitrary: p n)
  case Nil
  then show ?case by (subst list_length_loop.simps) simp
next
  case (Cons x xs)
  then show ?case by (subst list_length_loop.simps) simp
qed

lemma list_chop_loop_chain:
  "chain nx (Some x) (x # xs @ [y, z]) \<Longrightarrow> list_chop_loop nx x = Some y"
proof (induction xs arbitrary: x)
  case Nil
  then have "list_chop_loop nx y = Some y"
    by (subst list_chop_loop.simps) simp
  with Nil show ?case by (subst list_chop_loop.simps) simp
next
  case (Cons w ws)
  then have "list_chop_loop nx w = Some y" by simp
  moreover obtain v vs where "ws @ [y, z] = v # vs" by (cases ws) auto
  ultimately show ?case using Cons.prems by (subst list_chop_loop.simps) simp
qed

definition is_list :: "lheap \<Rightarrow> nat list \<Rightarrow> bool" where
  "is_list s xs \<longleftrightarrow> chain (l_next s) (l_head s) xs"

lemma is_list_distinct: "is_list s xs \<Longrightarrow> distinct xs"
  by (simp add: is_list_def chain_distinct)

lemma list_remove_loop_absent:
  "chain (l_next s) p xs \<Longrightarrow> x \<notin> set xs \<Longrightarrow> list_remove_loop x r p s = Some s"
proof (induction xs arbitrary: p r)
  case Nil
  then show ?case by (subst list_remove_loop.simps) simp
next
  case (Cons y ys)
  then show ?case by (subst list_remove_loop.simps) auto
qed

lemma list_remove_loop_present:
  "seg (l_next s) p ys (Some x) \<Longrightarrow> x \<notin> set ys \<Longrightarrow>
   list_remove_loop x r p s =
     Some (list_unlink x (if ys = [] then r else Some (last ys)) s)"
proof (induction ys arbitrary: p r)
  case Nil
  then show ?case by (subst list_remove_loop.simps) simp
next
  case (Cons y ys)
  then show ?case by (subst list_remove_loop.simps) auto
qed


section \<open>The operations on chains\<close>

lemma list_remove_is_list:
  assumes "is_list s xs"
  shows "\<exists>s'. list_remove x s = Some s' \<and> is_list s' (remove1 x xs) \<and>
           (\<forall>y. y \<notin> set xs \<longrightarrow> l_next s' y = l_next s y)"
proof (cases "x \<in> set xs")
  case False
  have "list_remove x s = Some s"
    using assms False list_remove_loop_absent [of s "l_head s" xs x None]
    by (simp add: list_remove_def is_list_def)
  then show ?thesis using assms False by (simp add: remove1_idem)
next
  case True
  then obtain ys zs where xs: "xs = ys @ x # zs" and x: "x \<notin> set ys"
    by (meson split_list_first)
  have d: "distinct xs" using assms by (rule is_list_distinct)
  have seg: "seg (l_next s) (l_head s) ys (Some x)" and rest: "chain (l_next s) (l_next s x) zs"
    using assms xs by (auto simp: is_list_def chain_seg seg_append)
  have hd: "l_head s \<noteq> None"
    using seg by (cases ys) auto
  have r1: "remove1 x xs = ys @ zs"
    using xs x by (simp add: remove1_append)
  show ?thesis
  proof (cases ys rule: rev_cases)
    case Nil
    then show ?thesis
      using list_remove_loop_present [OF seg x, of None] hd rest r1 d xs
      by (auto simp: list_remove_def is_list_def list_unlink_def)
  next
    case (snoc ws y)
    have "seg (l_next s) (l_head s) ws (Some y)" "l_next s y = Some x"
      using seg snoc by (auto simp: seg_append)
    moreover have "y \<noteq> x" "y \<notin> set ws" "y \<notin> set zs" "x \<notin> set ws" "x \<notin> set zs"
      using d xs snoc by auto
    ultimately show ?thesis
      using list_remove_loop_present [OF seg x, of None] hd rest r1 xs snoc
      by (auto simp: list_remove_def is_list_def list_unlink_def chain_seg seg_append)
  qed
qed

lemma is_list_snoc:
  assumes "is_list s xs" "xs \<noteq> []" "x \<notin> set xs" "l_next s x = None"
  shows "is_list (s\<lparr>l_next := (l_next s)(last xs := Some x)\<rparr>) (xs @ [x])"
proof -
  obtain ys y where xs: "xs = ys @ [y]" using assms(2) by (cases xs rule: rev_cases) auto
  have "y \<notin> set ys" using is_list_distinct [OF assms(1)] xs by simp
  then show ?thesis
    using assms xs by (auto simp: is_list_def chain_seg seg_append)
qed

lemma list_tail_is_list:
  "is_list s xs \<Longrightarrow> list_tail s = Some (if xs = [] then None else Some (last xs))"
  using list_tail_loop_chain [of "l_next s" "hd xs" "tl xs"]
  by (cases xs) (auto simp: list_tail_def is_list_def)

lemma list_add_is_list:
  assumes "is_list s xs"
  shows "\<exists>s'. list_add x s = Some s' \<and> is_list s' (remove1 x xs @ [x])"
proof -
  obtain s1 where s1: "list_remove x s = Some s1" "is_list s1 (remove1 x xs)"
    using list_remove_is_list [OF assms] by blast
  define s2 where "s2 = s1\<lparr>l_next := (l_next s1)(x := None)\<rparr>"
  have x: "x \<notin> set (remove1 x xs)"
    using is_list_distinct [OF assms] by simp
  then have s2: "is_list s2 (remove1 x xs)" "l_next s2 x = None"
    using s1(2) by (simp_all add: is_list_def s2_def)
  show ?thesis
  proof (cases "remove1 x xs = []")
    case True
    then show ?thesis
      using s1 s2 list_tail_is_list [OF s2(1)]
      by (auto simp: list_add_def Let_def s2_def is_list_def)
  next
    case False
    then show ?thesis
      using s1 list_tail_is_list [OF s2(1)] is_list_snoc [OF s2(1) False x s2(2)]
      by (auto simp: list_add_def Let_def s2_def)
  qed
qed

lemma list_push_is_list:
  assumes "is_list s xs"
  shows "\<exists>s'. list_push x s = Some s' \<and> is_list s' (x # remove1 x xs)"
proof -
  obtain s1 where s1: "list_remove x s = Some s1" "is_list s1 (remove1 x xs)"
    using list_remove_is_list [OF assms] by blast
  moreover have "x \<notin> set (remove1 x xs)"
    using is_list_distinct [OF assms] by simp
  ultimately show ?thesis
    by (simp add: list_push_def is_list_def)
qed

lemma list_pop_is_list:
  "is_list s xs \<Longrightarrow> \<exists>s'. list_pop s = ((case xs of [] \<Rightarrow> None | x # _ \<Rightarrow> Some x), s') \<and> is_list s' (tl xs)"
  by (cases xs) (auto simp: list_pop_def is_list_def)

lemma list_chop_is_list:
  assumes "is_list s xs"
  shows "\<exists>s'. list_chop s = Some ((if xs = [] then None else Some (last xs)), s') \<and>
           is_list s' (butlast xs)"
proof (cases xs rule: rev_cases)
  case Nil
  then show ?thesis using assms by (simp add: list_chop_def is_list_def)
next
  case xs: (snoc ys z)
  show ?thesis
  proof (cases ys rule: rev_cases)
    case Nil
    then show ?thesis using assms xs by (auto simp: list_chop_def is_list_def)
  next
    case (snoc ws y)
    have c: "chain (l_next s) (l_head s) (ws @ [y, z])"
      using assms xs snoc by (simp add: is_list_def)
    have y: "y \<notin> set ws" using chain_distinct [OF c] by simp
    obtain h where h: "l_head s = Some h" "l_next s h \<noteq> None"
      using c by (cases ws; cases "tl ws") (auto simp: chain_seg seg_append)
    have loop: "list_chop_loop (l_next s) h = Some y"
    proof (cases ws)
      case Nil
      then show ?thesis using c h by (subst list_chop_loop.simps) auto
    next
      case (Cons w vs)
      then show ?thesis using c h list_chop_loop_chain [of "l_next s" w vs y z] by auto
    qed
    have "l_next s y = Some z" "seg (l_next s) (l_head s) ws (Some y)"
      using c by (auto simp: chain_seg seg_append)
    then show ?thesis
      using h loop y xs snoc by (auto simp: list_chop_def is_list_def chain_seg seg_append butlast_append)
  qed
qed

lemma list_length_is_list: "is_list s xs \<Longrightarrow> list_length s = Some (int (length xs))"
  by (simp add: list_length_def is_list_def list_length_loop_chain)

text \<open>Inserting after an item of the list; the new item must not be the item it goes after
  (the code would then make it point to itself).\<close>

fun insert_after :: "'a \<Rightarrow> 'a \<Rightarrow> 'a list \<Rightarrow> 'a list" where
  "insert_after p x [] = []"
| "insert_after p x (y # ys) = (if y = p then y # x # ys else y # insert_after p x ys)"

lemma insert_after_split: "p \<notin> set ys \<Longrightarrow> insert_after p x (ys @ p # zs) = ys @ p # x # zs"
  by (induction ys) auto

lemma list_insert_is_list:
  assumes "is_list s xs" "p \<in> set xs" "p \<noteq> x"
  shows "\<exists>s'. list_insert (Some p) x s = Some s' \<and> is_list s' (insert_after p x (remove1 x xs))"
proof -
  obtain s1 where s1: "list_remove x s = Some s1" "is_list s1 (remove1 x xs)"
    using list_remove_is_list [OF assms(1)] by blast
  have d: "distinct (remove1 x xs)" "x \<notin> set (remove1 x xs)" "p \<in> set (remove1 x xs)"
    using is_list_distinct [OF assms(1)] assms(2,3) by auto
  obtain ys zs where r: "remove1 x xs = ys @ p # zs" "p \<notin> set ys"
    using d(3) by (meson split_list_first)
  have "x \<notin> set ys" "x \<notin> set zs" "p \<notin> set zs"
    using d r by auto
  then show ?thesis
    using s1 r assms(3) by (auto simp: list_insert_def Let_def is_list_def chain_seg seg_append insert_after_split)
qed

section \<open>The interface\<close>

text \<open>
  What the clients of list.c rely on: a state represents at most one list of items, the items are
  distinct, and the operations return and change the list as stated. The client theories keep
  the item list itself as state; \<open>alist_add\<close> and \<open>remove1\<close> are the operations on it, and this is
  the second interpretation.
\<close>

locale item_list =
  fixes add remove push :: "'i \<Rightarrow> 's \<Rightarrow> 's option"
    and reps :: "'s \<Rightarrow> 'i list \<Rightarrow> bool"
  assumes add: "reps s xs \<Longrightarrow> \<exists>s'. add x s = Some s' \<and> reps s' (remove1 x xs @ [x])"
    and remove: "reps s xs \<Longrightarrow> \<exists>s'. remove x s = Some s' \<and> reps s' (remove1 x xs)"
    and push: "reps s xs \<Longrightarrow> \<exists>s'. push x s = Some s' \<and> reps s' (x # remove1 x xs)"
    and distinct: "reps s xs \<Longrightarrow> distinct xs"
    and unique: "reps s xs \<Longrightarrow> reps s ys \<Longrightarrow> xs = ys"
begin

lemma add_add: "reps s xs \<Longrightarrow> add x s = Some s1 \<Longrightarrow> add x s1 = Some s2 \<Longrightarrow>
    reps s2 (remove1 x xs @ [x])"
proof -
  assume a: "reps s xs" "add x s = Some s1" "add x s1 = Some s2"
  then have "reps s1 (remove1 x xs @ [x])" using add [OF a(1), of x] by simp
  moreover have "x \<notin> set (remove1 x xs)" using distinct [OF a(1)] by simp
  ultimately show ?thesis
    using add [of s1 "remove1 x xs @ [x]" x] a(3) by (auto simp: remove1_append)
qed

text \<open>Adding a list of new items to an empty list keeps their order.\<close>

primrec add_all :: "'i list \<Rightarrow> 's \<Rightarrow> 's option" where
  "add_all [] s = Some s"
| "add_all (x # xs) s = (case add x s of None \<Rightarrow> None | Some s' \<Rightarrow> add_all xs s')"

lemma add_all_append:
  assumes "reps s ys" "distinct (ys @ xs)"
  shows "\<exists>s'. add_all xs s = Some s' \<and> reps s' (ys @ xs)"
  using assms
proof (induction xs arbitrary: s ys)
  case (Cons x xs)
  obtain s1 where s1: "add x s = Some s1" "reps s1 (ys @ [x])"
    using add [OF Cons.prems(1), of x] Cons.prems(2) by (auto simp: remove1_idem)
  then show ?case using Cons.IH [OF s1(2)] Cons.prems(2) by simp
qed simp

lemma remove_add:
  assumes "reps s xs" "x \<notin> set xs" "add x s = Some s1"
  shows "\<exists>s2. remove x s1 = Some s2 \<and> reps s2 xs"
  using add [OF assms(1), of x] remove [of s1 "xs @ [x]" x] assms(2,3)
  by (auto simp: remove1_idem remove1_append)

end

definition alist_add :: "'i \<Rightarrow> 'i list \<Rightarrow> 'i list" where
  "alist_add x xs = remove1 x xs @ [x]"

interpretation heap_list: item_list list_add list_remove list_push is_list
proof unfold_locales
  fix s xs ys and x :: nat
  show "is_list s xs \<Longrightarrow> is_list s ys \<Longrightarrow> xs = ys"
    unfolding is_list_def by (rule chain_unique)
  show "is_list s xs \<Longrightarrow> \<exists>s'. list_remove x s = Some s' \<and> is_list s' (remove1 x xs)"
    using list_remove_is_list by blast
qed (use list_add_is_list list_push_is_list is_list_distinct in blast)+

interpretation pure_list: item_list "\<lambda>x xs. Some (alist_add x xs)" "\<lambda>x xs. Some (remove1 x xs)"
  "\<lambda>x xs. Some (x # remove1 x xs)" "\<lambda>s xs. s = xs \<and> distinct xs"
  by unfold_locales (auto simp: alist_add_def)

lemma alist_add_new: "x \<notin> set xs \<Longrightarrow> alist_add x xs = xs @ [x]"
  by (simp add: alist_add_def remove1_idem)

lemma set_alist_add [simp]: "distinct xs \<Longrightarrow> set (alist_add x xs) = insert x (set xs)"
  by (auto simp: alist_add_def)

lemma distinct_alist_add [simp]: "distinct xs \<Longrightarrow> distinct (alist_add x xs)"
  by (simp add: alist_add_def)

section \<open>Properties\<close>

text \<open>C30. Refinement of the list library: on every well-formed list, \<open>list_add\<close>, \<open>list_push\<close>,
  \<open>list_remove\<close>, \<open>list_chop\<close>, \<open>list_pop\<close> and \<open>list_length\<close> return (their loops end) and act on the list of
  items as stated; adding or pushing an item that is already there moves it instead of creating a
  cycle.\<close>

theorem list_ops_refine:
  assumes "is_list s xs"
  shows "(\<exists>s'. list_add x s = Some s' \<and> is_list s' (alist_add x xs)) \<and>
         (\<exists>s'. list_push x s = Some s' \<and> is_list s' (x # remove1 x xs)) \<and>
         (\<exists>s'. list_remove x s = Some s' \<and> is_list s' (remove1 x xs)) \<and>
         (\<exists>s'. list_chop s = Some ((if xs = [] then None else Some (last xs)), s') \<and>
               is_list s' (butlast xs)) \<and>
         (\<exists>s'. list_pop s = ((case xs of [] \<Rightarrow> None | y # _ \<Rightarrow> Some y), s') \<and> is_list s' (tl xs)) \<and>
         list_length s = Some (int (length xs)) \<and> distinct xs"
  using heap_list.add [OF assms, of x] heap_list.push [OF assms, of x]
    heap_list.remove [OF assms, of x] list_chop_is_list [OF assms] list_pop_is_list [OF assms]
    list_length_is_list [OF assms] heap_list.distinct [OF assms]
  by (simp add: alist_add_def)

theorem list_ops_refine_witness:
  "is_list \<lparr>l_head = Some 4, l_next = (\<lambda>_. None)(4 := Some 2, 2 := Some 9)\<rparr> [4, 2, 9] \<and>
   (\<exists>s'. list_add 4 \<lparr>l_head = Some 4, l_next = (\<lambda>_. None)(4 := Some 2, 2 := Some 9)\<rparr> = Some s' \<and>
         is_list s' [2, 9, 4])"
  using list_ops_refine [of "\<lparr>l_head = Some 4, l_next = (\<lambda>_. None)(4 := Some 2, 2 := Some 9)\<rparr>" "[4, 2, 9]" 4]
  by (simp add: is_list_def alist_add_def)

end
