(* ===== verification/Asn.thy ===== *)
theory Asn
  imports Prelude
begin

text \<open>
  The 40-bit absolute slot number of \<^verbatim>\<open>os/net/mac/tsch/tsch-asn.h\<close>: a 32-bit low part and an 8-bit
  high part, the macros that move it, and the 16-bit modulo used to find the timeslot of a
  slotframe. \<open>asn_val\<close> reads the pair as a number below \<open>2 ^ 40\<close>.
\<close>

record tsch_asn_t =
  ls4b :: u32
  ms1b :: u8

record tsch_asn_divisor_t =
  div_val :: u16
  asn_ms1b_remainder :: u16

definition TSCH_ASN_INIT :: "u8 \<Rightarrow> u32 \<Rightarrow> tsch_asn_t" where
  "TSCH_ASN_INIT m l = \<lparr>ls4b = l, ms1b = m\<rparr>"

definition TSCH_ASN_INC :: "tsch_asn_t \<Rightarrow> u32 \<Rightarrow> tsch_asn_t" where
  "TSCH_ASN_INC asn inc =
     (let new_ls4b = ls4b asn + inc in
      \<lparr>ls4b = new_ls4b, ms1b = (if new_ls4b < ls4b asn then ms1b asn + 1 else ms1b asn)\<rparr>)"

definition TSCH_ASN_DEC :: "tsch_asn_t \<Rightarrow> u32 \<Rightarrow> tsch_asn_t" where
  "TSCH_ASN_DEC asn dec =
     (let new_ls4b = ls4b asn - dec in
      \<lparr>ls4b = new_ls4b, ms1b = (if new_ls4b > ls4b asn then ms1b asn - 1 else ms1b asn)\<rparr>)"

definition TSCH_ASN_DIFF :: "tsch_asn_t \<Rightarrow> tsch_asn_t \<Rightarrow> u32" where
  "TSCH_ASN_DIFF asn1 asn2 = ls4b asn1 - ls4b asn2"

text \<open>A zero divisor is undefined in C; \<open>x mod 0 = x\<close> in HOL. The theorems exclude it.\<close>

definition TSCH_ASN_DIVISOR_INIT :: "u16 \<Rightarrow> tsch_asn_divisor_t" where
  "TSCH_ASN_DIVISOR_INIT v =
     \<lparr>div_val = v, asn_ms1b_remainder = ucast (((0xffffffff mod ucast v) + 1 :: u32) mod ucast v)\<rparr>"

text \<open>The product \<open>ms1b * asn_ms1b_remainder\<close> is computed in \<open>int\<close> (at most 255 * 65535, no
  overflow), as is the final sum of two 16-bit values.\<close>

definition TSCH_ASN_MOD :: "tsch_asn_t \<Rightarrow> tsch_asn_divisor_t \<Rightarrow> u16" where
  "TSCH_ASN_MOD asn d =
     word_of_int
       ((uint (ucast (ls4b asn mod ucast (div_val d)) :: u16)
         + uint (word_of_int (uint (ms1b asn) * uint (asn_ms1b_remainder d) mod uint (div_val d)) :: u16))
        mod uint (div_val d))"

definition asn_val :: "tsch_asn_t \<Rightarrow> nat" where
  "asn_val a = unat (ms1b a) * 2 ^ 32 + unat (ls4b a)"

lemma asn_val_less: "asn_val a < 2 ^ 40"
proof -
  have "unat (ms1b a) < 2 ^ 8" "unat (ls4b a) < 2 ^ 32"
    using unsigned_less [of "ms1b a"] unsigned_less [of "ls4b a"] by simp_all
  then show ?thesis
    by (simp add: asn_val_def)
qed

lemma asn_val_inject: "asn_val a = asn_val b \<Longrightarrow> a = b"
proof -
  assume eq: "asn_val a = asn_val b"
  have l: "unat (ls4b a) < 2 ^ 32" "unat (ls4b b) < 2 ^ 32"
    using unsigned_less [of "ls4b a"] unsigned_less [of "ls4b b"] by simp_all
  have "unat (ls4b a) = asn_val a mod 2 ^ 32" "unat (ls4b b) = asn_val b mod 2 ^ 32"
    "unat (ms1b a) = asn_val a div 2 ^ 32" "unat (ms1b b) = asn_val b div 2 ^ 32"
    using l by (simp_all add: asn_val_def)
  then show "a = b"
    using eq by (cases a; cases b) (simp add: word_unat_eq_iff)
qed

lemma asn_inc_val: "asn_val (TSCH_ASN_INC a n) = (asn_val a + unat n) mod 2 ^ 40"
proof -
  let ?m = "unat (ms1b a)" and ?s = "unat (ls4b a) + unat n"
  have b: "unat (ls4b a) < 4294967296" "unat n < 4294967296"
    by (rule u32_bound)+
  have sum: "unat (ls4b a + n) = ?s mod 4294967296"
    by (simp add: unat_word_ariths)
  have carry: "?s div 4294967296 = (if ls4b a + n < ls4b a then 1 else 0)"
    using b by (auto simp: word_less_nat_alt sum mod_if div_if)
  have "asn_val (TSCH_ASN_INC a n) = ((?m + ?s div 4294967296) mod 256) * 4294967296 + ?s mod 4294967296"
    using u8_bound [of "ms1b a"]
    by (simp add: asn_val_def TSCH_ASN_INC_def Let_def carry sum unat_word_ariths)
  also have "\<dots> = (?m * 4294967296 + ?s) mod (4294967296 * 256)"
    by (simp only: mod_mult2_eq) simp
  finally show ?thesis
    by (simp add: asn_val_def add.assoc)
qed

text \<open>C24. Advancing the ASN: the carry into the fifth byte is exact, so INC is addition modulo
  \<open>2 ^ 40\<close>, DEC undoes it, and DIFF recovers the (32-bit) distance.\<close>

theorem asn_inc_exact:
  "asn_val (TSCH_ASN_INC a n) = (asn_val a + unat n) mod 2 ^ 40 \<and>
   TSCH_ASN_DEC (TSCH_ASN_INC a n) n = a \<and> TSCH_ASN_DIFF (TSCH_ASN_INC a n) a = n"
proof -
  have "TSCH_ASN_DEC (TSCH_ASN_INC a n) n = a"
    by (simp add: TSCH_ASN_INC_def TSCH_ASN_DEC_def Let_def not_less)
  moreover have "TSCH_ASN_DIFF (TSCH_ASN_INC a n) a = n"
    by (simp add: TSCH_ASN_INC_def TSCH_ASN_DIFF_def Let_def)
  ultimately show ?thesis
    by (simp add: asn_inc_val)
qed

lemma asn_remainder:
  assumes "v \<noteq> 0"
  shows "unat (asn_ms1b_remainder (TSCH_ASN_DIVISOR_INIT v)) = 4294967296 mod unat v"
proof -
  let ?v = "unat v"
  have v: "0 < ?v"
    using assms by (simp add: unat_gt_0)
  have small: "x mod ?v < 65536" for x
    using mod_less_divisor [OF v, of x] u16_bound [of v] by linarith
  have uv: "unat (ucast v :: u32) = ?v"
    using u16_bound [of v] by (simp add: unat_ucast_mod)
  have lt: "4294967295 mod ?v + 1 < 4294967296"
    using small [of 4294967295] by linarith
  have "unat (((0xffffffff mod ucast v) + 1 :: u32) mod ucast v) = (4294967295 mod ?v + 1) mod ?v"
    using lt by (simp add: unat_mod_distrib uv unat_word_ariths)
  also have "\<dots> = 4294967296 mod ?v"
    by (simp add: mod_simps)
  finally show ?thesis
    using small by (simp add: TSCH_ASN_DIVISOR_INIT_def unat_ucast_mod)
qed

lemma asn_divisor_val: "div_val (TSCH_ASN_DIVISOR_INIT v) = v"
  by (simp add: TSCH_ASN_DIVISOR_INIT_def)

lemma u16_of_int: "n < 65536 \<Longrightarrow> unat (word_of_int (int n) :: u16) = n"
  using unat_word_of_nat_small [of n, where 'a = 16] by simp

lemma asn_mod_val:
  assumes "v \<noteq> 0"
  shows "unat (TSCH_ASN_MOD a (TSCH_ASN_DIVISOR_INIT v)) = asn_val a mod unat v"
proof -
  let ?v = "unat v" and ?l = "unat (ls4b a)" and ?m = "unat (ms1b a)"
  have v: "0 < ?v"
    using assms by (simp add: unat_gt_0)
  have small: "x mod ?v < 65536" for x
    using mod_less_divisor [OF v, of x] u16_bound [of v] by linarith
  have uv: "unat v mod 4294967296 = unat v"
    using u16_bound [of v] by simp
  have low: "unat (ucast (ls4b a mod ucast v) :: u16) = ?l mod ?v"
    by (simp add: unat_ucast_mod unat_mod_distrib small uv)
  have high: "unat (word_of_int (uint (ms1b a) * uint (asn_ms1b_remainder (TSCH_ASN_DIVISOR_INIT v))
      mod uint v) :: u16) = ?m * (4294967296 mod ?v) mod ?v"
    unfolding uint_nat asn_remainder [OF assms] of_nat_mult [symmetric] zmod_int [symmetric]
    by (rule u16_of_int) (rule small)
  have "unat (TSCH_ASN_MOD a (TSCH_ASN_DIVISOR_INIT v))
      = (?l mod ?v + ?m * (4294967296 mod ?v) mod ?v) mod ?v"
    unfolding TSCH_ASN_MOD_def
    by (simp only: asn_divisor_val, subst (1 2 5) uint_nat,
        simp only: low high of_nat_add [symmetric] zmod_int [symmetric],
        rule u16_of_int, rule small)
  also have "\<dots> = asn_val a mod ?v"
    by (simp add: asn_val_def mod_simps add.commute)
  finally show ?thesis .
qed

text \<open>C25. The fast modulo on the ASN: with a divisor prepared by DIVISOR_INIT from any non-zero 16-bit
  slotframe size, the macro computes exactly the 40-bit slot number modulo the size.\<close>

theorem asn_mod_exact:
  assumes "v \<noteq> 0"
  shows "unat (TSCH_ASN_MOD a (TSCH_ASN_DIVISOR_INIT v)) = asn_val a mod unat v"
  using assms by (rule asn_mod_val)

theorem asn_mod_exact_witness:
  "unat (TSCH_ASN_MOD (TSCH_ASN_INIT 3 12345678) (TSCH_ASN_DIVISOR_INIT 397))
     = (3 * 2 ^ 32 + 12345678) mod 397"
  using asn_mod_exact [of 397 "TSCH_ASN_INIT 3 12345678"] by (simp add: asn_val_def TSCH_ASN_INIT_def)

end
