(* ===== verification/Packetbuf.thy ===== *)
theory Packetbuf
  imports Memb
begin

text \<open>
  Link-layer addresses (\<^verbatim>\<open>os/net/linkaddr.c\<close>, 8-byte addresses), the single packet buffer shared by all
  layers (\<^verbatim>\<open>os/net/packetbuf.c\<close>) and the pool of queued packets (\<^verbatim>\<open>os/net/queuebuf.c\<close>, compiled without
  swapping and debugging, the default). The packet buffer is a 128-byte array with a header
  of \<open>hdrlen\<close> bytes in front, \<open>bufptr\<close> consumed bytes and \<open>buflen\<close> bytes of data; a queuebuf is a block that
  points to a data block of a second pool.
\<close>

section \<open>linkaddr.c\<close>

definition LINKADDR_SIZE :: nat where "LINKADDR_SIZE = 8"

definition linkaddr_null :: linkaddr where "linkaddr_null = replicate LINKADDR_SIZE 0"

definition linkaddr_copy :: "linkaddr \<Rightarrow> linkaddr \<Rightarrow> linkaddr" where
  "linkaddr_copy dest src = take LINKADDR_SIZE src"

definition linkaddr_cmp :: "linkaddr \<Rightarrow> linkaddr \<Rightarrow> bool" where
  "linkaddr_cmp a b \<longleftrightarrow> take LINKADDR_SIZE a = take LINKADDR_SIZE b"

definition is_linkaddr :: "linkaddr \<Rightarrow> bool" where
  "is_linkaddr a \<longleftrightarrow> length a = LINKADDR_SIZE"

lemma linkaddr_cmp_eq [simp]: "is_linkaddr a \<Longrightarrow> is_linkaddr b \<Longrightarrow> linkaddr_cmp a b \<longleftrightarrow> a = b"
  by (simp add: is_linkaddr_def linkaddr_cmp_def)

lemma linkaddr_cmp_refl [simp]: "linkaddr_cmp a a"
  by (simp add: linkaddr_cmp_def)

lemma linkaddr_copy_eq [simp]: "is_linkaddr a \<Longrightarrow> linkaddr_copy d a = a"
  by (simp add: is_linkaddr_def linkaddr_copy_def)

lemma is_linkaddr_null [simp]: "is_linkaddr linkaddr_null"
  by (simp add: is_linkaddr_def linkaddr_null_def)

section \<open>packetbuf.c\<close>

definition PACKETBUF_SIZE :: nat where "PACKETBUF_SIZE = 128"

datatype packetbuf_attr_type =
  PACKETBUF_ATTR_NONE | PACKETBUF_ATTR_CHANNEL | PACKETBUF_ATTR_NETWORK_ID
| PACKETBUF_ATTR_LINK_QUALITY | PACKETBUF_ATTR_RSSI | PACKETBUF_ATTR_TIMESTAMP
| PACKETBUF_ATTR_MAX_MAC_TRANSMISSIONS | PACKETBUF_ATTR_MAC_SEQNO | PACKETBUF_ATTR_MAC_ACK
| PACKETBUF_ATTR_MAC_METADATA | PACKETBUF_ATTR_MAC_NO_SRC_ADDR | PACKETBUF_ATTR_MAC_NO_DEST_ADDR
| PACKETBUF_ATTR_FRAME_TYPE | PACKETBUF_ATTR_SECURITY_LEVEL | PACKETBUF_ATTR_KEY_ID_MODE
| PACKETBUF_ATTR_KEY_INDEX

datatype packetbuf_addr_type = PACKETBUF_ADDR_SENDER | PACKETBUF_ADDR_RECEIVER

record packetbuf =
  pb_data :: "u8 list"
  buflen :: u16
  bufptr :: u16
  hdrlen :: u8
  packetbuf_attrs :: "packetbuf_attr_type \<Rightarrow> u16"
  packetbuf_addrs :: "packetbuf_addr_type \<Rightarrow> linkaddr"

definition packetbuf_attr_clear :: "packetbuf \<Rightarrow> packetbuf" where
  "packetbuf_attr_clear p = p\<lparr>packetbuf_attrs := \<lambda>_. 0, packetbuf_addrs := \<lambda>_. linkaddr_null\<rparr>"

definition packetbuf_clear :: "packetbuf \<Rightarrow> packetbuf" where
  "packetbuf_clear p = packetbuf_attr_clear (p\<lparr>buflen := 0, bufptr := 0, hdrlen := 0\<rparr>)"

text \<open>The offset of the data in the buffer; the C return type is \<open>uint8_t\<close>.\<close>

definition packetbuf_hdrlen :: "packetbuf \<Rightarrow> u8" where
  "packetbuf_hdrlen p = ucast (bufptr p + ucast (hdrlen p))"

definition packetbuf_dataptr :: "packetbuf \<Rightarrow> nat" where
  "packetbuf_dataptr p = unat (packetbuf_hdrlen p)"

definition packetbuf_hdrptr :: "packetbuf \<Rightarrow> nat" where
  "packetbuf_hdrptr p = 0"

definition packetbuf_datalen :: "packetbuf \<Rightarrow> u16" where
  "packetbuf_datalen p = buflen p"

definition packetbuf_totlen :: "packetbuf \<Rightarrow> u16" where
  "packetbuf_totlen p = ucast (packetbuf_hdrlen p) + packetbuf_datalen p"

definition packetbuf_remaininglen :: "packetbuf \<Rightarrow> u16" where
  "packetbuf_remaininglen p = of_nat PACKETBUF_SIZE - packetbuf_totlen p"

definition packetbuf_set_datalen :: "u16 \<Rightarrow> packetbuf \<Rightarrow> packetbuf" where
  "packetbuf_set_datalen n p = p\<lparr>buflen := n\<rparr>"

text \<open>\<open>from\<close> is the memory the caller's pointer gives access to.\<close>

definition packetbuf_copyfrom :: "u8 list \<Rightarrow> u16 \<Rightarrow> packetbuf \<Rightarrow> (int \<times> packetbuf) outcome" where
  "packetbuf_copyfrom from n p =
     (let p1 = packetbuf_clear p; l = min PACKETBUF_SIZE (unat n) in
      obind (mem_read 0 l from) (\<lambda>bs.
      obind (mem_write 0 bs (pb_data p1)) (\<lambda>d.
      Done (int l, p1\<lparr>pb_data := d, buflen := of_nat l\<rparr>))))"

text \<open>The result is the number of bytes and the bytes written to the destination.\<close>

definition packetbuf_copyto :: "packetbuf \<Rightarrow> (int \<times> u8 list) outcome" where
  "packetbuf_copyto p =
     (if uint (hdrlen p) + uint (buflen p) > int PACKETBUF_SIZE then Done (0, [])
      else
        obind (mem_read (packetbuf_hdrptr p) (unat (hdrlen p)) (pb_data p)) (\<lambda>h.
        obind (mem_read (packetbuf_dataptr p) (unat (buflen p)) (pb_data p)) (\<lambda>d.
        Done (uint (hdrlen p) + uint (buflen p), h @ d))))"

text \<open>The loop of \<open>packetbuf_hdralloc\<close>: bytes \<open>n - 1\<close> down to 0 move \<open>size\<close> places to the right.\<close>

fun hdralloc_shift :: "nat \<Rightarrow> nat \<Rightarrow> u8 list \<Rightarrow> u8 list" where
  "hdralloc_shift 0 sz buf = buf"
| "hdralloc_shift (Suc i) sz buf = hdralloc_shift i sz (buf[i + sz := buf ! i])"

definition packetbuf_hdralloc :: "nat \<Rightarrow> packetbuf \<Rightarrow> int \<times> packetbuf" where
  "packetbuf_hdralloc sz p =
     (if sz + unat (packetbuf_totlen p) > PACKETBUF_SIZE then (0, p)
      else (1, p\<lparr>pb_data := hdralloc_shift (unat (packetbuf_totlen p)) sz (pb_data p),
                 hdrlen := hdrlen p + of_nat sz\<rparr>))"

definition packetbuf_hdrreduce :: "nat \<Rightarrow> packetbuf \<Rightarrow> int \<times> packetbuf" where
  "packetbuf_hdrreduce sz p =
     (if unat (buflen p) < sz then (0, p)
      else (1, p\<lparr>bufptr := bufptr p + of_nat sz, buflen := buflen p - of_nat sz\<rparr>))"

definition packetbuf_attr_copyto ::
    "packetbuf \<Rightarrow> (packetbuf_attr_type \<Rightarrow> u16) \<times> (packetbuf_addr_type \<Rightarrow> linkaddr)" where
  "packetbuf_attr_copyto p = (packetbuf_attrs p, packetbuf_addrs p)"

definition packetbuf_attr_copyfrom :: "(packetbuf_attr_type \<Rightarrow> u16) \<Rightarrow>
    (packetbuf_addr_type \<Rightarrow> linkaddr) \<Rightarrow> packetbuf \<Rightarrow> packetbuf" where
  "packetbuf_attr_copyfrom attrs addrs p = p\<lparr>packetbuf_attrs := attrs, packetbuf_addrs := addrs\<rparr>"

definition packetbuf_set_attr :: "packetbuf_attr_type \<Rightarrow> u16 \<Rightarrow> packetbuf \<Rightarrow> packetbuf" where
  "packetbuf_set_attr t v p = p\<lparr>packetbuf_attrs := (packetbuf_attrs p)(t := v)\<rparr>"

definition packetbuf_attr :: "packetbuf_attr_type \<Rightarrow> packetbuf \<Rightarrow> u16" where
  "packetbuf_attr t p = packetbuf_attrs p t"

definition packetbuf_set_addr :: "packetbuf_addr_type \<Rightarrow> linkaddr \<Rightarrow> packetbuf \<Rightarrow> packetbuf" where
  "packetbuf_set_addr t a p =
     p\<lparr>packetbuf_addrs := (packetbuf_addrs p)(t := linkaddr_copy (packetbuf_addrs p t) a)\<rparr>"

definition packetbuf_addr :: "packetbuf_addr_type \<Rightarrow> packetbuf \<Rightarrow> linkaddr" where
  "packetbuf_addr t p = packetbuf_addrs p t"

definition packetbuf_holds_broadcast :: "packetbuf \<Rightarrow> bool" where
  "packetbuf_holds_broadcast p \<longleftrightarrow>
     linkaddr_cmp (packetbuf_addrs p PACKETBUF_ADDR_RECEIVER) linkaddr_null"

subsection \<open>Invariant and contents\<close>

definition pb_inv :: "packetbuf \<Rightarrow> bool" where
  "pb_inv p \<longleftrightarrow> length (pb_data p) = PACKETBUF_SIZE \<and>
     unat (bufptr p) + unat (hdrlen p) + unat (buflen p) \<le> PACKETBUF_SIZE"

text \<open>The frame a packet buffer holds: the header, then the data.\<close>

definition pb_frame :: "packetbuf \<Rightarrow> u8 list" where
  "pb_frame p = take (unat (hdrlen p)) (pb_data p) @
     take (unat (buflen p)) (drop (packetbuf_dataptr p) (pb_data p))"

lemma unat_ucast_u16_u8: "unat (ucast (w :: u8) :: u16) = unat w"
  using u8_bound [of w] by (simp add: unat_ucast_mod)

lemma unat_packetbuf_hdrlen:
  "pb_inv p \<Longrightarrow> unat (packetbuf_hdrlen p) = unat (bufptr p) + unat (hdrlen p)"
  by (simp add: packetbuf_hdrlen_def unat_ucast_mod unat_word_ariths unat_ucast_u16_u8 pb_inv_def
      PACKETBUF_SIZE_def)

lemma unat_packetbuf_totlen:
  "pb_inv p \<Longrightarrow> unat (packetbuf_totlen p) = unat (bufptr p) + unat (hdrlen p) + unat (buflen p)"
  using unat_packetbuf_hdrlen [of p]
  by (simp add: packetbuf_totlen_def packetbuf_datalen_def unat_word_ariths unat_ucast_u16_u8
      pb_inv_def PACKETBUF_SIZE_def)

lemma packetbuf_copyto_Done:
  assumes "pb_inv p"
  shows "packetbuf_copyto p = Done (int (length (pb_frame p)), pb_frame p)"
    "length (pb_frame p) = unat (hdrlen p) + unat (buflen p)"
proof -
  have l: "length (pb_frame p) = unat (hdrlen p) + unat (buflen p)"
    using assms unat_packetbuf_hdrlen [OF assms]
    by (auto simp: pb_frame_def packetbuf_dataptr_def pb_inv_def min_def)
  have "uint (hdrlen p) + uint (buflen p) = int (unat (hdrlen p) + unat (buflen p))"
    by simp
  then show "packetbuf_copyto p = Done (int (length (pb_frame p)), pb_frame p)"
    using assms unat_packetbuf_hdrlen [OF assms] l
    by (simp add: packetbuf_copyto_def mem_read_def pb_frame_def packetbuf_hdrptr_def
        packetbuf_dataptr_def pb_inv_def del: of_nat_unat)
  show "length (pb_frame p) = unat (hdrlen p) + unat (buflen p)" by (fact l)
qed

lemma length_hdralloc_shift [simp]: "length (hdralloc_shift n sz buf) = length buf"
  by (induction n sz buf rule: hdralloc_shift.induct) auto

lemma hdralloc_shift_eq:
  "n + sz \<le> length buf \<Longrightarrow> sz > 0 \<Longrightarrow>
   hdralloc_shift n sz buf ! i =
     (if sz \<le> i \<and> i < n + sz then buf ! (i - sz) else buf ! i)"
proof (induction n sz buf rule: hdralloc_shift.induct)
  case (2 k sz buf)
  have "hdralloc_shift (Suc k) sz buf ! i =
      (if sz \<le> i \<and> i < k + sz then buf[k + sz := buf ! k] ! (i - sz) else buf[k + sz := buf ! k] ! i)"
    using 2 by simp
  then show ?case
    using 2(2,3) by (cases "i = k + sz") (auto simp: nth_list_update)
qed auto

lemma hdralloc_shift_0 [simp]: "hdralloc_shift n 0 buf = buf"
  by (induction n) simp_all

lemma hdralloc_shift_drop:
  assumes "n + sz \<le> length buf"
  shows "take n (drop sz (hdralloc_shift n sz buf)) = take n buf"
proof (cases "sz = 0")
  case False
  then show ?thesis
    using assms by (intro nth_equalityI) (auto simp: hdralloc_shift_eq)
qed simp

lemma packetbuf_hdralloc_inv:
  assumes "pb_inv p" "packetbuf_hdralloc sz p = (r, p')"
  shows "pb_inv p'"
proof (cases "sz + unat (packetbuf_totlen p) > PACKETBUF_SIZE")
  case False
  then have "unat (hdrlen p + of_nat sz) = unat (hdrlen p) + sz"
    using unat_packetbuf_totlen [OF assms(1)]
    by (simp add: unat_word_ariths PACKETBUF_SIZE_def unat_word_of_nat_small)
  then show ?thesis
    using False assms unat_packetbuf_totlen [OF assms(1)]
    by (auto simp: packetbuf_hdralloc_def pb_inv_def)
qed (use assms in \<open>auto simp: packetbuf_hdralloc_def\<close>)


lemma packetbuf_hdralloc_success:
  assumes "pb_inv p" "sz + unat (packetbuf_totlen p) \<le> PACKETBUF_SIZE"
  obtains p' where "packetbuf_hdralloc sz p = (1, p')" "pb_inv p'"
    "unat (hdrlen p') = unat (hdrlen p) + sz" "bufptr p' = bufptr p" "buflen p' = buflen p"
    "take (unat (packetbuf_totlen p)) (drop sz (pb_data p')) = take (unat (packetbuf_totlen p)) (pb_data p)"
proof -
  let ?p' = "p\<lparr>pb_data := hdralloc_shift (unat (packetbuf_totlen p)) sz (pb_data p),
               hdrlen := hdrlen p + of_nat sz\<rparr>"
  have r: "packetbuf_hdralloc sz p = (1, ?p')"
    using assms(2) by (simp add: packetbuf_hdralloc_def)
  moreover have "unat (hdrlen p + of_nat sz) = unat (hdrlen p) + sz"
    using assms(2) unat_packetbuf_totlen [OF assms(1)]
    by (simp add: unat_word_ariths PACKETBUF_SIZE_def unat_word_of_nat_small)
  moreover have "unat (packetbuf_totlen p) + sz \<le> length (pb_data p)"
    using assms by (simp add: pb_inv_def)
  ultimately show ?thesis
    using packetbuf_hdralloc_inv [OF assms(1) r] hdralloc_shift_drop
    by (intro that [of ?p']) simp_all
qed

lemma packetbuf_hdrreduce_inv:
  "pb_inv p \<Longrightarrow> packetbuf_hdrreduce sz p = (r, p') \<Longrightarrow> pb_inv p'"
  by (auto simp: packetbuf_hdrreduce_def pb_inv_def PACKETBUF_SIZE_def unat_word_ariths unat_sub_if'
      unat_word_of_nat_small word_le_nat_alt split: if_splits)

lemma packetbuf_copyfrom_spec:
  assumes "length (pb_data p) = PACKETBUF_SIZE" "unat n \<le> length from" "unat n \<le> PACKETBUF_SIZE"
  shows "\<exists>p'. packetbuf_copyfrom from n p = Done (int (unat n), p') \<and> pb_inv p' \<and>
           pb_frame p' = take (unat n) from \<and> hdrlen p' = 0 \<and> bufptr p' = 0 \<and>
           packetbuf_attrs p' = (\<lambda>_. 0) \<and> packetbuf_addrs p' = (\<lambda>_. linkaddr_null)"
proof -
  have "(of_nat (min PACKETBUF_SIZE (unat n)) :: u16) = n"
    using assms(3) by (simp add: min_absorb2)
  then show ?thesis
    using assms
    by (simp add: packetbuf_copyfrom_def Let_def mem_read_def mem_write_def packetbuf_clear_def
        packetbuf_attr_clear_def pb_inv_def pb_frame_def packetbuf_dataptr_def packetbuf_hdrlen_def min_absorb2)
qed

section \<open>queuebuf.c\<close>

definition QUEUEBUF_NUM :: nat where "QUEUEBUF_NUM = 8"

record queuebuf_data =
  qd_data :: "u8 list"
  qd_len :: u16
  qd_attrs :: "packetbuf_attr_type \<Rightarrow> u16"
  qd_addrs :: "packetbuf_addr_type \<Rightarrow> linkaddr"

record queuebuf =
  ram_ptr :: "nat option"

record qbufs =
  bufmem :: "queuebuf memb"
  buframmem :: "queuebuf_data memb"

definition queuebuf_init :: "qbufs \<Rightarrow> qbufs" where
  "queuebuf_init q =
     q\<lparr>buframmem := memb_init \<lparr>qd_data = replicate PACKETBUF_SIZE 0, qd_len = 0, qd_attrs = \<lambda>_. 0,
                             qd_addrs = \<lambda>_. linkaddr_null\<rparr> (buframmem q),
       bufmem := memb_init \<lparr>ram_ptr = None\<rparr> (bufmem q)\<rparr>"

definition queuebuf_numfree :: "qbufs \<Rightarrow> int" where
  "queuebuf_numfree q = int (memb_numfree (bufmem q))"

text \<open>The data block of a queuebuf; following a NULL \<open>ram_ptr\<close> is a fault.\<close>

definition queuebuf_load_to_ram :: "nat \<Rightarrow> qbufs \<Rightarrow> nat outcome" where
  "queuebuf_load_to_ram b q =
     (case ram_ptr (mb_mem (bufmem q) b) of None \<Rightarrow> Fault | Some r \<Rightarrow> Done r)"

text \<open>Writing the packet buffer to a data block: \<open>packetbuf_copyto\<close> overwrites a prefix of the block's data.\<close>

definition qd_copy_data :: "packetbuf \<Rightarrow> queuebuf_data \<Rightarrow> queuebuf_data outcome" where
  "qd_copy_data p d =
     obind (packetbuf_copyto p) (\<lambda>(n, bs).
     obind (mem_write 0 bs (qd_data d)) (\<lambda>dat. Done (d\<lparr>qd_data := dat, qd_len := word_of_int n\<rparr>)))"

definition qd_copy_attrs :: "packetbuf \<Rightarrow> queuebuf_data \<Rightarrow> queuebuf_data" where
  "qd_copy_attrs p d = (let (a, b) = packetbuf_attr_copyto p in d\<lparr>qd_attrs := a, qd_addrs := b\<rparr>)"

definition queuebuf_new_from_packetbuf :: "packetbuf \<Rightarrow> qbufs \<Rightarrow> (nat option \<times> qbufs) outcome" where
  "queuebuf_new_from_packetbuf p q =
     (case memb_alloc (bufmem q) of
        (None, m) \<Rightarrow> Done (None, q\<lparr>bufmem := m\<rparr>)
      | (Some b, m) \<Rightarrow>
          (case memb_alloc (buframmem q) of
             (None, rm) \<Rightarrow>
               Done (None, q\<lparr>bufmem := snd (memb_free b (blk_upd b (\<lambda>x. x\<lparr>ram_ptr := None\<rparr>) m)), buframmem := rm\<rparr>)
           | (Some r, rm) \<Rightarrow>
               obind (qd_copy_data p (mb_mem rm r)) (\<lambda>d.
               Done (Some b, q\<lparr>bufmem := blk_upd b (\<lambda>x. x\<lparr>ram_ptr := Some r\<rparr>) m,
                               buframmem := blk_upd r (\<lambda>_. qd_copy_attrs p d) rm\<rparr>))))"

definition queuebuf_update_attr_from_packetbuf :: "nat \<Rightarrow> packetbuf \<Rightarrow> qbufs \<Rightarrow> qbufs outcome" where
  "queuebuf_update_attr_from_packetbuf b p q =
     obind (queuebuf_load_to_ram b q) (\<lambda>r.
     Done (q\<lparr>buframmem := blk_upd r (qd_copy_attrs p) (buframmem q)\<rparr>))"

definition queuebuf_update_from_packetbuf :: "nat \<Rightarrow> packetbuf \<Rightarrow> qbufs \<Rightarrow> qbufs outcome" where
  "queuebuf_update_from_packetbuf b p q =
     obind (queuebuf_load_to_ram b q) (\<lambda>r.
     obind (qd_copy_data p (qd_copy_attrs p (mb_mem (buframmem q) r))) (\<lambda>d.
     Done (q\<lparr>buframmem := blk_upd r (\<lambda>_. d) (buframmem q)\<rparr>)))"

text \<open>\<open>memb_free\<close> of a NULL data pointer finds no block: it is the index outside the pool.\<close>

definition queuebuf_free :: "nat \<Rightarrow> qbufs \<Rightarrow> qbufs" where
  "queuebuf_free b q =
     (if memb_inmemb b (bufmem q) then
        q\<lparr>buframmem := (case ram_ptr (mb_mem (bufmem q) b) of
                          None \<Rightarrow> buframmem q | Some r \<Rightarrow> snd (memb_free r (buframmem q))),
          bufmem := snd (memb_free b (bufmem q))\<rparr>
      else q)"

definition queuebuf_to_packetbuf :: "nat \<Rightarrow> packetbuf \<Rightarrow> qbufs \<Rightarrow> packetbuf outcome" where
  "queuebuf_to_packetbuf b p q =
     (if memb_inmemb b (bufmem q) then
        obind (queuebuf_load_to_ram b q) (\<lambda>r.
        let d = mb_mem (buframmem q) r in
        obind (packetbuf_copyfrom (qd_data d) (qd_len d) p) (\<lambda>(_, p').
        Done (packetbuf_attr_copyfrom (qd_attrs d) (qd_addrs d) p')))
      else Done p)"

definition queuebuf_dataptr :: "nat \<Rightarrow> qbufs \<Rightarrow> u8 list option outcome" where
  "queuebuf_dataptr b q =
     (if memb_inmemb b (bufmem q) then
        obind (queuebuf_load_to_ram b q) (\<lambda>r. Done (Some (qd_data (mb_mem (buframmem q) r))))
      else Done None)"

definition queuebuf_datalen :: "nat \<Rightarrow> qbufs \<Rightarrow> u16 outcome" where
  "queuebuf_datalen b q =
     obind (queuebuf_load_to_ram b q) (\<lambda>r. Done (qd_len (mb_mem (buframmem q) r)))"

definition queuebuf_addr :: "nat \<Rightarrow> packetbuf_addr_type \<Rightarrow> qbufs \<Rightarrow> linkaddr outcome" where
  "queuebuf_addr b t q =
     obind (queuebuf_load_to_ram b q) (\<lambda>r. Done (qd_addrs (mb_mem (buframmem q) r) t))"

definition queuebuf_attr :: "nat \<Rightarrow> packetbuf_attr_type \<Rightarrow> qbufs \<Rightarrow> u16 outcome" where
  "queuebuf_attr b t q =
     obind (queuebuf_load_to_ram b q) (\<lambda>r. Done (qd_attrs (mb_mem (buframmem q) r) t))"

subsection \<open>Invariant\<close>

text \<open>Every used queuebuf has a data block of its own, and no other data block is used.\<close>

definition qb_inv :: "qbufs \<Rightarrow> bool" where
  "qb_inv q \<longleftrightarrow> memb_inv (bufmem q) \<and> memb_inv (buframmem q) \<and>
     mb_num (buframmem q) = mb_num (bufmem q) \<and>
     (\<forall>r < mb_num (buframmem q). length (qd_data (mb_mem (buframmem q) r)) = PACKETBUF_SIZE \<and>
        unat (qd_len (mb_mem (buframmem q) r)) \<le> PACKETBUF_SIZE) \<and>
     (\<forall>b \<in> memb_used (bufmem q). \<exists>r \<in> memb_used (buframmem q). ram_ptr (mb_mem (bufmem q) b) = Some r) \<and>
     inj_on (\<lambda>b. ram_ptr (mb_mem (bufmem q) b)) (memb_used (bufmem q)) \<and>
     (\<forall>r \<in> memb_used (buframmem q). \<exists>b \<in> memb_used (bufmem q). ram_ptr (mb_mem (bufmem q) b) = Some r)"

text \<open>What a queued packet holds.\<close>

definition qb_packet :: "qbufs \<Rightarrow> nat \<Rightarrow>
    (u8 list \<times> (packetbuf_attr_type \<Rightarrow> u16) \<times> (packetbuf_addr_type \<Rightarrow> linkaddr)) option" where
  "qb_packet q b =
     (case ram_ptr (mb_mem (bufmem q) b) of None \<Rightarrow> None
      | Some r \<Rightarrow> let d = mb_mem (buframmem q) r in
          Some (take (unat (qd_len d)) (qd_data d), qd_attrs d, qd_addrs d))"


lemma qb_invD:
  assumes "qb_inv q"
  shows "memb_inv (bufmem q)" "memb_inv (buframmem q)" "mb_num (buframmem q) = mb_num (bufmem q)"
    "r < mb_num (buframmem q) \<Longrightarrow> length (qd_data (mb_mem (buframmem q) r)) = PACKETBUF_SIZE"
    "inj_on (\<lambda>b. ram_ptr (mb_mem (bufmem q) b)) (memb_used (bufmem q))"
    "r < mb_num (buframmem q) \<Longrightarrow> unat (qd_len (mb_mem (buframmem q) r)) \<le> PACKETBUF_SIZE"
  using assms by (simp_all add: qb_inv_def)

lemma qb_ptr:
  assumes "qb_inv q" "b \<in> memb_used (bufmem q)"
  obtains r where "ram_ptr (mb_mem (bufmem q) b) = Some r" "r \<in> memb_used (buframmem q)"
  using assms by (auto simp: qb_inv_def)

lemma qb_owner:
  assumes "qb_inv q" "r \<in> memb_used (buframmem q)"
  obtains b where "ram_ptr (mb_mem (bufmem q) b) = Some r" "b \<in> memb_used (bufmem q)"
  using assms by (auto simp: qb_inv_def)

lemma qb_card_eq:
  assumes "qb_inv q"
  shows "card (memb_used (bufmem q)) = card (memb_used (buframmem q))"
proof -
  let ?f = "\<lambda>b. ram_ptr (mb_mem (bufmem q) b)"
  have "?f ` memb_used (bufmem q) = Some ` memb_used (buframmem q)"
    using assms by (auto simp: qb_inv_def image_iff) metis
  then show ?thesis
    by (metis card_image inj_Some inj_on_subset qb_invD(5) [OF assms] subset_UNIV)
qed

lemma qb_frame_data:
  assumes "length (qd_data d) = PACKETBUF_SIZE" "pb_inv p"
  obtains d' where "qd_copy_data p d = Done d'" "length (qd_data d') = PACKETBUF_SIZE"
    "take (unat (qd_len d')) (qd_data d') = pb_frame p"
    "qd_attrs d' = qd_attrs d" "qd_addrs d' = qd_addrs d" "unat (qd_len d') \<le> PACKETBUF_SIZE"
proof -
  have l: "length (pb_frame p) \<le> PACKETBUF_SIZE"
    using packetbuf_copyto_Done(2) [OF assms(2)] assms(2) by (simp add: pb_inv_def)
  then have "unat (word_of_int (int (length (pb_frame p))) :: u16) = length (pb_frame p)"
    by (simp add: unat_word_of_nat_small PACKETBUF_SIZE_def)
  then show ?thesis
    using that l assms packetbuf_copyto_Done(1) [OF assms(2)]
    by (simp add: qd_copy_data_def mem_write_def)
qed

lemma qd_copy_attrs_simps [simp]:
  "qd_data (qd_copy_attrs p d) = qd_data d" "qd_len (qd_copy_attrs p d) = qd_len d"
  "qd_attrs (qd_copy_attrs p d) = packetbuf_attrs p" "qd_addrs (qd_copy_attrs p d) = packetbuf_addrs p"
  by (simp_all add: qd_copy_attrs_def packetbuf_attr_copyto_def)

text \<open>Taking a fresh pair of blocks keeps the invariant.\<close>

lemma qb_inv_new:
  assumes inv: "qb_inv q"
    and b: "memb_alloc (bufmem q) = (Some b, m)" and r: "memb_alloc (buframmem q) = (Some r, rm)"
    and d: "length (qd_data d) = PACKETBUF_SIZE" "unat (qd_len d) \<le> PACKETBUF_SIZE"
  shows "qb_inv \<lparr>bufmem = blk_upd b (\<lambda>x. x\<lparr>ram_ptr := Some r\<rparr>) m, buframmem = blk_upd r (\<lambda>_. d) rm\<rparr>"
    (is "qb_inv ?q")
proof -
  note b' = memb_alloc_Some [OF b] and r' = memb_alloc_Some [OF r]
  have old: "ram_ptr (mb_mem (bufmem ?q) c) = ram_ptr (mb_mem (bufmem q) c)" if "c \<in> memb_used (bufmem q)" for c
    using that b' by auto
  have new: "ram_ptr (mb_mem (bufmem ?q) b) = Some r"
    by simp
  have ub: "memb_used (bufmem ?q) = insert b (memb_used (bufmem q))"
    and ur: "memb_used (buframmem ?q) = insert r (memb_used (buframmem q))"
    using b' r' by simp_all
  have "Some r \<notin> (\<lambda>c. ram_ptr (mb_mem (bufmem ?q) c)) ` memb_used (bufmem q)"
  proof
    assume "Some r \<in> (\<lambda>c. ram_ptr (mb_mem (bufmem ?q) c)) ` memb_used (bufmem q)"
    then obtain c where c: "c \<in> memb_used (bufmem q)" "Some r = ram_ptr (mb_mem (bufmem ?q) c)"
      by blast
    then show False
      using old [OF c(1)] qb_ptr [OF inv c(1)] r'(2) by auto
  qed
  moreover have "inj_on (\<lambda>c. ram_ptr (mb_mem (bufmem ?q) c)) (memb_used (bufmem q))"
    using qb_invD(5) [OF inv] by (rule inj_on_cong [THEN iffD1, rotated]) (simp only: old)
  ultimately have "inj_on (\<lambda>b. ram_ptr (mb_mem (bufmem ?q) b)) (memb_used (bufmem ?q))"
    unfolding ub inj_on_insert using new b'(2) by (simp only: Diff_insert0) simp
  moreover have "\<exists>x \<in> memb_used (buframmem ?q). ram_ptr (mb_mem (bufmem ?q) c) = Some x"
    if "c \<in> memb_used (bufmem ?q)" for c
  proof (cases "c = b")
    case False
    then have c: "c \<in> memb_used (bufmem q)" using that unfolding ub by blast
    show ?thesis using qb_ptr [OF inv c] unfolding old [OF c] ur by blast
  qed (simp add: ur r')
  moreover have "\<exists>c \<in> memb_used (bufmem ?q). ram_ptr (mb_mem (bufmem ?q) c) = Some x"
    if "x \<in> memb_used (buframmem ?q)" for x
  proof (cases "x = r")
    case True
    then show ?thesis using new unfolding ub by blast
  next
    case False
    then have x: "x \<in> memb_used (buframmem q)" using that unfolding ur by blast
    show ?thesis using qb_owner [OF inv x] old unfolding ub by (metis insertI2)
  qed
  ultimately show ?thesis
    using b' r' qb_invD [OF inv] d by (simp add: qb_inv_def)
qed

lemma queuebuf_new_spec:
  assumes inv: "qb_inv q" and p: "pb_inv p"
  shows "if memb_numfree (bufmem q) = 0 then queuebuf_new_from_packetbuf p q = Done (None, q)
    else \<exists>b q'. queuebuf_new_from_packetbuf p q = Done (Some b, q') \<and> qb_inv q' \<and>
      b < mb_num (bufmem q) \<and> b \<notin> memb_used (bufmem q) \<and>
      memb_used (bufmem q') = insert b (memb_used (bufmem q)) \<and> mb_num (bufmem q') = mb_num (bufmem q) \<and>
      qb_packet q' b = Some (pb_frame p, packetbuf_attrs p, packetbuf_addrs p) \<and>
      (\<forall>c \<in> memb_used (bufmem q). qb_packet q' c = qb_packet q c)"
proof (cases rule: memb_alloc_cases [of "bufmem q"])
  case full
  then show ?thesis by (simp add: queuebuf_new_from_packetbuf_def memb_numfree_eq)
next
  case (block b)
  let ?m = "(bufmem q)\<lparr>mb_count := (mb_count (bufmem q))(b := 1)\<rparr>"
  note b' = memb_alloc_Some [OF block(1)]
  have nf: "memb_numfree (bufmem q) \<noteq> 0"
    using psubset_card_mono [of "{..<mb_num (bufmem q)}" "memb_used (bufmem q)"] b'(1,2) memb_used_less
    by (fastforce simp: memb_numfree_eq)
  obtain r rm where r: "memb_alloc (buframmem q) = (Some r, rm)"
  proof (cases rule: memb_alloc_cases [of "buframmem q"])
    case full
    then have "memb_numfree (bufmem q) = 0"
      using qb_card_eq [OF inv] qb_invD(3) [OF inv] by (simp add: memb_numfree_eq)
    with nf show ?thesis by simp
  qed (use that in blast)
  note r' = memb_alloc_Some [OF r]
  have "length (qd_data (mb_mem rm r)) = PACKETBUF_SIZE"
    using qb_invD(4) [OF inv, of r] r' by simp
  then obtain d where d: "qd_copy_data p (mb_mem rm r) = Done d" "length (qd_data d) = PACKETBUF_SIZE"
      "take (unat (qd_len d)) (qd_data d) = pb_frame p" "unat (qd_len d) \<le> PACKETBUF_SIZE"
    using p by (rule qb_frame_data)
  let ?q = "\<lparr>bufmem = blk_upd b (\<lambda>x. x\<lparr>ram_ptr := Some r\<rparr>) ?m,
             buframmem = blk_upd r (\<lambda>_. qd_copy_attrs p d) rm\<rparr>"
  have "queuebuf_new_from_packetbuf p q = Done (Some b, ?q)"
    using block r d by (simp add: queuebuf_new_from_packetbuf_def)
  moreover have "qb_inv ?q"
    using qb_inv_new [OF inv block(1) r, of "qd_copy_attrs p d"] d by simp
  moreover have "qb_packet ?q c = qb_packet q c" if c: "c \<in> memb_used (bufmem q)" for c
  proof -
    obtain x where x: "ram_ptr (mb_mem (bufmem q) c) = Some x" "x \<in> memb_used (buframmem q)"
      using qb_ptr [OF inv c] .
    then show ?thesis using c b' r' by (auto simp: qb_packet_def)
  qed
  ultimately show ?thesis
    using nf b' d by (auto simp: qb_packet_def)
qed

lemma queuebuf_free_spec:
  assumes inv: "qb_inv q" and b: "b \<in> memb_used (bufmem q)"
  shows "qb_inv (queuebuf_free b q)" "memb_used (bufmem (queuebuf_free b q)) = memb_used (bufmem q) - {b}"
    "mb_num (bufmem (queuebuf_free b q)) = mb_num (bufmem q)"
    "c \<in> memb_used (bufmem q) \<Longrightarrow> c \<noteq> b \<Longrightarrow> qb_packet (queuebuf_free b q) c = qb_packet q c"
proof -
  obtain r where r: "ram_ptr (mb_mem (bufmem q) b) = Some r" "r \<in> memb_used (buframmem q)"
    using qb_ptr [OF inv b] .
  let ?q = "queuebuf_free b q"
  have q: "bufmem ?q = snd (memb_free b (bufmem q))" "buframmem ?q = snd (memb_free r (buframmem q))"
    using b r memb_used_less [OF b] by (simp_all add: queuebuf_free_def memb_inmemb_def)
  note fb = memb_free_props [OF qb_invD(1) [OF inv]] and fr = memb_free_props [OF qb_invD(2) [OF inv]]
  show u: "memb_used (bufmem ?q) = memb_used (bufmem q) - {b}" and "mb_num (bufmem ?q) = mb_num (bufmem q)"
    by (simp_all add: q fb)
  show "qb_packet ?q c = qb_packet q c"
    by (simp add: qb_packet_def q fb fr split: option.split)
  have "\<exists>x \<in> memb_used (buframmem ?q). ram_ptr (mb_mem (bufmem ?q) c) = Some x"
    if "c \<in> memb_used (bufmem ?q)" for c
  proof -
    have c: "c \<in> memb_used (bufmem q)" "c \<noteq> b" using that u by auto
    then obtain x where x: "ram_ptr (mb_mem (bufmem q) c) = Some x" "x \<in> memb_used (buframmem q)"
      using qb_ptr [OF inv] by blast
    moreover have "x \<noteq> r" using inj_onD [OF qb_invD(5) [OF inv], of c b] c b x r by auto
    ultimately show ?thesis by (simp add: q fb fr)
  qed
  moreover have "\<exists>c \<in> memb_used (bufmem ?q). ram_ptr (mb_mem (bufmem ?q) c) = Some x"
    if "x \<in> memb_used (buframmem ?q)" for x
  proof -
    have x: "x \<in> memb_used (buframmem q)" "x \<noteq> r" using that by (auto simp: q fr)
    then obtain c where "ram_ptr (mb_mem (bufmem q) c) = Some x" "c \<in> memb_used (bufmem q)"
      using qb_owner [OF inv] by blast
    then show ?thesis using x(2) r(1) by (auto simp: q fb)
  qed
  ultimately show "qb_inv ?q"
    using qb_invD [OF inv] by (simp add: qb_inv_def q fb fr inj_on_diff)
qed

lemma queuebuf_to_packetbuf_spec:
  assumes inv: "qb_inv q" and b: "b \<in> memb_used (bufmem q)" and p: "length (pb_data p) = PACKETBUF_SIZE"
  shows "\<exists>p'. queuebuf_to_packetbuf b p q = Done p' \<and> pb_inv p' \<and>
           qb_packet q b = Some (pb_frame p', packetbuf_attrs p', packetbuf_addrs p')"
proof -
  obtain r where r: "ram_ptr (mb_mem (bufmem q) b) = Some r" "r \<in> memb_used (buframmem q)"
    using qb_ptr [OF inv b] .
  let ?d = "mb_mem (buframmem q) r"
  have "length (qd_data ?d) = PACKETBUF_SIZE" "unat (qd_len ?d) \<le> PACKETBUF_SIZE"
    using qb_invD(4,6) [OF inv memb_used_less [OF r(2)]] .
  then obtain p' where p': "packetbuf_copyfrom (qd_data ?d) (qd_len ?d) p = Done (int (unat (qd_len ?d)), p')"
      "pb_inv p'" "pb_frame p' = take (unat (qd_len ?d)) (qd_data ?d)"
    using packetbuf_copyfrom_spec [OF p, of "qd_len ?d" "qd_data ?d"] by auto
  show ?thesis
    using memb_used_less [OF b] r p'
    by (auto simp: queuebuf_to_packetbuf_def memb_inmemb_def queuebuf_load_to_ram_def Let_def
        packetbuf_attr_copyfrom_def qb_packet_def pb_inv_def pb_frame_def packetbuf_dataptr_def
        packetbuf_hdrlen_def)
qed

definition pb_zero :: packetbuf where
  "pb_zero = \<lparr>pb_data = replicate PACKETBUF_SIZE 0, buflen = 0, bufptr = 0, hdrlen = 0,
     packetbuf_attrs = \<lambda>_. 0, packetbuf_addrs = \<lambda>_. linkaddr_null\<rparr>"

definition qb_zero :: qbufs where
  "qb_zero = queuebuf_init \<lparr>bufmem = \<lparr>mb_num = QUEUEBUF_NUM, mb_count = \<lambda>_. 0, mb_mem = \<lambda>_. \<lparr>ram_ptr = None\<rparr>\<rparr>,
     buframmem = \<lparr>mb_num = QUEUEBUF_NUM, mb_count = \<lambda>_. 0,
       mb_mem = \<lambda>_. \<lparr>qd_data = [], qd_len = 0, qd_attrs = \<lambda>_. 0, qd_addrs = \<lambda>_. linkaddr_null\<rparr>\<rparr>\<rparr>"

lemma qb_zero_inv: "qb_inv qb_zero" "memb_used (bufmem qb_zero) = {}" "memb_numfree (bufmem qb_zero) = 8"
  by (simp_all add: qb_zero_def queuebuf_init_def qb_inv_def memb_numfree_eq QUEUEBUF_NUM_def)

lemma pb_zero_inv: "pb_inv pb_zero"
  by (simp add: pb_zero_def pb_inv_def)

section \<open>Properties\<close>

text \<open>Framing in place: when the packet buffer has room for a header of \<open>sz\<close> bytes (and no bytes were
  consumed at the front), \<open>packetbuf_hdralloc\<close> succeeds, moves header and data without changing a byte
  of them, and a header written at \<open>packetbuf_hdrptr\<close> precedes the old frame in what \<open>packetbuf_copyto\<close>
  delivers; without room nothing changes.\<close>

theorem packetbuf_framing:
  assumes "pb_inv p" "bufptr p = 0" "length h = sz"
  shows "case packetbuf_hdralloc sz p of (res, p') \<Rightarrow>
    (if length (pb_frame p) + sz \<le> PACKETBUF_SIZE
     then res = 1 \<and> pb_inv p' \<and>
       packetbuf_copyto (p'\<lparr>pb_data := h @ drop sz (pb_data p')\<rparr>)
         = Done (int (sz + length (pb_frame p)), h @ pb_frame p)
     else res = 0 \<and> p' = p)"
proof -
  have tl: "unat (packetbuf_totlen p) = unat (hdrlen p) + unat (buflen p)"
    using unat_packetbuf_totlen [OF assms(1)] assms(2) by simp
  have len: "length (pb_frame p) = unat (hdrlen p) + unat (buflen p)"
    by (rule packetbuf_copyto_Done(2) [OF assms(1)])
  show ?thesis
  proof (cases "sz + unat (packetbuf_totlen p) \<le> PACKETBUF_SIZE")
    case True
    obtain p' where p': "packetbuf_hdralloc sz p = (1, p')" "pb_inv p'"
      "unat (hdrlen p') = unat (hdrlen p) + sz" "bufptr p' = bufptr p" "buflen p' = buflen p"
      "take (unat (packetbuf_totlen p)) (drop sz (pb_data p')) = take (unat (packetbuf_totlen p)) (pb_data p)"
      using packetbuf_hdralloc_success [OF assms(1) True] .
    let ?q = "p'\<lparr>pb_data := h @ drop sz (pb_data p')\<rparr>"
    have q: "pb_inv ?q"
      using p'(2) assms(3) True by (simp add: pb_inv_def)
    have off: "packetbuf_dataptr ?q = unat (hdrlen p) + sz" "packetbuf_dataptr p = unat (hdrlen p)"
      using unat_packetbuf_hdrlen [OF q] unat_packetbuf_hdrlen [OF assms(1)] p'(3,4) assms(2)
      by (simp_all add: packetbuf_dataptr_def)
    have "pb_frame ?q = h @ take (unat (packetbuf_totlen p)) (drop sz (pb_data p'))"
      using off p'(3,5) assms(3)
      by (simp add: pb_frame_def tl take_add add.commute [of sz])
    also have "\<dots> = h @ pb_frame p"
      using p'(6) off by (simp add: pb_frame_def tl take_add)
    finally show ?thesis
      using p'(1,2) packetbuf_copyto_Done(1) [OF q] True len tl assms(3) by simp
  next
    case False
    then show ?thesis using len tl by (simp add: packetbuf_hdralloc_def)
  qed
qed

theorem packetbuf_framing_witness:
  "case packetbuf_hdralloc 2 (pb_zero\<lparr>pb_data := [7, 8, 9] @ replicate 125 0, buflen := 3\<rparr>) of (res, p') \<Rightarrow>
     res = 1 \<and> packetbuf_copyto (p'\<lparr>pb_data := [1, 2] @ drop 2 (pb_data p')\<rparr>) = Done (5, [1, 2, 7, 8, 9])"
proof -
  have f: "pb_frame (pb_zero\<lparr>pb_data := [7, 8, 9] @ replicate 125 0, buflen := 3\<rparr>) = [7, 8, 9]"
    by (simp add: pb_frame_def pb_zero_def packetbuf_dataptr_def packetbuf_hdrlen_def)
  have "pb_inv (pb_zero\<lparr>pb_data := [7, 8, 9] @ replicate 125 0, buflen := 3\<rparr>)"
    "bufptr (pb_zero\<lparr>pb_data := [7, 8, 9] @ replicate 125 0, buflen := 3\<rparr>) = 0"
    by (simp_all add: pb_inv_def pb_zero_def PACKETBUF_SIZE_def)
  from packetbuf_framing [OF this, of "[1, 2]" 2] f show ?thesis
    by (auto simp: PACKETBUF_SIZE_def split: prod.splits)
qed

text \<open>C36. Queued packets are faithful copies: storing the packet buffer in a queuebuf succeeds exactly while
  one is free, takes an unused block, disturbs no queued packet, and reading it back yields
  the same frame, attributes and addresses; freeing it releases exactly that block.\<close>

theorem queuebuf_roundtrip:
  assumes "qb_inv q" "pb_inv p" "length (pb_data p0) = PACKETBUF_SIZE"
  shows "if memb_numfree (bufmem q) = 0 then queuebuf_new_from_packetbuf p q = Done (None, q)
    else \<exists>b q' p'. queuebuf_new_from_packetbuf p q = Done (Some b, q') \<and> qb_inv q' \<and>
      b \<notin> memb_used (bufmem q) \<and> (\<forall>c \<in> memb_used (bufmem q). qb_packet q' c = qb_packet q c) \<and>
      queuebuf_to_packetbuf b p0 q' = Done p' \<and> pb_frame p' = pb_frame p \<and>
      packetbuf_attrs p' = packetbuf_attrs p \<and> packetbuf_addrs p' = packetbuf_addrs p \<and>
      memb_used (bufmem (queuebuf_free b q')) = memb_used (bufmem q) \<and> qb_inv (queuebuf_free b q')"
proof (cases "memb_numfree (bufmem q) = 0")
  case True
  then show ?thesis using queuebuf_new_spec [OF assms(1,2)] by simp
next
  case False
  then obtain b q' where b: "queuebuf_new_from_packetbuf p q = Done (Some b, q')" "qb_inv q'"
      "b \<notin> memb_used (bufmem q)" "memb_used (bufmem q') = insert b (memb_used (bufmem q))"
      "qb_packet q' b = Some (pb_frame p, packetbuf_attrs p, packetbuf_addrs p)"
      "\<forall>c \<in> memb_used (bufmem q). qb_packet q' c = qb_packet q c"
    using queuebuf_new_spec [OF assms(1,2)] by auto
  have bu: "b \<in> memb_used (bufmem q')" using b(4) by simp
  show ?thesis
    using False b queuebuf_to_packetbuf_spec [OF b(2) bu assms(3)] queuebuf_free_spec(1,2) [OF b(2) bu]
    by auto
qed

theorem queuebuf_roundtrip_witness:
  "\<exists>b q' p'. queuebuf_new_from_packetbuf pb_zero qb_zero = Done (Some b, q') \<and>
     queuebuf_to_packetbuf b pb_zero q' = Done p' \<and> pb_frame p' = pb_frame pb_zero"
  using queuebuf_roundtrip [OF qb_zero_inv(1) pb_zero_inv, of pb_zero] qb_zero_inv(3)
  by (auto simp: pb_zero_def)

end
