(* ===== verification/TschState.thy ===== *)
theory TschState
  imports RingBuf Packetbuf LinkedList Asn
begin

text \<open>
  The data types of \<^verbatim>\<open>os/net/mac/tsch/tsch-types.h\<close>, the state the TSCH queue and schedule modules
  share, the lock of \<^verbatim>\<open>tsch-slot-operation.c\<close> and the keep-alive timer of \<^verbatim>\<open>tsch.c\<close>.

  Neighbors, packets, links and slotframes are blocks of their memb pools; a pointer is a block index.
  The lists \<open>neighbor_list\<close>, \<open>slotframe_list\<close> and \<open>links_list\<close> are kept as item lists, which the theory
  LinkedList relates to chains of \<open>next\<close> pointers. The lock is taken at the point where the
  wait for the current slot operation has ended. Values of \<open>random_rand\<close> are arguments. Calls of a
  packet's sent callback are recorded in \<open>sent_log\<close> with their arguments.
\<close>

datatype link_type = LINK_TYPE_NORMAL | LINK_TYPE_ADVERTISING | LINK_TYPE_ADVERTISING_ONLY

record tsch_link =
  l_handle :: u16
  l_addr :: linkaddr
  slotframe_handle :: u16
  timeslot :: u16
  channel_offset :: u16
  link_options :: u8
  l_type :: link_type

record tsch_slotframe =
  sf_handle :: u16
  sf_size :: tsch_asn_divisor_t
  links_list :: "nat list"

record tsch_packet =
  p_qb :: "nat option"
  p_sent :: "nat option"
  p_ptr :: nat
  transmissions :: u8
  max_transmissions :: u8
  p_ret :: u8
  header_len :: u8
  tsch_sync_ie_offset :: u8

record tsch_neighbor =
  n_addr :: linkaddr
  is_broadcast :: bool
  is_time_source :: bool
  backoff_exponent :: u8
  backoff_window :: u8
  last_backoff_window :: u8
  tx_links_count :: u8
  dedicated_tx_links_count :: u8
  tx_array :: "nat option list"
  tx_ringbuf :: ringbufindex

record sent_event =
  ev_sent :: nat
  ev_ptr :: nat
  ev_status :: u8
  ev_num_tx :: u8

record tsch =
  tsch_locked :: bool
  tsch_lock_requested :: bool
  tsch_is_coordinator :: bool
  tsch_is_associated :: bool
  tsch_current_ka_timeout :: u32
  keepalive_timer :: "u32 option"
  neighbor_memb :: "tsch_neighbor memb"
  packet_memb :: "tsch_packet memb"
  neighbor_list :: "nat list"
  n_eb :: "nat option"
  n_broadcast :: "nat option"
  link_memb :: "tsch_link memb"
  slotframe_memb :: "tsch_slotframe memb"
  slotframe_list :: "nat list"
  current_link :: "nat option"
  current_link_handle :: int
  pbuf :: packetbuf
  qbs :: qbufs
  sent_log :: "sent_event list"

section \<open>Configuration constants (default values)\<close>

definition TSCH_QUEUE_NUM_PER_NEIGHBOR :: nat where "TSCH_QUEUE_NUM_PER_NEIGHBOR = 8"
definition TSCH_QUEUE_MAX_NEIGHBOR_QUEUES :: nat where "TSCH_QUEUE_MAX_NEIGHBOR_QUEUES = 18"
definition TSCH_SCHEDULE_MAX_LINKS :: nat where "TSCH_SCHEDULE_MAX_LINKS = 32"
definition TSCH_SCHEDULE_MAX_SLOTFRAMES :: nat where "TSCH_SCHEDULE_MAX_SLOTFRAMES = 4"
definition TSCH_SCHEDULE_DEFAULT_LENGTH :: u16 where "TSCH_SCHEDULE_DEFAULT_LENGTH = 7"
definition TSCH_MAC_MIN_BE :: u8 where "TSCH_MAC_MIN_BE = 1"
definition TSCH_MAC_MAX_BE :: u8 where "TSCH_MAC_MAX_BE = 5"
definition TSCH_KEEPALIVE_TIMEOUT :: u32 where "TSCH_KEEPALIVE_TIMEOUT = 12 * 128"

definition LINK_OPTION_TX :: u8 where "LINK_OPTION_TX = 1"
definition LINK_OPTION_RX :: u8 where "LINK_OPTION_RX = 2"
definition LINK_OPTION_SHARED :: u8 where "LINK_OPTION_SHARED = 4"
definition LINK_OPTION_TIME_KEEPING :: u8 where "LINK_OPTION_TIME_KEEPING = 8"

definition MAC_TX_OK :: u8 where "MAC_TX_OK = 0"
definition MAC_TX_COLLISION :: u8 where "MAC_TX_COLLISION = 1"
definition MAC_TX_NOACK :: u8 where "MAC_TX_NOACK = 2"
definition MAC_TX_DEFERRED :: u8 where "MAC_TX_DEFERRED = 3"
definition MAC_TX_ERR :: u8 where "MAC_TX_ERR = 4"

definition tsch_broadcast_address :: linkaddr where "tsch_broadcast_address = replicate LINKADDR_SIZE 0xff"
definition tsch_eb_address :: linkaddr where "tsch_eb_address = replicate LINKADDR_SIZE 0"

lemma tsch_addresses [simp]:
  "is_linkaddr tsch_broadcast_address" "is_linkaddr tsch_eb_address"
  "tsch_broadcast_address \<noteq> tsch_eb_address" "tsch_eb_address \<noteq> tsch_broadcast_address"
  by (simp_all add: is_linkaddr_def tsch_broadcast_address_def tsch_eb_address_def LINKADDR_SIZE_def)

section \<open>Blocks\<close>

abbreviation nbr :: "tsch \<Rightarrow> nat \<Rightarrow> tsch_neighbor" where "nbr s n \<equiv> mb_mem (neighbor_memb s) n"
abbreviation pkt :: "tsch \<Rightarrow> nat \<Rightarrow> tsch_packet" where "pkt s p \<equiv> mb_mem (packet_memb s) p"
abbreviation link :: "tsch \<Rightarrow> nat \<Rightarrow> tsch_link" where "link s l \<equiv> mb_mem (link_memb s) l"
abbreviation sframe :: "tsch \<Rightarrow> nat \<Rightarrow> tsch_slotframe" where "sframe s f \<equiv> mb_mem (slotframe_memb s) f"

definition nbr_upd :: "nat \<Rightarrow> (tsch_neighbor \<Rightarrow> tsch_neighbor) \<Rightarrow> tsch \<Rightarrow> tsch" where
  "nbr_upd n f s = s\<lparr>neighbor_memb := blk_upd n f (neighbor_memb s)\<rparr>"

definition pkt_upd :: "nat \<Rightarrow> (tsch_packet \<Rightarrow> tsch_packet) \<Rightarrow> tsch \<Rightarrow> tsch" where
  "pkt_upd p f s = s\<lparr>packet_memb := blk_upd p f (packet_memb s)\<rparr>"

definition link_upd :: "nat \<Rightarrow> (tsch_link \<Rightarrow> tsch_link) \<Rightarrow> tsch \<Rightarrow> tsch" where
  "link_upd l f s = s\<lparr>link_memb := blk_upd l f (link_memb s)\<rparr>"

definition sf_upd :: "nat \<Rightarrow> (tsch_slotframe \<Rightarrow> tsch_slotframe) \<Rightarrow> tsch \<Rightarrow> tsch" where
  "sf_upd f g s = s\<lparr>slotframe_memb := blk_upd f g (slotframe_memb s)\<rparr>"

section \<open>The lock\<close>

definition tsch_is_locked :: "tsch \<Rightarrow> bool" where
  "tsch_is_locked s = tsch_locked s"

definition tsch_get_lock :: "tsch \<Rightarrow> bool \<times> tsch" where
  "tsch_get_lock s =
     (if \<not> tsch_locked s
      then (True, s\<lparr>tsch_lock_requested := False, tsch_locked := True\<rparr>)
      else (False, s))"

definition tsch_release_lock :: "tsch \<Rightarrow> tsch" where
  "tsch_release_lock s = s\<lparr>tsch_locked := False\<rparr>"

section \<open>Callbacks and the keep-alive timer\<close>

definition mac_call_sent_callback :: "nat option \<Rightarrow> nat \<Rightarrow> u8 \<Rightarrow> u8 \<Rightarrow> tsch \<Rightarrow> tsch" where
  "mac_call_sent_callback sent ptr status num_tx s =
     (case sent of None \<Rightarrow> s
      | Some cb \<Rightarrow> s\<lparr>sent_log := sent_log s @
          [\<lparr>ev_sent = cb, ev_ptr = ptr, ev_status = status, ev_num_tx = num_tx\<rparr>]\<rparr>)"

text \<open>The remainder is undefined in C when the timeout is below 10 ticks; the theorems that
  mention the delay exclude it.\<close>

definition tsch_schedule_keepalive :: "u16 \<Rightarrow> tsch \<Rightarrow> tsch" where
  "tsch_schedule_keepalive rnd s =
     (let t = tsch_current_ka_timeout s in
      if \<not> tsch_is_coordinator s \<and> tsch_is_associated s \<and> t > 0
      then s\<lparr>keepalive_timer := Some ((t - t div 10) + ucast rnd mod (t div 10))\<rparr>
      else s)"

definition tsch_set_ka_timeout :: "u16 \<Rightarrow> u32 \<Rightarrow> tsch \<Rightarrow> tsch" where
  "tsch_set_ka_timeout rnd timeout s =
     (let s1 = s\<lparr>tsch_current_ka_timeout := timeout\<rparr> in
      if timeout = 0 then s1\<lparr>keepalive_timer := None\<rparr> else tsch_schedule_keepalive rnd s1)"

definition tsch_schedule_keepalive_immediately :: "tsch \<Rightarrow> tsch" where
  "tsch_schedule_keepalive_immediately s =
     (if \<not> tsch_is_coordinator s \<and> tsch_is_associated s then s\<lparr>keepalive_timer := Some 0\<rparr> else s)"

text \<open>A keep-alive is due within the last tenth of the timeout.\<close>

lemma keepalive_delay:
  assumes "\<not> tsch_is_coordinator s" "tsch_is_associated s" "10 \<le> timeout"
  shows "\<exists>d. keepalive_timer (tsch_set_ka_timeout rnd timeout s) = Some d \<and>
           timeout - timeout div 10 \<le> d \<and> d < timeout"
proof -
  let ?t = "unat timeout"
  let ?r = "(ucast rnd :: u32) mod (timeout div 10)"
  have t10: "10 \<le> ?t" using assms(3) by (simp add: word_le_nat_alt)
  have div10: "unat (timeout div 10) = ?t div 10" by (simp add: unat_div_distrib)
  have r: "unat ?r < ?t div 10"
    using t10 by (simp add: unat_mod_distrib div10)
  have sub: "unat (timeout - timeout div 10) = ?t - ?t div 10"
    by (subst unat_sub) (simp_all add: word_le_nat_alt div10)
  have "unat ((timeout - timeout div 10) + ?r) = (?t - ?t div 10) + unat ?r"
    using r sub u32_bound [of timeout] by (simp add: unat_word_ariths)
  then have "timeout - timeout div 10 \<le> (timeout - timeout div 10) + ?r \<and>
      (timeout - timeout div 10) + ?r < timeout"
    unfolding word_le_nat_alt word_less_nat_alt
    using r sub t10 div_le_dividend [of ?t 10] by linarith
  moreover have "0 < timeout"
    using t10 by (simp add: word_less_nat_alt)
  ultimately show ?thesis
    using assms by (auto simp: tsch_set_ka_timeout_def tsch_schedule_keepalive_def Let_def)
qed

section \<open>What the bookkeeping operations leave unchanged\<close>

lemma nbr_upd_simps [simp]:
  "nbr (nbr_upd n f s) m = (if m = n then f (nbr s n) else nbr s m)"
  "tsch_locked (nbr_upd n f s) = tsch_locked s"
  "packet_memb (nbr_upd n f s) = packet_memb s"
  "neighbor_list (nbr_upd n f s) = neighbor_list s"
  "qbs (nbr_upd n f s) = qbs s" "pbuf (nbr_upd n f s) = pbuf s"
  "sent_log (nbr_upd n f s) = sent_log s"
  "link_memb (nbr_upd n f s) = link_memb s" "slotframe_memb (nbr_upd n f s) = slotframe_memb s"
  "slotframe_list (nbr_upd n f s) = slotframe_list s"
  "current_link (nbr_upd n f s) = current_link s"
  "memb_used (neighbor_memb (nbr_upd n f s)) = memb_used (neighbor_memb s)"
  "memb_inv (neighbor_memb (nbr_upd n f s)) = memb_inv (neighbor_memb s)"
  "mb_num (neighbor_memb (nbr_upd n f s)) = mb_num (neighbor_memb s)"
  "tsch_is_coordinator (nbr_upd n f s) = tsch_is_coordinator s"
  "mb_count (neighbor_memb (nbr_upd n f s)) = mb_count (neighbor_memb s)"
  by (simp_all add: nbr_upd_def)

lemma pkt_upd_simps [simp]:
  "pkt (pkt_upd n f s) m = (if m = n then f (pkt s n) else pkt s m)"
  "tsch_locked (pkt_upd n f s) = tsch_locked s"
  "neighbor_memb (pkt_upd n f s) = neighbor_memb s"
  "neighbor_list (pkt_upd n f s) = neighbor_list s"
  "qbs (pkt_upd n f s) = qbs s" "pbuf (pkt_upd n f s) = pbuf s"
  "sent_log (pkt_upd n f s) = sent_log s"
  "link_memb (pkt_upd n f s) = link_memb s" "slotframe_memb (pkt_upd n f s) = slotframe_memb s"
  "slotframe_list (pkt_upd n f s) = slotframe_list s"
  "memb_used (packet_memb (pkt_upd n f s)) = memb_used (packet_memb s)"
  "memb_inv (packet_memb (pkt_upd n f s)) = memb_inv (packet_memb s)"
  "mb_num (packet_memb (pkt_upd n f s)) = mb_num (packet_memb s)"
  by (simp_all add: pkt_upd_def)

lemma lock_simps [simp]:
  "tsch_get_lock s = (\<not> tsch_locked s,
     if tsch_locked s then s else s\<lparr>tsch_lock_requested := False, tsch_locked := True\<rparr>)"
  "tsch_is_locked s = tsch_locked s"
  by (simp_all add: tsch_get_lock_def tsch_is_locked_def)

end
