(* ===== verification/TschQueue.thy ===== *)
theory TschQueue
  imports TschState
begin

text \<open>
  The per-neighbor transmit queues of \<^verbatim>\<open>os/net/mac/tsch/tsch-queue.c\<close>: neighbors are allocated on demand and
  kept in \<open>neighbor_list\<close>, each with a ring of packet pointers, a CSMA backoff state and flags. The
  flush loop is a partial function: with the lock taken \<open>tsch_queue_is_empty\<close> never answers yes
  and the loop does not return (None).
\<close>

section \<open>Neighbors\<close>

definition tsch_queue_get_nbr :: "linkaddr \<Rightarrow> tsch \<Rightarrow> nat option" where
  "tsch_queue_get_nbr a s =
     (if \<not> tsch_is_locked s then find (\<lambda>n. linkaddr_cmp (n_addr (nbr s n)) a) (neighbor_list s)
      else None)"

definition tsch_queue_backoff_expired :: "tsch_neighbor \<Rightarrow> bool" where
  "tsch_queue_backoff_expired n \<longleftrightarrow> backoff_window n = 0"

definition tsch_queue_backoff_reset :: "tsch_neighbor \<Rightarrow> tsch_neighbor" where
  "tsch_queue_backoff_reset n = n\<lparr>backoff_window := 0, backoff_exponent := TSCH_MAC_MIN_BE\<rparr>"

definition tsch_queue_backoff_inc :: "u16 \<Rightarrow> tsch_neighbor \<Rightarrow> tsch_neighbor" where
  "tsch_queue_backoff_inc rnd n =
     (let be = (if uint (backoff_exponent n) + 1 < uint TSCH_MAC_MAX_BE
                then backoff_exponent n + 1 else TSCH_MAC_MAX_BE);
          w = ucast (drop_bit 6 rnd mod push_bit (unat be) 1)
      in n\<lparr>backoff_exponent := be, backoff_window := w + 1\<rparr>)"

text \<open>A neighbor block after \<open>memset\<close> to zero.\<close>

definition nbr_zero :: tsch_neighbor where
  "nbr_zero = \<lparr>n_addr = linkaddr_null, is_broadcast = False, is_time_source = False,
     backoff_exponent = 0, backoff_window = 0, last_backoff_window = 0, tx_links_count = 0,
     dedicated_tx_links_count = 0, tx_array = replicate TSCH_QUEUE_NUM_PER_NEIGHBOR None,
     tx_ringbuf = \<lparr>rb_mask = 0, put_ptr = 0, get_ptr = 0\<rparr>\<rparr>"

definition nbr_new :: "linkaddr \<Rightarrow> tsch_neighbor" where
  "nbr_new a = tsch_queue_backoff_reset (nbr_zero
     \<lparr>tx_ringbuf := ringbufindex_init (of_nat TSCH_QUEUE_NUM_PER_NEIGHBOR),
      n_addr := linkaddr_copy linkaddr_null a,
      is_broadcast := linkaddr_cmp a tsch_eb_address \<or> linkaddr_cmp a tsch_broadcast_address\<rparr>)"

definition tsch_queue_add_nbr :: "linkaddr \<Rightarrow> tsch \<Rightarrow> nat option \<times> tsch" where
  "tsch_queue_add_nbr a s =
     (case tsch_queue_get_nbr a s of
        Some n \<Rightarrow> (Some n, s)
      | None \<Rightarrow>
          (let (ok, s1) = tsch_get_lock s in
           if ok then
             (case memb_alloc (neighbor_memb s1) of
                (None, m) \<Rightarrow> (None, tsch_release_lock (s1\<lparr>neighbor_memb := m\<rparr>))
              | (Some n, m) \<Rightarrow>
                  (let s2 = nbr_upd n (\<lambda>_. nbr_new a) (s1\<lparr>neighbor_memb := m\<rparr>);
                       s3 = s2\<lparr>neighbor_list := alist_add n (neighbor_list s2)\<rparr>
                   in (Some n, tsch_release_lock s3)))
           else (None, s1)))"

definition tsch_queue_get_time_source :: "tsch \<Rightarrow> nat option" where
  "tsch_queue_get_time_source s =
     (if \<not> tsch_is_locked s then find (\<lambda>n. is_time_source (nbr s n)) (neighbor_list s) else None)"

text \<open>Setting the new time source: the new neighbor's flag first, then the old one's is cleared.\<close>

definition time_source_switch :: "u16 \<Rightarrow> nat option \<Rightarrow> nat option \<Rightarrow> tsch \<Rightarrow> tsch" where
  "time_source_switch rnd old new s =
     (let s1 = (case new of
                  Some n \<Rightarrow> tsch_set_ka_timeout rnd TSCH_KEEPALIVE_TIMEOUT
                             (nbr_upd n (\<lambda>x. x\<lparr>is_time_source := True\<rparr>) s)
                | None \<Rightarrow> tsch_set_ka_timeout rnd 0 s)
      in case old of Some n \<Rightarrow> nbr_upd n (\<lambda>x. x\<lparr>is_time_source := False\<rparr>) s1 | None \<Rightarrow> s1)"

definition tsch_queue_update_time_source :: "u16 \<Rightarrow> linkaddr option \<Rightarrow> tsch \<Rightarrow> int \<times> tsch" where
  "tsch_queue_update_time_source rnd new_addr s =
     (if \<not> tsch_is_locked s \<and> \<not> tsch_is_coordinator s then
        (let old = tsch_queue_get_time_source s in
         case new_addr of
           None \<Rightarrow> (1, if None \<noteq> old then time_source_switch rnd old None s else s)
         | Some a \<Rightarrow>
             (case tsch_queue_add_nbr a s of
                (None, s1) \<Rightarrow> (0, s1)
              | (Some n, s1) \<Rightarrow> (1, if Some n \<noteq> old then time_source_switch rnd old (Some n) s1 else s1)))
      else (0, s))"

section \<open>Packets\<close>

definition tsch_queue_is_empty :: "nat option \<Rightarrow> tsch \<Rightarrow> bool" where
  "tsch_queue_is_empty n s \<longleftrightarrow>
     \<not> tsch_is_locked s \<and> (case n of None \<Rightarrow> False | Some i \<Rightarrow> ringbufindex_empty (tx_ringbuf (nbr s i)))"

definition tsch_queue_remove_packet_from_queue :: "nat option \<Rightarrow> tsch \<Rightarrow> nat option \<times> tsch" where
  "tsch_queue_remove_packet_from_queue n s =
     (if \<not> tsch_is_locked s then
        (case n of None \<Rightarrow> (None, s)
         | Some i \<Rightarrow>
             (let (get_index, r) = ringbufindex_get (tx_ringbuf (nbr s i));
                  s1 = nbr_upd i (\<lambda>x. x\<lparr>tx_ringbuf := r\<rparr>) s
              in if get_index \<noteq> -1 then (tx_array (nbr s i) ! nat get_index, s1) else (None, s1)))
      else (None, s))"

definition tsch_queue_free_packet :: "nat option \<Rightarrow> tsch \<Rightarrow> tsch" where
  "tsch_queue_free_packet p s =
     (case p of None \<Rightarrow> s
      | Some i \<Rightarrow>
          (let s1 = (case p_qb (pkt s i) of None \<Rightarrow> s | Some b \<Rightarrow> s\<lparr>qbs := queuebuf_free b (qbs s)\<rparr>)
           in s1\<lparr>packet_memb := snd (memb_free i (packet_memb s1))\<rparr>))"

text \<open>One iteration of the flush loop.\<close>

definition flush_step :: "nat \<Rightarrow> tsch \<Rightarrow> tsch" where
  "flush_step n s =
     (case tsch_queue_remove_packet_from_queue (Some n) s of
        (None, s1) \<Rightarrow> s1
      | (Some p, s1) \<Rightarrow>
          (let s2 = pkt_upd p (\<lambda>x. x\<lparr>p_ret := MAC_TX_ERR\<rparr>) s1;
               s3 = mac_call_sent_callback (p_sent (pkt s2 p)) (p_ptr (pkt s2 p)) (p_ret (pkt s2 p))
                      (transmissions (pkt s2 p)) s2
           in tsch_queue_free_packet (Some p) s3))"

partial_function (option) tsch_queue_flush_nbr_queue :: "nat \<Rightarrow> tsch \<Rightarrow> tsch option" where
  "tsch_queue_flush_nbr_queue n s =
     (if \<not> tsch_queue_is_empty (Some n) s then tsch_queue_flush_nbr_queue n (flush_step n s) else Some s)"

definition tsch_queue_remove_nbr :: "nat option \<Rightarrow> tsch \<Rightarrow> tsch option" where
  "tsch_queue_remove_nbr n s =
     (case n of None \<Rightarrow> Some s
      | Some i \<Rightarrow>
          (let (ok, s1) = tsch_get_lock s in
           if ok then
             (let s2 = tsch_release_lock (s1\<lparr>neighbor_list := remove1 i (neighbor_list s1)\<rparr>) in
              case tsch_queue_flush_nbr_queue i s2 of None \<Rightarrow> None
              | Some s3 \<Rightarrow> Some (s3\<lparr>neighbor_memb := snd (memb_free i (neighbor_memb s3))\<rparr>))
           else Some s1))"

text \<open>A stored packet: its fields are written, then the pointer, then the ring index.\<close>

definition tsch_queue_add_packet ::
    "linkaddr \<Rightarrow> u8 \<Rightarrow> nat option \<Rightarrow> nat \<Rightarrow> tsch \<Rightarrow> (nat option \<times> tsch) outcome" where
  "tsch_queue_add_packet a max_tx sent ptr s =
     (if \<not> tsch_is_locked s then
        (case tsch_queue_add_nbr a s of
           (None, s1) \<Rightarrow> Done (None, s1)
         | (Some n, s1) \<Rightarrow>
             (let put_index = ringbufindex_peek_put (tx_ringbuf (nbr s1 n)) in
              if put_index \<noteq> -1 then
                (case memb_alloc (packet_memb s1) of
                   (None, m) \<Rightarrow> Done (None, s1\<lparr>packet_memb := m\<rparr>)
                 | (Some p, m) \<Rightarrow>
                     (let s2 = s1\<lparr>packet_memb := m\<rparr> in
                      obind (queuebuf_new_from_packetbuf (pbuf s2) (qbs s2)) (\<lambda>(qb, q).
                      let s3 = pkt_upd p (\<lambda>x. x\<lparr>p_qb := qb\<rparr>) (s2\<lparr>qbs := q\<rparr>) in
                      case qb of
                        None \<Rightarrow> Done (None, s3\<lparr>packet_memb := snd (memb_free p (packet_memb s3))\<rparr>)
                      | Some b \<Rightarrow>
                          (let s4 = pkt_upd p (\<lambda>x. x\<lparr>p_sent := sent, p_ptr := ptr, p_ret := MAC_TX_DEFERRED,
                                     transmissions := 0, max_transmissions := max_tx\<rparr>) s3
                           in if nat put_index < length (tx_array (nbr s4 n))
                              then Done (Some p, nbr_upd n (\<lambda>x. x\<lparr>
                                     tx_array := (tx_array x)[nat put_index := Some p],
                                     tx_ringbuf := snd (ringbufindex_put (tx_ringbuf x))\<rparr>) s4)
                              else Fault))))
              else Done (None, s1)))
      else Done (None, s))"

definition tsch_queue_global_packet_count :: "tsch \<Rightarrow> int" where
  "tsch_queue_global_packet_count s = int QUEUEBUF_NUM - int (memb_numfree (packet_memb s))"

definition tsch_queue_packet_count :: "linkaddr \<Rightarrow> tsch \<Rightarrow> int \<times> tsch" where
  "tsch_queue_packet_count a s =
     (if \<not> tsch_is_locked s then
        (case tsch_queue_add_nbr a s of
           (None, s1) \<Rightarrow> (-1, s1)
         | (Some n, s1) \<Rightarrow> (ringbufindex_elements (tx_ringbuf (nbr s1 n)), s1))
      else (-1, s))"

definition tsch_queue_packet_sent :: "u16 \<Rightarrow> nat \<Rightarrow> nat \<Rightarrow> nat \<Rightarrow> u8 \<Rightarrow> tsch \<Rightarrow> int \<times> tsch" where
  "tsch_queue_packet_sent rnd n p l mac_tx_status s =
     (let is_shared_link = link_options (link s l) AND LINK_OPTION_SHARED \<noteq> 0;
          is_unicast = \<not> is_broadcast (nbr s n)
      in if mac_tx_status = MAC_TX_OK then
           (let s1 = snd (tsch_queue_remove_packet_from_queue (Some n) s)
            in (0, if is_unicast \<and> (is_shared_link \<or> tsch_queue_is_empty (Some n) s1)
                   then nbr_upd n tsch_queue_backoff_reset s1 else s1))
         else
           (let (in_queue, s1) =
                  (if transmissions (pkt s p) \<ge> max_transmissions (pkt s p)
                   then (0, snd (tsch_queue_remove_packet_from_queue (Some n) s)) else (1, s))
            in (in_queue, if is_unicast \<and> is_shared_link
                          then nbr_upd n (tsch_queue_backoff_inc rnd) s1 else s1)))"

section \<open>Sweeps over all neighbors\<close>

text \<open>The loops read the next neighbor before they treat the current one, so they run over the list
  as it was at the start.\<close>

fun reset_loop :: "nat list \<Rightarrow> tsch \<Rightarrow> tsch option" where
  "reset_loop [] s = Some s"
| "reset_loop (n # ns) s =
     (case tsch_queue_flush_nbr_queue n s of None \<Rightarrow> None
      | Some s1 \<Rightarrow> reset_loop ns (nbr_upd n tsch_queue_backoff_reset s1))"

definition tsch_queue_reset :: "tsch \<Rightarrow> tsch option" where
  "tsch_queue_reset s = (if \<not> tsch_is_locked s then reset_loop (neighbor_list s) s else Some s)"

fun free_unused_loop :: "nat list \<Rightarrow> tsch \<Rightarrow> tsch option" where
  "free_unused_loop [] s = Some s"
| "free_unused_loop (n # ns) s =
     (if \<not> is_broadcast (nbr s n) \<and> \<not> is_time_source (nbr s n) \<and> tx_links_count (nbr s n) = 0 \<and>
         tsch_queue_is_empty (Some n) s
      then (case tsch_queue_remove_nbr (Some n) s of None \<Rightarrow> None | Some s1 \<Rightarrow> free_unused_loop ns s1)
      else free_unused_loop ns s)"

definition tsch_queue_free_unused_neighbors :: "tsch \<Rightarrow> tsch option" where
  "tsch_queue_free_unused_neighbors s =
     (if \<not> tsch_is_locked s then free_unused_loop (neighbor_list s) s else Some s)"

section \<open>Packet selection\<close>

definition tsch_queue_get_packet_for_nbr :: "nat option \<Rightarrow> nat option \<Rightarrow> tsch \<Rightarrow> nat option" where
  "tsch_queue_get_packet_for_nbr n l s =
     (if \<not> tsch_is_locked s then
        (let is_shared_link = (case l of None \<Rightarrow> False
                               | Some i \<Rightarrow> link_options (link s i) AND LINK_OPTION_SHARED \<noteq> 0)
         in case n of None \<Rightarrow> None
            | Some i \<Rightarrow>
                (let get_index = ringbufindex_peek_get (tx_ringbuf (nbr s i)) in
                 if get_index \<noteq> -1 \<and> \<not> (is_shared_link \<and> \<not> tsch_queue_backoff_expired (nbr s i))
                 then tx_array (nbr s i) ! nat get_index else None))
      else None)"

definition tsch_queue_get_packet_for_dest_addr :: "linkaddr \<Rightarrow> nat option \<Rightarrow> tsch \<Rightarrow> nat option" where
  "tsch_queue_get_packet_for_dest_addr a l s =
     (if \<not> tsch_is_locked s then tsch_queue_get_packet_for_nbr (tsch_queue_get_nbr a s) l s else None)"

fun unicast_packet_loop :: "nat list \<Rightarrow> nat option \<Rightarrow> tsch \<Rightarrow> (nat \<times> nat) option" where
  "unicast_packet_loop [] l s = None"
| "unicast_packet_loop (n # ns) l s =
     (if \<not> is_broadcast (nbr s n) \<and> tx_links_count (nbr s n) = 0 then
        (case tsch_queue_get_packet_for_nbr (Some n) l s of
           Some p \<Rightarrow> Some (p, n) | None \<Rightarrow> unicast_packet_loop ns l s)
      else unicast_packet_loop ns l s)"

definition tsch_queue_get_unicast_packet_for_any :: "nat option \<Rightarrow> tsch \<Rightarrow> (nat \<times> nat) option" where
  "tsch_queue_get_unicast_packet_for_any l s =
     (if \<not> tsch_is_locked s then unicast_packet_loop (neighbor_list s) l s else None)"

definition backoff_due :: "linkaddr \<Rightarrow> tsch_neighbor \<Rightarrow> bool" where
  "backoff_due dest x \<longleftrightarrow> backoff_window x \<noteq> 0 \<and>
     (tx_links_count x = 0 \<and> linkaddr_cmp dest tsch_broadcast_address \<or>
      tx_links_count x > 0 \<and> linkaddr_cmp dest (n_addr x))"

fun backoff_loop :: "linkaddr \<Rightarrow> nat list \<Rightarrow> tsch \<Rightarrow> tsch" where
  "backoff_loop dest [] s = s"
| "backoff_loop dest (n # ns) s =
     backoff_loop dest ns
       (if backoff_due dest (nbr s n)
        then nbr_upd n (\<lambda>x. x\<lparr>backoff_window := backoff_window x - 1\<rparr>) s else s)"

definition tsch_queue_update_all_backoff_windows :: "linkaddr \<Rightarrow> tsch \<Rightarrow> tsch" where
  "tsch_queue_update_all_backoff_windows dest s =
     (if \<not> tsch_is_locked s then backoff_loop dest (neighbor_list s) s else s)"

definition pkt_zero :: tsch_packet where
  "pkt_zero = \<lparr>p_qb = None, p_sent = None, p_ptr = 0, transmissions = 0, max_transmissions = 0,
     p_ret = 0, header_len = 0, tsch_sync_ie_offset = 0\<rparr>"

definition tsch_queue_init :: "tsch \<Rightarrow> tsch" where
  "tsch_queue_init s =
     (let s1 = s\<lparr>neighbor_list := [], neighbor_memb := memb_init nbr_zero (neighbor_memb s),
                 packet_memb := memb_init pkt_zero (packet_memb s)\<rparr>;
          (eb, s2) = tsch_queue_add_nbr tsch_eb_address s1;
          (bc, s3) = tsch_queue_add_nbr tsch_broadcast_address (s2\<lparr>n_eb := eb\<rparr>)
      in s3\<lparr>n_broadcast := bc\<rparr>)"


text \<open>The statically initialised memory at boot: pools of the configured sizes, all bytes zero.\<close>

definition link_zero :: tsch_link where
  "link_zero = \<lparr>l_handle = 0, l_addr = linkaddr_null, slotframe_handle = 0, timeslot = 0,
     channel_offset = 0, link_options = 0, l_type = LINK_TYPE_NORMAL\<rparr>"

definition sf_zero :: tsch_slotframe where
  "sf_zero = \<lparr>sf_handle = 0, sf_size = \<lparr>div_val = 0, asn_ms1b_remainder = 0\<rparr>, links_list = []\<rparr>"

definition pool :: "nat \<Rightarrow> 'b \<Rightarrow> 'b memb" where
  "pool k z = \<lparr>mb_num = k, mb_count = \<lambda>_. 0, mb_mem = \<lambda>_. z\<rparr>"

definition tsch_zero :: tsch where
  "tsch_zero = \<lparr>tsch_locked = False, tsch_lock_requested = False, tsch_is_coordinator = False,
     tsch_is_associated = False, tsch_current_ka_timeout = 0, keepalive_timer = None,
     neighbor_memb = pool TSCH_QUEUE_MAX_NEIGHBOR_QUEUES nbr_zero, packet_memb = pool QUEUEBUF_NUM pkt_zero,
     neighbor_list = [], n_eb = None, n_broadcast = None,
     link_memb = pool TSCH_SCHEDULE_MAX_LINKS link_zero,
     slotframe_memb = pool TSCH_SCHEDULE_MAX_SLOTFRAMES sf_zero, slotframe_list = [],
     current_link = None, current_link_handle = 0, pbuf = pb_zero, qbs = qb_zero, sent_log = []\<rparr>"

end
