(* ===== verification/TschQueueInv.thy ===== *)
theory TschQueueInv
  imports TschQueue
begin

text \<open>
  Correctness of the transmit queues. Each neighbor's ring of packet pointers is a bounded FIFO
  (the interface of theory RingBuf, capacity 7 of 8 slots); \<open>q_inv\<close> is the invariant of the module: neighbors
  are listed once, have distinct addresses and at most one is the time source; backoff values are in range; no
  packet is queued twice, and every allocated packet owns a queuebuf of its own.
\<close>

section \<open>The queue of one neighbor\<close>

definition nbr_queue :: "tsch_neighbor \<Rightarrow> nat list" where
  "nbr_queue x = map (\<lambda>i. the (tx_array x ! i)) (rb_slots 3 (tx_ringbuf x))"

definition nbr_ok :: "tsch_neighbor \<Rightarrow> bool" where
  "nbr_ok x \<longleftrightarrow> rb_inv 3 (tx_ringbuf x) \<and> length (tx_array x) = TSCH_QUEUE_NUM_PER_NEIGHBOR \<and>
     (\<forall>i \<in> set (rb_slots 3 (tx_ringbuf x)). tx_array x ! i \<noteq> None) \<and>
     is_linkaddr (n_addr x) \<and>
     (is_broadcast x \<longleftrightarrow> n_addr x = tsch_eb_address \<or> n_addr x = tsch_broadcast_address) \<and>
     TSCH_MAC_MIN_BE \<le> backoff_exponent x \<and> backoff_exponent x \<le> TSCH_MAC_MAX_BE \<and>
     backoff_window x \<le> 2 ^ unat TSCH_MAC_MAX_BE"

definition nbr_put :: "nat \<Rightarrow> tsch_neighbor \<Rightarrow> (int \<times> tsch_neighbor) outcome" where
  "nbr_put p x =
     (let i = ringbufindex_peek_put (tx_ringbuf x) in
      if i = -1 then Done (0, x)
      else if nat i < length (tx_array x)
      then Done (1, x\<lparr>tx_array := (tx_array x)[nat i := Some p],
                      tx_ringbuf := snd (ringbufindex_put (tx_ringbuf x))\<rparr>)
      else Fault)"

definition nbr_get :: "tsch_neighbor \<Rightarrow> (nat option \<times> tsch_neighbor) outcome" where
  "nbr_get x =
     (let (i, r) = ringbufindex_get (tx_ringbuf x) in
      if i = -1 then Done (None, x) else Done (tx_array x ! nat i, x\<lparr>tx_ringbuf := r\<rparr>))"

lemma nbr_okD:
  assumes "nbr_ok x"
  shows "rb_inv 3 (tx_ringbuf x)" "length (tx_array x) = 8" "is_linkaddr (n_addr x)"
    "i \<in> set (rb_slots 3 (tx_ringbuf x)) \<Longrightarrow> \<exists>p. tx_array x ! i = Some p"
  using assms by (auto simp: nbr_ok_def TSCH_QUEUE_NUM_PER_NEIGHBOR_def)

lemma nbr_queue_length: "length (nbr_queue x) \<le> 7"
  using rb_count_less [of 3 "tx_ringbuf x"] by (simp add: nbr_queue_def)

lemma nbr_put_full: "nbr_ok x \<Longrightarrow> length (nbr_queue x) = 7 \<Longrightarrow> nbr_put p x = Done (0, x)"
  using ringbufindex_peek_spec(2) [of 3 "tx_ringbuf x"]
  by (simp add: nbr_put_def nbr_okD nbr_queue_def)

lemma nbr_put_room:
  assumes ok: "nbr_ok x" and room: "length (nbr_queue x) < 7"
  obtains x' where "nbr_put p x = Done (1, x')" "nbr_ok x'" "nbr_queue x' = nbr_queue x @ [p]"
    "x' = x\<lparr>tx_array := tx_array x', tx_ringbuf := tx_ringbuf x'\<rparr>"
proof -
  let ?r = "tx_ringbuf x" and ?i = "unat (put_ptr (tx_ringbuf x))"
  note inv = nbr_okD(1) [OF ok]
  obtain res r' where p: "ringbufindex_put ?r = (res, r')" by (cases "ringbufindex_put ?r")
  have cnt: "rb_count 3 ?r < 2 ^ 3 - 1" using room by (simp add: nbr_queue_def)
  note spec = ringbufindex_put_spec [OF inv p]
  have slots: "rb_slots 3 r' = rb_slots 3 ?r @ [?i]" using spec(2) [OF cnt] by simp
  have i: "?i < length (tx_array x)" using inv nbr_okD(2) [OF ok] by (simp add: rb_inv_def)
  have peek: "ringbufindex_peek_put ?r = int ?i"
    using ringbufindex_peek_spec(2) [OF inv] cnt by simp
  let ?x = "x\<lparr>tx_array := (tx_array x)[?i := Some p], tx_ringbuf := r'\<rparr>"
  have fresh: "?i \<notin> set (rb_slots 3 ?r)" using put_slot_fresh [OF inv cnt] .
  then have "nbr_ok ?x"
    using ok spec(1) i slots by (auto simp: nbr_ok_def nth_list_update)
  moreover have "nbr_queue ?x = nbr_queue x @ [p]"
    using i fresh by (auto simp: nbr_queue_def slots nth_list_update)
  moreover have "nbr_put p x = Done (1, ?x)"
    using peek i p by (simp add: nbr_put_def Let_def del: of_nat_unat)
  ultimately show ?thesis using that by simp
qed

lemma nbr_get_Cons:
  assumes ok: "nbr_ok x" and q: "nbr_queue x = p # ps"
  obtains i r where "ringbufindex_get (tx_ringbuf x) = (i, r)" "i \<noteq> -1" "tx_array x ! nat i = Some p"
    "nbr_ok (x\<lparr>tx_ringbuf := r\<rparr>)" "nbr_queue (x\<lparr>tx_ringbuf := r\<rparr>) = ps"
    "ringbufindex_peek_get (tx_ringbuf x) = i"
proof -
  note inv = nbr_okD(1) [OF ok]
  obtain j js where s: "rb_slots 3 (tx_ringbuf x) = j # js" "the (tx_array x ! j) = p"
      "ps = map (\<lambda>i. the (tx_array x ! i)) js"
    using q by (auto simp: nbr_queue_def map_eq_Cons_conv)
  obtain i r where g: "ringbufindex_get (tx_ringbuf x) = (i, r)" by fastforce
  note spec = ringbufindex_get_spec [OF inv g]
  have r: "i = int j" "rb_slots 3 r = js" using spec(2) [OF s(1)] by simp_all
  have "tx_array x ! j = Some p" using nbr_okD(4) [OF ok, of j] s by auto
  moreover have "nbr_ok (x\<lparr>tx_ringbuf := r\<rparr>)" using ok spec(1) r(2) s(1) by (simp add: nbr_ok_def)
  moreover have "ringbufindex_peek_get (tx_ringbuf x) = i"
    using ringbufindex_peek_spec(1) [OF inv] s(1) r(1) by simp
  ultimately show ?thesis using that [of i r] g r s(3) by (simp add: nbr_queue_def)
qed

lemma nbr_get_Nil:
  assumes "nbr_ok x" "nbr_queue x = []"
  shows "ringbufindex_get (tx_ringbuf x) = (-1, tx_ringbuf x)" "ringbufindex_peek_get (tx_ringbuf x) = -1"
proof -
  obtain i r where g: "ringbufindex_get (tx_ringbuf x) = (i, r)" by fastforce
  then show "ringbufindex_get (tx_ringbuf x) = (-1, tx_ringbuf x)"
    using ringbufindex_get_spec(3) [OF nbr_okD(1) [OF assms(1)] g] assms(2) by (simp add: nbr_queue_def)
  show "ringbufindex_peek_get (tx_ringbuf x) = -1"
    using ringbufindex_peek_spec(1) [OF nbr_okD(1) [OF assms(1)]] assms(2) by (simp add: nbr_queue_def)
qed

interpretation nbr_fifo: bounded_fifo nbr_put nbr_get nbr_queue nbr_ok "\<lambda>_. 7"
proof unfold_locales
  fix x :: tsch_neighbor and p and ps
  assume ok: "nbr_ok x"
  show "\<exists>s'. nbr_put p x = Done (1, s') \<and> nbr_ok s' \<and> nbr_queue s' = nbr_queue x @ [p] \<and> (7::nat) = 7"
    if "length (nbr_queue x) < 7"
    using nbr_put_room [OF ok that, of p] by blast
  show "\<exists>s'. nbr_get x = Done (Some p, s') \<and> nbr_ok s' \<and> nbr_queue s' = ps \<and> (7::nat) = 7"
    if q: "nbr_queue x = p # ps"
  proof -
    obtain i r where "ringbufindex_get (tx_ringbuf x) = (i, r)" "i \<noteq> -1" "tx_array x ! nat i = Some p"
        "nbr_ok (x\<lparr>tx_ringbuf := r\<rparr>)" "nbr_queue (x\<lparr>tx_ringbuf := r\<rparr>) = ps"
      using nbr_get_Cons [OF ok q] by blast
    then show ?thesis by (simp add: nbr_get_def)
  qed
  show "nbr_queue x = [] \<Longrightarrow> nbr_get x = Done (None, x)"
    using nbr_get_Nil(1) [OF ok] by (simp add: nbr_get_def)
  show "length (nbr_queue x) = 7 \<Longrightarrow> nbr_put p x = Done (0, x)"
    using nbr_put_full [OF ok] .
  show "length (nbr_queue x) \<le> 7"
    by (rule nbr_queue_length)
qed

lemma ring_empty_iff: "nbr_ok x \<Longrightarrow> ringbufindex_empty (tx_ringbuf x) \<longleftrightarrow> nbr_queue x = []"
  by (simp add: ringbufindex_peek_spec(5) [OF nbr_okD(1)] nbr_queue_def)

subsection \<open>Backoff\<close>

lemma backoff_reset_ok: "nbr_ok x \<Longrightarrow> nbr_ok (tsch_queue_backoff_reset x)"
  by (simp add: nbr_ok_def tsch_queue_backoff_reset_def TSCH_MAC_MIN_BE_def TSCH_MAC_MAX_BE_def)

lemma nbr_queue_backoff [simp]:
  "nbr_queue (tsch_queue_backoff_reset x) = nbr_queue x"
  "nbr_queue (tsch_queue_backoff_inc rnd x) = nbr_queue x"
  by (simp_all add: nbr_queue_def tsch_queue_backoff_reset_def tsch_queue_backoff_inc_def Let_def)

lemma mod_pow_min5: "m mod 2 ^ min n 5 < (32 :: nat)"
proof -
  have "m mod 2 ^ min n 5 < 2 ^ min n 5" by simp
  also have "\<dots> \<le> 2 ^ 5" by (rule power_increasing) simp_all
  finally show ?thesis by simp
qed

lemma backoff_inc_values:
  assumes "TSCH_MAC_MIN_BE \<le> backoff_exponent x" "backoff_exponent x \<le> TSCH_MAC_MAX_BE"
  shows "unat (backoff_exponent (tsch_queue_backoff_inc rnd x)) = min (unat (backoff_exponent x) + 1) 5"
    "unat (backoff_window (tsch_queue_backoff_inc rnd x)) =
       unat rnd div 64 mod 2 ^ min (unat (backoff_exponent x) + 1) 5 + 1"
proof -
  let ?b = "unat (backoff_exponent x)"
  let ?e = "min (?b + 1) 5"
  have b: "1 \<le> ?b" "?b \<le> 5"
    using assms by (simp_all add: word_le_nat_alt TSCH_MAC_MIN_BE_def TSCH_MAC_MAX_BE_def)
  have lt: "uint (backoff_exponent x) + 1 < uint TSCH_MAC_MAX_BE \<longleftrightarrow> ?b + 1 < 5"
    unfolding uint_nat by (simp add: TSCH_MAC_MAX_BE_def del: of_nat_unat)
  show e: "unat (backoff_exponent (tsch_queue_backoff_inc rnd x)) = ?e"
    using b lt by (auto simp: tsch_queue_backoff_inc_def Let_def TSCH_MAC_MAX_BE_def unat_word_ariths)
  have "unat (drop_bit 6 rnd) = unat rnd div 64"
    by (simp add: drop_bit_eq_div unat_div_distrib)
  moreover have "unat (push_bit ?e (1 :: u16)) = 2 ^ ?e"
  proof -
    have "?e = 2 \<or> ?e = 3 \<or> ?e = 4 \<or> ?e = 5" using b by linarith
    then show ?thesis by (elim disjE) (simp_all only:, simp_all)
  qed
  moreover have "backoff_window (tsch_queue_backoff_inc rnd x) =
      ucast (drop_bit 6 rnd mod push_bit (unat (backoff_exponent (tsch_queue_backoff_inc rnd x))) 1) + 1"
    by (simp add: tsch_queue_backoff_inc_def Let_def)
  moreover have "unat rnd div 64 mod 2 ^ ?e < 32"
    by (rule mod_pow_min5)
  ultimately show "unat (backoff_window (tsch_queue_backoff_inc rnd x)) = unat rnd div 64 mod 2 ^ ?e + 1"
    by (simp add: e unat_word_ariths unat_ucast_mod unat_mod_distrib)
qed


lemma backoff_inc_ok: "nbr_ok x \<Longrightarrow> nbr_ok (tsch_queue_backoff_inc rnd x)"
proof -
  assume ok: "nbr_ok x"
  then have be: "TSCH_MAC_MIN_BE \<le> backoff_exponent x" "backoff_exponent x \<le> TSCH_MAC_MAX_BE"
    by (simp_all add: nbr_ok_def)
  let ?x = "tsch_queue_backoff_inc rnd x" and ?e = "min (unat (backoff_exponent x) + 1) 5"
  note v = backoff_inc_values [OF be, of rnd]
  have m: "unat rnd div 64 mod 2 ^ ?e < 32"
    by (rule mod_pow_min5)
  have "TSCH_MAC_MIN_BE \<le> backoff_exponent ?x" "backoff_exponent ?x \<le> TSCH_MAC_MAX_BE"
    using v(1) by (simp_all add: word_le_nat_alt TSCH_MAC_MIN_BE_def TSCH_MAC_MAX_BE_def)
  moreover have "backoff_window ?x \<le> 2 ^ unat TSCH_MAC_MAX_BE"
    using v(2) m by (simp add: word_le_nat_alt TSCH_MAC_MAX_BE_def)
  moreover have "tx_ringbuf ?x = tx_ringbuf x" "tx_array ?x = tx_array x" "n_addr ?x = n_addr x"
    "is_broadcast ?x = is_broadcast x"
    by (simp_all add: tsch_queue_backoff_inc_def Let_def)
  ultimately show ?thesis using ok by (simp add: nbr_ok_def)
qed

lemma nbr_new_ok:
  assumes "is_linkaddr a"
  shows "nbr_ok (nbr_new a)" "nbr_queue (nbr_new a) = []" "n_addr (nbr_new a) = a"
    "\<not> is_time_source (nbr_new a)" "tx_links_count (nbr_new a) = 0"
proof -
  have "rb_inv 3 (ringbufindex_init 8)" "rb_slots 3 (ringbufindex_init 8) = []"
    using rb_inv_init [of 3] rb_slots_init [of 3 8] by simp_all
  then show "nbr_ok (nbr_new a)" "nbr_queue (nbr_new a) = []" "n_addr (nbr_new a) = a"
    "\<not> is_time_source (nbr_new a)" "tx_links_count (nbr_new a) = 0"
    using assms
    by (auto simp: nbr_new_def nbr_zero_def tsch_queue_backoff_reset_def nbr_ok_def nbr_queue_def
        TSCH_QUEUE_NUM_PER_NEIGHBOR_def TSCH_MAC_MIN_BE_def TSCH_MAC_MAX_BE_def)
qed

section \<open>The invariant of the module\<close>

text \<open>\<open>q_core s N\<close>: the queues of the neighbors \<open>N\<close> and the packets in them. It also holds in the
  middle of the removal of a neighbor, when that neighbor is off the list and not yet freed.\<close>

definition q_core :: "tsch \<Rightarrow> nat set \<Rightarrow> bool" where
  "q_core s N \<longleftrightarrow> memb_inv (packet_memb s) \<and> qb_inv (qbs s) \<and>
     (\<forall>n \<in> N. nbr_ok (nbr s n) \<and> distinct (nbr_queue (nbr s n)) \<and>
        set (nbr_queue (nbr s n)) \<subseteq> memb_used (packet_memb s)) \<and>
     (\<forall>n \<in> N. \<forall>m \<in> N. n \<noteq> m \<longrightarrow> set (nbr_queue (nbr s n)) \<inter> set (nbr_queue (nbr s m)) = {}) \<and>
     (\<forall>p \<in> memb_used (packet_memb s). \<exists>b \<in> memb_used (bufmem (qbs s)). p_qb (pkt s p) = Some b) \<and>
     inj_on (\<lambda>p. p_qb (pkt s p)) (memb_used (packet_memb s))"

definition q_inv :: "tsch \<Rightarrow> bool" where
  "q_inv s \<longleftrightarrow> memb_inv (neighbor_memb s) \<and> distinct (neighbor_list s) \<and>
     set (neighbor_list s) = memb_used (neighbor_memb s) \<and>
     inj_on (\<lambda>n. n_addr (nbr s n)) (set (neighbor_list s)) \<and>
     (\<forall>n \<in> set (neighbor_list s). \<forall>m \<in> set (neighbor_list s).
        is_time_source (nbr s n) \<and> is_time_source (nbr s m) \<longrightarrow> n = m) \<and>
     q_core s (set (neighbor_list s))"

lemma q_coreD:
  assumes "q_core s N" "n \<in> N"
  shows "nbr_ok (nbr s n)" "distinct (nbr_queue (nbr s n))"
    "set (nbr_queue (nbr s n)) \<subseteq> memb_used (packet_memb s)"
  using assms by (auto simp: q_core_def)

lemma q_invD:
  assumes "q_inv s"
  shows "memb_inv (neighbor_memb s)" "distinct (neighbor_list s)"
    "set (neighbor_list s) = memb_used (neighbor_memb s)"
    "inj_on (\<lambda>n. n_addr (nbr s n)) (set (neighbor_list s))" "q_core s (set (neighbor_list s))"
  using assms unfolding q_inv_def by blast+

text \<open>The state components \<open>q_core\<close> and \<open>q_inv\<close> read.\<close>

lemma q_core_cong:
  assumes "packet_memb s' = packet_memb s" "qbs s' = qbs s" "\<And>n. n \<in> N \<Longrightarrow> nbr s' n = nbr s n"
  shows "q_core s' N = q_core s N"
  using assms by (simp add: q_core_def)

lemma q_inv_cong:
  assumes "packet_memb s' = packet_memb s" "qbs s' = qbs s" "neighbor_memb s' = neighbor_memb s"
    "neighbor_list s' = neighbor_list s"
  shows "q_inv s' = q_inv s"
  using assms q_core_cong [of s' s] by (simp add: q_inv_def)

text \<open>Changing a neighbor without touching its queue, address or time-source flag.\<close>

lemma q_core_nbr_upd:
  assumes "q_core s N" "nbr_ok (f (nbr s n))" "set (nbr_queue (f (nbr s n))) \<subseteq> set (nbr_queue (nbr s n))"
    "distinct (nbr_queue (f (nbr s n)))"
  shows "q_core (nbr_upd n f s) N"
  using assms unfolding q_core_def by (simp, blast)

lemma q_inv_nbr_upd:
  assumes "q_inv s" "nbr_ok (f (nbr s n))" "set (nbr_queue (f (nbr s n))) \<subseteq> set (nbr_queue (nbr s n))"
    "distinct (nbr_queue (f (nbr s n)))" "n_addr (f (nbr s n)) = n_addr (nbr s n)"
    "is_time_source (f (nbr s n)) \<longrightarrow> is_time_source (nbr s n)"
  shows "q_inv (nbr_upd n f s)"
proof -
  have "(\<lambda>m. n_addr (nbr (nbr_upd n f s) m)) = (\<lambda>m. n_addr (nbr s m))"
    using assms(5) by auto
  moreover have "is_time_source (nbr (nbr_upd n f s) m) \<longrightarrow> is_time_source (nbr s m)" for m
    using assms(6) by simp
  ultimately show ?thesis
    using assms(1) q_core_nbr_upd [where f = f and n = n, OF q_invD(5) [OF assms(1)] assms(2-4)]
    unfolding q_inv_def nbr_upd_simps(4,12,13) by metis
qed

section \<open>Neighbors\<close>

lemma get_nbr_Some:
  assumes "q_inv s" "is_linkaddr a" "tsch_queue_get_nbr a s = Some n"
  shows "n \<in> set (neighbor_list s)" "n_addr (nbr s n) = a" "\<not> tsch_locked s"
  using assms q_coreD(1) [OF q_invD(5) [OF assms(1)], of n]
  by (auto simp: tsch_queue_get_nbr_def find_Some_iff nbr_ok_def split: if_splits)

lemma get_nbr_None:
  assumes "q_inv s" "is_linkaddr a" "tsch_queue_get_nbr a s = None" "\<not> tsch_locked s"
  shows "a \<notin> (\<lambda>n. n_addr (nbr s n)) ` set (neighbor_list s)"
  using assms q_coreD(1) [OF q_invD(5) [OF assms(1)]]
  by (auto simp: tsch_queue_get_nbr_def find_None_iff nbr_ok_def)

text \<open>The block chosen by the allocator is the only change when a neighbor is added.\<close>

lemma add_nbr_cases [consumes 3, case_names old full new]:
  assumes inv: "q_inv s" and a: "is_linkaddr a" and ul: "\<not> tsch_locked s"
  obtains (old) n where "tsch_queue_add_nbr a s = (Some n, s)" "n \<in> set (neighbor_list s)"
      "n_addr (nbr s n) = a"
  | (full) "fst (tsch_queue_add_nbr a s) = None" "snd (tsch_queue_add_nbr a s) = s\<lparr>tsch_lock_requested := False\<rparr>"
      "a \<notin> (\<lambda>n. n_addr (nbr s n)) ` set (neighbor_list s)"
      "memb_numfree (neighbor_memb s) = 0"
  | (new) n m where "tsch_queue_add_nbr a s = (Some n, s\<lparr>tsch_lock_requested := False,
        neighbor_memb := blk_upd n (\<lambda>_. nbr_new a) m, neighbor_list := neighbor_list s @ [n]\<rparr>)"
      "memb_alloc (neighbor_memb s) = (Some n, m)" "n \<notin> set (neighbor_list s)"
      "a \<notin> (\<lambda>n. n_addr (nbr s n)) ` set (neighbor_list s)"
proof (cases "tsch_queue_get_nbr a s")
  case (Some n)
  then show ?thesis
    using old get_nbr_Some [OF inv a Some] by (simp add: tsch_queue_add_nbr_def)
next
  case None
  note na = get_nbr_None [OF inv a None ul]
  show ?thesis
  proof (cases rule: memb_alloc_cases [of "neighbor_memb s"])
    case f: full
    then show ?thesis
      using None ul na by (intro full) (simp_all add: tsch_queue_add_nbr_def tsch_release_lock_def memb_numfree_eq)
  next
    case (block n)
    then have "n \<notin> set (neighbor_list s)" using q_invD(3) [OF inv] by simp
    then show ?thesis
      using None ul na block
      by (intro new [OF _ block(1)]) (simp_all add: tsch_queue_add_nbr_def tsch_release_lock_def
          nbr_upd_def alist_add_new)
  qed
qed


lemma q_core_insert:
  assumes "q_core s N" "n \<notin> N" "nbr_ok x" "nbr_queue x = []"
    "packet_memb s' = packet_memb s" "qbs s' = qbs s" "nbr s' n = x" "\<And>m. m \<in> N \<Longrightarrow> nbr s' m = nbr s m"
  shows "q_core s' (insert n N)"
  using assms unfolding q_core_def by (simp add: disjoint_iff)

lemma q_inv_add_new:
  assumes inv: "q_inv s" and a: "is_linkaddr a" "a \<notin> (\<lambda>n. n_addr (nbr s n)) ` set (neighbor_list s)"
    and al: "memb_alloc (neighbor_memb s) = (Some n, m)" and n: "n \<notin> set (neighbor_list s)"
  shows "q_inv (s\<lparr>tsch_lock_requested := False,
        neighbor_memb := blk_upd n (\<lambda>_. nbr_new a) m, neighbor_list := neighbor_list s @ [n]\<rparr>)"
    (is "q_inv ?s")
proof -
  note m = memb_alloc_Some [OF al]
  have new: "nbr ?s n = nbr_new a" by simp
  have old: "nbr ?s k = nbr s k" if "k \<in> set (neighbor_list s)" for k
    using that n m(5) by auto
  have img: "(\<lambda>k. n_addr (nbr ?s k)) ` set (neighbor_list s) = (\<lambda>k. n_addr (nbr s k)) ` set (neighbor_list s)"
    by (rule image_cong) (simp_all only: old)
  have "inj_on (\<lambda>k. n_addr (nbr ?s k)) (set (neighbor_list s))"
    using q_invD(4) [OF inv] by (rule inj_on_cong [THEN iffD1, rotated]) (simp only: old)
  then have "inj_on (\<lambda>k. n_addr (nbr ?s k)) (insert n (set (neighbor_list s)))"
    unfolding inj_on_insert using a n img new nbr_new_ok(3) [OF a(1)] by simp
  moreover have "q_core ?s (insert n (set (neighbor_list s)))"
    by (rule q_core_insert [OF q_invD(5) [OF inv] n nbr_new_ok(1,2) [OF a(1)] _ _ new old]) simp_all
  moreover have "i = j" if "i \<in> insert n (set (neighbor_list s))" "j \<in> insert n (set (neighbor_list s))"
      "is_time_source (nbr ?s i)" "is_time_source (nbr ?s j)" for i j
  proof -
    have "i \<noteq> n" "j \<noteq> n" using that(3,4) new nbr_new_ok(4) [OF a(1)] by auto
    then have ij: "i \<in> set (neighbor_list s)" "j \<in> set (neighbor_list s)" using that(1,2) by blast+
    have "is_time_source (nbr s i)" "is_time_source (nbr s j)"
      using that(3,4) by (simp_all only: old [OF ij(1)] old [OF ij(2)])
    then show ?thesis using ij inv unfolding q_inv_def by blast
  qed
  moreover have l: "set (neighbor_list ?s) = insert n (set (neighbor_list s))"
    by simp
  moreover have "memb_inv (neighbor_memb ?s)" "distinct (neighbor_list ?s)"
      "set (neighbor_list ?s) = memb_used (neighbor_memb ?s)"
    using q_invD(1,2,3) [OF inv] m n by simp_all
  ultimately show ?thesis unfolding q_inv_def l by blast
qed

text \<open>The contract of \<open>tsch_queue_add_nbr\<close>: what its callers rely on. Only the neighbor list, the neighbor
  pool and the lock-request flag change.\<close>

definition nbr_added :: "linkaddr \<Rightarrow> tsch \<Rightarrow> nat option \<Rightarrow> tsch \<Rightarrow> bool" where
  "nbr_added a s r s' \<longleftrightarrow> q_inv s' \<and> \<not> tsch_locked s' \<and>
     s' = s\<lparr>tsch_lock_requested := tsch_lock_requested s', neighbor_memb := neighbor_memb s',
            neighbor_list := neighbor_list s'\<rparr> \<and>
     (\<forall>k \<in> set (neighbor_list s). k \<in> set (neighbor_list s') \<and> nbr s' k = nbr s k) \<and>
     (\<forall>k \<in> set (neighbor_list s') - set (neighbor_list s). r = Some k) \<and>
     (case r of
        None \<Rightarrow> neighbor_list s' = neighbor_list s \<and> neighbor_memb s' = neighbor_memb s \<and>
          memb_numfree (neighbor_memb s) = 0 \<and>
          a \<notin> (\<lambda>n. n_addr (nbr s n)) ` set (neighbor_list s)
      | Some n \<Rightarrow> n \<in> set (neighbor_list s') \<and> n_addr (nbr s' n) = a \<and>
          (n \<notin> set (neighbor_list s) \<longrightarrow> nbr s' n = nbr_new a))"

lemma add_nbr_spec:
  assumes inv: "q_inv s" and a: "is_linkaddr a" and ul: "\<not> tsch_locked s"
  shows "nbr_added a s (fst (tsch_queue_add_nbr a s)) (snd (tsch_queue_add_nbr a s))"
  using inv a ul
proof (cases rule: add_nbr_cases)
  case (old n)
  then show ?thesis using inv ul by (simp add: nbr_added_def)
next
  case full
  have "q_inv (s\<lparr>tsch_lock_requested := False\<rparr>)"
    using inv q_inv_cong [of "s\<lparr>tsch_lock_requested := False\<rparr>" s] by simp
  then show ?thesis using full ul by (simp add: nbr_added_def)
next
  case (new n m)
  let ?s = "s\<lparr>tsch_lock_requested := False, neighbor_memb := blk_upd n (\<lambda>_. nbr_new a) m,
              neighbor_list := neighbor_list s @ [n]\<rparr>"
  have "q_inv ?s" using q_inv_add_new [OF inv a new(4,2,3)] .
  moreover have "nbr ?s k = nbr s k" if "k \<in> set (neighbor_list s)" for k
    using that new(3) memb_alloc_Some(5) [OF new(2)] by auto
  ultimately show ?thesis
    using new(1,3) ul nbr_new_ok(3) [OF a] by (simp add: nbr_added_def insert_Diff_if)
qed

lemma nbr_addedD:
  assumes "nbr_added a s r s'"
  shows "q_inv s'" "\<not> tsch_locked s'" "k \<in> set (neighbor_list s) \<Longrightarrow> nbr s' k = nbr s k"
    "k \<in> set (neighbor_list s) \<Longrightarrow> k \<in> set (neighbor_list s')"
    "r = Some n \<Longrightarrow> n \<in> set (neighbor_list s')" "r = Some n \<Longrightarrow> n_addr (nbr s' n) = a"
    "r = Some n \<Longrightarrow> n \<notin> set (neighbor_list s) \<Longrightarrow> nbr s' n = nbr_new a"
    "k \<in> set (neighbor_list s') \<Longrightarrow> k \<notin> set (neighbor_list s) \<Longrightarrow> r = Some k"
  using assms unfolding nbr_added_def by (auto split: option.splits)

lemma nbr_added_frame:
  assumes "nbr_added a s r s'"
  shows "packet_memb s' = packet_memb s" "qbs s' = qbs s" "pbuf s' = pbuf s" "link_memb s' = link_memb s"
    "slotframe_memb s' = slotframe_memb s" "slotframe_list s' = slotframe_list s"
    "tsch_is_coordinator s' = tsch_is_coordinator s" "sent_log s' = sent_log s"
    "current_link s' = current_link s" "n_eb s' = n_eb s" "n_broadcast s' = n_broadcast s"
    "current_link_handle s' = current_link_handle s"
proof -
  obtain x m l where "s' = s\<lparr>tsch_lock_requested := x, neighbor_memb := m, neighbor_list := l\<rparr>"
    using assms unfolding nbr_added_def by metis
  then show "packet_memb s' = packet_memb s" "qbs s' = qbs s" "pbuf s' = pbuf s" "link_memb s' = link_memb s"
    "slotframe_memb s' = slotframe_memb s" "slotframe_list s' = slotframe_list s"
    "tsch_is_coordinator s' = tsch_is_coordinator s" "sent_log s' = sent_log s"
    "current_link s' = current_link s" "n_eb s' = n_eb s" "n_broadcast s' = n_broadcast s"
    "current_link_handle s' = current_link_handle s"
    by simp_all
qed

subsection \<open>The time source\<close>

lemma get_time_source_Some:
  assumes "q_inv s" "\<not> tsch_locked s"
  shows "tsch_queue_get_time_source s = Some n \<longleftrightarrow> n \<in> set (neighbor_list s) \<and> is_time_source (nbr s n)"
proof
  assume "tsch_queue_get_time_source s = Some n"
  then show "n \<in> set (neighbor_list s) \<and> is_time_source (nbr s n)"
    using assms(2) by (auto simp: tsch_queue_get_time_source_def find_Some_iff)
next
  assume n: "n \<in> set (neighbor_list s) \<and> is_time_source (nbr s n)"
  then obtain m where m: "find (\<lambda>n. is_time_source (nbr s n)) (neighbor_list s) = Some m"
    by (metis find_None_iff not_None_eq)
  then have "m \<in> set (neighbor_list s)" "is_time_source (nbr s m)"
    by (auto simp: find_Some_iff)
  then have "m = n" using assms(1) n unfolding q_inv_def by blast
  then show "tsch_queue_get_time_source s = Some n"
    using m assms(2) by (simp add: tsch_queue_get_time_source_def)
qed

lemma ka_timeout_frame [simp]:
  "neighbor_memb (tsch_set_ka_timeout r t s) = neighbor_memb s" "packet_memb (tsch_set_ka_timeout r t s) = packet_memb s"
  "neighbor_list (tsch_set_ka_timeout r t s) = neighbor_list s" "qbs (tsch_set_ka_timeout r t s) = qbs s"
  "tsch_locked (tsch_set_ka_timeout r t s) = tsch_locked s"
  by (simp_all add: tsch_set_ka_timeout_def tsch_schedule_keepalive_def Let_def)

lemma nbr_ok_time_source [simp]:
  "nbr_ok (x\<lparr>is_time_source := b\<rparr>) = nbr_ok x" "nbr_queue (x\<lparr>is_time_source := b\<rparr>) = nbr_queue x"
  by (simp_all add: nbr_ok_def nbr_queue_def)

text \<open>After a switch from \<open>old\<close> to \<open>new\<close> exactly \<open>new\<close> has the flag.\<close>

lemma time_source_switch_nbr:
  assumes "old \<noteq> new"
  shows "nbr (time_source_switch rnd old new s) k =
    (nbr s k)\<lparr>is_time_source := (Some k = new \<or> is_time_source (nbr s k) \<and> Some k \<noteq> old)\<rparr>"
  using assms by (auto simp: time_source_switch_def Let_def split: option.splits)

lemma time_source_switch_frame:
  "neighbor_list (time_source_switch rnd old new s) = neighbor_list s"
  "packet_memb (time_source_switch rnd old new s) = packet_memb s"
  "qbs (time_source_switch rnd old new s) = qbs s"
  "tsch_locked (time_source_switch rnd old new s) = tsch_locked s"
  "memb_used (neighbor_memb (time_source_switch rnd old new s)) = memb_used (neighbor_memb s)"
  "memb_inv (neighbor_memb (time_source_switch rnd old new s)) = memb_inv (neighbor_memb s)"
  by (simp_all add: time_source_switch_def Let_def split: option.split)

lemma time_source_switch_inv:
  assumes inv: "q_inv s" and ne: "old \<noteq> new"
    and old: "\<And>k. k \<in> set (neighbor_list s) \<Longrightarrow> is_time_source (nbr s k) \<Longrightarrow> Some k = old"
  shows "q_inv (time_source_switch rnd old new s)"
    "k \<in> set (neighbor_list s) \<Longrightarrow>
       is_time_source (nbr (time_source_switch rnd old new s) k) \<longleftrightarrow> Some k = new"
proof -
  let ?s = "time_source_switch rnd old new s"
  note nb = time_source_switch_nbr [OF ne, of rnd s] and fr = time_source_switch_frame [of rnd old new s]
  have flag: "is_time_source (nbr ?s k) \<longleftrightarrow> Some k = new" if "k \<in> set (neighbor_list s)" for k
    using old [OF that] by (auto simp: nb)
  then show "k \<in> set (neighbor_list s) \<Longrightarrow> is_time_source (nbr ?s k) \<longleftrightarrow> Some k = new" .
  have "q_core ?s (set (neighbor_list s))"
    using q_invD(5) [OF inv] by (simp add: q_core_def fr nb)
  moreover have "inj_on (\<lambda>k. n_addr (nbr ?s k)) (set (neighbor_list s))"
    using q_invD(4) [OF inv] by (simp add: nb)
  moreover have "\<forall>i \<in> set (neighbor_list s). \<forall>j \<in> set (neighbor_list s).
      is_time_source (nbr ?s i) \<and> is_time_source (nbr ?s j) \<longrightarrow> i = j"
    using flag by (metis option.inject)
  ultimately show "q_inv ?s"
    using q_invD(1-3) [OF inv] unfolding q_inv_def fr by simp
qed

end
