(* ===== verification/TschQueueProps.thy ===== *)
theory TschQueueProps
  imports TschQueueInv
begin

text \<open>
  The packet operations of the transmit queues keep the invariant of theory TschQueueInv; the properties of the
  module: FIFO order, the outcome of a transmission, the backoff, the unique time source, the flush and
  the release of unused neighbors.
\<close>

section \<open>Removing and freeing packets\<close>

lemma remove_packet_Cons:
  assumes "nbr_ok (nbr s n)" "\<not> tsch_locked s" "nbr_queue (nbr s n) = p # ps"
  obtains r where "tsch_queue_remove_packet_from_queue (Some n) s = (Some p, nbr_upd n (\<lambda>x. x\<lparr>tx_ringbuf := r\<rparr>) s)"
    "nbr_ok ((nbr s n)\<lparr>tx_ringbuf := r\<rparr>)" "nbr_queue ((nbr s n)\<lparr>tx_ringbuf := r\<rparr>) = ps"
proof -
  obtain i r where "ringbufindex_get (tx_ringbuf (nbr s n)) = (i, r)" "i \<noteq> -1"
      "tx_array (nbr s n) ! nat i = Some p" "nbr_ok ((nbr s n)\<lparr>tx_ringbuf := r\<rparr>)"
      "nbr_queue ((nbr s n)\<lparr>tx_ringbuf := r\<rparr>) = ps"
    using nbr_get_Cons [OF assms(1,3)] by blast
  then show ?thesis
    using that [of r] assms(2) by (simp add: tsch_queue_remove_packet_from_queue_def)
qed

lemma remove_packet_Nil:
  assumes "nbr_ok (nbr s n)" "\<not> tsch_locked s" "nbr_queue (nbr s n) = []"
  shows "tsch_queue_remove_packet_from_queue (Some n) s =
    (None, nbr_upd n (\<lambda>x. x\<lparr>tx_ringbuf := tx_ringbuf (nbr s n)\<rparr>) s)"
  using assms nbr_get_Nil(1) [OF assms(1,3)] by (simp add: tsch_queue_remove_packet_from_queue_def)

lemma is_empty_iff:
  "nbr_ok (nbr s n) \<Longrightarrow> \<not> tsch_locked s \<Longrightarrow> tsch_queue_is_empty (Some n) s \<longleftrightarrow> nbr_queue (nbr s n) = []"
  by (simp add: tsch_queue_is_empty_def ring_empty_iff)

text \<open>Freeing an allocated packet that no queue holds.\<close>

lemma free_packet_state:
  assumes "q_core s N" "p \<in> memb_used (packet_memb s)" "p_qb (pkt s p) = Some b"
  shows "tsch_queue_free_packet (Some p) s =
    s\<lparr>qbs := queuebuf_free b (qbs s), packet_memb := snd (memb_free p (packet_memb s))\<rparr>"
  using assms by (simp add: tsch_queue_free_packet_def)

lemma q_core_free_packet:
  assumes core: "q_core s N" and p: "p \<in> memb_used (packet_memb s)"
    and nq: "\<And>n. n \<in> N \<Longrightarrow> p \<notin> set (nbr_queue (nbr s n))"
  shows "q_core (tsch_queue_free_packet (Some p) s) N"
    "memb_used (packet_memb (tsch_queue_free_packet (Some p) s)) = memb_used (packet_memb s) - {p}"
proof -
  have inv: "memb_inv (packet_memb s)" "qb_inv (qbs s)"
    and own: "\<And>i. i \<in> memb_used (packet_memb s) \<Longrightarrow> \<exists>b \<in> memb_used (bufmem (qbs s)). p_qb (pkt s i) = Some b"
    and inj: "inj_on (\<lambda>p. p_qb (pkt s p)) (memb_used (packet_memb s))"
    and nb: "\<And>n. n \<in> N \<Longrightarrow> nbr_ok (nbr s n) \<and> distinct (nbr_queue (nbr s n)) \<and>
        set (nbr_queue (nbr s n)) \<subseteq> memb_used (packet_memb s)"
    and dj: "\<forall>n \<in> N. \<forall>m \<in> N. n \<noteq> m \<longrightarrow> set (nbr_queue (nbr s n)) \<inter> set (nbr_queue (nbr s m)) = {}"
    using core unfolding q_core_def by blast+
  obtain b where b: "b \<in> memb_used (bufmem (qbs s))" "p_qb (pkt s p) = Some b" using own [OF p] by blast
  let ?s = "tsch_queue_free_packet (Some p) s"
  note st = free_packet_state [OF core p b(2)] and mf = memb_free_props [OF inv(1), of p]
    and qf = queuebuf_free_spec [OF inv(2) b(1)]
  show used: "memb_used (packet_memb ?s) = memb_used (packet_memb s) - {p}"
    by (simp add: st mf)
  have pk: "pkt ?s i = pkt s i" for i by (simp add: st mf)
  have "\<exists>c \<in> memb_used (bufmem (qbs ?s)). p_qb (pkt ?s i) = Some c" if "i \<in> memb_used (packet_memb ?s)" for i
  proof -
    have i: "i \<in> memb_used (packet_memb s)" "i \<noteq> p" using that used by auto
    then obtain c where c: "c \<in> memb_used (bufmem (qbs s))" "p_qb (pkt s i) = Some c" using own by blast
    moreover have "c \<noteq> b" using inj_onD [OF inj, of i p] i p b c by auto
    ultimately show ?thesis by (simp add: st mf qf)
  qed
  moreover have "nbr ?s n = nbr s n" for n by (simp add: st)
  moreover have "memb_inv (packet_memb ?s)" "qb_inv (qbs ?s)" by (simp_all add: st mf qf)
  moreover have "inj_on (\<lambda>p. p_qb (pkt ?s p)) (memb_used (packet_memb ?s))"
    using inj by (simp add: used pk inj_on_diff)
  moreover have "set (nbr_queue (nbr s n)) \<subseteq> memb_used (packet_memb ?s)" if "n \<in> N" for n
    using nb [OF that] nq [OF that] used by blast
  ultimately show "q_core ?s N"
    using nb dj unfolding q_core_def by simp
qed

lemma q_core_pkt_upd:
  assumes "q_core s N" "p_qb (f (pkt s p)) = p_qb (pkt s p)"
  shows "q_core (pkt_upd p f s) N"
proof -
  have e: "p_qb (pkt (pkt_upd p f s) i) = p_qb (pkt s i)" for i
    using assms(2) by simp
  show ?thesis
    using assms(1) unfolding q_core_def e pkt_upd_simps(3,5,11,12) .
qed

lemma q_core_remove_head:
  assumes "q_core s N" "n \<in> N" "nbr_queue (nbr s n) = p # ps"
    "nbr_ok ((nbr s n)\<lparr>tx_ringbuf := r\<rparr>)" "nbr_queue ((nbr s n)\<lparr>tx_ringbuf := r\<rparr>) = ps"
  shows "q_core (nbr_upd n (\<lambda>x. x\<lparr>tx_ringbuf := r\<rparr>) s) N"
    "m \<in> N \<Longrightarrow> p \<notin> set (nbr_queue (nbr (nbr_upd n (\<lambda>x. x\<lparr>tx_ringbuf := r\<rparr>) s) m))"
proof -
  have d: "distinct (p # ps)" using q_coreD(2) [OF assms(1,2)] assms(3) by simp
  show "q_core (nbr_upd n (\<lambda>x. x\<lparr>tx_ringbuf := r\<rparr>) s) N"
    using assms d by (intro q_core_nbr_upd) auto
  show "p \<notin> set (nbr_queue (nbr (nbr_upd n (\<lambda>x. x\<lparr>tx_ringbuf := r\<rparr>) s) m))" if "m \<in> N"
  proof (cases "m = n")
    case True
    then show ?thesis using assms(5) d by simp
  next
    case False
    then have "set (nbr_queue (nbr s n)) \<inter> set (nbr_queue (nbr s m)) = {}"
      using assms(1,2) that unfolding q_core_def by blast
    then show ?thesis using False assms(3) by auto
  qed
qed

section \<open>The flush loop\<close>

definition flush_event :: "tsch_packet \<Rightarrow> sent_event list" where
  "flush_event x = (case p_sent x of None \<Rightarrow> []
     | Some cb \<Rightarrow> [\<lparr>ev_sent = cb, ev_ptr = p_ptr x, ev_status = MAC_TX_ERR, ev_num_tx = transmissions x\<rparr>])"

text \<open>What a flush leaves: the neighbor's queue is \<open>qs\<close>, the packets \<open>ps\<close> are freed and reported.\<close>

definition flushed :: "nat \<Rightarrow> nat set \<Rightarrow> nat list \<Rightarrow> nat list \<Rightarrow> tsch \<Rightarrow> tsch \<Rightarrow> bool" where
  "flushed n N ps qs s s' \<longleftrightarrow> q_core s' N \<and> tsch_locked s' = tsch_locked s \<and>
     nbr_queue (nbr s' n) = qs \<and> (\<exists>r. nbr s' n = (nbr s n)\<lparr>tx_ringbuf := r\<rparr>) \<and>
     (\<forall>m. m \<noteq> n \<longrightarrow> nbr s' m = nbr s m) \<and>
     neighbor_list s' = neighbor_list s \<and> mb_count (neighbor_memb s') = mb_count (neighbor_memb s) \<and>
     mb_num (neighbor_memb s') = mb_num (neighbor_memb s) \<and>
     memb_used (packet_memb s') = memb_used (packet_memb s) - set ps \<and>
     (\<forall>p \<in> memb_used (packet_memb s'). pkt s' p = pkt s p) \<and>
     sent_log s' = sent_log s @ concat (map (\<lambda>p. flush_event (pkt s p)) ps)"

lemma flush_step_flushed:
  assumes core: "q_core s N" and n: "n \<in> N" and ul: "\<not> tsch_locked s"
    and q: "nbr_queue (nbr s n) = p # ps"
  shows "flushed n N [p] ps s (flush_step n s)"
proof -
  note ok = q_coreD [OF core n]
  obtain r where r: "tsch_queue_remove_packet_from_queue (Some n) s = (Some p, nbr_upd n (\<lambda>x. x\<lparr>tx_ringbuf := r\<rparr>) s)"
    "nbr_ok ((nbr s n)\<lparr>tx_ringbuf := r\<rparr>)" "nbr_queue ((nbr s n)\<lparr>tx_ringbuf := r\<rparr>) = ps"
    using remove_packet_Cons [OF ok(1) ul q] .
  let ?s1 = "nbr_upd n (\<lambda>x. x\<lparr>tx_ringbuf := r\<rparr>) s"
  let ?s2 = "pkt_upd p (\<lambda>x. x\<lparr>p_ret := MAC_TX_ERR\<rparr>) ?s1"
  let ?s3 = "mac_call_sent_callback (p_sent (pkt ?s2 p)) (p_ptr (pkt ?s2 p)) (p_ret (pkt ?s2 p))
               (transmissions (pkt ?s2 p)) ?s2"
  have pu: "p \<in> memb_used (packet_memb s)" using ok(3) q by simp
  note c1 = q_core_remove_head [OF core n q r(2,3)]
  have c2: "q_core ?s2 N" by (rule q_core_pkt_upd [OF c1(1)]) simp
  have f3: "neighbor_memb ?s3 = neighbor_memb ?s1" "packet_memb ?s3 = packet_memb ?s2" "qbs ?s3 = qbs s"
    "neighbor_list ?s3 = neighbor_list s" "tsch_locked ?s3 = tsch_locked s"
    "sent_log ?s3 = sent_log s @ flush_event (pkt s p)"
    by (simp_all add: mac_call_sent_callback_def flush_event_def split: option.split)
  have c3: "q_core ?s3 N"
    using c2 q_core_cong [of ?s3 ?s2 N] f3 by (simp only: pkt_upd_simps nbr_upd_simps)
  have nq: "p \<notin> set (nbr_queue (nbr ?s3 m))" if "m \<in> N" for m
    using c1(2) [OF that] unfolding f3 .
  have pu3: "p \<in> memb_used (packet_memb ?s3)" using pu unfolding f3 by simp
  note fr = q_core_free_packet [OF c3 pu3 nq]
  obtain b where b: "p_qb (pkt ?s3 p) = Some b"
    using c3 pu3 unfolding q_core_def by blast
  note st = free_packet_state [OF c3 pu3 b]
  let ?s4 = "tsch_queue_free_packet (Some p) ?s3"
  have res: "flush_step n s = ?s4"
    by (simp add: flush_step_def r(1) Let_def)
  have mi: "memb_inv (packet_memb ?s3)" using c3 unfolding q_core_def by blast
  have f4: "neighbor_memb ?s4 = neighbor_memb ?s3" "tsch_locked ?s4 = tsch_locked ?s3"
      "neighbor_list ?s4 = neighbor_list ?s3" "sent_log ?s4 = sent_log ?s3"
      "mb_mem (packet_memb ?s4) = mb_mem (packet_memb ?s3)"
    unfolding st using memb_free_props(4) [OF mi, of p] by simp_all
  have "pkt ?s4 i = pkt s i" if "i \<noteq> p" for i
    using that unfolding f4 f3 by simp
  moreover have "memb_used (packet_memb ?s4) = memb_used (packet_memb s) - {p}"
    using fr(2) unfolding f3 by simp
  ultimately show ?thesis
    unfolding res flushed_def using fr(1) r(3) unfolding f4 f3 by (simp, blast)
qed

lemma flushed_refl: "q_core s N \<Longrightarrow> flushed n N [] (nbr_queue (nbr s n)) s s"
  by (auto simp: flushed_def intro: exI [of _ "tx_ringbuf (nbr s n)"])

lemma flushed_trans:
  assumes "flushed n N ps qs s s1" "flushed n N ps' qs' s1 s2" "distinct (ps @ ps')"
    "set ps' \<subseteq> memb_used (packet_memb s)"
  shows "flushed n N (ps @ ps') qs' s s2"
proof -
  have "pkt s1 p = pkt s p" if "p \<in> set ps'" for p
    using assms that by (auto simp: flushed_def)
  then have ev: "map (\<lambda>p. flush_event (pkt s1 p)) ps' = map (\<lambda>p. flush_event (pkt s p)) ps'"
    by simp
  show ?thesis
    using assms(1,2) unfolding flushed_def by (auto simp: ev)
qed

lemma flush_loop:
  assumes "q_core s N" "n \<in> N" "\<not> tsch_locked s" "nbr_queue (nbr s n) = ps"
  shows "\<exists>s'. tsch_queue_flush_nbr_queue n s = Some s' \<and> flushed n N ps [] s s'"
  using assms
proof (induction ps arbitrary: s)
  case Nil
  have "tsch_queue_is_empty (Some n) s"
    using Nil is_empty_iff q_coreD(1) by blast
  then show ?case
    using flushed_refl [OF Nil.prems(1), of n] Nil.prems(4)
    by (subst tsch_queue_flush_nbr_queue.simps) simp
next
  case (Cons p ps)
  note fl = flush_step_flushed [OF Cons.prems]
  have "\<not> tsch_queue_is_empty (Some n) s"
    using Cons.prems is_empty_iff q_coreD(1) by fastforce
  moreover have "\<exists>s'. tsch_queue_flush_nbr_queue n (flush_step n s) = Some s' \<and>
      flushed n N ps [] (flush_step n s) s'"
    using fl Cons.prems(2,3) by (intro Cons.IH) (simp_all add: flushed_def)
  then obtain s' where s': "tsch_queue_flush_nbr_queue n (flush_step n s) = Some s'"
      "flushed n N ps [] (flush_step n s) s'"
    by blast
  moreover have "flushed n N ([p] @ ps) [] s s'"
    using q_coreD(2,3) [OF Cons.prems(1,2)] Cons.prems(4)
    by (intro flushed_trans [OF fl s'(2)]) auto
  ultimately show ?case
    by (subst tsch_queue_flush_nbr_queue.simps) simp
qed


lemma flushed_q_inv:
  assumes inv: "q_inv s" and fl: "flushed n (set (neighbor_list s)) ps qs s s'"
  shows "q_inv s'"
proof -
  have l: "neighbor_list s' = neighbor_list s" and core: "q_core s' (set (neighbor_list s))"
    and c: "mb_count (neighbor_memb s') = mb_count (neighbor_memb s)"
    and k: "mb_num (neighbor_memb s') = mb_num (neighbor_memb s)"
    using fl unfolding flushed_def by blast+
  have nb: "n_addr (nbr s' m) = n_addr (nbr s m) \<and> is_time_source (nbr s' m) = is_time_source (nbr s m)" for m
    using fl unfolding flushed_def by (cases "m = n") auto
  have "memb_inv (neighbor_memb s')" "memb_used (neighbor_memb s') = memb_used (neighbor_memb s)"
    using q_invD(1) [OF inv] by (simp_all add: memb_inv_def memb_used_def c k)
  moreover have "inj_on (\<lambda>m. n_addr (nbr s' m)) (set (neighbor_list s))"
    using q_invD(4) [OF inv] by (simp add: nb)
  ultimately show ?thesis
    using inv core unfolding q_inv_def l by (simp add: nb)
qed

text \<open>Dropping a listed neighbor: it leaves the list, its queue is flushed, its block is freed.\<close>

lemma q_core_subset: "q_core s N \<Longrightarrow> M \<subseteq> N \<Longrightarrow> q_core s M"
  unfolding q_core_def by blast

lemma remove_nbr_spec:
  assumes inv: "q_inv s" and n: "n \<in> set (neighbor_list s)" and ul: "\<not> tsch_locked s"
  obtains s' where "tsch_queue_remove_nbr (Some n) s = Some s'" "q_inv s'" "\<not> tsch_locked s'"
    "neighbor_list s' = remove1 n (neighbor_list s)" "\<And>m. m \<noteq> n \<Longrightarrow> nbr s' m = nbr s m"
    "memb_used (packet_memb s') = memb_used (packet_memb s) - set (nbr_queue (nbr s n))"
proof -
  let ?s = "s\<lparr>tsch_lock_requested := False, neighbor_list := remove1 n (neighbor_list s), tsch_locked := False\<rparr>"
  let ?L = "set (neighbor_list s)"
  have core: "q_core ?s ?L"
    using q_invD(5) [OF inv] by (rule q_core_cong [THEN iffD2, rotated -1]) simp_all
  obtain s1 where s1: "tsch_queue_flush_nbr_queue n ?s = Some s1"
      "flushed n ?L (nbr_queue (nbr ?s n)) [] ?s s1"
    using flush_loop [OF core n] by auto
  let ?s' = "s1\<lparr>neighbor_memb := snd (memb_free n (neighbor_memb s1))\<rparr>"
  have c: "mb_count (neighbor_memb s1) = mb_count (neighbor_memb s)" "mb_num (neighbor_memb s1) = mb_num (neighbor_memb s)"
    and l: "neighbor_list s1 = remove1 n (neighbor_list s)" and core1: "q_core s1 ?L"
    and lk: "\<not> tsch_locked s1" and nb1: "\<And>m. m \<noteq> n \<Longrightarrow> nbr s1 m = nbr s m"
    and pk: "memb_used (packet_memb s1) = memb_used (packet_memb s) - set (nbr_queue (nbr s n))"
    using s1(2) unfolding flushed_def by simp_all
  have mi: "memb_inv (neighbor_memb s1)" "memb_used (neighbor_memb s1) = ?L"
    using q_invD(1,3) [OF inv] by (simp_all add: memb_inv_def memb_used_def c)
  note mf = memb_free_props [OF mi(1), of n]
  have nb: "nbr ?s' m = nbr s m" if "m \<noteq> n" for m
    using nb1 [OF that] by (simp add: mf)
  have set_l: "set (remove1 n (neighbor_list s)) = ?L - {n}"
    using q_invD(2) [OF inv] by simp
  have "q_core ?s' (?L - {n})"
    using q_core_subset [OF core1, of "?L - {n}"]
    by (rule q_core_cong [THEN iffD2, rotated -1]) (auto simp: mf)
  moreover have "inj_on (\<lambda>m. n_addr (nbr ?s' m)) (?L - {n})"
    using inj_on_diff [OF q_invD(4) [OF inv], of "{n}"]
    by (rule inj_on_cong [THEN iffD1, rotated]) (use nb in simp)
  moreover have "\<forall>i \<in> ?L - {n}. \<forall>j \<in> ?L - {n}. is_time_source (nbr ?s' i) \<and> is_time_source (nbr ?s' j) \<longrightarrow> i = j"
  proof (intro ballI impI)
    fix i j assume ij: "i \<in> ?L - {n}" "j \<in> ?L - {n}" "is_time_source (nbr ?s' i) \<and> is_time_source (nbr ?s' j)"
    then have "is_time_source (nbr s i)" "is_time_source (nbr s j)" using nb [of i] nb [of j] by auto
    then show "i = j" using ij(1,2) inv unfolding q_inv_def by blast
  qed
  moreover have "memb_inv (neighbor_memb ?s')" "memb_used (neighbor_memb ?s') = ?L - {n}"
    "neighbor_list ?s' = remove1 n (neighbor_list s)"
    using mf mi l by simp_all
  ultimately have "q_inv ?s'"
    using q_invD(2) [OF inv] unfolding q_inv_def by (simp add: set_l)
  moreover have "tsch_queue_remove_nbr (Some n) s = Some ?s'"
    using ul s1(1) by (simp add: tsch_queue_remove_nbr_def tsch_release_lock_def Let_def)
  ultimately show ?thesis
    using that [of ?s'] lk l nb pk by simp
qed


section \<open>Sweeps\<close>

text \<open>What the sweep of \<open>tsch_queue_reset\<close> over the neighbors \<open>ns\<close> leaves.\<close>

definition reset_done :: "nat list \<Rightarrow> tsch \<Rightarrow> tsch \<Rightarrow> bool" where
  "reset_done ns s s' \<longleftrightarrow> q_inv s' \<and> \<not> tsch_locked s' \<and> neighbor_list s' = neighbor_list s \<and>
     (\<forall>n \<in> set ns. nbr_queue (nbr s' n) = [] \<and> backoff_window (nbr s' n) = 0 \<and>
        backoff_exponent (nbr s' n) = TSCH_MAC_MIN_BE) \<and>
     (\<forall>n. n \<notin> set ns \<longrightarrow> nbr s' n = nbr s n) \<and>
     memb_used (packet_memb s') = memb_used (packet_memb s) - (\<Union>n \<in> set ns. set (nbr_queue (nbr s n))) \<and>
     (\<forall>p \<in> memb_used (packet_memb s'). pkt s' p = pkt s p) \<and>
     sent_log s' = sent_log s @
       concat (map (\<lambda>n. concat (map (\<lambda>p. flush_event (pkt s p)) (nbr_queue (nbr s n)))) ns)"

lemma reset_one:
  assumes inv: "q_inv s" and ul: "\<not> tsch_locked s" and n: "n \<in> set (neighbor_list s)"
  obtains s1 where "tsch_queue_flush_nbr_queue n s = Some s1"
    "reset_done [n] s (nbr_upd n tsch_queue_backoff_reset s1)"
proof -
  obtain s1 where s1: "tsch_queue_flush_nbr_queue n s = Some s1"
      "flushed n (set (neighbor_list s)) (nbr_queue (nbr s n)) [] s s1"
    using flush_loop [OF q_invD(5) [OF inv] n ul] by blast
  have i1: "q_inv s1" using flushed_q_inv [OF inv s1(2)] .
  have l1: "neighbor_list s1 = neighbor_list s" "\<not> tsch_locked s1" "nbr_queue (nbr s1 n) = []"
    using s1(2) ul unfolding flushed_def by blast+
  have "nbr_ok (nbr s1 n)" using q_coreD(1) [OF q_invD(5) [OF i1]] n l1(1) by simp
  then have "q_inv (nbr_upd n tsch_queue_backoff_reset s1)"
    using i1 l1(3)
    by (intro q_inv_nbr_upd) (simp_all add: backoff_reset_ok, simp_all add: tsch_queue_backoff_reset_def)
  then have "reset_done [n] s (nbr_upd n tsch_queue_backoff_reset s1)"
    using s1(2) l1 unfolding reset_done_def flushed_def
    by (simp add: nbr_queue_backoff) (simp add: tsch_queue_backoff_reset_def)
  with s1(1) that show ?thesis by blast
qed

lemma reset_done_append:
  assumes "reset_done [n] s s1" "reset_done ns s1 s2" "n \<notin> set ns" "n \<in> set (neighbor_list s)"
    "set ns \<subseteq> set (neighbor_list s)" "q_inv s"
  shows "reset_done (n # ns) s s2"
proof -
  have q: "nbr_queue (nbr s1 m) = nbr_queue (nbr s m)" if "m \<in> set ns" for m
    using assms(1,3) that unfolding reset_done_def by auto
  have pk: "pkt s1 p = pkt s p" if "m \<in> set ns" "p \<in> set (nbr_queue (nbr s m))" for m p
  proof -
    have "m \<noteq> n" "m \<in> set (neighbor_list s)" using that assms(3,5) by auto
    then have "p \<notin> set (nbr_queue (nbr s n))" "p \<in> memb_used (packet_memb s)"
      using that q_invD(5) [OF assms(6)] assms(4) unfolding q_core_def by blast+
    then show ?thesis using assms(1) unfolding reset_done_def by simp
  qed
  have ev: "map (\<lambda>n. concat (map (\<lambda>p. flush_event (pkt s1 p)) (nbr_queue (nbr s1 n)))) ns
      = map (\<lambda>n. concat (map (\<lambda>p. flush_event (pkt s p)) (nbr_queue (nbr s n)))) ns"
    by (intro map_cong refl arg_cong [of _ _ concat]) (simp_all add: q pk cong: map_cong)
  have un: "(\<Union>n \<in> set ns. set (nbr_queue (nbr s1 n))) = (\<Union>n \<in> set ns. set (nbr_queue (nbr s n)))"
    by (simp add: q)
  show ?thesis
    using assms(1-3) unfolding reset_done_def ev un by (auto simp: Diff_eq)
qed

lemma reset_loop_done:
  assumes "q_inv s" "\<not> tsch_locked s" "set ns \<subseteq> set (neighbor_list s)" "distinct ns"
  shows "\<exists>s'. reset_loop ns s = Some s' \<and> reset_done ns s s'"
  using assms
proof (induction ns arbitrary: s)
  case Nil
  then show ?case by (simp add: reset_done_def)
next
  case (Cons n ns)
  then obtain s1 where s1: "tsch_queue_flush_nbr_queue n s = Some s1"
      "reset_done [n] s (nbr_upd n tsch_queue_backoff_reset s1)"
    using reset_one [of s n] by auto
  then have "\<exists>s'. reset_loop ns (nbr_upd n tsch_queue_backoff_reset s1) = Some s' \<and>
      reset_done ns (nbr_upd n tsch_queue_backoff_reset s1) s'"
    using Cons.prems by (intro Cons.IH) (auto simp: reset_done_def)
  then obtain s' where "reset_loop ns (nbr_upd n tsch_queue_backoff_reset s1) = Some s'"
      "reset_done ns (nbr_upd n tsch_queue_backoff_reset s1) s'"
    by blast
  then show ?case
    using s1 Cons.prems reset_done_append [OF s1(2)] by auto
qed

definition nbr_needed :: "tsch_neighbor \<Rightarrow> bool" where
  "nbr_needed x \<longleftrightarrow> is_broadcast x \<or> is_time_source x \<or> tx_links_count x \<noteq> 0 \<or> nbr_queue x \<noteq> []"

lemma free_unused_loop_spec:
  assumes "q_inv s" "\<not> tsch_locked s" "set ns \<subseteq> set (neighbor_list s)" "distinct ns"
  shows "\<exists>s'. free_unused_loop ns s = Some s' \<and> q_inv s' \<and>
    neighbor_list s' = filter (\<lambda>n. n \<in> set ns \<longrightarrow> nbr_needed (nbr s n)) (neighbor_list s) \<and>
    (\<forall>n \<in> set (neighbor_list s'). nbr s' n = nbr s n) \<and>
    memb_used (packet_memb s') = memb_used (packet_memb s)"
  using assms
proof (induction ns arbitrary: s)
  case Nil
  then show ?case by simp
next
  case (Cons n ns)
  have n: "n \<in> set (neighbor_list s)" "n \<notin> set ns" using Cons.prems by auto
  have ok: "nbr_ok (nbr s n)" using q_coreD(1) [OF q_invD(5) [OF Cons.prems(1)] n(1)] .
  have keep: "(\<not> is_broadcast (nbr s n) \<and> \<not> is_time_source (nbr s n) \<and> tx_links_count (nbr s n) = 0 \<and>
      tsch_queue_is_empty (Some n) s) \<longleftrightarrow> \<not> nbr_needed (nbr s n)"
    using is_empty_iff [OF ok Cons.prems(2)] by (auto simp: nbr_needed_def)
  show ?case
  proof (cases "nbr_needed (nbr s n)")
    case True
    have "filter (\<lambda>m. m \<in> set (n # ns) \<longrightarrow> nbr_needed (nbr s m)) (neighbor_list s)
        = filter (\<lambda>m. m \<in> set ns \<longrightarrow> nbr_needed (nbr s m)) (neighbor_list s)"
      using True by (intro filter_cong) auto
    then show ?thesis using True keep Cons.IH [of s] Cons.prems by auto
  next
    case False
    obtain s1 where s1: "tsch_queue_remove_nbr (Some n) s = Some s1" "q_inv s1" "\<not> tsch_locked s1"
        "neighbor_list s1 = remove1 n (neighbor_list s)" "\<And>m. m \<noteq> n \<Longrightarrow> nbr s1 m = nbr s m"
        "memb_used (packet_memb s1) = memb_used (packet_memb s) - set (nbr_queue (nbr s n))"
      using remove_nbr_spec [OF Cons.prems(1) n(1) Cons.prems(2)] by blast
    have pk: "memb_used (packet_memb s1) = memb_used (packet_memb s)"
      using s1(6) False by (simp add: nbr_needed_def)
    have l1: "neighbor_list s1 = filter (\<lambda>m. m \<noteq> n) (neighbor_list s)"
      using s1(4) q_invD(2) [OF Cons.prems(1)] by (simp add: distinct_remove1_removeAll removeAll_filter_not_eq)
         (metis (mono_tags, lifting) filter_cong)
    have "set ns \<subseteq> set (neighbor_list s1)" using Cons.prems(3) n by (auto simp: l1)
    then obtain s' where s': "free_unused_loop ns s1 = Some s'" "q_inv s'"
        "neighbor_list s' = filter (\<lambda>m. m \<in> set ns \<longrightarrow> nbr_needed (nbr s1 m)) (neighbor_list s1)"
        "\<forall>m \<in> set (neighbor_list s'). nbr s' m = nbr s1 m"
        "memb_used (packet_memb s') = memb_used (packet_memb s1)"
      using Cons.IH [OF s1(2,3)] Cons.prems(4) by auto
    have "neighbor_list s' = filter (\<lambda>m. m \<in> set (n # ns) \<longrightarrow> nbr_needed (nbr s m)) (neighbor_list s)"
      unfolding s'(3) l1 filter_filter using False s1(5) by (intro filter_cong) auto
    moreover have "\<forall>m \<in> set (neighbor_list s'). nbr s' m = nbr s m"
      using s'(3,4) s1(5) l1 by auto
    ultimately show ?thesis
      using False keep s1(1) s'(1,2,5) pk by simp
  qed
qed


text \<open>Neighbors are only removed when their queue is empty: packets and reports are not touched.\<close>

lemma remove_empty_nbr:
  assumes "tsch_queue_is_empty (Some n) s" "tsch_queue_remove_nbr (Some n) s = Some s'"
  shows "packet_memb s' = packet_memb s" "qbs s' = qbs s" "sent_log s' = sent_log s" "pbuf s' = pbuf s" "\<not> tsch_locked s'"
    "link_memb s' = link_memb s"
proof -
  have ul: "\<not> tsch_locked s" and e: "ringbufindex_empty (tx_ringbuf (nbr s n))"
    using assms(1) by (simp_all add: tsch_queue_is_empty_def)
  let ?s = "s\<lparr>tsch_lock_requested := False, neighbor_list := remove1 n (neighbor_list s), tsch_locked := False\<rparr>"
  have "tsch_queue_flush_nbr_queue n ?s = Some ?s"
    by (subst tsch_queue_flush_nbr_queue.simps) (simp add: tsch_queue_is_empty_def e)
  then have "s' = ?s\<lparr>neighbor_memb := snd (memb_free n (neighbor_memb s))\<rparr>"
    using assms(2) ul by (simp add: tsch_queue_remove_nbr_def tsch_release_lock_def)
  then show "packet_memb s' = packet_memb s" "qbs s' = qbs s" "sent_log s' = sent_log s" "pbuf s' = pbuf s" "\<not> tsch_locked s'"
    "link_memb s' = link_memb s"
    by simp_all
qed

lemma free_unused_frame:
  assumes "free_unused_loop ns s = Some s'" "\<not> tsch_locked s"
  shows "packet_memb s' = packet_memb s \<and> qbs s' = qbs s \<and> sent_log s' = sent_log s \<and> pbuf s' = pbuf s \<and>
    \<not> tsch_locked s' \<and> link_memb s' = link_memb s"
  using assms
proof (induction ns arbitrary: s)
  case (Cons n ns)
  show ?case
  proof (cases "\<not> is_broadcast (nbr s n) \<and> \<not> is_time_source (nbr s n) \<and> tx_links_count (nbr s n) = 0 \<and> tsch_queue_is_empty (Some n) s")
    case True
    then obtain s1 where "tsch_queue_remove_nbr (Some n) s = Some s1" "free_unused_loop ns s1 = Some s'"
      using Cons.prems(1) by (auto split: option.splits)
    then show ?thesis using Cons.IH [of s1] remove_empty_nbr [of n s s1] True by simp
  next
    case False
    have "free_unused_loop ns s = Some s'"
      using Cons.prems(1) unfolding free_unused_loop.simps if_not_P [OF False] .
    then show ?thesis using Cons.IH Cons.prems(2) by blast
  qed
qed simp

section \<open>Enqueueing\<close>

lemma q_core_add:
  assumes core: "q_core s N" and n: "n \<in> N"
    and x: "nbr_ok (nbr s' n)" "nbr_queue (nbr s' n) = nbr_queue (nbr s n) @ [p]"
    and oth: "\<And>m. m \<in> N \<Longrightarrow> m \<noteq> n \<Longrightarrow> nbr s' m = nbr s m"
    and pk: "p \<notin> memb_used (packet_memb s)" "memb_inv (packet_memb s')"
      "memb_used (packet_memb s') = insert p (memb_used (packet_memb s))"
      "\<And>i. i \<in> memb_used (packet_memb s) \<Longrightarrow> pkt s' i = pkt s i"
    and qb: "qb_inv (qbs s')" "b \<notin> memb_used (bufmem (qbs s))"
      "memb_used (bufmem (qbs s')) = insert b (memb_used (bufmem (qbs s)))" "p_qb (pkt s' p) = Some b"
  shows "q_core s' N"
proof -
  have nb: "nbr_ok (nbr s' m) \<and> distinct (nbr_queue (nbr s' m)) \<and>
      set (nbr_queue (nbr s' m)) \<subseteq> memb_used (packet_memb s')" if "m \<in> N" for m
    using q_coreD [OF core that] q_coreD [OF core n] x oth [OF that] pk(1,3) by (cases "m = n") auto
  moreover have "set (nbr_queue (nbr s' i)) \<inter> set (nbr_queue (nbr s' j)) = {}"
    if "i \<in> N" "j \<in> N" "i \<noteq> j" for i j
  proof -
    have "set (nbr_queue (nbr s i)) \<inter> set (nbr_queue (nbr s j)) = {}"
      using core that unfolding q_core_def by blast
    then show ?thesis
      using that oth [OF that(1)] oth [OF that(2)] x(2) pk(1) q_coreD(3) [OF core that(1)] q_coreD(3) [OF core that(2)]
      by (cases "i = n"; cases "j = n") auto
  qed
  moreover have own: "\<exists>c \<in> memb_used (bufmem (qbs s')). p_qb (pkt s' i) = Some c"
    if "i \<in> memb_used (packet_memb s')" for i
    using that core pk(3,4) qb(3,4) unfolding q_core_def by (cases "i = p") auto
  moreover have "inj_on (\<lambda>i. p_qb (pkt s' i)) (memb_used (packet_memb s'))"
  proof -
    have "inj_on (\<lambda>i. p_qb (pkt s' i)) (memb_used (packet_memb s))"
      using core unfolding q_core_def
      by (elim conjE) (rule inj_on_cong [THEN iffD1, rotated], assumption, simp only: pk(4))
    moreover have "p_qb (pkt s' p) \<notin> (\<lambda>i. p_qb (pkt s' i)) ` memb_used (packet_memb s)"
    proof
      assume "p_qb (pkt s' p) \<in> (\<lambda>i. p_qb (pkt s' i)) ` memb_used (packet_memb s)"
      then obtain i where i: "i \<in> memb_used (packet_memb s)" "p_qb (pkt s i) = Some b"
        using qb(4) pk(4) by auto
      then show False using core qb(2) unfolding q_core_def by auto
    qed
    ultimately show ?thesis unfolding pk(3) inj_on_insert using pk(1) by simp
  qed
  ultimately show ?thesis using pk(2) qb(1) unfolding q_core_def by blast
qed

lemma q_inv_same_nbrs:
  assumes "q_inv s" "q_core s' (set (neighbor_list s))" "neighbor_list s' = neighbor_list s"
    "memb_inv (neighbor_memb s')" "memb_used (neighbor_memb s') = memb_used (neighbor_memb s)"
    "\<And>m. n_addr (nbr s' m) = n_addr (nbr s m)" "\<And>m. is_time_source (nbr s' m) = is_time_source (nbr s m)"
  shows "q_inv s'"
  using assms(1,2,4) unfolding q_inv_def assms(3,5,6,7) by blast

text \<open>The neighbor block after a packet was stored is the one \<open>nbr_put\<close> computes.\<close>

lemma nbr_put_eq:
  assumes "nbr_put p x = Done (1, x')"
  shows "ringbufindex_peek_put (tx_ringbuf x) \<noteq> -1"
    "nat (ringbufindex_peek_put (tx_ringbuf x)) < length (tx_array x)"
    "x' = x\<lparr>tx_array := (tx_array x)[nat (ringbufindex_peek_put (tx_ringbuf x)) := Some p],
            tx_ringbuf := snd (ringbufindex_put (tx_ringbuf x))\<rparr>"
  using assms by (auto simp: nbr_put_def Let_def split: if_splits)

definition packet_fields :: "u8 \<Rightarrow> nat option \<Rightarrow> nat \<Rightarrow> tsch_packet \<Rightarrow> bool" where
  "packet_fields max_tx sent ptr x \<longleftrightarrow> p_sent x = sent \<and> p_ptr x = ptr \<and> p_ret x = MAC_TX_DEFERRED \<and>
     transmissions x = 0 \<and> max_transmissions x = max_tx"

text \<open>Storing a packet in the queue of a listed neighbor.\<close>

definition enqueued :: "nat \<Rightarrow> u8 \<Rightarrow> nat option \<Rightarrow> nat \<Rightarrow> tsch \<Rightarrow> nat \<Rightarrow> tsch \<Rightarrow> bool" where
  "enqueued n max_tx sent ptr s p s' \<longleftrightarrow> q_inv s' \<and> neighbor_list s' = neighbor_list s \<and>
     tsch_locked s' = tsch_locked s \<and> pbuf s' = pbuf s \<and>
     p \<notin> memb_used (packet_memb s) \<and> memb_used (packet_memb s') = insert p (memb_used (packet_memb s)) \<and>
     nbr_queue (nbr s' n) = nbr_queue (nbr s n) @ [p] \<and> n_addr (nbr s' n) = n_addr (nbr s n) \<and>
     (\<forall>m. m \<noteq> n \<longrightarrow> nbr s' m = nbr s m) \<and>
     packet_fields max_tx sent ptr (pkt s' p) \<and>
     (\<exists>b. p_qb (pkt s' p) = Some b \<and> b \<notin> memb_used (bufmem (qbs s)) \<and>
        qb_packet (qbs s') b = Some (pb_frame (pbuf s), packetbuf_attrs (pbuf s), packetbuf_addrs (pbuf s)))"

lemma enqueue_spec:
  assumes inv: "q_inv s" and n: "n \<in> set (neighbor_list s)" and room: "length (nbr_queue (nbr s n)) < 7"
    and al: "memb_alloc (packet_memb s) = (Some p, m)"
    and nq: "queuebuf_new_from_packetbuf (pbuf s) (qbs s) = Done (Some b, q)" "qb_inv q"
      "b \<notin> memb_used (bufmem (qbs s))" "memb_used (bufmem q) = insert b (memb_used (bufmem (qbs s)))"
      "qb_packet q b = Some (pb_frame (pbuf s), packetbuf_attrs (pbuf s), packetbuf_addrs (pbuf s))"
    and f: "p_qb (f (pkt s p)) = Some b" "packet_fields max_tx sent ptr (f (pkt s p))"
    and x: "nbr_put p (nbr s n) = Done (1, x)" "nbr_ok x" "nbr_queue x = nbr_queue (nbr s n) @ [p]"
      "x = (nbr s n)\<lparr>tx_array := tx_array x, tx_ringbuf := tx_ringbuf x\<rparr>"
    and s': "s' = nbr_upd n (\<lambda>_. x) (pkt_upd p f (s\<lparr>packet_memb := m, qbs := q\<rparr>))"
  shows "enqueued n max_tx sent ptr s p s'"
proof -
  note a = memb_alloc_Some [OF al]
  have core: "q_core s (set (neighbor_list s))" using q_invD(5) [OF inv] .
  have mi: "memb_inv m" using a(6) core unfolding q_core_def by blast
  have fields: "neighbor_list s' = neighbor_list s" "packet_memb s' = blk_upd p f m" "qbs s' = q"
      "nbr s' n = x" "\<And>k. k \<noteq> n \<Longrightarrow> nbr s' k = nbr s k" "pbuf s' = pbuf s" "tsch_locked s' = tsch_locked s"
    by (simp_all add: s' pkt_upd_def)
  have pk: "\<And>i. i \<in> memb_used (packet_memb s) \<Longrightarrow> pkt s' i = pkt s i" "pkt s' p = f (pkt s p)"
    using a by (auto simp: fields)
  have c': "q_core s' (set (neighbor_list s))"
    using x nq mi a f by (intro q_core_add [OF core n, where p = p and b = b]) (auto simp: fields)
  have "n_addr x = n_addr (nbr s n) \<and> is_time_source x = is_time_source (nbr s n)"
    by (subst (1 2) x(4)) simp
  then have xa: "n_addr x = n_addr (nbr s n)" "is_time_source x = is_time_source (nbr s n)"
    by simp_all
  have same: "n_addr (nbr s' k) = n_addr (nbr s k)" "is_time_source (nbr s' k) = is_time_source (nbr s k)" for k
    using xa by (cases "k = n"; simp add: fields)+
  have "q_inv s'"
    by (rule q_inv_same_nbrs [OF inv c' fields(1) _ _ same]) (use q_invD(1) [OF inv] in \<open>simp_all add: s' pkt_upd_def\<close>)
  then show ?thesis
    unfolding enqueued_def using fields a x nq f pk xa by simp
qed


lemma add_packet_eq:
  assumes "\<not> tsch_locked s" "tsch_queue_add_nbr a s = (Some n, s1)"
    "nbr_put p (nbr s1 n) = Done (1, x)" "memb_alloc (packet_memb s1) = (Some p, m)"
    "queuebuf_new_from_packetbuf (pbuf s1) (qbs s1) = Done (Some b, q)"
  shows "tsch_queue_add_packet a max_tx sent ptr s = Done (Some p, nbr_upd n (\<lambda>_. x)
    (pkt_upd p (\<lambda>y. y\<lparr>p_qb := Some b, p_sent := sent, p_ptr := ptr, p_ret := MAC_TX_DEFERRED,
       transmissions := 0, max_transmissions := max_tx\<rparr>) (s1\<lparr>packet_memb := m, qbs := q\<rparr>)))"
proof -
  note pe = nbr_put_eq [OF assms(3)]
  have two: "blk_upd p f (blk_upd p g t) = blk_upd p (\<lambda>y. f (g y)) t" for f g and t :: "tsch_packet memb"
    by (simp add: blk_upd_def)
  have upd: "nbr_upd n (\<lambda>y. y\<lparr>tx_array := (tx_array y)[nat (ringbufindex_peek_put (tx_ringbuf (nbr s1 n))) := Some p],
        tx_ringbuf := snd (ringbufindex_put (tx_ringbuf y))\<rparr>) t = nbr_upd n (\<lambda>_. x) t"
    if "neighbor_memb t = neighbor_memb s1" for t
    by (simp add: nbr_upd_def blk_upd_def that pe(3))
  show ?thesis
    using assms(1,2,4,5) pe(1,2) by (simp add: tsch_queue_add_packet_def Let_def two upd pkt_upd_def)
qed

lemma q_inv_free_unqueued:
  assumes inv: "q_inv s" and al: "memb_alloc (packet_memb s) = (Some p, m)"
  shows "q_inv (s\<lparr>packet_memb := snd (memb_free p (blk_upd p f m))\<rparr>)" (is "q_inv ?s")
proof -
  note a = memb_alloc_Some [OF al]
  have core: "q_core s (set (neighbor_list s))" using q_invD(5) [OF inv] .
  have mi: "memb_inv (blk_upd p f m)" using a(6) core unfolding q_core_def by simp
  note mf = memb_free_props [OF mi, of p]
  have used: "memb_used (packet_memb ?s) = memb_used (packet_memb s)" using a mf by simp
  have pk: "pkt ?s i = pkt s i" if "i \<in> memb_used (packet_memb s)" for i using that a mf by auto
  have "inj_on (\<lambda>p. p_qb (pkt ?s p)) (memb_used (packet_memb s))"
    using core unfolding q_core_def
    by (elim conjE) (rule inj_on_cong [THEN iffD1, rotated], assumption, simp only: pk)
  then have "q_core ?s (set (neighbor_list s))"
    using core mf(1) pk unfolding q_core_def used by simp
  then show ?thesis by (rule q_inv_same_nbrs [OF inv]) (use q_invD(1) [OF inv] in simp_all)
qed

definition nbr_queue_of :: "tsch \<Rightarrow> nat \<Rightarrow> nat list" where
  "nbr_queue_of s n = (if n \<in> set (neighbor_list s) then nbr_queue (nbr s n) else [])"

text \<open>The contract of \<open>tsch_queue_add_packet\<close>.\<close>

definition packet_added ::
    "linkaddr \<Rightarrow> u8 \<Rightarrow> nat option \<Rightarrow> nat \<Rightarrow> tsch \<Rightarrow> nat option \<Rightarrow> tsch \<Rightarrow> bool" where
  "packet_added a max_tx sent ptr s r s' \<longleftrightarrow> q_inv s' \<and> \<not> tsch_locked s' \<and>
     (case r of
        None \<Rightarrow> (\<forall>m. nbr_queue_of s' m = nbr_queue_of s m) \<and>
          (memb_numfree (neighbor_memb s) = 0 \<or> memb_numfree (packet_memb s) = 0 \<or>
           memb_numfree (bufmem (qbs s)) = 0 \<or>
           (\<exists>n \<in> set (neighbor_list s). n_addr (nbr s n) = a \<and> length (nbr_queue (nbr s n)) = 7))
      | Some p \<Rightarrow> p \<notin> memb_used (packet_memb s) \<and>
          (\<exists>n \<in> set (neighbor_list s'). n_addr (nbr s' n) = a \<and>
             nbr_queue_of s' n = nbr_queue_of s n @ [p] \<and>
             (\<forall>m. m \<noteq> n \<longrightarrow> nbr_queue_of s' m = nbr_queue_of s m)) \<and>
          packet_fields max_tx sent ptr (pkt s' p) \<and>
          (\<exists>b. p_qb (pkt s' p) = Some b \<and> qb_packet (qbs s') b =
             Some (pb_frame (pbuf s), packetbuf_attrs (pbuf s), packetbuf_addrs (pbuf s))))"

lemma nbr_added_queues:
  assumes "nbr_added a s r s'" "is_linkaddr a"
  shows "nbr_queue_of s' m = nbr_queue_of s m"
proof -
  have "nbr_queue (nbr s' m) = []" if "m \<in> set (neighbor_list s')" "m \<notin> set (neighbor_list s)"
    using nbr_addedD(7,8) [OF assms(1)] that nbr_new_ok(2) [OF assms(2)] by metis
  then show ?thesis
    using nbr_addedD(3,4) [OF assms(1), of m] by (auto simp: nbr_queue_of_def)
qed

lemma enqueued_added:
  assumes ad: "nbr_added a s (Some n) s1" and a: "is_linkaddr a" and en: "enqueued n max_tx sent ptr s1 p s'"
  shows "packet_added a max_tx sent ptr s (Some p) s'"
proof -
  note d = nbr_addedD [OF ad] and fr = nbr_added_frame [OF ad]
  have n: "n \<in> set (neighbor_list s1)" "n_addr (nbr s1 n) = a" using d(5,6) by auto
  have l: "neighbor_list s' = neighbor_list s1"
    and q: "nbr_queue (nbr s' n) = nbr_queue (nbr s1 n) @ [p]" "n_addr (nbr s' n) = n_addr (nbr s1 n)"
    and o: "\<And>m. m \<noteq> n \<Longrightarrow> nbr s' m = nbr s1 m"
    using en unfolding enqueued_def by auto
  have "nbr_queue_of s' n = nbr_queue_of s1 n @ [p]" "\<And>m. m \<noteq> n \<Longrightarrow> nbr_queue_of s' m = nbr_queue_of s1 m"
    using q o n(1) by (simp_all add: nbr_queue_of_def l)
  then have "nbr_queue_of s' n = nbr_queue_of s n @ [p]" "\<And>m. m \<noteq> n \<Longrightarrow> nbr_queue_of s' m = nbr_queue_of s m"
    by (simp_all add: nbr_added_queues [OF ad a])
  then show ?thesis
    using en n d(2) l q(2) fr(1,3) unfolding packet_added_def enqueued_def by auto
qed

lemma add_packet_spec:
  assumes inv: "q_inv s" and a: "is_linkaddr a" and ul: "\<not> tsch_locked s" and pb: "pb_inv (pbuf s)"
  obtains r s' where "tsch_queue_add_packet a max_tx sent ptr s = Done (r, s')"
    "packet_added a max_tx sent ptr s r s'"
proof -
  obtain r1 s1 where e: "tsch_queue_add_nbr a s = (r1, s1)" by (cases "tsch_queue_add_nbr a s")
  have ad: "nbr_added a s r1 s1" using add_nbr_spec [OF inv a ul] e by simp
  note d = nbr_addedD [OF ad] and fr = nbr_added_frame [OF ad] and q1 = nbr_added_queues [OF ad a]
  show ?thesis
  proof (cases r1)
    case None
    then have "memb_numfree (neighbor_memb s) = 0" using ad by (simp add: nbr_added_def)
    then have "packet_added a max_tx sent ptr s None s1"
      using d(1,2) q1 by (simp add: packet_added_def)
    then show ?thesis using that None e ul by (simp add: tsch_queue_add_packet_def)
  next
    case (Some n)
    have n: "n \<in> set (neighbor_list s1)" "n_addr (nbr s1 n) = a" using d(5,6) Some by auto
    have ok: "nbr_ok (nbr s1 n)" using q_coreD(1) [OF q_invD(5) [OF d(1)] n(1)] .
    have qn: "nbr_queue (nbr s1 n) = nbr_queue_of s n" using q1 [of n] n(1) by (simp add: nbr_queue_of_def)
    show ?thesis
    proof (cases "length (nbr_queue (nbr s1 n)) = 7")
      case True
      then have "ringbufindex_peek_put (tx_ringbuf (nbr s1 n)) = -1"
        using ringbufindex_peek_spec(2) [OF nbr_okD(1) [OF ok]] by (simp add: nbr_queue_def)
      moreover have "packet_added a max_tx sent ptr s None s1"
        using True qn d(1,2) d(3,6) [of n] Some q1 unfolding packet_added_def
        by (auto simp: nbr_queue_of_def split: if_splits)
      ultimately show ?thesis
        using that [of None s1] Some e ul by (simp add: tsch_queue_add_packet_def)
    next
      case False
      then have room: "length (nbr_queue (nbr s1 n)) < 7" using nbr_queue_length [of "nbr s1 n"] by simp
      have peek: "ringbufindex_peek_put (tx_ringbuf (nbr s1 n)) \<noteq> -1"
        using nbr_put_room [OF ok room, of 0] nbr_put_eq(1) by blast
      show ?thesis
      proof (cases rule: memb_alloc_cases [of "packet_memb s1"])
        case full
        have "packet_added a max_tx sent ptr s None s1"
          using d(1,2) q1 full fr(1) by (simp add: packet_added_def memb_numfree_eq)
        then show ?thesis
          using that [of None s1] Some e ul peek full by (simp add: tsch_queue_add_packet_def Let_def)
      next
        case (block p)
        let ?m = "(packet_memb s1)\<lparr>mb_count := (mb_count (packet_memb s1))(p := 1)\<rparr>"
        obtain x where x: "nbr_put p (nbr s1 n) = Done (1, x)" "nbr_ok x"
            "nbr_queue x = nbr_queue (nbr s1 n) @ [p]"
            "x = (nbr s1 n)\<lparr>tx_array := tx_array x, tx_ringbuf := tx_ringbuf x\<rparr>"
          using nbr_put_room [OF ok room, of p] .
        have qi: "qb_inv (qbs s1)" "pb_inv (pbuf s1)"
          using q_invD(5) [OF d(1)] pb fr(3) unfolding q_core_def by simp_all
        note qs = queuebuf_new_spec [OF qi]
        show ?thesis
        proof (cases "memb_numfree (bufmem (qbs s1)) = 0")
          case True
          let ?s = "s1\<lparr>packet_memb := snd (memb_free p (blk_upd p (\<lambda>y. y\<lparr>p_qb := None\<rparr>) ?m))\<rparr>"
          have "q_inv ?s" using q_inv_free_unqueued [OF d(1) block(1)] .
          moreover have "nbr_queue_of ?s m = nbr_queue_of s1 m" for m by (simp add: nbr_queue_of_def)
          ultimately have "packet_added a max_tx sent ptr s None ?s"
            using d(2) q1 True fr(2) by (simp add: packet_added_def)
          moreover have "tsch_queue_add_packet a max_tx sent ptr s = Done (None, ?s)"
            using qs True e Some ul peek block(1)
            by (simp add: tsch_queue_add_packet_def Let_def pkt_upd_def)
          ultimately show ?thesis by (rule that [rotated])
        next
          case False
          then obtain b q where b: "queuebuf_new_from_packetbuf (pbuf s1) (qbs s1) = Done (Some b, q)" "qb_inv q"
              "b \<notin> memb_used (bufmem (qbs s1))" "memb_used (bufmem q) = insert b (memb_used (bufmem (qbs s1)))"
              "qb_packet q b = Some (pb_frame (pbuf s1), packetbuf_attrs (pbuf s1), packetbuf_addrs (pbuf s1))"
            using qs by auto
          have e': "tsch_queue_add_nbr a s = (Some n, s1)" using e Some by simp
          note res = add_packet_eq [OF ul e' x(1) block(1) b(1), of max_tx sent ptr]
          let ?f = "\<lambda>y. y\<lparr>p_qb := Some b, p_sent := sent, p_ptr := ptr, p_ret := MAC_TX_DEFERRED,
                   transmissions := 0, max_transmissions := max_tx\<rparr>"
          let ?s = "nbr_upd n (\<lambda>_. x) (pkt_upd p ?f (s1\<lparr>packet_memb := ?m, qbs := q\<rparr>))"
          have "enqueued n max_tx sent ptr s1 p ?s"
            by (rule enqueue_spec [OF d(1) n(1) room block(1) b _ _ x refl]) (simp_all add: packet_fields_def)
          then have "packet_added a max_tx sent ptr s (Some p) ?s"
            using ad a Some by (intro enqueued_added) simp_all
          then show ?thesis using res that by blast
        qed
      qed
    qed
  qed
qed


section \<open>After a transmission\<close>

lemma remove_head_inv:
  assumes inv: "q_inv s" and n: "n \<in> set (neighbor_list s)" and ul: "\<not> tsch_locked s"
    and q: "nbr_queue (nbr s n) = p # ps"
  obtains r where "tsch_queue_remove_packet_from_queue (Some n) s = (Some p, nbr_upd n (\<lambda>x. x\<lparr>tx_ringbuf := r\<rparr>) s)"
    "q_inv (nbr_upd n (\<lambda>x. x\<lparr>tx_ringbuf := r\<rparr>) s)"
    "nbr_queue ((nbr s n)\<lparr>tx_ringbuf := r\<rparr>) = ps" "nbr_ok ((nbr s n)\<lparr>tx_ringbuf := r\<rparr>)"
proof -
  note ok = q_coreD [OF q_invD(5) [OF inv] n]
  obtain r where r: "tsch_queue_remove_packet_from_queue (Some n) s = (Some p, nbr_upd n (\<lambda>x. x\<lparr>tx_ringbuf := r\<rparr>) s)"
      "nbr_ok ((nbr s n)\<lparr>tx_ringbuf := r\<rparr>)" "nbr_queue ((nbr s n)\<lparr>tx_ringbuf := r\<rparr>) = ps"
    using remove_packet_Cons [OF ok(1) ul q] .
  moreover have "q_inv (nbr_upd n (\<lambda>x. x\<lparr>tx_ringbuf := r\<rparr>) s)"
    using inv r q ok(2) by (intro q_inv_nbr_upd) auto
  ultimately show ?thesis using that by blast
qed

text \<open>What \<open>tsch_queue_packet_sent\<close> does, as a function of the status, the link and the neighbor.\<close>

definition sent_dequeues :: "u8 \<Rightarrow> tsch_packet \<Rightarrow> bool" where
  "sent_dequeues status x \<longleftrightarrow> status = MAC_TX_OK \<or> transmissions x \<ge> max_transmissions x"

definition sent_backoff :: "u16 \<Rightarrow> u8 \<Rightarrow> bool \<Rightarrow> nat list \<Rightarrow> tsch_neighbor \<Rightarrow> u8 \<times> u8" where
  "sent_backoff rnd status shared rest x =
     (if is_broadcast x then (backoff_window x, backoff_exponent x)
      else if status = MAC_TX_OK then
        (if shared \<or> rest = [] then (0, TSCH_MAC_MIN_BE) else (backoff_window x, backoff_exponent x))
      else if shared then (backoff_window (tsch_queue_backoff_inc rnd x), backoff_exponent (tsch_queue_backoff_inc rnd x))
      else (backoff_window x, backoff_exponent x))"

lemma backoff_frame [simp]:
  "is_broadcast (tsch_queue_backoff_reset x) = is_broadcast x" "is_broadcast (tsch_queue_backoff_inc rnd x) = is_broadcast x"
  "n_addr (tsch_queue_backoff_reset x) = n_addr x" "n_addr (tsch_queue_backoff_inc rnd x) = n_addr x"
  "is_time_source (tsch_queue_backoff_reset x) = is_time_source x"
  "is_time_source (tsch_queue_backoff_inc rnd x) = is_time_source x"
  "backoff_window (tsch_queue_backoff_reset x) = 0" "backoff_exponent (tsch_queue_backoff_reset x) = TSCH_MAC_MIN_BE"
  "backoff_window (tsch_queue_backoff_inc rnd (x\<lparr>tx_ringbuf := r\<rparr>)) = backoff_window (tsch_queue_backoff_inc rnd x)"
  "backoff_exponent (tsch_queue_backoff_inc rnd (x\<lparr>tx_ringbuf := r\<rparr>)) = backoff_exponent (tsch_queue_backoff_inc rnd x)"
  by (simp_all add: tsch_queue_backoff_reset_def tsch_queue_backoff_inc_def Let_def)

lemma q_inv_backoff:
  assumes "q_inv s" "n \<in> set (neighbor_list s)"
  shows "q_inv (nbr_upd n tsch_queue_backoff_reset s)" "q_inv (nbr_upd n (tsch_queue_backoff_inc rnd) s)"
proof -
  note ok = q_coreD [OF q_invD(5) [OF assms(1)] assms(2)]
  show "q_inv (nbr_upd n tsch_queue_backoff_reset s)"
    using assms(1) ok by (intro q_inv_nbr_upd) (auto simp: backoff_reset_ok)
  show "q_inv (nbr_upd n (tsch_queue_backoff_inc rnd) s)"
    using assms(1) ok by (intro q_inv_nbr_upd) (auto simp: backoff_inc_ok)
qed

lemma packet_sent_spec:
  assumes "q_inv s" "n \<in> set (neighbor_list s)" "\<not> tsch_locked s" "nbr_queue (nbr s n) = p # ps"
  shows "case tsch_queue_packet_sent rnd n p l status s of (in_queue, s') \<Rightarrow>
    q_inv s' \<and> (\<forall>m. m \<noteq> n \<longrightarrow> nbr s' m = nbr s m) \<and>
    in_queue = (if sent_dequeues status (pkt s p) then 0 else 1) \<and>
    nbr_queue (nbr s' n) = (if sent_dequeues status (pkt s p) then ps else p # ps) \<and>
    (backoff_window (nbr s' n), backoff_exponent (nbr s' n)) =
      sent_backoff rnd status (link_options (link s l) AND LINK_OPTION_SHARED \<noteq> 0) ps (nbr s n)"
proof -
  obtain r where r: "tsch_queue_remove_packet_from_queue (Some n) s = (Some p, nbr_upd n (\<lambda>x. x\<lparr>tx_ringbuf := r\<rparr>) s)"
      "q_inv (nbr_upd n (\<lambda>x. x\<lparr>tx_ringbuf := r\<rparr>) s)"
      "nbr_queue ((nbr s n)\<lparr>tx_ringbuf := r\<rparr>) = ps" "nbr_ok ((nbr s n)\<lparr>tx_ringbuf := r\<rparr>)"
    using remove_head_inv [OF assms] .
  let ?s1 = "nbr_upd n (\<lambda>x. x\<lparr>tx_ringbuf := r\<rparr>) s"
  have em: "tsch_queue_is_empty (Some n) ?s1 \<longleftrightarrow> ps = []"
    using is_empty_iff [of ?s1 n] r(3,4) assms(3) by simp
  have n1: "n \<in> set (neighbor_list ?s1)" using assms(2) by simp
  show ?thesis
    using r(1-3) assms(1,4) q_inv_backoff [OF r(2) n1] q_inv_backoff [OF assms(1,2)]
    by (auto simp: tsch_queue_packet_sent_def Let_def em sent_dequeues_def sent_backoff_def)
qed

section \<open>Initialisation\<close>

lemma q_inv_pools:
  assumes "neighbor_list s = []" "memb_inv (neighbor_memb s)" "memb_used (neighbor_memb s) = {}"
    "memb_inv (packet_memb s)" "memb_used (packet_memb s) = {}" "qb_inv (qbs s)"
  shows "q_inv s"
  using assms by (simp add: q_inv_def q_core_def)

lemma memb_alloc_empty:
  "memb_used m = {} \<Longrightarrow> 0 < mb_num m \<Longrightarrow> \<exists>i m'. memb_alloc m = (Some i, m')"
  by (cases rule: memb_alloc_cases [of m]) auto

lemma add_nbr_succeeds:
  assumes "q_inv s" "is_linkaddr a" "\<not> tsch_locked s" "card (memb_used (neighbor_memb s)) < mb_num (neighbor_memb s)"
  obtains n s' where "tsch_queue_add_nbr a s = (Some n, s')" "nbr_added a s (Some n) s'"
    "mb_num (neighbor_memb s') = mb_num (neighbor_memb s)"
    "card (memb_used (neighbor_memb s')) \<le> Suc (card (memb_used (neighbor_memb s)))"
proof -
  note ad = add_nbr_spec [OF assms(1-3)]
  show ?thesis
    using assms(1,2,3)
  proof (cases rule: add_nbr_cases)
    case (old n)
    then show ?thesis using ad that [of n s] by simp
  next
    case full
    then show ?thesis using assms(4) by (simp add: memb_numfree_eq)
  next
    case (new n m)
    then show ?thesis using ad that memb_alloc_Some [OF new(2)] by (simp add: card_insert_if)
  qed
qed

lemma tsch_queue_init_spec:
  assumes "\<not> tsch_locked s" "qb_inv (qbs s)" "2 \<le> mb_num (neighbor_memb s)"
  obtains e b where "q_inv (tsch_queue_init s)" "\<not> tsch_locked (tsch_queue_init s)"
    "n_eb (tsch_queue_init s) = Some e" "n_broadcast (tsch_queue_init s) = Some b"
    "{e, b} \<subseteq> set (neighbor_list (tsch_queue_init s))"
    "n_addr (nbr (tsch_queue_init s) e) = tsch_eb_address"
    "n_addr (nbr (tsch_queue_init s) b) = tsch_broadcast_address"
    "memb_used (packet_memb (tsch_queue_init s)) = {}" "pbuf (tsch_queue_init s) = pbuf s"
    "mb_num (packet_memb (tsch_queue_init s)) = mb_num (packet_memb s)"
    "qbs (tsch_queue_init s) = qbs s" "mb_num (neighbor_memb (tsch_queue_init s)) = mb_num (neighbor_memb s)"
    "card (memb_used (neighbor_memb (tsch_queue_init s))) \<le> 2"
    "tsch_is_coordinator (tsch_queue_init s) = tsch_is_coordinator s"
    "slotframe_list (tsch_queue_init s) = slotframe_list s"
    "link_memb (tsch_queue_init s) = link_memb s" "slotframe_memb (tsch_queue_init s) = slotframe_memb s"
    "\<forall>k \<in> set (neighbor_list (tsch_queue_init s)). tx_links_count (nbr (tsch_queue_init s) k) = 0"
    "current_link (tsch_queue_init s) = current_link s"
proof -
  let ?s1 = "s\<lparr>neighbor_list := [], neighbor_memb := memb_init nbr_zero (neighbor_memb s),
               packet_memb := memb_init pkt_zero (packet_memb s)\<rparr>"
  have i1: "q_inv ?s1" using assms(2) by (intro q_inv_pools) simp_all
  obtain e s2 where e: "tsch_queue_add_nbr tsch_eb_address ?s1 = (Some e, s2)"
      "nbr_added tsch_eb_address ?s1 (Some e) s2" "mb_num (neighbor_memb s2) = mb_num (neighbor_memb s)"
      "card (memb_used (neighbor_memb s2)) \<le> 1"
    using add_nbr_succeeds [OF i1, of tsch_eb_address] assms by auto
  note d2 = nbr_addedD [OF e(2)] and f2 = nbr_added_frame [OF e(2)]
  let ?s2 = "s2\<lparr>n_eb := Some e\<rparr>"
  have i2: "q_inv ?s2" using d2(1) q_inv_cong [of ?s2 s2] by simp
  obtain b s3 where b: "tsch_queue_add_nbr tsch_broadcast_address ?s2 = (Some b, s3)"
      "nbr_added tsch_broadcast_address ?s2 (Some b) s3" "mb_num (neighbor_memb s3) = mb_num (neighbor_memb s2)"
      "card (memb_used (neighbor_memb s3)) \<le> Suc (card (memb_used (neighbor_memb s2)))"
    using add_nbr_succeeds [OF i2, of tsch_broadcast_address] assms d2(2) e(3,4) by auto
  note d3 = nbr_addedD [OF b(2)] and f3 = nbr_added_frame [OF b(2)]
  have init: "tsch_queue_init s = s3\<lparr>n_broadcast := Some b\<rparr>"
    using e(1) b(1) by (simp add: tsch_queue_init_def Let_def)
  have "q_inv (s3\<lparr>n_broadcast := Some b\<rparr>)"
    using d3(1) q_inv_cong [of "s3\<lparr>n_broadcast := Some b\<rparr>" s3] by simp
  moreover have "n_eb s3 = Some e"
    using f3 by simp
  moreover have "e \<in> set (neighbor_list s3)" "n_addr (nbr s3 e) = tsch_eb_address"
    using d3(3,4) [of e] d2(5,6) by simp_all
  moreover have "tx_links_count (nbr s3 k) = 0" if k: "k \<in> set (neighbor_list s3)" for k
  proof (cases "k \<in> set (neighbor_list s2)")
    case True
    then have "nbr s2 k = nbr_new tsch_eb_address" using d2(7,8) [of k] by simp
    then show ?thesis using d3(3) [of k] True nbr_new_ok(5) [of tsch_eb_address] by simp
  next
    case False
    then have "nbr s3 k = nbr_new tsch_broadcast_address" using d3(7,8) [of k] k by simp
    then show ?thesis using nbr_new_ok(5) [of tsch_broadcast_address] by simp
  qed
  ultimately show ?thesis
    using d3(2,5,6) f2 f3 b(3,4) e(3,4) by (intro that [of e b]) (simp_all add: init)
qed


text \<open>The state after boot and initialisation of the queue module.\<close>

definition tsch_boot :: tsch where "tsch_boot = tsch_queue_init tsch_zero"

lemma tsch_zero_fields:
  "\<not> tsch_locked tsch_zero" "qbs tsch_zero = qb_zero" "mb_num (neighbor_memb tsch_zero) = 18"
  "mb_num (packet_memb tsch_zero) = 8" "pbuf tsch_zero = pb_zero" "\<not> tsch_is_coordinator tsch_zero"
  "slotframe_list tsch_zero = []" "link_memb tsch_zero = pool TSCH_SCHEDULE_MAX_LINKS link_zero"
  "slotframe_memb tsch_zero = pool TSCH_SCHEDULE_MAX_SLOTFRAMES sf_zero" "current_link tsch_zero = None"
  by (simp_all add: tsch_zero_def pool_def TSCH_QUEUE_MAX_NEIGHBOR_QUEUES_def QUEUEBUF_NUM_def)

lemma tsch_boot_spec:
  "q_inv tsch_boot \<and> \<not> tsch_locked tsch_boot \<and> pb_inv (pbuf tsch_boot) \<and>
   memb_used (packet_memb tsch_boot) = {} \<and> mb_num (packet_memb tsch_boot) = 8 \<and> qbs tsch_boot = qb_zero \<and>
   mb_num (neighbor_memb tsch_boot) = 18 \<and> card (memb_used (neighbor_memb tsch_boot)) \<le> 2 \<and>
   \<not> tsch_is_coordinator tsch_boot \<and> slotframe_list tsch_boot = [] \<and>
   link_memb tsch_boot = pool TSCH_SCHEDULE_MAX_LINKS link_zero \<and>
   slotframe_memb tsch_boot = pool TSCH_SCHEDULE_MAX_SLOTFRAMES sf_zero \<and> current_link tsch_boot = None \<and>
   (\<forall>k \<in> set (neighbor_list tsch_boot). tx_links_count (nbr tsch_boot k) = 0)"
proof -
  have z: "\<not> tsch_locked tsch_zero" "qb_inv (qbs tsch_zero)" "2 \<le> mb_num (neighbor_memb tsch_zero)"
    by (simp_all add: tsch_zero_fields qb_zero_inv)
  show ?thesis
    unfolding tsch_boot_def
    by (rule tsch_queue_init_spec [OF z]) (simp add: tsch_zero_fields pb_zero_inv)
qed

lemma tsch_boot_broadcast:
  obtains b where "b \<in> set (neighbor_list tsch_boot)" "n_addr (nbr tsch_boot b) = tsch_broadcast_address"
    "n_broadcast tsch_boot = Some b"
proof -
  have z: "\<not> tsch_locked tsch_zero" "qb_inv (qbs tsch_zero)" "2 \<le> mb_num (neighbor_memb tsch_zero)"
    by (simp_all add: tsch_zero_fields qb_zero_inv)
  show ?thesis
    by (rule tsch_queue_init_spec [OF z]) (rule that, simp_all add: tsch_boot_def)
qed

lemma tsch_boot_queues: "n \<in> set (neighbor_list tsch_boot) \<Longrightarrow> nbr_queue (nbr tsch_boot n) = []"
  using q_coreD(3) [OF q_invD(5), of tsch_boot n] tsch_boot_spec by simp

lemma tsch_boot_free:
  "0 < memb_numfree (neighbor_memb tsch_boot)" "0 < memb_numfree (packet_memb tsch_boot)"
  "0 < memb_numfree (bufmem (qbs tsch_boot))"
proof -
  note b = tsch_boot_spec
  show "0 < memb_numfree (neighbor_memb tsch_boot)" "0 < memb_numfree (packet_memb tsch_boot)"
    using b by (simp_all add: memb_numfree_eq)
  show "0 < memb_numfree (bufmem (qbs tsch_boot))"
    using b by (simp add: qb_zero_inv)
qed

section \<open>Properties\<close>

text \<open>C11. Adding a packet never faults and keeps the invariant; on success the packet is fresh, it is the
  last of the queue of the neighbor with that address (created when needed), every other queue is
  unchanged, and its queuebuf holds the frame and attributes of the packet buffer; on failure no
  queue changes and a pool was exhausted or the neighbor's ring was full.\<close>

theorem add_packet_appends:
  assumes "q_inv s" "is_linkaddr a" "\<not> tsch_locked s" "pb_inv (pbuf s)"
  shows "\<exists>r s'. tsch_queue_add_packet a max_tx sent ptr s = Done (r, s') \<and>
           packet_added a max_tx sent ptr s r s'"
  using add_packet_spec [OF assms, of max_tx sent ptr] by blast

theorem add_packet_appends_witness:
  "\<exists>p s'. tsch_queue_add_packet tsch_broadcast_address 3 (Some 5) 9 tsch_boot = Done (Some p, s') \<and>
     packet_added tsch_broadcast_address 3 (Some 5) 9 tsch_boot (Some p) s'"
proof -
  note b = tsch_boot_spec
  obtain r s' where r: "tsch_queue_add_packet tsch_broadcast_address 3 (Some 5) 9 tsch_boot = Done (r, s')"
      "packet_added tsch_broadcast_address 3 (Some 5) 9 tsch_boot r s'"
    using add_packet_appends [of tsch_boot tsch_broadcast_address 3 "Some 5" 9] b by auto
  have "r \<noteq> None"
    using r(2) tsch_boot_queues tsch_boot_free by (auto simp: packet_added_def split: option.splits)
  then show ?thesis using r by auto
qed

text \<open>C10. The outcome of a transmission of the head packet \<open>p\<close> of a neighbor: it leaves the queue exactly when
  it was acknowledged or its transmissions are used up, the result says which, no other queue
  changes, and the backoff state moves as the CSMA rules say (reset on success over a shared link or when the
  queue empties, increased on failure over a shared link, unchanged otherwise).\<close>

theorem packet_sent_outcome:
  assumes "q_inv s" "n \<in> set (neighbor_list s)" "\<not> tsch_locked s" "nbr_queue (nbr s n) = p # ps"
  shows "case tsch_queue_packet_sent rnd n p l status s of (in_queue, s') \<Rightarrow>
    q_inv s' \<and> (\<forall>m. m \<noteq> n \<longrightarrow> nbr s' m = nbr s m) \<and>
    in_queue = (if sent_dequeues status (pkt s p) then 0 else 1) \<and>
    nbr_queue (nbr s' n) = (if sent_dequeues status (pkt s p) then ps else p # ps) \<and>
    (backoff_window (nbr s' n), backoff_exponent (nbr s' n)) =
      sent_backoff rnd status (link_options (link s l) AND LINK_OPTION_SHARED \<noteq> 0) ps (nbr s n)"
  using packet_sent_spec [OF assms] .

theorem packet_sent_outcome_witness:
  "\<exists>s n p s'. nbr_queue (nbr s n) = [p] \<and> max_transmissions (pkt s p) = 3 \<and> q_inv s' \<and>
     tsch_queue_packet_sent 7 n p 0 MAC_TX_NOACK s = (1, s') \<and> nbr_queue (nbr s' n) = [p]"
proof -
  note b = tsch_boot_spec
  obtain r s where r: "tsch_queue_add_packet tsch_broadcast_address 3 (Some 5) 9 tsch_boot = Done (r, s)"
      "packet_added tsch_broadcast_address 3 (Some 5) 9 tsch_boot r s"
    using add_packet_spec [of tsch_boot tsch_broadcast_address 3 "Some 5" 9] b by auto
  obtain p where "r = Some p"
    using r(2) tsch_boot_queues tsch_boot_free by (auto simp: packet_added_def split: option.splits)
  moreover have "nbr_queue_of tsch_boot n = []" for n
    using tsch_boot_queues by (simp add: nbr_queue_of_def)
  ultimately obtain n where n: "q_inv s" "\<not> tsch_locked s" "n \<in> set (neighbor_list s)"
      "nbr_queue (nbr s n) = [p]" "packet_fields 3 (Some 5) 9 (pkt s p)"
    using r(2) by (auto simp: packet_added_def nbr_queue_of_def)
  have "\<not> sent_dequeues MAC_TX_NOACK (pkt s p)"
    using n(5) by (simp add: sent_dequeues_def packet_fields_def MAC_TX_NOACK_def MAC_TX_OK_def)
  then show ?thesis
    using packet_sent_outcome [OF n(1,3,2,4), where rnd = 7 and l = 0 and status = MAC_TX_NOACK] n(4,5)
    by (auto simp: packet_fields_def split: prod.splits)
qed

text \<open>C26. The backoff stays in range: an increase moves the exponent up by one to at most \<open>TSCH_MAC_MAX_BE\<close> and
  draws a window between 1 and \<open>2 ^ exponent\<close>, uniformly in the upper bits of the random number.\<close>

theorem backoff_inc_range:
  assumes "TSCH_MAC_MIN_BE \<le> backoff_exponent x" "backoff_exponent x \<le> TSCH_MAC_MAX_BE"
  shows "let be = min (unat (backoff_exponent x) + 1) (unat TSCH_MAC_MAX_BE); x' = tsch_queue_backoff_inc rnd x in
    unat (backoff_exponent x') = be \<and> unat (backoff_window x') = unat rnd div 64 mod 2 ^ be + 1 \<and>
    1 \<le> backoff_window x' \<and> unat (backoff_window x') \<le> 2 ^ be"
proof -
  let ?be = "min (unat (backoff_exponent x) + 1) 5"
  have "unat rnd div 64 mod 2 ^ ?be < 2 ^ ?be" by simp
  then show ?thesis
    using backoff_inc_values [OF assms, of rnd]
    by (simp add: Let_def TSCH_MAC_MAX_BE_def word_le_nat_alt Suc_le_eq)
qed

theorem backoff_inc_range_witness:
  "backoff_exponent (tsch_queue_backoff_inc 0x1234 (nbr_new tsch_eb_address)) = 2 \<and>
   backoff_window (tsch_queue_backoff_inc 0x1234 (nbr_new tsch_eb_address)) = 1"
proof -
  have "TSCH_MAC_MIN_BE \<le> backoff_exponent (nbr_new tsch_eb_address)"
    "backoff_exponent (nbr_new tsch_eb_address) \<le> TSCH_MAC_MAX_BE"
    "unat (backoff_exponent (nbr_new tsch_eb_address)) = 1"
    by (simp_all add: nbr_new_def tsch_queue_backoff_reset_def TSCH_MAC_MIN_BE_def TSCH_MAC_MAX_BE_def)
  then show ?thesis
    using backoff_inc_range [of "nbr_new tsch_eb_address" "0x1234"]
    by (simp add: Let_def TSCH_MAC_MAX_BE_def word_unat_eq_iff)
qed


lemma time_source_set:
  assumes inv: "q_inv s" and n: "n \<in> set (neighbor_list s)"
    and old: "\<And>k. k \<in> set (neighbor_list s) \<Longrightarrow> is_time_source (nbr s k) \<Longrightarrow> Some k = old"
    and oldn: "old = Some n \<Longrightarrow> is_time_source (nbr s n)"
    and s': "s' = (if Some n \<noteq> old then time_source_switch rnd old (Some n) s else s)"
  shows "q_inv s'" "neighbor_list s' = neighbor_list s" "tsch_locked s' = tsch_locked s"
    "n_addr (nbr s' k) = n_addr (nbr s k)"
    "k \<in> set (neighbor_list s) \<Longrightarrow> is_time_source (nbr s' k) \<longleftrightarrow> k = n"
proof -
  have "q_inv s' \<and> neighbor_list s' = neighbor_list s \<and> tsch_locked s' = tsch_locked s \<and>
      n_addr (nbr s' k) = n_addr (nbr s k) \<and>
      (k \<in> set (neighbor_list s) \<longrightarrow> (is_time_source (nbr s' k) \<longleftrightarrow> k = n))"
  proof (cases "old = Some n")
    case True
    then have "s' = s" by (simp add: s')
    then show ?thesis using inv old [of k] oldn True by auto
  next
    case False
    then have e: "s' = time_source_switch rnd old (Some n) s" by (simp add: s')
    show ?thesis
      using time_source_switch_inv [OF inv False old, where rnd = rnd] time_source_switch_frame
        time_source_switch_nbr [OF False] by (simp add: e)
  qed
  then show "q_inv s'" "neighbor_list s' = neighbor_list s" "tsch_locked s' = tsch_locked s"
    "n_addr (nbr s' k) = n_addr (nbr s k)"
    "k \<in> set (neighbor_list s) \<Longrightarrow> is_time_source (nbr s' k) \<longleftrightarrow> k = n"
    by blast+
qed

lemma update_time_source_NULL:
  assumes "q_inv s" "\<not> tsch_locked s" "\<not> tsch_is_coordinator s"
    and s': "s' = snd (tsch_queue_update_time_source rnd None s)"
  shows "q_inv s' \<and> (\<forall>n \<in> set (neighbor_list s'). \<not> is_time_source (nbr s' n))"
proof -
  let ?old = "tsch_queue_get_time_source s"
  have old: "Some k = ?old" if "k \<in> set (neighbor_list s)" "is_time_source (nbr s k)" for k
    using get_time_source_Some [OF assms(1,2), of k] that by simp
  have res: "s' = (if ?old \<noteq> None then time_source_switch rnd ?old None s else s)"
    using assms(2,3) by (auto simp: s' tsch_queue_update_time_source_def)
  show ?thesis
  proof (cases "?old = None")
    case True
    then have "\<not> is_time_source (nbr s k)" if "k \<in> set (neighbor_list s)" for k
      using old [OF that] by auto
    then show ?thesis using assms(1) True unfolding res by simp
  next
    case False
    note sw = time_source_switch_inv [OF assms(1) False old, where rnd = rnd]
    show ?thesis using False sw time_source_switch_frame unfolding res by simp
  qed
qed

text \<open>C34. The time source is unique: after a successful update exactly the neighbor with the given address is a
  time source (none after an update with NULL); a failed update (no neighbor block left) changes no
  flag. The invariant holds afterwards.\<close>

theorem update_time_source_unique:
  assumes "q_inv s" "\<not> tsch_locked s" "\<not> tsch_is_coordinator s" "\<forall>a. new_addr = Some a \<longrightarrow> is_linkaddr a"
  shows "case tsch_queue_update_time_source rnd new_addr s of (res, s') \<Rightarrow> q_inv s' \<and>
    (if res = 1
     then (\<forall>n \<in> set (neighbor_list s'). is_time_source (nbr s' n) \<longleftrightarrow> new_addr = Some (n_addr (nbr s' n))) \<and>
          (new_addr \<noteq> None \<longrightarrow> tsch_queue_get_time_source s' \<noteq> None)
     else res = 0 \<and> new_addr \<noteq> None \<and> memb_numfree (neighbor_memb s) = 0 \<and>
          (\<forall>n. is_time_source (nbr s' n) = is_time_source (nbr s n)))"
proof (cases new_addr)
  case None
  then have "fst (tsch_queue_update_time_source rnd new_addr s) = 1"
    using assms(2,3) by (simp add: tsch_queue_update_time_source_def Let_def)
  then show ?thesis
    using update_time_source_NULL [OF assms(1-3) refl, of rnd] None by (simp add: split_beta)
next
  case (Some a)
  then have a: "is_linkaddr a" using assms(4) by simp
  obtain r s1 where e: "tsch_queue_add_nbr a s = (r, s1)" by (cases "tsch_queue_add_nbr a s")
  have ad: "nbr_added a s r s1" using add_nbr_spec [OF assms(1) a assms(2)] e by simp
  note d = nbr_addedD [OF ad]
  show ?thesis
  proof (cases r)
    case None
    have "neighbor_memb s1 = neighbor_memb s" "memb_numfree (neighbor_memb s) = 0"
      using ad None by (simp_all add: nbr_added_def)
    moreover have "tsch_queue_update_time_source rnd new_addr s = (0, s1)"
      using None Some e assms(2,3) by (simp add: tsch_queue_update_time_source_def)
    ultimately show ?thesis using d(1) Some by simp
  next
    case r: (Some n)
    let ?old = "tsch_queue_get_time_source s"
    define s' where "s' = (if Some n \<noteq> ?old then time_source_switch rnd ?old (Some n) s1 else s1)"
    have res: "tsch_queue_update_time_source rnd new_addr s = (1, s')"
      using Some r e assms(2,3) by (simp add: tsch_queue_update_time_source_def s'_def)
    have n: "n \<in> set (neighbor_list s1)" "n_addr (nbr s1 n) = a" using d(5,6) r by auto
    have old1: "Some k = ?old" if "k \<in> set (neighbor_list s1)" "is_time_source (nbr s1 k)" for k
      using that get_time_source_Some [OF assms(1,2), of k] d(3,7,8) [of k] nbr_new_ok(4) [OF a]
      by (cases "k \<in> set (neighbor_list s)") auto
    have oldn: "is_time_source (nbr s1 n)" if "?old = Some n"
      using that get_time_source_Some [OF assms(1,2), of n] d(3) [of n] by simp
    note st = time_source_set [OF d(1) n(1) old1 oldn s'_def]
    have uniq: "k = n \<longleftrightarrow> n_addr (nbr s1 k) = a" if "k \<in> set (neighbor_list s1)" for k
      using inj_onD [OF q_invD(4) [OF d(1)], of k n] n that by auto
    have "tsch_queue_get_time_source s' = Some n"
      using get_time_source_Some [OF st(1), of n] st(2,3,5) n d(2) by simp
    moreover have "is_time_source (nbr s' k) \<longleftrightarrow> n_addr (nbr s' k) = a" if "k \<in> set (neighbor_list s')" for k
      using st(4,5) [of k] uniq [of k] that st(2) by simp
    ultimately show ?thesis
      using res st(1) Some by auto
  qed
qed

theorem update_time_source_unique_witness:
  "is_linkaddr [1, 2, 3, 4, 5, 6, 7, 8] \<and>
   (case tsch_queue_update_time_source 0 (Some [1, 2, 3, 4, 5, 6, 7, 8]) tsch_boot of (res, s') \<Rightarrow>
     res = 1 \<and> tsch_queue_get_time_source s' \<noteq> None)"
  using update_time_source_unique [of tsch_boot "Some [1, 2, 3, 4, 5, 6, 7, 8]" 0] tsch_boot_spec tsch_boot_free
  by (auto simp: is_linkaddr_def LINKADDR_SIZE_def split: prod.splits if_splits)

text \<open>C35. \<open>tsch_queue_reset\<close> terminates and empties every queue: each queued packet is reported once, in
  order, with status \<open>MAC_TX_ERR\<close> and its own transmission count, its blocks are freed, every
  backoff is reset, and the neighbors stay.\<close>

theorem queue_reset_flushes:
  assumes "q_inv s" "\<not> tsch_locked s"
  shows "\<exists>s'. tsch_queue_reset s = Some s' \<and> reset_done (neighbor_list s) s s'"
  using reset_loop_done [OF assms subset_refl q_invD(2) [OF assms(1)]] assms(2)
  by (simp add: tsch_queue_reset_def)

theorem queue_reset_flushes_witness:
  "\<exists>s'. tsch_queue_reset tsch_boot = Some s' \<and> reset_done (neighbor_list tsch_boot) tsch_boot s'"
  using queue_reset_flushes [of tsch_boot] tsch_boot_spec by blast

text \<open>Releasing unused neighbors terminates, keeps the invariant, and removes exactly the listed neighbors that are
  not broadcast, not the time source, without transmit links and with an empty queue; the
  others keep their place and state, and no packet is lost.\<close>

theorem free_unused_exact:
  assumes "q_inv s" "\<not> tsch_locked s"
  shows "\<exists>s'. tsch_queue_free_unused_neighbors s = Some s' \<and> q_inv s' \<and>
    neighbor_list s' = filter (\<lambda>n. nbr_needed (nbr s n)) (neighbor_list s) \<and>
    (\<forall>n \<in> set (neighbor_list s'). nbr s' n = nbr s n) \<and>
    memb_used (packet_memb s') = memb_used (packet_memb s)"
proof -
  have "filter (\<lambda>n. n \<in> set (neighbor_list s) \<longrightarrow> nbr_needed (nbr s n)) (neighbor_list s)
      = filter (\<lambda>n. nbr_needed (nbr s n)) (neighbor_list s)"
    by (rule filter_cong) simp_all
  then show ?thesis
    using free_unused_loop_spec [OF assms subset_refl q_invD(2) [OF assms(1)]] assms(2)
    by (simp add: tsch_queue_free_unused_neighbors_def)
qed

theorem free_unused_exact_witness:
  "\<exists>s'. tsch_queue_free_unused_neighbors tsch_boot = Some s' \<and> q_inv s' \<and>
     neighbor_list s' = filter (\<lambda>n. nbr_needed (nbr tsch_boot n)) (neighbor_list tsch_boot)"
  using free_unused_exact [of tsch_boot] tsch_boot_spec by blast


text \<open>The packet a neighbor offers for a link: the oldest one, unless the link is shared and the neighbor
  is backing off.\<close>

definition shared_link :: "tsch \<Rightarrow> nat option \<Rightarrow> bool" where
  "shared_link s l \<longleftrightarrow> (case l of None \<Rightarrow> False | Some i \<Rightarrow> link_options (link s i) AND LINK_OPTION_SHARED \<noteq> 0)"

definition offers_packet :: "tsch \<Rightarrow> nat option \<Rightarrow> nat \<Rightarrow> bool" where
  "offers_packet s l n \<longleftrightarrow> nbr_queue (nbr s n) \<noteq> [] \<and> (shared_link s l \<longrightarrow> backoff_window (nbr s n) = 0)"

lemma get_packet_for_nbr_eq:
  assumes "nbr_ok (nbr s n)" "\<not> tsch_locked s"
  shows "tsch_queue_get_packet_for_nbr (Some n) l s =
    (if offers_packet s l n then Some (hd (nbr_queue (nbr s n))) else None)"
proof (cases "nbr_queue (nbr s n)")
  case Nil
  then show ?thesis
    using nbr_get_Nil(2) [OF assms(1) Nil] assms(2)
    by (simp add: tsch_queue_get_packet_for_nbr_def offers_packet_def Let_def)
next
  case (Cons p ps)
  obtain i where "i \<noteq> -1" "tx_array (nbr s n) ! nat i = Some p"
      "ringbufindex_peek_get (tx_ringbuf (nbr s n)) = i"
    using nbr_get_Cons [OF assms(1) Cons] by blast
  then show ?thesis
    using Cons assms(2) by (auto simp: tsch_queue_get_packet_for_nbr_def offers_packet_def shared_link_def
        Let_def tsch_queue_backoff_expired_def split: option.splits)
qed

lemma unicast_loop_eq:
  assumes "\<not> tsch_locked s" "\<And>n. n \<in> set ns \<Longrightarrow> nbr_ok (nbr s n)"
  shows "unicast_packet_loop ns l s = map_option (\<lambda>n. (hd (nbr_queue (nbr s n)), n))
    (find (\<lambda>n. \<not> is_broadcast (nbr s n) \<and> tx_links_count (nbr s n) = 0 \<and> offers_packet s l n) ns)"
  using assms by (induction ns) (auto simp: get_packet_for_nbr_eq)

text \<open>Packet selection for a link without a fixed neighbor: the result is the oldest packet of the first listed
  unicast neighbor without a dedicated transmit link that has a packet and, on a shared link,
  is not backing off; NULL exactly when there is none.\<close>

theorem unicast_selection:
  assumes "q_inv s" "\<not> tsch_locked s"
  shows "tsch_queue_get_unicast_packet_for_any l s = map_option (\<lambda>n. (hd (nbr_queue (nbr s n)), n))
    (find (\<lambda>n. \<not> is_broadcast (nbr s n) \<and> tx_links_count (nbr s n) = 0 \<and> offers_packet s l n) (neighbor_list s))"
  using unicast_loop_eq [OF assms(2), of "neighbor_list s" l] q_coreD(1) [OF q_invD(5) [OF assms(1)]] assms(2)
  by (simp add: tsch_queue_get_unicast_packet_for_any_def)

theorem unicast_selection_witness:
  "tsch_queue_get_unicast_packet_for_any None tsch_boot = None"
proof -
  have "find (\<lambda>n. \<not> is_broadcast (nbr tsch_boot n) \<and> tx_links_count (nbr tsch_boot n) = 0 \<and>
      offers_packet tsch_boot None n) (neighbor_list tsch_boot) = None"
    using tsch_boot_queues by (auto simp: find_None_iff offers_packet_def)
  then show ?thesis
    using unicast_selection [of tsch_boot None] tsch_boot_spec by simp
qed

lemma backoff_loop_nbr:
  "distinct ns \<Longrightarrow> nbr (backoff_loop dest ns s) n =
    (if n \<in> set ns \<and> backoff_due dest (nbr s n)
     then (nbr s n)\<lparr>backoff_window := backoff_window (nbr s n) - 1\<rparr> else nbr s n)"
  by (induction ns arbitrary: s) auto

lemma backoff_dec_ok:
  assumes "nbr_ok x" "backoff_window x \<noteq> 0"
  shows "nbr_ok (x\<lparr>backoff_window := backoff_window x - 1\<rparr>)"
proof -
  have "backoff_window x - 1 \<le> backoff_window x"
    using assms(2) by (simp add: word_le_nat_alt unat_minus_one)
  then show ?thesis using assms(1) unfolding nbr_ok_def by (auto intro: order_trans)
qed

lemma backoff_loop_inv:
  "q_inv s \<Longrightarrow> set ns \<subseteq> set (neighbor_list s) \<Longrightarrow> q_inv (backoff_loop dest ns s)"
proof (induction ns arbitrary: s)
  case (Cons n ns)
  let ?s = "if backoff_due dest (nbr s n)
            then nbr_upd n (\<lambda>x. x\<lparr>backoff_window := backoff_window x - 1\<rparr>) s else s"
  have ok: "nbr_ok (nbr s n)" "distinct (nbr_queue (nbr s n))"
    using q_coreD [OF q_invD(5) [OF Cons.prems(1)], of n] Cons.prems(2) by auto
  have q: "nbr_queue ((nbr s n)\<lparr>backoff_window := w\<rparr>) = nbr_queue (nbr s n)" for w
    by (simp add: nbr_queue_def)
  have "q_inv ?s"
    using Cons.prems(1) ok backoff_dec_ok [OF ok(1)] q
    by (auto simp: backoff_due_def intro!: q_inv_nbr_upd)
  then show ?case using Cons.IH [of ?s] Cons.prems(2) by simp
qed simp

text \<open>The end-of-slot backoff sweep decrements, by exactly one and never below zero, the windows of the
  neighbors the slot concerned: for a broadcast slot those without transmit links, for a dedicated
  destination that neighbor if it has transmit links; nothing else changes.\<close>

theorem backoff_sweep_exact:
  assumes "q_inv s" "\<not> tsch_locked s"
  shows "q_inv (tsch_queue_update_all_backoff_windows dest s) \<and>
    nbr (tsch_queue_update_all_backoff_windows dest s) n =
      (if n \<in> set (neighbor_list s) \<and> backoff_due dest (nbr s n)
       then (nbr s n)\<lparr>backoff_window := backoff_window (nbr s n) - 1\<rparr> else nbr s n)"
  using backoff_loop_inv [OF assms(1) subset_refl] backoff_loop_nbr [OF q_invD(2) [OF assms(1)]] assms(2)
  by (simp add: tsch_queue_update_all_backoff_windows_def)

theorem backoff_sweep_exact_witness:
  "q_inv (tsch_queue_update_all_backoff_windows tsch_broadcast_address tsch_boot)"
  using backoff_sweep_exact [of tsch_boot tsch_broadcast_address] tsch_boot_spec by blast

text \<open>Initialisation establishes the invariant: starting from the zeroed memory, both virtual neighbors exist, with
  their addresses, and no packet is allocated.\<close>

theorem queue_init_establishes:
  "q_inv (tsch_queue_init tsch_zero) \<and>
   (\<exists>e b. n_eb (tsch_queue_init tsch_zero) = Some e \<and> n_broadcast (tsch_queue_init tsch_zero) = Some b \<and>
      n_addr (nbr (tsch_queue_init tsch_zero) e) = tsch_eb_address \<and>
      n_addr (nbr (tsch_queue_init tsch_zero) b) = tsch_broadcast_address) \<and>
   tsch_queue_global_packet_count (tsch_queue_init tsch_zero) = 0"
proof -
  have z: "\<not> tsch_locked tsch_zero" "qb_inv (qbs tsch_zero)" "2 \<le> mb_num (neighbor_memb tsch_zero)"
    by (simp_all add: tsch_zero_fields qb_zero_inv)
  have "tsch_queue_global_packet_count (tsch_queue_init tsch_zero) = 0"
    using tsch_boot_spec
    by (simp add: tsch_boot_def tsch_queue_global_packet_count_def memb_numfree_eq QUEUEBUF_NUM_def)
  then show ?thesis
    using tsch_queue_init_spec [OF z] by metis
qed

end
