(* ===== verification/TschSchedule.thy ===== *)
theory TschSchedule
  imports TschQueue
begin

text \<open>
  The TSCH schedule of \<^verbatim>\<open>os/net/mac/tsch/tsch-schedule.c\<close>: slotframes with their links, the
  neighbor counters they maintain through the queue module, and the search for the next active link.
  The \<open>radio\<close>, \<open>cc1200_config\<close> and \<open>tsch_timing\<close> pointers of a slotframe select driver
  settings, are only stored by this module and are left out; so are the log messages.
\<close>

section \<open>Lookups\<close>

definition tsch_schedule_get_slotframe_by_handle :: "u16 \<Rightarrow> tsch \<Rightarrow> nat option" where
  "tsch_schedule_get_slotframe_by_handle h s =
     (if \<not> tsch_is_locked s then find (\<lambda>f. sf_handle (sframe s f) = h) (slotframe_list s) else None)"

fun link_by_handle_loop :: "u16 \<Rightarrow> nat list \<Rightarrow> tsch \<Rightarrow> nat option" where
  "link_by_handle_loop h [] s = None"
| "link_by_handle_loop h (f # fs) s =
     (case find (\<lambda>l. l_handle (link s l) = h) (links_list (sframe s f)) of
        Some l \<Rightarrow> Some l | None \<Rightarrow> link_by_handle_loop h fs s)"

definition tsch_schedule_get_link_by_handle :: "u16 \<Rightarrow> tsch \<Rightarrow> nat option" where
  "tsch_schedule_get_link_by_handle h s =
     (if \<not> tsch_is_locked s then link_by_handle_loop h (slotframe_list s) s else None)"

definition tsch_schedule_get_link_by_timeslot :: "nat option \<Rightarrow> u16 \<Rightarrow> tsch \<Rightarrow> nat option" where
  "tsch_schedule_get_link_by_timeslot sf ts s =
     (if \<not> tsch_is_locked s then
        (case sf of None \<Rightarrow> None
         | Some f \<Rightarrow> find (\<lambda>l. timeslot (link s l) = ts) (links_list (sframe s f)))
      else None)"

section \<open>Changing the schedule\<close>

definition tsch_schedule_add_slotframe :: "u16 \<Rightarrow> u16 \<Rightarrow> tsch \<Rightarrow> nat option \<times> tsch" where
  "tsch_schedule_add_slotframe h sz s =
     (if sz = 0 then (None, s)
      else if tsch_schedule_get_slotframe_by_handle h s \<noteq> None then (None, s)
      else
        (let (ok, s1) = tsch_get_lock s in
         if ok then
           (case memb_alloc (slotframe_memb s1) of
              (None, m) \<Rightarrow> (None, tsch_release_lock (s1\<lparr>slotframe_memb := m\<rparr>))
            | (Some f, m) \<Rightarrow>
                (let s2 = sf_upd f (\<lambda>x. x\<lparr>sf_handle := h, sf_size := TSCH_ASN_DIVISOR_INIT sz, links_list := []\<rparr>)
                            (s1\<lparr>slotframe_memb := m\<rparr>);
                     s3 = s2\<lparr>slotframe_list := alist_add f (slotframe_list s2)\<rparr>
                 in (Some f, tsch_release_lock s3)))
         else (None, s1)))"

text \<open>The neighbor counters kept in sync with the transmit links.\<close>

definition count_tx_link :: "(u8 \<Rightarrow> u8) \<Rightarrow> u8 \<Rightarrow> linkaddr \<Rightarrow> tsch \<Rightarrow> tsch" where
  "count_tx_link chg opts a s =
     (if opts AND LINK_OPTION_TX \<noteq> 0 then
        (case tsch_queue_add_nbr a s of
           (None, s1) \<Rightarrow> s1
         | (Some n, s1) \<Rightarrow>
             nbr_upd n (\<lambda>x. x\<lparr>tx_links_count := chg (tx_links_count x),
               dedicated_tx_links_count := (if opts AND LINK_OPTION_SHARED = 0
                 then chg (dedicated_tx_links_count x) else dedicated_tx_links_count x)\<rparr>) s1)
      else s)"

definition tsch_schedule_remove_link :: "nat option \<Rightarrow> nat option \<Rightarrow> tsch \<Rightarrow> int \<times> tsch" where
  "tsch_schedule_remove_link sf lk s =
     (case (sf, lk) of
        (Some f, Some l) \<Rightarrow>
          if slotframe_handle (link s l) = sf_handle (sframe s f) then
            (let (ok, s1) = tsch_get_lock s in
             if ok then
               (let opts = link_options (link s1 l);
                    a = linkaddr_copy linkaddr_null (l_addr (link s1 l));
                    s2 = (if Some l = current_link s1 then s1\<lparr>current_link := None\<rparr> else s1);
                    s3 = sf_upd f (\<lambda>x. x\<lparr>links_list := remove1 l (links_list x)\<rparr>) s2;
                    s4 = tsch_release_lock (s3\<lparr>link_memb := snd (memb_free l (link_memb s3))\<rparr>)
                in (1, count_tx_link (\<lambda>c. c - 1) opts a s4))
             else (0, s1))
          else (0, s)
      | _ \<Rightarrow> (0, s))"

definition tsch_schedule_remove_link_by_timeslot :: "nat option \<Rightarrow> u16 \<Rightarrow> tsch \<Rightarrow> int \<times> tsch" where
  "tsch_schedule_remove_link_by_timeslot sf ts s =
     (if sf \<noteq> None
      then tsch_schedule_remove_link sf (tsch_schedule_get_link_by_timeslot sf ts s) s
      else (0, s))"

definition tsch_schedule_add_link ::
    "nat option \<Rightarrow> u8 \<Rightarrow> link_type \<Rightarrow> linkaddr option \<Rightarrow> u16 \<Rightarrow> u16 \<Rightarrow> tsch \<Rightarrow> nat option \<times> tsch" where
  "tsch_schedule_add_link sf opts lt addr ts co s =
     (case sf of None \<Rightarrow> (None, s)
      | Some f \<Rightarrow>
          if uint ts > uint (div_val (sf_size (sframe s f))) - 1 then (None, s)
          else if co > 15 then (None, s)
          else
            (let s0 = snd (tsch_schedule_remove_link_by_timeslot sf ts s);
                 (ok, s1) = tsch_get_lock s0
             in if \<not> ok then (None, s1)
                else
                  (case memb_alloc (link_memb s1) of
                     (None, m) \<Rightarrow> (None, tsch_release_lock (s1\<lparr>link_memb := m\<rparr>))
                   | (Some l, m) \<Rightarrow>
                       (let s2 = sf_upd f (\<lambda>x. x\<lparr>links_list := alist_add l (links_list x)\<rparr>) (s1\<lparr>link_memb := m\<rparr>);
                            a = (case addr of None \<Rightarrow> linkaddr_null | Some x \<Rightarrow> x);
                            s3 = link_upd l (\<lambda>_. \<lparr>l_handle = word_of_int (current_link_handle s2),
                                   l_addr = linkaddr_copy linkaddr_null a,
                                   slotframe_handle = sf_handle (sframe s2 f), timeslot = ts,
                                   channel_offset = co, link_options = opts, l_type = lt\<rparr>) s2;
                            s4 = tsch_release_lock (s3\<lparr>current_link_handle := current_link_handle s3 + 1\<rparr>)
                        in (Some l, count_tx_link (\<lambda>c. c + 1) (link_options (link s4 l)) (l_addr (link s4 l)) s4)))))"

text \<open>The loop that empties a slotframe removes the head link until there is none; it does not return if a
  removal fails.\<close>

partial_function (option) remove_links_loop :: "nat \<Rightarrow> tsch \<Rightarrow> tsch option" where
  "remove_links_loop f s =
     (case links_list (sframe s f) of
        [] \<Rightarrow> Some s
      | l # _ \<Rightarrow> remove_links_loop f (snd (tsch_schedule_remove_link (Some f) (Some l) s)))"

definition tsch_schedule_remove_slotframe :: "nat option \<Rightarrow> tsch \<Rightarrow> (int \<times> tsch) option" where
  "tsch_schedule_remove_slotframe sf s =
     (case sf of None \<Rightarrow> Some (0, s)
      | Some f \<Rightarrow>
          (case remove_links_loop f s of None \<Rightarrow> None
           | Some s1 \<Rightarrow>
               (let (ok, s2) = tsch_get_lock s1 in
                if ok then
                  (let s3 = s2\<lparr>slotframe_memb := snd (memb_free f (slotframe_memb s2))\<rparr>;
                       s4 = s3\<lparr>slotframe_list := remove1 f (slotframe_list s3)\<rparr>
                   in Some (1, tsch_release_lock s4))
                else Some (0, s2))))"

partial_function (option) tsch_schedule_remove_all_slotframes :: "tsch \<Rightarrow> (int \<times> tsch) option" where
  "tsch_schedule_remove_all_slotframes s =
     (case slotframe_list s of
        [] \<Rightarrow> Some (1, s)
      | f # _ \<Rightarrow>
          (case tsch_schedule_remove_slotframe (Some f) s of None \<Rightarrow> None
           | Some (r, s1) \<Rightarrow> if r = 0 then Some (0, s1) else tsch_schedule_remove_all_slotframes s1))"

definition tsch_schedule_init :: "tsch \<Rightarrow> int \<times> tsch" where
  "tsch_schedule_init s =
     (let (ok, s1) = tsch_get_lock s in
      if ok then
        (1, tsch_release_lock (s1\<lparr>link_memb := memb_init link_zero (link_memb s1),
              slotframe_memb := memb_init sf_zero (slotframe_memb s1), slotframe_list := []\<rparr>))
      else (0, s1))"

text \<open>Finally the code writes through \<open>sf_min\<close> (its radio configuration), which must not be NULL.\<close>

definition tsch_schedule_create_minimal :: "tsch \<Rightarrow> tsch option" where
  "tsch_schedule_create_minimal s =
     (case tsch_schedule_remove_all_slotframes s of None \<Rightarrow> None
      | Some (_, s1) \<Rightarrow>
          (let (sf_min, s2) = tsch_schedule_add_slotframe 0 TSCH_SCHEDULE_DEFAULT_LENGTH s1;
               (_, s3) = tsch_schedule_add_link sf_min
                 (LINK_OPTION_RX OR LINK_OPTION_TX OR LINK_OPTION_SHARED OR LINK_OPTION_TIME_KEEPING)
                 LINK_TYPE_ADVERTISING (Some tsch_broadcast_address) 0 0 s2
           in if sf_min = None then None else Some s3))"

definition tsch_schedule_slotframe_head :: "tsch \<Rightarrow> nat option" where
  "tsch_schedule_slotframe_head s = (case slotframe_list s of [] \<Rightarrow> None | f # _ \<Rightarrow> Some f)"

section \<open>The next active link\<close>

text \<open>The loop variables: time to the best link, the best link and the backup link.\<close>

record next_link =
  time_to_curr_best :: u16
  curr_best :: "nat option"
  curr_backup :: "nat option"

definition time_to_timeslot :: "u16 \<Rightarrow> u16 \<Rightarrow> u16 \<Rightarrow> u16" where
  "time_to_timeslot sz now ts =
     (if ts > now then ts - now else word_of_int (uint sz + uint ts - uint now))"

definition has_tx :: "tsch \<Rightarrow> nat \<Rightarrow> bool" where
  "has_tx s l \<longleftrightarrow> link_options (link s l) AND LINK_OPTION_TX \<noteq> 0"

definition has_rx :: "tsch \<Rightarrow> nat \<Rightarrow> bool" where
  "has_rx s l \<longleftrightarrow> link_options (link s l) AND LINK_OPTION_RX \<noteq> 0"

text \<open>The choice between the current best link and an overlapping one: None keeps the current best.\<close>

definition overlap_choice :: "tsch \<Rightarrow> nat \<Rightarrow> nat \<Rightarrow> nat option" where
  "overlap_choice s best l =
     (if link_options (link s best) AND LINK_OPTION_TX = link_options (link s l) AND LINK_OPTION_TX
      then if slotframe_handle (link s l) < slotframe_handle (link s best) then Some l else None
      else if has_tx s l then Some l else None)"

definition overlap_backup :: "tsch \<Rightarrow> nat option \<Rightarrow> nat \<Rightarrow> nat \<Rightarrow> nat option \<Rightarrow> nat option" where
  "overlap_backup s new_best best l backup =
     (if backup = None then
        (let b1 = (if new_best \<noteq> Some l \<and> has_rx s l then Some l else None)
         in if new_best \<noteq> Some best \<and> has_rx s best then Some best else b1)
      else backup)"

definition next_link_step :: "tsch \<Rightarrow> u16 \<Rightarrow> u16 \<Rightarrow> nat \<Rightarrow> next_link \<Rightarrow> next_link" where
  "next_link_step s sz now l acc =
     (let t = time_to_timeslot sz now (timeslot (link s l)) in
      case curr_best acc of
        None \<Rightarrow> \<lparr>time_to_curr_best = t, curr_best = Some l, curr_backup = None\<rparr>
      | Some best \<Rightarrow>
          if t < time_to_curr_best acc
          then \<lparr>time_to_curr_best = t, curr_best = Some l, curr_backup = None\<rparr>
          else if t = time_to_curr_best acc
          then (let new_best = overlap_choice s best l in
                acc\<lparr>curr_backup := overlap_backup s new_best best l (curr_backup acc),
                    curr_best := (if new_best \<noteq> None then new_best else Some best)\<rparr>)
          else acc)"

definition next_link_slotframe :: "tsch \<Rightarrow> tsch_asn_t \<Rightarrow> nat \<Rightarrow> next_link \<Rightarrow> next_link" where
  "next_link_slotframe s asn f acc =
     (let now = TSCH_ASN_MOD asn (sf_size (sframe s f)) in
      foldl (\<lambda>a l. next_link_step s (div_val (sf_size (sframe s f))) now l a) acc (links_list (sframe s f)))"

text \<open>The result is the link, the time offset (not written when TSCH is locked) and the backup link.\<close>

definition tsch_schedule_get_next_active_link ::
    "tsch_asn_t \<Rightarrow> tsch \<Rightarrow> nat option \<times> u16 option \<times> nat option" where
  "tsch_schedule_get_next_active_link asn s =
     (if \<not> tsch_is_locked s then
        (let r = foldl (\<lambda>a f. next_link_slotframe s asn f a)
                   \<lparr>time_to_curr_best = 0, curr_best = None, curr_backup = None\<rparr> (slotframe_list s)
         in (curr_best r, Some (time_to_curr_best r), curr_backup r))
      else (None, None, None))"

end
