(* ===== verification/NextLink.thy ===== *)
theory NextLink
  imports TschSchedule
begin

text \<open>
  Correctness of \<open>tsch_schedule_get_next_active_link\<close>. A candidate is a slotframe with one of its links. The
  slot distance of a candidate is the number of slots from the current ASN to the next occurrence of its
  timeslot; candidates are ordered by distance, then transmit links first, then by slotframe handle.
  The scan over all slotframes and links keeps the least candidate seen so far.
\<close>

definition candidates :: "tsch \<Rightarrow> (nat \<times> nat) list" where
  "candidates s = concat (map (\<lambda>f. map (\<lambda>l. (f, l)) (links_list (sframe s f))) (slotframe_list s))"

definition slot_dist :: "tsch \<Rightarrow> tsch_asn_t \<Rightarrow> nat \<times> nat \<Rightarrow> u16" where
  "slot_dist s asn c = time_to_timeslot (div_val (sf_size (sframe s (fst c))))
     (TSCH_ASN_MOD asn (sf_size (sframe s (fst c)))) (timeslot (link s (snd c)))"

text \<open>\<open>preferred s asn c d\<close>: candidate \<open>c\<close> is at least as good as \<open>d\<close>.\<close>

definition preferred :: "tsch \<Rightarrow> tsch_asn_t \<Rightarrow> nat \<times> nat \<Rightarrow> nat \<times> nat \<Rightarrow> bool" where
  "preferred s asn c d \<longleftrightarrow> slot_dist s asn c < slot_dist s asn d \<or>
     slot_dist s asn c = slot_dist s asn d \<and>
       (has_tx s (snd c) \<and> \<not> has_tx s (snd d) \<or>
        has_tx s (snd c) = has_tx s (snd d) \<and>
          slotframe_handle (link s (snd c)) \<le> slotframe_handle (link s (snd d)))"

lemma preferred_refl [simp]: "preferred s asn c c"
  by (simp add: preferred_def)

lemma preferred_trans: "preferred s asn c d \<Longrightarrow> preferred s asn d e \<Longrightarrow> preferred s asn c e"
  unfolding preferred_def by force

lemma tx_bit_eq:
  "link_options (link s a) AND LINK_OPTION_TX = link_options (link s b) AND LINK_OPTION_TX
     \<longleftrightarrow> has_tx s a = has_tx s b"
proof -
  have "w AND LINK_OPTION_TX = (if bit w 0 then 1 else 0)" for w :: u8
    by (simp add: LINK_OPTION_TX_def and_one_eq odd_iff_mod_2_eq_one bit_0)
  then show ?thesis by (simp add: has_tx_def)
qed

lemma overlap_choice_cases:
  assumes "slot_dist s asn (f, b) = slot_dist s asn (g, l)"
  shows "(overlap_choice s b l = Some l \<and> preferred s asn (g, l) (f, b)) \<or>
         (overlap_choice s b l = None \<and> preferred s asn (f, b) (g, l))"
  using assms by (auto simp: overlap_choice_def tx_bit_eq preferred_def not_less)

text \<open>The loop invariant after the candidates \<open>cs\<close>. A backup link has the Rx option and falls in the same slot
  as the best link; without one, no other link of that slot has the Rx option.\<close>

definition backup_ok :: "tsch \<Rightarrow> tsch_asn_t \<Rightarrow> (nat \<times> nat) list \<Rightarrow> nat \<times> nat \<Rightarrow> nat option \<Rightarrow> bool" where
  "backup_ok s asn cs c bk \<longleftrightarrow> (case bk of
       Some b \<Rightarrow> has_rx s b \<and> (\<exists>f. (f, b) \<in> set cs \<and> slot_dist s asn (f, b) = slot_dist s asn c)
     | None \<Rightarrow> \<forall>d \<in> set cs. slot_dist s asn d = slot_dist s asn c \<and> snd d \<noteq> snd c \<longrightarrow> \<not> has_rx s (snd d))"

definition best_of :: "tsch \<Rightarrow> tsch_asn_t \<Rightarrow> (nat \<times> nat) list \<Rightarrow> next_link \<Rightarrow> bool" where
  "best_of s asn cs acc \<longleftrightarrow>
     (if cs = [] then curr_best acc = None \<and> curr_backup acc = None
      else \<exists>c \<in> set cs. curr_best acc = Some (snd c) \<and> time_to_curr_best acc = slot_dist s asn c \<and>
        (\<forall>d \<in> set cs. preferred s asn c d) \<and>
        backup_ok s asn cs c (curr_backup acc))"

lemma best_of_step:
  assumes "best_of s asn cs acc"
  shows "best_of s asn (cs @ [(f, l)]) (next_link_step s (div_val (sf_size (sframe s f)))
           (TSCH_ASN_MOD asn (sf_size (sframe s f))) l acc)"
proof -
  let ?t = "slot_dist s asn (f, l)"
  have t: "time_to_timeslot (div_val (sf_size (sframe s f))) (TSCH_ASN_MOD asn (sf_size (sframe s f)))
      (timeslot (link s l)) = ?t"
    by (simp add: slot_dist_def)
  show ?thesis
  proof (cases "cs = []")
    case True
    then show ?thesis using assms by (simp add: best_of_def backup_ok_def next_link_step_def Let_def t)
  next
    case False
    then obtain c where c0: "c \<in> set cs" "curr_best acc = Some (snd c)"
        "time_to_curr_best acc = slot_dist s asn c" "\<forall>d \<in> set cs. preferred s asn c d"
        "backup_ok s asn cs c (curr_backup acc)"
      using assms unfolding best_of_def by auto
    obtain g b where gb: "c = (g, b)" by (cases c)
    note c = c0(1-4) [unfolded gb snd_conv] and bk = c0(5) [unfolded gb backup_ok_def snd_conv]
    have far: "slot_dist s asn (g, b) \<le> slot_dist s asn d" if "d \<in> set cs" for d
      using c(4) that by (auto simp: preferred_def)
    consider (less) "?t < slot_dist s asn (g, b)" | (eq) "?t = slot_dist s asn (g, b)"
      | (more) "slot_dist s asn (g, b) < ?t" by fastforce
    then show ?thesis
    proof cases
      case less
      have "preferred s asn (f, l) d" if "d \<in> set cs" for d
        using less far [OF that] by (auto simp: preferred_def)
      moreover have "slot_dist s asn d \<noteq> ?t" if "d \<in> set cs" for d
        using less far [OF that] by auto
      ultimately show ?thesis
        using less c by (auto simp: best_of_def backup_ok_def next_link_step_def Let_def t)
    next
      case more
      then have "preferred s asn (g, b) (f, l)" by (simp add: preferred_def)
      moreover have "next_link_step s (div_val (sf_size (sframe s f)))
          (TSCH_ASN_MOD asn (sf_size (sframe s f))) l acc = acc"
        using more c by (auto simp: next_link_step_def Let_def t)
      ultimately show ?thesis
        using more c bk unfolding best_of_def backup_ok_def
        by (auto split: option.splits intro!: bexI [of _ "(g, b)"])
    next
      case eq
      let ?nb = "overlap_choice s b l"
      have step: "next_link_step s (div_val (sf_size (sframe s f))) (TSCH_ASN_MOD asn (sf_size (sframe s f))) l acc
          = acc\<lparr>curr_backup := overlap_backup s ?nb b l (curr_backup acc),
                curr_best := (if ?nb \<noteq> None then ?nb else Some b)\<rparr>"
        using eq c by (simp add: next_link_step_def Let_def t)
      consider (new) "?nb = Some l" "preferred s asn (f, l) (g, b)" | (old) "?nb = None" "preferred s asn (g, b) (f, l)"
        using overlap_choice_cases [of s asn g b f l] eq by auto
      then show ?thesis
      proof cases
        case new
        then have "\<forall>d \<in> set cs. preferred s asn (f, l) d" using c(4) preferred_trans by blast
        then show ?thesis
          using new(1) eq c bk unfolding step best_of_def backup_ok_def
          by (auto simp: overlap_backup_def Let_def split: option.splits if_splits intro!: bexI [of _ "(f, l)"])
      next
        case old
        then show ?thesis
          using eq c bk unfolding step best_of_def backup_ok_def
          by (auto simp: overlap_backup_def Let_def split: option.splits if_splits intro!: bexI [of _ "(g, b)"])
      qed
    qed
  qed
qed


lemma best_of_links:
  "best_of s asn cs acc \<Longrightarrow> best_of s asn (cs @ map (\<lambda>l. (f, l)) ls)
    (foldl (\<lambda>a l. next_link_step s (div_val (sf_size (sframe s f))) (TSCH_ASN_MOD asn (sf_size (sframe s f))) l a) acc ls)"
proof (induction ls arbitrary: cs acc)
  case (Cons l ls)
  from Cons.IH [OF best_of_step [OF Cons.prems, of f l]] show ?case by simp
qed simp

lemma best_of_slotframes:
  "best_of s asn cs acc \<Longrightarrow>
   best_of s asn (cs @ concat (map (\<lambda>f. map (\<lambda>l. (f, l)) (links_list (sframe s f))) fs))
     (foldl (\<lambda>a f. next_link_slotframe s asn f a) acc fs)"
proof (induction fs arbitrary: cs acc)
  case (Cons f fs)
  have "best_of s asn (cs @ map (\<lambda>l. (f, l)) (links_list (sframe s f))) (next_link_slotframe s asn f acc)"
    using best_of_links [OF Cons.prems] by (simp add: next_link_slotframe_def Let_def)
  from Cons.IH [OF this] show ?case by simp
qed simp

section \<open>Distances\<close>

lemma time_to_timeslot_exact:
  assumes "ts < sz" "now < sz"
  shows "unat (time_to_timeslot sz now ts) = (if now < ts then unat ts - unat now else unat sz + unat ts - unat now)"
    "0 < unat (time_to_timeslot sz now ts)" "unat (time_to_timeslot sz now ts) \<le> unat sz"
    "(unat now + unat (time_to_timeslot sz now ts)) mod unat sz = unat ts"
proof -
  let ?d = "if now < ts then unat ts - unat now else unat sz + unat ts - unat now"
  have b: "unat ts < unat sz" "unat now < unat sz"
    using assms by (simp_all add: word_less_nat_alt)
  have sum: "uint sz + uint ts - uint now = int (unat sz + unat ts - unat now)" if "\<not> now < ts"
    using b that unfolding uint_nat by (simp add: word_less_nat_alt del: of_nat_unat)
  have small: "unat sz + unat ts - unat now < 65536" if "\<not> now < ts"
    using u16_bound [of sz] that by (simp add: word_less_nat_alt)
  show eq: "unat (time_to_timeslot sz now ts) = ?d"
  proof (cases "now < ts")
    case True
    then show ?thesis by (simp add: time_to_timeslot_def unat_sub less_imp_le)
  next
    case False
    then show ?thesis
      using sum [OF False] small [OF False] unat_word_of_nat_small [of "unat sz + unat ts - unat now", where 'a = 16]
      by (simp add: time_to_timeslot_def del: of_nat_diff of_nat_add)
  qed
  show "0 < unat (time_to_timeslot sz now ts)" "unat (time_to_timeslot sz now ts) \<le> unat sz"
    using b by (auto simp: eq word_less_nat_alt)
  show "(unat now + unat (time_to_timeslot sz now ts)) mod unat sz = unat ts"
    using b by (auto simp: eq word_less_nat_alt)
qed

text \<open>A slotframe as the module builds it: a prepared divisor and links inside the slotframe.\<close>

definition sf_ok :: "tsch \<Rightarrow> nat \<Rightarrow> bool" where
  "sf_ok s f \<longleftrightarrow> div_val (sf_size (sframe s f)) \<noteq> 0 \<and>
     sf_size (sframe s f) = TSCH_ASN_DIVISOR_INIT (div_val (sf_size (sframe s f))) \<and>
     (\<forall>l \<in> set (links_list (sframe s f)). timeslot (link s l) < div_val (sf_size (sframe s f)))"

lemma slot_dist_exact:
  assumes "sf_ok s f" "l \<in> set (links_list (sframe s f))"
  shows "0 < unat (slot_dist s asn (f, l))"
    "unat (slot_dist s asn (f, l)) \<le> unat (div_val (sf_size (sframe s f)))"
    "(asn_val asn + unat (slot_dist s asn (f, l))) mod unat (div_val (sf_size (sframe s f)))
       = unat (timeslot (link s l))"
proof -
  let ?v = "div_val (sf_size (sframe s f))" and ?now = "TSCH_ASN_MOD asn (sf_size (sframe s f))"
  have v: "?v \<noteq> 0" and div: "sf_size (sframe s f) = TSCH_ASN_DIVISOR_INIT ?v" and ts: "timeslot (link s l) < ?v"
    using assms by (auto simp: sf_ok_def)
  have now: "unat ?now = asn_val asn mod unat ?v"
    by (subst div) (rule asn_mod_val [OF v])
  have "?now < ?v"
    using v by (simp add: word_less_nat_alt now unat_gt_0)
  note t = time_to_timeslot_exact [OF ts this]
  show "0 < unat (slot_dist s asn (f, l))" "unat (slot_dist s asn (f, l)) \<le> unat ?v"
    using t(2,3) by (simp_all add: slot_dist_def)
  show "(asn_val asn + unat (slot_dist s asn (f, l))) mod unat ?v = unat (timeslot (link s l))"
    using t(4) by (simp add: slot_dist_def now mod_simps)
qed

lemma next_link_spec:
  assumes "\<not> tsch_locked s" "\<And>f. f \<in> set (slotframe_list s) \<Longrightarrow> sf_ok s f"
  shows "case tsch_schedule_get_next_active_link asn s of (best, off, bk) \<Rightarrow>
    (if candidates s = [] then best = None \<and> bk = None
     else \<exists>f l t. (f, l) \<in> set (candidates s) \<and> best = Some l \<and> off = Some t \<and>
       (\<forall>d \<in> set (candidates s). preferred s asn (f, l) d) \<and>
       0 < unat t \<and> unat t \<le> unat (div_val (sf_size (sframe s f))) \<and>
       (asn_val asn + unat t) mod unat (div_val (sf_size (sframe s f))) = unat (timeslot (link s l)) \<and>
       backup_ok s asn (candidates s) (f, l) bk)"
proof -
  define r where "r = foldl (\<lambda>a f. next_link_slotframe s asn f a)
    \<lparr>time_to_curr_best = 0, curr_best = None, curr_backup = None\<rparr> (slotframe_list s)"
  have res: "tsch_schedule_get_next_active_link asn s = (curr_best r, Some (time_to_curr_best r), curr_backup r)"
    using assms(1) by (simp add: tsch_schedule_get_next_active_link_def r_def Let_def)
  have "best_of s asn [] \<lparr>time_to_curr_best = 0, curr_best = None, curr_backup = None\<rparr>"
    by (simp add: best_of_def)
  from best_of_slotframes [OF this, of "slotframe_list s"] have b: "best_of s asn (candidates s) r"
    by (simp only: append_Nil candidates_def r_def)
  show ?thesis
  proof (cases "candidates s = []")
    case True
    then show ?thesis using b res by (simp add: best_of_def)
  next
    case False
    then obtain c where c: "c \<in> set (candidates s)" "curr_best r = Some (snd c)"
        "time_to_curr_best r = slot_dist s asn c" "\<forall>d \<in> set (candidates s). preferred s asn c d"
        "backup_ok s asn (candidates s) c (curr_backup r)"
      using b unfolding best_of_def by auto
    obtain f l where fl: "c = (f, l)" by (cases c)
    have "f \<in> set (slotframe_list s)" "l \<in> set (links_list (sframe s f))"
      using c(1) fl by (auto simp: candidates_def)
    note d = slot_dist_exact [OF assms(2) [OF this(1)] this(2), of asn]
    show ?thesis using False res c d unfolding fl by auto
  qed
qed

section \<open>Properties\<close>

text \<open>C1. The next active link is optimal: on any schedule, NULL is returned exactly when there is no link; otherwise the
  link returned is preferred to every other (earliest slot, then transmit links, then lowest
  slotframe handle), the time offset is between 1 and its slotframe's size, and the slot reached after that
  many slots is the link's timeslot. A backup link has the Rx option and falls in the same slot; if there is none, no other link
  of that slot has the Rx option.\<close>

theorem next_active_link_optimal:
  assumes "\<not> tsch_locked s" "\<And>f. f \<in> set (slotframe_list s) \<Longrightarrow> sf_ok s f"
  shows "case tsch_schedule_get_next_active_link asn s of (best, off, bk) \<Rightarrow>
    (if candidates s = [] then best = None \<and> bk = None
     else \<exists>f l t. (f, l) \<in> set (candidates s) \<and> best = Some l \<and> off = Some t \<and>
       (\<forall>d \<in> set (candidates s). preferred s asn (f, l) d) \<and>
       0 < unat t \<and> unat t \<le> unat (div_val (sf_size (sframe s f))) \<and>
       (asn_val asn + unat t) mod unat (div_val (sf_size (sframe s f))) = unat (timeslot (link s l)) \<and>
       backup_ok s asn (candidates s) (f, l) bk)"
  using next_link_spec [OF assms] .

text \<open>A small schedule: two slotframes of 7 slots, each with one link in timeslot 3; the first link is Tx and Rx,
  the second Rx only.\<close>

definition overlap_schedule :: tsch where
  "overlap_schedule = tsch_zero\<lparr>slotframe_list := [0, 1],
     slotframe_memb := \<lparr>mb_num = 4, mb_count = (\<lambda>_. 0)(0 := 1, 1 := 1), mb_mem = (\<lambda>_. sf_zero)
       (0 := \<lparr>sf_handle = 0, sf_size = TSCH_ASN_DIVISOR_INIT 7, links_list = [0]\<rparr>,
        1 := \<lparr>sf_handle = 1, sf_size = TSCH_ASN_DIVISOR_INIT 7, links_list = [1]\<rparr>)\<rparr>,
     link_memb := \<lparr>mb_num = 32, mb_count = (\<lambda>_. 0)(0 := 1, 1 := 1), mb_mem = (\<lambda>_. link_zero)
       (0 := link_zero\<lparr>timeslot := 3, link_options := LINK_OPTION_TX OR LINK_OPTION_RX\<rparr>,
        1 := link_zero\<lparr>slotframe_handle := 1, timeslot := 3, link_options := LINK_OPTION_RX\<rparr>)\<rparr>\<rparr>"

lemma overlap_schedule_ok: "\<not> tsch_locked overlap_schedule" "f \<in> {0, 1} \<Longrightarrow> sf_ok overlap_schedule f"
  "slotframe_list overlap_schedule = [0, 1]" "candidates overlap_schedule = [(0, 0), (1, 1)]"
  by (auto simp: overlap_schedule_def tsch_zero_def sf_ok_def asn_divisor_val candidates_def)

lemma overlap_next:
  "tsch_schedule_get_next_active_link (TSCH_ASN_INIT 0 9) overlap_schedule = (Some 0, Some 1, Some 0)"
  by (simp add: tsch_schedule_get_next_active_link_def overlap_schedule_def tsch_zero_def
      next_link_slotframe_def next_link_step_def Let_def TSCH_ASN_DIVISOR_INIT_def TSCH_ASN_MOD_def TSCH_ASN_INIT_def
      time_to_timeslot_def overlap_choice_def overlap_backup_def has_tx_def has_rx_def link_zero_def
      LINK_OPTION_TX_def LINK_OPTION_RX_def)

theorem next_active_link_optimal_witness:
  "case tsch_schedule_get_next_active_link (TSCH_ASN_INIT 0 9) overlap_schedule of (best, off, bk) \<Rightarrow>
     \<exists>l t. best = Some l \<and> off = Some t \<and> (9 + unat t) mod 7 = unat (timeslot (link overlap_schedule l))"
proof -
  have v: "asn_val (TSCH_ASN_INIT 0 9) = 9"
    by (simp add: asn_val_def TSCH_ASN_INIT_def)
  have d: "div_val (sf_size (sframe overlap_schedule f)) = 7" if "f = 0 \<or> f = 1" for f
    using that by (auto simp: overlap_schedule_def asn_divisor_val)
  have "\<And>f. f \<in> set (slotframe_list overlap_schedule) \<Longrightarrow> sf_ok overlap_schedule f"
    using overlap_schedule_ok(2,3) by auto
  from next_active_link_optimal [OF overlap_schedule_ok(1) this, of "TSCH_ASN_INIT 0 9"]
  show ?thesis
    using d by (auto simp: overlap_schedule_ok(4) v split: prod.splits)
qed

text \<open>The backup link can be the selected link itself: when the current best link wins against an overlapping link,
  \<open>new_best\<close> is NULL, differs from \<open>curr_best\<close>, and \<open>curr_best\<close> is recorded as its own backup although another
  link with the Rx option falls in the same slot.\<close>

theorem backup_can_be_best:
  "\<exists>asn s l other. \<not> tsch_locked s \<and> tsch_schedule_get_next_active_link asn s = (Some l, Some 1, Some l) \<and>
     other \<noteq> l \<and> has_rx s other \<and> (\<exists>f g. (f, l) \<in> set (candidates s) \<and> (g, other) \<in> set (candidates s) \<and>
       slot_dist s asn (f, l) = slot_dist s asn (g, other))"
proof -
  have "slot_dist overlap_schedule a (0, 0) = slot_dist overlap_schedule a (1, 1)" for a
    by (simp add: slot_dist_def overlap_schedule_def)
  moreover have "has_rx overlap_schedule 1"
    by (simp add: has_rx_def overlap_schedule_def LINK_OPTION_RX_def)
  ultimately show ?thesis
    using overlap_next overlap_schedule_ok(1,4)
    by (intro exI [of _ "TSCH_ASN_INIT 0 9"] exI [of _ overlap_schedule] exI [of _ "0::nat"] exI [of _ "1::nat"]) auto
qed

end
