(* ===== verification/TschScheduleInv.thy ===== *)
theory TschScheduleInv
  imports NextLink TschQueueInv
begin

text \<open>
  Invariants of the schedule. \<open>s_inv\<close>: slotframes have unique handles, a prepared divisor and at most one link
  per timeslot; every allocated link is in exactly one slotframe. \<open>tx_inv\<close>: the counter
  \<open>tx_links_count\<close> of every neighbor is the number of transmit links to its address, and every transmit
  link has a neighbor. The operations keep them (with the queue invariant), and the removal loops terminate.
\<close>

section \<open>The invariants\<close>

definition sf_wf :: "tsch \<Rightarrow> nat \<Rightarrow> bool" where
  "sf_wf s f \<longleftrightarrow> sf_ok s f \<and> distinct (links_list (sframe s f)) \<and>
     inj_on (\<lambda>l. timeslot (link s l)) (set (links_list (sframe s f))) \<and>
     (\<forall>l \<in> set (links_list (sframe s f)). slotframe_handle (link s l) = sf_handle (sframe s f) \<and>
        channel_offset (link s l) \<le> 15 \<and> is_linkaddr (l_addr (link s l)))"

definition s_inv :: "tsch \<Rightarrow> bool" where
  "s_inv s \<longleftrightarrow> memb_inv (link_memb s) \<and> memb_inv (slotframe_memb s) \<and> distinct (slotframe_list s) \<and>
     set (slotframe_list s) = memb_used (slotframe_memb s) \<and>
     inj_on (\<lambda>f. sf_handle (sframe s f)) (set (slotframe_list s)) \<and>
     (\<forall>f \<in> set (slotframe_list s). sf_wf s f) \<and>
     (\<forall>f \<in> set (slotframe_list s). \<forall>g \<in> set (slotframe_list s). f \<noteq> g \<longrightarrow>
        set (links_list (sframe s f)) \<inter> set (links_list (sframe s g)) = {}) \<and>
     (\<Union>f \<in> set (slotframe_list s). set (links_list (sframe s f))) = memb_used (link_memb s) \<and>
     (\<forall>l. current_link s = Some l \<longrightarrow> l \<in> memb_used (link_memb s))"

definition tx_links_to :: "tsch \<Rightarrow> linkaddr \<Rightarrow> nat set" where
  "tx_links_to s a = {l \<in> memb_used (link_memb s). has_tx s l \<and> l_addr (link s l) = a}"

definition tx_inv :: "tsch \<Rightarrow> bool" where
  "tx_inv s \<longleftrightarrow>
     (\<forall>l \<in> memb_used (link_memb s). has_tx s l \<longrightarrow>
        (\<exists>n \<in> set (neighbor_list s). n_addr (nbr s n) = l_addr (link s l))) \<and>
     (\<forall>n \<in> set (neighbor_list s).
        unat (tx_links_count (nbr s n)) = card (tx_links_to s (n_addr (nbr s n))))"

text \<open>The state between two operations of the module.\<close>

definition sched_inv :: "tsch \<Rightarrow> bool" where
  "sched_inv s \<longleftrightarrow> q_inv s \<and> s_inv s \<and> tx_inv s \<and> \<not> tsch_locked s \<and> mb_num (link_memb s) < 256"

lemma s_inv_cong:
  assumes "link_memb s' = link_memb s" "slotframe_memb s' = slotframe_memb s"
    "slotframe_list s' = slotframe_list s" "current_link s' = current_link s"
  shows "s_inv s' = s_inv s"
  by (simp only: s_inv_def sf_wf_def sf_ok_def assms)

lemma s_invD:
  assumes "s_inv s"
  shows "memb_inv (link_memb s)" "memb_inv (slotframe_memb s)" "distinct (slotframe_list s)"
    "set (slotframe_list s) = memb_used (slotframe_memb s)"
    "f \<in> set (slotframe_list s) \<Longrightarrow> sf_wf s f"
    "(\<Union>f \<in> set (slotframe_list s). set (links_list (sframe s f))) = memb_used (link_memb s)"
    "f \<in> set (slotframe_list s) \<Longrightarrow> g \<in> set (slotframe_list s) \<Longrightarrow> f \<noteq> g \<Longrightarrow>
       set (links_list (sframe s f)) \<inter> set (links_list (sframe s g)) = {}"
    "inj_on (\<lambda>f. sf_handle (sframe s f)) (set (slotframe_list s))"
    "current_link s = Some l \<Longrightarrow> l \<in> memb_used (link_memb s)"
proof -
  note a = assms [unfolded s_inv_def]
  show "memb_inv (link_memb s)" using a by (elim conjE)
  show "memb_inv (slotframe_memb s)" using a by (elim conjE)
  show "distinct (slotframe_list s)" using a by (elim conjE)
  show "set (slotframe_list s) = memb_used (slotframe_memb s)" using a by (elim conjE)
  show "f \<in> set (slotframe_list s) \<Longrightarrow> sf_wf s f" using a by (elim conjE) (erule bspec)
  show "(\<Union>f \<in> set (slotframe_list s). set (links_list (sframe s f))) = memb_used (link_memb s)"
    using a by (elim conjE)
  show "f \<in> set (slotframe_list s) \<Longrightarrow> g \<in> set (slotframe_list s) \<Longrightarrow> f \<noteq> g \<Longrightarrow>
      set (links_list (sframe s f)) \<inter> set (links_list (sframe s g)) = {}"
    using a by (elim conjE) (drule (1) bspec, drule (1) bspec, erule mp)
  show "inj_on (\<lambda>f. sf_handle (sframe s f)) (set (slotframe_list s))" using a by (elim conjE)
  show "current_link s = Some l \<Longrightarrow> l \<in> memb_used (link_memb s)"
    using a by (elim conjE) (drule spec, erule mp)
qed

lemma finite_tx_links [simp]: "finite (tx_links_to s a)"
  by (simp add: tx_links_to_def)

lemma tx_links_cong:
  assumes "link_memb s' = link_memb s"
  shows "tx_links_to s' a = tx_links_to s a" "has_tx s' l = has_tx s l"
  by (simp_all add: tx_links_to_def has_tx_def assms)

section \<open>The neighbor counters\<close>

lemma count_no_tx: "opts AND LINK_OPTION_TX = 0 \<Longrightarrow> count_tx_link chg opts a s = s"
  by (simp add: count_tx_link_def)

lemma nbr_counts_ok:
  "nbr_ok (x\<lparr>tx_links_count := c, dedicated_tx_links_count := d\<rparr>) = nbr_ok x"
  "nbr_queue (x\<lparr>tx_links_count := c, dedicated_tx_links_count := d\<rparr>) = nbr_queue x"
  by (simp_all add: nbr_ok_def nbr_queue_def)

lemma count_tx_spec:
  assumes inv: "q_inv s" and ul: "\<not> tsch_locked s" and a: "is_linkaddr a" and tx: "opts AND LINK_OPTION_TX \<noteq> 0"
    and e: "tsch_queue_add_nbr a s = (Some n, s1)" and s'_def: "s' = count_tx_link chg opts a s"
  shows "q_inv s'" "\<not> tsch_locked s'" "neighbor_list s' = neighbor_list s1"
    "n_addr (nbr s' k) = n_addr (nbr s1 k)"
    "tx_links_count (nbr s' k) = (if k = n then chg (tx_links_count (nbr s1 n)) else tx_links_count (nbr s1 k))"
    "link_memb s' = link_memb s" "slotframe_memb s' = slotframe_memb s" "slotframe_list s' = slotframe_list s"
    "current_link s' = current_link s"
proof -
  have ad: "nbr_added a s (Some n) s1" using add_nbr_spec [OF inv a ul] e by simp
  note d = nbr_addedD [OF ad] and fr = nbr_added_frame [OF ad]
  let ?f = "\<lambda>x. x\<lparr>tx_links_count := chg (tx_links_count x),
               dedicated_tx_links_count := (if opts AND LINK_OPTION_SHARED = 0
                 then chg (dedicated_tx_links_count x) else dedicated_tx_links_count x)\<rparr>"
  have s': "s' = nbr_upd n ?f s1"
    unfolding s'_def count_tx_link_def using tx e by simp
  have n: "n \<in> set (neighbor_list s1)" using d(5) by simp
  note ok = q_coreD [OF q_invD(5) [OF d(1)] n]
  show "q_inv s'"
    unfolding s' using d(1) ok by (intro q_inv_nbr_upd) (simp_all add: nbr_counts_ok)
  show "\<not> tsch_locked s'" "neighbor_list s' = neighbor_list s1"
    "n_addr (nbr s' k) = n_addr (nbr s1 k)"
    "tx_links_count (nbr s' k) = (if k = n then chg (tx_links_count (nbr s1 n)) else tx_links_count (nbr s1 k))"
    "link_memb s' = link_memb s" "slotframe_memb s' = slotframe_memb s" "slotframe_list s' = slotframe_list s"
    "current_link s' = current_link s"
    using d(2) fr by (simp_all add: s')
qed

lemma count_tx_frame:
  assumes "q_inv s" "\<not> tsch_locked s" "is_linkaddr a" and s'_def: "s' = count_tx_link chg opts a s"
  shows "q_inv s' \<and> \<not> tsch_locked s' \<and> link_memb s' = link_memb s \<and> slotframe_memb s' = slotframe_memb s \<and>
    slotframe_list s' = slotframe_list s \<and> current_link s' = current_link s"
proof (cases "opts AND LINK_OPTION_TX = 0")
  case True
  then show ?thesis using assms(1,2) by (simp add: s'_def count_no_tx)
next
  case False
  obtain r s1 where e: "tsch_queue_add_nbr a s = (r, s1)" by (cases "tsch_queue_add_nbr a s")
  show ?thesis
  proof (cases r)
    case None
    have ad: "nbr_added a s r s1" using add_nbr_spec [OF assms(1,3,2)] e by simp
    show ?thesis
      using nbr_addedD(1,2) [OF ad] nbr_added_frame [OF ad] False e None by (simp add: s'_def count_tx_link_def)
  next
    case (Some n)
    note c = count_tx_spec [OF assms(1,2,3) False e [unfolded Some] s'_def]
    show ?thesis using c by blast
  qed
qed

text \<open>A neighbor created for a link starts with a zero counter, which is right: no transmit link had its address.\<close>

lemma tx_counts_add_nbr:
  assumes tx0: "tx_inv s0" and ad: "nbr_added a s (Some n) s1" and a: "is_linkaddr a"
    and nb: "neighbor_list s = neighbor_list s0" "\<And>k. nbr s k = nbr s0 k"
    and k: "k \<in> set (neighbor_list s1)"
  shows "unat (tx_links_count (nbr s1 k)) = card (tx_links_to s0 (n_addr (nbr s1 k)))"
proof (cases "k \<in> set (neighbor_list s)")
  case True
  then show ?thesis using tx0 nbr_addedD(3) [OF ad] nb by (simp add: tx_inv_def)
next
  case False
  note d = nbr_addedD [OF ad]
  have n: "n \<in> set (neighbor_list s1)" "n_addr (nbr s1 n) = a" using d(5,6) by auto
  have kn: "k = n" "nbr s1 k = nbr_new a" using d(7,8) k False by auto
  have "a \<noteq> l_addr (link s0 x)" if x: "x \<in> memb_used (link_memb s0)" "has_tx s0 x" for x
  proof
    assume "a = l_addr (link s0 x)"
    then obtain m where m: "m \<in> set (neighbor_list s)" "n_addr (nbr s m) = a"
      using tx0 x unfolding tx_inv_def nb by auto
    then have "m \<in> set (neighbor_list s1)" "n_addr (nbr s1 m) = a" using d(3,4) by auto
    then have "m = n" using n inj_onD [OF q_invD(4) [OF d(1)], of m n] by simp
    then show False using m False kn by simp
  qed
  then have "tx_links_to s0 a = {}" by (auto simp: tx_links_to_def)
  then show ?thesis using kn nbr_new_ok(3,5) [OF a] by simp
qed

text \<open>Adding a transmit link: the new link \<open>l\<close> is the only difference between \<open>s0\<close> and \<open>s\<close>.\<close>

lemma tx_inv_count_up:
  assumes tx0: "tx_inv s0" and q: "q_inv s" and ul: "\<not> tsch_locked s"
    and nb: "neighbor_list s = neighbor_list s0" "\<And>k. nbr s k = nbr s0 k"
    and l: "l \<notin> memb_used (link_memb s0)" "memb_used (link_memb s) = insert l (memb_used (link_memb s0))"
      "\<And>k. k \<in> memb_used (link_memb s0) \<Longrightarrow> link s k = link s0 k" "link_options (link s l) = opts"
      "l_addr (link s l) = a" "is_linkaddr a"
    and sz: "card (memb_used (link_memb s)) < 256"
    and ok: "opts AND LINK_OPTION_TX \<noteq> 0 \<Longrightarrow> fst (tsch_queue_add_nbr a s) \<noteq> None"
  shows "tx_inv (count_tx_link (\<lambda>c. c + 1) opts a s)"
proof -
  have same: "has_tx s k = has_tx s0 k" if "k \<in> memb_used (link_memb s0)" for k
    using l(3) [OF that] by (simp add: has_tx_def)
  have to: "tx_links_to s b = (if has_tx s l \<and> b = a then insert l (tx_links_to s0 b) else tx_links_to s0 b)" for b
    using l same by (auto simp: tx_links_to_def)
  have l0: "l \<notin> tx_links_to s0 b" for b using l(1) by (simp add: tx_links_to_def)
  show ?thesis
  proof (cases "opts AND LINK_OPTION_TX = 0")
    case True
    then have "\<not> has_tx s l" using l(4) by (simp add: has_tx_def)
    then show ?thesis
      using tx0 to l same nb by (auto simp: count_no_tx [OF True] tx_inv_def)
  next
    case False
    then have h: "has_tx s l" using l(4) by (simp add: has_tx_def)
    obtain n s1 where e: "tsch_queue_add_nbr a s = (Some n, s1)" using ok [OF False] by (cases "tsch_queue_add_nbr a s") auto
    have ad: "nbr_added a s (Some n) s1" using add_nbr_spec [OF q l(6) ul] e by simp
    note d = nbr_addedD [OF ad] and c = count_tx_spec [OF q ul l(6) False e refl, where chg = "\<lambda>c. c + 1"]
    let ?s' = "count_tx_link (\<lambda>c. c + 1) opts a s"
    have n: "n \<in> set (neighbor_list s1)" "n_addr (nbr s1 n) = a" using d(5,6) by auto
    note cnt0 = tx_counts_add_nbr [OF tx0 ad l(6) nb]
    have bound: "card (tx_links_to s0 a) < 255"
      using card_mono [of "memb_used (link_memb s0)" "tx_links_to s0 a"] sz l(1,2)
      by (auto simp: tx_links_to_def)
    have cnt: "unat (tx_links_count (nbr ?s' k)) = card (tx_links_to s (n_addr (nbr s1 k)))"
      if k: "k \<in> set (neighbor_list s1)" for k
    proof (cases "k = n")
      case True
      then show ?thesis
        using cnt0 [OF k] bound n h l0 to by (simp add: c(5) unat_word_ariths)
    next
      case False
      then have "n_addr (nbr s1 k) \<noteq> a"
        using inj_onD [OF q_invD(4) [OF d(1)], of k n] k n by auto
      then show ?thesis using cnt0 [OF k] False to by (simp add: c(5))
    qed
    have "\<exists>m \<in> set (neighbor_list s1). n_addr (nbr s1 m) = l_addr (link s x)"
      if x: "x \<in> memb_used (link_memb s)" "has_tx s x" for x
    proof (cases "x = l")
      case True
      then show ?thesis using n l(5) by auto
    next
      case False
      then have "x \<in> memb_used (link_memb s0)" using x l(2) by auto
      then obtain m where "m \<in> set (neighbor_list s)" "n_addr (nbr s m) = l_addr (link s x)"
        using tx0 x(2) same l(3) unfolding tx_inv_def nb by auto
      then show ?thesis using d(3,4) by metis
    qed
    then show ?thesis
      using cnt unfolding tx_inv_def tx_links_cong [OF c(6)] c(3,4,6) by blast
  qed
qed


lemma add_nbr_present:
  assumes inv: "q_inv s" and a: "is_linkaddr a" and ul: "\<not> tsch_locked s"
    and n: "n \<in> set (neighbor_list s)" "n_addr (nbr s n) = a"
  shows "tsch_queue_add_nbr a s = (Some n, s)"
  using inv a ul
proof (cases rule: add_nbr_cases)
  case (old m)
  then show ?thesis using inj_onD [OF q_invD(4) [OF inv], of m n] n by simp
qed (use n in auto)

definition same_nbrs :: "tsch \<Rightarrow> tsch \<Rightarrow> bool" where
  "same_nbrs s s' \<longleftrightarrow> neighbor_list s' = neighbor_list s \<and> (\<forall>k. n_addr (nbr s' k) = n_addr (nbr s k))"

lemma tx_inv_count_down:
  assumes tx0: "tx_inv s0" and q: "q_inv s" and ul: "\<not> tsch_locked s"
    and nb: "neighbor_list s = neighbor_list s0" "\<And>k. nbr s k = nbr s0 k"
    and l: "l \<in> memb_used (link_memb s0)" "memb_used (link_memb s) = memb_used (link_memb s0) - {l}"
      "\<And>k. link s k = link s0 k" "link_options (link s0 l) = opts" "l_addr (link s0 l) = a" "is_linkaddr a"
  shows "tx_inv (count_tx_link (\<lambda>c. c - 1) opts a s) \<and> same_nbrs s (count_tx_link (\<lambda>c. c - 1) opts a s)"
proof -
  have same: "has_tx s k = has_tx s0 k" for k using l(3) by (simp add: has_tx_def)
  have to: "tx_links_to s b = tx_links_to s0 b - {l}" for b
    using l same by (auto simp: tx_links_to_def)
  have own: "\<exists>m \<in> set (neighbor_list s). n_addr (nbr s m) = l_addr (link s x)"
    if "x \<in> memb_used (link_memb s0)" "has_tx s x" for x
    using tx0 that same l(3) unfolding tx_inv_def nb by auto
  show ?thesis
  proof (cases "opts AND LINK_OPTION_TX = 0")
    case True
    then have "l \<notin> tx_links_to s0 b" for b using l(4) by (simp add: tx_links_to_def has_tx_def)
    then show ?thesis
      using tx0 own l(2) unfolding count_no_tx [OF True] tx_inv_def by (simp add: to nb same_nbrs_def)
  next
    case False
    have h: "has_tx s0 l" using False l(4) by (simp add: has_tx_def)
    obtain n where n: "n \<in> set (neighbor_list s)" "n_addr (nbr s n) = a"
      using own [OF l(1)] h same l(3,5) by auto
    have e: "tsch_queue_add_nbr a s = (Some n, s)" using add_nbr_present [OF q l(6) ul n] .
    note c = count_tx_spec [OF q ul l(6) False e refl, where chg = "\<lambda>c. c - 1"]
    let ?s' = "count_tx_link (\<lambda>c. c - 1) opts a s"
    have la: "l \<in> tx_links_to s0 b \<longleftrightarrow> b = a" for b using l(1,5) h by (auto simp: tx_links_to_def)
    have "unat (tx_links_count (nbr ?s' k)) = card (tx_links_to s (n_addr (nbr s k)))"
      if k: "k \<in> set (neighbor_list s)" for k
    proof -
      have old: "unat (tx_links_count (nbr s k)) = card (tx_links_to s0 (n_addr (nbr s k)))"
        using tx0 k unfolding tx_inv_def nb by simp
      show ?thesis
      proof (cases "k = n")
        case True
        have "0 < card (tx_links_to s0 a)" using la by (auto simp: card_gt_0_iff)
        then have "tx_links_count (nbr s n) \<noteq> 0" using old True n(2) by auto
        then show ?thesis using old True n(2) la by (simp add: c(5) unat_minus_one to)
      next
        case False
        then have "n_addr (nbr s k) \<noteq> a"
          using inj_onD [OF q_invD(4) [OF q], of k n] k n by auto
        then show ?thesis using old False la by (simp add: c(5) to)
      qed
    qed
    moreover have "\<exists>m \<in> set (neighbor_list s). n_addr (nbr s m) = l_addr (link s x)"
      if "x \<in> memb_used (link_memb s)" "has_tx s x" for x
      using own that l(2) by blast
    ultimately show ?thesis
      unfolding tx_inv_def same_nbrs_def tx_links_cong [OF c(6)] c(3,4,6) by blast
  qed
qed

section \<open>Removing a link\<close>

lemma s_inv_remove:
  assumes inv: "s_inv s" and f: "f \<in> set (slotframe_list s)" and l: "l \<in> set (links_list (sframe s f))"
    and s': "link_memb s' = snd (memb_free l (link_memb s))"
      "slotframe_memb s' = blk_upd f (\<lambda>x. x\<lparr>links_list := remove1 l (links_list x)\<rparr>) (slotframe_memb s)"
      "slotframe_list s' = slotframe_list s"
      "current_link s' = (if current_link s = Some l then None else current_link s)"
  shows "s_inv s'"
proof -
  let ?L = "set (slotframe_list s)"
  note d = s_invD [OF inv] and mf = memb_free_props [OF s_invD(1) [OF inv], of l]
  have links: "links_list (sframe s' g) = (if g = f then remove1 l (links_list (sframe s f)) else links_list (sframe s g))"
    and hd: "sf_handle (sframe s' g) = sf_handle (sframe s g)" and sz: "sf_size (sframe s' g) = sf_size (sframe s g)" for g
    by (simp_all add: s')
  have lk: "link s' k = link s k" for k by (simp add: s' mf)
  have sub: "set (links_list (sframe s' g)) \<subseteq> set (links_list (sframe s g))" for g
    using set_remove1_subset [of l] by (auto simp: links)
  have dis: "distinct (links_list (sframe s' g))" if "g \<in> ?L" for g
    using d(5) [OF that] by (auto simp: links sf_wf_def)
  have wf: "sf_wf s' g" if g: "g \<in> ?L" for g
    using d(5) [OF g] sub [of g] dis [OF g]
    unfolding sf_wf_def sf_ok_def hd sz lk by (auto intro: inj_on_subset)
  have only: "l \<notin> set (links_list (sframe s' g))" if "g \<in> ?L" for g
  proof (cases "g = f")
    case True
    then show ?thesis using d(5) [OF f] by (simp add: links sf_wf_def)
  next
    case False
    then show ?thesis using d(7) [OF f that] l by (auto simp: links)
  qed
  have "(\<Union>g \<in> ?L. set (links_list (sframe s' g))) = (\<Union>g \<in> ?L. set (links_list (sframe s g))) - {l}"
    using only sub f by (auto simp: links split: if_splits)
  then have un: "(\<Union>g \<in> ?L. set (links_list (sframe s' g))) = memb_used (link_memb s')"
    using d(6) mf by (simp add: s'(1))
  have dj: "set (links_list (sframe s' g)) \<inter> set (links_list (sframe s' h)) = {}"
    if "g \<in> ?L" "h \<in> ?L" "g \<noteq> h" for g h
    using d(7) [OF that] sub [of g] sub [of h] by blast
  have cur: "k \<in> memb_used (link_memb s')" if "current_link s' = Some k" for k
    using that d(9) [of k] mf by (auto simp: s' split: if_splits)
  have "memb_inv (slotframe_memb s')" "memb_used (slotframe_memb s') = memb_used (slotframe_memb s)"
    using d(2) by (simp_all add: s'(2))
  then show ?thesis
    using d(3,4,8) wf un dj cur mf(1) unfolding s_inv_def s'(3) hd s'(1) [symmetric] by simp
qed


text \<open>The contract of \<open>tsch_schedule_remove_link\<close> on a link of a slotframe.\<close>

definition link_removed :: "nat \<Rightarrow> nat \<Rightarrow> tsch \<Rightarrow> tsch \<Rightarrow> bool" where
  "link_removed f l s s' \<longleftrightarrow> sched_inv s' \<and> slotframe_list s' = slotframe_list s \<and>
     slotframe_memb s' = blk_upd f (\<lambda>x. x\<lparr>links_list := remove1 l (links_list x)\<rparr>) (slotframe_memb s) \<and>
     memb_used (link_memb s') = memb_used (link_memb s) - {l} \<and> (\<forall>k. link s' k = link s k) \<and>
     mb_num (link_memb s') = mb_num (link_memb s) \<and> same_nbrs s s' \<and>
     current_link s' = (if current_link s = Some l then None else current_link s)"

lemma remove_link_spec:
  assumes inv: "sched_inv s" and f: "f \<in> set (slotframe_list s)" and l: "l \<in> set (links_list (sframe s f))"
  obtains s' where "tsch_schedule_remove_link (Some f) (Some l) s = (1, s')" "link_removed f l s s'"
proof -
  have i: "q_inv s" "s_inv s" "tx_inv s" "\<not> tsch_locked s" "mb_num (link_memb s) < 256"
    using inv by (simp_all add: sched_inv_def)
  have wf: "slotframe_handle (link s l) = sf_handle (sframe s f)" "is_linkaddr (l_addr (link s l))"
    using s_invD(5) [OF i(2) f] l by (auto simp: sf_wf_def)
  have lu: "l \<in> memb_used (link_memb s)" using s_invD(6) [OF i(2)] f l by auto
  note mf = memb_free_props [OF s_invD(1) [OF i(2)], of l]
  let ?opts = "link_options (link s l)" and ?a = "l_addr (link s l)"
  define t where "t = (if Some l = current_link s then s\<lparr>tsch_lock_requested := False, current_link := None\<rparr>
      else s\<lparr>tsch_lock_requested := False\<rparr>)
    \<lparr>slotframe_memb := blk_upd f (\<lambda>x. x\<lparr>links_list := remove1 l (links_list x)\<rparr>) (slotframe_memb s),
     link_memb := snd (memb_free l (link_memb s)), tsch_locked := False\<rparr>"
  let ?s' = "count_tx_link (\<lambda>c. c - 1) ?opts ?a t"
  have res: "tsch_schedule_remove_link (Some f) (Some l) s = (1, ?s')"
    using i(4) wf by (simp add: tsch_schedule_remove_link_def Let_def t_def sf_upd_def tsch_release_lock_def
        split: if_split)
  have tf: "link_memb t = snd (memb_free l (link_memb s))" "neighbor_list t = neighbor_list s"
      "slotframe_memb t = blk_upd f (\<lambda>x. x\<lparr>links_list := remove1 l (links_list x)\<rparr>) (slotframe_memb s)"
      "slotframe_list t = slotframe_list s" "\<not> tsch_locked t"
      "current_link t = (if current_link s = Some l then None else current_link s)" "\<And>k. nbr t k = nbr s k"
    by (simp_all add: t_def)
  have q: "q_inv t" using i(1) q_inv_cong [of t s] by (simp add: t_def)
  note fr = count_tx_frame [OF q tf(5) wf(2) refl, where opts = ?opts and chg = "\<lambda>c. c - 1"]
  have "s_inv t" by (rule s_inv_remove [OF i(2) f l tf(1,3,4,6)])
  then have "s_inv ?s'" using fr s_inv_cong [of ?s' t] by simp
  moreover have "tx_inv ?s' \<and> same_nbrs t ?s'"
    by (rule tx_inv_count_down [OF i(3) q tf(5) tf(2) tf(7) lu]) (simp_all add: tf mf wf)
  ultimately have "link_removed f l s ?s'"
    using fr i(5) unfolding link_removed_def sched_inv_def same_nbrs_def by (simp add: tf mf)
  with res that show ?thesis by blast
qed

lemma link_removedD:
  assumes "link_removed f l s s'"
  shows "sched_inv s'" "slotframe_list s' = slotframe_list s"
    "links_list (sframe s' f) = remove1 l (links_list (sframe s f))"
    "g \<noteq> f \<Longrightarrow> sframe s' g = sframe s g" "sf_size (sframe s' g) = sf_size (sframe s g)"
    "sf_handle (sframe s' g) = sf_handle (sframe s g)" "memb_used (slotframe_memb s') = memb_used (slotframe_memb s)"
  using assms unfolding link_removed_def by simp_all

section \<open>Removing slotframes\<close>

lemma remove_links_loop_spec:
  assumes "sched_inv s" "f \<in> set (slotframe_list s)" "links_list (sframe s f) = ls"
  shows "\<exists>s'. remove_links_loop f s = Some s' \<and> sched_inv s' \<and> slotframe_list s' = slotframe_list s \<and>
    links_list (sframe s' f) = [] \<and> (\<forall>g. g \<noteq> f \<longrightarrow> sframe s' g = sframe s g) \<and> same_nbrs s s' \<and>
    mb_num (link_memb s') = mb_num (link_memb s) \<and> mb_num (slotframe_memb s') = mb_num (slotframe_memb s)"
  using assms
proof (induction ls arbitrary: s)
  case Nil
  then show ?case by (subst remove_links_loop.simps) (simp add: same_nbrs_def)
next
  case (Cons l ls)
  then obtain s1 where s1: "tsch_schedule_remove_link (Some f) (Some l) s = (1, s1)" "link_removed f l s s1"
    using remove_link_spec [of s f l] by auto
  note d = link_removedD [OF s1(2)]
  have "links_list (sframe s1 f) = ls" using d(3) Cons.prems(3) by simp
  then obtain s' where s': "remove_links_loop f s1 = Some s'" "sched_inv s'" "slotframe_list s' = slotframe_list s1"
      "links_list (sframe s' f) = []" "\<forall>g. g \<noteq> f \<longrightarrow> sframe s' g = sframe s1 g" "same_nbrs s1 s'"
      "mb_num (link_memb s') = mb_num (link_memb s1)" "mb_num (slotframe_memb s') = mb_num (slotframe_memb s1)"
    using Cons.IH [OF d(1)] Cons.prems(2) d(2) by auto
  moreover have "same_nbrs s s'" "mb_num (link_memb s1) = mb_num (link_memb s)"
      "mb_num (slotframe_memb s1) = mb_num (slotframe_memb s)"
    using s1(2) s'(6) by (simp_all add: link_removed_def same_nbrs_def)
  ultimately show ?case
    using Cons.prems(2,3) s1(1) d(2,4) by (subst remove_links_loop.simps) auto
qed

lemma s_inv_remove_sf:
  assumes inv: "s_inv s" and f: "f \<in> set (slotframe_list s)" and e: "links_list (sframe s f) = []"
    and s': "link_memb s' = link_memb s" "slotframe_memb s' = snd (memb_free f (slotframe_memb s))"
      "slotframe_list s' = remove1 f (slotframe_list s)" "current_link s' = current_link s"
  shows "s_inv s'"
proof -
  note d = s_invD [OF inv] and mf = memb_free_props [OF s_invD(2) [OF inv], of f]
  have sf: "sframe s' g = sframe s g" and lk: "link s' k = link s k" for g k by (simp_all add: s' mf)
  have L: "set (slotframe_list s') = set (slotframe_list s) - {f}" using d(3) by (simp add: s')
  have "(\<Union>g \<in> set (slotframe_list s) - {f}. set (links_list (sframe s g))) = memb_used (link_memb s)"
    unfolding d(6) [symmetric] using e by force
  moreover have "sf_wf s' g \<longleftrightarrow> sf_wf s g" for g unfolding sf_wf_def sf_ok_def sf lk ..
  moreover have "inj_on (\<lambda>g. sf_handle (sframe s g)) (set (slotframe_list s) - {f})"
    using d(8) by (rule inj_on_diff)
  ultimately show ?thesis
    using d mf unfolding s_inv_def L sf s'(1,4) by (simp add: s')
qed

lemma remove_slotframe_spec:
  assumes inv: "sched_inv s" and f: "f \<in> set (slotframe_list s)"
  obtains s' where "tsch_schedule_remove_slotframe (Some f) s = Some (1, s')" "sched_inv s'"
    "slotframe_list s' = remove1 f (slotframe_list s)" "\<And>g. g \<noteq> f \<Longrightarrow> sframe s' g = sframe s g"
    "same_nbrs s s'" "mb_num (link_memb s') = mb_num (link_memb s)" "mb_num (slotframe_memb s') = mb_num (slotframe_memb s)"
proof -
  obtain s1 where s1: "remove_links_loop f s = Some s1" "sched_inv s1" "slotframe_list s1 = slotframe_list s"
      "links_list (sframe s1 f) = []" "\<And>g. g \<noteq> f \<Longrightarrow> sframe s1 g = sframe s g" "same_nbrs s s1"
      "mb_num (link_memb s1) = mb_num (link_memb s)" "mb_num (slotframe_memb s1) = mb_num (slotframe_memb s)"
    using remove_links_loop_spec [OF inv f refl] by blast
  have i: "q_inv s1" "s_inv s1" "tx_inv s1" "\<not> tsch_locked s1" "mb_num (link_memb s1) < 256"
    using s1(2) by (simp_all add: sched_inv_def)
  let ?s' = "s1\<lparr>tsch_lock_requested := False, slotframe_memb := snd (memb_free f (slotframe_memb s1)),
               slotframe_list := remove1 f (slotframe_list s1), tsch_locked := False\<rparr>"
  have "s_inv ?s'"
    using f s1(3,4) by (intro s_inv_remove_sf [OF i(2)]) simp_all
  moreover have "q_inv ?s'" using i(1) q_inv_cong [of ?s' s1] by simp
  moreover have "tx_inv ?s'" using i(3) by (simp add: tx_inv_def tx_links_to_def has_tx_def)
  ultimately have "sched_inv ?s'" using i(5) by (simp add: sched_inv_def)
  moreover have "tsch_schedule_remove_slotframe (Some f) s = Some (1, ?s')"
    using s1(1) i(4) by (simp add: tsch_schedule_remove_slotframe_def tsch_release_lock_def Let_def)
  moreover have "sframe ?s' g = sframe s g" if "g \<noteq> f" for g
    using s1(5) [OF that] memb_free_props(4) [OF s_invD(2) [OF i(2)], of f] by simp
  moreover have "same_nbrs s ?s'" "mb_num (slotframe_memb ?s') = mb_num (slotframe_memb s)"
    using s1(6,8) memb_free_props(3) [OF s_invD(2) [OF i(2)], of f] by (simp_all add: same_nbrs_def)
  ultimately show ?thesis using that s1(3,7) by simp
qed

lemma remove_all_spec:
  assumes "sched_inv s"
  shows "\<exists>s'. tsch_schedule_remove_all_slotframes s = Some (1, s') \<and> sched_inv s' \<and>
    slotframe_list s' = [] \<and> memb_used (link_memb s') = {} \<and> same_nbrs s s' \<and>
    mb_num (link_memb s') = mb_num (link_memb s) \<and> mb_num (slotframe_memb s') = mb_num (slotframe_memb s)"
  using assms
proof (induction "length (slotframe_list s)" arbitrary: s)
  case 0
  then have "memb_used (link_memb s) = {}" using s_invD(6) [of s] by (simp add: sched_inv_def)
  then show ?case using 0 by (subst tsch_schedule_remove_all_slotframes.simps) (simp add: same_nbrs_def)
next
  case (Suc n)
  then obtain f fs where fs: "slotframe_list s = f # fs" by (metis Suc_length_conv)
  obtain s1 where s1: "tsch_schedule_remove_slotframe (Some f) s = Some (1, s1)" "sched_inv s1"
      "slotframe_list s1 = remove1 f (slotframe_list s)" "same_nbrs s s1" "mb_num (link_memb s1) = mb_num (link_memb s)"
      "mb_num (slotframe_memb s1) = mb_num (slotframe_memb s)"
    using remove_slotframe_spec [OF Suc.prems, of f] fs by auto
  have "n = length (slotframe_list s1)" using s1(3) fs Suc.hyps(2) by simp
  from Suc.hyps(1) [OF this s1(2)] show ?case
    using fs s1 by (subst tsch_schedule_remove_all_slotframes.simps) (auto simp: same_nbrs_def)
qed


section \<open>Adding slotframes and links\<close>

lemma s_inv_add_sf:
  assumes inv: "s_inv s" and al: "memb_alloc (slotframe_memb s) = (Some f, m)" and sz: "sz \<noteq> 0"
    and h: "h \<notin> (\<lambda>g. sf_handle (sframe s g)) ` set (slotframe_list s)"
    and x: "sf_handle x = h" "sf_size x = TSCH_ASN_DIVISOR_INIT sz" "links_list x = []"
    and s': "link_memb s' = link_memb s" "slotframe_memb s' = blk_upd f (\<lambda>_. x) m"
      "slotframe_list s' = slotframe_list s @ [f]" "current_link s' = current_link s"
  shows "s_inv s'"
proof -
  note d = s_invD [OF inv] and a = memb_alloc_Some [OF al]
  have f: "f \<notin> set (slotframe_list s)" using a(2) d(4) by simp
  have L: "set (slotframe_list s') = insert f (set (slotframe_list s))" by (simp add: s')
  have new: "sframe s' f = x" and old: "\<And>g. g \<in> set (slotframe_list s) \<Longrightarrow> sframe s' g = sframe s g"
    using a(5) f by (auto simp: s')
  have lk: "link s' k = link s k" for k by (simp add: s')
  have wf: "sf_wf s' g" if "g \<in> insert f (set (slotframe_list s))" for g
    using that d(5) [of g] x sz new old [of g] unfolding sf_wf_def sf_ok_def lk by (auto simp: asn_divisor_val)
  have un: "(\<Union>g \<in> insert f (set (slotframe_list s)). set (links_list (sframe s' g))) = memb_used (link_memb s)"
    unfolding d(6) [symmetric] using new old x(3) by simp
  have dj: "set (links_list (sframe s' g)) \<inter> set (links_list (sframe s' k)) = {}"
    if "g \<in> insert f (set (slotframe_list s))" "k \<in> insert f (set (slotframe_list s))" "g \<noteq> k" for g k
    using that d(7) [of g k] new old x(3) by (cases "g = f"; cases "k = f") auto
  have "inj_on (\<lambda>g. sf_handle (sframe s' g)) (set (slotframe_list s))"
    using d(8) by (rule inj_on_cong [THEN iffD1, rotated]) (simp add: old)
  moreover have "(\<lambda>g. sf_handle (sframe s' g)) ` set (slotframe_list s) = (\<lambda>g. sf_handle (sframe s g)) ` set (slotframe_list s)"
    by (rule image_cong) (simp_all add: old)
  ultimately have inj: "inj_on (\<lambda>g. sf_handle (sframe s' g)) (insert f (set (slotframe_list s)))"
    unfolding inj_on_insert using h x(1) new f by simp
  have "memb_inv (slotframe_memb s')" "memb_used (slotframe_memb s') = insert f (set (slotframe_list s))"
    "distinct (slotframe_list s')"
    using a d(2,3,4) f by (simp_all add: s')
  then show ?thesis
    using d(1,9) inj wf un dj unfolding s_inv_def L s'(1,4) by blast
qed

lemma get_slotframe_None:
  "\<not> tsch_locked s \<Longrightarrow> tsch_schedule_get_slotframe_by_handle h s = None \<longleftrightarrow>
    h \<notin> (\<lambda>f. sf_handle (sframe s f)) ` set (slotframe_list s)"
  by (auto simp: tsch_schedule_get_slotframe_by_handle_def find_None_iff)

lemma add_slotframe_spec:
  assumes inv: "sched_inv s"
    and ok: "sz \<noteq> 0" "h \<notin> (\<lambda>f. sf_handle (sframe s f)) ` set (slotframe_list s)" "0 < memb_numfree (slotframe_memb s)"
  obtains f s' where "tsch_schedule_add_slotframe h sz s = (Some f, s')" "sched_inv s'"
    "f \<notin> set (slotframe_list s)" "slotframe_list s' = slotframe_list s @ [f]"
    "sframe s' f = \<lparr>sf_handle = h, sf_size = TSCH_ASN_DIVISOR_INIT sz, links_list = []\<rparr>"
    "\<And>g. g \<noteq> f \<Longrightarrow> sframe s' g = sframe s g" "link_memb s' = link_memb s" "neighbor_memb s' = neighbor_memb s"
    "neighbor_list s' = neighbor_list s"
proof -
  have i: "q_inv s" "s_inv s" "tx_inv s" "\<not> tsch_locked s" "mb_num (link_memb s) < 256"
    using inv by (simp_all add: sched_inv_def)
  have none: "tsch_schedule_get_slotframe_by_handle h s = None"
    using get_slotframe_None [OF i(4)] ok(2) by simp
  obtain f m where al: "memb_alloc (slotframe_memb s) = (Some f, m)"
    using ok(3) by (cases rule: memb_alloc_cases [of "slotframe_memb s"]) (auto simp: memb_numfree_eq)
  note a = memb_alloc_Some [OF al]
  have f: "f \<notin> set (slotframe_list s)" using a(2) s_invD(4) [OF i(2)] by simp
  let ?x = "\<lparr>sf_handle = h, sf_size = TSCH_ASN_DIVISOR_INIT sz, links_list = []\<rparr> :: tsch_slotframe"
  let ?s' = "s\<lparr>tsch_lock_requested := False, slotframe_memb := blk_upd f (\<lambda>_. ?x) m,
               slotframe_list := slotframe_list s @ [f], tsch_locked := False\<rparr>"
  have upd: "blk_upd f (\<lambda>x. x\<lparr>sf_handle := h, sf_size := TSCH_ASN_DIVISOR_INIT sz, links_list := []\<rparr>) m
      = blk_upd f (\<lambda>_. ?x) m"
    by (cases "mb_mem m f") (simp add: blk_upd_def)
  have "tsch_schedule_add_slotframe h sz s = (Some f, ?s')"
    using ok(1) none i(4) al f
    by (simp add: tsch_schedule_add_slotframe_def sf_upd_def tsch_release_lock_def Let_def upd alist_add_new)
  moreover have "s_inv ?s'"
    by (rule s_inv_add_sf [OF i(2) al ok(1,2), where x = ?x]) simp_all
  moreover have "q_inv ?s'" using i(1) q_inv_cong [of ?s' s] by simp
  moreover have "tx_inv ?s'" using i(3) by (simp add: tx_inv_def tx_links_to_def has_tx_def)
  ultimately show ?thesis
    using that [of f ?s'] i(5) f a(5) by (simp add: sched_inv_def)
qed

lemma s_inv_add_link:
  assumes inv: "s_inv s" and f: "f \<in> set (slotframe_list s)" and al: "memb_alloc (link_memb s) = (Some l, m)"
    and ts: "ts < div_val (sf_size (sframe s f))" "\<And>k. k \<in> set (links_list (sframe s f)) \<Longrightarrow> timeslot (link s k) \<noteq> ts"
    and x: "timeslot x = ts" "slotframe_handle x = sf_handle (sframe s f)" "channel_offset x \<le> 15" "is_linkaddr (l_addr x)"
    and s': "link_memb s' = blk_upd l (\<lambda>_. x) m"
      "slotframe_memb s' = blk_upd f (\<lambda>y. y\<lparr>links_list := links_list y @ [l]\<rparr>) (slotframe_memb s)"
      "slotframe_list s' = slotframe_list s" "current_link s' = current_link s"
  shows "s_inv s'"
proof -
  let ?L = "set (slotframe_list s)"
  note d = s_invD [OF inv] and a = memb_alloc_Some [OF al]
  have links: "links_list (sframe s' g) = (if g = f then links_list (sframe s f) @ [l] else links_list (sframe s g))"
    and hd: "sf_handle (sframe s' g) = sf_handle (sframe s g)" and sz: "sf_size (sframe s' g) = sf_size (sframe s g)" for g
    by (simp_all add: s')
  have new: "link s' l = x" and old: "\<And>k. k \<noteq> l \<Longrightarrow> link s' k = link s k" using a(5) by (simp_all add: s')
  have fresh: "l \<notin> set (links_list (sframe s g))" if "g \<in> ?L" for g using a(2) d(6) that by auto
  have wf_old: "sf_wf s' g" if g: "g \<in> ?L" "g \<noteq> f" for g
  proof -
    have "link s' k = link s k" if "k \<in> set (links_list (sframe s g))" for k using fresh [OF g(1)] that old [of k] by auto
    then show ?thesis
      using d(5) [OF g(1)] g(2) unfolding sf_wf_def sf_ok_def hd sz links by (simp add: inj_on_def)
  qed
  have wf_new: "sf_wf s' f"
  proof -
    have o: "link s' k = link s k" if "k \<in> set (links_list (sframe s f))" for k using fresh [OF f] that old [of k] by auto
    have "inj_on (\<lambda>k. timeslot (link s' k)) (insert l (set (links_list (sframe s f))))"
    proof -
      have "inj_on (\<lambda>k. timeslot (link s k)) (set (links_list (sframe s f)))"
        using d(5) [OF f] by (simp add: sf_wf_def)
      then have "inj_on (\<lambda>k. timeslot (link s' k)) (set (links_list (sframe s f)))"
        by (rule inj_on_cong [THEN iffD1, rotated]) (simp add: o)
      moreover have "timeslot (link s' l) \<notin> (\<lambda>k. timeslot (link s' k)) ` set (links_list (sframe s f))"
      proof
        assume "timeslot (link s' l) \<in> (\<lambda>k. timeslot (link s' k)) ` set (links_list (sframe s f))"
        then obtain k where k: "k \<in> set (links_list (sframe s f))" "timeslot (link s' l) = timeslot (link s' k)"
          by blast
        then show False using ts(2) [OF k(1)] new x(1) o [OF k(1)] by simp
      qed
      ultimately show ?thesis unfolding inj_on_insert using fresh [OF f] by simp
    qed
    then show ?thesis
      using d(5) [OF f] fresh [OF f] new x ts(1) o unfolding sf_wf_def sf_ok_def hd sz links by auto
  qed
  have "(\<Union>g \<in> ?L. set (links_list (sframe s' g))) = insert l (\<Union>g \<in> ?L. set (links_list (sframe s g)))"
    using f by (auto simp: links split: if_splits)
  then have un: "(\<Union>g \<in> ?L. set (links_list (sframe s' g))) = memb_used (link_memb s')"
    using d(6) a(3) by (simp add: s'(1))
  have dj: "set (links_list (sframe s' g)) \<inter> set (links_list (sframe s' h)) = {}"
    if "g \<in> ?L" "h \<in> ?L" "g \<noteq> h" for g h
    using d(7) [OF that] fresh [OF that(1)] fresh [OF that(2)] that(3) by (auto simp: links)
  have "k \<in> memb_used (link_memb s')" if "current_link s = Some k" for k
    using that d(9) [of k] a(3) by (simp add: s'(1))
  moreover have "memb_inv (link_memb s')" "memb_inv (slotframe_memb s')"
      "?L = memb_used (slotframe_memb s')"
    using a(6) d(1,2,4) by (simp_all add: s')
  moreover have "sf_wf s' g" if "g \<in> ?L" for g using wf_old [OF that] wf_new by (cases "g = f") simp_all
  ultimately show ?thesis
    using d(3,8) un dj unfolding s_inv_def s'(3,4) hd by blast
qed


lemma link_by_timeslot:
  assumes inv: "sched_inv s" and f: "f \<in> set (slotframe_list s)"
  shows "tsch_schedule_get_link_by_timeslot (Some f) ts s = Some l \<longleftrightarrow>
    l \<in> set (links_list (sframe s f)) \<and> timeslot (link s l) = ts"
proof -
  have i: "s_inv s" "\<not> tsch_locked s" using inv by (simp_all add: sched_inv_def)
  have inj: "inj_on (\<lambda>l. timeslot (link s l)) (set (links_list (sframe s f)))"
    using s_invD(5) [OF i(1) f] by (simp add: sf_wf_def)
  let ?P = "\<lambda>l. timeslot (link s l) = ts"
  have eq: "tsch_schedule_get_link_by_timeslot (Some f) ts s = find ?P (links_list (sframe s f))"
    using i(2) by (simp add: tsch_schedule_get_link_by_timeslot_def)
  have sound: "m \<in> set (links_list (sframe s f)) \<and> ?P m" if "find ?P (links_list (sframe s f)) = Some m" for m
    using find_sound [OF that] .
  show ?thesis
  proof
    assume "tsch_schedule_get_link_by_timeslot (Some f) ts s = Some l"
    then show "l \<in> set (links_list (sframe s f)) \<and> ?P l" using sound eq by simp
  next
    assume l: "l \<in> set (links_list (sframe s f)) \<and> ?P l"
    then obtain m where m: "find ?P (links_list (sframe s f)) = Some m"
      using find_ex [of l "links_list (sframe s f)" ?P] by auto
    then have "m = l" using sound [OF m] l inj_onD [OF inj, of m l] by simp
    then show "tsch_schedule_get_link_by_timeslot (Some f) ts s = Some l" using eq m by simp
  qed
qed

lemma remove_by_timeslot_spec:
  assumes inv: "sched_inv s" and f: "f \<in> set (slotframe_list s)"
  obtains s' where "snd (tsch_schedule_remove_link_by_timeslot (Some f) ts s) = s'" "sched_inv s'"
    "slotframe_list s' = slotframe_list s" "\<And>g. g \<noteq> f \<Longrightarrow> sframe s' g = sframe s g"
    "links_list (sframe s' f) = filter (\<lambda>l. timeslot (link s l) \<noteq> ts) (links_list (sframe s f))"
    "sf_size (sframe s' f) = sf_size (sframe s f)" "sf_handle (sframe s' f) = sf_handle (sframe s f)"
    "\<And>k. link s' k = link s k" "mb_num (link_memb s') = mb_num (link_memb s)"
proof (cases "tsch_schedule_get_link_by_timeslot (Some f) ts s")
  case None
  then have "\<not> (l \<in> set (links_list (sframe s f)) \<and> timeslot (link s l) = ts)" for l
    using link_by_timeslot [OF inv f, of ts l] by simp
  then have "filter (\<lambda>l. timeslot (link s l) \<noteq> ts) (links_list (sframe s f)) = links_list (sframe s f)"
    by (intro filter_True) blast
  then show ?thesis
    using that [of s] inv None by (simp add: tsch_schedule_remove_link_by_timeslot_def tsch_schedule_remove_link_def)
next
  case (Some l)
  then have l: "l \<in> set (links_list (sframe s f))" "timeslot (link s l) = ts"
    using link_by_timeslot [OF inv f, of ts l] by simp_all
  obtain s' where s': "tsch_schedule_remove_link (Some f) (Some l) s = (1, s')" "link_removed f l s s'"
    using remove_link_spec [OF inv f l(1)] .
  have wf: "distinct (links_list (sframe s f))" "inj_on (\<lambda>l. timeslot (link s l)) (set (links_list (sframe s f)))"
    using s_invD(5) [of s f] inv f by (auto simp: sched_inv_def sf_wf_def)
  have "remove1 l (links_list (sframe s f)) = filter (\<lambda>k. k \<noteq> l) (links_list (sframe s f))"
    using wf(1) by (simp add: distinct_remove1_removeAll removeAll_filter_not_eq) (metis (mono_tags, lifting) filter_cong)
  also have "\<dots> = filter (\<lambda>k. timeslot (link s k) \<noteq> ts) (links_list (sframe s f))"
    using inj_onD [OF wf(2)] l by (intro filter_cong) auto
  finally show ?thesis
    using that [of s'] s' link_removedD [OF s'(2)] Some
    by (simp add: tsch_schedule_remove_link_by_timeslot_def link_removed_def)
qed

text \<open>The contract of \<open>tsch_schedule_add_link\<close> on success.\<close>

definition link_added :: "nat \<Rightarrow> u8 \<Rightarrow> link_type \<Rightarrow> linkaddr \<Rightarrow> u16 \<Rightarrow> u16 \<Rightarrow> tsch \<Rightarrow> nat \<Rightarrow> tsch \<Rightarrow> bool" where
  "link_added f opts lt a ts co s l s' \<longleftrightarrow> sched_inv s' \<and> slotframe_list s' = slotframe_list s \<and>
     links_list (sframe s' f) = filter (\<lambda>k. timeslot (link s k) \<noteq> ts) (links_list (sframe s f)) @ [l] \<and>
     sf_size (sframe s' f) = sf_size (sframe s f) \<and> sf_handle (sframe s' f) = sf_handle (sframe s f) \<and>
     (\<forall>g. g \<noteq> f \<longrightarrow> sframe s' g = sframe s g) \<and>
     link_options (link s' l) = opts \<and> l_type (link s' l) = lt \<and> l_addr (link s' l) = a \<and>
     timeslot (link s' l) = ts \<and> channel_offset (link s' l) = co \<and>
     slotframe_handle (link s' l) = sf_handle (sframe s f)"

text \<open>A neighbor for the address exists or can be created.\<close>

definition nbr_avail :: "linkaddr \<Rightarrow> tsch \<Rightarrow> bool" where
  "nbr_avail a s \<longleftrightarrow> 0 < memb_numfree (neighbor_memb s) \<or> a \<in> (\<lambda>n. n_addr (nbr s n)) ` set (neighbor_list s)"

text \<open>Installing the new link in a slotframe with a free timeslot.\<close>

lemma install_link:
  assumes inv: "sched_inv s" and f: "f \<in> set (slotframe_list s)" and al: "memb_alloc (link_memb s) = (Some l, m)"
    and ts: "ts < div_val (sf_size (sframe s f))" "\<And>k. k \<in> set (links_list (sframe s f)) \<Longrightarrow> timeslot (link s k) \<noteq> ts"
    and co: "co \<le> 15" and a: "is_linkaddr a"
    and nok: "opts AND LINK_OPTION_TX \<noteq> 0 \<Longrightarrow> nbr_avail a s"
    and x: "x = \<lparr>l_handle = hnd, l_addr = a, slotframe_handle = sf_handle (sframe s f), timeslot = ts,
      channel_offset = co, link_options = opts, l_type = lt\<rparr>"
    and t: "t = s\<lparr>tsch_lock_requested := False, slotframe_memb := blk_upd f (\<lambda>y. y\<lparr>links_list := links_list y @ [l]\<rparr>) (slotframe_memb s),
      link_memb := blk_upd l (\<lambda>_. x) m, current_link_handle := c, tsch_locked := False\<rparr>"
  shows "link_added f opts lt a ts co s l (count_tx_link (\<lambda>c. c + 1) opts a t)" (is "link_added f opts lt a ts co s l ?s'")
proof -
  have i: "q_inv s" "s_inv s" "tx_inv s" "\<not> tsch_locked s" "mb_num (link_memb s) < 256"
    using inv by (simp_all add: sched_inv_def)
  note ma = memb_alloc_Some [OF al]
  have tf: "link_memb t = blk_upd l (\<lambda>_. x) m" "slotframe_list t = slotframe_list s" "\<not> tsch_locked t"
      "slotframe_memb t = blk_upd f (\<lambda>y. y\<lparr>links_list := links_list y @ [l]\<rparr>) (slotframe_memb s)"
      "current_link t = current_link s" "neighbor_list t = neighbor_list s" "\<And>k. nbr t k = nbr s k"
      "neighbor_memb t = neighbor_memb s"
    by (simp_all add: t)
  have q: "q_inv t" using i(1) q_inv_cong [of t s] by (simp add: t)
  have st: "s_inv t"
    by (rule s_inv_add_link [OF i(2) f al ts, where x = x]) (simp_all add: x co a tf)
  note fr = count_tx_frame [OF q tf(3) a refl, where opts = opts and chg = "\<lambda>c. c + 1"]
  have avail: "fst (tsch_queue_add_nbr a t) \<noteq> None" if "opts AND LINK_OPTION_TX \<noteq> 0"
    using add_nbr_spec [OF q a tf(3)] nok [OF that] unfolding nbr_avail_def nbr_added_def tf(6,8)
    by (auto split: option.splits)
  have tl: "link t l = x" "\<And>k. k \<in> memb_used (link_memb s) \<Longrightarrow> link t k = link s k"
    using ma(2,5) by (auto simp: tf)
  have "card (memb_used (link_memb t)) < 256"
    using card_memb_used [of "link_memb t"] ma(4) i(5) by (simp add: tf)
  then have "tx_inv ?s'"
    using tl ma(2,3) avail by (intro tx_inv_count_up [OF i(3) q tf(3) tf(6,7), where l = l]) (simp_all add: tf x a)
  moreover have "s_inv ?s'" using st fr s_inv_cong [of ?s' t] by simp
  ultimately have "sched_inv ?s'" using fr i(5) ma(4) by (simp add: sched_inv_def tf)
  moreover have "filter (\<lambda>k. timeslot (link s k) \<noteq> ts) (links_list (sframe s f)) = links_list (sframe s f)"
    using ts(2) by (intro filter_True) blast
  ultimately show ?thesis
    using fr tl(1) x unfolding link_added_def by (simp add: tf)
qed

end
