(* ===== verification/TschScheduleProps.thy ===== *)
theory TschScheduleProps
  imports TschScheduleInv TschQueueProps
begin

text \<open>Properties of the schedule module: what adding and removing links and slotframes do to the schedule and to the
  neighbor counters, and the 6TiSCH minimal schedule.\<close>

lemma add_link_spec:
  assumes inv: "sched_inv s" and f: "f \<in> set (slotframe_list s)"
    and ts: "ts < div_val (sf_size (sframe s f))" and co: "co \<le> 15"
    and a: "is_linkaddr a" "addr = Some a \<or> addr = None \<and> a = linkaddr_null"
    and s0: "s0 = snd (tsch_schedule_remove_link_by_timeslot (Some f) ts s)"
    and free: "0 < memb_numfree (link_memb s0)" "opts AND LINK_OPTION_TX \<noteq> 0 \<Longrightarrow> nbr_avail a s0"
  obtains l s' where "tsch_schedule_add_link (Some f) opts lt addr ts co s = (Some l, s')"
    "link_added f opts lt a ts co s l s'"
proof -
  have r: "sched_inv s0" "slotframe_list s0 = slotframe_list s" "\<And>g. g \<noteq> f \<Longrightarrow> sframe s0 g = sframe s g"
    "links_list (sframe s0 f) = filter (\<lambda>l. timeslot (link s l) \<noteq> ts) (links_list (sframe s f))"
    "sf_size (sframe s0 f) = sf_size (sframe s f)" "sf_handle (sframe s0 f) = sf_handle (sframe s f)"
    "\<And>k. link s0 k = link s k"
    using remove_by_timeslot_spec [OF inv f, of ts] unfolding s0 by blast+
  have ul: "\<not> tsch_locked s0" using r(1) by (simp add: sched_inv_def)
  have f0: "f \<in> set (slotframe_list s0)" using f r(2) by simp
  obtain l m where al: "memb_alloc (link_memb s0) = (Some l, m)"
    using free(1) by (cases rule: memb_alloc_cases [of "link_memb s0"]) (auto simp: memb_numfree_eq)
  have l: "l \<notin> set (links_list (sframe s0 f))"
    using memb_alloc_Some(2) [OF al] s_invD(6) [of s0] r(1) f0 by (auto simp: sched_inv_def)
  have guard: "\<not> uint ts > uint (div_val (sf_size (sframe s f))) - 1"
    using ts by (simp add: word_less_def)
  let ?x = "\<lparr>l_handle = word_of_int (current_link_handle s0), l_addr = a, slotframe_handle = sf_handle (sframe s0 f),
    timeslot = ts, channel_offset = co, link_options = opts, l_type = lt\<rparr> :: tsch_link"
  let ?t = "s0\<lparr>tsch_lock_requested := False, slotframe_memb := blk_upd f (\<lambda>y. y\<lparr>links_list := links_list y @ [l]\<rparr>) (slotframe_memb s0),
      link_memb := blk_upd l (\<lambda>_. ?x) m, current_link_handle := current_link_handle s0 + 1, tsch_locked := False\<rparr>"
  have upd: "blk_upd f (\<lambda>y. y\<lparr>links_list := alist_add l (links_list y)\<rparr>) (slotframe_memb s0)
      = blk_upd f (\<lambda>y. y\<lparr>links_list := links_list y @ [l]\<rparr>) (slotframe_memb s0)"
    using l by (simp add: blk_upd_def alist_add_new)
  have copy: "linkaddr_copy linkaddr_null (case addr of None \<Rightarrow> linkaddr_null | Some x \<Rightarrow> x) = a"
    using a by (auto split: option.splits)
  have "tsch_schedule_add_link (Some f) opts lt addr ts co s = (Some l, count_tx_link (\<lambda>c. c + 1) opts a ?t)"
    using guard co ul al copy
    by (simp add: tsch_schedule_add_link_def s0 [symmetric] sf_upd_def link_upd_def tsch_release_lock_def Let_def upd not_less
        flip: not_le)
  moreover have "link_added f opts lt a ts co s0 l (count_tx_link (\<lambda>c. c + 1) opts a ?t)"
    using ts r(4,5,7) free(2) by (intro install_link [OF r(1) f0 al _ _ co a(1) _ refl refl]) auto
  then have "link_added f opts lt a ts co s l (count_tx_link (\<lambda>c. c + 1) opts a ?t)"
    using r unfolding link_added_def by simp
  ultimately show ?thesis using that by blast
qed


section \<open>The schedule after boot\<close>

lemma pool_simps: "mb_num (pool k z) = k" "memb_used (pool k z) = {}" "memb_inv (pool k z)" "mb_mem (pool k z) i = z"
  by (simp_all add: pool_def memb_used_def memb_inv_def)

lemma sched_inv_boot: "sched_inv tsch_boot"
proof -
  note b = tsch_boot_spec
  have l: "slotframe_list tsch_boot = []" "link_memb tsch_boot = pool 32 link_zero"
      "slotframe_memb tsch_boot = pool 4 sf_zero" "current_link tsch_boot = None"
    using b by (simp_all add: TSCH_SCHEDULE_MAX_LINKS_def TSCH_SCHEDULE_MAX_SLOTFRAMES_def)
  have "s_inv tsch_boot" by (simp add: s_inv_def l pool_simps)
  moreover have "tx_inv tsch_boot"
    using b by (simp add: tx_inv_def tx_links_to_def l pool_simps)
  ultimately show ?thesis using b by (simp add: sched_inv_def l pool_simps TSCH_SCHEDULE_MAX_LINKS_def)
qed

lemma boot_free_pools:
  "0 < memb_numfree (slotframe_memb tsch_boot)" "0 < memb_numfree (link_memb tsch_boot)" "slotframe_list tsch_boot = []"
  using tsch_boot_spec
  by (simp_all add: memb_numfree_eq pool_simps TSCH_SCHEDULE_MAX_LINKS_def TSCH_SCHEDULE_MAX_SLOTFRAMES_def)

lemma add_first_slotframe:
  assumes "sched_inv s" "slotframe_list s = []" "0 < memb_numfree (slotframe_memb s)" "sz \<noteq> 0"
  obtains f s' where "tsch_schedule_add_slotframe h sz s = (Some f, s')" "sched_inv s'" "slotframe_list s' = [f]"
    "sframe s' f = \<lparr>sf_handle = h, sf_size = TSCH_ASN_DIVISOR_INIT sz, links_list = []\<rparr>"
    "link_memb s' = link_memb s" "neighbor_memb s' = neighbor_memb s" "neighbor_list s' = neighbor_list s"
    "snd (tsch_schedule_remove_link_by_timeslot (Some f) ts s') = s'"
proof (rule add_slotframe_spec [OF assms(1,4), of h])
  fix f s'
  assume a: "tsch_schedule_add_slotframe h sz s = (Some f, s')" "sched_inv s'" "slotframe_list s' = slotframe_list s @ [f]"
    "sframe s' f = \<lparr>sf_handle = h, sf_size = TSCH_ASN_DIVISOR_INIT sz, links_list = []\<rparr>"
    "link_memb s' = link_memb s" "neighbor_memb s' = neighbor_memb s" "neighbor_list s' = neighbor_list s"
  then have "snd (tsch_schedule_remove_link_by_timeslot (Some f) ts s') = s'"
    by (simp add: tsch_schedule_remove_link_by_timeslot_def tsch_schedule_get_link_by_timeslot_def
        tsch_schedule_remove_link_def)
  with a show thesis using assms(2) by (intro that) simp_all
qed (use assms in simp_all)

lemma boot_slotframe:
  obtains f s where "tsch_schedule_add_slotframe 0 7 tsch_boot = (Some f, s)" "sched_inv s" "slotframe_list s = [f]"
    "sframe s f = \<lparr>sf_handle = 0, sf_size = TSCH_ASN_DIVISOR_INIT 7, links_list = []\<rparr>"
    "0 < memb_numfree (link_memb s)" "0 < memb_numfree (neighbor_memb s)"
    "snd (tsch_schedule_remove_link_by_timeslot (Some f) 3 s) = s"
proof (rule add_first_slotframe [OF sched_inv_boot, of 7 0 3])
  fix f s
  assume "tsch_schedule_add_slotframe 0 7 tsch_boot = (Some f, s)" "sched_inv s" "slotframe_list s = [f]"
    "sframe s f = \<lparr>sf_handle = 0, sf_size = TSCH_ASN_DIVISOR_INIT 7, links_list = []\<rparr>"
    "link_memb s = link_memb tsch_boot" "neighbor_memb s = neighbor_memb tsch_boot"
    "snd (tsch_schedule_remove_link_by_timeslot (Some f) 3 s) = s"
  then show thesis using boot_free_pools tsch_boot_free(1) by (intro that) simp_all
qed (use boot_free_pools in simp_all)

section \<open>Properties\<close>

text \<open>C23. Adding a link: with a timeslot inside the slotframe and a channel offset up to 15, and while link and neighbor blocks
  last, the new link replaces whatever link the timeslot had, is the last of the slotframe's list with the
  given fields, no other slotframe changes, and all invariants hold afterwards: one link per
  timeslot, and transmit counters equal to the number of transmit links. An invalid timeslot or channel
  offset is refused without any change.\<close>

theorem add_link_installs:
  assumes "sched_inv s" "f \<in> set (slotframe_list s)" "is_linkaddr a"
    and s0: "s0 = snd (tsch_schedule_remove_link_by_timeslot (Some f) ts s)"
    and free: "0 < memb_numfree (link_memb s0)" "nbr_avail a s0"
  shows "if ts < div_val (sf_size (sframe s f)) \<and> co \<le> 15
    then \<exists>l s'. tsch_schedule_add_link (Some f) opts lt (Some a) ts co s = (Some l, s') \<and>
                link_added f opts lt a ts co s l s' \<and>
                tsch_schedule_get_link_by_timeslot (Some f) ts s' = Some l
    else tsch_schedule_add_link (Some f) opts lt (Some a) ts co s = (None, s)"
proof (cases "ts < div_val (sf_size (sframe s f)) \<and> co \<le> 15")
  case True
  obtain l s' where s': "tsch_schedule_add_link (Some f) opts lt (Some a) ts co s = (Some l, s')"
      "link_added f opts lt a ts co s l s'"
    using add_link_spec [OF assms(1,2) _ _ assms(3) _ s0 free(1), of co "Some a" opts lt] True free(2) by auto
  have "tsch_schedule_get_link_by_timeslot (Some f) ts s' = Some l"
    using link_by_timeslot [of s' f ts l] s'(2) assms(2) by (simp add: link_added_def)
  then show ?thesis using True s' by auto
next
  case False
  then have "uint ts > uint (div_val (sf_size (sframe s f))) - 1 \<or> co > 15"
    by (auto simp: word_less_def not_less not_le)
  then show ?thesis using False by (auto simp: tsch_schedule_add_link_def)
qed

theorem add_link_installs_witness:
  "\<exists>f l s s'. tsch_schedule_add_slotframe 0 7 tsch_boot = (Some f, s) \<and>
     tsch_schedule_add_link (Some f) 3 LINK_TYPE_NORMAL (Some [1, 2, 3, 4, 5, 6, 7, 8]) 3 5 s = (Some l, s') \<and>
     links_list (sframe s' f) = [l] \<and> timeslot (link s' l) = 3"
proof -
  obtain f s where s: "tsch_schedule_add_slotframe 0 7 tsch_boot = (Some f, s)" "sched_inv s" "slotframe_list s = [f]"
    "sframe s f = \<lparr>sf_handle = 0, sf_size = TSCH_ASN_DIVISOR_INIT 7, links_list = []\<rparr>"
    "0 < memb_numfree (link_memb s)" "0 < memb_numfree (neighbor_memb s)"
    "snd (tsch_schedule_remove_link_by_timeslot (Some f) 3 s) = s"
    by (rule boot_slotframe)
  have "\<exists>l s'. tsch_schedule_add_link (Some f) 3 LINK_TYPE_NORMAL (Some [1, 2, 3, 4, 5, 6, 7, 8]) 3 5 s = (Some l, s') \<and>
      link_added f 3 LINK_TYPE_NORMAL [1, 2, 3, 4, 5, 6, 7, 8] 3 5 s l s'"
    using add_link_installs [OF s(2) _ _ s(7) [symmetric] s(5), of "[1, 2, 3, 4, 5, 6, 7, 8]" 5 3 LINK_TYPE_NORMAL] s(3,4,6)
    by (simp add: nbr_avail_def is_linkaddr_def LINKADDR_SIZE_def asn_divisor_val) blast
  then show ?thesis using s(1,4) by (auto simp: link_added_def)
qed

text \<open>Removing a link of a slotframe: it succeeds, exactly that link leaves the slotframe and the pool, it stops being
  the current link, the neighbor's transmit counter drops with it, and all invariants hold.\<close>

theorem remove_link_exact:
  assumes "sched_inv s" "f \<in> set (slotframe_list s)" "l \<in> set (links_list (sframe s f))"
  shows "\<exists>s'. tsch_schedule_remove_link (Some f) (Some l) s = (1, s') \<and> link_removed f l s s'"
  using remove_link_spec [OF assms] by blast

theorem remove_link_exact_witness:
  "\<exists>f l s t s'. tsch_schedule_add_slotframe 0 7 tsch_boot = (Some f, s) \<and>
     tsch_schedule_add_link (Some f) 3 LINK_TYPE_NORMAL (Some [1, 2, 3, 4, 5, 6, 7, 8]) 3 5 s = (Some l, t) \<and>
     tsch_schedule_remove_link (Some f) (Some l) t = (1, s') \<and> links_list (sframe s' f) = []"
proof -
  obtain f s where s: "tsch_schedule_add_slotframe 0 7 tsch_boot = (Some f, s)" "sched_inv s" "slotframe_list s = [f]"
    "sframe s f = \<lparr>sf_handle = 0, sf_size = TSCH_ASN_DIVISOR_INIT 7, links_list = []\<rparr>"
    "0 < memb_numfree (link_memb s)" "0 < memb_numfree (neighbor_memb s)"
    "snd (tsch_schedule_remove_link_by_timeslot (Some f) 3 s) = s"
    by (rule boot_slotframe)
  obtain l t where t: "tsch_schedule_add_link (Some f) 3 LINK_TYPE_NORMAL (Some [1, 2, 3, 4, 5, 6, 7, 8]) 3 5 s = (Some l, t)"
      "link_added f 3 LINK_TYPE_NORMAL [1, 2, 3, 4, 5, 6, 7, 8] 3 5 s l t"
    using add_link_spec [OF s(2) _ _ _ _ _ s(7) [symmetric] s(5), of 5 "[1, 2, 3, 4, 5, 6, 7, 8]" "Some [1, 2, 3, 4, 5, 6, 7, 8]" 3 LINK_TYPE_NORMAL]
      s(3,4,6) by (auto simp: nbr_avail_def is_linkaddr_def LINKADDR_SIZE_def asn_divisor_val)
  have "sched_inv t" "f \<in> set (slotframe_list t)" "links_list (sframe t f) = [l]"
    using t(2) s(3,4) by (simp_all add: link_added_def)
  then obtain s' where "tsch_schedule_remove_link (Some f) (Some l) t = (1, s')" "link_removed f l t s'"
    using remove_link_exact [of t f l] by auto
  then show ?thesis using s(1) t(1) \<open>links_list (sframe t f) = [l]\<close> link_removedD [of f l t s'] by auto
qed

text \<open>Emptying the schedule terminates: removing all slotframes succeeds from every state that satisfies the invariants,
  leaves no slotframe and no allocated link, and keeps the invariants (so every neighbor's transmit counter is zero).\<close>

theorem remove_all_slotframes_empties:
  assumes "sched_inv s"
  shows "\<exists>s'. tsch_schedule_remove_all_slotframes s = Some (1, s') \<and> sched_inv s' \<and>
    slotframe_list s' = [] \<and> memb_used (link_memb s') = {} \<and>
    (\<forall>n \<in> set (neighbor_list s'). tx_links_count (nbr s' n) = 0)"
proof -
  obtain s' where s': "tsch_schedule_remove_all_slotframes s = Some (1, s')" "sched_inv s'"
      "slotframe_list s' = []" "memb_used (link_memb s') = {}"
    using remove_all_spec [OF assms] by blast
  moreover have "tx_links_count (nbr s' n) = 0" if "n \<in> set (neighbor_list s')" for n
    using s'(2,4) that by (simp add: sched_inv_def tx_inv_def tx_links_to_def unat_eq_zero)
  ultimately show ?thesis by blast
qed

theorem remove_all_slotframes_empties_witness:
  "\<exists>s'. tsch_schedule_remove_all_slotframes tsch_boot = Some (1, s') \<and> slotframe_list s' = []"
  using remove_all_slotframes_empties [OF sched_inv_boot] by blast

text \<open>The 6TiSCH minimal schedule: from every consistent state that has the broadcast neighbor the schedule
  ends up with exactly one slotframe (handle 0, length 7) holding exactly one link, the shared advertising link
  in timeslot 0 and channel offset 0, whatever was scheduled before; all invariants hold, and the next
  active link at any absolute slot number is this link, at the distance to the next multiple of the slotframe length.\<close>

theorem create_minimal_schedule:
  assumes inv: "sched_inv s" and nb: "tsch_broadcast_address \<in> (\<lambda>n. n_addr (nbr s n)) ` set (neighbor_list s)"
    and room: "0 < mb_num (link_memb s)" "0 < mb_num (slotframe_memb s)"
  shows "\<exists>f l s'. tsch_schedule_create_minimal s = Some s' \<and> sched_inv s' \<and> slotframe_list s' = [f] \<and>
    sf_handle (sframe s' f) = 0 \<and> links_list (sframe s' f) = [l] \<and> timeslot (link s' l) = 0 \<and>
    channel_offset (link s' l) = 0 \<and> link_options (link s' l) = 15 \<and> l_type (link s' l) = LINK_TYPE_ADVERTISING \<and>
    l_addr (link s' l) = tsch_broadcast_address \<and>
    (\<forall>asn. \<exists>bk. tsch_schedule_get_next_active_link asn s' =
       (Some l, Some (7 - word_of_nat (asn_val asn mod 7)), bk))"
proof -
  obtain s1 where s1: "tsch_schedule_remove_all_slotframes s = Some (1, s1)" "sched_inv s1" "slotframe_list s1 = []"
      "memb_used (link_memb s1) = {}" "same_nbrs s s1" "mb_num (link_memb s1) = mb_num (link_memb s)"
      "mb_num (slotframe_memb s1) = mb_num (slotframe_memb s)"
    using remove_all_spec [OF inv] by blast
  have "memb_used (slotframe_memb s1) = {}" using s1(2,3) s_invD(4) [of s1] by (simp add: sched_inv_def)
  then have "0 < memb_numfree (slotframe_memb s1)" using room(2) s1(7) by (simp add: memb_numfree_eq)
  then obtain f s2 where s2: "tsch_schedule_add_slotframe 0 7 s1 = (Some f, s2)" "sched_inv s2" "slotframe_list s2 = [f]"
    "sframe s2 f = \<lparr>sf_handle = 0, sf_size = TSCH_ASN_DIVISOR_INIT 7, links_list = []\<rparr>"
    "link_memb s2 = link_memb s1" "neighbor_memb s2 = neighbor_memb s1" "neighbor_list s2 = neighbor_list s1"
    and no: "snd (tsch_schedule_remove_link_by_timeslot (Some f) 0 s2) = s2"
    by (rule add_first_slotframe [OF s1(2,3), of 7 0 0]) simp_all
  have nb2: "nbr_avail tsch_broadcast_address s2"
    using nb s1(5) unfolding nbr_avail_def same_nbrs_def s2(6,7) by simp
  obtain l s' where s': "tsch_schedule_add_link (Some f) 15 LINK_TYPE_ADVERTISING (Some tsch_broadcast_address) 0 0 s2 = (Some l, s')"
      "link_added f 15 LINK_TYPE_ADVERTISING tsch_broadcast_address 0 0 s2 l s'"
    using add_link_spec [OF s2(2) _ _ _ _ _ no [symmetric], of 0 tsch_broadcast_address "Some tsch_broadcast_address" 15]
      s2(3,4,5) s1(4,6) room(1) nb2 by (auto simp: asn_divisor_val memb_numfree_eq is_linkaddr_def tsch_broadcast_address_def)
  have opts: "LINK_OPTION_RX OR LINK_OPTION_TX OR LINK_OPTION_SHARED OR LINK_OPTION_TIME_KEEPING = 15"
    by (simp add: LINK_OPTION_RX_def LINK_OPTION_TX_def LINK_OPTION_SHARED_def LINK_OPTION_TIME_KEEPING_def)
  have "tsch_schedule_create_minimal s = Some s'"
    using s1(1) s2(1) s'(1)
    by (simp add: tsch_schedule_create_minimal_def TSCH_SCHEDULE_DEFAULT_LENGTH_def opts)
  moreover have "\<exists>bk. tsch_schedule_get_next_active_link asn s' = (Some l, Some (7 - word_of_nat (asn_val asn mod 7)), bk)" for asn
  proof -
    let ?now = "TSCH_ASN_MOD asn (TSCH_ASN_DIVISOR_INIT 7)"
    have n: "unat ?now = asn_val asn mod 7" using asn_mod_val [of 7 asn] by simp
    then have "?now < 7" by (simp add: word_less_nat_alt)
    have "?now = word_of_nat (asn_val asn mod 7)" unfolding n [symmetric] by simp
    then show ?thesis
      using s'(2) s2(3,4) by (simp add: link_added_def tsch_schedule_get_next_active_link_def sched_inv_def
        next_link_slotframe_def next_link_step_def time_to_timeslot_def Let_def asn_divisor_val)
  qed
  ultimately show ?thesis
    using s'(2) s2(3,4) by (auto simp: link_added_def)
qed

theorem create_minimal_schedule_witness:
  "\<exists>f l s'. tsch_schedule_create_minimal tsch_boot = Some s' \<and> slotframe_list s' = [f] \<and>
     links_list (sframe s' f) = [l] \<and> timeslot (link s' l) = 0"
proof -
  obtain b where b: "b \<in> set (neighbor_list tsch_boot)" "n_addr (nbr tsch_boot b) = tsch_broadcast_address"
    by (rule tsch_boot_broadcast)
  then have "tsch_broadcast_address \<in> (\<lambda>n. n_addr (nbr tsch_boot n)) ` set (neighbor_list tsch_boot)"
    by force
  then show ?thesis
    using create_minimal_schedule [OF sched_inv_boot] tsch_boot_spec
    by (auto simp: pool_simps TSCH_SCHEDULE_MAX_LINKS_def TSCH_SCHEDULE_MAX_SLOTFRAMES_def)
qed

end
