(* ===== verification/SixpPkt.thy ===== *)
theory SixpPkt
  imports Packetbuf
begin

text \<open>
  6P messages, \<^verbatim>\<open>os/net/mac/tsch/sixtop/sixp-pkt.c\<close>: the offsets of the fields in the body of a message, writing and
  reading each field, and creating and parsing whole messages. A body is a buffer (None: NULL) together
  with the length the caller passes; a returned -1 is \<open>Failed\<close> and an access outside the
  buffer \<open>Fault\<close>. Getters take a flag that says whether the destination pointer is non-NULL. The 6P code, a union of
  command, return code and \<open>uint8_t\<close>, is a byte, of which the other bytes of the union are zero.
\<close>

section \<open>Types and codes\<close>

datatype sixp_pkt_type_t = SIXP_PKT_TYPE_REQUEST | SIXP_PKT_TYPE_RESPONSE
  | SIXP_PKT_TYPE_CONFIRMATION | SIXP_PKT_TYPE_RESERVED

primrec sixp_type_value :: "sixp_pkt_type_t \<Rightarrow> u8" where
  "sixp_type_value SIXP_PKT_TYPE_REQUEST = 0"
| "sixp_type_value SIXP_PKT_TYPE_RESPONSE = 1"
| "sixp_type_value SIXP_PKT_TYPE_CONFIRMATION = 2"
| "sixp_type_value SIXP_PKT_TYPE_RESERVED = 3"

definition sixp_type_of_value :: "u8 \<Rightarrow> sixp_pkt_type_t" where
  "sixp_type_of_value v = (if v = 0 then SIXP_PKT_TYPE_REQUEST else if v = 1 then SIXP_PKT_TYPE_RESPONSE
     else if v = 2 then SIXP_PKT_TYPE_CONFIRMATION else SIXP_PKT_TYPE_RESERVED)"

lemma sixp_type_of_value_inverse [simp]: "sixp_type_of_value (sixp_type_value t) = t"
  by (cases t) (simp_all add: sixp_type_of_value_def)

abbreviation (input) SIXP_PKT_CMD_ADD :: u8 where "SIXP_PKT_CMD_ADD \<equiv> 1"
abbreviation (input) SIXP_PKT_CMD_DELETE :: u8 where "SIXP_PKT_CMD_DELETE \<equiv> 2"
abbreviation (input) SIXP_PKT_CMD_RELOCATE :: u8 where "SIXP_PKT_CMD_RELOCATE \<equiv> 3"
abbreviation (input) SIXP_PKT_CMD_COUNT :: u8 where "SIXP_PKT_CMD_COUNT \<equiv> 4"
abbreviation (input) SIXP_PKT_CMD_LIST :: u8 where "SIXP_PKT_CMD_LIST \<equiv> 5"
abbreviation (input) SIXP_PKT_CMD_SIGNAL :: u8 where "SIXP_PKT_CMD_SIGNAL \<equiv> 6"
abbreviation (input) SIXP_PKT_CMD_CLEAR :: u8 where "SIXP_PKT_CMD_CLEAR \<equiv> 7"
abbreviation (input) SIXP_PKT_CMD_UNAVAILABLE :: u8 where "SIXP_PKT_CMD_UNAVAILABLE \<equiv> 0xff"

abbreviation (input) SIXP_PKT_RC_SUCCESS :: u8 where "SIXP_PKT_RC_SUCCESS \<equiv> 0"
abbreviation (input) SIXP_PKT_RC_EOL :: u8 where "SIXP_PKT_RC_EOL \<equiv> 1"
abbreviation (input) SIXP_PKT_RC_ERR :: u8 where "SIXP_PKT_RC_ERR \<equiv> 2"
abbreviation (input) SIXP_PKT_RC_RESET :: u8 where "SIXP_PKT_RC_RESET \<equiv> 3"
abbreviation (input) SIXP_PKT_RC_ERR_VERSION :: u8 where "SIXP_PKT_RC_ERR_VERSION \<equiv> 4"
abbreviation (input) SIXP_PKT_RC_ERR_SFID :: u8 where "SIXP_PKT_RC_ERR_SFID \<equiv> 5"
abbreviation (input) SIXP_PKT_RC_ERR_SEQNUM :: u8 where "SIXP_PKT_RC_ERR_SEQNUM \<equiv> 6"
abbreviation (input) SIXP_PKT_RC_ERR_CELLLIST :: u8 where "SIXP_PKT_RC_ERR_CELLLIST \<equiv> 7"
abbreviation (input) SIXP_PKT_RC_ERR_BUSY :: u8 where "SIXP_PKT_RC_ERR_BUSY \<equiv> 8"
abbreviation (input) SIXP_PKT_RC_ERR_LOCKED :: u8 where "SIXP_PKT_RC_ERR_LOCKED \<equiv> 9"

abbreviation (input) SIXP_PKT_VERSION :: u8 where "SIXP_PKT_VERSION \<equiv> 0"

record sixp_pkt_t =
  sp_version :: u8
  sp_type :: sixp_pkt_type_t
  sp_code :: u8
  sp_sfid :: u8
  sp_seqno :: u8
  sp_body :: "u8 list option"
  sp_body_len :: u16

section \<open>Field offsets\<close>

text \<open>The offsets are sums of the field sizes: metadata 2, cell options 1, number of cells 1, reserved 1, offset 2
  bytes. None stands for -1.\<close>

definition get_metadata_offset :: "sixp_pkt_type_t \<Rightarrow> u8 \<Rightarrow> nat option" where
  "get_metadata_offset type code = (if type = SIXP_PKT_TYPE_REQUEST then Some 0 else None)"

definition get_cell_options_offset :: "sixp_pkt_type_t \<Rightarrow> u8 \<Rightarrow> nat option" where
  "get_cell_options_offset type code =
     (if type = SIXP_PKT_TYPE_REQUEST \<and>
         (code = SIXP_PKT_CMD_ADD \<or> code = SIXP_PKT_CMD_DELETE \<or> code = SIXP_PKT_CMD_RELOCATE \<or>
          code = SIXP_PKT_CMD_COUNT \<or> code = SIXP_PKT_CMD_LIST)
      then Some 2 else None)"

definition get_num_cells_offset :: "sixp_pkt_type_t \<Rightarrow> u8 \<Rightarrow> nat option" where
  "get_num_cells_offset type code =
     (if type = SIXP_PKT_TYPE_REQUEST \<and>
         (code = SIXP_PKT_CMD_ADD \<or> code = SIXP_PKT_CMD_DELETE \<or> code = SIXP_PKT_CMD_RELOCATE)
      then Some (2 + 1) else None)"

definition get_reserved_offset :: "sixp_pkt_type_t \<Rightarrow> u8 \<Rightarrow> nat option" where
  "get_reserved_offset type code =
     (if type = SIXP_PKT_TYPE_REQUEST \<and> code = SIXP_PKT_CMD_LIST then Some (2 + 1) else None)"

definition get_offset_offset :: "sixp_pkt_type_t \<Rightarrow> u8 \<Rightarrow> nat option" where
  "get_offset_offset type code =
     (if type = SIXP_PKT_TYPE_REQUEST \<and> code = SIXP_PKT_CMD_LIST then Some (2 + 1 + 1) else None)"

definition get_max_num_cells_offset :: "sixp_pkt_type_t \<Rightarrow> u8 \<Rightarrow> nat option" where
  "get_max_num_cells_offset type code =
     (if type = SIXP_PKT_TYPE_REQUEST \<and> code = SIXP_PKT_CMD_LIST then Some (2 + 1 + 1 + 2) else None)"

definition get_cell_list_offset :: "sixp_pkt_type_t \<Rightarrow> u8 \<Rightarrow> nat option" where
  "get_cell_list_offset type code =
     (if type = SIXP_PKT_TYPE_REQUEST \<and> (code = SIXP_PKT_CMD_ADD \<or> code = SIXP_PKT_CMD_DELETE)
      then Some (2 + 1 + 1)
      else if (type = SIXP_PKT_TYPE_RESPONSE \<or> type = SIXP_PKT_TYPE_CONFIRMATION) \<and>
              (code = SIXP_PKT_RC_SUCCESS \<or> code = SIXP_PKT_RC_EOL)
      then Some 0 else None)"

definition get_rel_cell_list_offset :: "sixp_pkt_type_t \<Rightarrow> u8 \<Rightarrow> nat option" where
  "get_rel_cell_list_offset type code =
     (if type = SIXP_PKT_TYPE_REQUEST \<and> code = SIXP_PKT_CMD_RELOCATE then Some (2 + 1 + 1) else None)"

definition get_total_num_cells_offset :: "sixp_pkt_type_t \<Rightarrow> u8 \<Rightarrow> nat option" where
  "get_total_num_cells_offset type code =
     (if type = SIXP_PKT_TYPE_RESPONSE \<and> code = SIXP_PKT_RC_SUCCESS then Some 0 else None)"

definition get_payload_offset :: "sixp_pkt_type_t \<Rightarrow> u8 \<Rightarrow> nat option" where
  "get_payload_offset type code =
     (if type = SIXP_PKT_TYPE_REQUEST \<and> code = SIXP_PKT_CMD_SIGNAL then Some 2
      else if (type = SIXP_PKT_TYPE_RESPONSE \<or> type = SIXP_PKT_TYPE_CONFIRMATION) \<and>
              code = SIXP_PKT_RC_SUCCESS
      then Some 0 else None)"

lemmas sixp_offset_defs = get_metadata_offset_def get_cell_options_offset_def get_num_cells_offset_def
  get_reserved_offset_def get_offset_offset_def get_max_num_cells_offset_def get_cell_list_offset_def
  get_rel_cell_list_offset_def get_total_num_cells_offset_def get_payload_offset_def

section \<open>Reading and writing fields\<close>

text \<open>The common start of every accessor: fail on a NULL body, then on a message that has no such field.\<close>

definition sixp_field :: "u8 list option \<Rightarrow> nat option \<Rightarrow> (u8 list \<Rightarrow> nat \<Rightarrow> 'a outcome) \<Rightarrow> 'a outcome" where
  "sixp_field body off f =
     (case body of None \<Rightarrow> Failed | Some b \<Rightarrow> (case off of None \<Rightarrow> Failed | Some n \<Rightarrow> f b n))"

text \<open>\<open>p[0] + (p[1] << 8)\<close>.\<close>

definition le16 :: "u8 list \<Rightarrow> u16" where
  "le16 p = ucast (p ! 0) + push_bit 8 (ucast (p ! 1))"

text \<open>Metadata is copied in host byte order, which is little-endian on the supported platforms.\<close>

definition sixp_pkt_set_metadata ::
    "sixp_pkt_type_t \<Rightarrow> u8 \<Rightarrow> u16 \<Rightarrow> u8 list option \<Rightarrow> u16 \<Rightarrow> u8 list outcome" where
  "sixp_pkt_set_metadata type code metadata body body_len =
     sixp_field body (get_metadata_offset type code) (\<lambda>b n.
       if unat body_len < n + 2 then Failed else mem_write n (write16 metadata) b)"

definition sixp_pkt_get_metadata ::
    "sixp_pkt_type_t \<Rightarrow> u8 \<Rightarrow> bool \<Rightarrow> u8 list option \<Rightarrow> u16 \<Rightarrow> u16 outcome" where
  "sixp_pkt_get_metadata type code dst body body_len =
     (if \<not> dst then Failed else
      sixp_field body (get_metadata_offset type code) (\<lambda>b n.
        if unat body_len < n + 2 then Failed
        else obind (mem_read n 2 b) (\<lambda>p. Done (read16 (p ! 0) (p ! 1)))))"

definition sixp_pkt_set_cell_options ::
    "sixp_pkt_type_t \<Rightarrow> u8 \<Rightarrow> u8 \<Rightarrow> u8 list option \<Rightarrow> u16 \<Rightarrow> u8 list outcome" where
  "sixp_pkt_set_cell_options type code cell_options body body_len =
     sixp_field body (get_cell_options_offset type code) (\<lambda>b n.
       if unat body_len < n + 1 then Failed else mem_write n [cell_options] b)"

definition sixp_pkt_get_cell_options ::
    "sixp_pkt_type_t \<Rightarrow> u8 \<Rightarrow> bool \<Rightarrow> u8 list option \<Rightarrow> u16 \<Rightarrow> u8 outcome" where
  "sixp_pkt_get_cell_options type code dst body body_len =
     (if \<not> dst then Failed else
      sixp_field body (get_cell_options_offset type code) (\<lambda>b n.
        if unat body_len < n + 1 then Failed else obind (mem_read n 1 b) (\<lambda>p. Done (p ! 0))))"

text \<open>No length check here.\<close>

definition sixp_pkt_set_num_cells ::
    "sixp_pkt_type_t \<Rightarrow> u8 \<Rightarrow> u8 \<Rightarrow> u8 list option \<Rightarrow> u16 \<Rightarrow> u8 list outcome" where
  "sixp_pkt_set_num_cells type code num_cells body body_len =
     sixp_field body (get_num_cells_offset type code) (\<lambda>b n. mem_write n [num_cells] b)"

definition sixp_pkt_get_num_cells ::
    "sixp_pkt_type_t \<Rightarrow> u8 \<Rightarrow> bool \<Rightarrow> u8 list option \<Rightarrow> u16 \<Rightarrow> u8 outcome" where
  "sixp_pkt_get_num_cells type code dst body body_len =
     (if \<not> dst then Failed else
      sixp_field body (get_num_cells_offset type code) (\<lambda>b n.
        if unat body_len < n + 1 then Failed else obind (mem_read n 1 b) (\<lambda>p. Done (p ! 0))))"

definition sixp_pkt_set_reserved ::
    "sixp_pkt_type_t \<Rightarrow> u8 \<Rightarrow> u8 \<Rightarrow> u8 list option \<Rightarrow> u16 \<Rightarrow> u8 list outcome" where
  "sixp_pkt_set_reserved type code reserved body body_len =
     sixp_field body (get_reserved_offset type code) (\<lambda>b n.
       if unat body_len < n + 1 then Failed else mem_write n [reserved] b)"

text \<open>No length check here.\<close>

definition sixp_pkt_get_reserved ::
    "sixp_pkt_type_t \<Rightarrow> u8 \<Rightarrow> bool \<Rightarrow> u8 list option \<Rightarrow> u16 \<Rightarrow> u8 outcome" where
  "sixp_pkt_get_reserved type code dst body body_len =
     (if \<not> dst then Failed else
      sixp_field body (get_reserved_offset type code) (\<lambda>b n. obind (mem_read n 1 b) (\<lambda>p. Done (p ! 0))))"

definition sixp_pkt_set_offset ::
    "sixp_pkt_type_t \<Rightarrow> u8 \<Rightarrow> u16 \<Rightarrow> u8 list option \<Rightarrow> u16 \<Rightarrow> u8 list outcome" where
  "sixp_pkt_set_offset type code cell_offset body body_len =
     sixp_field body (get_offset_offset type code) (\<lambda>b n.
       if unat body_len < n + 2 then Failed else mem_write n (write16 cell_offset) b)"

definition sixp_pkt_get_offset ::
    "sixp_pkt_type_t \<Rightarrow> u8 \<Rightarrow> bool \<Rightarrow> u8 list option \<Rightarrow> u16 \<Rightarrow> u16 outcome" where
  "sixp_pkt_get_offset type code dst body body_len =
     (if \<not> dst then Failed else
      sixp_field body (get_offset_offset type code) (\<lambda>b n.
        if unat body_len < n + 2 then Failed else obind (mem_read n 2 b) (\<lambda>p. Done (le16 p))))"

definition sixp_pkt_set_max_num_cells ::
    "sixp_pkt_type_t \<Rightarrow> u8 \<Rightarrow> u16 \<Rightarrow> u8 list option \<Rightarrow> u16 \<Rightarrow> u8 list outcome" where
  "sixp_pkt_set_max_num_cells type code max_num_cells body body_len =
     sixp_field body (get_max_num_cells_offset type code) (\<lambda>b n.
       if unat body_len < n + 2 then Failed else mem_write n (write16 max_num_cells) b)"

definition sixp_pkt_get_max_num_cells ::
    "sixp_pkt_type_t \<Rightarrow> u8 \<Rightarrow> bool \<Rightarrow> u8 list option \<Rightarrow> u16 \<Rightarrow> u16 outcome" where
  "sixp_pkt_get_max_num_cells type code dst body body_len =
     (if \<not> dst then Failed else
      sixp_field body (get_max_num_cells_offset type code) (\<lambda>b n.
        if unat body_len < n + 2 then Failed else obind (mem_read n 2 b) (\<lambda>p. Done (le16 p))))"

text \<open>Cell lists are copied from the caller's memory (None: NULL); a returned pointer into the body is an offset,
  written only when the caller asks for it.\<close>

definition sixp_pkt_set_cell_list ::
    "sixp_pkt_type_t \<Rightarrow> u8 \<Rightarrow> u8 list option \<Rightarrow> u16 \<Rightarrow> u16 \<Rightarrow> u8 list option \<Rightarrow> u16 \<Rightarrow> u8 list outcome" where
  "sixp_pkt_set_cell_list type code cell_list cell_list_len cell_offset body body_len =
     (case cell_list of None \<Rightarrow> Failed
      | Some cl \<Rightarrow> sixp_field body (get_cell_list_offset type code) (\<lambda>b n0.
          let n = n0 + unat cell_offset in
          if unat body_len < n + unat cell_list_len then Failed
          else if unat cell_list_len mod 4 \<noteq> 0 then Failed
          else obind (mem_read 0 (unat cell_list_len) cl) (\<lambda>bs. mem_write n bs b)))"

definition sixp_pkt_get_cell_list ::
    "sixp_pkt_type_t \<Rightarrow> u8 \<Rightarrow> bool \<Rightarrow> bool \<Rightarrow> u8 list option \<Rightarrow> u16 \<Rightarrow> (nat option \<times> u16) outcome" where
  "sixp_pkt_get_cell_list type code want dst body body_len =
     (if \<not> dst then Failed else
      sixp_field body (get_cell_list_offset type code) (\<lambda>b n.
        if unat body_len < n then Failed
        else if (unat body_len - n) mod 4 \<noteq> 0 then Failed
        else Done (if want then Some n else None, body_len - of_nat n)))"

definition sixp_pkt_set_rel_cell_list ::
    "sixp_pkt_type_t \<Rightarrow> u8 \<Rightarrow> u8 list option \<Rightarrow> u16 \<Rightarrow> u16 \<Rightarrow> u8 list option \<Rightarrow> u16 \<Rightarrow> u8 list outcome" where
  "sixp_pkt_set_rel_cell_list type code rel_cell_list rel_cell_list_len cell_offset body body_len =
     (case (rel_cell_list, body) of
        (Some cl, Some _) \<Rightarrow>
          obind (sixp_pkt_get_num_cells type code True body body_len) (\<lambda>num_cells.
          sixp_field body (get_rel_cell_list_offset type code) (\<lambda>b n0.
            let n = n0 + unat cell_offset in
            if unat body_len < n + unat rel_cell_list_len then Failed
            else if n + unat rel_cell_list_len > n + unat num_cells * 4 then Failed
            else if unat rel_cell_list_len mod 4 \<noteq> 0 then Failed
            else obind (mem_read 0 (unat rel_cell_list_len) cl) (\<lambda>bs. mem_write n bs b)))
      | _ \<Rightarrow> Failed)"

definition sixp_pkt_get_rel_cell_list ::
    "sixp_pkt_type_t \<Rightarrow> u8 \<Rightarrow> bool \<Rightarrow> bool \<Rightarrow> u8 list option \<Rightarrow> u16 \<Rightarrow> (nat option \<times> u16) outcome" where
  "sixp_pkt_get_rel_cell_list type code want dst body body_len =
     (if \<not> dst \<or> body = None then Failed else
      obind (sixp_pkt_get_num_cells type code True body body_len) (\<lambda>num_cells.
      sixp_field body (get_rel_cell_list_offset type code) (\<lambda>b n.
        if unat body_len < n + unat num_cells * 4 then Failed
        else if (unat body_len - n) mod 4 \<noteq> 0 then Failed
        else Done (if want then Some n else None, of_nat (unat num_cells * 4)))))"

definition sixp_pkt_set_cand_cell_list ::
    "sixp_pkt_type_t \<Rightarrow> u8 \<Rightarrow> u8 list option \<Rightarrow> u16 \<Rightarrow> u16 \<Rightarrow> u8 list option \<Rightarrow> u16 \<Rightarrow> u8 list outcome" where
  "sixp_pkt_set_cand_cell_list type code cand_cell_list cand_cell_list_len cell_offset body body_len =
     (case (cand_cell_list, body) of
        (Some cl, Some _) \<Rightarrow>
          obind (sixp_pkt_get_num_cells type code True body body_len) (\<lambda>num_cells.
          sixp_field body (get_rel_cell_list_offset type code) (\<lambda>b n0.
            let n = n0 + (unat cell_offset + unat num_cells * 4) in
            if unat body_len < n + unat cand_cell_list_len then Failed
            else if unat cand_cell_list_len mod 4 \<noteq> 0 then Failed
            else obind (mem_read 0 (unat cand_cell_list_len) cl) (\<lambda>bs. mem_write n bs b)))
      | _ \<Rightarrow> Failed)"

definition sixp_pkt_get_cand_cell_list ::
    "sixp_pkt_type_t \<Rightarrow> u8 \<Rightarrow> bool \<Rightarrow> bool \<Rightarrow> u8 list option \<Rightarrow> u16 \<Rightarrow> (nat option \<times> u16) outcome" where
  "sixp_pkt_get_cand_cell_list type code want dst body body_len =
     (if \<not> dst \<or> body = None then Failed else
      obind (sixp_pkt_get_num_cells type code True body body_len) (\<lambda>num_cells.
      sixp_field body (get_rel_cell_list_offset type code) (\<lambda>b n0.
        let n = n0 + unat num_cells * 4 in
        if unat body_len < n then Failed
        else if (unat body_len - n) mod 4 \<noteq> 0 then Failed
        else Done (if want then Some n else None, body_len - of_nat n))))"

text \<open>No length check in the setter; the getter reads the first two bytes.\<close>

definition sixp_pkt_set_total_num_cells ::
    "sixp_pkt_type_t \<Rightarrow> u8 \<Rightarrow> u16 \<Rightarrow> u8 list option \<Rightarrow> u16 \<Rightarrow> u8 list outcome" where
  "sixp_pkt_set_total_num_cells type code total_num_cells body body_len =
     sixp_field body (get_total_num_cells_offset type code) (\<lambda>b n.
       mem_write n [ucast (total_num_cells AND 0xff), ucast (drop_bit 8 total_num_cells)] b)"

definition sixp_pkt_get_total_num_cells ::
    "sixp_pkt_type_t \<Rightarrow> u8 \<Rightarrow> bool \<Rightarrow> u8 list option \<Rightarrow> u16 \<Rightarrow> u16 outcome" where
  "sixp_pkt_get_total_num_cells type code dst body body_len =
     (if \<not> dst then Failed else
      sixp_field body (get_total_num_cells_offset type code) (\<lambda>b n.
        if unat body_len < n + 2 then Failed else obind (mem_read 0 2 b) (\<lambda>p. Done (le16 p))))"

definition sixp_pkt_set_payload ::
    "sixp_pkt_type_t \<Rightarrow> u8 \<Rightarrow> u8 list \<Rightarrow> u16 \<Rightarrow> u8 list option \<Rightarrow> u16 \<Rightarrow> u8 list outcome" where
  "sixp_pkt_set_payload type code payload payload_len body body_len =
     sixp_field body (get_payload_offset type code) (\<lambda>b n.
       if unat body_len < n + unat payload_len then Failed
       else obind (mem_read 0 (unat payload_len) payload) (\<lambda>bs. mem_write n bs b))"

text \<open>The result is the contents of the caller's buffer \<open>buf\<close>; \<open>buf_len\<close> bytes are copied whatever the length of the
  body.\<close>

definition sixp_pkt_get_payload ::
    "sixp_pkt_type_t \<Rightarrow> u8 \<Rightarrow> u8 list option \<Rightarrow> u16 \<Rightarrow> u8 list option \<Rightarrow> u16 \<Rightarrow> u8 list outcome" where
  "sixp_pkt_get_payload type code buf buf_len body body_len =
     (case buf of None \<Rightarrow> Failed
      | Some dst \<Rightarrow> sixp_field body (get_payload_offset type code) (\<lambda>b n.
          if uint body_len - int n > uint buf_len then Failed
          else obind (mem_read n (unat buf_len) b) (\<lambda>bs. mem_write 0 bs dst)))"

section \<open>Whole messages\<close>

definition sixp_request_len_ok :: "u8 \<Rightarrow> nat \<Rightarrow> bool" where
  "sixp_request_len_ok cmd n =
     (if cmd = SIXP_PKT_CMD_ADD \<or> cmd = SIXP_PKT_CMD_DELETE then \<not> (n < 2 + 1 + 1 \<or> n mod 4 \<noteq> 0)
      else if cmd = SIXP_PKT_CMD_RELOCATE then \<not> (n < 2 + 1 + 1 \<or> n mod 4 \<noteq> 0)
      else if cmd = SIXP_PKT_CMD_COUNT then n = 2 + 1
      else if cmd = SIXP_PKT_CMD_LIST then n = 2 + 1 + 1 + 2 + 2
      else if cmd = SIXP_PKT_CMD_SIGNAL then \<not> n < 2
      else if cmd = SIXP_PKT_CMD_CLEAR then n = 2
      else False)"

definition sixp_response_len_ok :: "u8 \<Rightarrow> nat \<Rightarrow> bool" where
  "sixp_response_len_ok rc n =
     (if rc = SIXP_PKT_RC_SUCCESS then True
      else if rc = SIXP_PKT_RC_EOL then n mod 4 = 0
      else if rc = SIXP_PKT_RC_ERR \<or> rc = SIXP_PKT_RC_RESET \<or> rc = SIXP_PKT_RC_ERR_VERSION \<or>
              rc = SIXP_PKT_RC_ERR_SFID \<or> rc = SIXP_PKT_RC_ERR_SEQNUM \<or> rc = SIXP_PKT_RC_ERR_CELLLIST \<or>
              rc = SIXP_PKT_RC_ERR_BUSY \<or> rc = SIXP_PKT_RC_ERR_LOCKED
      then n = 0
      else False)"

text \<open>\<open>pkt\<close> is the destination (None: NULL); it is cleared and holds the header fields even if -1 is returned. The body is the rest of the
  buffer.\<close>

definition sixp_pkt_zero :: sixp_pkt_t where
  "sixp_pkt_zero = \<lparr>sp_version = 0, sp_type = SIXP_PKT_TYPE_REQUEST, sp_code = 0, sp_sfid = 0, sp_seqno = 0,
     sp_body = None, sp_body_len = 0\<rparr>"

definition sixp_pkt_parse :: "u8 list option \<Rightarrow> u16 \<Rightarrow> sixp_pkt_t option \<Rightarrow> (int \<times> sixp_pkt_t option) outcome" where
  "sixp_pkt_parse buf len pkt =
     (case buf of None \<Rightarrow> Done (-1, pkt)
      | Some b \<Rightarrow>
          if pkt = None then Done (-1, pkt)
          else if len < 4 then Done (-1, Some sixp_pkt_zero)
          else
            obind (mem_read 0 4 b) (\<lambda>h.
              let type = sixp_type_of_value (drop_bit 4 (h ! 0 AND 0x30));
                  n = unat len - 4;
                  res = sixp_pkt_zero\<lparr>sp_version := h ! 0 AND 0x0f, sp_type := type, sp_code := h ! 1, sp_sfid := h ! 2,
                         sp_seqno := h ! 3\<rparr>;
                  full = Done (0, Some (res\<lparr>sp_body := Some (drop 4 b), sp_body_len := len - 4\<rparr>))
              in if type = SIXP_PKT_TYPE_REQUEST
                 then if sixp_request_len_ok (h ! 1) n then full else Done (-1, Some res)
                 else if type = SIXP_PKT_TYPE_RESPONSE \<or> type = SIXP_PKT_TYPE_CONFIRMATION
                 then if sixp_response_len_ok (h ! 1) n then full else Done (-1, Some res)
                 else Done (-1, Some res)))"

text \<open>The message is written to the packet buffer, which is cleared first even if the call fails; \<open>pkt\<close>, if it is not NULL, gets a copy of the
  fields, but not of the version.\<close>

definition sixp_pkt_create ::
    "sixp_pkt_type_t \<Rightarrow> u8 \<Rightarrow> u8 \<Rightarrow> u8 \<Rightarrow> u8 list option \<Rightarrow> u16 \<Rightarrow> sixp_pkt_t option \<Rightarrow> packetbuf \<Rightarrow>
     (int \<times> sixp_pkt_t option \<times> packetbuf) outcome" where
  "sixp_pkt_create type code sfid seqno body body_len pkt p =
     (if body = None \<and> body_len > 0 \<or> body \<noteq> None \<and> body_len = 0 then Done (-1, pkt, p)
      else
        (let p1 = packetbuf_clear p in
         if PACKETBUF_SIZE < unat (packetbuf_totlen p1) + unat body_len then Done (-1, pkt, p1)
         else
           (let (ok, p2) = packetbuf_hdralloc 4 p1 in
            if ok \<noteq> 1 then Done (-1, pkt, p2)
            else
              obind (mem_write (packetbuf_hdrptr p2)
                  [push_bit 4 (sixp_type_value type) OR SIXP_PKT_VERSION, code, sfid, seqno] (pb_data p2)) (\<lambda>d.
                let p3 = p2\<lparr>pb_data := d\<rparr>;
                    pkt' = map_option (\<lambda>q. q\<lparr>sp_type := type, sp_code := code, sp_sfid := sfid, sp_seqno := seqno,
                             sp_body := body, sp_body_len := body_len\<rparr>) pkt
                in case body of None \<Rightarrow> Done (0, pkt', p3)
                | Some b \<Rightarrow>
                    obind (mem_read 0 (unat body_len) b) (\<lambda>bs.
                    obind (mem_write (packetbuf_dataptr p3) bs (pb_data p3)) (\<lambda>d'.
                    Done (0, pkt', packetbuf_set_datalen body_len (p3\<lparr>pb_data := d'\<rparr>))))))))"

end
