(* ===== verification/SixpPktProps.thy ===== *)
theory SixpPktProps
  imports SixpPkt
begin

text \<open>Properties of 6P messages: every field that was written is read back, the exact byte layout of the requests, which
  accessors stay inside the body, and the round trip from creating to parsing a message.\<close>

section \<open>A field of a message body\<close>

lemma le16_eq: "le16 p = read16 (p ! 0) (p ! 1)"
proof -
  have "(ucast (p ! 0) :: u16) AND push_bit 8 (ucast (p ! 1)) = 0"
    by (rule bit_word_eqI) (auto simp: bit_simps)
  then show ?thesis
    unfolding le16_def read16_def by (simp add: disjunctive_add_eq_or)
qed

lemma le16_write16 [simp]: "le16 (write16 v) = v"
  by (simp add: le16_eq)

lemma sixp_field_simps [simp]:
  "sixp_field None off f = Failed" "sixp_field (Some b) None f = Failed" "sixp_field (Some b) (Some n) f = f b n"
  by (simp_all add: sixp_field_def)

text \<open>The contract of the setter and the getter of a field of fixed size.\<close>

locale sixp_codec =
  fixes off :: "sixp_pkt_type_t \<Rightarrow> u8 \<Rightarrow> nat option"
    and enc :: "'v \<Rightarrow> u8 list"
    and sz :: nat
    and put :: "sixp_pkt_type_t \<Rightarrow> u8 \<Rightarrow> 'v \<Rightarrow> u8 list option \<Rightarrow> u16 \<Rightarrow> u8 list outcome"
    and rd :: "sixp_pkt_type_t \<Rightarrow> u8 \<Rightarrow> bool \<Rightarrow> u8 list option \<Rightarrow> u16 \<Rightarrow> 'v outcome"
  assumes enc_length: "length (enc v) = sz"
    and put_absent: "off t c = None \<Longrightarrow> put t c v body bl = Failed"
    and put_present: "off t c = Some n \<Longrightarrow> n + sz \<le> length b \<Longrightarrow> unat bl = length b \<Longrightarrow>
      put t c v (Some b) bl = mem_write n (enc v) b"
    and put_null: "put t c v None bl = Failed"
    and rd_present: "off t c = Some n \<Longrightarrow> mem_read n sz b = Done (enc v) \<Longrightarrow> unat bl = length b \<Longrightarrow>
      rd t c True (Some b) bl = Done v"
begin

lemma put_Done:
  assumes "off t c = Some n" "n + sz \<le> length b" "unat bl = length b"
  shows "put t c v (Some b) bl = Done (take n b @ enc v @ drop (n + sz) b)"
  using put_present [OF assms] assms(2) by (simp add: mem_write_def enc_length)

lemma put_rd:
  assumes "off t c = Some n" "n + sz \<le> length b" "unat bl = length b"
  shows "\<exists>b'. put t c v (Some b) bl = Done b' \<and> rd t c True (Some b') bl = Done v \<and> length b' = length b \<and>
    (\<forall>i k. i + k \<le> n \<or> n + sz \<le> i \<longrightarrow> mem_read i k b' = mem_read i k b)"
proof -
  have w: "mem_write n (enc v) b = Done (take n b @ enc v @ drop (n + sz) b)" (is "_ = Done ?b'")
    using put_Done [OF assms] put_present [OF assms] by simp
  have "rd t c True (Some ?b') bl = Done v"
    using mem_read_write_same [OF w] mem_write_length [OF w] assms by (intro rd_present) (simp_all add: enc_length)
  moreover have "mem_read i k ?b' = mem_read i k b" if "i + k \<le> n \<or> n + sz \<le> i" for i k
    using that mem_read_write_before [OF w] mem_read_write_after [OF w] by (auto simp: enc_length)
  ultimately show ?thesis using put_Done [OF assms] mem_write_length [OF w] by blast
qed

end

lemmas sixp_accessor_defs = sixp_pkt_set_metadata_def sixp_pkt_get_metadata_def sixp_pkt_set_cell_options_def
  sixp_pkt_get_cell_options_def sixp_pkt_set_num_cells_def sixp_pkt_get_num_cells_def sixp_pkt_set_reserved_def
  sixp_pkt_get_reserved_def sixp_pkt_set_offset_def sixp_pkt_get_offset_def sixp_pkt_set_max_num_cells_def
  sixp_pkt_get_max_num_cells_def sixp_pkt_set_total_num_cells_def sixp_pkt_get_total_num_cells_def

lemma sixp_field_absent [simp]: "sixp_field body None f = Failed"
  by (cases body) simp_all

lemma mem_read_DoneD: "mem_read n k b = Done p \<Longrightarrow> n + k \<le> length b"
  by (simp add: mem_read_def split: if_splits)

interpretation sixp_metadata: sixp_codec get_metadata_offset write16 2 sixp_pkt_set_metadata sixp_pkt_get_metadata
  by unfold_locales (auto simp: sixp_accessor_defs dest: mem_read_DoneD)

interpretation sixp_cell_options: sixp_codec get_cell_options_offset "\<lambda>v. [v]" 1 sixp_pkt_set_cell_options sixp_pkt_get_cell_options
  by unfold_locales (auto simp: sixp_accessor_defs dest: mem_read_DoneD)

interpretation sixp_num_cells: sixp_codec get_num_cells_offset "\<lambda>v. [v]" 1 sixp_pkt_set_num_cells sixp_pkt_get_num_cells
  by unfold_locales (auto simp: sixp_accessor_defs dest: mem_read_DoneD)

interpretation sixp_reserved: sixp_codec get_reserved_offset "\<lambda>v. [v]" 1 sixp_pkt_set_reserved sixp_pkt_get_reserved
  by unfold_locales (auto simp: sixp_accessor_defs dest: mem_read_DoneD)

interpretation sixp_cell_offset: sixp_codec get_offset_offset write16 2 sixp_pkt_set_offset sixp_pkt_get_offset
  by unfold_locales (auto simp: sixp_accessor_defs dest: mem_read_DoneD)

interpretation sixp_max_num_cells: sixp_codec get_max_num_cells_offset write16 2 sixp_pkt_set_max_num_cells sixp_pkt_get_max_num_cells
  by unfold_locales (auto simp: sixp_accessor_defs dest: mem_read_DoneD)

lemma write16_total: "[ucast (v AND 0xff), ucast (drop_bit 8 v)] = write16 v" for v :: u16
  by (auto simp: write16_def and_255 bit_simps intro!: bit_word_eqI)

interpretation sixp_total_num_cells: sixp_codec get_total_num_cells_offset write16 2 sixp_pkt_set_total_num_cells sixp_pkt_get_total_num_cells
  by unfold_locales
    (auto simp: sixp_accessor_defs write16_total get_total_num_cells_offset_def dest: mem_read_DoneD split: if_splits)


section \<open>Building requests field by field\<close>

definition fill_header :: "u8 \<Rightarrow> u16 \<Rightarrow> u8 \<Rightarrow> u8 list \<Rightarrow> u16 \<Rightarrow> u8 list outcome" where
  "fill_header cmd m opts b bl =
     obind (sixp_pkt_set_metadata SIXP_PKT_TYPE_REQUEST cmd m (Some b) bl) (\<lambda>b1.
     sixp_pkt_set_cell_options SIXP_PKT_TYPE_REQUEST cmd opts (Some b1) bl)"

definition fill_list_request :: "u16 \<Rightarrow> u8 \<Rightarrow> u8 \<Rightarrow> u16 \<Rightarrow> u16 \<Rightarrow> u8 list \<Rightarrow> u16 \<Rightarrow> u8 list outcome" where
  "fill_list_request m opts res ofs mx b bl =
     obind (fill_header SIXP_PKT_CMD_LIST m opts b bl) (\<lambda>b2.
     obind (sixp_pkt_set_reserved SIXP_PKT_TYPE_REQUEST SIXP_PKT_CMD_LIST res (Some b2) bl) (\<lambda>b3.
     obind (sixp_pkt_set_offset SIXP_PKT_TYPE_REQUEST SIXP_PKT_CMD_LIST ofs (Some b3) bl) (\<lambda>b4.
     sixp_pkt_set_max_num_cells SIXP_PKT_TYPE_REQUEST SIXP_PKT_CMD_LIST mx (Some b4) bl)))"

definition fill_add_request :: "u8 \<Rightarrow> u16 \<Rightarrow> u8 \<Rightarrow> u8 \<Rightarrow> u8 list \<Rightarrow> u8 list \<Rightarrow> u16 \<Rightarrow> u8 list outcome" where
  "fill_add_request cmd m opts num cells b bl =
     obind (fill_header cmd m opts b bl) (\<lambda>b2.
     obind (sixp_pkt_set_num_cells SIXP_PKT_TYPE_REQUEST cmd num (Some b2) bl) (\<lambda>b3.
     sixp_pkt_set_cell_list SIXP_PKT_TYPE_REQUEST cmd (Some cells) (of_nat (length cells)) 0 (Some b3) bl))"

definition fill_relocate_request :: "u16 \<Rightarrow> u8 \<Rightarrow> u8 \<Rightarrow> u8 list \<Rightarrow> u8 list \<Rightarrow> u8 list \<Rightarrow> u16 \<Rightarrow> u8 list outcome" where
  "fill_relocate_request m opts num rel cand b bl =
     obind (fill_header SIXP_PKT_CMD_RELOCATE m opts b bl) (\<lambda>b2.
     obind (sixp_pkt_set_num_cells SIXP_PKT_TYPE_REQUEST SIXP_PKT_CMD_RELOCATE num (Some b2) bl) (\<lambda>b3.
     obind (sixp_pkt_set_rel_cell_list SIXP_PKT_TYPE_REQUEST SIXP_PKT_CMD_RELOCATE (Some rel) (of_nat (length rel)) 0
        (Some b3) bl) (\<lambda>b4.
     sixp_pkt_set_cand_cell_list SIXP_PKT_TYPE_REQUEST SIXP_PKT_CMD_RELOCATE (Some cand) (of_nat (length cand)) 0
        (Some b4) bl)))"

lemma length_4_split:
  fixes b :: "'a list"
  assumes "4 \<le> length b"
  obtains x0 x1 x2 x3 r where "b = [x0, x1, x2, x3] @ r"
proof -
  have split: "\<exists>x0 x1 x2 x3. xs = [x0, x1, x2, x3]" if "length xs = 4" for xs :: "'a list"
    using that by (auto simp: numeral_eq_Suc length_Suc_conv)
  obtain x0 x1 x2 x3 where "take 4 b = [x0, x1, x2, x3]"
    using split [of "take 4 b"] assms by auto
  then show ?thesis using that append_take_drop_id [of 4 b] by metis
qed

lemma list_layout:
  assumes "length b = 8"
  shows "fill_list_request m opts res ofs mx b 8 = Done (write16 m @ [opts, res] @ write16 ofs @ write16 mx)"
proof -
  obtain x0 x1 x2 x3 x4 x5 x6 x7 where b: "b = [x0, x1, x2, x3, x4, x5, x6, x7]"
    using assms by (auto simp: numeral_eq_Suc length_Suc_conv)
  show ?thesis
    by (simp add: b fill_list_request_def fill_header_def sixp_accessor_defs sixp_offset_defs mem_write_def write16_def)
qed

lemma fill_header_4:
  assumes "cmd = SIXP_PKT_CMD_ADD \<or> cmd = SIXP_PKT_CMD_DELETE \<or> cmd = SIXP_PKT_CMD_RELOCATE" "4 \<le> unat bl"
  shows "obind (fill_header cmd m opts ([x0, x1, x2, x3] @ r) bl) (\<lambda>b2.
     sixp_pkt_set_num_cells SIXP_PKT_TYPE_REQUEST cmd num (Some b2) bl) = Done (write16 m @ [opts, num] @ r)"
  using assms
  by (auto simp: fill_header_def sixp_accessor_defs sixp_offset_defs mem_write_def write16_def)

lemma add_layout:
  assumes cmd: "cmd = SIXP_PKT_CMD_ADD \<or> cmd = SIXP_PKT_CMD_DELETE"
    and len: "length b = 4 + length cells" "unat bl = length b" "length cells mod 4 = 0"
  shows "fill_add_request cmd m opts num cells b bl = Done (write16 m @ [opts, num] @ cells)"
proof -
  obtain x0 x1 x2 x3 r where b: "b = [x0, x1, x2, x3] @ r" using len by (elim length_4_split [of b, rotated]) simp
  have n: "unat (of_nat (length cells) :: u16) = length cells"
    using u16_bound [of bl] len by (intro unat_word_of_nat_small) simp
  have "fill_add_request cmd m opts num cells b bl =
      obind (obind (fill_header cmd m opts b bl) (\<lambda>b2. sixp_pkt_set_num_cells SIXP_PKT_TYPE_REQUEST cmd num (Some b2) bl))
        (\<lambda>b3. sixp_pkt_set_cell_list SIXP_PKT_TYPE_REQUEST cmd (Some cells) (of_nat (length cells)) 0 (Some b3) bl)"
    by (simp add: fill_add_request_def obind_assoc)
  also have "\<dots> = Done (write16 m @ [opts, num] @ cells)"
    using cmd len fill_header_4 [of cmd bl m opts x0 x1 x2 x3 r num]
    by (auto simp: b n sixp_pkt_set_cell_list_def sixp_offset_defs mem_read_def mem_write_def Let_def)
  finally show ?thesis .
qed

lemma relocate_layout:
  assumes len: "length b = 4 + length rel + length cand" "unat bl = length b" "length rel = 4 * unat num" "length cand mod 4 = 0"
  shows "fill_relocate_request m opts num rel cand b bl = Done (write16 m @ [opts, num] @ rel @ cand)"
proof -
  obtain x0 x1 x2 x3 r where b: "b = [x0, x1, x2, x3] @ r" using len by (elim length_4_split [of b, rotated]) simp
  have n: "unat (of_nat (length rel) :: u16) = length rel" "unat (of_nat (length cand) :: u16) = length cand"
    using u16_bound [of bl] len(1,2) unat_word_of_nat_small [of "length rel", where 'a = 16]
      unat_word_of_nat_small [of "length cand", where 'a = 16] by simp_all
  have n4: "unat (4 * ucast num :: u16) = 4 * unat num" using n(1) by (simp add: len(3))
  have d4: "drop (4 + k) (x # y # z # w # q) = drop k q" "take (4 + k) (x # y # z # w # q) = x # y # z # w # take k q"
    for k q and x y z w :: u8 by (simp_all add: numeral_eq_Suc)
  let ?num = "\<lambda>b2. sixp_pkt_set_num_cells SIXP_PKT_TYPE_REQUEST SIXP_PKT_CMD_RELOCATE num (Some b2) bl"
  let ?rel = "\<lambda>b3. sixp_pkt_set_rel_cell_list SIXP_PKT_TYPE_REQUEST SIXP_PKT_CMD_RELOCATE (Some rel) (of_nat (length rel)) 0 (Some b3) bl"
  let ?cand = "\<lambda>b4. sixp_pkt_set_cand_cell_list SIXP_PKT_TYPE_REQUEST SIXP_PKT_CMD_RELOCATE (Some cand) (of_nat (length cand)) 0 (Some b4) bl"
  have "fill_relocate_request m opts num rel cand b bl =
      obind (obind (obind (fill_header SIXP_PKT_CMD_RELOCATE m opts b bl) ?num) ?rel) ?cand"
    by (simp add: fill_relocate_request_def obind_assoc)
  also have "obind (fill_header SIXP_PKT_CMD_RELOCATE m opts b bl) ?num = Done (write16 m @ [opts, num] @ r)"
    unfolding b using len by (intro fill_header_4) simp_all
  also have "obind (Done (write16 m @ [opts, num] @ r)) ?rel = Done (write16 m @ [opts, num] @ rel @ drop (length rel) r)"
    using len by (simp add: b n n4 d4 sixp_pkt_set_rel_cell_list_def sixp_pkt_get_num_cells_def sixp_offset_defs mem_read_def
        mem_write_def Let_def write16_def)
  also have "obind \<dots> ?cand = Done (write16 m @ [opts, num] @ rel @ cand)"
    using len by (simp add: b n n4 d4 sixp_pkt_set_cand_cell_list_def sixp_pkt_get_num_cells_def sixp_offset_defs mem_read_def
        mem_write_def Let_def write16_def)
  finally show ?thesis .
qed

section \<open>Memory safety of the accessors\<close>

lemma sixp_field_not_Fault:
  assumes "\<And>b n. body = Some b \<Longrightarrow> off = Some n \<Longrightarrow> f b n \<noteq> Fault"
  shows "sixp_field body off f \<noteq> Fault"
  using assms by (auto simp: sixp_field_def split: option.split)

lemma get_num_cells_safe: "unat bl = length b \<Longrightarrow> sixp_pkt_get_num_cells t c dst (Some b) bl \<noteq> Fault"
  by (auto simp: sixp_pkt_get_num_cells_def obind_Fault_iff intro!: sixp_field_not_Fault split: if_splits)

lemma sixp_fixed_fields_safe:
  assumes "unat bl = length b"
  shows "sixp_pkt_set_metadata t c v (Some b) bl \<noteq> Fault" "sixp_pkt_get_metadata t c dst (Some b) bl \<noteq> Fault"
    "sixp_pkt_set_cell_options t c w (Some b) bl \<noteq> Fault" "sixp_pkt_get_cell_options t c dst (Some b) bl \<noteq> Fault"
    "sixp_pkt_set_reserved t c w (Some b) bl \<noteq> Fault"
    "sixp_pkt_set_offset t c v (Some b) bl \<noteq> Fault" "sixp_pkt_get_offset t c dst (Some b) bl \<noteq> Fault"
    "sixp_pkt_set_max_num_cells t c v (Some b) bl \<noteq> Fault" "sixp_pkt_get_max_num_cells t c dst (Some b) bl \<noteq> Fault"
    "sixp_pkt_get_total_num_cells t c dst (Some b) bl \<noteq> Fault"
  using assms by (auto simp: sixp_accessor_defs obind_Fault_iff intro!: sixp_field_not_Fault split: if_splits)

lemma sixp_lists_safe:
  assumes "unat bl = length b" "unat n \<le> length cl"
  shows "sixp_pkt_set_cell_list t c (Some cl) n co (Some b) bl \<noteq> Fault"
    "sixp_pkt_set_rel_cell_list t c (Some cl) n co (Some b) bl \<noteq> Fault"
    "sixp_pkt_set_cand_cell_list t c (Some cl) n co (Some b) bl \<noteq> Fault"
    "sixp_pkt_set_payload t c cl n (Some b) bl \<noteq> Fault"
  using assms get_num_cells_safe [OF assms(1)]
  by (auto simp: sixp_pkt_set_cell_list_def sixp_pkt_set_rel_cell_list_def sixp_pkt_set_cand_cell_list_def
      sixp_pkt_set_payload_def obind_Fault_iff Let_def dest!: mem_read_length intro!: sixp_field_not_Fault split: if_splits)

lemma sixp_unchecked:
  assumes "unat bl = length b"
  shows "sixp_pkt_set_num_cells t c w (Some b) bl = Fault \<longleftrightarrow> get_num_cells_offset t c \<noteq> None \<and> length b < 4"
    "sixp_pkt_get_reserved t c dst (Some b) bl = Fault \<longleftrightarrow> dst \<and> get_reserved_offset t c \<noteq> None \<and> length b < 4"
    "sixp_pkt_set_total_num_cells t c v (Some b) bl = Fault \<longleftrightarrow> get_total_num_cells_offset t c \<noteq> None \<and> length b < 2"
  using assms by (auto simp: sixp_accessor_defs sixp_offset_defs obind_Fault_iff split: if_splits)

lemma sixp_get_payload_overread:
  assumes "unat bl = length b" "unat k = length out"
  shows "sixp_pkt_get_payload t c (Some out) k (Some b) bl = Fault \<longleftrightarrow>
    (\<exists>n. get_payload_offset t c = Some n \<and> length b < n + length out)"
proof -
  have u: "uint bl = int (length b)" "uint k = int (length out)"
    unfolding uint_nat assms by simp_all
  show ?thesis
  proof (cases "get_payload_offset t c")
    case (Some n)
    have "uint bl - int n > uint k \<longleftrightarrow> length b > n + length out" unfolding u by linarith
    then show ?thesis
      using Some assms(2) by (auto simp: sixp_pkt_get_payload_def obind_Fault_iff dest: mem_read_length)
  qed (simp add: sixp_pkt_get_payload_def)
qed

section \<open>Creating and parsing\<close>

definition sixp_msg_ok :: "sixp_pkt_type_t \<Rightarrow> u8 \<Rightarrow> nat \<Rightarrow> bool" where
  "sixp_msg_ok t c n = (case t of SIXP_PKT_TYPE_REQUEST \<Rightarrow> sixp_request_len_ok c n
     | SIXP_PKT_TYPE_RESERVED \<Rightarrow> False | _ \<Rightarrow> sixp_response_len_ok c n)"

lemma sixp_type_header:
  "sixp_type_of_value (drop_bit 4 ((push_bit 4 (sixp_type_value t) OR 0) AND 0x30)) = t"
  "(push_bit 4 (sixp_type_value t) OR 0) AND 0x0f = 0"
  by (cases t; simp add: sixp_type_of_value_def)+

lemma sixp_parse_header:
  assumes "unat len = 4 + length b"
  shows "sixp_pkt_parse (Some ([push_bit 4 (sixp_type_value t) OR 0, c, sf, sq] @ b)) len (Some q) =
    Done (if sixp_msg_ok t c (length b)
      then (0, Some \<lparr>sp_version = 0, sp_type = t, sp_code = c, sp_sfid = sf, sp_seqno = sq, sp_body = Some b,
                sp_body_len = len - 4\<rparr>)
      else (-1, Some \<lparr>sp_version = 0, sp_type = t, sp_code = c, sp_sfid = sf, sp_seqno = sq, sp_body = None,
                sp_body_len = 0\<rparr>))"
proof -
  have "\<not> len < 4" using assms by (simp add: word_less_nat_alt)
  then show ?thesis
    using assms sixp_type_header [of t]
    by (cases t) (simp_all add: sixp_pkt_parse_def mem_read_def sixp_msg_ok_def sixp_pkt_zero_def)
qed

text \<open>The copy of the fields that \<open>sixp_pkt_create\<close> leaves in \<open>pkt\<close>.\<close>

definition created_pkt :: "sixp_pkt_type_t \<Rightarrow> u8 \<Rightarrow> u8 \<Rightarrow> u8 \<Rightarrow> u8 list option \<Rightarrow> u16 \<Rightarrow> sixp_pkt_t option \<Rightarrow> sixp_pkt_t option" where
  "created_pkt t c sf sq body bl q = map_option (\<lambda>q. q\<lparr>sp_type := t, sp_code := c, sp_sfid := sf, sp_seqno := sq,
     sp_body := body, sp_body_len := bl\<rparr>) q"

lemma sixp_create_cases:
  assumes p: "length (pb_data p) = PACKETBUF_SIZE" and bl: "unat bl = length b"
    and body: "body = (if b = [] then None else Some b)"
    and hdr: "hdr = [push_bit 4 (sixp_type_value t) OR 0, c, sf, sq]"
  shows "length b \<le> 124 \<Longrightarrow> \<exists>p'. sixp_pkt_create t c sf sq body bl q p = Done (0, created_pkt t c sf sq body bl q, p') \<and> pb_inv p' \<and> pb_frame p' = hdr @ b"
    "124 < length b \<Longrightarrow> length b \<le> 128 \<Longrightarrow> sixp_pkt_create t c sf sq body bl q p = Fault"
    "128 < length b \<Longrightarrow> sixp_pkt_create t c sf sq body bl q p = Done (-1, q, packetbuf_clear p)"
proof -
  have bz: "bl = 0 \<longleftrightarrow> b = []" "bl > 0 \<longleftrightarrow> b \<noteq> []"
    using bl by (auto simp: unat_eq_zero word_gt_0)
  let ?p1 = "packetbuf_clear p"
  have tot: "packetbuf_totlen ?p1 = 0"
    by (simp add: packetbuf_totlen_def packetbuf_hdrlen_def packetbuf_datalen_def packetbuf_clear_def packetbuf_attr_clear_def)
  let ?p2 = "?p1\<lparr>hdrlen := 4\<rparr>"
  have al: "packetbuf_hdralloc 4 ?p1 = (1, ?p2)"
    unfolding packetbuf_hdralloc_def tot by (simp add: PACKETBUF_SIZE_def packetbuf_clear_def packetbuf_attr_clear_def)
  define d where "d = hdr @ drop 4 (pb_data p)"
  have l4: "length hdr = 4" by (simp add: hdr)
  have d: "mem_write 0 hdr (pb_data p) = Done d" "d = hdr @ drop 4 (pb_data p)" "length d = 128"
    using p l4 by (simp_all add: mem_write_def d_def PACKETBUF_SIZE_def)
  let ?p3 = "?p2\<lparr>pb_data := d\<rparr>"
  have ptr: "packetbuf_dataptr ?p3 = 4"
    by (simp add: packetbuf_dataptr_def packetbuf_hdrlen_def packetbuf_clear_def packetbuf_attr_clear_def)
  have pd: "pb_data ?p2 = pb_data p" by (simp add: packetbuf_clear_def packetbuf_attr_clear_def)
  let ?q = "created_pkt t c sf sq body bl q"
  have step: "sixp_pkt_create t c sf sq body bl q p =
      (if length b > 128 then Done (-1, q, ?p1)
       else if b = [] then Done (0, ?q, ?p3)
       else obind (mem_write 4 b d) (\<lambda>d'. Done (0, ?q, packetbuf_set_datalen bl (?p3\<lparr>pb_data := d'\<rparr>))))"
    using bl bz d(1) [unfolded hdr] ptr pd
    by (auto simp: sixp_pkt_create_def created_pkt_def body tot al PACKETBUF_SIZE_def packetbuf_hdrptr_def mem_read_def Let_def)
  show "124 < length b \<Longrightarrow> length b \<le> 128 \<Longrightarrow> sixp_pkt_create t c sf sq body bl q p = Fault"
    using step d(3) by (auto simp: mem_write_def)
  show "128 < length b \<Longrightarrow> sixp_pkt_create t c sf sq body bl q p = Done (-1, q, packetbuf_clear p)"
    using step by simp
  assume le: "length b \<le> 124"
  let ?p' = "packetbuf_set_datalen bl (?p3\<lparr>pb_data := take 4 d @ b @ drop (4 + length b) d\<rparr>)"
  have "sixp_pkt_create t c sf sq body bl q p = Done (0, ?q, ?p')"
  proof (cases "b = []")
    case True
    then have "bl = 0" using bz by simp
    then show ?thesis using step True
      by (simp add: packetbuf_set_datalen_def packetbuf_clear_def packetbuf_attr_clear_def)
  next
    case False
    then show ?thesis using step le d(3) by (simp add: mem_write_def)
  qed
  moreover have "pb_inv ?p'" "pb_frame ?p' = hdr @ b"
    using le bl d by (simp_all add: pb_inv_def pb_frame_def packetbuf_set_datalen_def packetbuf_dataptr_def packetbuf_hdrlen_def
        packetbuf_clear_def packetbuf_attr_clear_def PACKETBUF_SIZE_def hdr)
  ultimately show "\<exists>p'. sixp_pkt_create t c sf sq body bl q p = Done (0, created_pkt t c sf sq body bl q, p') \<and> pb_inv p' \<and> pb_frame p' = hdr @ b"
    by blast
qed

section \<open>Properties\<close>

text \<open>Writing a field succeeded, reading it gives the value, and all other bytes are as before.\<close>

definition stored :: "u8 list outcome \<Rightarrow> (u8 list option \<Rightarrow> 'v outcome) \<Rightarrow> 'v \<Rightarrow> nat \<Rightarrow> nat \<Rightarrow> u8 list \<Rightarrow> bool" where
  "stored w r v n k b \<longleftrightarrow> (\<exists>b'. w = Done b' \<and> r (Some b') = Done v \<and> length b' = length b \<and>
     (\<forall>i j. i + j \<le> n \<or> n + k \<le> i \<longrightarrow> mem_read i j b' = mem_read i j b))"

text \<open>Every fixed-size field of a 6P message is a faithful codec: whenever the message type has the field and the body is long enough for
  it, the setter succeeds, the getter returns the value written, and no other byte of the body changes.\<close>

theorem sixp_fields_roundtrip:
  assumes bl: "unat bl = length b"
  shows "(\<forall>n v. get_metadata_offset t c = Some n \<longrightarrow> n + 2 \<le> length b \<longrightarrow>
      stored (sixp_pkt_set_metadata t c v (Some b) bl) (\<lambda>x. sixp_pkt_get_metadata t c True x bl) v n 2 b) \<and>
    (\<forall>n v. get_cell_options_offset t c = Some n \<longrightarrow> n + 1 \<le> length b \<longrightarrow>
      stored (sixp_pkt_set_cell_options t c v (Some b) bl) (\<lambda>x. sixp_pkt_get_cell_options t c True x bl) v n 1 b) \<and>
    (\<forall>n v. get_num_cells_offset t c = Some n \<longrightarrow> n + 1 \<le> length b \<longrightarrow>
      stored (sixp_pkt_set_num_cells t c v (Some b) bl) (\<lambda>x. sixp_pkt_get_num_cells t c True x bl) v n 1 b) \<and>
    (\<forall>n v. get_reserved_offset t c = Some n \<longrightarrow> n + 1 \<le> length b \<longrightarrow>
      stored (sixp_pkt_set_reserved t c v (Some b) bl) (\<lambda>x. sixp_pkt_get_reserved t c True x bl) v n 1 b) \<and>
    (\<forall>n v. get_offset_offset t c = Some n \<longrightarrow> n + 2 \<le> length b \<longrightarrow>
      stored (sixp_pkt_set_offset t c v (Some b) bl) (\<lambda>x. sixp_pkt_get_offset t c True x bl) v n 2 b) \<and>
    (\<forall>n v. get_max_num_cells_offset t c = Some n \<longrightarrow> n + 2 \<le> length b \<longrightarrow>
      stored (sixp_pkt_set_max_num_cells t c v (Some b) bl) (\<lambda>x. sixp_pkt_get_max_num_cells t c True x bl) v n 2 b) \<and>
    (\<forall>n v. get_total_num_cells_offset t c = Some n \<longrightarrow> n + 2 \<le> length b \<longrightarrow>
      stored (sixp_pkt_set_total_num_cells t c v (Some b) bl) (\<lambda>x. sixp_pkt_get_total_num_cells t c True x bl) v n 2 b)"
  unfolding stored_def
  by (intro conjI allI impI; elim sixp_metadata.put_rd [OF _ _ bl] sixp_cell_options.put_rd [OF _ _ bl]
      sixp_num_cells.put_rd [OF _ _ bl] sixp_reserved.put_rd [OF _ _ bl] sixp_cell_offset.put_rd [OF _ _ bl]
      sixp_max_num_cells.put_rd [OF _ _ bl] sixp_total_num_cells.put_rd [OF _ _ bl])

theorem sixp_fields_roundtrip_witness:
  "\<exists>b'. sixp_pkt_set_metadata SIXP_PKT_TYPE_REQUEST SIXP_PKT_CMD_CLEAR 0x1234 (Some [0, 0]) 2 = Done b' \<and>
     sixp_pkt_get_metadata SIXP_PKT_TYPE_REQUEST SIXP_PKT_CMD_CLEAR True (Some b') 2 = Done 0x1234"
proof -
  have "get_metadata_offset SIXP_PKT_TYPE_REQUEST SIXP_PKT_CMD_CLEAR = Some 0"
    by (simp add: get_metadata_offset_def)
  then show ?thesis
    using sixp_fields_roundtrip [of 2 "[0, 0]" SIXP_PKT_TYPE_REQUEST SIXP_PKT_CMD_CLEAR]
    unfolding stored_def by fastforce
qed

text \<open>Byte layout of the requests. A LIST request built field by field is metadata, cell options, reserved, offset and maximum number of
  cells, little-endian, in 8 bytes. An ADD or DELETE request is metadata, cell options, number of cells and the cell list; the cell
  list found by the getter is the one written. A RELOCATE request carries the relocated cells, as many as the
  number of cells says, followed by the candidate cells, and both getters find exactly these.\<close>

theorem sixp_request_layout:
  shows "(length b = 8 \<longrightarrow>
      fill_list_request m opts res ofs mx b 8 = Done (write16 m @ [opts, res] @ write16 ofs @ write16 mx)) \<and>
    (length b = 4 + length cells \<longrightarrow> unat bl = length b \<longrightarrow> length cells mod 4 = 0 \<longrightarrow>
       cmd = SIXP_PKT_CMD_ADD \<or> cmd = SIXP_PKT_CMD_DELETE \<longrightarrow>
       (\<exists>b'. fill_add_request cmd m opts num cells b bl = Done b' \<and> b' = write16 m @ [opts, num] @ cells \<and>
          sixp_pkt_get_cell_list SIXP_PKT_TYPE_REQUEST cmd True True (Some b') bl = Done (Some 4, of_nat (length cells)) \<and>
          drop 4 b' = cells)) \<and>
    (length b = 4 + length rel + length cand \<longrightarrow> unat bl = length b \<longrightarrow> length rel = 4 * unat num \<longrightarrow>
       length cand mod 4 = 0 \<longrightarrow>
       (\<exists>b'. fill_relocate_request m opts num rel cand b bl = Done b' \<and> b' = write16 m @ [opts, num] @ rel @ cand \<and>
          sixp_pkt_get_rel_cell_list SIXP_PKT_TYPE_REQUEST SIXP_PKT_CMD_RELOCATE True True (Some b') bl
            = Done (Some 4, of_nat (length rel)) \<and>
          sixp_pkt_get_cand_cell_list SIXP_PKT_TYPE_REQUEST SIXP_PKT_CMD_RELOCATE True True (Some b') bl
            = Done (Some (4 + length rel), of_nat (length cand))))"
proof (intro conjI impI)
  assume "length b = 8"
  then show "fill_list_request m opts res ofs mx b 8 = Done (write16 m @ [opts, res] @ write16 ofs @ write16 mx)"
    by (rule list_layout)
next
  assume a: "length b = 4 + length cells" "unat bl = length b" "length cells mod 4 = 0"
    "cmd = SIXP_PKT_CMD_ADD \<or> cmd = SIXP_PKT_CMD_DELETE"
  have bl: "bl = of_nat (length b)" using a(2) by (metis of_nat_unat ucast_id)
  show "\<exists>b'. fill_add_request cmd m opts num cells b bl = Done b' \<and> b' = write16 m @ [opts, num] @ cells \<and>
          sixp_pkt_get_cell_list SIXP_PKT_TYPE_REQUEST cmd True True (Some b') bl = Done (Some 4, of_nat (length cells)) \<and>
          drop 4 b' = cells"
    using add_layout [OF a(4,1,2,3), of m opts num] a
    by (auto simp: sixp_pkt_get_cell_list_def sixp_offset_defs bl write16_def)
next
  assume a: "length b = 4 + length rel + length cand" "unat bl = length b" "length rel = 4 * unat num" "length cand mod 4 = 0"
  have bl: "bl = of_nat (length b)" using a(2) by (metis of_nat_unat ucast_id)
  have "(length rel + length cand) mod 4 = 0" using a(3,4) by simp
  moreover have "(of_nat (length rel) :: u16) = of_nat (4 * unat num)" by (simp only: a(3))
  ultimately show "\<exists>b'. fill_relocate_request m opts num rel cand b bl = Done b' \<and> b' = write16 m @ [opts, num] @ rel @ cand \<and>
          sixp_pkt_get_rel_cell_list SIXP_PKT_TYPE_REQUEST SIXP_PKT_CMD_RELOCATE True True (Some b') bl
            = Done (Some 4, of_nat (length rel)) \<and>
          sixp_pkt_get_cand_cell_list SIXP_PKT_TYPE_REQUEST SIXP_PKT_CMD_RELOCATE True True (Some b') bl
            = Done (Some (4 + length rel), of_nat (length cand))"
    using relocate_layout [OF a, of m opts] a
    by (simp add: sixp_pkt_get_rel_cell_list_def sixp_pkt_get_cand_cell_list_def sixp_pkt_get_num_cells_def
        sixp_offset_defs mem_read_def write16_def Let_def mult.commute bl)
qed

theorem sixp_request_layout_witness:
  "fill_list_request 0x0102 3 0 0x0304 0x0506 (replicate 8 0) 8 = Done [2, 1, 3, 0, 4, 3, 6, 5]"
  using sixp_request_layout [of "replicate 8 0" "0x0102" 3 0 "0x0304" "0x0506"] by (simp add: write16_def)

text \<open>C39. Memory safety of the accessors, with the caller passing the true length of the body. Every length-checked
  accessor stays inside the body, whatever the message. The setters of the number of cells and of the total number of cells and
  the getter of the reserved field have no length check and leave the body exactly when it is too short for the field; the
  payload getter copies as many bytes as the caller's buffer holds and reads beyond the body exactly when the
  payload is shorter than that buffer.\<close>

theorem sixp_access_safety:
  assumes "unat bl = length b" "unat n \<le> length cl" "unat k = length out"
  shows "sixp_pkt_set_metadata t c v (Some b) bl \<noteq> Fault \<and> sixp_pkt_get_metadata t c dst (Some b) bl \<noteq> Fault \<and>
    sixp_pkt_set_cell_options t c w (Some b) bl \<noteq> Fault \<and> sixp_pkt_get_cell_options t c dst (Some b) bl \<noteq> Fault \<and>
    sixp_pkt_get_num_cells t c dst (Some b) bl \<noteq> Fault \<and> sixp_pkt_set_reserved t c w (Some b) bl \<noteq> Fault \<and>
    sixp_pkt_set_offset t c v (Some b) bl \<noteq> Fault \<and> sixp_pkt_get_offset t c dst (Some b) bl \<noteq> Fault \<and>
    sixp_pkt_set_max_num_cells t c v (Some b) bl \<noteq> Fault \<and> sixp_pkt_get_max_num_cells t c dst (Some b) bl \<noteq> Fault \<and>
    sixp_pkt_get_total_num_cells t c dst (Some b) bl \<noteq> Fault \<and>
    sixp_pkt_set_cell_list t c (Some cl) n co (Some b) bl \<noteq> Fault \<and>
    sixp_pkt_set_rel_cell_list t c (Some cl) n co (Some b) bl \<noteq> Fault \<and>
    sixp_pkt_set_cand_cell_list t c (Some cl) n co (Some b) bl \<noteq> Fault \<and>
    sixp_pkt_set_payload t c cl n (Some b) bl \<noteq> Fault \<and>
    (sixp_pkt_set_num_cells t c w (Some b) bl = Fault \<longleftrightarrow> get_num_cells_offset t c \<noteq> None \<and> length b < 4) \<and>
    (sixp_pkt_set_total_num_cells t c v (Some b) bl = Fault \<longleftrightarrow> get_total_num_cells_offset t c \<noteq> None \<and> length b < 2) \<and>
    (sixp_pkt_get_reserved t c dst (Some b) bl = Fault \<longleftrightarrow> dst \<and> get_reserved_offset t c \<noteq> None \<and> length b < 4) \<and>
    (sixp_pkt_get_payload t c (Some out) k (Some b) bl = Fault \<longleftrightarrow>
       (\<exists>m. get_payload_offset t c = Some m \<and> length b < m + length out))"
  using sixp_fixed_fields_safe [OF assms(1)] sixp_lists_safe [OF assms(1,2)] get_num_cells_safe [OF assms(1)]
    sixp_unchecked [OF assms(1)] sixp_get_payload_overread [OF assms(1,3)]
  by (intro conjI) auto

theorem sixp_access_safety_witness:
  "sixp_pkt_set_num_cells SIXP_PKT_TYPE_REQUEST SIXP_PKT_CMD_ADD 1 (Some [0, 0, 0]) 3 = Fault"
  using sixp_access_safety [of 3 "[0, 0, 0]" 0 "[]" 0 "[]" SIXP_PKT_TYPE_REQUEST SIXP_PKT_CMD_ADD 0 True 1]
  by (simp add: get_num_cells_offset_def)

text \<open>C37. Creating and parsing are inverse: a message with a body of up to 124 bytes is written to the packet buffer as the 4-byte header and the body,
  and parsing that frame succeeds exactly when the body length fits the type and code, giving back type, code, SFID, sequence
  number and body. A body of 125 to 128 bytes passes the length check, which does not count the header, and is
  written beyond the end of the packet buffer; a longer body is refused.\<close>

theorem sixp_create_parse:
  assumes "length (pb_data p) = PACKETBUF_SIZE" "unat bl = length b"
  shows "if length b \<le> 124
    then \<exists>p'. sixp_pkt_create t c sf sq (if b = [] then None else Some b) bl q p =
        Done (0, created_pkt t c sf sq (if b = [] then None else Some b) bl q, p') \<and> pb_inv p' \<and>
      sixp_pkt_parse (Some (pb_frame p')) (4 + bl) (Some q') =
        Done (if sixp_msg_ok t c (length b)
          then (0, Some \<lparr>sp_version = 0, sp_type = t, sp_code = c, sp_sfid = sf, sp_seqno = sq, sp_body = Some b, sp_body_len = bl\<rparr>)
          else (-1, Some \<lparr>sp_version = 0, sp_type = t, sp_code = c, sp_sfid = sf, sp_seqno = sq, sp_body = None, sp_body_len = 0\<rparr>))
    else if length b \<le> 128
    then sixp_pkt_create t c sf sq (if b = [] then None else Some b) bl q p = Fault
    else sixp_pkt_create t c sf sq (if b = [] then None else Some b) bl q p = Done (-1, q, packetbuf_clear p)"
proof (cases "length b \<le> 124")
  case True
  then obtain p' where p': "sixp_pkt_create t c sf sq (if b = [] then None else Some b) bl q p =
        Done (0, created_pkt t c sf sq (if b = [] then None else Some b) bl q, p')" "pb_inv p'"
      "pb_frame p' = [push_bit 4 (sixp_type_value t) OR 0, c, sf, sq] @ b"
    using sixp_create_cases(1) [OF assms refl refl] by blast
  have "unat (4 + bl) = 4 + length b"
    using assms(2) True by (simp add: unat_word_ariths)
  from sixp_parse_header [OF this, of t c sf sq q'] show ?thesis
    using True p' by simp
qed (use sixp_create_cases(2,3) [OF assms refl refl] in auto)

theorem sixp_create_parse_witness:
  "\<exists>p'. sixp_pkt_create SIXP_PKT_TYPE_REQUEST SIXP_PKT_CMD_CLEAR 1 2 (Some [3, 4]) 2 None pb_zero = Done (0, None, p') \<and>
     sixp_pkt_parse (Some (pb_frame p')) 6 (Some sixp_pkt_zero) = Done (0, Some \<lparr>sp_version = 0, sp_type = SIXP_PKT_TYPE_REQUEST,
       sp_code = SIXP_PKT_CMD_CLEAR, sp_sfid = 1, sp_seqno = 2, sp_body = Some [3, 4], sp_body_len = 2\<rparr>)"
  using sixp_create_parse [of pb_zero 2 "[3, 4]" SIXP_PKT_TYPE_REQUEST SIXP_PKT_CMD_CLEAR 1 2 None sixp_pkt_zero]
  by (auto simp: pb_zero_def created_pkt_def sixp_msg_ok_def sixp_request_len_ok_def)

end
