(* ===== verification/Ie.thy ===== *)
theory Ie
  imports Packetbuf Asn
begin

text \<open>
  IEEE 802.15.4e information elements, \<^verbatim>\<open>os/net/mac/framer/frame802154e-ie.c\<close> with 6top enabled: writing each element
  and parsing the element list of a frame.

  A writer gets the offset of \<open>buf\<close> in the memory it writes to and the space \<open>len\<close> the caller says there
  is, and returns the number of bytes together with the new memory; -1 is \<open>Failed\<close>. The parser reads the memory from
  \<open>start\<close> on; the local variables of its loop are a record and one iteration is one function. The
  memory may go on behind the \<open>buf_size\<close> bytes of the elements; reading behind its end is a \<open>Fault\<close>.
\<close>

section \<open>Identifiers and data\<close>

abbreviation (input) HEADER_IE_ACK_NACK_TIME_CORRECTION :: u8 where "HEADER_IE_ACK_NACK_TIME_CORRECTION \<equiv> 0x1e"
abbreviation (input) HEADER_IE_LIST_TERMINATION_1 :: u8 where "HEADER_IE_LIST_TERMINATION_1 \<equiv> 0x7e"
abbreviation (input) HEADER_IE_LIST_TERMINATION_2 :: u8 where "HEADER_IE_LIST_TERMINATION_2 \<equiv> 0x7f"
abbreviation (input) PAYLOAD_IE_MLME :: u8 where "PAYLOAD_IE_MLME \<equiv> 1"
abbreviation (input) PAYLOAD_IE_IETF :: u8 where "PAYLOAD_IE_IETF \<equiv> 5"
abbreviation (input) PAYLOAD_IE_LIST_TERMINATION :: u8 where "PAYLOAD_IE_LIST_TERMINATION \<equiv> 0xf"
abbreviation (input) MLME_SHORT_IE_TSCH_SYNCHRONIZATION :: u8 where "MLME_SHORT_IE_TSCH_SYNCHRONIZATION \<equiv> 0x1a"
abbreviation (input) MLME_SHORT_IE_TSCH_SLOFTRAME_AND_LINK :: u8 where "MLME_SHORT_IE_TSCH_SLOFTRAME_AND_LINK \<equiv> 0x1b"
abbreviation (input) MLME_SHORT_IE_TSCH_TIMESLOT :: u8 where "MLME_SHORT_IE_TSCH_TIMESLOT \<equiv> 0x1c"
abbreviation (input) MLME_LONG_IE_TSCH_CHANNEL_HOPPING_SEQUENCE :: u8 where
  "MLME_LONG_IE_TSCH_CHANNEL_HOPPING_SEQUENCE \<equiv> 0x9"
abbreviation (input) SIXTOP_SUBIE_ID :: u8 where "SIXTOP_SUBIE_ID \<equiv> 0xc9"

definition FRAME802154E_IE_MAX_LINKS :: nat where "FRAME802154E_IE_MAX_LINKS = 4"
definition TSCH_HOPPING_SEQUENCE_MAX_LEN :: nat where "TSCH_HOPPING_SEQUENCE_MAX_LEN = 4"
definition tsch_ts_elements_count :: nat where "tsch_ts_elements_count = 12"

record tsch_slotframe_and_links_link =
  sl_timeslot :: u16
  sl_channel_offset :: u16
  sl_link_options :: u8

record tsch_slotframe_and_links =
  num_slotframes :: u8
  sfl_handle :: u8
  slotframe_size :: u16
  num_links :: u8
  links :: "tsch_slotframe_and_links_link list"

text \<open>\<open>ie_time_correction\<close> is an \<open>int16_t\<close>, kept as its 16-bit pattern; \<open>sixtop_ie_content_ptr\<close> is an offset from \<open>start\<close>.\<close>

record ieee802154_ies =
  ie_time_correction :: u16
  ie_is_nack :: u8
  ie_payload_ie_offset :: u8
  ie_mlme_len :: u16
  ie_tsch_synchronization_offset :: u8
  ie_asn :: tsch_asn_t
  ie_join_priority :: u8
  ie_tsch_timeslot_id :: u8
  ie_tsch_timeslot :: "u16 list"
  ie_tsch_slotframe_and_link :: tsch_slotframe_and_links
  ie_channel_hopping_sequence_id :: u8
  ie_hopping_sequence_len :: u16
  ie_hopping_sequence_list :: "u8 list"
  sixtop_ie_content_ptr :: "nat option"
  sixtop_ie_content_len :: u16

section \<open>Writing\<close>

definition create_header_ie_descriptor :: "nat \<Rightarrow> u8 \<Rightarrow> int \<Rightarrow> u8 list \<Rightarrow> u8 list outcome" where
  "create_header_ie_descriptor buf element_id ie_len mem =
     (let ie_desc = (word_of_int ie_len AND 0x7f) + push_bit 7 (ucast element_id AND 0xff) :: u16
      in mem_write buf (write16 ie_desc) mem)"

definition create_payload_ie_descriptor :: "nat \<Rightarrow> u8 \<Rightarrow> int \<Rightarrow> u8 list \<Rightarrow> u8 list outcome" where
  "create_payload_ie_descriptor buf group_id ie_len mem =
     (let ie_desc = (word_of_int ie_len AND 0x07ff) + push_bit 11 (ucast group_id AND 0x0f) + push_bit 15 1 :: u16
      in mem_write buf (write16 ie_desc) mem)"

definition create_mlme_short_ie_descriptor :: "nat \<Rightarrow> u8 \<Rightarrow> int \<Rightarrow> u8 list \<Rightarrow> u8 list outcome" where
  "create_mlme_short_ie_descriptor buf sub_id ie_len mem =
     (let ie_desc = (word_of_int ie_len AND 0xff) + push_bit 8 (ucast sub_id AND 0x7f) :: u16
      in mem_write buf (write16 ie_desc) mem)"

definition create_mlme_long_ie_descriptor :: "nat \<Rightarrow> u8 \<Rightarrow> int \<Rightarrow> u8 list \<Rightarrow> u8 list outcome" where
  "create_mlme_long_ie_descriptor buf sub_id ie_len mem =
     (let ie_desc = (word_of_int ie_len AND 0x07ff) + push_bit 11 (ucast sub_id AND 0x0f) + push_bit 15 1 :: u16
      in mem_write buf (write16 ie_desc) mem)"

text \<open>The result of a writer: the byte count and the memory.\<close>

definition ie_written :: "int \<Rightarrow> u8 list outcome \<Rightarrow> (int \<times> u8 list) outcome" where
  "ie_written n m = obind m (\<lambda>mem. Done (n, mem))"

definition frame80215e_create_ie_header_ack_nack_time_correction ::
    "nat \<Rightarrow> int \<Rightarrow> ieee802154_ies option \<Rightarrow> u8 list \<Rightarrow> (int \<times> u8 list) outcome" where
  "frame80215e_create_ie_header_ack_nack_time_correction buf len ies mem =
     (case ies of Some i \<Rightarrow>
        if len \<ge> 2 + 2 then
          (let f0 = ie_time_correction i AND 0x0fff;
               f = (if ie_is_nack i \<noteq> 0 then f0 OR 0x8000 else f0)
           in ie_written (2 + 2)
             (obind (mem_write (buf + 2) (write16 f) mem)
               (create_header_ie_descriptor buf HEADER_IE_ACK_NACK_TIME_CORRECTION 2)))
        else Failed
      | None \<Rightarrow> Failed)"

definition frame80215e_create_ie_header_list_termination_1 ::
    "nat \<Rightarrow> int \<Rightarrow> ieee802154_ies option \<Rightarrow> u8 list \<Rightarrow> (int \<times> u8 list) outcome" where
  "frame80215e_create_ie_header_list_termination_1 buf len ies mem =
     (if len \<ge> 2 + 0 \<and> ies \<noteq> None
      then ie_written (2 + 0) (create_header_ie_descriptor buf HEADER_IE_LIST_TERMINATION_1 0 mem) else Failed)"

definition frame80215e_create_ie_header_list_termination_2 ::
    "nat \<Rightarrow> int \<Rightarrow> ieee802154_ies option \<Rightarrow> u8 list \<Rightarrow> (int \<times> u8 list) outcome" where
  "frame80215e_create_ie_header_list_termination_2 buf len ies mem =
     (if len \<ge> 2 + 0 \<and> ies \<noteq> None
      then ie_written (2 + 0) (create_header_ie_descriptor buf HEADER_IE_LIST_TERMINATION_2 0 mem) else Failed)"

definition frame80215e_create_ie_payload_list_termination ::
    "nat \<Rightarrow> int \<Rightarrow> ieee802154_ies option \<Rightarrow> u8 list \<Rightarrow> (int \<times> u8 list) outcome" where
  "frame80215e_create_ie_payload_list_termination buf len ies mem =
     (if len \<ge> 2 + 0 \<and> ies \<noteq> None
      then ie_written (2 + 0) (create_payload_ie_descriptor buf PAYLOAD_IE_LIST_TERMINATION 0 mem) else Failed)"

definition frame80215e_create_ie_ietf ::
    "nat \<Rightarrow> int \<Rightarrow> ieee802154_ies option \<Rightarrow> u8 list \<Rightarrow> (int \<times> u8 list) outcome" where
  "frame80215e_create_ie_ietf buf len ies mem =
     (case ies of Some i \<Rightarrow>
        if len \<ge> 2
        then ie_written (2 + uint (sixtop_ie_content_len i))
               (create_payload_ie_descriptor buf PAYLOAD_IE_IETF (uint (sixtop_ie_content_len i)) mem)
        else Failed
      | None \<Rightarrow> Failed)"

definition frame80215e_create_ie_mlme ::
    "nat \<Rightarrow> int \<Rightarrow> ieee802154_ies option \<Rightarrow> u8 list \<Rightarrow> (int \<times> u8 list) outcome" where
  "frame80215e_create_ie_mlme buf len ies mem =
     (case ies of Some i \<Rightarrow>
        if len \<ge> 2 + 0
        then ie_written (2 + 0) (create_payload_ie_descriptor buf PAYLOAD_IE_MLME (uint (ie_mlme_len i)) mem)
        else Failed
      | None \<Rightarrow> Failed)"

definition asn_bytes :: "tsch_asn_t \<Rightarrow> u8 list" where
  "asn_bytes a = [ucast (ls4b a), ucast (drop_bit 8 (ls4b a)), ucast (drop_bit 16 (ls4b a)),
                  ucast (drop_bit 24 (ls4b a)), ms1b a]"

definition frame80215e_create_ie_tsch_synchronization ::
    "nat \<Rightarrow> int \<Rightarrow> ieee802154_ies option \<Rightarrow> u8 list \<Rightarrow> (int \<times> u8 list) outcome" where
  "frame80215e_create_ie_tsch_synchronization buf len ies mem =
     (case ies of Some i \<Rightarrow>
        if len \<ge> 2 + 6
        then ie_written (2 + 6)
               (obind (mem_write (buf + 2) (asn_bytes (ie_asn i) @ [ie_join_priority i]) mem)
                 (create_mlme_short_ie_descriptor buf MLME_SHORT_IE_TSCH_SYNCHRONIZATION 6))
        else Failed
      | None \<Rightarrow> Failed)"

text \<open>The bytes of one link, and the loop over the links.\<close>

definition link_bytes :: "tsch_slotframe_and_links_link \<Rightarrow> u8 list" where
  "link_bytes l = write16 (sl_timeslot l) @ write16 (sl_channel_offset l) @ [sl_link_options l]"

fun write_links :: "nat \<Rightarrow> nat \<Rightarrow> tsch_slotframe_and_links_link list \<Rightarrow> u8 list \<Rightarrow> u8 list outcome" where
  "write_links p 0 ls mem = Done mem"
| "write_links p (Suc n) [] mem = Fault"
| "write_links p (Suc n) (l # ls) mem = obind (mem_write p (link_bytes l) mem) (write_links (p + 5) n ls)"

definition frame80215e_create_ie_tsch_slotframe_and_link ::
    "nat \<Rightarrow> int \<Rightarrow> ieee802154_ies option \<Rightarrow> u8 list \<Rightarrow> (int \<times> u8 list) outcome" where
  "frame80215e_create_ie_tsch_slotframe_and_link buf len ies mem =
     (case ies of None \<Rightarrow> Failed
      | Some i \<Rightarrow>
          (let sl = ie_tsch_slotframe_and_link i;
               ns = uint (num_slotframes sl);
               nl = uint (num_links sl);
               ie_len = 1 + ns * (4 + 5 * nl)
           in if ns > 1 \<or> nl > int FRAME802154E_IE_MAX_LINKS \<or> len < 2 + ie_len then Failed
              else ie_written (2 + ie_len)
                (obind (mem_write (buf + 2) [num_slotframes sl] mem) (\<lambda>m1.
                 obind (if ns = 1
                        then obind (mem_write (buf + 3) ([sfl_handle sl] @ write16 (slotframe_size sl) @ [num_links sl]) m1)
                               (write_links (buf + 7) (unat (num_links sl)) (links sl))
                        else Done m1)
                   (create_mlme_short_ie_descriptor buf MLME_SHORT_IE_TSCH_SLOFTRAME_AND_LINK ie_len)))))"

definition frame80215e_create_ie_tsch_timeslot ::
    "nat \<Rightarrow> int \<Rightarrow> ieee802154_ies option \<Rightarrow> u8 list \<Rightarrow> (int \<times> u8 list) outcome" where
  "frame80215e_create_ie_tsch_timeslot buf len ies mem =
     (case ies of None \<Rightarrow> Failed
      | Some i \<Rightarrow>
          (let ie_len = (if ie_tsch_timeslot_id i = 0 then 1 else 25) in
           if len \<ge> 2 + ie_len
           then ie_written (2 + ie_len)
             (obind (mem_write (buf + 2) [ie_tsch_timeslot_id i] mem) (\<lambda>m1.
              obind (if ie_tsch_timeslot_id i \<noteq> 0
                     then mem_write (buf + 3) (concat (map write16 (take tsch_ts_elements_count (ie_tsch_timeslot i)))) m1 else Done m1)
                (create_mlme_short_ie_descriptor buf MLME_SHORT_IE_TSCH_TIMESLOT ie_len)))
           else Failed))"

definition frame80215e_create_ie_tsch_channel_hopping_sequence ::
    "nat \<Rightarrow> int \<Rightarrow> ieee802154_ies option \<Rightarrow> u8 list \<Rightarrow> (int \<times> u8 list) outcome" where
  "frame80215e_create_ie_tsch_channel_hopping_sequence buf len ies mem =
     (case ies of None \<Rightarrow> Failed
      | Some i \<Rightarrow>
          if unat (ie_hopping_sequence_len i) > TSCH_HOPPING_SEQUENCE_MAX_LEN then Failed
          else
            (let n = unat (ie_hopping_sequence_len i);
                 ie_len = (if ie_channel_hopping_sequence_id i = 0 then 1 else 12 + int n)
             in if len \<ge> 2 + ie_len
                then ie_written (2 + ie_len)
                  (obind (mem_write (buf + 2) ([ie_channel_hopping_sequence_id i, 0] @ write16 0 @ write16 0 @ write16 0 @
                            write16 (ie_hopping_sequence_len i)) mem) (\<lambda>m1.
                   obind (mem_read 0 n (ie_hopping_sequence_list i)) (\<lambda>hs.
                   obind (mem_write (buf + 12) hs m1) (\<lambda>m2.
                   obind (mem_write (buf + 12 + n) (write16 0) m2)
                     (create_mlme_long_ie_descriptor buf MLME_LONG_IE_TSCH_CHANNEL_HOPPING_SEQUENCE ie_len)))))
                else Failed))"

section \<open>Parsing single elements\<close>

text \<open>Element parsers get the offset of \<open>buf\<close> and the length; -1 is \<open>Failed\<close>, otherwise the length is returned and the
  fields are stored. The caller always passes a non-NULL \<open>ies\<close>.\<close>

definition read16_at :: "nat \<Rightarrow> u8 list \<Rightarrow> u16 outcome" where
  "read16_at p mem = obind (mem_read p 2 mem) (\<lambda>b. Done (read16 (b ! 0) (b ! 1)))"

definition frame802154e_parse_header_ie ::
    "nat \<Rightarrow> nat \<Rightarrow> u8 \<Rightarrow> ieee802154_ies \<Rightarrow> u8 list \<Rightarrow> ieee802154_ies outcome" where
  "frame802154e_parse_header_ie buf len element_id ies mem =
     (if element_id = HEADER_IE_ACK_NACK_TIME_CORRECTION \<and> len = 2 then
        obind (read16_at buf mem) (\<lambda>f.
          let drift_us = (if f AND 0x0800 \<noteq> 0 then f OR 0xf000 else f AND 0x0fff)
          in Done (ies\<lparr>ie_is_nack := (if f AND 0x8000 \<noteq> 0 then 1 else 0), ie_time_correction := drift_us\<rparr>))
      else Failed)"

fun read_links :: "nat \<Rightarrow> nat \<Rightarrow> tsch_slotframe_and_links_link list \<Rightarrow> u8 list \<Rightarrow> tsch_slotframe_and_links_link list outcome" where
  "read_links p 0 ls mem = Done ls"
| "read_links p (Suc n) [] mem = Fault"
| "read_links p (Suc n) (l # ls) mem =
     obind (mem_read p 5 mem) (\<lambda>b.
     obind (read_links (p + 5) n ls mem) (\<lambda>r.
     Done (\<lparr>sl_timeslot = read16 (b ! 0) (b ! 1), sl_channel_offset = read16 (b ! 2) (b ! 3),
            sl_link_options = b ! 4\<rparr> # r)))"

fun read_words :: "nat \<Rightarrow> nat \<Rightarrow> u8 list \<Rightarrow> u16 list outcome" where
  "read_words p 0 mem = Done []"
| "read_words p (Suc n) mem =
     obind (read16_at p mem) (\<lambda>w. obind (read_words (p + 2) n mem) (\<lambda>ws. Done (w # ws)))"

definition parse_slotframe_and_link ::
    "nat \<Rightarrow> nat \<Rightarrow> ieee802154_ies \<Rightarrow> u8 list \<Rightarrow> ieee802154_ies outcome" where
  "parse_slotframe_and_link buf len ies mem =
     (if len \<ge> 1 then
        obind (mem_read buf 1 mem) (\<lambda>b0.
        obind (mem_read (buf + 4) 1 mem) (\<lambda>b4.
          let ns = unat (b0 ! 0); nl = unat (b4 ! 0) in
          if ns = 0 then Done ies
          else if ns \<le> 1 \<and> nl \<le> FRAME802154E_IE_MAX_LINKS \<and> len = 1 + ns * (4 + 5 * nl) then
            obind (mem_read buf 5 mem) (\<lambda>h.
            obind (read_links (buf + 5) nl (links (ie_tsch_slotframe_and_link ies)) mem) (\<lambda>ls.
            Done (ies\<lparr>ie_tsch_slotframe_and_link :=
              \<lparr>num_slotframes = h ! 0, sfl_handle = h ! 1, slotframe_size = read16 (h ! 2) (h ! 3),
               num_links = h ! 4, links = ls\<rparr>\<rparr>)))
          else Failed))
      else Failed)"

definition parse_synchronization ::
    "nat \<Rightarrow> nat \<Rightarrow> ieee802154_ies \<Rightarrow> u8 list \<Rightarrow> ieee802154_ies outcome" where
  "parse_synchronization buf len ies mem =
     (if len = 6 then
        obind (mem_read buf 6 mem) (\<lambda>b.
        Done (ies\<lparr>ie_asn := \<lparr>ls4b = ucast (b ! 0) OR push_bit 8 (ucast (b ! 1)) OR push_bit 16 (ucast (b ! 2))
                                OR push_bit 24 (ucast (b ! 3)), ms1b = b ! 4\<rparr>,
                 ie_join_priority := b ! 5\<rparr>))
      else Failed)"

definition parse_timeslot ::
    "nat \<Rightarrow> nat \<Rightarrow> ieee802154_ies \<Rightarrow> u8 list \<Rightarrow> ieee802154_ies outcome" where
  "parse_timeslot buf len ies mem =
     (if len = 1 \<or> len = 25 then
        obind (mem_read buf 1 mem) (\<lambda>b.
        obind (if len = 25 then read_words (buf + 1) tsch_ts_elements_count mem else Done (ie_tsch_timeslot ies)) (\<lambda>ts.
        Done (ies\<lparr>ie_tsch_timeslot_id := b ! 0, ie_tsch_timeslot := ts\<rparr>)))
      else Failed)"

definition frame802154e_parse_mlme_short_ie ::
    "nat \<Rightarrow> nat \<Rightarrow> u8 \<Rightarrow> ieee802154_ies \<Rightarrow> u8 list \<Rightarrow> ieee802154_ies outcome" where
  "frame802154e_parse_mlme_short_ie buf len sub_id ies mem =
     (if sub_id = MLME_SHORT_IE_TSCH_SLOFTRAME_AND_LINK then parse_slotframe_and_link buf len ies mem
      else if sub_id = MLME_SHORT_IE_TSCH_SYNCHRONIZATION then parse_synchronization buf len ies mem
      else if sub_id = MLME_SHORT_IE_TSCH_TIMESLOT then parse_timeslot buf len ies mem
      else Failed)"

definition frame802154e_parse_mlme_long_ie ::
    "nat \<Rightarrow> nat \<Rightarrow> u8 \<Rightarrow> ieee802154_ies \<Rightarrow> u8 list \<Rightarrow> ieee802154_ies outcome" where
  "frame802154e_parse_mlme_long_ie buf len sub_id ies mem =
     (if sub_id = MLME_LONG_IE_TSCH_CHANNEL_HOPPING_SEQUENCE \<and> len > 0 then
        obind (mem_read buf 1 mem) (\<lambda>b.
          let i1 = ies\<lparr>ie_channel_hopping_sequence_id := b ! 0\<rparr> in
          if len > 1 then
            obind (read16_at (buf + 8) mem) (\<lambda>n.
              let i2 = i1\<lparr>ie_hopping_sequence_len := n\<rparr> in
              if unat n \<le> TSCH_HOPPING_SEQUENCE_MAX_LEN \<and> len = 12 + unat n then
                obind (mem_read (buf + 10) (unat n) mem) (\<lambda>hs.
                obind (mem_write 0 hs (ie_hopping_sequence_list i2)) (\<lambda>l.
                Done (i2\<lparr>ie_hopping_sequence_list := l\<rparr>)))
              else Done i2)
          else Done i1)
      else Failed)"

section \<open>Parsing the element list\<close>

datatype parsing_state = PARSING_HEADER_IE | PARSING_PAYLOAD_IE | PARSING_MLME_SUBIE

text \<open>\<open>il_off\<close> is \<open>buf - start\<close> and \<open>il_size\<close> the remaining \<open>buf_size\<close>, a \<open>uint8_t\<close>.\<close>

record ie_loop =
  il_off :: nat
  il_size :: u8
  il_state :: parsing_state
  il_nested :: int
  il_ies :: ieee802154_ies

text \<open>One iteration ends the function with a value or goes on.\<close>

datatype ie_step = Return int ieee802154_ies | Continue ie_loop

text \<open>The end of an iteration: \<open>buf += len; buf_size -= len\<close>.\<close>

definition ie_advance :: "u16 \<Rightarrow> ie_loop \<Rightarrow> ie_step outcome" where
  "ie_advance len s = Done (Continue (s\<lparr>il_off := il_off s + unat len, il_size := il_size s - ucast len\<rparr>))"

definition ie_header_step :: "u16 \<Rightarrow> ie_loop \<Rightarrow> u8 list \<Rightarrow> ie_step outcome" where
  "ie_header_step ie_desc s mem =
     (if ie_desc AND 0x8000 \<noteq> 0 then Failed
      else
        (let len = ie_desc AND 0x007f; id = ucast (drop_bit 7 (ie_desc AND 0x7f80)) :: u8 in
         if id = HEADER_IE_LIST_TERMINATION_1 then
           if len = 0 then
             ie_advance len (s\<lparr>il_state := PARSING_PAYLOAD_IE,
               il_ies := (il_ies s)\<lparr>ie_payload_ie_offset := of_nat (il_off s)\<rparr>\<rparr>)
           else Failed
         else if id = HEADER_IE_LIST_TERMINATION_2 then
           if len = 0 then
             Done (Return (int (il_off s)) ((il_ies s)\<lparr>ie_payload_ie_offset := of_nat (il_off s)\<rparr>))
           else Failed
         else if unat len > unat (il_size s) then Failed
         else obind (frame802154e_parse_header_ie (il_off s) (unat len) id (il_ies s) mem) (\<lambda>ies.
              ie_advance len (s\<lparr>il_ies := ies\<rparr>))))"

definition ie_payload_step :: "u16 \<Rightarrow> ie_loop \<Rightarrow> u8 list \<Rightarrow> ie_step outcome" where
  "ie_payload_step ie_desc s mem =
     (if ie_desc AND 0x8000 = 0 then Failed
      else
        (let len = ie_desc AND 0x7ff; id = ucast (drop_bit 11 (ie_desc AND 0x7800)) :: u8 in
         if id = PAYLOAD_IE_MLME then
           ie_advance 0 (s\<lparr>il_state := PARSING_MLME_SUBIE, il_nested := uint len\<rparr>)
         else if id = PAYLOAD_IE_IETF then
           obind (mem_read (il_off s) 1 mem) (\<lambda>b.
             if b ! 0 = SIXTOP_SUBIE_ID then
               ie_advance len (s\<lparr>il_ies := (il_ies s)\<lparr>sixtop_ie_content_ptr := Some (il_off s + 1),
                 sixtop_ie_content_len := len - 1\<rparr>\<rparr>)
             else ie_advance len s)
         else if id = PAYLOAD_IE_LIST_TERMINATION then
           if len = 0 then Done (Return (int (il_off s)) (il_ies s)) else Failed
         else Failed))"

definition ie_mlme_step :: "u16 \<Rightarrow> ie_loop \<Rightarrow> u8 list \<Rightarrow> ie_step outcome" where
  "ie_mlme_step ie_desc s mem =
     (let short = (ie_desc AND 0x8000 = 0);
          len = (if short then ie_desc AND 0x00ff else ie_desc AND 0x7ff);
          id = (if short then ucast (drop_bit 8 (ie_desc AND 0x7f00)) else ucast (drop_bit 11 (ie_desc AND 0x7800))) :: u8
      in if unat len > unat (il_size s) then Failed
         else
           obind (if short then frame802154e_parse_mlme_short_ie (il_off s) (unat len) id (il_ies s) mem
                  else frame802154e_parse_mlme_long_ie (il_off s) (unat len) id (il_ies s) mem) (\<lambda>ies.
             let nested = il_nested s - (2 + uint len) in
             if nested < 0 then Failed
             else ie_advance len (s\<lparr>il_ies := ies, il_nested := nested,
                    il_state := (if nested = 0 then PARSING_PAYLOAD_IE else il_state s)\<rparr>)))"

definition ie_iteration :: "ie_loop \<Rightarrow> u8 list \<Rightarrow> ie_step outcome" where
  "ie_iteration s mem =
     (if il_size s < 2 then Failed
      else
        obind (read16_at (il_off s) mem) (\<lambda>ie_desc.
          let s1 = s\<lparr>il_size := il_size s - 2, il_off := il_off s + 2\<rparr> in
          case il_state s of
            PARSING_HEADER_IE \<Rightarrow> ie_header_step ie_desc s1 mem
          | PARSING_PAYLOAD_IE \<Rightarrow> ie_payload_step ie_desc s1 mem
          | PARSING_MLME_SUBIE \<Rightarrow> ie_mlme_step ie_desc s1 mem))"

lemma ie_advance_off: "ie_advance len s = Done (Continue s') \<Longrightarrow> il_off s \<le> il_off s'"
  by (auto simp: ie_advance_def)

text \<open>Every iteration moves the position, and it can only move while it is inside the memory: the loop terminates.\<close>

lemma ie_iteration_progress:
  assumes "ie_iteration s mem = Done (Continue s')"
  shows "il_off s < il_off s'" "il_off s < length mem"
proof -
  obtain d where d: "read16_at (il_off s) mem = Done d"
    using assms by (auto simp: ie_iteration_def obind_Done_iff split: if_splits)
  then show "il_off s < length mem"
    by (auto simp: read16_at_def obind_Done_iff mem_read_def split: if_splits)
  show "il_off s < il_off s'"
    using assms d
    by (cases "il_state s")
      (force simp: ie_iteration_def ie_header_step_def ie_payload_step_def ie_mlme_step_def obind_Done_iff Let_def
        dest!: ie_advance_off split: if_splits)+
qed

function ie_loop_run :: "ie_loop \<Rightarrow> u8 list \<Rightarrow> (int \<times> ieee802154_ies) outcome" where
  "ie_loop_run s mem =
     (if il_size s > 0 then
        (case ie_iteration s mem of
           Failed \<Rightarrow> Failed
         | Fault \<Rightarrow> Fault
         | Done (Return n ies) \<Rightarrow> Done (n, ies)
         | Done (Continue s') \<Rightarrow> ie_loop_run s' mem)
      else
        Done (int (il_off s),
          if il_state s = PARSING_HEADER_IE then (il_ies s)\<lparr>ie_payload_ie_offset := of_nat (il_off s)\<rparr>
          else il_ies s))"
  by pat_completeness auto

termination
  using ie_iteration_progress
  by (relation "measure (\<lambda>(s, mem). length mem - il_off s)") (auto intro: diff_less_mono2)

declare ie_loop_run.simps [simp del]

definition frame802154e_parse_information_elements ::
    "u8 list \<Rightarrow> u8 \<Rightarrow> ieee802154_ies option \<Rightarrow> (int \<times> ieee802154_ies) outcome" where
  "frame802154e_parse_information_elements mem buf_size ies =
     (case ies of None \<Rightarrow> Failed
      | Some i \<Rightarrow> ie_loop_run \<lparr>il_off = 0, il_size = buf_size, il_state = PARSING_HEADER_IE, il_nested = 0,
                              il_ies = i\<lparr>ie_payload_ie_offset := 0\<rparr>\<rparr> mem)"

end
