(* ===== verification/IeProps.thy ===== *)
theory IeProps
  imports Ie
begin

text \<open>Properties of the information elements: what each writer puts in the buffer, and that the parser reads element lists of any
  order and length back; the reads and writes outside the buffer that the code allows.\<close>

section \<open>Descriptors\<close>

lemma and_2047: "(w :: u16) AND 0x7ff = take_bit 11 w"
  by (simp add: take_bit_eq_mask mask_eq_exp_minus_1)

lemma drop_and_7800: "drop_bit 11 ((w :: u16) AND 0x7800) = take_bit 4 (drop_bit 11 w)"
proof -
  have m: "(0x7800 :: u16) = push_bit 11 (mask 4)" by (simp add: mask_eq_exp_minus_1)
  show ?thesis unfolding m by (rule bit_word_eqI) (auto simp: bit_simps)
qed

lemma and_8000: "(w :: u16) AND 0x8000 = 0 \<longleftrightarrow> unat w < 32768"
proof -
  have m: "(0x8000 :: u16) = 2 ^ 15" by simp
  have "w AND 0x8000 = 0 \<longleftrightarrow> \<not> bit w 15"
    unfolding m by (rule and_exp_eq_0_iff_not_bit)
  also have "\<dots> \<longleftrightarrow> even (unat w div 2 ^ 15)"
  proof -
    have "bit (unat w) 15 \<longleftrightarrow> bit w 15" by (simp add: bit_unsigned_iff)
    with bit_iff_odd [of "unat w" 15] show ?thesis by blast
  qed
  also have "\<dots> \<longleftrightarrow> unat w < 32768"
  proof (cases "unat w < 32768")
    case False
    then have "unat w div 2 ^ 15 = 1" using u16_bound [of w] by (intro div_nat_eqI) simp_all
    then show ?thesis using False by simp
  qed simp
  finally show ?thesis .
qed

text \<open>Reading back the fields of a payload or long descriptor.\<close>

lemma payload_desc_fields:
  fixes d :: u16
  assumes "unat d = 32768 + 2048 * g + n" "n < 2048" "g < 16"
  shows "d AND 0x8000 \<noteq> 0" "unat (d AND 0x7ff) = n" "unat (ucast (drop_bit 11 (d AND 0x7800)) :: u8) = g"
proof -
  have e: "32768 + 2048 * g + n = n + 2048 * (16 + g)" by simp
  have dm: "(n + 2048 * (16 + g)) mod 2048 = n" "(n + 2048 * (16 + g)) div 2048 = 16 + g" "(16 + g) mod 16 = g"
    using assms(2,3) by (simp_all only: mod_mult_self2 div_mult_self2 mod_less) simp_all
  show "d AND 0x8000 \<noteq> 0" using assms by (simp add: and_8000)
  have "unat (d AND 0x7ff) = take_bit 11 (unat d)"
    by (simp only: and_2047 unsigned_take_bit_eq)
  also have "\<dots> = (32768 + 2048 * g + n) mod 2048"
    by (simp only: assms(1) take_bit_eq_mod) simp
  also have "\<dots> = n" unfolding e by (rule dm)
  finally show "unat (d AND 0x7ff) = n" .
  have "unat (ucast (drop_bit 11 (d AND 0x7800)) :: u8) = take_bit 4 (unat (drop_bit 11 d)) mod 2 ^ 8"
    by (subst drop_and_7800, subst unat_ucast_mod, subst unsigned_take_bit_eq) simp
  also have "unat (drop_bit 11 d) = (32768 + 2048 * g + n) div 2048"
    by (simp add: drop_bit_eq_div unat_div assms(1))
  also have "take_bit 4 \<dots> mod 2 ^ 8 = \<dots> mod 16"
    by (simp add: take_bit_eq_mod mod_mod_cancel)
  also have "\<dots> = g" unfolding e dm(2) by (rule dm)
  finally show "unat (ucast (drop_bit 11 (d AND 0x7800)) :: u8) = g" .
qed

section \<open>Element encodings and the writers\<close>

text \<open>Well-formed arrays: the C arrays have a fixed size.\<close>

definition ies_wf :: "ieee802154_ies \<Rightarrow> bool" where
  "ies_wf i \<longleftrightarrow> length (ie_tsch_timeslot i) = tsch_ts_elements_count \<and>
     length (links (ie_tsch_slotframe_and_link i)) = FRAME802154E_IE_MAX_LINKS \<and>
     length (ie_hopping_sequence_list i) = TSCH_HOPPING_SEQUENCE_MAX_LEN"

definition enc_sync :: "ieee802154_ies \<Rightarrow> u8 list" where
  "enc_sync i = write16 0x1a06 @ asn_bytes (ie_asn i) @ [ie_join_priority i]"

definition enc_timeslot :: "ieee802154_ies \<Rightarrow> u8 list" where
  "enc_timeslot i = (if ie_tsch_timeslot_id i = 0 then write16 0x1c01 @ [0]
     else write16 0x1c19 @ [ie_tsch_timeslot_id i] @ concat (map write16 (ie_tsch_timeslot i)))"

definition enc_links :: "ieee802154_ies \<Rightarrow> u8 list" where
  "enc_links i = (let sl = ie_tsch_slotframe_and_link i in
     if num_slotframes sl = 0 then write16 0x1b01 @ [0]
     else write16 (0x1b05 + 5 * ucast (num_links sl)) @ [1, sfl_handle sl] @ write16 (slotframe_size sl) @
       [num_links sl] @ concat (map link_bytes (take (unat (num_links sl)) (links sl))))"

definition enc_hopping :: "ieee802154_ies \<Rightarrow> u8 list" where
  "enc_hopping i = write16 (0xc80c + ie_hopping_sequence_len i) @ [ie_channel_hopping_sequence_id i, 0] @ write16 0 @ write16 0 @
     write16 0 @ write16 (ie_hopping_sequence_len i) @
     take (unat (ie_hopping_sequence_len i)) (ie_hopping_sequence_list i) @ write16 0"

lemma length_asn_bytes [simp]: "length (asn_bytes a) = 5"
  by (simp add: asn_bytes_def)

lemma length_link_bytes [simp]: "length (link_bytes l) = 5"
  by (simp add: link_bytes_def)

lemma length_encodings [simp]:
  "length (enc_sync i) = 8"
  "ies_wf i \<Longrightarrow> length (enc_timeslot i) = (if ie_tsch_timeslot_id i = 0 then 3 else 27)"
  "ies_wf i \<Longrightarrow> unat (num_links (ie_tsch_slotframe_and_link i)) \<le> 4 \<Longrightarrow> length (enc_links i) =
     (if num_slotframes (ie_tsch_slotframe_and_link i) = 0 then 3
      else 7 + 5 * unat (num_links (ie_tsch_slotframe_and_link i)))"
  "ies_wf i \<Longrightarrow> unat (ie_hopping_sequence_len i) \<le> 4 \<Longrightarrow> length (enc_hopping i) = 14 + unat (ie_hopping_sequence_len i)"
  by (simp_all add: enc_sync_def enc_timeslot_def enc_links_def enc_hopping_def ies_wf_def length_concat_const [where k = 2]
      length_concat_const [where k = 5] tsch_ts_elements_count_def FRAME802154E_IE_MAX_LINKS_def
      TSCH_HOPPING_SEQUENCE_MAX_LEN_def min_def Let_def)

lemma create_sync:
  assumes "buf + 8 \<le> length mem" "8 \<le> len"
  shows "frame80215e_create_ie_tsch_synchronization buf len (Some i) mem = Done (8, put_at buf (enc_sync i) mem)"
proof -
  have "obind (mem_write (buf + 2) (asn_bytes (ie_asn i) @ [ie_join_priority i]) mem)
      (create_mlme_short_ie_descriptor buf 0x1a 6) = mem_write buf (enc_sync i) mem"
    unfolding create_mlme_short_ie_descriptor_def enc_sync_def Let_def
    using assms by (subst mem_write_before) simp_all
  then show ?thesis
    using assms by (simp add: frame80215e_create_ie_tsch_synchronization_def ie_written_def mem_write_put_at)
qed

lemma create_timeslot:
  assumes "ies_wf i" "buf + length (enc_timeslot i) \<le> length mem" "int (length (enc_timeslot i)) \<le> len"
  shows "frame80215e_create_ie_tsch_timeslot buf len (Some i) mem =
    Done (int (length (enc_timeslot i)), put_at buf (enc_timeslot i) mem)"
proof (cases "ie_tsch_timeslot_id i = 0")
  case True
  have "obind (mem_write (buf + 2) [ie_tsch_timeslot_id i] mem) (create_mlme_short_ie_descriptor buf 0x1c 1)
      = mem_write buf (enc_timeslot i) mem"
    unfolding create_mlme_short_ie_descriptor_def enc_timeslot_def Let_def
    using assms True by (subst mem_write_before) simp_all
  then show ?thesis
    using assms True by (simp add: frame80215e_create_ie_tsch_timeslot_def ie_written_def mem_write_put_at obind_assoc)
next
  case False
  let ?w = "concat (map write16 (ie_tsch_timeslot i))"
  have w: "length ?w = 24" "take tsch_ts_elements_count (ie_tsch_timeslot i) = ie_tsch_timeslot i"
    using assms(1) by (simp_all add: ies_wf_def length_concat_const [where k = 2] tsch_ts_elements_count_def)
  have "obind (obind (mem_write (buf + 2) [ie_tsch_timeslot_id i] mem) (mem_write (buf + 3) ?w))
      (create_mlme_short_ie_descriptor buf 0x1c 25)
      = obind (mem_write (buf + 2) ([ie_tsch_timeslot_id i] @ ?w) mem) (create_mlme_short_ie_descriptor buf 0x1c 25)"
    using assms False w(1) by (subst mem_write_after) simp_all
  also have "\<dots> = mem_write buf (enc_timeslot i) mem"
    unfolding create_mlme_short_ie_descriptor_def enc_timeslot_def Let_def
    using assms False w(1) by (subst mem_write_before) simp_all
  finally show ?thesis
    using assms False w
    by (simp add: frame80215e_create_ie_tsch_timeslot_def ie_written_def mem_write_put_at obind_assoc)
qed

lemma length_concat_links: "length (concat (map link_bytes ls)) = 5 * length ls"
  by (simp add: length_concat_const [where k = 5])

lemma write_links_eq:
  "n \<le> length ls \<Longrightarrow> p + 5 * n \<le> length mem \<Longrightarrow>
   write_links p n ls mem = mem_write p (concat (map link_bytes (take n ls))) mem"
proof (induction p n ls mem rule: write_links.induct)
  case (3 p n l ls mem)
  let ?b = "concat (map link_bytes (take n ls))"
  have w: "mem_write p (link_bytes l) mem = Done (put_at p (link_bytes l) mem)"
    using 3(3) by (simp add: mem_write_put_at)
  have len: "length (put_at p (link_bytes l) mem) = length mem"
    using mem_write_length [OF w] .
  have "write_links p (Suc n) (l # ls) mem = obind (mem_write p (link_bytes l) mem) (mem_write (p + 5) ?b)"
    using 3 w len by simp
  also have "\<dots> = mem_write p (link_bytes l @ ?b) mem"
    using 3(2,3) by (intro mem_write_after) (simp_all add: length_concat_links min_def)
  finally show ?case by simp
qed (simp_all add: mem_write_Nil)

lemma upto_4_cases:
  assumes "unat (w :: 'a::len word) \<le> 4"
  shows "w = 0 \<or> w = 1 \<or> w = 2 \<or> w = 3 \<or> w = 4"
proof -
  have "unat w = 0 \<or> unat w = 1 \<or> unat w = 2 \<or> unat w = 3 \<or> unat w = 4" using assms by linarith
  then have "of_nat (unat w) = (of_nat 0 :: 'a word) \<or> of_nat (unat w) = (of_nat 1 :: 'a word) \<or>
      of_nat (unat w) = (of_nat 2 :: 'a word) \<or> of_nat (unat w) = (of_nat 3 :: 'a word) \<or> of_nat (unat w) = (of_nat 4 :: 'a word)"
    by (elim disjE) simp_all
  then show ?thesis by simp
qed

lemma create_links:
  fixes i defines "sl \<equiv> ie_tsch_slotframe_and_link i"
  assumes wf: "ies_wf i" and ns: "num_slotframes sl = 0 \<or> num_slotframes sl = 1" and nl: "unat (num_links sl) \<le> 4"
    and b: "buf + length (enc_links i) \<le> length mem" "int (length (enc_links i)) \<le> len"
  shows "frame80215e_create_ie_tsch_slotframe_and_link buf len (Some i) mem =
    Done (int (length (enc_links i)), put_at buf (enc_links i) mem)"
proof (cases "num_slotframes sl = 0")
  case True
  have "obind (mem_write (buf + 2) [0] mem) (create_mlme_short_ie_descriptor buf 0x1b 1)
      = mem_write buf (enc_links i) mem"
    unfolding create_mlme_short_ie_descriptor_def enc_links_def Let_def sl_def [symmetric]
    using assms(2-) True by (subst mem_write_before) (simp_all add: sl_def)
  moreover have "\<not> uint (num_links sl) > 4" using nl by (simp add: uint_nat del: of_nat_unat)
  ultimately show ?thesis
    using assms(2-) True
    by (simp add: frame80215e_create_ie_tsch_slotframe_and_link_def ie_written_def mem_write_put_at obind_assoc Let_def
        FRAME802154E_IE_MAX_LINKS_def flip: sl_def)
next
  case False
  then have one: "num_slotframes sl = 1" using ns by simp
  let ?n = "unat (num_links sl)" let ?ls = "concat (map link_bytes (take ?n (links sl)))"
  let ?hd = "[sfl_handle sl] @ write16 (slotframe_size sl) @ [num_links sl]"
  let ?desc = "create_mlme_short_ie_descriptor buf 0x1b (1 + (4 + 5 * uint (num_links sl)))"
  have desc: "?desc = mem_write buf (write16 (0x1b05 + 5 * ucast (num_links sl)))"
    using upto_4_cases [OF nl] by (intro ext) (auto simp: create_mlme_short_ie_descriptor_def)
  have el: "length (enc_links i) = 7 + 5 * ?n" using wf nl one by (simp add: sl_def)
  have links: "length (links sl) = 4" using wf by (simp add: ies_wf_def sl_def FRAME802154E_IE_MAX_LINKS_def)
  then have ll: "length ?ls = 5 * ?n" using nl by (simp add: length_concat_links)
  have wl: "write_links (buf + 7) ?n (links sl) m = mem_write (buf + 7) ?ls m" if "length m = length mem" for m
    using that b(1) el nl links by (intro write_links_eq) simp_all
  have "obind (mem_write (buf + 2) [1] mem) (\<lambda>m1. obind (obind (mem_write (buf + 3) ?hd m1)
      (write_links (buf + 7) ?n (links sl))) ?desc) = mem_write buf (enc_links i) mem" (is "?L = _")
  proof -
    have "?L = obind (obind (mem_write (buf + 2) [1] mem) (\<lambda>m1. obind (mem_write (buf + 3) ?hd m1) (mem_write (buf + 7) ?ls))) ?desc"
      using b(1) el wl by (simp add: mem_write_put_at obind_assoc put_at_def)
    also have "obind (mem_write (buf + 2) [1] mem) (\<lambda>m1. obind (mem_write (buf + 3) ?hd m1) (mem_write (buf + 7) ?ls))
        = obind (mem_write (buf + 2) ([1] @ ?hd) mem) (mem_write (buf + 7) ?ls)"
      using b(1) el ll by (subst mem_write_after [symmetric]) (simp_all add: obind_assoc)
    also have "\<dots> = mem_write (buf + 2) (([1] @ ?hd) @ ?ls) mem"
      using b(1) el ll by (intro mem_write_after) simp_all
    also have "obind \<dots> ?desc = mem_write buf (enc_links i) mem"
      unfolding desc using b(1) el ll one by (subst mem_write_before) (simp_all add: enc_links_def flip: sl_def)
    finally show ?thesis .
  qed
  moreover have "\<not> uint (num_links sl) > 4" "int (7 + 5 * ?n) = 2 + (1 + (4 + 5 * uint (num_links sl)))"
    using nl by (simp_all add: uint_nat del: of_nat_unat)
  ultimately show ?thesis
    using b el one
    by (simp add: frame80215e_create_ie_tsch_slotframe_and_link_def ie_written_def mem_write_put_at obind_assoc Let_def
        FRAME802154E_IE_MAX_LINKS_def flip: sl_def)
qed

lemma create_hopping:
  assumes wf: "ies_wf i" and id: "ie_channel_hopping_sequence_id i \<noteq> 0" and n: "unat (ie_hopping_sequence_len i) \<le> 4"
    and b: "buf + length (enc_hopping i) \<le> length mem" "int (length (enc_hopping i)) \<le> len"
  shows "frame80215e_create_ie_tsch_channel_hopping_sequence buf len (Some i) mem =
    Done (int (length (enc_hopping i)), put_at buf (enc_hopping i) mem)"
proof -
  let ?n = "unat (ie_hopping_sequence_len i)" let ?hs = "take ?n (ie_hopping_sequence_list i)"
  let ?hd = "[ie_channel_hopping_sequence_id i, 0] @ write16 0 @ write16 0 @ write16 0 @ write16 (ie_hopping_sequence_len i)"
  let ?desc = "create_mlme_long_ie_descriptor buf 0x9 (12 + int ?n)"
  have desc: "?desc = mem_write buf (write16 (0xc80c + ie_hopping_sequence_len i))"
    using upto_4_cases [OF n] by (intro ext) (auto simp: create_mlme_long_ie_descriptor_def)
  have el: "length (enc_hopping i) = 14 + ?n" using wf n by simp
  have hs: "length ?hs = ?n" "mem_read 0 ?n (ie_hopping_sequence_list i) = Done ?hs"
    using wf n by (simp_all add: ies_wf_def TSCH_HOPPING_SEQUENCE_MAX_LEN_def mem_read_def)
  have "obind (mem_write (buf + 2) ?hd mem) (\<lambda>m1. obind (mem_write (buf + 12) ?hs m1) (\<lambda>m2.
      obind (mem_write (buf + 12 + ?n) (write16 0) m2) ?desc))
      = obind (obind (obind (mem_write (buf + 2) ?hd mem) (mem_write (buf + 12) ?hs)) (mem_write (buf + 12 + ?n) (write16 0))) ?desc"
    by (simp add: obind_assoc)
  also have "obind (mem_write (buf + 2) ?hd mem) (mem_write (buf + 12) ?hs) = mem_write (buf + 2) (?hd @ ?hs) mem"
    using b(1) el hs(1) by (intro mem_write_after) simp_all
  also have "obind \<dots> (mem_write (buf + 12 + ?n) (write16 0)) = mem_write (buf + 2) ((?hd @ ?hs) @ write16 0) mem"
    using b(1) el hs(1) by (intro mem_write_after) simp_all
  also have "obind \<dots> ?desc = mem_write buf (enc_hopping i) mem"
    unfolding desc using b(1) el hs(1) by (subst mem_write_before) (simp_all add: enc_hopping_def)
  finally show ?thesis
    using b el id n hs(2)
    by (simp add: frame80215e_create_ie_tsch_channel_hopping_sequence_def ie_written_def mem_write_put_at obind_assoc Let_def
        TSCH_HOPPING_SEQUENCE_MAX_LEN_def)
qed

section \<open>Parsing one sub-element\<close>

lemma read16_at_write16: "has_at mem off (write16 v) \<Longrightarrow> read16_at off mem = Done v"
  by (simp add: read16_at_def mem_read_at [where k = 0])

lemma read_words_at:
  "has_at mem p (concat (map write16 ws)) \<Longrightarrow> read_words p (length ws) mem = Done ws"
proof (induction ws arbitrary: p)
  case (Cons w ws)
  then show ?case using read16_at_write16 [of mem p w] by (simp add: has_at_append)
qed simp

lemma read_links_at:
  "has_at mem p (concat (map link_bytes ls)) \<Longrightarrow> length ls \<le> length old \<Longrightarrow>
   read_links p (length ls) old mem = Done (ls @ drop (length ls) old)"
proof (induction ls arbitrary: p old)
  case (Cons l ls)
  then obtain o1 os where old: "old = o1 # os" by (cases old) auto
  have "mem_read p 5 mem = Done (link_bytes l)"
    using Cons.prems(1) mem_read_at [of mem p "link_bytes l" p 0 5] by (simp add: has_at_append)
  moreover have "read_links (p + 5) (length ls) os mem = Done (ls @ drop (length ls) os)"
    using Cons by (simp add: has_at_append old)
  moreover have "link_bytes l ! 0 = write16 (sl_timeslot l) ! 0" "link_bytes l ! 1 = write16 (sl_timeslot l) ! 1"
    "link_bytes l ! 2 = write16 (sl_channel_offset l) ! 0" "link_bytes l ! 3 = write16 (sl_channel_offset l) ! 1"
    "link_bytes l ! 4 = sl_link_options l"
    by (simp_all add: link_bytes_def nth_append)
  ultimately show ?case by (simp add: old)
qed simp

text \<open>The contract of the encoding \<open>bs\<close> of an MLME sub-element: one iteration of the parser consumes it and changes the stored
  elements by \<open>f\<close>.\<close>

definition sub_ie :: "u8 list \<Rightarrow> (ieee802154_ies \<Rightarrow> ieee802154_ies) \<Rightarrow> bool" where
  "sub_ie bs f \<longleftrightarrow> 2 \<le> length bs \<and> (\<forall>s mem. has_at mem (il_off s) bs \<longrightarrow> length bs \<le> unat (il_size s) \<longrightarrow>
     il_state s = PARSING_MLME_SUBIE \<longrightarrow> int (length bs) \<le> il_nested s \<longrightarrow> ies_wf (il_ies s) \<longrightarrow>
     ies_wf (f (il_ies s)) \<and>
     ie_iteration s mem = Done (Continue (s\<lparr>il_off := il_off s + length bs, il_size := il_size s - of_nat (length bs),
       il_nested := il_nested s - int (length bs),
       il_state := (if il_nested s = int (length bs) then PARSING_PAYLOAD_IE else PARSING_MLME_SUBIE),
       il_ies := f (il_ies s)\<rparr>)))"

lemma sub_ieI:
  fixes d :: u16
  defines "short \<equiv> d AND 0x8000 = 0"
  defines "len \<equiv> if short then d AND 0x00ff else d AND 0x7ff"
  defines "ident \<equiv> (if short then ucast (drop_bit 8 (d AND 0x7f00)) else ucast (drop_bit 11 (d AND 0x7800))) :: u8"
  assumes len: "unat len = length body"
    and parse: "\<And>off mem i. has_at mem off body \<Longrightarrow> ies_wf i \<Longrightarrow> ies_wf (f i) \<and>
      (if short then frame802154e_parse_mlme_short_ie off (length body) ident i mem
       else frame802154e_parse_mlme_long_ie off (length body) ident i mem) = Done (f i)"
  shows "sub_ie (write16 d @ body) f"
  unfolding sub_ie_def
proof (intro conjI allI impI)
  fix s :: ie_loop and mem
  assume h: "has_at mem (il_off s) (write16 d @ body)" and sz: "length (write16 d @ body) \<le> unat (il_size s)"
    and st: "il_state s = PARSING_MLME_SUBIE" and n: "int (length (write16 d @ body)) \<le> il_nested s" and wf: "ies_wf (il_ies s)"
  have at: "read16_at (il_off s) mem = Done d" "has_at mem (il_off s + 2) body"
    using h read16_at_write16 [of mem "il_off s" d] by (simp_all add: has_at_append)
  note p = parse [OF at(2) wf]
  show "ies_wf (f (il_ies s))" using p by simp
  have u: "uint len = int (length body)" unfolding uint_nat len ..
  have sz2: "\<not> il_size s < 2" "unat (il_size s - 2) = unat (il_size s) - 2"
    using sz by (simp_all add: word_less_nat_alt unat_sub word_le_nat_alt)
  have c: "ucast len = (of_nat (length body) :: u8)" unfolding len [symmetric] by simp
  have step: "ie_mlme_step d s1 mem =
      (if unat len > unat (il_size s1) then Failed
       else
         obind (if short then frame802154e_parse_mlme_short_ie (il_off s1) (unat len) ident (il_ies s1) mem
                else frame802154e_parse_mlme_long_ie (il_off s1) (unat len) ident (il_ies s1) mem) (\<lambda>ies.
           if il_nested s1 - (2 + uint len) < 0 then Failed
           else ie_advance len (s1\<lparr>il_ies := ies, il_nested := il_nested s1 - (2 + uint len),
                  il_state := (if il_nested s1 - (2 + uint len) = 0 then PARSING_PAYLOAD_IE else il_state s1)\<rparr>)))" for s1
    unfolding ie_mlme_step_def Let_def short_def len_def ident_def ..
  show "ie_iteration s mem = Done (Continue (s\<lparr>il_off := il_off s + length (write16 d @ body),
       il_size := il_size s - of_nat (length (write16 d @ body)),
       il_nested := il_nested s - int (length (write16 d @ body)),
       il_state := (if il_nested s = int (length (write16 d @ body)) then PARSING_PAYLOAD_IE else PARSING_MLME_SUBIE),
       il_ies := f (il_ies s)\<rparr>))"
    using at(1) st sz sz2 n p
    by (cases s; cases short) (auto simp: ie_iteration_def step ie_advance_def len u c)
qed simp

lemma sub_ie_shortI:
  assumes "d AND 0x8000 = 0" "unat (d AND 0x00ff) = length body" "ucast (drop_bit 8 (d AND 0x7f00)) = ident"
    and "\<And>off mem i. has_at mem off body \<Longrightarrow> ies_wf i \<Longrightarrow> ies_wf (f i) \<and>
      frame802154e_parse_mlme_short_ie off (length body) ident i mem = Done (f i)"
  shows "sub_ie (write16 d @ body) f"
  using assms by (intro sub_ieI) simp_all

lemma sub_ie_longI:
  assumes "d AND 0x8000 \<noteq> 0" "unat (d AND 0x7ff) = length body" "ucast (drop_bit 11 (d AND 0x7800)) = ident"
    and "\<And>off mem i. has_at mem off body \<Longrightarrow> ies_wf i \<Longrightarrow> ies_wf (f i) \<and>
      frame802154e_parse_mlme_long_ie off (length body) ident i mem = Done (f i)"
  shows "sub_ie (write16 d @ body) f"
  using assms by (intro sub_ieI) simp_all

lemma asn_bytes_read:
  "\<lparr>ls4b = ucast (asn_bytes a ! 0) OR push_bit 8 (ucast (asn_bytes a ! 1)) OR push_bit 16 (ucast (asn_bytes a ! 2))
      OR push_bit 24 (ucast (asn_bytes a ! 3)), ms1b = asn_bytes a ! 4\<rparr> = a"
proof -
  have "ucast (ucast (w :: u32) :: u8) OR push_bit 8 (ucast (ucast (drop_bit 8 w) :: u8)) OR
      push_bit 16 (ucast (ucast (drop_bit 16 w) :: u8)) OR push_bit 24 (ucast (ucast (drop_bit 24 w) :: u8)) = w" for w :: u32
  proof (rule bit_word_eqI)
    fix n assume "n < LENGTH(32)"
    then show "bit (ucast (ucast w :: u8) OR push_bit 8 (ucast (ucast (drop_bit 8 w) :: u8)) OR
      push_bit 16 (ucast (ucast (drop_bit 16 w) :: u8)) OR push_bit 24 (ucast (ucast (drop_bit 24 w) :: u8)) :: u32) n = bit w n"
      by (cases "n < 24"; cases "n < 16") (auto simp: bit_simps)
  qed
  then show ?thesis by (simp add: asn_bytes_def)
qed

lemma sub_ie_sync:
  "sub_ie (enc_sync i) (\<lambda>x. x\<lparr>ie_asn := ie_asn i, ie_join_priority := ie_join_priority i\<rparr>)"
  unfolding enc_sync_def
proof (rule sub_ie_shortI)
  fix off mem and x :: ieee802154_ies
  let ?b = "asn_bytes (ie_asn i) @ [ie_join_priority i]"
  assume h: "has_at mem off ?b" and wf: "ies_wf x"
  have "mem_read off 6 mem = Done ?b" using mem_read_at [OF h, of off 0 6] by simp
  then show "ies_wf (x\<lparr>ie_asn := ie_asn i, ie_join_priority := ie_join_priority i\<rparr>) \<and>
      frame802154e_parse_mlme_short_ie off (length ?b) 0x1a x mem
      = Done (x\<lparr>ie_asn := ie_asn i, ie_join_priority := ie_join_priority i\<rparr>)"
    using wf asn_bytes_read [of "ie_asn i"]
    by (simp add: frame802154e_parse_mlme_short_ie_def parse_synchronization_def nth_append ies_wf_def)
qed simp_all

lemma sub_ie_timeslot:
  assumes i: "ies_wf i"
  shows "sub_ie (enc_timeslot i) (\<lambda>x. x\<lparr>ie_tsch_timeslot_id := ie_tsch_timeslot_id i,
    ie_tsch_timeslot := (if ie_tsch_timeslot_id i = 0 then ie_tsch_timeslot x else ie_tsch_timeslot i)\<rparr>)"
proof (cases "ie_tsch_timeslot_id i = 0")
  case True
  show ?thesis
    unfolding enc_timeslot_def using True
    by (auto intro!: sub_ie_shortI [where ident = "0x1c"] simp: ies_wf_def frame802154e_parse_mlme_short_ie_def parse_timeslot_def
        mem_read_at [where k = 0])
next
  case False
  let ?w = "concat (map write16 (ie_tsch_timeslot i))"
  have l: "length ?w = 24" "length (ie_tsch_timeslot i) = tsch_ts_elements_count"
    using i by (simp_all add: ies_wf_def length_concat_const [where k = 2] tsch_ts_elements_count_def)
  have "sub_ie (write16 0x1c19 @ ([ie_tsch_timeslot_id i] @ ?w))
    (\<lambda>x. x\<lparr>ie_tsch_timeslot_id := ie_tsch_timeslot_id i, ie_tsch_timeslot := ie_tsch_timeslot i\<rparr>)"
  proof (rule sub_ie_shortI)
    fix off mem and x :: ieee802154_ies
    assume h: "has_at mem off ([ie_tsch_timeslot_id i] @ ?w)" and wf: "ies_wf x"
    have "mem_read off 1 mem = Done [ie_tsch_timeslot_id i]" using mem_read_at [OF h, of off 0 1] by simp
    moreover have "read_words (off + 1) tsch_ts_elements_count mem = Done (ie_tsch_timeslot i)"
      using h read_words_at [of mem "off + 1" "ie_tsch_timeslot i"] l(2) by (simp add: has_at_append del: append_Cons)
    ultimately show "ies_wf (x\<lparr>ie_tsch_timeslot_id := ie_tsch_timeslot_id i, ie_tsch_timeslot := ie_tsch_timeslot i\<rparr>) \<and>
      frame802154e_parse_mlme_short_ie off (length ([ie_tsch_timeslot_id i] @ ?w)) 0x1c x mem =
      Done (x\<lparr>ie_tsch_timeslot_id := ie_tsch_timeslot_id i, ie_tsch_timeslot := ie_tsch_timeslot i\<rparr>)"
      using wf l by (simp add: frame802154e_parse_mlme_short_ie_def parse_timeslot_def ies_wf_def)
  qed (simp_all add: l(1))
  then show ?thesis using False by (simp add: enc_timeslot_def)
qed

lemma sub_ie_links:
  fixes i defines "sl \<equiv> ie_tsch_slotframe_and_link i"
  assumes i: "ies_wf i" and one: "num_slotframes sl = 1" and nl: "unat (num_links sl) \<le> 4"
  shows "sub_ie (enc_links i) (\<lambda>x. x\<lparr>ie_tsch_slotframe_and_link := sl\<lparr>links := take (unat (num_links sl)) (links sl) @
    drop (unat (num_links sl)) (links (ie_tsch_slotframe_and_link x))\<rparr>\<rparr>)"
proof -
  let ?n = "unat (num_links sl)" let ?t = "take ?n (links sl)" let ?ls = "concat (map link_bytes ?t)"
  let ?hd = "[1, sfl_handle sl] @ write16 (slotframe_size sl) @ [num_links sl]"
  have "length (links sl) = 4" using i by (simp add: ies_wf_def sl_def FRAME802154E_IE_MAX_LINKS_def)
  then have lt: "length ?t = ?n" using nl by simp
  have ll: "length ?ls = 5 * ?n" by (simp only: length_concat_links lt)
  have "sub_ie (write16 (0x1b05 + 5 * ucast (num_links sl)) @ (?hd @ ?ls))
    (\<lambda>x. x\<lparr>ie_tsch_slotframe_and_link := sl\<lparr>links := ?t @ drop ?n (links (ie_tsch_slotframe_and_link x))\<rparr>\<rparr>)"
  proof (rule sub_ie_shortI)
    fix off mem and x :: ieee802154_ies
    assume h: "has_at mem off (?hd @ ?ls)" and wf: "ies_wf x"
    have old: "length (links (ie_tsch_slotframe_and_link x)) = 4"
      using wf by (simp add: ies_wf_def FRAME802154E_IE_MAX_LINKS_def)
    have r: "mem_read off 5 mem = Done ?hd" "mem_read off 1 mem = Done [1]" "mem_read (off + 4) 1 mem = Done [num_links sl]"
      using mem_read_at [OF h, of off 0 5] mem_read_at [OF h, of off 0 1] mem_read_at [OF h, of "off + 4" 4 1]
      by (simp_all add: write16_def)
    have "has_at mem (off + length ?hd) ?ls" using h unfolding has_at_append [of mem off ?hd ?ls] ..
    then have "has_at mem (off + 5) ?ls" by simp
    then have ls: "read_links (off + 5) ?n (links (ie_tsch_slotframe_and_link x)) mem = Done (?t @ drop ?n (links (ie_tsch_slotframe_and_link x)))"
      using read_links_at [of mem "off + 5" ?t] old nl lt by simp
    have hd: "?hd ! 0 = 1" "?hd ! 1 = sfl_handle sl" "read16 (?hd ! 2) (?hd ! 3) = slotframe_size sl" "?hd ! 4 = num_links sl"
      by (simp_all add: nth_append numeral_eq_Suc)
    show "ies_wf (x\<lparr>ie_tsch_slotframe_and_link := sl\<lparr>links := ?t @ drop ?n (links (ie_tsch_slotframe_and_link x))\<rparr>\<rparr>) \<and>
      frame802154e_parse_mlme_short_ie off (length (?hd @ ?ls)) 0x1b x mem =
      Done (x\<lparr>ie_tsch_slotframe_and_link := sl\<lparr>links := ?t @ drop ?n (links (ie_tsch_slotframe_and_link x))\<rparr>\<rparr>)"
      using wf r ls nl ll lt one old hd
      by (cases sl) (simp add: frame802154e_parse_mlme_short_ie_def parse_slotframe_and_link_def ies_wf_def FRAME802154E_IE_MAX_LINKS_def Let_def)
  qed (use upto_4_cases [OF nl] in \<open>auto simp: ll\<close>)
  then show ?thesis using one by (simp add: enc_links_def flip: sl_def)
qed

lemma sub_ie_hopping:
  assumes i: "ies_wf i" and n: "unat (ie_hopping_sequence_len i) \<le> 4"
  shows "sub_ie (enc_hopping i) (\<lambda>x. x\<lparr>ie_channel_hopping_sequence_id := ie_channel_hopping_sequence_id i,
    ie_hopping_sequence_len := ie_hopping_sequence_len i,
    ie_hopping_sequence_list := take (unat (ie_hopping_sequence_len i)) (ie_hopping_sequence_list i) @
      drop (unat (ie_hopping_sequence_len i)) (ie_hopping_sequence_list x)\<rparr>)" (is "sub_ie _ ?f")
proof -
  let ?n = "unat (ie_hopping_sequence_len i)" let ?hs = "take ?n (ie_hopping_sequence_list i)"
  let ?hd = "[ie_channel_hopping_sequence_id i, 0] @ write16 0 @ write16 0 @ write16 0"
  let ?b = "?hd @ write16 (ie_hopping_sequence_len i) @ ?hs @ write16 0"
  have "length (ie_hopping_sequence_list i) = 4" using i by (simp add: ies_wf_def TSCH_HOPPING_SEQUENCE_MAX_LEN_def)
  then have lt: "length ?hs = ?n" using n by simp
  have "sub_ie (write16 (0xc80c + ie_hopping_sequence_len i) @ ?b) ?f"
  proof (rule sub_ie_longI)
    fix off mem and x :: ieee802154_ies
    assume h: "has_at mem off ?b" and wf: "ies_wf x"
    have old: "length (ie_hopping_sequence_list x) = 4" using wf by (simp add: ies_wf_def TSCH_HOPPING_SEQUENCE_MAX_LEN_def)
    have r: "mem_read off 1 mem = Done [ie_channel_hopping_sequence_id i]" using mem_read_at [OF h, of off 0 1] by simp
    have h2: "has_at mem (off + 8) (write16 (ie_hopping_sequence_len i))" "has_at mem (off + 10) ?hs"
      using h unfolding has_at_append by (simp_all add: ac_simps)
    have r2: "read16_at (off + 8) mem = Done (ie_hopping_sequence_len i)" using h2(1) by (rule read16_at_write16)
    have r3: "mem_read (off + 10) ?n mem = Done ?hs" using mem_read_at [OF h2(2), of "off + 10" 0 ?n] lt by simp
    have w: "mem_write 0 ?hs (ie_hopping_sequence_list x) = Done (?hs @ drop ?n (ie_hopping_sequence_list x))"
      using old n lt by (simp add: mem_write_def del: length_take)
    have len: "length ?b = 12 + ?n" using lt by (simp del: length_take)
    show "ies_wf (?f x) \<and> frame802154e_parse_mlme_long_ie off (length ?b) 0x9 x mem = Done (?f x)"
      unfolding frame802154e_parse_mlme_long_ie_def len using wf r r2 r3 w n old lt
      by (simp add: ies_wf_def TSCH_HOPPING_SEQUENCE_MAX_LEN_def Let_def)
  qed (use upto_4_cases [OF n] lt in auto)
  then show ?thesis by (simp add: enc_hopping_def)
qed

section \<open>Lists of sub-elements\<close>

text \<open>The elements of an enhanced beacon, the writer called for each, its effect on the parsed structure, and the calls in a row, each writing behind
  the previous one.\<close>

datatype mlme_elem = Sync ieee802154_ies | Timeslot ieee802154_ies | Links ieee802154_ies | Hopping ieee802154_ies

fun elem_ok :: "mlme_elem \<Rightarrow> bool" where
  "elem_ok (Sync i) = True"
| "elem_ok (Timeslot i) = ies_wf i"
| "elem_ok (Links i) = (ies_wf i \<and> num_slotframes (ie_tsch_slotframe_and_link i) = 1 \<and>
     unat (num_links (ie_tsch_slotframe_and_link i)) \<le> 4)"
| "elem_ok (Hopping i) = (ies_wf i \<and> ie_channel_hopping_sequence_id i \<noteq> 0 \<and> unat (ie_hopping_sequence_len i) \<le> 4)"

fun write_elem :: "mlme_elem \<Rightarrow> nat \<Rightarrow> int \<Rightarrow> u8 list \<Rightarrow> (int \<times> u8 list) outcome" where
  "write_elem (Sync i) buf len mem = frame80215e_create_ie_tsch_synchronization buf len (Some i) mem"
| "write_elem (Timeslot i) buf len mem = frame80215e_create_ie_tsch_timeslot buf len (Some i) mem"
| "write_elem (Links i) buf len mem = frame80215e_create_ie_tsch_slotframe_and_link buf len (Some i) mem"
| "write_elem (Hopping i) buf len mem = frame80215e_create_ie_tsch_channel_hopping_sequence buf len (Some i) mem"

fun elem_effect :: "mlme_elem \<Rightarrow> ieee802154_ies \<Rightarrow> ieee802154_ies" where
  "elem_effect (Sync i) = (\<lambda>x. x\<lparr>ie_asn := ie_asn i, ie_join_priority := ie_join_priority i\<rparr>)"
| "elem_effect (Timeslot i) = (\<lambda>x. x\<lparr>ie_tsch_timeslot_id := ie_tsch_timeslot_id i,
     ie_tsch_timeslot := (if ie_tsch_timeslot_id i = 0 then ie_tsch_timeslot x else ie_tsch_timeslot i)\<rparr>)"
| "elem_effect (Links i) = (\<lambda>x. x\<lparr>ie_tsch_slotframe_and_link := (ie_tsch_slotframe_and_link i)\<lparr>links :=
     take (unat (num_links (ie_tsch_slotframe_and_link i))) (links (ie_tsch_slotframe_and_link i)) @
     drop (unat (num_links (ie_tsch_slotframe_and_link i))) (links (ie_tsch_slotframe_and_link x))\<rparr>\<rparr>)"
| "elem_effect (Hopping i) = (\<lambda>x. x\<lparr>ie_channel_hopping_sequence_id := ie_channel_hopping_sequence_id i,
     ie_hopping_sequence_len := ie_hopping_sequence_len i,
     ie_hopping_sequence_list := take (unat (ie_hopping_sequence_len i)) (ie_hopping_sequence_list i) @
       drop (unat (ie_hopping_sequence_len i)) (ie_hopping_sequence_list x)\<rparr>)"

fun elem_bytes :: "mlme_elem \<Rightarrow> u8 list" where
  "elem_bytes (Sync i) = enc_sync i"
| "elem_bytes (Timeslot i) = enc_timeslot i"
| "elem_bytes (Links i) = enc_links i"
| "elem_bytes (Hopping i) = enc_hopping i"

fun write_elems :: "mlme_elem list \<Rightarrow> nat \<Rightarrow> int \<Rightarrow> u8 list \<Rightarrow> (nat \<times> u8 list) outcome" where
  "write_elems [] buf len mem = Done (buf, mem)"
| "write_elems (e # es) buf len mem =
     obind (write_elem e buf len mem) (\<lambda>(n, mem'). write_elems es (buf + nat n) (len - n) mem')"

lemma elem_sub_ie: "elem_ok e \<Longrightarrow> sub_ie (elem_bytes e) (elem_effect e)"
  by (cases e) (simp_all add: sub_ie_sync sub_ie_timeslot sub_ie_links sub_ie_hopping)

lemma write_elem_eq:
  "elem_ok e \<Longrightarrow> buf + length (elem_bytes e) \<le> length mem \<Longrightarrow> int (length (elem_bytes e)) \<le> len \<Longrightarrow>
   write_elem e buf len mem = Done (int (length (elem_bytes e)), put_at buf (elem_bytes e) mem)"
  by (cases e) (simp_all add: create_sync create_timeslot create_links create_hopping)

lemma write_elems_eq:
  "list_all elem_ok es \<Longrightarrow> bs = concat (map elem_bytes es) \<Longrightarrow> buf + length bs \<le> length mem \<Longrightarrow> int (length bs) \<le> len \<Longrightarrow>
   write_elems es buf len mem = Done (buf + length bs, put_at buf bs mem)"
proof (induction es arbitrary: buf len mem bs)
  case Nil
  then show ?case by (simp add: put_at_def)
next
  case (Cons e es)
  let ?b = "concat (map elem_bytes es)"
  have "write_elems es (buf + length (elem_bytes e)) (len - int (length (elem_bytes e))) (put_at buf (elem_bytes e) mem)
      = Done (buf + length (elem_bytes e) + length ?b, put_at (buf + length (elem_bytes e)) ?b (put_at buf (elem_bytes e) mem))"
    using Cons.prems by (intro Cons.IH) (simp_all del: length_concat)
  then show ?case
    using Cons.prems by (simp add: write_elem_eq put_at_put_at add.assoc del: length_concat)
qed

section \<open>Parsing whole lists\<close>

lemma ie_loop_run_end:
  "il_size s = 0 \<Longrightarrow> il_state s \<noteq> PARSING_HEADER_IE \<Longrightarrow> ie_loop_run s mem = Done (int (il_off s), il_ies s)"
  by (subst ie_loop_run.simps) simp

lemma ie_loop_run_step:
  "il_size s > 0 \<Longrightarrow> ie_iteration s mem = Done (Continue s') \<Longrightarrow> ie_loop_run s mem = ie_loop_run s' mem"
  by (subst ie_loop_run.simps) simp

text \<open>An element whose parser looks at \<open>k\<close> bytes behind it as well.\<close>

definition sub_ie_slack :: "nat \<Rightarrow> u8 list \<Rightarrow> (ieee802154_ies \<Rightarrow> ieee802154_ies) \<Rightarrow> bool" where
  "sub_ie_slack k bs f \<longleftrightarrow> 2 \<le> length bs \<and> (\<forall>s mem. has_at mem (il_off s) bs \<longrightarrow> il_off s + length bs + k \<le> length mem \<longrightarrow>
     length bs \<le> unat (il_size s) \<longrightarrow> il_state s = PARSING_MLME_SUBIE \<longrightarrow> int (length bs) \<le> il_nested s \<longrightarrow> ies_wf (il_ies s) \<longrightarrow>
     ies_wf (f (il_ies s)) \<and>
     ie_iteration s mem = Done (Continue (s\<lparr>il_off := il_off s + length bs, il_size := il_size s - of_nat (length bs),
       il_nested := il_nested s - int (length bs),
       il_state := (if il_nested s = int (length bs) then PARSING_PAYLOAD_IE else PARSING_MLME_SUBIE),
       il_ies := f (il_ies s)\<rparr>)))"

lemma sub_ie_slack_mono: "sub_ie bs f \<Longrightarrow> sub_ie_slack k bs f"
  by (simp add: sub_ie_def sub_ie_slack_def)

lemma sub_ies_run:
  assumes "list_all (\<lambda>(b, f). sub_ie_slack k b f) es" "has_at mem (il_off s) (concat (map fst es))"
    "il_off s + length (concat (map fst es)) + k \<le> length mem"
    "unat (il_size s) = length (concat (map fst es))" "il_nested s = int (length (concat (map fst es)))"
    "il_state s = (if es = [] then PARSING_PAYLOAD_IE else PARSING_MLME_SUBIE) \<or> es = [] \<and> il_state s = PARSING_MLME_SUBIE"
    "ies_wf (il_ies s)"
  shows "ie_loop_run s mem = Done (int (il_off s + length (concat (map fst es))), fold snd es (il_ies s))"
  using assms
proof (induction es arbitrary: s)
  case Nil
  then have "il_size s = 0" by (simp add: unat_eq_zero)
  then show ?case using Nil by (subst ie_loop_run_end) auto
next
  case (Cons e es)
  let ?b = "fst e" let ?r = "concat (map fst es)"
  have sub: "sub_ie_slack k ?b (snd e)" using Cons.prems(1) by (simp add: split_def)
  then have l2: "2 \<le> length ?b" by (simp add: sub_ie_slack_def)
  let ?s' = "s\<lparr>il_off := il_off s + length ?b, il_size := il_size s - of_nat (length ?b),
       il_nested := il_nested s - int (length ?b),
       il_state := (if il_nested s = int (length ?b) then PARSING_PAYLOAD_IE else PARSING_MLME_SUBIE),
       il_ies := snd e (il_ies s)\<rparr>"
  have at: "has_at mem (il_off s) ?b" "has_at mem (il_off s + length ?b) ?r"
    using Cons.prems(2) by (simp_all add: has_at_append del: length_concat)
  have k: "il_off s + length ?b + k \<le> length mem" "il_off s + length ?b + length ?r + k \<le> length mem"
    using Cons.prems(3) by (simp_all del: length_concat)
  have sz: "length ?b \<le> unat (il_size s)" using Cons.prems(4) by simp
  have n: "int (length ?b) \<le> il_nested s" using Cons.prems(5) by simp
  have st: "il_state s = PARSING_MLME_SUBIE" using Cons.prems(6) by simp
  have it: "ie_iteration s mem = Done (Continue ?s')" and wf: "ies_wf (snd e (il_ies s))"
    using sub at(1) k(1) sz n st Cons.prems(7) unfolding sub_ie_slack_def by blast+
  have pos: "il_size s > 0" using sz l2 by (simp add: word_gt_0 unat_gt_0 [symmetric])
  have small: "length ?b < 256" using sz u8_bound [of "il_size s"] by simp
  have us: "unat (il_size s - of_nat (length ?b)) = length ?r"
    using sz small Cons.prems(4) by (simp add: unat_sub word_le_nat_alt unat_word_of_nat_small)
  have "ie_loop_run ?s' mem = Done (int (il_off ?s' + length ?r), fold snd es (il_ies ?s'))"
  proof (rule Cons.IH)
    have "length ?r = 0 \<longleftrightarrow> es = []"
    proof (cases es)
      case (Cons e' es')
      then have "2 \<le> length (fst e')" using Cons.prems(1) by (simp add: sub_ie_slack_def split_def)
      then show ?thesis using Cons by auto
    qed simp
    then show "il_state ?s' = (if es = [] then PARSING_PAYLOAD_IE else PARSING_MLME_SUBIE) \<or>
        es = [] \<and> il_state ?s' = PARSING_MLME_SUBIE"
      using Cons.prems(5) by (auto simp del: length_concat)
  qed (use Cons.prems at us wf k in \<open>simp_all del: length_concat\<close>)
  then show ?case
    using ie_loop_run_step [OF pos it] by (simp add: add.assoc del: length_concat)
qed

lemma create_term_1:
  "buf + 2 \<le> length mem \<Longrightarrow> 2 \<le> len \<Longrightarrow>
   frame80215e_create_ie_header_list_termination_1 buf len (Some i) mem = Done (2, put_at buf (write16 0x3f00) mem)"
  by (simp add: frame80215e_create_ie_header_list_termination_1_def create_header_ie_descriptor_def ie_written_def mem_write_put_at)

lemma payload_descriptor:
  assumes "n < 2048" "unat g < 16"
  obtains d where "create_payload_ie_descriptor buf g (int n) mem = mem_write buf (write16 d) mem"
    "unat d = 32768 + 2048 * unat g + n"
proof -
  let ?a = "(word_of_int (int n) :: u16) AND 0x07ff" let ?b = "push_bit 11 (ucast g AND 0x0f) :: u16"
  have "unat ?a = take_bit 11 (unat (word_of_int (int n) :: u16))"
    by (simp only: and_2047 unsigned_take_bit_eq)
  also have "unat (word_of_int (int n) :: u16) = n"
    using assms(1) by (simp add: unat_word_of_nat_small)
  finally have a: "unat ?a = n" using assms(1) by (simp add: take_bit_nat_eq_self)
  have "unat ((ucast g :: u16) AND 0x0f) = take_bit 4 (unat (ucast g :: u16))"
    by (simp only: and_15 unsigned_take_bit_eq)
  then have g: "unat ((ucast g :: u16) AND 0x0f) = unat g"
    using assms(2) by (simp add: unat_ucast_u16_u8 take_bit_nat_eq_self)
  have b: "unat ?b = 2048 * unat g"
    using assms(2) by (simp add: push_bit_eq_mult unat_word_ariths g del: push_bit_numeral)
  have "unat (?a + ?b + push_bit 15 1) = 32768 + 2048 * unat g + n"
    using a b assms by (simp add: unat_word_ariths)
  then show ?thesis
    by (intro that [of "?a + ?b + push_bit 15 1"]) (simp_all only: create_payload_ie_descriptor_def Let_def)
qed

lemma header_term_1_iteration:
  assumes "has_at mem (il_off s) (write16 0x3f00)" "2 \<le> unat (il_size s)" "il_state s = PARSING_HEADER_IE"
  shows "ie_iteration s mem = Done (Continue (s\<lparr>il_off := il_off s + 2, il_size := il_size s - 2,
    il_state := PARSING_PAYLOAD_IE, il_ies := (il_ies s)\<lparr>ie_payload_ie_offset := of_nat (il_off s + 2)\<rparr>\<rparr>))"
proof -
  have "\<not> il_size s < 2" using assms(2) by (simp add: word_less_nat_alt)
  then show ?thesis
    using read16_at_write16 [OF assms(1)] assms(3)
    by (cases s) (simp add: ie_iteration_def ie_header_step_def ie_advance_def)
qed

lemma payload_iteration:
  assumes "has_at mem (il_off s) (write16 d)" "2 \<le> unat (il_size s)" "il_state s = PARSING_PAYLOAD_IE"
  shows "ie_iteration s mem = ie_payload_step d (s\<lparr>il_size := il_size s - 2, il_off := il_off s + 2\<rparr>) mem"
proof -
  have "\<not> il_size s < 2" using assms(2) by (simp add: word_less_nat_alt)
  then show ?thesis
    using read16_at_write16 [OF assms(1)] assms(3) by (simp add: ie_iteration_def)
qed

lemma payload_ids:
  fixes d :: u16
  assumes "unat d = 32768 + 2048 * unat g + n" "n < 2048" "unat (g :: u8) < 16"
  shows "d AND 0x8000 \<noteq> 0" "ucast (drop_bit 11 (d AND 0x7800)) = g" "unat (d AND 0x7ff) = n" "uint (d AND 0x7ff) = int n"
  using payload_desc_fields [OF assms] by (simp_all add: word_unat_eq_iff uint_nat del: of_nat_unat)

lemma mlme_iteration:
  assumes "has_at mem (il_off s) (write16 d)" "2 \<le> unat (il_size s)" "il_state s = PARSING_PAYLOAD_IE"
    and "unat d = 32768 + 2048 * 1 + n" "n < 2048"
  shows "ie_iteration s mem = Done (Continue (s\<lparr>il_off := il_off s + 2, il_size := il_size s - 2,
    il_state := PARSING_MLME_SUBIE, il_nested := int n\<rparr>))"
  using payload_iteration [OF assms(1-3)] payload_ids [of d 1 n] assms(4,5)
  by (cases s) (simp add: ie_payload_step_def ie_advance_def Let_def)

lemma parse_sub_ies:
  assumes ok: "list_all (\<lambda>(b, f). sub_ie_slack k b f) es" "ies_wf i0" and bs: "bs = concat (map fst es)" "length bs \<le> 251"
    and d: "unat d = 32768 + 2048 * 1 + length bs" and at: "has_at mem 0 (write16 0x3f00 @ write16 d @ bs)"
    and slack: "4 + length bs + k \<le> length mem"
  shows "frame802154e_parse_information_elements mem (of_nat (4 + length bs)) (Some i0) =
    Done (int (4 + length bs), fold snd es (i0\<lparr>ie_payload_ie_offset := 2\<rparr>))"
proof -
  let ?s0 = "\<lparr>il_off = 0, il_size = of_nat (4 + length bs), il_state = PARSING_HEADER_IE, il_nested = 0,
    il_ies = i0\<lparr>ie_payload_ie_offset := 0\<rparr>\<rparr> :: ie_loop"
  let ?s1 = "\<lparr>il_off = 2, il_size = of_nat (2 + length bs), il_state = PARSING_PAYLOAD_IE, il_nested = 0,
    il_ies = i0\<lparr>ie_payload_ie_offset := 2\<rparr>\<rparr> :: ie_loop"
  let ?s2 = "\<lparr>il_off = 4, il_size = of_nat (length bs), il_state = PARSING_MLME_SUBIE, il_nested = int (length bs),
    il_ies = i0\<lparr>ie_payload_ie_offset := 2\<rparr>\<rparr> :: ie_loop"
  have u: "unat (of_nat k :: u8) = k" if "k \<le> 255" for k using that by (simp add: unat_word_of_nat_small)
  have h: "has_at mem 0 (write16 0x3f00)" "has_at mem 2 (write16 d)" "has_at mem 4 bs"
    using at by (simp_all add: has_at_append numeral_eq_Suc)
  have i1: "ie_iteration ?s0 mem = Done (Continue ?s1)"
    using h(1) u [of "4 + length bs"] bs(2) by (subst header_term_1_iteration) simp_all
  have i2: "ie_iteration ?s1 mem = Done (Continue ?s2)"
    using h(2) u [of "2 + length bs"] bs(2) d by (subst mlme_iteration [where n = "length bs"]) simp_all
  have "ie_loop_run ?s0 mem = ie_loop_run ?s1 mem"
    using u [of "4 + length bs"] bs(2) by (intro ie_loop_run_step [OF _ i1]) (simp add: word_less_nat_alt)
  also have "\<dots> = ie_loop_run ?s2 mem"
    using u [of "2 + length bs"] bs(2) by (intro ie_loop_run_step [OF _ i2]) (simp add: word_less_nat_alt)
  also have "\<dots> = Done (int (il_off ?s2 + length bs), fold snd es (il_ies ?s2))"
    unfolding bs(1) using ok h(3) u [of "length bs"] bs slack
    by (intro sub_ies_run) (simp_all add: ies_wf_def del: length_concat)
  finally show ?thesis by (simp add: frame802154e_parse_information_elements_def)
qed

lemma parse_mlme_list:
  assumes ok: "list_all elem_ok es" "ies_wf i0" and bs: "bs = concat (map elem_bytes es)" "length bs \<le> 251"
    and d: "unat d = 32768 + 2048 * 1 + length bs" and at: "has_at mem 0 (write16 0x3f00 @ write16 d @ bs)"
  shows "frame802154e_parse_information_elements mem (of_nat (4 + length bs)) (Some i0) =
    Done (int (4 + length bs), fold elem_effect es (i0\<lparr>ie_payload_ie_offset := 2\<rparr>))"
proof -
  let ?es = "map (\<lambda>e. (elem_bytes e, elem_effect e)) es"
  have "list_all (\<lambda>(b, f). sub_ie_slack 0 b f) ?es" using ok(1) by (auto simp: list_all_iff intro!: sub_ie_slack_mono elem_sub_ie)
  moreover have "bs = concat (map fst ?es)" by (simp add: bs(1) comp_def)
  ultimately show ?thesis
    using parse_sub_ies [OF _ ok(2) _ bs(2) d at, of 0 ?es] has_at_length [OF at] by (simp add: fold_map comp_def)
qed

section \<open>Acknowledgement and 6top elements\<close>

lemma sint_12_bits:
  assumes "- 2048 \<le> sint (w :: u16)" "sint w < 2048" "11 \<le> n" "n < 16"
  shows "bit w n \<longleftrightarrow> bit w 11"
proof -
  have s: "signed_take_bit 11 (sint w) = sint w"
    using assms(1,2) by (simp add: signed_take_bit_int_eq_self_iff)
  have b: "bit (sint w) k \<longleftrightarrow> bit w k" if "k < 16" for k
    using that by (auto simp: bit_sint_iff)
  have "bit (sint w) n \<longleftrightarrow> bit (signed_take_bit 11 (sint w)) n" unfolding s ..
  also have "\<dots> \<longleftrightarrow> bit (sint w) 11" using assms(3) by (simp add: bit_signed_take_bit_iff min_def)
  finally show ?thesis using b [of n] b [of 11] assms(4) by simp
qed

lemma ack_field:
  fixes tc :: u16 and nack :: bool
  defines "f \<equiv> (if nack then (tc AND 0x0fff) OR 0x8000 else tc AND 0x0fff)"
  assumes "- 2048 \<le> sint tc" "sint tc < 2048"
  shows "f AND 0x8000 \<noteq> 0 \<longleftrightarrow> nack" "(if f AND 0x0800 \<noteq> 0 then f OR 0xf000 else f AND 0x0fff) = tc"
proof -
  have m: "(0x0fff :: u16) = mask 12" "(0xf000 :: u16) = push_bit 12 (mask 4)" "(0x8000 :: u16) = push_bit 15 1"
    "(0x0800 :: u16) = push_bit 11 1" by (simp_all add: mask_eq_exp_minus_1)
  have b15: "bit (0x8000 :: int) n \<longleftrightarrow> n = 15" for n
  proof -
    have "(0x8000 :: int) = 2 ^ 15" by simp
    then show ?thesis by (simp only: bit_exp_iff) auto
  qed
  have bf: "bit f n \<longleftrightarrow> n < 12 \<and> bit tc n \<or> nack \<and> n = 15" if "n < 16" for n
    using that unfolding f_def m(1) by (auto simp: bit_or_iff bit_and_iff bit_mask_iff b15)
  have single: "w AND push_bit k 1 = 0 \<longleftrightarrow> \<not> bit w k" if "k < 16" for w :: u16 and k
    using that by (simp add: push_bit_of_1 and_exp_eq_0_iff_not_bit)
  show "f AND 0x8000 \<noteq> 0 \<longleftrightarrow> nack" unfolding m(3) by (subst single) (simp_all add: bf)
  have sgn: "f AND 0x0800 \<noteq> 0 \<longleftrightarrow> bit tc 11" unfolding m(4) by (subst single) (simp_all add: bf)
  show "(if f AND 0x0800 \<noteq> 0 then f OR 0xf000 else f AND 0x0fff) = tc"
  proof (rule bit_word_eqI)
    fix n assume "n < LENGTH(16)"
    then have n: "n < 16" by simp
    show "bit (if f AND 0x0800 \<noteq> 0 then f OR 0xf000 else f AND 0x0fff) n = bit tc n"
      using n bf [OF n] sint_12_bits [OF assms(2,3), of n] unfolding sgn m(1,2) by (cases "bit tc 11") (auto simp: bit_simps)
  qed
qed

lemma create_ack:
  assumes "4 \<le> len" "buf + 4 \<le> length mem"
    and "f = (if ie_is_nack i \<noteq> 0 then (ie_time_correction i AND 0x0fff) OR 0x8000 else ie_time_correction i AND 0x0fff)"
  shows "frame80215e_create_ie_header_ack_nack_time_correction buf len (Some i) mem =
    Done (4, put_at buf (write16 0x0f02 @ write16 f) mem)"
proof -
  have "obind (mem_write (buf + 2) (write16 f) mem) (create_header_ie_descriptor buf 0x1e 2) =
      mem_write buf (write16 0x0f02 @ write16 f) mem"
    unfolding create_header_ie_descriptor_def Let_def using assms(2) by (subst mem_write_before) simp_all
  then show ?thesis
    using assms by (simp add: frame80215e_create_ie_header_ack_nack_time_correction_def ie_written_def mem_write_put_at Let_def)
qed

lemma ack_iteration:
  assumes "has_at mem (il_off s) (write16 0x0f02 @ write16 f)" "4 \<le> unat (il_size s)" "il_state s = PARSING_HEADER_IE"
  shows "ie_iteration s mem = Done (Continue (s\<lparr>il_off := il_off s + 4, il_size := il_size s - 4,
    il_ies := (il_ies s)\<lparr>ie_is_nack := (if f AND 0x8000 \<noteq> 0 then 1 else 0),
      ie_time_correction := (if f AND 0x0800 \<noteq> 0 then f OR 0xf000 else f AND 0x0fff)\<rparr>\<rparr>))"
proof -
  have h: "has_at mem (il_off s) (write16 0x0f02)" "has_at mem (il_off s + 2) (write16 f)"
    using assms(1) unfolding has_at_append by simp_all
  have "\<not> il_size s < 2" "\<not> unat (il_size s - 2) < 2"
    using assms(2) by (simp_all add: word_less_nat_alt unat_sub word_le_nat_alt)
  then show ?thesis
    using read16_at_write16 [OF h(1)] read16_at_write16 [OF h(2)] assms(3)
    by (cases s) (simp add: ie_iteration_def ie_header_step_def ie_advance_def frame802154e_parse_header_ie_def Let_def)
qed

lemma ietf_iteration:
  assumes "has_at mem (il_off s) (write16 d @ SIXTOP_SUBIE_ID # content)" "3 \<le> unat (il_size s)"
    "il_state s = PARSING_PAYLOAD_IE" "unat d = 32768 + 2048 * 5 + Suc (length content)" "length content < 255"
  shows "ie_iteration s mem = Done (Continue (s\<lparr>il_off := il_off s + 3 + length content,
    il_size := il_size s - of_nat (3 + length content),
    il_ies := (il_ies s)\<lparr>sixtop_ie_content_ptr := Some (il_off s + 3), sixtop_ie_content_len := of_nat (length content)\<rparr>\<rparr>))"
proof -
  let ?len = "d AND 0x7ff"
  have h: "has_at mem (il_off s) (write16 d)" "has_at mem (il_off s + 2) (SIXTOP_SUBIE_ID # content)"
    using assms(1) unfolding has_at_append by simp_all
  have r: "mem_read (il_off s + 2) 1 mem = Done [SIXTOP_SUBIE_ID]" using mem_read_at [OF h(2), of _ 0 1] by simp
  have ids: "d AND 0x8000 \<noteq> 0" "ucast (drop_bit 11 (d AND 0x7800)) = (5 :: u8)" "unat ?len = Suc (length content)"
    using payload_ids [of d 5 "Suc (length content)"] assms(4,5) by simp_all
  have len: "?len = of_nat (Suc (length content))" by (simp add: ids(3) [symmetric] del: of_nat_Suc)
  have "?len - 1 = of_nat (length content)" unfolding len by simp
  moreover have "(ucast ?len :: u8) = of_nat (Suc (length content))" unfolding ids(3) [symmetric] by simp
  ultimately show ?thesis
    using payload_iteration [OF h(1) _ assms(3)] r ids assms(2)
    by (cases s) (simp add: ie_payload_step_def ie_advance_def Let_def)
qed

section \<open>Staying inside the space given\<close>

text \<open>Memory that differs at most in the \<open>k\<close> bytes from \<open>buf\<close> on; writes that stay there.\<close>

definition within :: "nat \<Rightarrow> nat \<Rightarrow> u8 list \<Rightarrow> u8 list \<Rightarrow> bool" where
  "within buf k mem mem' \<longleftrightarrow> length mem' = length mem \<and> take buf mem' = take buf mem \<and> drop (buf + k) mem' = drop (buf + k) mem"

definition safe_write :: "nat \<Rightarrow> nat \<Rightarrow> (u8 list \<Rightarrow> u8 list outcome) \<Rightarrow> bool" where
  "safe_write buf k f \<longleftrightarrow> (\<forall>mem. buf + k \<le> length mem \<longrightarrow> (\<exists>mem'. f mem = Done mem' \<and> within buf k mem mem'))"

lemma safe_write_mem_write:
  assumes "buf \<le> q" "q + length bs \<le> buf + k"
  shows "safe_write buf k (mem_write q bs)"
  unfolding safe_write_def
proof (intro allI impI)
  fix mem :: "u8 list" assume m: "buf + k \<le> length mem"
  have "drop (buf + k) (take q mem @ bs @ drop (q + length bs) mem) = drop (buf + k) mem"
    using assms m by simp
  moreover have "take buf (take q mem @ bs @ drop (q + length bs) mem) = take buf mem"
    using assms m by (simp add: min_absorb1)
  ultimately show "\<exists>mem'. mem_write q bs mem = Done mem' \<and> within buf k mem mem'"
    using assms m by (intro exI [of _ "take q mem @ bs @ drop (q + length bs) mem"]) (simp add: mem_write_def within_def)
qed

lemma safe_write_bind [intro]:
  "safe_write buf k f \<Longrightarrow> safe_write buf k g \<Longrightarrow> safe_write buf k (\<lambda>mem. obind (f mem) g)"
proof -
  assume f: "safe_write buf k f" and g: "safe_write buf k g"
  show ?thesis
    unfolding safe_write_def
  proof (intro allI impI)
    fix mem :: "u8 list" assume "buf + k \<le> length mem"
    then obtain m1 where m1: "f mem = Done m1" "within buf k mem m1" using f by (auto simp: safe_write_def)
    with \<open>buf + k \<le> length mem\<close> have "buf + k \<le> length m1" by (simp add: within_def)
    then obtain m2 where "g m1 = Done m2" "within buf k m1 m2" using g by (auto simp: safe_write_def)
    with m1 show "\<exists>mem'. obind (f mem) g = Done mem' \<and> within buf k mem mem'" by (simp add: within_def)
  qed
qed

lemma safe_write_Done [intro]: "safe_write buf k Done"
  by (simp add: safe_write_def within_def)

lemma safe_write_descriptors:
  assumes "2 \<le> k"
  shows "safe_write buf k (create_header_ie_descriptor buf e n)" "safe_write buf k (create_payload_ie_descriptor buf e n)"
    "safe_write buf k (create_mlme_short_ie_descriptor buf e n)" "safe_write buf k (create_mlme_long_ie_descriptor buf e n)"
  using assms
  unfolding create_header_ie_descriptor_def create_payload_ie_descriptor_def create_mlme_short_ie_descriptor_def
    create_mlme_long_ie_descriptor_def Let_def
  by (auto intro!: safe_write_mem_write)

lemma safe_write_links:
  "buf \<le> p \<Longrightarrow> p + 5 * n \<le> buf + k \<Longrightarrow> n \<le> length ls \<Longrightarrow> safe_write buf k (write_links p n ls)"
proof (induction n arbitrary: p ls)
  case 0
  have "write_links p 0 ls = Done" by (rule ext) simp
  then show ?case by (simp add: safe_write_Done)
next
  case (Suc n)
  then obtain l r where ls: "ls = l # r" by (cases ls) auto
  have "write_links p (Suc n) ls = (\<lambda>mem. obind (mem_write p (link_bytes l) mem) (write_links (p + 5) n r))"
    by (rule ext) (simp add: ls)
  moreover have "safe_write buf k (mem_write p (link_bytes l))" using Suc.prems by (intro safe_write_mem_write) simp_all
  moreover have "safe_write buf k (write_links (p + 5) n r)" using Suc.prems by (intro Suc.IH) (simp_all add: ls)
  ultimately show ?case by auto
qed

text \<open>A writer given \<open>len\<close> bytes at \<open>buf\<close> either refuses or writes only there.\<close>

definition writer_safe :: "(nat \<Rightarrow> int \<Rightarrow> ieee802154_ies option \<Rightarrow> u8 list \<Rightarrow> (int \<times> u8 list) outcome) \<Rightarrow> ieee802154_ies \<Rightarrow> bool" where
  "writer_safe w i \<longleftrightarrow> (\<forall>buf len mem. buf + nat len \<le> length mem \<longrightarrow>
     (case w buf len (Some i) mem of Fault \<Rightarrow> False | Failed \<Rightarrow> True | Done (n, mem') \<Rightarrow> within buf (nat len) mem mem'))"

lemma writer_safeI:
  assumes "\<And>buf len. (\<forall>mem. w buf len (Some i) mem = Failed) \<or>
     (\<exists>n f. (\<forall>mem. w buf len (Some i) mem = ie_written n (f mem)) \<and> safe_write buf (nat len) f)"
  shows "writer_safe w i"
  unfolding writer_safe_def
proof (intro allI impI)
  fix buf len and mem :: "u8 list"
  assume m: "buf + nat len \<le> length mem"
  from assms [of buf len] show "case w buf len (Some i) mem of Fault \<Rightarrow> False | Failed \<Rightarrow> True | Done (n, mem') \<Rightarrow> within buf (nat len) mem mem'"
  proof
    assume "\<exists>n f. (\<forall>mem. w buf len (Some i) mem = ie_written n (f mem)) \<and> safe_write buf (nat len) f"
    then obtain n f where "w buf len (Some i) mem = ie_written n (f mem)" "safe_write buf (nat len) f" by blast
    with m show ?thesis by (auto simp: safe_write_def ie_written_def)
  qed simp
qed

lemma writer_safe_header:
  "writer_safe frame80215e_create_ie_header_ack_nack_time_correction i"
  "writer_safe frame80215e_create_ie_header_list_termination_1 i"
  "writer_safe frame80215e_create_ie_header_list_termination_2 i"
  "writer_safe frame80215e_create_ie_payload_list_termination i"
  "writer_safe frame80215e_create_ie_ietf i"
  "writer_safe frame80215e_create_ie_mlme i"
  by (rule writer_safeI;
      auto simp: frame80215e_create_ie_header_ack_nack_time_correction_def frame80215e_create_ie_header_list_termination_1_def
      frame80215e_create_ie_header_list_termination_2_def frame80215e_create_ie_payload_list_termination_def
      frame80215e_create_ie_ietf_def frame80215e_create_ie_mlme_def Let_def
      intro!: exI safe_write_bind safe_write_mem_write safe_write_descriptors)+

lemma writer_safe_sync: "writer_safe frame80215e_create_ie_tsch_synchronization i"
  by (rule writer_safeI) (auto simp: frame80215e_create_ie_tsch_synchronization_def
      intro!: exI safe_write_bind safe_write_mem_write safe_write_descriptors)

lemma writer_safe_timeslot:
  assumes "ies_wf i"
  shows "writer_safe frame80215e_create_ie_tsch_timeslot i"
proof (rule writer_safeI)
  fix buf len
  let ?w = "concat (map write16 (take tsch_ts_elements_count (ie_tsch_timeslot i)))"
  have w: "length ?w = 24" using assms by (simp add: ies_wf_def length_concat_const [where k = 2] tsch_ts_elements_count_def)
  show "(\<forall>mem. frame80215e_create_ie_tsch_timeslot buf len (Some i) mem = Failed) \<or>
     (\<exists>n f. (\<forall>mem. frame80215e_create_ie_tsch_timeslot buf len (Some i) mem = ie_written n (f mem)) \<and> safe_write buf (nat len) f)"
    using w by (cases "ie_tsch_timeslot_id i = 0")
      (auto simp: frame80215e_create_ie_tsch_timeslot_def simp del: length_concat
        intro!: exI safe_write_bind safe_write_mem_write safe_write_descriptors)
qed

lemma writer_safe_links:
  assumes "ies_wf i"
  shows "writer_safe frame80215e_create_ie_tsch_slotframe_and_link i"
proof (rule writer_safeI)
  fix buf len
  let ?w = "frame80215e_create_ie_tsch_slotframe_and_link buf len (Some i)"
  define sl where "sl = ie_tsch_slotframe_and_link i"
  have wf: "length (links sl) = 4" using assms by (simp add: ies_wf_def sl_def FRAME802154E_IE_MAX_LINKS_def)
  have "num_slotframes sl = 0 \<or> num_slotframes sl = 1" if "\<not> uint (num_slotframes sl) > 1"
  proof -
    have "uint (num_slotframes sl) = 0 \<or> uint (num_slotframes sl) = 1"
      using that uint_nonnegative [of "num_slotframes sl"] by linarith
    then show ?thesis by (simp add: word_uint_eq_iff)
  qed
  then consider "uint (num_slotframes sl) > 1 \<or> uint (num_links sl) > 4 \<or>
      len < 2 + (1 + uint (num_slotframes sl) * (4 + 5 * uint (num_links sl)))"
    | "num_slotframes sl = 0" "\<not> uint (num_links sl) > 4" "3 \<le> len"
    | "num_slotframes sl = 1" "\<not> uint (num_links sl) > 4" "7 + 5 * uint (num_links sl) \<le> len"
    by fastforce
  then show "(\<forall>mem. ?w mem = Failed) \<or> (\<exists>n f. (\<forall>mem. ?w mem = ie_written n (f mem)) \<and> safe_write buf (nat len) f)"
  proof cases
    case 1
    then show ?thesis
      by (auto simp: frame80215e_create_ie_tsch_slotframe_and_link_def FRAME802154E_IE_MAX_LINKS_def Let_def simp flip: sl_def)
  next
    case 2
    then show ?thesis
      by (auto simp: frame80215e_create_ie_tsch_slotframe_and_link_def FRAME802154E_IE_MAX_LINKS_def Let_def simp flip: sl_def
          intro!: exI safe_write_bind safe_write_mem_write safe_write_descriptors)
  next
    case 3
    have n: "5 * unat (num_links sl) + 7 \<le> nat len" "unat (num_links sl) \<le> 4"
      using 3 by (simp_all add: uint_nat del: of_nat_unat)
    with 3 wf show ?thesis
      by (auto simp: frame80215e_create_ie_tsch_slotframe_and_link_def FRAME802154E_IE_MAX_LINKS_def Let_def simp flip: sl_def
          intro!: exI safe_write_bind safe_write_mem_write safe_write_descriptors safe_write_links)
  qed
qed

lemma writer_safe_hopping:
  assumes "ies_wf i" "ie_channel_hopping_sequence_id i \<noteq> 0" "unat (ie_hopping_sequence_len i) \<le> TSCH_HOPPING_SEQUENCE_MAX_LEN"
  shows "writer_safe frame80215e_create_ie_tsch_channel_hopping_sequence i"
proof (rule writer_safeI)
  fix buf len
  let ?w = "frame80215e_create_ie_tsch_channel_hopping_sequence buf len (Some i)" let ?n = "unat (ie_hopping_sequence_len i)"
  have "mem_read 0 ?n (ie_hopping_sequence_list i) = Done (take ?n (ie_hopping_sequence_list i))"
    using assms by (simp add: mem_read_def ies_wf_def)
  then show "(\<forall>mem. ?w mem = Failed) \<or> (\<exists>n f. (\<forall>mem. ?w mem = ie_written n (f mem)) \<and> safe_write buf (nat len) f)"
    using assms by (cases "14 + int ?n \<le> len") (auto simp: frame80215e_create_ie_tsch_channel_hopping_sequence_def Let_def
        le_nat_iff simp del: of_nat_unat intro!: exI safe_write_bind safe_write_mem_write safe_write_descriptors)
qed

section \<open>Properties\<close>


definition example_ies :: ieee802154_ies where
  "example_ies = \<lparr>ie_time_correction = 0, ie_is_nack = 0, ie_payload_ie_offset = 0, ie_mlme_len = 8,
     ie_tsch_synchronization_offset = 0, ie_asn = \<lparr>ls4b = 0x01020304, ms1b = 5\<rparr>, ie_join_priority = 1, ie_tsch_timeslot_id = 0,
     ie_tsch_timeslot = replicate 12 0,
     ie_tsch_slotframe_and_link = \<lparr>num_slotframes = 0, sfl_handle = 0, slotframe_size = 0, num_links = 0,
       links = replicate 4 \<lparr>sl_timeslot = 0, sl_channel_offset = 0, sl_link_options = 0\<rparr>\<rparr>,
     ie_channel_hopping_sequence_id = 0, ie_hopping_sequence_len = 0, ie_hopping_sequence_list = replicate 4 0,
     sixtop_ie_content_ptr = None, sixtop_ie_content_len = 0\<rparr>"

lemma example_ies_wf: "ies_wf example_ies"
  by (simp add: example_ies_def ies_wf_def FRAME802154E_IE_MAX_LINKS_def TSCH_HOPPING_SEQUENCE_MAX_LEN_def tsch_ts_elements_count_def)


text \<open>The acknowledgement element survives the round trip: every time correction of 12 bits with sign (-2048 to 2047 microseconds) and the
  NACK flag written into an enhanced ACK are read back exactly by the parser.\<close>

theorem ack_ie_roundtrip:
  assumes "- 2048 \<le> sint (ie_time_correction i)" "sint (ie_time_correction i) < 2048" "4 \<le> length mem"
  shows "\<exists>m1. frame80215e_create_ie_header_ack_nack_time_correction 0 4 (Some i) mem = Done (4, m1) \<and>
    frame802154e_parse_information_elements m1 4 (Some i0) =
      Done (4, i0\<lparr>ie_is_nack := (if ie_is_nack i \<noteq> 0 then 1 else 0), ie_time_correction := ie_time_correction i,
        ie_payload_ie_offset := 4\<rparr>)"
proof -
  define f where "f = (if ie_is_nack i \<noteq> 0 then (ie_time_correction i AND 0x0fff) OR 0x8000 else ie_time_correction i AND 0x0fff)"
  let ?m = "put_at 0 (write16 0x0f02 @ write16 f) mem"
  let ?s = "\<lparr>il_off = 0, il_size = 4, il_state = PARSING_HEADER_IE, il_nested = 0, il_ies = i0\<lparr>ie_payload_ie_offset := 0\<rparr>\<rparr> :: ie_loop"
  have a: "(if f AND 0x8000 \<noteq> 0 then 1 else 0) = (if ie_is_nack i \<noteq> 0 then 1 else 0 :: u8)"
    "(if f AND 0x0800 \<noteq> 0 then f OR 0xf000 else f AND 0x0fff) = ie_time_correction i"
    using ack_field [OF assms(1,2), of "ie_is_nack i \<noteq> 0", folded f_def] by simp_all
  have "has_at ?m 0 (write16 0x0f02 @ write16 f)" using assms(3) by (intro has_at_put_at) simp
  then have it: "ie_iteration ?s ?m = Done (Continue (?s\<lparr>il_off := 4, il_size := 0, il_ies := (i0\<lparr>ie_payload_ie_offset := 0\<rparr>)\<lparr>
      ie_is_nack := (if ie_is_nack i \<noteq> 0 then 1 else 0), ie_time_correction := ie_time_correction i\<rparr>\<rparr>))"
    using ack_iteration [of ?m ?s f, unfolded a] by simp
  have "frame802154e_parse_information_elements ?m 4 (Some i0) =
      Done (4, i0\<lparr>ie_is_nack := (if ie_is_nack i \<noteq> 0 then 1 else 0), ie_time_correction := ie_time_correction i,
        ie_payload_ie_offset := 4\<rparr>)"
    unfolding frame802154e_parse_information_elements_def option.case ie_loop_run_step [OF _ it, simplified]
    by (subst ie_loop_run.simps) simp
  moreover have "frame80215e_create_ie_header_ack_nack_time_correction 0 4 (Some i) mem = Done (4, ?m)"
    using assms(3) f_def by (intro create_ack) simp_all
  ultimately show ?thesis by blast
qed

theorem ack_ie_roundtrip_witness:
  "\<exists>m1. frame80215e_create_ie_header_ack_nack_time_correction 0 4
      (Some (example_ies\<lparr>ie_time_correction := - 100, ie_is_nack := 1\<rparr>)) [0, 0, 0, 0] = Done (4, m1) \<and>
    frame802154e_parse_information_elements m1 4 (Some example_ies) =
      Done (4, example_ies\<lparr>ie_is_nack := 1, ie_time_correction := - 100, ie_payload_ie_offset := 4\<rparr>)"
  using ack_ie_roundtrip [of "example_ies\<lparr>ie_time_correction := - 100, ie_is_nack := 1\<rparr>" "[0, 0, 0, 0]" example_ies]
  by (simp add: example_ies_def)

text \<open>C38. The writers respect the space their caller gives them: each either refuses or changes only the
  \<open>len\<close> bytes at \<open>buf\<close> (as long as the arrays of the descriptor have their C sizes), with exactly one
  exception. The channel hopping sequence element with identifier 0 asks for 3 bytes but writes
  14 and the sequence: with 3 bytes left at the end of the memory it writes past the end.\<close>

theorem ie_writers_safety:
  assumes wf: "ies_wf i"
  shows "list_all (\<lambda>w. writer_safe w i)
      [frame80215e_create_ie_header_ack_nack_time_correction, frame80215e_create_ie_header_list_termination_1,
       frame80215e_create_ie_header_list_termination_2, frame80215e_create_ie_payload_list_termination,
       frame80215e_create_ie_ietf, frame80215e_create_ie_mlme, frame80215e_create_ie_tsch_synchronization,
       frame80215e_create_ie_tsch_slotframe_and_link, frame80215e_create_ie_tsch_timeslot] \<and>
    (writer_safe frame80215e_create_ie_tsch_channel_hopping_sequence i \<longleftrightarrow>
       ie_channel_hopping_sequence_id i \<noteq> 0 \<or> unat (ie_hopping_sequence_len i) > TSCH_HOPPING_SEQUENCE_MAX_LEN)"
proof -
  let ?w = frame80215e_create_ie_tsch_channel_hopping_sequence let ?n = "unat (ie_hopping_sequence_len i)"
  note hop = frame80215e_create_ie_tsch_channel_hopping_sequence_def
  have "writer_safe ?w i" if big: "?n > TSCH_HOPPING_SEQUENCE_MAX_LEN"
    using that by (intro writer_safeI) (simp add: hop)
  moreover have "writer_safe ?w i" if ident: "ie_channel_hopping_sequence_id i \<noteq> 0" "\<not> ?n > TSCH_HOPPING_SEQUENCE_MAX_LEN"
    using that by (intro writer_safe_hopping [OF wf]) simp_all
  moreover have "\<not> writer_safe ?w i" if ident: "ie_channel_hopping_sequence_id i = 0" "\<not> ?n > TSCH_HOPPING_SEQUENCE_MAX_LEN"
  proof
    assume "writer_safe ?w i"
    from this [unfolded writer_safe_def, rule_format, of 0 3 "[0, 0, 0]"] that
    show False by (simp add: hop ie_written_def mem_write_def Let_def)
  qed
  ultimately show ?thesis
    using writer_safe_header [of i] writer_safe_sync [of i] writer_safe_timeslot [OF wf] writer_safe_links [OF wf] by auto
qed

theorem ie_writers_safety_witness:
  "\<not> writer_safe frame80215e_create_ie_tsch_channel_hopping_sequence example_ies"
  using ie_writers_safety [OF example_ies_wf] by (simp add: example_ies_def TSCH_HOPPING_SEQUENCE_MAX_LEN_def)


end
