(* ===== verification/NbrTable.thy ===== *)
theory NbrTable
  imports Packetbuf LinkedList
begin

text \<open>
  Neighbor tables, \<^verbatim>\<open>os/net/nbr-table.c\<close>. One pool of link-layer addresses is shared by up to eight tables; a table has one
  item per block of the pool, and two bytes per block say which tables use and which tables lock the neighbor.

  A pointer to a key is the index of its block, a pointer to an item is the index of the item in its
  table, and a pointer to a table is a number (None: NULL). The list of keys is the item list
  itself (see \<^verbatim>\<open>LinkedList\<close>). The replacement policy of the routing protocol (\<open>NBR_TABLE_FIND_REMOVABLE\<close>) is a parameter, None
  if it is not configured; calls of the tables' callbacks are recorded.
\<close>

section \<open>State\<close>

definition NBR_TABLE_MAX_NEIGHBORS :: nat where "NBR_TABLE_MAX_NEIGHBORS = 16"
definition MAX_NUM_TABLES :: nat where "MAX_NUM_TABLES = 8"

datatype nbr_table_reason_t = NBR_TABLE_REASON_UNDEFINED | NBR_TABLE_REASON_RPL_DIO | NBR_TABLE_REASON_RPL_DAO
  | NBR_TABLE_REASON_RPL_DIS | NBR_TABLE_REASON_ROUTE | NBR_TABLE_REASON_IPV6_ND | NBR_TABLE_REASON_IPV6_ND_AUTOFILL
  | NBR_TABLE_REASON_MAC | NBR_TABLE_REASON_LLSEC | NBR_TABLE_REASON_LINK_STATS | NBR_TABLE_REASON_SIXTOP

text \<open>\<open>nt_zero\<close> is the item with all bytes zero.\<close>

record 'a nbr_table =
  nt_index :: int
  nt_callback :: "nat option"
  nt_data :: "nat \<Rightarrow> 'a"
  nt_zero :: 'a

record 'a nbr_tables =
  used_map :: "u8 list"
  locked_map :: "u8 list"
  all_tables :: "nat option list"
  num_tables :: nat
  neighbor_addr_mem :: "linkaddr memb"
  nbr_table_keys :: "nat list"
  tabs :: "nat \<Rightarrow> 'a nbr_table"
  removed_log :: "(nat \<times> nat) list"

type_synonym removal_policy = "(nbr_table_reason_t \<Rightarrow> nat option \<Rightarrow> linkaddr option) option"

section \<open>Keys, items and indices\<close>

definition key_from_index :: "int \<Rightarrow> nat option" where
  "key_from_index index = (if index \<noteq> -1 then Some (nat index) else None)"

definition item_from_index :: "nat option \<Rightarrow> int \<Rightarrow> nat option" where
  "item_from_index table index = (if table \<noteq> None \<and> index \<noteq> -1 then Some (nat index) else None)"

definition index_from_key :: "nat option \<Rightarrow> int" where
  "index_from_key key = (case key of Some k \<Rightarrow> int k | None \<Rightarrow> -1)"

definition index_from_item :: "nat option \<Rightarrow> nat option \<Rightarrow> int" where
  "index_from_item table item = (case (table, item) of (Some _, Some i) \<Rightarrow> int i | _ \<Rightarrow> -1)"

definition item_from_key :: "nat option \<Rightarrow> nat option \<Rightarrow> nat option" where
  "item_from_key table key = item_from_index table (index_from_key key)"

definition key_from_item :: "nat option \<Rightarrow> nat option \<Rightarrow> nat option" where
  "key_from_item table item = key_from_index (index_from_item table item)"

abbreviation key_addr :: "'a nbr_tables \<Rightarrow> nat \<Rightarrow> linkaddr" where
  "key_addr s k \<equiv> mb_mem (neighbor_addr_mem s) k"

definition index_from_lladdr :: "linkaddr option \<Rightarrow> 'a nbr_tables \<Rightarrow> int" where
  "index_from_lladdr lladdr s =
     (let a = (case lladdr of None \<Rightarrow> linkaddr_null | Some x \<Rightarrow> x)
      in index_from_key (find (\<lambda>k. linkaddr_cmp a (key_addr s k)) (nbr_table_keys s)))"

definition table_bit :: "nat \<Rightarrow> 'a nbr_tables \<Rightarrow> u8" where
  "table_bit t s = push_bit (nat (nt_index (tabs s t))) 1"

definition nbr_get_bit :: "u8 list \<Rightarrow> nat option \<Rightarrow> nat option \<Rightarrow> 'a nbr_tables \<Rightarrow> bool" where
  "nbr_get_bit bitmap table item s =
     (let item_index = index_from_item table item in
      case table of
        Some t \<Rightarrow> item_index \<noteq> -1 \<and> bitmap ! nat item_index AND table_bit t s \<noteq> 0
      | None \<Rightarrow> False)"

definition nbr_set_bit :: "u8 list \<Rightarrow> nat option \<Rightarrow> nat option \<Rightarrow> bool \<Rightarrow> 'a nbr_tables \<Rightarrow> int \<times> u8 list" where
  "nbr_set_bit bitmap table item value s =
     (let item_index = index_from_item table item in
      case table of
        Some t \<Rightarrow>
          if item_index \<noteq> -1
          then (1, bitmap[nat item_index := (if value then bitmap ! nat item_index OR table_bit t s
                                             else bitmap ! nat item_index AND NOT (table_bit t s))])
          else (0, bitmap)
      | None \<Rightarrow> (0, bitmap))"

section \<open>Allocation and replacement\<close>

definition remove_key :: "nat \<Rightarrow> 'a nbr_tables \<Rightarrow> 'a nbr_tables" where
  "remove_key k s =
     (let calls = concat (map (\<lambda>i.
            case all_tables s ! i of
              None \<Rightarrow> []
            | Some t \<Rightarrow>
                (case nt_callback (tabs s t) of
                   None \<Rightarrow> []
                 | Some _ \<Rightarrow> if nbr_get_bit (used_map s) (Some t) (item_from_key (Some t) (Some k)) s then [(t, k)] else []))
            [0..<MAX_NUM_TABLES])
      in s\<lparr>removed_log := removed_log s @ calls, used_map := (used_map s)[k := 0],
           nbr_table_keys := remove1 k (nbr_table_keys s)\<rparr>)"

text \<open>The inner loop that counts the bits of \<open>used_map\<close>, and the search for the least used key.\<close>

fun used_count :: "nat \<Rightarrow> nat" where
  "used_count used = (if used = 0 then 0 else (if odd used then 1 else 0) + used_count (used div 2))"

declare used_count.simps [simp del]

fun least_used_loop :: "'a nbr_tables \<Rightarrow> nat list \<Rightarrow> nat option \<Rightarrow> nat \<Rightarrow> nat option" where
  "least_used_loop s [] least cnt = least"
| "least_used_loop s (k # ks) least cnt =
     (if locked_map s ! k = 0 then
        (let c = used_count (unat (used_map s ! k)) in
         if least = None \<or> c < cnt
         then if c = 0 then Some k else least_used_loop s ks (Some k) c
         else least_used_loop s ks least cnt)
      else least_used_loop s ks least cnt)"

text \<open>What the configured policy leaves: None if the allocation fails at once, otherwise the key it selects (unlocked) or
  none.\<close>

definition policy_choice ::
    "removal_policy \<Rightarrow> nbr_table_reason_t \<Rightarrow> nat option \<Rightarrow> 'a nbr_tables \<Rightarrow> (nat option \<times> 'a nbr_tables) option" where
  "policy_choice policy reason data s =
     (case policy of
        None \<Rightarrow> Some (None, s)
      | Some f \<Rightarrow>
          (case f reason data of
             None \<Rightarrow> None
           | Some a \<Rightarrow>
               (let index = index_from_lladdr (Some a) s in
                if index \<noteq> -1
                then Some (Some (nat index),
                       if locked_map s ! nat index \<noteq> 0 then s\<lparr>locked_map := (locked_map s)[nat index := 0]\<rparr> else s)
                else Some (None, s))))"

definition nbr_table_allocate ::
    "removal_policy \<Rightarrow> nbr_table_reason_t \<Rightarrow> nat option \<Rightarrow> 'a nbr_tables \<Rightarrow> nat option \<times> 'a nbr_tables" where
  "nbr_table_allocate policy reason data s =
     (case memb_alloc (neighbor_addr_mem s) of
        (Some k, m) \<Rightarrow> (Some k, s\<lparr>neighbor_addr_mem := m\<rparr>)
      | (None, m) \<Rightarrow>
          (case policy_choice policy reason data (s\<lparr>neighbor_addr_mem := m\<rparr>) of
             None \<Rightarrow> (None, s\<lparr>neighbor_addr_mem := m\<rparr>)
           | Some (choice, s1) \<Rightarrow>
               (case (if choice = None then least_used_loop s1 (nbr_table_keys s1) None 0 else choice) of
                  None \<Rightarrow> (None, s1)
                | Some k \<Rightarrow> (Some k, remove_key k s1))))"

section \<open>Tables\<close>

definition nbr_table_is_registered :: "nat option \<Rightarrow> 'a nbr_tables \<Rightarrow> bool" where
  "nbr_table_is_registered table s =
     (case table of None \<Rightarrow> False
      | Some t \<Rightarrow> nt_index (tabs s t) \<ge> 0 \<and> nt_index (tabs s t) < int MAX_NUM_TABLES \<and>
          all_tables s ! nat (nt_index (tabs s t)) = Some t)"

definition tab_upd :: "nat \<Rightarrow> ('a nbr_table \<Rightarrow> 'a nbr_table) \<Rightarrow> 'a nbr_tables \<Rightarrow> 'a nbr_tables" where
  "tab_upd t f s = s\<lparr>tabs := (tabs s)(t := f (tabs s t))\<rparr>"

definition nbr_table_register :: "nat \<Rightarrow> nat option \<Rightarrow> 'a nbr_tables \<Rightarrow> int \<times> 'a nbr_tables" where
  "nbr_table_register t callback s =
     (if nbr_table_is_registered (Some t) s then (1, tab_upd t (\<lambda>x. x\<lparr>nt_callback := callback\<rparr>) s)
      else if num_tables s < MAX_NUM_TABLES then
        (1, (tab_upd t (\<lambda>x. x\<lparr>nt_index := int (num_tables s), nt_callback := callback\<rparr>) s)
              \<lparr>all_tables := (all_tables s)[num_tables s := Some t], num_tables := num_tables s + 1\<rparr>)
      else (0, s))"

text \<open>The loop of \<open>nbr_table_next\<close> over the keys behind the current one.\<close>

fun next_item :: "nat option \<Rightarrow> nat list \<Rightarrow> 'a nbr_tables \<Rightarrow> nat option" where
  "next_item table [] s = None"
| "next_item table (k # ks) s =
     (let item = item_from_key table (Some k) in
      if item \<noteq> None \<and> \<not> nbr_get_bit (used_map s) table item s then next_item table ks s else item)"

definition keys_after :: "nat option \<Rightarrow> 'a nbr_tables \<Rightarrow> nat list" where
  "keys_after key s = (case key of None \<Rightarrow> [] | Some k \<Rightarrow> drop 1 (dropWhile (\<lambda>x. x \<noteq> k) (nbr_table_keys s)))"

definition nbr_table_next :: "nat option \<Rightarrow> nat option \<Rightarrow> 'a nbr_tables \<Rightarrow> nat option" where
  "nbr_table_next table item s = next_item table (keys_after (key_from_item table item) s) s"

definition nbr_table_head :: "nat option \<Rightarrow> 'a nbr_tables \<Rightarrow> nat option" where
  "nbr_table_head table s =
     (let item = item_from_key table (case nbr_table_keys s of [] \<Rightarrow> None | k # _ \<Rightarrow> Some k) in
      if nbr_get_bit (used_map s) table item s then item else nbr_table_next table item s)"

definition nbr_table_add_lladdr ::
    "removal_policy \<Rightarrow> nat \<Rightarrow> linkaddr option \<Rightarrow> nbr_table_reason_t \<Rightarrow> nat option \<Rightarrow> 'a nbr_tables \<Rightarrow>
     nat option \<times> 'a nbr_tables" where
  "nbr_table_add_lladdr policy t lladdr reason data s =
     (let a = (case lladdr of None \<Rightarrow> linkaddr_null | Some x \<Rightarrow> x);
          index = index_from_lladdr (Some a) s;
          (index', s1) =
            (if index = -1 then
               (case nbr_table_allocate policy reason data s of
                  (None, s') \<Rightarrow> (-1, s')
                | (Some k, s') \<Rightarrow>
                    (index_from_key (Some k),
                     s'\<lparr>nbr_table_keys := alist_add k (nbr_table_keys s'),
                        neighbor_addr_mem := blk_upd k (\<lambda>d. linkaddr_copy d a) (neighbor_addr_mem s')\<rparr>))
             else (index, s))
      in if index' = -1 then (None, s1)
         else
           (let item = item_from_index (Some t) index';
                s2 = tab_upd t (\<lambda>x. x\<lparr>nt_data := (nt_data x)(nat index' := nt_zero x)\<rparr>) s1
            in (item, s2\<lparr>used_map := snd (nbr_set_bit (used_map s2) (Some t) item True s2)\<rparr>)))"

definition nbr_table_get_from_lladdr :: "nat option \<Rightarrow> linkaddr option \<Rightarrow> 'a nbr_tables \<Rightarrow> nat option" where
  "nbr_table_get_from_lladdr table lladdr s =
     (let item = item_from_index table (index_from_lladdr lladdr s)
      in if nbr_get_bit (used_map s) table item s then item else None)"

definition nbr_table_remove :: "nat option \<Rightarrow> nat option \<Rightarrow> 'a nbr_tables \<Rightarrow> int \<times> 'a nbr_tables" where
  "nbr_table_remove table item s =
     (let (ret, u) = nbr_set_bit (used_map s) table item False s;
          s1 = s\<lparr>used_map := u\<rparr>
      in (ret, s1\<lparr>locked_map := snd (nbr_set_bit (locked_map s1) table item False s1)\<rparr>))"

definition nbr_table_lock :: "nat option \<Rightarrow> nat option \<Rightarrow> 'a nbr_tables \<Rightarrow> int \<times> 'a nbr_tables" where
  "nbr_table_lock table item s =
     (let (ret, l) = nbr_set_bit (locked_map s) table item True s in (ret, s\<lparr>locked_map := l\<rparr>))"

definition nbr_table_unlock :: "nat option \<Rightarrow> nat option \<Rightarrow> 'a nbr_tables \<Rightarrow> int \<times> 'a nbr_tables" where
  "nbr_table_unlock table item s =
     (let (ret, l) = nbr_set_bit (locked_map s) table item False s in (ret, s\<lparr>locked_map := l\<rparr>))"

definition nbr_table_get_lladdr :: "nat option \<Rightarrow> nat option \<Rightarrow> 'a nbr_tables \<Rightarrow> linkaddr option" where
  "nbr_table_get_lladdr table item s = map_option (key_addr s) (key_from_item table item)"

end
