(* ===== verification/NbrTableProps.thy ===== *)
theory NbrTableProps
  imports NbrTable
begin

text \<open>Properties of the neighbor tables: the invariant, what a lookup returns after every operation, and which neighbor is
  replaced when the pool is full.\<close>

section \<open>Invariant and lookup\<close>

text \<open>The keys are exactly the allocated blocks, their addresses are pairwise different, no table uses or locks a block that is no
  key, and the index of a registered table is its position.\<close>

definition nt_inv :: "'a nbr_tables \<Rightarrow> bool" where
  "nt_inv s \<longleftrightarrow> length (used_map s) = NBR_TABLE_MAX_NEIGHBORS \<and> length (locked_map s) = NBR_TABLE_MAX_NEIGHBORS \<and>
     length (all_tables s) = MAX_NUM_TABLES \<and> mb_num (neighbor_addr_mem s) = NBR_TABLE_MAX_NEIGHBORS \<and>
     memb_inv (neighbor_addr_mem s) \<and> distinct (nbr_table_keys s) \<and>
     set (nbr_table_keys s) = memb_used (neighbor_addr_mem s) \<and>
     (\<forall>k \<in> set (nbr_table_keys s). is_linkaddr (key_addr s k)) \<and> inj_on (key_addr s) (set (nbr_table_keys s)) \<and>
     (\<forall>k < NBR_TABLE_MAX_NEIGHBORS. k \<notin> set (nbr_table_keys s) \<longrightarrow> used_map s ! k = 0 \<and> locked_map s ! k = 0) \<and>
     num_tables s \<le> MAX_NUM_TABLES \<and>
     (\<forall>i < MAX_NUM_TABLES. \<forall>t. all_tables s ! i = Some t \<longrightarrow> nt_index (tabs s t) = int i \<and> i < num_tables s)"

definition registered :: "'a nbr_tables \<Rightarrow> nat \<Rightarrow> bool" where
  "registered s t \<longleftrightarrow> nbr_table_is_registered (Some t) s"

text \<open>The key of an address, and whether a table uses the neighbor of a key.\<close>

definition key_of :: "'a nbr_tables \<Rightarrow> linkaddr \<Rightarrow> nat option" where
  "key_of s a = find (\<lambda>k. linkaddr_cmp a (key_addr s k)) (nbr_table_keys s)"

definition uses :: "'a nbr_tables \<Rightarrow> nat \<Rightarrow> nat \<Rightarrow> bool" where
  "uses s t k \<longleftrightarrow> bit (used_map s ! k) (nat (nt_index (tabs s t)))"

abbreviation lookup :: "'a nbr_tables \<Rightarrow> nat \<Rightarrow> linkaddr \<Rightarrow> nat option" where
  "lookup s t a \<equiv> nbr_table_get_from_lladdr (Some t) (Some a) s"

lemma nt_invD:
  assumes "nt_inv s"
  shows "length (used_map s) = NBR_TABLE_MAX_NEIGHBORS" "length (locked_map s) = NBR_TABLE_MAX_NEIGHBORS"
    "mb_num (neighbor_addr_mem s) = NBR_TABLE_MAX_NEIGHBORS" "memb_inv (neighbor_addr_mem s)"
    "distinct (nbr_table_keys s)" "set (nbr_table_keys s) = memb_used (neighbor_addr_mem s)"
    "\<And>k. k < NBR_TABLE_MAX_NEIGHBORS \<Longrightarrow> k \<notin> set (nbr_table_keys s) \<Longrightarrow> used_map s ! k = 0 \<and> locked_map s ! k = 0"
  using assms unfolding nt_inv_def by blast+

lemma key_bound: "nt_inv s \<Longrightarrow> k \<in> set (nbr_table_keys s) \<Longrightarrow> k < NBR_TABLE_MAX_NEIGHBORS"
  by (auto simp: nt_inv_def dest: memb_used_less)

lemma option_eqI: "(\<And>j. x = Some j \<longleftrightarrow> y = Some j) \<Longrightarrow> x = y"
  by (cases x; cases y) auto

lemma key_of_iff:
  assumes "nt_inv s" "is_linkaddr a"
  shows "key_of s a = Some k \<longleftrightarrow> k \<in> set (nbr_table_keys s) \<and> key_addr s k = a"
proof
  assume "key_of s a = Some k"
  then have "k \<in> set (nbr_table_keys s)" "linkaddr_cmp a (key_addr s k)" by (auto simp: key_of_def dest: find_sound)
  then show "k \<in> set (nbr_table_keys s) \<and> key_addr s k = a" using assms by (simp add: nt_inv_def)
next
  assume k: "k \<in> set (nbr_table_keys s) \<and> key_addr s k = a"
  then obtain j where j: "key_of s a = Some j" "j \<in> set (nbr_table_keys s)" "linkaddr_cmp a (key_addr s j)"
    using find_ex [of k "nbr_table_keys s" "\<lambda>k. linkaddr_cmp a (key_addr s k)"] by (auto simp: key_of_def)
  then have "key_addr s j = a" using assms by (simp add: nt_inv_def)
  then have "j = k" using assms j(2) k by (auto simp: nt_inv_def dest: inj_onD)
  then show "key_of s a = Some k" using j(1) by simp
qed

lemma key_of_None:
  assumes "nt_inv s" "is_linkaddr a"
  shows "key_of s a = None \<longleftrightarrow> a \<notin> key_addr s ` set (nbr_table_keys s)"
proof -
  have "key_of s a \<noteq> None \<longleftrightarrow> (\<exists>k. k \<in> set (nbr_table_keys s) \<and> key_addr s k = a)"
    by (simp only: not_None_eq key_of_iff [OF assms])
  then show ?thesis by (auto simp: image_iff)
qed

lemma index_from_lladdr_eq: "index_from_lladdr (Some a) s = (case key_of s a of None \<Rightarrow> -1 | Some k \<Rightarrow> int k)"
  by (simp add: index_from_lladdr_def index_from_key_def key_of_def split: option.split)

lemma get_bit_eq: "nbr_get_bit m (Some t) (Some k) s \<longleftrightarrow> bit (m ! k) (nat (nt_index (tabs s t)))"
  by (simp add: nbr_get_bit_def index_from_item_def table_bit_def push_bit_of_1 and_exp_eq_0_iff_not_bit)

lemma lookup_eq: "lookup s t a = (case key_of s a of None \<Rightarrow> None | Some k \<Rightarrow> if uses s t k then Some k else None)"
proof (cases "key_of s a")
  case None
  then show ?thesis
    by (simp add: nbr_table_get_from_lladdr_def index_from_lladdr_eq item_from_index_def nbr_get_bit_def index_from_item_def)
next
  case (Some k)
  then show ?thesis
    by (simp add: nbr_table_get_from_lladdr_def index_from_lladdr_eq item_from_index_def get_bit_eq uses_def)
qed

lemma lookup_cong: "key_of s' b = key_of s b \<Longrightarrow> (\<And>k. uses s' t k \<longleftrightarrow> uses s t k) \<Longrightarrow> lookup s' t b = lookup s t b"
  by (simp add: lookup_eq split: option.split)

lemma registered_index:
  assumes "nt_inv s" "registered s t"
  shows "nat (nt_index (tabs s t)) < 8" "nt_index (tabs s t) \<ge> 0" "all_tables s ! nat (nt_index (tabs s t)) = Some t"
  using assms(2) by (auto simp: registered_def nbr_table_is_registered_def MAX_NUM_TABLES_def)

lemma registered_index_inj:
  assumes "nt_inv s" "registered s t" "registered s t'" "nat (nt_index (tabs s t)) = nat (nt_index (tabs s t'))"
  shows "t = t'"
  using registered_index(3) [OF assms(1,2)] registered_index(3) [OF assms(1,3)] assms(4) by (metis option.inject)

section \<open>Bits of the maps\<close>

lemma set_bit_eq:
  "nbr_set_bit m (Some t) (Some k) v s = (1, m[k := (if v then m ! k OR table_bit t s else m ! k AND NOT (table_bit t s))])"
  by (simp add: nbr_set_bit_def index_from_item_def)

lemma bit_set_bit:
  assumes "k < length m" "nat (nt_index (tabs s t)) < 8"
  shows "bit (snd (nbr_set_bit m (Some t) (Some k) v s) ! j) n \<longleftrightarrow>
    (if j = k \<and> n = nat (nt_index (tabs s t)) then v else bit (m ! j) n)"
  using assms by (auto simp: set_bit_eq table_bit_def push_bit_of_1 bit_or_iff bit_and_iff bit_not_iff bit_exp_iff nth_list_update
      dest: bit_imp_le_length)

lemma length_set_bit [simp]: "length (snd (nbr_set_bit m table item v s)) = length m"
  by (simp add: nbr_set_bit_def Let_def split: option.split)

section \<open>Replacement\<close>

text \<open>Number of tables that use the neighbor of a key.\<close>

definition users :: "'a nbr_tables \<Rightarrow> nat \<Rightarrow> nat" where
  "users s k = card {i. i < 8 \<and> bit (used_map s ! k) i}"

lemma finite_bits: "finite {i. bit (n :: nat) i}"
proof (rule finite_subset)
  show "{i. bit n i} \<subseteq> {..n}"
  proof clarsimp
    fix i assume "bit n i"
    then have "n div 2 ^ i \<noteq> 0" by (auto simp: bit_iff_odd elim: oddE)
    then have "2 ^ i \<le> n" by (metis div_less not_less)
    then show "i \<le> n" using less_exp [of i] by linarith
  qed
qed simp

lemma used_count_card: "used_count n = card {i. bit n i}"
proof (induction n rule: used_count.induct)
  case (1 n)
  show ?case
  proof (cases "n = 0")
    case True
    then show ?thesis by (subst used_count.simps) (simp add: bot_fun_def)
  next
    case False
    have "{i. bit n i} = (if odd n then insert 0 else id) (Suc ` {i. bit (n div 2) i})"
      by (auto simp: bit_Suc bit_0 image_iff elim: nat.exhaust split: if_splits) (metis bit_0 bit_Suc not0_implies_Suc)+
    moreover have "finite {i. bit (n div 2) i}" by (rule finite_bits)
    ultimately have "card {i. bit n i} = (if odd n then 1 else 0) + card {i. bit (n div 2) i}"
      by (simp add: card_image)
    then show ?thesis using 1 False by (subst used_count.simps) simp
  qed
qed

lemma users_eq: "used_count (unat (used_map s ! k)) = users s k"
  unfolding used_count_card users_def by (rule arg_cong [of _ _ card]) (auto simp: bit_unsigned_iff not_le [symmetric])

text \<open>The neighbor that is replaced without a policy: not locked, used by the fewest tables, and the oldest of these.\<close>

definition victim :: "'a nbr_tables \<Rightarrow> nat list \<Rightarrow> nat \<Rightarrow> bool" where
  "victim s ks k \<longleftrightarrow> (\<exists>pre post. ks = pre @ k # post \<and> locked_map s ! k = 0 \<and>
     (\<forall>j \<in> set pre. locked_map s ! j = 0 \<longrightarrow> users s k < users s j) \<and>
     (\<forall>j \<in> set post. locked_map s ! j = 0 \<longrightarrow> users s k \<le> users s j))"

lemma victim_skip: "victim s ks k \<Longrightarrow> (locked_map s ! j = 0 \<Longrightarrow> users s k < users s j) \<Longrightarrow> victim s (j # ks) k"
  unfolding victim_def by (metis append_Cons set_ConsD)

lemma victim_here:
  "locked_map s ! k = 0 \<Longrightarrow> (\<And>j. j \<in> set ks \<Longrightarrow> locked_map s ! j = 0 \<Longrightarrow> users s k \<le> users s j) \<Longrightarrow> victim s (k # ks) k"
  unfolding victim_def by (intro exI [of _ "[]"] exI [of _ ks]) simp

lemma least_used_loop_Some:
  "least_used_loop s ks (Some b) (users s b) = Some k \<Longrightarrow>
    k = b \<and> (\<forall>j \<in> set ks. locked_map s ! j = 0 \<longrightarrow> users s b \<le> users s j) \<or> victim s ks k \<and> users s k < users s b"
proof (induction ks arbitrary: b)
  case (Cons j ks)
  consider (locked) "locked_map s ! j \<noteq> 0" | (worse) "locked_map s ! j = 0" "users s b \<le> users s j"
    | (better) "locked_map s ! j = 0" "users s j < users s b" by linarith
  then show ?case
  proof cases
    case better
    have "k = j \<and> (\<forall>i \<in> set ks. locked_map s ! i = 0 \<longrightarrow> users s j \<le> users s i) \<or> victim s ks k \<and> users s k < users s j"
      using Cons better by (cases "users s j = 0") (simp_all add: users_eq)
    then show ?thesis using better victim_here victim_skip by (metis less_trans)
  next
    case locked
    then show ?thesis using Cons victim_skip [of s ks k j] by (auto simp: users_eq)
  next
    case worse
    then have "k = b \<and> (\<forall>j \<in> set ks. locked_map s ! j = 0 \<longrightarrow> users s b \<le> users s j) \<or> victim s ks k \<and> users s k < users s b"
      using Cons by (simp add: users_eq)
    then show ?thesis using worse victim_skip [of s ks k j] by auto
  qed
qed simp

lemma least_used_loop_keeps: "least_used_loop s ks (Some b) c \<noteq> None"
  by (induction ks arbitrary: b c) (auto simp: Let_def)

lemma least_used_loop_None_iff: "least_used_loop s ks None c = None \<longleftrightarrow> (\<forall>j \<in> set ks. locked_map s ! j \<noteq> 0)"
  using least_used_loop_keeps [of s] by (induction ks) (auto simp: Let_def simp del: not_None_eq)

lemma least_used_loop_victim: "least_used_loop s ks None c = Some k \<Longrightarrow> victim s ks k"
proof (induction ks)
  case (Cons j ks)
  show ?case
  proof (cases "locked_map s ! j = 0")
    case True
    have "k = j \<and> (\<forall>i \<in> set ks. locked_map s ! i = 0 \<longrightarrow> users s j \<le> users s i) \<or> victim s ks k \<and> users s k < users s j"
      using Cons.prems True least_used_loop_Some [of s ks j k] by (cases "users s j = 0") (simp_all add: users_eq)
    then show ?thesis using True victim_here [of s j ks] victim_skip [of s ks k j] by auto
  next
    case False
    then show ?thesis using Cons by (intro victim_skip) simp_all
  qed
qed simp

lemma victim_key: "victim s ks k \<Longrightarrow> k \<in> set ks"
  by (auto simp: victim_def)

text \<open>The neighbor to be replaced with a policy: the one the policy names if it is in the pool; if the policy names nobody, nothing is
  replaced.\<close>

definition evicts :: "removal_policy \<Rightarrow> nbr_table_reason_t \<Rightarrow> nat option \<Rightarrow> 'a nbr_tables \<Rightarrow> nat \<Rightarrow> bool" where
  "evicts policy reason data s k \<longleftrightarrow>
     (case policy of None \<Rightarrow> victim s (nbr_table_keys s) k
      | Some f \<Rightarrow> (\<exists>a. f reason data = Some a \<and>
          (case key_of s a of Some j \<Rightarrow> k = j | None \<Rightarrow> victim s (nbr_table_keys s) k)))"

definition pool_full :: "'a nbr_tables \<Rightarrow> bool" where
  "pool_full s \<longleftrightarrow> length (nbr_table_keys s) = NBR_TABLE_MAX_NEIGHBORS"

lemma pool_full_iff:
  assumes "nt_inv s"
  shows "pool_full s \<longleftrightarrow> memb_used (neighbor_addr_mem s) = {..<NBR_TABLE_MAX_NEIGHBORS}"
proof -
  have d: "card (memb_used (neighbor_addr_mem s)) = length (nbr_table_keys s)"
    using distinct_card [OF nt_invD(5) [OF assms]] nt_invD(6) [OF assms] by simp
  have sub: "memb_used (neighbor_addr_mem s) \<subseteq> {..<NBR_TABLE_MAX_NEIGHBORS}"
    using memb_used_less [of _ "neighbor_addr_mem s"] nt_invD(3) [OF assms] by auto
  show ?thesis
  proof
    assume "pool_full s"
    then show "memb_used (neighbor_addr_mem s) = {..<NBR_TABLE_MAX_NEIGHBORS}"
      using card_subset_eq [OF finite_lessThan sub] d by (simp add: pool_full_def)
  next
    assume "memb_used (neighbor_addr_mem s) = {..<NBR_TABLE_MAX_NEIGHBORS}"
    then show "pool_full s" using d by (simp add: pool_full_def)
  qed
qed

lemma find_key: "find P ks = Some k \<Longrightarrow> k \<in> set ks"
  by (simp add: find_sound)

lemma policy_choice_cases:
  assumes "nt_inv s"
  shows "(\<exists>k s1. policy_choice p r d s = Some (Some k, s1) \<and> s1 = s\<lparr>locked_map := (locked_map s)[k := 0]\<rparr> \<and>
           k \<in> set (nbr_table_keys s) \<and> (\<forall>j. evicts p r d s j \<longleftrightarrow> j = k)) \<or>
         policy_choice p r d s = Some (None, s) \<and> (\<forall>j. evicts p r d s j \<longleftrightarrow> victim s (nbr_table_keys s) j) \<or>
         policy_choice p r d s = None \<and> (\<forall>j. \<not> evicts p r d s j)"
proof (cases "case p of None \<Rightarrow> None | Some f \<Rightarrow> f r d")
  case None
  then show ?thesis by (cases p) (auto simp: policy_choice_def evicts_def)
next
  case (Some a)
  then obtain f where f: "p = Some f" "f r d = Some a" by (cases p) auto
  show ?thesis
  proof (cases "key_of s a")
    case None
    then show ?thesis by (simp add: policy_choice_def evicts_def f index_from_lladdr_eq)
  next
    case (Some k)
    then have "k \<in> set (nbr_table_keys s)" by (simp add: key_of_def find_key)
    moreover have "locked_map s ! k = 0 \<Longrightarrow> (locked_map s)[k := 0] = locked_map s" by (metis list_update_id)
    ultimately show ?thesis using Some by (auto simp: policy_choice_def evicts_def f index_from_lladdr_eq)
  qed
qed

lemma victim_unlocked: "victim s ks k \<Longrightarrow> (locked_map s)[k := 0] = locked_map s"
  by (auto simp: victim_def) (metis list_update_id)

lemma allocate_spec:
  assumes inv: "nt_inv s" and al: "nbr_table_allocate p r d s = (res, s')"
  shows "if pool_full s
    then (case res of None \<Rightarrow> s' = s \<and> (\<forall>k. \<not> evicts p r d s k)
          | Some k \<Rightarrow> evicts p r d s k \<and> k \<in> set (nbr_table_keys s) \<and> s' = remove_key k (s\<lparr>locked_map := (locked_map s)[k := 0]\<rparr>))
    else (\<exists>k. res = Some k \<and> k \<notin> set (nbr_table_keys s) \<and> k < NBR_TABLE_MAX_NEIGHBORS \<and>
          s' = s\<lparr>neighbor_addr_mem := (neighbor_addr_mem s)\<lparr>mb_count := (mb_count (neighbor_addr_mem s))(k := 1)\<rparr>\<rparr>)"
proof (cases rule: memb_alloc_cases [of "neighbor_addr_mem s"])
  case full
  then have pf: "pool_full s" using pool_full_iff [OF inv] nt_invD(3) [OF inv] by simp
  have id: "s\<lparr>neighbor_addr_mem := neighbor_addr_mem s\<rparr> = s" by simp
  have loop: "case least_used_loop s (nbr_table_keys s) None 0 of
      None \<Rightarrow> \<forall>k. \<not> victim s (nbr_table_keys s) k | Some k \<Rightarrow> victim s (nbr_table_keys s) k \<and> k \<in> set (nbr_table_keys s)"
    using least_used_loop_None_iff [of s "nbr_table_keys s" 0] least_used_loop_victim [of s "nbr_table_keys s" 0]
    by (auto simp: victim_def dest: victim_key split: option.split)
  from policy_choice_cases [OF inv, of p r d] show ?thesis
  proof (elim disjE conjE exE)
    fix k s1
    assume "policy_choice p r d s = Some (Some k, s1)" "s1 = s\<lparr>locked_map := (locked_map s)[k := 0]\<rparr>"
      "k \<in> set (nbr_table_keys s)" "\<forall>j. evicts p r d s j \<longleftrightarrow> j = k"
    then show ?thesis using al pf by (auto simp: nbr_table_allocate_def full(1))
  next
    assume "policy_choice p r d s = Some (None, s)" "\<forall>j. evicts p r d s j \<longleftrightarrow> victim s (nbr_table_keys s) j"
    note ch = this
    show ?thesis
    proof (cases "least_used_loop s (nbr_table_keys s) None 0")
      case None
      then show ?thesis using al pf loop ch by (simp add: nbr_table_allocate_def full(1))
    next
      case (Some k)
      then have "res = Some k" "s' = remove_key k s" using al ch by (simp_all add: nbr_table_allocate_def full(1))
      moreover have "victim s (nbr_table_keys s) k" "k \<in> set (nbr_table_keys s)" using loop Some by simp_all
      ultimately show ?thesis using pf ch victim_unlocked [of s "nbr_table_keys s" k] by simp
    qed
  next
    assume "policy_choice p r d s = None" "\<forall>j. \<not> evicts p r d s j"
    then show ?thesis using al pf by (auto simp: nbr_table_allocate_def full(1))
  qed
next
  case (block k)
  then have "\<not> pool_full s" using pool_full_iff [OF inv] nt_invD(3) [OF inv] by auto
  then show ?thesis using block nt_invD(3,6) [OF inv] al by (auto simp: nbr_table_allocate_def)
qed

section \<open>Adding a neighbor\<close>

text \<open>The state \<open>s1\<close> in which block \<open>k\<close> has become the key of the address \<open>a\<close>, whatever it was before.\<close>

definition new_key :: "'a nbr_tables \<Rightarrow> nat \<Rightarrow> linkaddr \<Rightarrow> 'a nbr_tables \<Rightarrow> bool" where
  "new_key s k a s1 \<longleftrightarrow> k < NBR_TABLE_MAX_NEIGHBORS \<and> distinct (nbr_table_keys s1) \<and>
     set (nbr_table_keys s1) = insert k (set (nbr_table_keys s)) \<and>
     memb_used (neighbor_addr_mem s1) = insert k (set (nbr_table_keys s)) \<and> memb_inv (neighbor_addr_mem s1) \<and>
     mb_num (neighbor_addr_mem s1) = mb_num (neighbor_addr_mem s) \<and> key_addr s1 = (key_addr s)(k := a) \<and>
     used_map s1 = (used_map s)[k := 0] \<and> locked_map s1 = (locked_map s)[k := 0] \<and>
     tabs s1 = tabs s \<and> all_tables s1 = all_tables s \<and> num_tables s1 = num_tables s"

lemma key_addr_blk_upd: "is_linkaddr a \<Longrightarrow> mb_mem (blk_upd k (\<lambda>d. linkaddr_copy d a) m) = (mb_mem m)(k := a)"
  by (rule ext) simp

lemma allocate_new_key:
  assumes inv: "nt_inv s" and a: "is_linkaddr a" and al: "nbr_table_allocate p r d s = (Some k, s')"
  shows "new_key s k a (s'\<lparr>nbr_table_keys := alist_add k (nbr_table_keys s'),
    neighbor_addr_mem := blk_upd k (\<lambda>d. linkaddr_copy d a) (neighbor_addr_mem s')\<rparr>)"
proof (cases "pool_full s")
  case True
  then have k: "k \<in> set (nbr_table_keys s)" and s': "s' = remove_key k (s\<lparr>locked_map := (locked_map s)[k := 0]\<rparr>)"
    using allocate_spec [OF inv al] by simp_all
  have "k < NBR_TABLE_MAX_NEIGHBORS" using key_bound [OF inv k] .
  then show ?thesis
    using k nt_invD(4-6) [OF inv] unfolding new_key_def s' remove_key_def Let_def
    by (auto simp: key_addr_blk_upd [OF a] insert_absorb)
next
  case False
  then have k: "k \<notin> set (nbr_table_keys s)" "k < NBR_TABLE_MAX_NEIGHBORS"
    and s': "s' = s\<lparr>neighbor_addr_mem := (neighbor_addr_mem s)\<lparr>mb_count := (mb_count (neighbor_addr_mem s))(k := 1)\<rparr>\<rparr>"
    using allocate_spec [OF inv al] by auto
  have z: "(used_map s)[k := 0] = used_map s" "(locked_map s)[k := 0] = locked_map s"
    using nt_invD(7) [OF inv k(2,1)] by (metis list_update_id)+
  have u: "memb_used ((neighbor_addr_mem s)\<lparr>mb_count := (mb_count (neighbor_addr_mem s))(k := 1)\<rparr>)
      = insert k (set (nbr_table_keys s))" "memb_inv ((neighbor_addr_mem s)\<lparr>mb_count := (mb_count (neighbor_addr_mem s))(k := 1)\<rparr>)"
    using k(2) nt_invD(3,4,6) [OF inv] by (auto simp: memb_used_def memb_inv_def)
  show ?thesis
    using k nt_invD(5) [OF inv] u unfolding new_key_def s' by (simp add: key_addr_blk_upd [OF a] z)
qed

lemma new_key_inv:
  assumes inv: "nt_inv s" and n: "new_key s k a s1" and a: "is_linkaddr a" "key_of s a = None"
  shows "nt_inv s1"
proof -
  have "inj_on ((key_addr s)(k := a)) (insert k (set (nbr_table_keys s)))"
    using inv a key_of_None [OF inv a(1)] by (auto simp: nt_inv_def inj_on_def image_iff)
  then show ?thesis
    using inv n a(1) by (auto simp: nt_inv_def new_key_def nth_list_update fun_upd_def)
qed

lemma new_key_lookup:
  assumes inv: "nt_inv s" and n: "new_key s k a s1" and a: "is_linkaddr a" "key_of s a = None"
  shows "is_linkaddr b \<Longrightarrow> key_of s1 b = (if b = a then Some k else if key_of s b = Some k then None else key_of s b)"
    "uses s1 t j \<longleftrightarrow> j \<noteq> k \<and> uses s t j"
proof -
  note inv1 = new_key_inv [OF assms]
  show "uses s1 t j \<longleftrightarrow> j \<noteq> k \<and> uses s t j"
    using n inv by (auto simp: uses_def new_key_def nt_inv_def nth_list_update)
  assume b: "is_linkaddr b"
  show "key_of s1 b = (if b = a then Some k else if key_of s b = Some k then None else key_of s b)"
  proof (rule option_eqI)
    fix j
    show "key_of s1 b = Some j \<longleftrightarrow> (if b = a then Some k else if key_of s b = Some k then None else key_of s b) = Some j"
      using key_of_iff [OF inv1 b, of j] key_of_iff [OF inv b, of j] key_of_iff [OF inv b, of k] n a(2)
      by (auto simp: new_key_def key_of_iff [OF inv a(1)])
  qed
qed

text \<open>The last step of adding: the item is cleared and the used bit is set.\<close>

definition take_item :: "nat \<Rightarrow> nat \<Rightarrow> 'a nbr_tables \<Rightarrow> 'a nbr_tables" where
  "take_item t k s =
     (let s2 = tab_upd t (\<lambda>x. x\<lparr>nt_data := (nt_data x)(k := nt_zero x)\<rparr>) s
      in s2\<lparr>used_map := snd (nbr_set_bit (used_map s2) (Some t) (Some k) True s2)\<rparr>)"

lemma add_eq:
  "nbr_table_add_lladdr p t (Some a) r d s =
     (case key_of s a of
        Some k \<Rightarrow> (Some k, take_item t k s)
      | None \<Rightarrow>
          (case nbr_table_allocate p r d s of
             (None, s') \<Rightarrow> (None, s')
           | (Some k, s') \<Rightarrow> (Some k, take_item t k (s'\<lparr>nbr_table_keys := alist_add k (nbr_table_keys s'),
               neighbor_addr_mem := blk_upd k (\<lambda>d. linkaddr_copy d a) (neighbor_addr_mem s')\<rparr>))))"
proof (cases "key_of s a")
  case None
  then show ?thesis
    by (cases "nbr_table_allocate p r d s"; cases "fst (nbr_table_allocate p r d s)")
      (auto simp: nbr_table_add_lladdr_def index_from_lladdr_eq index_from_key_def take_item_def item_from_index_def Let_def)
next
  case (Some k)
  then show ?thesis
    by (simp add: nbr_table_add_lladdr_def index_from_lladdr_eq take_item_def item_from_index_def Let_def)
qed

lemma take_item_props:
  assumes inv: "nt_inv s" and t: "registered s t" and k: "k \<in> set (nbr_table_keys s)"
  shows "nt_inv (take_item t k s)" "key_of (take_item t k s) b = key_of s b"
    "registered s t' \<Longrightarrow> uses (take_item t k s) t' j \<longleftrightarrow> uses s t' j \<or> t' = t \<and> j = k"
    "nt_data (tabs (take_item t k s) t) k = nt_zero (tabs s t)"
proof -
  let ?s2 = "tab_upd t (\<lambda>x. x\<lparr>nt_data := (nt_data x)(k := nt_zero x)\<rparr>) s"
  have kb: "k < length (used_map ?s2)" using key_bound [OF inv k] nt_invD(1) [OF inv] by (simp add: tab_upd_def)
  have ti: "nat (nt_index (tabs ?s2 t)) < 8" using registered_index [OF inv t] by (simp add: tab_upd_def)
  have ix: "nt_index (tabs (take_item t k s) x) = nt_index (tabs s x)" for x
    by (simp add: take_item_def tab_upd_def Let_def)
  have u: "bit (used_map (take_item t k s) ! j) n \<longleftrightarrow> (if j = k \<and> n = nat (nt_index (tabs s t)) then True else bit (used_map s ! j) n)" for j n
    using bit_set_bit [OF kb ti, of True j n] by (simp add: take_item_def Let_def tab_upd_def)
  have same: "used_map (take_item t k s) ! j = used_map s ! j" if "j \<noteq> k" for j
    using that u by (intro bit_eqI) auto
  have rest: "length (used_map (take_item t k s)) = length (used_map s)" "locked_map (take_item t k s) = locked_map s"
    "all_tables (take_item t k s) = all_tables s" "neighbor_addr_mem (take_item t k s) = neighbor_addr_mem s"
    "nbr_table_keys (take_item t k s) = nbr_table_keys s" "num_tables (take_item t k s) = num_tables s"
    by (simp_all add: take_item_def tab_upd_def Let_def)
  have "used_map (take_item t k s) ! j = 0" if "j < NBR_TABLE_MAX_NEIGHBORS" "j \<notin> set (nbr_table_keys s)" for j
    using same [of j] nt_invD(7) [OF inv that] that k by auto
  then show "nt_inv (take_item t k s)"
    using inv unfolding nt_inv_def rest ix by blast
  show "key_of (take_item t k s) b = key_of s b"
    by (simp add: key_of_def take_item_def tab_upd_def Let_def)
  show "nt_data (tabs (take_item t k s) t) k = nt_zero (tabs s t)"
    by (simp add: take_item_def tab_upd_def Let_def)
  assume t': "registered s t'"
  have "t' = t" if "nat (nt_index (tabs s t')) = nat (nt_index (tabs s t))"
    using registered_index_inj [OF inv t' t that] .
  then show "uses (take_item t k s) t' j \<longleftrightarrow> uses s t' j \<or> t' = t \<and> j = k"
    by (auto simp: uses_def u ix)
qed

section \<open>The other operations\<close>

text \<open>States that agree on keys, addresses and tables, and whose maps respect the invariant, are both well-formed.\<close>

lemma nt_inv_maps:
  assumes inv: "nt_inv s" and len: "length u = length (used_map s)" "length l = length (locked_map s)"
    and z: "\<And>j. j \<notin> set (nbr_table_keys s) \<Longrightarrow> u ! j = used_map s ! j \<and> l ! j = locked_map s ! j"
  shows "nt_inv (s\<lparr>used_map := u, locked_map := l\<rparr>)"
  using inv len z unfolding nt_inv_def by auto

lemma set_bit_other: "j \<noteq> k \<Longrightarrow> snd (nbr_set_bit m (Some t) (Some k) v s) ! j = m ! j"
  by (simp add: set_bit_eq)

lemma find_tail: "distinct (pre @ k # post) \<Longrightarrow> drop 1 (dropWhile (\<lambda>x. x \<noteq> k) (pre @ k # post)) = post"
  by (induction pre) auto

lemma next_item_eq: "next_item (Some t) ks s = find (uses s t) ks"
  by (induction ks) (simp_all add: item_from_key_def item_from_index_def index_from_key_def get_bit_eq uses_def)

lemma nbr_table_head_eq: "nbr_table_head (Some t) s = find (uses s t) (nbr_table_keys s)"
proof (cases "nbr_table_keys s")
  case Nil
  then show ?thesis
    by (simp add: nbr_table_head_def item_from_key_def item_from_index_def index_from_key_def nbr_get_bit_def index_from_item_def
        nbr_table_next_def key_from_item_def key_from_index_def keys_after_def)
next
  case (Cons k ks)
  then show ?thesis
    by (simp add: nbr_table_head_def item_from_key_def item_from_index_def index_from_key_def get_bit_eq uses_def
        nbr_table_next_def key_from_item_def key_from_index_def index_from_item_def keys_after_def next_item_eq)
qed

lemma nbr_table_next_eq:
  assumes "distinct (nbr_table_keys s)" "nbr_table_keys s = pre @ k # post"
  shows "nbr_table_next (Some t) (Some k) s = find (uses s t) post"
  using find_tail [of pre k post] assms
  by (simp add: nbr_table_next_def key_from_item_def key_from_index_def index_from_item_def keys_after_def next_item_eq)

lemma remove_props:
  assumes inv: "nt_inv s" and t: "registered s t" and k: "k \<in> set (nbr_table_keys s)"
  defines "s' \<equiv> snd (nbr_table_remove (Some t) (Some k) s)"
  shows "nt_inv s'" "key_of s' = key_of s" "tabs s' = tabs s" "all_tables s' = all_tables s" "nbr_table_keys s' = nbr_table_keys s"
    "registered s t' \<Longrightarrow> uses s' t' j \<longleftrightarrow> uses s t' j \<and> (t' = t \<longrightarrow> j \<noteq> k)"
proof -
  let ?u = "snd (nbr_set_bit (used_map s) (Some t) (Some k) False s)"
  let ?l = "snd (nbr_set_bit (locked_map s) (Some t) (Some k) False s)"
  have s': "s' = s\<lparr>used_map := ?u, locked_map := ?l\<rparr>"
    by (simp add: s'_def nbr_table_remove_def set_bit_eq table_bit_def)
  have kb: "k < length (used_map s)" using key_bound [OF inv k] nt_invD(1) [OF inv] by simp
  have j: "?u ! j = used_map s ! j \<and> ?l ! j = locked_map s ! j" if "j \<notin> set (nbr_table_keys s)" for j
    using that k set_bit_other [of j k] by metis
  show "nt_inv s'" unfolding s' by (rule nt_inv_maps [OF inv]) (simp_all add: j)
  show "key_of s' = key_of s" by (rule ext) (simp add: key_of_def s')
  show "tabs s' = tabs s" "all_tables s' = all_tables s" "nbr_table_keys s' = nbr_table_keys s" by (simp_all add: s')
  assume t': "registered s t'"
  have "t' = t" if "nat (nt_index (tabs s t')) = nat (nt_index (tabs s t))"
    using registered_index_inj [OF inv t' t that] .
  then show "uses s' t' j \<longleftrightarrow> uses s t' j \<and> (t' = t \<longrightarrow> j \<noteq> k)"
    using bit_set_bit [OF kb registered_index(1) [OF inv t], of False j] by (auto simp: uses_def s')
qed

lemma register_eq:
  assumes "\<not> registered s x" "num_tables s < MAX_NUM_TABLES"
  shows "snd (nbr_table_register x cb s) = (tab_upd x (\<lambda>y. y\<lparr>nt_index := int (num_tables s), nt_callback := cb\<rparr>) s)
      \<lparr>all_tables := (all_tables s)[num_tables s := Some x], num_tables := num_tables s + 1\<rparr>"
  using assms by (simp add: nbr_table_register_def registered_def)

lemma register_inv:
  assumes inv: "nt_inv s" and x: "\<not> registered s x" "num_tables s < MAX_NUM_TABLES"
    and s'_def: "s' = snd (nbr_table_register x cb s)"
  shows "nt_inv s' \<and> registered s' x"
proof -
  let ?n = "num_tables s"
  note s' = s'_def [unfolded register_eq [OF x]]
  have all: "length (all_tables s) = MAX_NUM_TABLES" using inv by (simp add: nt_inv_def)
  have pos: "i < MAX_NUM_TABLES \<Longrightarrow> all_tables s ! i = Some y \<Longrightarrow> nt_index (tabs s y) = int i \<and> i < ?n" for i y
    using inv by (simp add: nt_inv_def)
  have nx: "all_tables s ! i \<noteq> Some x" if "i < MAX_NUM_TABLES" for i
    using pos [OF that] x(1) that by (auto simp: registered_def nbr_table_is_registered_def)
  have "nt_index (tabs s' y) = int i \<and> i < num_tables s'" if "i < MAX_NUM_TABLES" "all_tables s' ! i = Some y" for i y
    using that pos [of i y] nx [of i] all x(2) by (cases "i = ?n") (auto simp: s' tab_upd_def nth_list_update)
  then have "nt_inv s'" using inv x(2) unfolding nt_inv_def by (clarsimp simp: s' tab_upd_def)
  moreover have "registered s' x" using x(2) all by (simp add: s' tab_upd_def registered_def nbr_table_is_registered_def)
  ultimately show ?thesis by simp
qed

lemma register_props:
  assumes inv: "nt_inv s" and t: "registered s t" and x: "\<not> registered s x" "num_tables s < MAX_NUM_TABLES"
    and s'_def: "s' = snd (nbr_table_register x cb s)"
  shows "nt_inv s' \<and> registered s' x \<and> registered s' t \<and> lookup s' t b = lookup s t b"
proof -
  let ?n = "num_tables s"
  note s' = s'_def [unfolded register_eq [OF x]]
  have tx: "t \<noteq> x" using t x(1) by auto
  note ti = registered_index [OF inv t]
  have "nt_index (tabs s y) = int i \<and> i < ?n" if "i < MAX_NUM_TABLES" "all_tables s ! i = Some y" for i y
    using inv that by (simp add: nt_inv_def)
  from this [of "nat (nt_index (tabs s t))" t] have "nat (nt_index (tabs s t)) \<noteq> ?n" using ti by (auto simp: MAX_NUM_TABLES_def)
  then have "registered s' t" using t tx by (simp add: s' tab_upd_def registered_def nbr_table_is_registered_def)
  moreover have "lookup s' t b = lookup s t b" using tx by (intro lookup_cong) (simp_all add: key_of_def uses_def s' tab_upd_def)
  ultimately show ?thesis using register_inv [OF inv x s'_def] by simp
qed

section \<open>Properties\<close>

lemma add_known:
  assumes inv: "nt_inv s" and t: "registered s t" and a: "is_linkaddr a"
    and add: "nbr_table_add_lladdr p t (Some a) r d s = (res, s')"
    and Some: "key_of s a = Some k"
  shows "nt_inv s' \<and>
    (res = None \<longleftrightarrow> key_of s a = None \<and> pool_full s \<and> (\<forall>k. \<not> evicts p r d s k)) \<and> (res = None \<longrightarrow> s' = s) \<and>
    (\<forall>k. res = Some k \<longrightarrow> lookup s' t a = Some k \<and> nt_data (tabs s' t) k = nt_zero (tabs s t) \<and>
       (let evicted = key_of s a = None \<and> pool_full s in (evicted \<longrightarrow> evicts p r d s k) \<and>
       (\<forall>t' b. registered s t' \<longrightarrow> is_linkaddr b \<longrightarrow> (t', b) \<noteq> (t, a) \<longrightarrow>
          lookup s' t' b = (if evicted \<and> b = key_addr s k then None else lookup s t' b))))"
proof -
  have k: "k \<in> set (nbr_table_keys s)" "key_addr s k = a" using Some key_of_iff [OF inv a] by auto
  have r: "res = Some k" "s' = take_item t k s" using add Some by (auto simp: add_eq)
  note ti = take_item_props [OF inv t k(1)]
  have "lookup s' t' b = lookup s t' b" if "registered s t'" "is_linkaddr b" "(t', b) \<noteq> (t, a)" for t' b
  proof (cases "key_of s b")
    case (Some j)
    then have "t' = t \<Longrightarrow> j \<noteq> k" using that(3) k(2) key_of_iff [OF inv that(2)] by auto
    then show ?thesis using Some ti(2) ti(3) [OF that(1)] by (auto simp: lookup_eq r)
  qed (simp add: lookup_eq r ti(2))
  moreover have "lookup s' t a = Some k" using ti(2,3) t Some by (simp add: lookup_eq r)
  ultimately show ?thesis using Some ti(1,4) r by simp
qed

lemma add_new:
  assumes inv: "nt_inv s" and t: "registered s t" and a: "is_linkaddr a"
    and add: "nbr_table_add_lladdr p t (Some a) r d s = (res, s')"
    and None: "key_of s a = None"
  shows "nt_inv s' \<and>
    (res = None \<longleftrightarrow> key_of s a = None \<and> pool_full s \<and> (\<forall>k. \<not> evicts p r d s k)) \<and> (res = None \<longrightarrow> s' = s) \<and>
    (\<forall>k. res = Some k \<longrightarrow> lookup s' t a = Some k \<and> nt_data (tabs s' t) k = nt_zero (tabs s t) \<and>
       (let evicted = key_of s a = None \<and> pool_full s in (evicted \<longrightarrow> evicts p r d s k) \<and>
       (\<forall>t' b. registered s t' \<longrightarrow> is_linkaddr b \<longrightarrow> (t', b) \<noteq> (t, a) \<longrightarrow>
          lookup s' t' b = (if evicted \<and> b = key_addr s k then None else lookup s t' b))))"
proof -
  obtain res' s0 where al: "nbr_table_allocate p r d s = (res', s0)" by (cases "nbr_table_allocate p r d s")
  show ?thesis
  proof (cases res')
    case none: None
    then show ?thesis
      using allocate_spec [OF inv al] add None al inv by (auto simp: add_eq split: if_splits)
  next
    case (Some k)
    let ?s1 = "s0\<lparr>nbr_table_keys := alist_add k (nbr_table_keys s0),
               neighbor_addr_mem := blk_upd k (\<lambda>d. linkaddr_copy d a) (neighbor_addr_mem s0)\<rparr>"
    have nk: "new_key s k a ?s1" using allocate_new_key [OF inv a] al Some by blast
    note inv1 = new_key_inv [OF inv nk a None] and lk = new_key_lookup [OF inv nk a None]
    have r: "res = Some k" "s' = take_item t k ?s1" using add None al Some by (simp_all add: add_eq)
    have reg: "registered ?s1 x \<longleftrightarrow> registered s x" for x
      using nk by (simp add: registered_def nbr_table_is_registered_def new_key_def)
    have k1: "k \<in> set (nbr_table_keys ?s1)" and tabs: "tabs ?s1 = tabs s" using nk by (simp_all add: new_key_def)
    note ti = take_item_props [OF inv1 _ k1, unfolded reg, OF t]
    have ev: "pool_full s \<Longrightarrow> evicts p r d s k \<and> k \<in> set (nbr_table_keys s)"
      "\<not> pool_full s \<Longrightarrow> k \<notin> set (nbr_table_keys s)"
      using allocate_spec [OF inv al] Some by auto
    have "lookup s' t' b = (if pool_full s \<and> b = key_addr s k then None else lookup s t' b)"
      if "registered s t'" "is_linkaddr b" "(t', b) \<noteq> (t, a)" for t' b
    proof (cases "b = a")
      case True
      then have "t' \<noteq> t" "b \<noteq> key_addr s k \<or> \<not> pool_full s"
        using that(3) key_of_None [OF inv a] None ev(1) by auto
      then show ?thesis using True None ti(2) ti(3) [OF that(1)] lk(1) [OF that(2)] lk(2) by (auto simp: lookup_eq r)
    next
      case False
      have "key_of s b = Some k \<longleftrightarrow> pool_full s \<and> b = key_addr s k"
        using ev key_of_iff [OF inv that(2)] by auto
      then show ?thesis
        using False ti(2) ti(3) [OF that(1)] lk(1) [OF that(2)] lk(2)
        by (cases "key_of s b") (auto simp: lookup_eq r)
    qed
    moreover have "lookup s' t a = Some k" using ti(2,3) lk(1) [OF a] t by (simp add: lookup_eq r)
    ultimately show ?thesis using None r ti(1,4) tabs ev(1) by auto
  qed
qed

text \<open>C31. Adding a neighbor to a table: the table then finds it, with an item that is all zero, and every other lookup of every table
  is unchanged, except that a neighbor replaced by the new one is found by no table any more. A neighbor is replaced only if the
  pool is full and the address is new; it is the one the policy names or, without a policy (or if the policy names an unknown one),
  the oldest of the least used neighbors that are not locked. Adding fails, and then changes nothing, exactly if there is no such
  neighbor.\<close>

theorem nbr_table_add:
  assumes inv: "nt_inv s" and t: "registered s t" and a: "is_linkaddr a"
    and add: "nbr_table_add_lladdr p t (Some a) r d s = (res, s')"
  shows "nt_inv s' \<and>
    (res = None \<longleftrightarrow> key_of s a = None \<and> pool_full s \<and> (\<forall>k. \<not> evicts p r d s k)) \<and> (res = None \<longrightarrow> s' = s) \<and>
    (\<forall>k. res = Some k \<longrightarrow> lookup s' t a = Some k \<and> nt_data (tabs s' t) k = nt_zero (tabs s t) \<and>
       (let evicted = key_of s a = None \<and> pool_full s in (evicted \<longrightarrow> evicts p r d s k) \<and>
       (\<forall>t' b. registered s t' \<longrightarrow> is_linkaddr b \<longrightarrow> (t', b) \<noteq> (t, a) \<longrightarrow>
          lookup s' t' b = (if evicted \<and> b = key_addr s k then None else lookup s t' b))))"
  by (cases "key_of s a") (use add_known [OF inv t a add] add_new [OF inv t a add] in blast)+

text \<open>A pool and one table without neighbors.\<close>

definition empty_tables :: "nat nbr_tables" where
  "empty_tables = \<lparr>used_map = replicate 16 0, locked_map = replicate 16 0, all_tables = Some 0 # replicate 7 None, num_tables = 1,
     neighbor_addr_mem = \<lparr>mb_num = 16, mb_count = \<lambda>_. 0, mb_mem = \<lambda>_. []\<rparr>, nbr_table_keys = [],
     tabs = \<lambda>_. \<lparr>nt_index = 0, nt_callback = None, nt_data = \<lambda>_. 5, nt_zero = 0\<rparr>, removed_log = []\<rparr>"

lemma empty_tables_ok: "nt_inv empty_tables" "registered empty_tables 0"
  by (simp_all add: nt_inv_def empty_tables_def registered_def nbr_table_is_registered_def NBR_TABLE_MAX_NEIGHBORS_def
      MAX_NUM_TABLES_def memb_inv_def memb_used_def nth_Cons split: nat.split)

theorem nbr_table_add_witness:
  "nt_inv (snd (nbr_table_add_lladdr None 0 (Some [1, 2, 3, 4, 5, 6, 7, 8]) NBR_TABLE_REASON_SIXTOP None empty_tables)) \<and>
   lookup (snd (nbr_table_add_lladdr None 0 (Some [1, 2, 3, 4, 5, 6, 7, 8]) NBR_TABLE_REASON_SIXTOP None empty_tables)) 0
     [1, 2, 3, 4, 5, 6, 7, 8] = Some 0"
proof -
  let ?add = "nbr_table_add_lladdr None 0 (Some [1, 2, 3, 4, 5, 6, 7, 8]) NBR_TABLE_REASON_SIXTOP None empty_tables"
  have "fst ?add = Some 0" by code_simp
  then have "?add = (Some 0, snd ?add)" by (metis prod.collapse)
  moreover have "is_linkaddr [1, 2, 3, 4, 5, 6, 7, 8]" by (simp add: is_linkaddr_def LINKADDR_SIZE_def)
  ultimately show ?thesis using nbr_table_add [OF empty_tables_ok] by blast
qed


definition one_neighbor :: "nat nbr_tables" where
  "one_neighbor = empty_tables\<lparr>used_map := 1 # replicate 15 0, nbr_table_keys := [0],
     neighbor_addr_mem := \<lparr>mb_num = 16, mb_count = \<lambda>i. if i = 0 then 1 else 0, mb_mem = \<lambda>_. [1, 2, 3, 4, 5, 6, 7, 8]\<rparr>\<rparr>"

lemma one_neighbor_ok: "nt_inv one_neighbor" "registered one_neighbor 0"
  by (auto simp: nt_inv_def one_neighbor_def empty_tables_def registered_def nbr_table_is_registered_def NBR_TABLE_MAX_NEIGHBORS_def
      MAX_NUM_TABLES_def memb_inv_def memb_used_def is_linkaddr_def LINKADDR_SIZE_def nth_Cons split: nat.split)


end
