(* ===== verification/Frame802154.thy ===== *)
theory Frame802154
  imports Packetbuf
begin

text \<open>
  IEEE 802.15.4 frames, \<^verbatim>\<open>os/net/mac/framer/frame802154.c\<close> and the framer \<^verbatim>\<open>framer-802154.c\<close>, in the configuration of TSCH with
  link-layer security: frame version 2015, auxiliary security header with explicit keys, no frame counter, 8-byte addresses.

  The fields of the frame control field are bytes, as in C, although only one to three bits of each are sent. Header fields
  are written one after the other at a position in a memory; \<open>Fault\<close> is an access outside of it. The parser
  gets the memory from \<open>data\<close> on, which may be longer than \<open>len\<close>. The PAN identifier of the node is an argument.
\<close>

section \<open>Data\<close>

abbreviation (input) FRAME802154_BEACONFRAME :: u8 where "FRAME802154_BEACONFRAME \<equiv> 0"
abbreviation (input) FRAME802154_DATAFRAME :: u8 where "FRAME802154_DATAFRAME \<equiv> 1"
abbreviation (input) FRAME802154_ACKFRAME :: u8 where "FRAME802154_ACKFRAME \<equiv> 2"
abbreviation (input) FRAME802154_NOADDR :: u8 where "FRAME802154_NOADDR \<equiv> 0"
abbreviation (input) FRAME802154_SHORTADDRMODE :: u8 where "FRAME802154_SHORTADDRMODE \<equiv> 2"
abbreviation (input) FRAME802154_LONGADDRMODE :: u8 where "FRAME802154_LONGADDRMODE \<equiv> 3"
abbreviation (input) FRAME802154_BROADCASTPANDID :: u16 where "FRAME802154_BROADCASTPANDID \<equiv> 0xffff"
abbreviation (input) FRAME802154_IEEE802154_2015 :: u8 where "FRAME802154_IEEE802154_2015 \<equiv> 2"
abbreviation (input) FRAME802154_VERSION :: u8 where "FRAME802154_VERSION \<equiv> 2"
abbreviation (input) FRAME802154_SUPPR_SEQNO :: u8 where "FRAME802154_SUPPR_SEQNO \<equiv> 0"

record frame802154_fcf_t =
  frame_type :: u8
  security_enabled :: u8
  frame_pending :: u8
  ack_required :: u8
  panid_compression :: u8
  sequence_number_suppression :: u8
  ie_list_present :: u8
  dest_addr_mode :: u8
  frame_version :: u8
  src_addr_mode :: u8

record frame802154_scf_t =
  security_level :: u8
  key_id_mode :: u8
  frame_counter_suppression :: u8
  frame_counter_size :: u8

record frame802154_aux_hdr_t =
  security_control :: frame802154_scf_t
  frame_counter :: "u8 list"
  key_source :: "u8 list"
  key_index :: u8

text \<open>\<open>payload\<close> is an offset from the start of the parsed data.\<close>

record frame802154_t =
  dest_addr :: "u8 list"
  src_addr :: "u8 list"
  fcf :: frame802154_fcf_t
  seq :: u8
  dest_pid :: u16
  src_pid :: u16
  aux_hdr :: frame802154_aux_hdr_t
  payload :: nat
  payload_len :: int

record field_length_t =
  seqno_len :: nat
  dest_pid_len :: nat
  dest_addr_len :: nat
  src_pid_len :: nat
  src_addr_len :: nat
  aux_sec_len :: nat

section \<open>Lengths\<close>

definition addr_len :: "u8 \<Rightarrow> nat" where
  "addr_len mode = (if mode = FRAME802154_SHORTADDRMODE then 2 else if mode = FRAME802154_LONGADDRMODE then 8 else 0)"

definition get_key_id_len :: "u8 \<Rightarrow> nat" where
  "get_key_id_len mode = (if mode = 1 then 1 else if mode = 2 then 5 else if mode = 3 then 9 else 0)"

text \<open>The source and the destination flag; the NULL tests of the destinations are left to the callers.\<close>

definition frame802154_has_panid :: "frame802154_fcf_t \<Rightarrow> bool \<times> bool" where
  "frame802154_has_panid f =
     (let d = dest_addr_mode f; s = src_addr_mode f; c = panid_compression f in
      if frame_version f = FRAME802154_IEEE802154_2015 then
        (c = 0 \<and>
           (d = FRAME802154_NOADDR \<and> s = FRAME802154_LONGADDRMODE \<or>
            d = FRAME802154_NOADDR \<and> s = FRAME802154_SHORTADDRMODE \<or>
            d = FRAME802154_SHORTADDRMODE \<and> s = FRAME802154_SHORTADDRMODE \<or>
            d = FRAME802154_SHORTADDRMODE \<and> s = FRAME802154_LONGADDRMODE \<or>
            d = FRAME802154_LONGADDRMODE \<and> s = FRAME802154_SHORTADDRMODE),
         d = FRAME802154_NOADDR \<and> s = FRAME802154_NOADDR \<and> c = 1 \<or>
         d \<noteq> FRAME802154_NOADDR \<and> s = FRAME802154_NOADDR \<and> c = 0 \<or>
         d = FRAME802154_LONGADDRMODE \<and> s = FRAME802154_LONGADDRMODE \<and> c = 0 \<or>
         (d = FRAME802154_SHORTADDRMODE \<and> s \<noteq> FRAME802154_NOADDR \<or>
          d \<noteq> FRAME802154_NOADDR \<and> s = FRAME802154_SHORTADDRMODE))
      else if frame_type f \<noteq> FRAME802154_ACKFRAME then (c = 0 \<and> s AND 3 \<noteq> 0, d AND 3 \<noteq> 0)
      else (False, False))"

definition frame802154_check_dest_panid :: "u16 \<Rightarrow> frame802154_t option \<Rightarrow> bool" where
  "frame802154_check_dest_panid pan frame =
     (case frame of None \<Rightarrow> False
      | Some f \<Rightarrow> \<not> (snd (frame802154_has_panid (fcf f)) \<and>
          (dest_pid f \<noteq> pan \<and> dest_pid f \<noteq> FRAME802154_BROADCASTPANDID)))"

fun all_ff :: "nat \<Rightarrow> u8 list \<Rightarrow> bool" where
  "all_ff 0 a = True"
| "all_ff (Suc i) a = (if a ! i \<noteq> 0xff then False else all_ff i a)"

definition frame802154_is_broadcast_addr :: "u8 \<Rightarrow> u8 list \<Rightarrow> bool" where
  "frame802154_is_broadcast_addr mode a = all_ff (if mode = FRAME802154_SHORTADDRMODE then 2 else 8) a"

text \<open>One address: None if its length cannot be handled.\<close>

definition extract_addr :: "u8 \<Rightarrow> u8 list \<Rightarrow> linkaddr option" where
  "extract_addr mode a =
     (let len = (if mode \<noteq> 0 then if mode = FRAME802154_SHORTADDRMODE then 2 else 8 else 0) in
      if len = 0 \<or> frame802154_is_broadcast_addr mode a then Some (linkaddr_copy [] linkaddr_null)
      else if len \<noteq> LINKADDR_SIZE then None
      else Some (linkaddr_copy [] a))"

text \<open>The addresses are stored through non-NULL pointers; the source address is stored even if the destination address cannot be
  handled.\<close>

definition frame802154_extract_linkaddr ::
    "frame802154_t option \<Rightarrow> linkaddr \<Rightarrow> linkaddr \<Rightarrow> int \<times> linkaddr \<times> linkaddr" where
  "frame802154_extract_linkaddr frame source dest =
     (case frame of None \<Rightarrow> (0, source, dest)
      | Some f \<Rightarrow>
          (case extract_addr (src_addr_mode (fcf f)) (src_addr f) of
             None \<Rightarrow> (0, source, dest)
           | Some s \<Rightarrow>
               (case extract_addr (dest_addr_mode (fcf f)) (dest_addr f) of
                  None \<Rightarrow> (0, s, dest)
                | Some d \<Rightarrow> (1, s, d))))"

definition field_len :: "frame802154_t \<Rightarrow> frame802154_t \<times> field_length_t" where
  "field_len p =
     (let f0 = fcf p;
          f = (if frame_version f0 < FRAME802154_IEEE802154_2015
               then f0\<lparr>panid_compression :=
                      (if dest_addr_mode f0 AND 3 \<noteq> 0 \<and> src_addr_mode f0 AND 3 \<noteq> 0 \<and> src_pid p = dest_pid p then 1 else 0)\<rparr>
               else f0);
          (has_src, has_dest) = frame802154_has_panid f;
          sc = security_control (aux_hdr p)
      in (p\<lparr>fcf := f\<rparr>,
          \<lparr>seqno_len = (if sequence_number_suppression f AND 1 = 0 then 1 else 0),
           dest_pid_len = (if has_dest then 2 else 0),
           dest_addr_len = addr_len (dest_addr_mode f AND 3),
           src_pid_len = (if has_src then 2 else 0),
           src_addr_len = addr_len (src_addr_mode f AND 3),
           aux_sec_len =
             (if security_enabled f AND 1 \<noteq> 0
              then 1 + (if frame_counter_suppression sc = 0 then if frame_counter_size sc = 1 then 5 else 4 else 0)
                     + get_key_id_len (key_id_mode sc)
              else 0)\<rparr>))"

definition frame802154_hdrlen :: "frame802154_t \<Rightarrow> nat \<times> frame802154_t" where
  "frame802154_hdrlen p =
     (let (p1, l) = field_len p
      in (2 + seqno_len l + dest_pid_len l + dest_addr_len l + src_pid_len l + src_addr_len l + aux_sec_len l, p1))"

section \<open>Creating\<close>

definition fcf_bytes :: "frame802154_fcf_t \<Rightarrow> u8 list" where
  "fcf_bytes f =
     [(frame_type f AND 7) OR push_bit 3 (security_enabled f AND 1) OR push_bit 4 (frame_pending f AND 1) OR
        push_bit 5 (ack_required f AND 1) OR push_bit 6 (panid_compression f AND 1),
      (sequence_number_suppression f AND 1) OR push_bit 1 (ie_list_present f AND 1) OR push_bit 2 (dest_addr_mode f AND 3) OR
        push_bit 4 (frame_version f AND 3) OR push_bit 6 (src_addr_mode f AND 3)]"

definition frame802154_create_fcf :: "frame802154_fcf_t \<Rightarrow> nat \<Rightarrow> u8 list \<Rightarrow> u8 list outcome" where
  "frame802154_create_fcf f buf mem = mem_write buf (fcf_bytes f) mem"

text \<open>Writing at the current position and moving it; an address is written with its bytes reversed.\<close>

definition put_bytes :: "u8 list \<Rightarrow> nat \<times> u8 list \<Rightarrow> (nat \<times> u8 list) outcome" where
  "put_bytes bs st = obind (mem_write (fst st) bs (snd st)) (\<lambda>m. Done (fst st + length bs, m))"

definition put_addr :: "nat \<Rightarrow> u8 list \<Rightarrow> nat \<times> u8 list \<Rightarrow> (nat \<times> u8 list) outcome" where
  "put_addr n a st = obind (mem_read 0 n a) (\<lambda>bs. put_bytes (rev bs) st)"

definition scf_byte :: "frame802154_scf_t \<Rightarrow> u8" where
  "scf_byte sc = security_level sc OR push_bit 3 (key_id_mode sc) OR push_bit 5 (frame_counter_suppression sc) OR
     push_bit 6 (frame_counter_size sc)"

definition put_aux :: "frame802154_aux_hdr_t \<Rightarrow> nat \<times> u8 list \<Rightarrow> (nat \<times> u8 list) outcome" where
  "put_aux aux st =
     (let sc = security_control aux in
      obind (put_bytes [scf_byte sc] st) (\<lambda>s1.
      obind (if frame_counter_suppression sc = 0 then
               obind (mem_read 0 4 (frame_counter aux)) (\<lambda>fc.
               obind (put_bytes fc s1) (\<lambda>s2.
               Done (if frame_counter_size sc = 1 then (fst s2 + 1, snd s2) else s2)))
             else Done s1) (\<lambda>s3.
      if key_id_mode sc \<noteq> 0 then
        obind (mem_read 0 ((unat (key_id_mode sc) - 1) * 4) (key_source aux)) (\<lambda>ks.
        obind (put_bytes ks s3) (put_bytes [key_index aux]))
      else Done s3)))"

definition frame802154_create :: "frame802154_t \<Rightarrow> nat \<Rightarrow> u8 list \<Rightarrow> (nat \<times> frame802154_t \<times> u8 list) outcome" where
  "frame802154_create p0 buf mem =
     (let (p, l) = field_len p0 in
      obind (frame802154_create_fcf (fcf p) buf mem) (\<lambda>m.
      obind (if seqno_len l = 1 then put_bytes [seq p] (buf + 2, m) else Done (buf + 2, m)) (\<lambda>s1.
      obind (if dest_pid_len l = 2 then put_bytes (write16 (dest_pid p)) s1 else Done s1) (\<lambda>s2.
      obind (put_addr (dest_addr_len l) (dest_addr p) s2) (\<lambda>s3.
      obind (if src_pid_len l = 2 then put_bytes (write16 (src_pid p)) s3 else Done s3) (\<lambda>s4.
      obind (put_addr (src_addr_len l) (src_addr p) s4) (\<lambda>s5.
      obind (if aux_sec_len l \<noteq> 0 then put_aux (aux_hdr p) s5 else Done s5) (\<lambda>s6.
      Done (fst s6 - buf, p, snd s6)))))))))"

section \<open>Parsing\<close>

definition frame802154_parse_fcf :: "u8 list \<Rightarrow> frame802154_fcf_t" where
  "frame802154_parse_fcf d =
     \<lparr>frame_type = d ! 0 AND 7, security_enabled = drop_bit 3 (d ! 0) AND 1, frame_pending = drop_bit 4 (d ! 0) AND 1,
      ack_required = drop_bit 5 (d ! 0) AND 1, panid_compression = drop_bit 6 (d ! 0) AND 1,
      sequence_number_suppression = d ! 1 AND 1, ie_list_present = drop_bit 1 (d ! 1) AND 1,
      dest_addr_mode = drop_bit 2 (d ! 1) AND 3, frame_version = drop_bit 4 (d ! 1) AND 3,
      src_addr_mode = drop_bit 6 (d ! 1) AND 3\<rparr>"

text \<open>One address in the frame at position \<open>p\<close>, with the old value of the field.\<close>

definition get_addr :: "u8 \<Rightarrow> nat \<Rightarrow> u8 list \<Rightarrow> u8 list \<Rightarrow> (nat \<times> u8 list) outcome" where
  "get_addr mode p old mem =
     (if mode = FRAME802154_SHORTADDRMODE then
        obind (mem_read p 2 mem) (\<lambda>b. Done (p + 2, [b ! 1, b ! 0] @ drop 2 (linkaddr_copy old linkaddr_null)))
      else if mode = FRAME802154_LONGADDRMODE then
        obind (mem_read p 8 mem) (\<lambda>b. Done (p + 8, rev b))
      else Done (p, old))"

definition get_dest :: "bool \<Rightarrow> nat \<Rightarrow> frame802154_t \<Rightarrow> u8 list \<Rightarrow> (nat \<times> frame802154_t) outcome" where
  "get_dest has_dest p pf mem =
     (if dest_addr_mode (fcf pf) \<noteq> 0 then
        obind (if has_dest then obind (mem_read p 2 mem) (\<lambda>b. Done (p + 2, read16 (b ! 0) (b ! 1))) else Done (p, 0)) (\<lambda>(q, pid).
        obind (get_addr (dest_addr_mode (fcf pf)) q (dest_addr pf) mem) (\<lambda>(q', a).
        Done (q', pf\<lparr>dest_pid := pid, dest_addr := a\<rparr>)))
      else Done (p, pf\<lparr>dest_addr := linkaddr_copy (dest_addr pf) linkaddr_null, dest_pid := 0\<rparr>))"

definition get_src :: "bool \<Rightarrow> bool \<Rightarrow> nat \<Rightarrow> frame802154_t \<Rightarrow> u8 list \<Rightarrow> (nat \<times> frame802154_t) outcome" where
  "get_src has_src has_dest p pf mem =
     (if src_addr_mode (fcf pf) \<noteq> 0 then
        obind (if has_src
               then obind (mem_read p 2 mem) (\<lambda>b.
                      let pid = read16 (b ! 0) (b ! 1)
                      in Done (p + 2, pf\<lparr>src_pid := pid, dest_pid := (if has_dest then dest_pid pf else pid)\<rparr>))
               else Done (p, pf\<lparr>src_pid := dest_pid pf\<rparr>)) (\<lambda>(q, pf1).
        obind (get_addr (src_addr_mode (fcf pf1)) q (src_addr pf1) mem) (\<lambda>(q', a).
        Done (q', pf1\<lparr>src_addr := a\<rparr>)))
      else Done (p, pf\<lparr>src_addr := linkaddr_copy (src_addr pf) linkaddr_null, src_pid := 0\<rparr>))"

definition get_aux :: "nat \<Rightarrow> frame802154_aux_hdr_t \<Rightarrow> u8 list \<Rightarrow> (nat \<times> frame802154_aux_hdr_t) outcome" where
  "get_aux p aux mem =
     obind (mem_read p 1 mem) (\<lambda>b.
       let sc = \<lparr>security_level = b ! 0 AND 7, key_id_mode = drop_bit 3 (b ! 0) AND 3,
                 frame_counter_suppression = drop_bit 5 (b ! 0), frame_counter_size = drop_bit 6 (b ! 0)\<rparr>;
           aux1 = aux\<lparr>security_control := sc\<rparr>
       in obind (if frame_counter_suppression sc = 0 then
                   obind (mem_read (p + 1) 4 mem) (\<lambda>fc.
                   Done (if frame_counter_size sc = 1 then p + 1 + 4 + 1 else p + 1 + 4, aux1\<lparr>frame_counter := fc\<rparr>))
                 else Done (p + 1, aux1)) (\<lambda>(q, aux2).
          if key_id_mode sc \<noteq> 0 then
            (let c = (unat (key_id_mode sc) - 1) * 4 in
             obind (mem_read q c mem) (\<lambda>ks.
             obind (mem_write 0 ks (key_source aux2)) (\<lambda>src.
             obind (mem_read (q + c) 1 mem) (\<lambda>ki.
             Done (q + c + 1, aux2\<lparr>key_source := src, key_index := ki ! 0\<rparr>)))))
          else Done (q, aux2)))"

definition frame802154_parse :: "u8 list \<Rightarrow> int \<Rightarrow> frame802154_t \<Rightarrow> (nat \<times> frame802154_t) outcome" where
  "frame802154_parse mem len pf0 =
     (if len < 2 then Done (0, pf0)
      else
        obind (mem_read 0 2 mem) (\<lambda>d.
          let f = frame802154_parse_fcf d;
              pf1 = pf0\<lparr>fcf := f\<rparr>;
              (has_src, has_dest) = frame802154_has_panid f
          in obind (if sequence_number_suppression f = 0
                    then obind (mem_read 2 1 mem) (\<lambda>b. Done (3, pf1\<lparr>seq := b ! 0\<rparr>)) else Done (2, pf1)) (\<lambda>(p2, pf2).
             obind (get_dest has_dest p2 pf2 mem) (\<lambda>(p3, pf3).
             obind (get_src has_src has_dest p3 pf3 mem) (\<lambda>(p4, pf4).
             obind (if security_enabled f \<noteq> 0
                    then obind (get_aux p4 (aux_hdr pf4) mem) (\<lambda>(q, a). Done (q, pf4\<lparr>aux_hdr := a\<rparr>))
                    else Done (p4, pf4)) (\<lambda>(c, pf5).
             Done (if int c > len then 0 else c, pf5\<lparr>payload_len := len - int c, payload := c\<rparr>)))))))"

end
