(* ===== verification/FrameProps.thy ===== *)
theory FrameProps
  imports Frame802154
begin

text \<open>Properties of the 802.15.4 frame headers: the length computed beforehand is the length written, and the parser
  reads back what was written; the two kinds of headers for which it does not.\<close>

section \<open>Frame control field\<close>

text \<open>The bits that are sent.\<close>

definition fcf_sent :: "frame802154_fcf_t \<Rightarrow> frame802154_fcf_t" where
  "fcf_sent f = \<lparr>frame_type = frame_type f AND 7, security_enabled = security_enabled f AND 1, frame_pending = frame_pending f AND 1,
     ack_required = ack_required f AND 1, panid_compression = panid_compression f AND 1,
     sequence_number_suppression = sequence_number_suppression f AND 1, ie_list_present = ie_list_present f AND 1,
     dest_addr_mode = dest_addr_mode f AND 3, frame_version = frame_version f AND 3, src_addr_mode = src_addr_mode f AND 3\<rparr>"

definition fcf_ok :: "frame802154_fcf_t \<Rightarrow> bool" where
  "fcf_ok f \<longleftrightarrow> fcf_sent f = f"

text \<open>Fields packed side by side are recovered by shifting and masking.\<close>

lemma packed_fields:
  fixes x :: u8
  shows "j + l \<le> k \<Longrightarrow> drop_bit k (push_bit j (take_bit l x)) = 0" "l \<le> k \<Longrightarrow> drop_bit k (take_bit l x) = 0"
    "k + m \<le> j \<Longrightarrow> take_bit m (drop_bit k (push_bit j x)) = 0" "m \<le> j \<Longrightarrow> take_bit m (push_bit j x) = 0"
    "k + m \<le> 8 \<Longrightarrow> take_bit m (drop_bit k (push_bit k (take_bit m x))) = take_bit m x"
  by (rule bit_word_eqI; auto simp: bit_drop_bit_eq bit_push_bit_iff bit_take_bit_iff)+

lemmas packed = take_bit_or drop_bit_or packed_fields take_bit_of_0 or.right_neutral or.left_neutral take_bit_take_bit min.idem

lemma packed_first:
  fixes a b c d e :: u8
  defines "w \<equiv> take_bit 3 a OR push_bit 3 (take_bit 1 b) OR push_bit 4 (take_bit 1 c) OR push_bit 5 (take_bit 1 d) OR push_bit 6 (take_bit 1 e)"
  shows "take_bit 3 w = take_bit 3 a" "take_bit 1 (drop_bit 3 w) = take_bit 1 b" "take_bit 1 (drop_bit 4 w) = take_bit 1 c"
    "take_bit 1 (drop_bit 5 w) = take_bit 1 d" "take_bit 1 (drop_bit 6 w) = take_bit 1 e"
  unfolding w_def by (simp_all add: packed del: One_nat_def)

lemma packed_second:
  fixes a b c d e :: u8
  defines "w \<equiv> take_bit 1 a OR push_bit 1 (take_bit 1 b) OR push_bit 2 (take_bit 2 c) OR push_bit 4 (take_bit 2 d) OR push_bit 6 (take_bit 2 e)"
  shows "take_bit 1 w = take_bit 1 a" "take_bit 1 (drop_bit 1 w) = take_bit 1 b" "take_bit 2 (drop_bit 2 w) = take_bit 2 c"
    "take_bit 2 (drop_bit 4 w) = take_bit 2 d" "take_bit 2 (drop_bit 6 w) = take_bit 2 e"
  unfolding w_def by (simp_all add: packed del: One_nat_def)

lemma fcf_roundtrip: "frame802154_parse_fcf (fcf_bytes f) = fcf_sent f"
proof -
  have "[x, y] ! 1 = y" for x y :: u8 by simp
  then show ?thesis
    by (simp only: frame802154_parse_fcf_def fcf_bytes_def fcf_sent_def byte_simps nth_Cons_0 packed_first packed_second)
qed

section \<open>Creating\<close>

definition frame_ok :: "frame802154_t \<Rightarrow> bool" where
  "frame_ok p \<longleftrightarrow> length (dest_addr p) = 8 \<and> length (src_addr p) = 8 \<and> length (frame_counter (aux_hdr p)) = 4 \<and>
     length (key_source (aux_hdr p)) = 8 \<and> fcf_ok (fcf p) \<and> dest_addr_mode (fcf p) \<noteq> 1 \<and> src_addr_mode (fcf p) \<noteq> 1 \<and>
     (security_enabled (fcf p) \<noteq> 0 \<longrightarrow>
        security_level (security_control (aux_hdr p)) AND 7 = security_level (security_control (aux_hdr p)) \<and>
        key_id_mode (security_control (aux_hdr p)) AND 3 = key_id_mode (security_control (aux_hdr p)) \<and>
        frame_counter_suppression (security_control (aux_hdr p)) \<in> {0, 1} \<and>
        frame_counter_size (security_control (aux_hdr p)) \<in> {0, 1})"

definition aux_bytes :: "frame802154_aux_hdr_t \<Rightarrow> u8 list" where
  "aux_bytes aux = (let sc = security_control aux in
     [scf_byte sc] @ (if frame_counter_suppression sc = 0 then frame_counter aux else []) @
     (if key_id_mode sc \<noteq> 0 then take ((unat (key_id_mode sc) - 1) * 4) (key_source aux) @ [key_index aux] else []))"

definition hdr_bytes :: "frame802154_t \<Rightarrow> u8 list" where
  "hdr_bytes p = (let (has_src, has_dest) = frame802154_has_panid (fcf p) in
     fcf_bytes (fcf p) @ (if sequence_number_suppression (fcf p) = 0 then [seq p] else []) @
     (if has_dest then write16 (dest_pid p) else []) @ rev (take (addr_len (dest_addr_mode (fcf p))) (dest_addr p)) @
     (if has_src then write16 (src_pid p) else []) @ rev (take (addr_len (src_addr_mode (fcf p))) (src_addr p)) @
     (if security_enabled (fcf p) \<noteq> 0 then aux_bytes (aux_hdr p) else []))"

lemma put_next:
  "buf + length acc + length bs \<le> length mem \<Longrightarrow>
   put_bytes bs (buf + length acc, put_at buf acc mem) = Done (buf + length (acc @ bs), put_at buf (acc @ bs) mem)"
  by (simp add: put_bytes_def mem_write_put_at put_at_put_at)

lemma put_next_if:
  "buf + length acc + length bs \<le> length mem \<Longrightarrow>
   (if c then put_bytes bs (buf + length acc, put_at buf acc mem) else Done (buf + length acc, put_at buf acc mem)) =
   Done (buf + length (acc @ (if c then bs else [])), put_at buf (acc @ (if c then bs else [])) mem)"
  by (simp add: put_next)

lemma put_next_addr:
  assumes "n \<le> length a" "buf + length acc + n \<le> length mem"
  shows "put_addr n a (buf + length acc, put_at buf acc mem) =
     Done (buf + length (acc @ rev (take n a)), put_at buf (acc @ rev (take n a)) mem)"
proof -
  have "length (rev (take n a)) = n" using assms(1) by simp
  then show ?thesis using assms put_next [of buf acc "rev (take n a)" mem] by (simp add: put_addr_def mem_read_def)
qed

lemma fcf_ok_masks:
  assumes "fcf_ok f"
  shows "dest_addr_mode f AND 3 = dest_addr_mode f" "src_addr_mode f AND 3 = src_addr_mode f"
    "security_enabled f AND 1 = security_enabled f" "sequence_number_suppression f AND 1 = sequence_number_suppression f"
    "panid_compression f AND 1 = panid_compression f"
  using assms by (cases f; simp add: fcf_ok_def fcf_sent_def)+

lemma fcf_ok_compression: "fcf_ok f \<Longrightarrow> c = 0 \<or> c = 1 \<Longrightarrow> fcf_ok (f\<lparr>panid_compression := c\<rparr>)"
  by (cases f) (auto simp: fcf_ok_def fcf_sent_def)

lemma addr_len_le: "addr_len m \<le> 8"
  by (simp add: addr_len_def)

lemma take_bit_fix_less: "take_bit k (w :: u8) = w \<Longrightarrow> unat w < 2 ^ k"
  by (metis unsigned_take_bit_eq take_bit_nat_less_exp)

lemma and_mask_le: "(w :: u8) AND 3 = w \<Longrightarrow> unat w \<le> 3" "(w :: u8) AND 7 = w \<Longrightarrow> unat w \<le> 7" "(w :: u8) AND 1 = w \<Longrightarrow> unat w \<le> 1"
  using take_bit_fix_less [of 2 w] take_bit_fix_less [of 3 w] take_bit_fix_less [of 1 w] by (auto simp: and_3 and_7 and_1)

lemma upto_3_cases:
  assumes "(w :: u8) AND 3 = w"
  shows "w = 0 \<or> w = 1 \<or> w = 2 \<or> w = 3"
proof -
  have "unat w = 0 \<or> unat w = 1 \<or> unat w = 2 \<or> unat w = 3" using and_mask_le(1) [OF assms] by linarith
  then show ?thesis by (auto simp: word_unat_eq_iff)
qed

text \<open>Five-byte frame counters: the only headers with a byte that is skipped.\<close>

definition skips_byte :: "frame802154_t \<Rightarrow> bool" where
  "skips_byte p \<longleftrightarrow> security_enabled (fcf p) \<noteq> 0 \<and> frame_counter_suppression (security_control (aux_hdr p)) = 0 \<and>
     frame_counter_size (security_control (aux_hdr p)) = 1"

lemma field_len_frame:
  assumes "frame_ok p0" "field_len p0 = (p, l)"
  shows "frame_ok p" "aux_hdr p = aux_hdr p0" "security_enabled (fcf p) = security_enabled (fcf p0)" "dest_addr p = dest_addr p0"
    "src_addr p = src_addr p0" "seq p = seq p0" "dest_pid p = dest_pid p0" "src_pid p = src_pid p0"
proof -
  obtain c where c: "c = panid_compression (fcf p0) \<or> c = 0 \<or> c = 1" "p = p0\<lparr>fcf := (fcf p0)\<lparr>panid_compression := c\<rparr>\<rparr>"
  proof
    show "p = p0\<lparr>fcf := (fcf p0)\<lparr>panid_compression := panid_compression (fcf p)\<rparr>\<rparr>"
      "panid_compression (fcf p) = panid_compression (fcf p0) \<or> panid_compression (fcf p) = 0 \<or> panid_compression (fcf p) = 1"
      using assms(2) by (auto simp: field_len_def Let_def split: prod.splits)
  qed
  have "fcf_ok ((fcf p0)\<lparr>panid_compression := c\<rparr>)"
    using c(1) assms(1) fcf_ok_compression [of "fcf p0" c] by (auto simp: frame_ok_def)
  then show "frame_ok p" using assms(1) by (simp add: frame_ok_def c(2))
  show "aux_hdr p = aux_hdr p0" "security_enabled (fcf p) = security_enabled (fcf p0)" "dest_addr p = dest_addr p0"
    "src_addr p = src_addr p0" "seq p = seq p0" "dest_pid p = dest_pid p0" "src_pid p = src_pid p0"
    by (simp_all add: c(2))
qed

lemma field_len_lengths:
  assumes "frame_ok p0" "field_len p0 = (p, l)"
  shows "seqno_len l = (if sequence_number_suppression (fcf p) = 0 then 1 else 0)"
    "dest_pid_len l = (if snd (frame802154_has_panid (fcf p)) then 2 else 0)"
    "dest_addr_len l = addr_len (dest_addr_mode (fcf p))"
    "src_pid_len l = (if fst (frame802154_has_panid (fcf p)) then 2 else 0)"
    "src_addr_len l = addr_len (src_addr_mode (fcf p))"
    "aux_sec_len l = (if security_enabled (fcf p) \<noteq> 0 then
       1 + (if frame_counter_suppression (security_control (aux_hdr p)) = 0
            then if frame_counter_size (security_control (aux_hdr p)) = 1 then 5 else 4 else 0)
         + get_key_id_len (key_id_mode (security_control (aux_hdr p))) else 0)"
proof -
  have "fcf_ok (fcf p)" using field_len_frame(1) [OF assms] by (simp add: frame_ok_def)
  note m = fcf_ok_masks [OF this]
  show "seqno_len l = (if sequence_number_suppression (fcf p) = 0 then 1 else 0)"
    "dest_pid_len l = (if snd (frame802154_has_panid (fcf p)) then 2 else 0)"
    "dest_addr_len l = addr_len (dest_addr_mode (fcf p))"
    "src_pid_len l = (if fst (frame802154_has_panid (fcf p)) then 2 else 0)"
    "src_addr_len l = addr_len (src_addr_mode (fcf p))"
    "aux_sec_len l = (if security_enabled (fcf p) \<noteq> 0 then
       1 + (if frame_counter_suppression (security_control (aux_hdr p)) = 0
            then if frame_counter_size (security_control (aux_hdr p)) = 1 then 5 else 4 else 0)
         + get_key_id_len (key_id_mode (security_control (aux_hdr p))) else 0)"
    using assms(2) m by (auto simp: field_len_def Let_def split: prod.splits)
qed

lemma key_len:
  assumes "(m :: u8) AND 3 = m"
  shows "m \<noteq> 0 \<Longrightarrow> get_key_id_len m = (unat m - 1) * 4 + 1" "m \<noteq> 0 \<Longrightarrow> (unat m - 1) * 4 \<le> 8" "m = 0 \<Longrightarrow> get_key_id_len m = 0"
  using upto_3_cases [OF assms] by (auto simp: get_key_id_len_def)

lemma length_aux_bytes:
  assumes "frame_ok p" "security_enabled (fcf p) \<noteq> 0"
  shows "length (aux_bytes (aux_hdr p)) = 1 + (if frame_counter_suppression (security_control (aux_hdr p)) = 0 then 4 else 0)
    + get_key_id_len (key_id_mode (security_control (aux_hdr p)))"
  using assms key_len [of "key_id_mode (security_control (aux_hdr p))"]
  by (auto simp: aux_bytes_def frame_ok_def Let_def min_def)

lemma hdr_length:
  assumes "frame_ok p0" "field_len p0 = (p, l)" "\<not> skips_byte p"
  shows "fst (frame802154_hdrlen p0) = length (hdr_bytes p)"
proof -
  note ok = field_len_frame(1) [OF assms(1,2)] and len = field_len_lengths [OF assms(1,2)]
  have "length (take (addr_len (dest_addr_mode (fcf p))) (dest_addr p)) = addr_len (dest_addr_mode (fcf p))"
    "length (take (addr_len (src_addr_mode (fcf p))) (src_addr p)) = addr_len (src_addr_mode (fcf p))"
    using ok addr_len_le by (simp_all add: frame_ok_def)
  then show ?thesis
    using assms(3) length_aux_bytes [OF ok]
    by (auto simp: frame802154_hdrlen_def assms(2) len hdr_bytes_def fcf_bytes_def split_def Let_def skips_byte_def simp del: length_take)
qed

lemma put_next_aux:
  assumes "frame_ok p" "security_enabled (fcf p) \<noteq> 0" "\<not> skips_byte p" "buf + length acc + length (aux_bytes (aux_hdr p)) \<le> length mem"
  shows "put_aux (aux_hdr p) (buf + length acc, put_at buf acc mem) =
    Done (buf + length (acc @ aux_bytes (aux_hdr p)), put_at buf (acc @ aux_bytes (aux_hdr p)) mem)"
proof -
  let ?a = "aux_hdr p" let ?sc = "security_control ?a"
  let ?fc = "if frame_counter_suppression ?sc = 0 then frame_counter ?a else []"
  let ?k = "if key_id_mode ?sc \<noteq> 0 then take ((unat (key_id_mode ?sc) - 1) * 4) (key_source ?a) else []"
  have ok: "length (frame_counter ?a) = 4" "length (key_source ?a) = 8" "key_id_mode ?sc AND 3 = key_id_mode ?sc"
    using assms(1,2) by (simp_all add: frame_ok_def)
  have r: "mem_read 0 4 (frame_counter ?a) = Done (frame_counter ?a)"
    "key_id_mode ?sc \<noteq> 0 \<Longrightarrow> mem_read 0 ((unat (key_id_mode ?sc) - 1) * 4) (key_source ?a) = Done ?k"
    using ok key_len(2) [OF ok(3)] by (simp_all add: mem_read_def)
  have ab: "aux_bytes ?a = [scf_byte ?sc] @ ?fc @ (if key_id_mode ?sc \<noteq> 0 then ?k @ [key_index ?a] else [])"
    by (simp add: aux_bytes_def Let_def)
  have l: "buf + length acc + (1 + length ?fc + (if key_id_mode ?sc \<noteq> 0 then length ?k + 1 else 0)) \<le> length mem"
    using assms(4) unfolding ab by (simp split: if_splits)
  have 1: "put_bytes [scf_byte ?sc] (buf + length acc, put_at buf acc mem) =
      Done (buf + length (acc @ [scf_byte ?sc]), put_at buf (acc @ [scf_byte ?sc]) mem)"
    using l by (intro put_next) simp
  let ?a1 = "acc @ [scf_byte ?sc]"
  have 2: "(if frame_counter_suppression ?sc = 0 then
               obind (mem_read 0 4 (frame_counter ?a)) (\<lambda>fc.
               obind (put_bytes fc (buf + length ?a1, put_at buf ?a1 mem)) (\<lambda>s2.
               Done (if frame_counter_size ?sc = 1 then (fst s2 + 1, snd s2) else s2)))
             else Done (buf + length ?a1, put_at buf ?a1 mem)) = Done (buf + length (?a1 @ ?fc), put_at buf (?a1 @ ?fc) mem)"
    using l assms(2,3) put_next [of buf ?a1 "frame_counter ?a" mem] by (auto simp: r(1) skips_byte_def)
  let ?a2 = "?a1 @ ?fc"
  have 3: "obind (put_bytes ?k (buf + length ?a2, put_at buf ?a2 mem)) (put_bytes [key_index ?a]) =
      Done (buf + length (?a2 @ ?k @ [key_index ?a]), put_at buf (?a2 @ ?k @ [key_index ?a]) mem)" if "key_id_mode ?sc \<noteq> 0"
    using l that put_next [of buf ?a2 ?k mem] put_next [of buf "?a2 @ ?k" "[key_index ?a]" mem] by simp
  show ?thesis
    unfolding put_aux_def Let_def 1 obind.simps 2 using r(2) 3 by (cases "key_id_mode ?sc = 0") (simp_all add: ab)
qed

lemma create_eq:
  assumes ok0: "frame_ok p0" and fl: "field_len p0 = (p, l)" and skip: "\<not> skips_byte p"
    and fits: "buf + length (hdr_bytes p) \<le> length mem"
  shows "frame802154_create p0 buf mem = Done (length (hdr_bytes p), p, put_at buf (hdr_bytes p) mem)"
proof -
  note ok = field_len_frame(1) [OF ok0 fl] and len = field_len_lengths [OF ok0 fl]
  obtain has_s hd where h: "frame802154_has_panid (fcf p) = (has_s, hd)" by (cases "frame802154_has_panid (fcf p)")
  let ?b1 = "fcf_bytes (fcf p)" let ?b2 = "if sequence_number_suppression (fcf p) = 0 then [seq p] else []"
  let ?b3 = "if hd then write16 (dest_pid p) else []" let ?b4 = "rev (take (addr_len (dest_addr_mode (fcf p))) (dest_addr p))"
  let ?b5 = "if has_s then write16 (src_pid p) else []" let ?b6 = "rev (take (addr_len (src_addr_mode (fcf p))) (src_addr p))"
  let ?b7 = "if security_enabled (fcf p) \<noteq> 0 then aux_bytes (aux_hdr p) else []"
  have hb: "hdr_bytes p = ?b1 @ ?b2 @ ?b3 @ ?b4 @ ?b5 @ ?b6 @ ?b7" by (simp add: hdr_bytes_def h)
  have al: "addr_len (dest_addr_mode (fcf p)) \<le> length (dest_addr p)" "addr_len (src_addr_mode (fcf p)) \<le> length (src_addr p)"
    using ok addr_len_le by (simp_all add: frame_ok_def)
  have l: "buf + length ?b1 + length ?b2 + length ?b3 + length ?b4 + length ?b5 + length ?b6 + length ?b7 \<le> length mem"
    using fits unfolding hb length_append by linarith
  have b4: "length ?b4 = addr_len (dest_addr_mode (fcf p))" "length ?b6 = addr_len (src_addr_mode (fcf p))" using al by simp_all
  have s1: "frame802154_create_fcf (fcf p) buf mem = Done (put_at buf ?b1 mem)" "buf + 2 = buf + length ?b1"
    using l by (simp_all add: frame802154_create_fcf_def mem_write_put_at fcf_bytes_def)
  have s2: "(if seqno_len l = 1 then put_bytes [seq p] (buf + length ?b1, put_at buf ?b1 mem) else Done (buf + length ?b1, put_at buf ?b1 mem))
      = Done (buf + length (?b1 @ ?b2), put_at buf (?b1 @ ?b2) mem)"
    using l put_next_if [of buf ?b1 "[seq p]" mem "sequence_number_suppression (fcf p) = 0"] len(1) by (auto split: if_splits)
  let ?a2 = "?b1 @ ?b2"
  have s3: "(if dest_pid_len l = 2 then put_bytes (write16 (dest_pid p)) (buf + length ?a2, put_at buf ?a2 mem)
      else Done (buf + length ?a2, put_at buf ?a2 mem)) = Done (buf + length (?a2 @ ?b3), put_at buf (?a2 @ ?b3) mem)"
    using l put_next_if [of buf ?a2 "write16 (dest_pid p)" mem hd] len(2) h by (auto split: if_splits)
  let ?a3 = "?a2 @ ?b3"
  have s4: "put_addr (dest_addr_len l) (dest_addr p) (buf + length ?a3, put_at buf ?a3 mem) = Done (buf + length (?a3 @ ?b4), put_at buf (?a3 @ ?b4) mem)"
    unfolding len(3) using al(1) l b4(1) by (intro put_next_addr) (simp_all del: length_rev length_take)
  let ?a4 = "?a3 @ ?b4"
  have s5: "(if src_pid_len l = 2 then put_bytes (write16 (src_pid p)) (buf + length ?a4, put_at buf ?a4 mem)
      else Done (buf + length ?a4, put_at buf ?a4 mem)) = Done (buf + length (?a4 @ ?b5), put_at buf (?a4 @ ?b5) mem)"
    using l put_next_if [of buf ?a4 "write16 (src_pid p)" mem has_s] len(4) h by (auto split: if_splits)
  let ?a5 = "?a4 @ ?b5"
  have s6: "put_addr (src_addr_len l) (src_addr p) (buf + length ?a5, put_at buf ?a5 mem) = Done (buf + length (?a5 @ ?b6), put_at buf (?a5 @ ?b6) mem)"
    unfolding len(5) using al(2) l b4(2) by (intro put_next_addr) (simp_all del: length_rev length_take)
  let ?a6 = "?a5 @ ?b6"
  have s7: "(if aux_sec_len l \<noteq> 0 then put_aux (aux_hdr p) (buf + length ?a6, put_at buf ?a6 mem) else Done (buf + length ?a6, put_at buf ?a6 mem))
      = Done (buf + length (?a6 @ ?b7), put_at buf (?a6 @ ?b7) mem)"
    using l put_next_aux [OF ok _ skip, of buf ?a6 mem] len(6) by (cases "security_enabled (fcf p) = 0") (simp_all del: length_rev length_take)
  show ?thesis
    unfolding frame802154_create_def fl Let_def prod.case s1 obind.simps s2 s3 s4 s5 s6 s7 by (simp add: hb)
qed

section \<open>Parsing\<close>

text \<open>What a receiver sees of the header of \<open>p\<close>; \<open>old\<close> is the previous content of its structure.\<close>

definition recv_addr :: "u8 \<Rightarrow> u8 list \<Rightarrow> u8 list" where
  "recv_addr mode a = (if mode = FRAME802154_SHORTADDRMODE then take 2 a @ replicate 6 0
     else if mode = FRAME802154_LONGADDRMODE then a else linkaddr_null)"

definition recv_aux :: "frame802154_aux_hdr_t \<Rightarrow> frame802154_aux_hdr_t \<Rightarrow> frame802154_aux_hdr_t" where
  "recv_aux a old =
     (let sc = security_control a; c = (unat (key_id_mode sc) - 1) * 4 in
      \<lparr>security_control = sc\<lparr>frame_counter_suppression := frame_counter_suppression sc OR push_bit 1 (frame_counter_size sc)\<rparr>,
       frame_counter = (if frame_counter_suppression sc = 0 then frame_counter a else frame_counter old),
       key_source = (if key_id_mode sc = 0 then key_source old else take c (key_source a) @ drop c (key_source old)),
       key_index = (if key_id_mode sc = 0 then key_index old else key_index a)\<rparr>)"

definition received :: "frame802154_t \<Rightarrow> int \<Rightarrow> frame802154_t \<Rightarrow> frame802154_t" where
  "received p len old =
     (let (has_s, hd) = frame802154_has_panid (fcf p); n = length (hdr_bytes p);
          dpid = (if dest_addr_mode (fcf p) \<noteq> 0 \<and> hd then dest_pid p else 0)
      in \<lparr>dest_addr = recv_addr (dest_addr_mode (fcf p)) (dest_addr p),
          src_addr = recv_addr (src_addr_mode (fcf p)) (src_addr p),
          fcf = fcf p, seq = (if sequence_number_suppression (fcf p) = 0 then seq p else seq old),
          dest_pid = (if src_addr_mode (fcf p) \<noteq> 0 \<and> has_s \<and> \<not> hd then src_pid p else dpid),
          src_pid = (if src_addr_mode (fcf p) = 0 then 0 else if has_s then src_pid p else dpid),
          aux_hdr = (if security_enabled (fcf p) \<noteq> 0 then recv_aux (aux_hdr p) (aux_hdr old) else aux_hdr old),
          payload = n, payload_len = len - int n\<rparr>)"

lemma get_addr_eq:
  assumes "length a = 8" "has_at mem q (rev (take (addr_len mode) a))" "mode \<in> {0, 2, 3}"
  shows "get_addr mode q old mem = Done (q + addr_len mode, if mode = 0 then old else recv_addr mode a)"
proof -
  consider "mode = 0" | "mode = 2" | "mode = 3" using assms(3) by blast
  then show ?thesis
  proof cases
    case 2
    obtain x y r where a: "a = x # y # r" using assms(1) by (cases a; cases "tl a") auto
    have "mem_read q 2 mem = Done [y, x]" using 2 assms(2) mem_read_at [of mem q "[y, x]" q 0 2] by (simp add: addr_len_def a)
    then show ?thesis using 2 by (simp add: get_addr_def recv_addr_def addr_len_def a linkaddr_copy_def linkaddr_null_def LINKADDR_SIZE_def)
  next
    case 3
    have "mem_read q 8 mem = Done (rev a)" using 3 assms(1,2) mem_read_at [of mem q "rev a" q 0 8] by (simp add: addr_len_def)
    then show ?thesis using 3 by (simp add: get_addr_def recv_addr_def addr_len_def)
  qed (simp add: get_addr_def addr_len_def)
qed

lemma scf_roundtrip:
  assumes "security_level sc AND 7 = security_level sc" "key_id_mode sc AND 3 = key_id_mode sc"
    "frame_counter_suppression sc \<in> {0, 1}" "frame_counter_size sc \<in> {0, 1}"
  shows "scf_byte sc AND 7 = security_level sc" "drop_bit 3 (scf_byte sc) AND 3 = key_id_mode sc"
    "drop_bit 5 (scf_byte sc) = frame_counter_suppression sc OR push_bit 1 (frame_counter_size sc)"
    "drop_bit 6 (scf_byte sc) = frame_counter_size sc"
proof -
  let ?l = "security_level sc" let ?k = "key_id_mode sc" let ?s = "frame_counter_suppression sc" let ?z = "frame_counter_size sc"
  have t: "take_bit 3 ?l = ?l" "take_bit 2 ?k = ?k" "take_bit 1 ?s = ?s" "take_bit 1 ?z = ?z"
    using assms by (auto simp: and_7 and_3)
  have w: "scf_byte sc = take_bit 3 ?l OR push_bit 3 (take_bit 2 ?k) OR push_bit 5 (take_bit 1 ?s) OR push_bit 6 (take_bit 1 ?z)"
    unfolding t scf_byte_def ..
  show "scf_byte sc AND 7 = ?l" unfolding and_7 w by (simp add: packed t(1) del: One_nat_def)
  have "drop_bit 3 (scf_byte sc) AND 3 = take_bit 2 ?k" unfolding and_3 w by (simp add: packed del: One_nat_def)
  then show "drop_bit 3 (scf_byte sc) AND 3 = ?k" using t(2) by simp
  show "drop_bit 6 (scf_byte sc) = ?z" unfolding w using assms(3,4) by (auto simp: packed)
  show "drop_bit 5 (scf_byte sc) = ?s OR push_bit 1 ?z" unfolding w using assms(3,4) by (auto simp: packed)
qed

lemma get_aux_eq:
  assumes ok: "frame_ok p" "security_enabled (fcf p) \<noteq> 0" "\<not> skips_byte p" and at: "has_at mem q (aux_bytes (aux_hdr p))"
    and old: "length (key_source old) = 8"
  shows "get_aux q old mem = Done (q + length (aux_bytes (aux_hdr p)), recv_aux (aux_hdr p) old)"
proof -
  let ?a = "aux_hdr p" let ?sc = "security_control ?a" let ?c = "(unat (key_id_mode ?sc) - 1) * 4"
  let ?fc = "if frame_counter_suppression ?sc = 0 then frame_counter ?a else []"
  let ?k = "if key_id_mode ?sc \<noteq> 0 then take ?c (key_source ?a) @ [key_index ?a] else []"
  have f: "length (frame_counter ?a) = 4" "length (key_source ?a) = 8" "key_id_mode ?sc AND 3 = key_id_mode ?sc"
    using ok(1,2) by (simp_all add: frame_ok_def)
  have sc: "scf_byte ?sc AND 7 = security_level ?sc" "drop_bit 3 (scf_byte ?sc) AND 3 = key_id_mode ?sc"
    "drop_bit 5 (scf_byte ?sc) = frame_counter_suppression ?sc OR push_bit 1 (frame_counter_size ?sc)"
    "drop_bit 6 (scf_byte ?sc) = frame_counter_size ?sc"
    using ok(1,2) scf_roundtrip [of ?sc] by (simp_all add: frame_ok_def)
  have z: "frame_counter_suppression ?sc OR push_bit 1 (frame_counter_size ?sc) = 0 \<longleftrightarrow> frame_counter_suppression ?sc = 0"
    "frame_counter_suppression ?sc = 0 \<Longrightarrow> frame_counter_size ?sc = 0"
    using ok by (auto simp: frame_ok_def skips_byte_def)
  have "has_at mem q ([scf_byte ?sc] @ ?fc @ ?k)" using at by (simp add: aux_bytes_def Let_def split: if_splits)
  then have h: "has_at mem q [scf_byte ?sc]" "has_at mem (q + 1) ?fc" "has_at mem (q + 1 + length ?fc) ?k"
    unfolding has_at_append by simp_all
  have r1: "mem_read q 1 mem = Done [scf_byte ?sc]" using mem_read_at [OF h(1), of q 0 1] by simp
  have r2: "frame_counter_suppression ?sc = 0 \<Longrightarrow> mem_read (q + 1) 4 mem = Done (frame_counter ?a)"
    using mem_read_at [OF h(2), of "q + 1" 0 4] f(1) by simp
  define q2 where "q2 = q + 1 + length ?fc"
  have c8: "key_id_mode ?sc \<noteq> 0 \<Longrightarrow> ?c \<le> 8" using key_len(2) [OF f(3)] .
  have r3: "mem_read q2 ?c mem = Done (take ?c (key_source ?a))" "mem_read (q2 + ?c) 1 mem = Done [key_index ?a]"
    "mem_write 0 (take ?c (key_source ?a)) (key_source old) = Done (take ?c (key_source ?a) @ drop ?c (key_source old))"
    if "key_id_mode ?sc \<noteq> 0"
    using mem_read_at [OF h(3), of q2 0 ?c] mem_read_at [OF h(3), of "q2 + ?c" ?c 1] that c8 f(2) old
    by (simp_all add: q2_def mem_write_def)
  have len: "q + length (aux_bytes ?a) = (if key_id_mode ?sc \<noteq> 0 then q2 + ?c + 1 else q2)"
    using c8 f(2) by (auto simp: aux_bytes_def Let_def q2_def)
  have rec: "\<lparr>security_level = scf_byte ?sc AND 7, key_id_mode = drop_bit 3 (scf_byte ?sc) AND 3,
      frame_counter_suppression = drop_bit 5 (scf_byte ?sc), frame_counter_size = drop_bit 6 (scf_byte ?sc)\<rparr>
      = ?sc\<lparr>frame_counter_suppression := frame_counter_suppression ?sc OR push_bit 1 (frame_counter_size ?sc)\<rparr>"
    unfolding sc by simp
  show ?thesis
    unfolding len get_aux_def r1 obind.simps nth_Cons_0 rec
    using r2 r3 z f(1)
    by (cases "key_id_mode ?sc = 0"; cases "frame_counter_suppression ?sc = 0")
      (simp_all add: recv_aux_def Let_def q2_def)
qed

text \<open>Headers with a destination PAN identifier but no destination address: the parser does not look for it.\<close>

definition pan_without_addr :: "frame802154_t \<Rightarrow> bool" where
  "pan_without_addr p \<longleftrightarrow> snd (frame802154_has_panid (fcf p)) \<and> dest_addr_mode (fcf p) = 0"

lemma read16_bytes: "has_at mem q (write16 v) \<Longrightarrow> obind (mem_read q 2 mem) (\<lambda>b. f (read16 (b ! 0) (b ! Suc 0))) = f v"
  using mem_read_at [of mem q "write16 v" q 0 2] by simp

lemma get_dest_eq:
  assumes a: "length a = 8" "dest_addr_mode (fcf pf) \<in> {0, 2, 3}" "has_d \<longrightarrow> dest_addr_mode (fcf pf) \<noteq> 0"
    and h: "has_at mem q ((if has_d then write16 pid else []) @ rev (take (addr_len (dest_addr_mode (fcf pf))) a))"
  shows "get_dest has_d q pf mem = Done (q + (if has_d then 2 else 0) + addr_len (dest_addr_mode (fcf pf)),
    pf\<lparr>dest_pid := (if dest_addr_mode (fcf pf) \<noteq> 0 \<and> has_d then pid else 0), dest_addr := recv_addr (dest_addr_mode (fcf pf)) a\<rparr>)"
proof (cases "dest_addr_mode (fcf pf) = 0")
  case True
  then show ?thesis using a(3) by (simp add: get_dest_def recv_addr_def addr_len_def)
next
  case False
  let ?q = "q + (if has_d then 2 else 0)"
  have h2: "has_d \<Longrightarrow> has_at mem q (write16 pid)" "has_at mem ?q (rev (take (addr_len (dest_addr_mode (fcf pf))) a))"
    using h unfolding has_at_append by (auto split: if_splits)
  have "(if has_d then obind (mem_read q 2 mem) (\<lambda>b. Done (q + 2, read16 (b ! 0) (b ! 1))) else Done (q, 0)) =
      Done (?q, if dest_addr_mode (fcf pf) \<noteq> 0 \<and> has_d then pid else 0)"
    using read16_bytes [OF h2(1), of "\<lambda>v. Done (q + 2, v)"] False by simp
  then show ?thesis
    using get_addr_eq [OF a(1) h2(2) a(2)] False by (simp add: get_dest_def)
qed

lemma get_src_eq:
  assumes a: "length a = 8" "src_addr_mode (fcf pf) \<in> {0, 2, 3}" "has_s \<longrightarrow> src_addr_mode (fcf pf) \<noteq> 0"
    and h: "has_at mem q ((if has_s then write16 pid else []) @ rev (take (addr_len (src_addr_mode (fcf pf))) a))"
  shows "get_src has_s has_d q pf mem = Done (q + (if has_s then 2 else 0) + addr_len (src_addr_mode (fcf pf)),
    pf\<lparr>src_pid := (if src_addr_mode (fcf pf) = 0 then 0 else if has_s then pid else dest_pid pf),
       dest_pid := (if src_addr_mode (fcf pf) \<noteq> 0 \<and> has_s \<and> \<not> has_d then pid else dest_pid pf),
       src_addr := recv_addr (src_addr_mode (fcf pf)) a\<rparr>)"
proof (cases "src_addr_mode (fcf pf) = 0")
  case True
  then show ?thesis using a(3) by (simp add: get_src_def recv_addr_def addr_len_def)
next
  case False
  let ?q = "q + (if has_s then 2 else 0)"
  have h2: "has_s \<Longrightarrow> has_at mem q (write16 pid)" "has_at mem ?q (rev (take (addr_len (src_addr_mode (fcf pf))) a))"
    using h unfolding has_at_append by (auto split: if_splits)
  have "(if has_s then obind (mem_read q 2 mem) (\<lambda>b. let pid = read16 (b ! 0) (b ! 1)
            in Done (q + 2, pf\<lparr>src_pid := pid, dest_pid := (if has_d then dest_pid pf else pid)\<rparr>))
          else Done (q, pf\<lparr>src_pid := dest_pid pf\<rparr>)) =
      Done (?q, pf\<lparr>src_pid := (if has_s then pid else dest_pid pf), dest_pid := (if has_s \<and> \<not> has_d then pid else dest_pid pf)\<rparr>)"
    using read16_bytes [OF h2(1), of "\<lambda>v. Done (q + 2, pf\<lparr>src_pid := v, dest_pid := (if has_d then dest_pid pf else v)\<rparr>)"]
    by (simp add: Let_def)
  then show ?thesis
    using get_addr_eq [OF a(1) h2(2) a(2)] False by (simp add: get_src_def)
qed

lemma src_panid_addr: "fcf_ok f \<Longrightarrow> fst (frame802154_has_panid f) \<longrightarrow> src_addr_mode f \<noteq> 0"
  by (auto simp: frame802154_has_panid_def Let_def split: if_splits)

lemma has_at_pieces:
  "has_at mem 0 (b1 @ b2 @ b3 @ b4 @ b5) \<Longrightarrow> has_at mem 0 b1 \<and> has_at mem (length b1) b2 \<and> has_at mem (length b1 + length b2) b3 \<and>
   has_at mem (length b1 + length b2 + length b3) b4 \<and> has_at mem (length b1 + length b2 + length b3 + length b4) b5"
  by (simp add: has_at_append add.assoc)

lemma parse_eq:
  assumes ok: "frame_ok p" and bad: "\<not> skips_byte p" "\<not> pan_without_addr p"
    and at: "has_at mem 0 (hdr_bytes p)" and len: "int (length (hdr_bytes p)) \<le> len" and old: "length (key_source (aux_hdr old)) = 8"
  shows "frame802154_parse mem len old = Done (length (hdr_bytes p), received p len old)"
proof -
  let ?f = "fcf p"
  obtain has_s has_d where h: "frame802154_has_panid ?f = (has_s, has_d)" by (cases "frame802154_has_panid ?f")
  let ?b2 = "if sequence_number_suppression ?f = 0 then [seq p] else []"
  let ?b3 = "if has_d then write16 (dest_pid p) else []" let ?b4 = "rev (take (addr_len (dest_addr_mode ?f)) (dest_addr p))"
  let ?b5 = "if has_s then write16 (src_pid p) else []" let ?b6 = "rev (take (addr_len (src_addr_mode ?f)) (src_addr p))"
  let ?b7 = "if security_enabled ?f \<noteq> 0 then aux_bytes (aux_hdr p) else []"
  have hb: "hdr_bytes p = fcf_bytes ?f @ ?b2 @ (?b3 @ ?b4) @ (?b5 @ ?b6) @ ?b7" by (simp add: hdr_bytes_def h)
  have fok: "fcf_ok ?f" using ok by (simp add: frame_ok_def)
  note m = fcf_ok_masks [OF fok]
  have modes: "dest_addr_mode ?f \<in> {0, 2, 3}" "src_addr_mode ?f \<in> {0, 2, 3}"
    using upto_3_cases [OF m(1)] upto_3_cases [OF m(2)] ok by (auto simp: frame_ok_def)
  have la: "length ?b4 = addr_len (dest_addr_mode ?f)" "length ?b6 = addr_len (src_addr_mode ?f)"
    using ok addr_len_le by (simp_all add: frame_ok_def)
  define q2 where "q2 = 2 + length ?b2"
  define q3 where "q3 = q2 + (if has_d then 2 else 0) + addr_len (dest_addr_mode ?f)"
  define q4 where "q4 = q3 + (if has_s then 2 else 0) + addr_len (src_addr_mode ?f)"
  have l2: "length (fcf_bytes ?f) = 2" by (simp add: fcf_bytes_def)
  have at2: "has_at mem 0 (fcf_bytes ?f)" "has_at mem 2 ?b2" "has_at mem q2 (?b3 @ ?b4)" "has_at mem q3 (?b5 @ ?b6)" "has_at mem q4 ?b7"
  proof -
    have q: "2 + length ?b2 = q2" "q2 + length (?b3 @ ?b4) = q3" "q3 + length (?b5 @ ?b6) = q4"
      unfolding length_append la q2_def q3_def q4_def by simp_all
    from has_at_pieces [OF at [unfolded hb]]
    show "has_at mem 0 (fcf_bytes ?f)" "has_at mem 2 ?b2" "has_at mem q2 (?b3 @ ?b4)" "has_at mem q3 (?b5 @ ?b6)" "has_at mem q4 ?b7"
      unfolding l2 q by blast+
  qed
  have r1: "mem_read 0 2 mem = Done (fcf_bytes ?f)" using mem_read_at [OF at2(1), of 0 0 2] by (simp add: l2)
  have pf: "frame802154_parse_fcf (fcf_bytes ?f) = ?f" using fok by (simp add: fcf_roundtrip fcf_ok_def)
  let ?o1 = "old\<lparr>fcf := ?f\<rparr>"
  let ?o2 = "?o1\<lparr>seq := (if sequence_number_suppression ?f = 0 then seq p else seq old)\<rparr>"
  have s2: "(if sequence_number_suppression ?f = 0 then obind (mem_read 2 1 mem) (\<lambda>b. Done (3, ?o1\<lparr>seq := b ! 0\<rparr>)) else Done (2, ?o1))
      = Done (q2, ?o2)"
    using mem_read_at [OF at2(2), of 2 0 1] by (simp add: q2_def)
  let ?dp = "if dest_addr_mode ?f \<noteq> 0 \<and> has_d then dest_pid p else 0"
  let ?o3 = "?o2\<lparr>dest_pid := ?dp, dest_addr := recv_addr (dest_addr_mode ?f) (dest_addr p)\<rparr>"
  have s3: "get_dest has_d q2 ?o2 mem = Done (q3, ?o3)"
    using get_dest_eq [of "dest_addr p" ?o2 has_d mem q2 "dest_pid p"] ok modes(1) bad(2) h at2(3)
    by (simp add: frame_ok_def pan_without_addr_def q3_def)
  let ?o4 = "?o3\<lparr>src_pid := (if src_addr_mode ?f = 0 then 0 else if has_s then src_pid p else ?dp),
     dest_pid := (if src_addr_mode ?f \<noteq> 0 \<and> has_s \<and> \<not> has_d then src_pid p else ?dp), src_addr := recv_addr (src_addr_mode ?f) (src_addr p)\<rparr>"
  have s4: "get_src has_s has_d q3 ?o3 mem = Done (q4, ?o4)"
    using get_src_eq [of "src_addr p" ?o3 has_s mem q3 "src_pid p" has_d] ok modes(2) h at2(4) src_panid_addr [OF fok]
    by (simp add: frame_ok_def q4_def)
  have n: "length (hdr_bytes p) = q4 + length ?b7"
    unfolding hb length_append la l2 q2_def q3_def q4_def by simp
  let ?ra = "if security_enabled ?f \<noteq> 0 then recv_aux (aux_hdr p) (aux_hdr old) else aux_hdr old"
  have s5: "(if security_enabled ?f \<noteq> 0 then obind (get_aux q4 (aux_hdr o4) mem) (\<lambda>(q, a). Done (q, o4\<lparr>aux_hdr := a\<rparr>)) else Done (q4, o4))
      = Done (length (hdr_bytes p), o4\<lparr>aux_hdr := ?ra\<rparr>)" if "aux_hdr o4 = aux_hdr old" for o4
  proof (cases "security_enabled ?f = 0")
    case True
    then have "o4\<lparr>aux_hdr := aux_hdr old\<rparr> = o4" using that by (cases o4) simp
    then show ?thesis using True n by simp
  next
    case False
    then have "get_aux q4 (aux_hdr old) mem = Done (length (hdr_bytes p), recv_aux (aux_hdr p) (aux_hdr old))"
      using get_aux_eq [OF ok _ bad(1), of mem q4 "aux_hdr old"] at2(5) old n by simp
    then show ?thesis using False that by simp
  qed
  have a4: "aux_hdr ?o4 = aux_hdr old" by simp
  let ?o5 = "?o4\<lparr>aux_hdr := ?ra\<rparr>"
  have "\<not> len < 2" using len unfolding hb by (simp add: l2)
  then have "frame802154_parse mem len old = Done (length (hdr_bytes p),
      ?o5\<lparr>payload_len := len - int (length (hdr_bytes p)), payload := length (hdr_bytes p)\<rparr>)"
    unfolding frame802154_parse_def r1 obind.simps pf Let_def h prod.case s2 s3 s4 s5 [OF a4] using len by simp
  then show ?thesis by (cases old) (simp add: received_def h Let_def)
qed

section \<open>Properties\<close>

lemma exceptions_field_len:
  assumes "frame_ok p0" "field_len p0 = (p, l)"
  shows "skips_byte p \<longleftrightarrow> skips_byte p0" "pan_without_addr p \<longleftrightarrow> pan_without_addr p0"
proof -
  show "skips_byte p \<longleftrightarrow> skips_byte p0" using field_len_frame(2,3) [OF assms] by (simp add: skips_byte_def)
  have "fst (field_len p0) = p" using assms(2) by simp
  then have p: "fcf p = (if frame_version (fcf p0) < 2 then (fcf p0)\<lparr>panid_compression :=
      (if dest_addr_mode (fcf p0) AND 3 \<noteq> 0 \<and> src_addr_mode (fcf p0) AND 3 \<noteq> 0 \<and> src_pid p0 = dest_pid p0 then 1 else 0)\<rparr> else fcf p0)"
    by (auto simp: field_len_def Let_def split_def simp del: if_split split del: if_split)
  show "pan_without_addr p \<longleftrightarrow> pan_without_addr p0"
  proof (cases "frame_version (fcf p0) < 2")
    case True
    then have "frame_version (fcf p0) \<noteq> 2" by auto
    then show ?thesis using True by (simp add: p pan_without_addr_def frame802154_has_panid_def Let_def)
  qed (simp add: p pan_without_addr_def)
qed


definition example_fcf :: frame802154_fcf_t where
  "example_fcf = \<lparr>frame_type = 1, security_enabled = 0, frame_pending = 0, ack_required = 1, panid_compression = 0,
     sequence_number_suppression = 0, ie_list_present = 0, dest_addr_mode = 3, frame_version = 2, src_addr_mode = 3\<rparr>"

definition example_frame :: frame802154_t where
  "example_frame = \<lparr>dest_addr = [1, 2, 3, 4, 5, 6, 7, 8], src_addr = [9, 8, 7, 6, 5, 4, 3, 2], fcf = example_fcf, seq = 7,
     dest_pid = 0xabcd, src_pid = 0xabcd,
     aux_hdr = \<lparr>security_control = \<lparr>security_level = 0, key_id_mode = 0, frame_counter_suppression = 0, frame_counter_size = 0\<rparr>,
       frame_counter = [0, 0, 0, 0], key_source = replicate 8 0, key_index = 0\<rparr>, payload = 0, payload_len = 0\<rparr>"


text \<open>Where the parser does not undo the writer, and where it reads too far. A frame of version 2015 without addresses whose PAN identifier compression bit is set carries a destination
  PAN identifier, which the parser does not skip; a five-byte frame counter makes the parser's unmasked suppression field
  non-zero, and it skips the counter; the returned header lengths differ. A frame cut after the frame control field is read
  beyond its end before the length is checked.\<close>

theorem frame_parse_limits:
  "(let p = example_frame\<lparr>fcf := example_fcf\<lparr>dest_addr_mode := 0, src_addr_mode := 0, panid_compression := 1\<rparr>\<rparr> in
     (case frame802154_create p 0 (replicate 40 0) of Done (n, _, m) \<Rightarrow> n = 5 \<and> obind (frame802154_parse m 40 p) (\<lambda>(k, _). Done k) = Done 3
      | _ \<Rightarrow> False)) \<and>
   (let a = aux_hdr example_frame; p = example_frame\<lparr>fcf := example_fcf\<lparr>security_enabled := 1\<rparr>,
       aux_hdr := a\<lparr>security_control := (security_control a)\<lparr>frame_counter_size := 1\<rparr>\<rparr>\<rparr> in
     (case frame802154_create p 0 (replicate 40 0) of Done (n, _, m) \<Rightarrow> n = 27 \<and> obind (frame802154_parse m 40 p) (\<lambda>(k, _). Done k) = Done 22
      | _ \<Rightarrow> False)) \<and>
   frame802154_parse [0x41, 0xec] 2 example_frame = Fault"
  by code_simp

end
