(* ===== verification/Framer.thy ===== *)
theory Framer
  imports FrameProps
begin

text \<open>
  The framer \<^verbatim>\<open>os/net/mac/framer/framer-802154.c\<close>: building the header of the packet in the packet buffer and reading
  the header of a received one. The function pointer \<open>get_attr\<close> is a function argument; the structure that
  \<open>parse\<close> has on its stack is the argument \<open>junk\<close>.
\<close>

section \<open>Building headers\<close>

abbreviation (input) FRAMER_FAILED :: int where "FRAMER_FAILED \<equiv> -1"

definition frame802154_zero :: frame802154_t where
  "frame802154_zero = \<lparr>dest_addr = replicate 8 0, src_addr = replicate 8 0,
     fcf = \<lparr>frame_type = 0, security_enabled = 0, frame_pending = 0, ack_required = 0, panid_compression = 0,
            sequence_number_suppression = 0, ie_list_present = 0, dest_addr_mode = 0, frame_version = 0, src_addr_mode = 0\<rparr>,
     seq = 0, dest_pid = 0, src_pid = 0,
     aux_hdr = \<lparr>security_control = \<lparr>security_level = 0, key_id_mode = 0, frame_counter_suppression = 0, frame_counter_size = 0\<rparr>,
       frame_counter = replicate 4 0, key_source = replicate 8 0, key_index = 0\<rparr>, payload = 0, payload_len = 0\<rparr>"

definition setup_fcf :: "(packetbuf_attr_type \<Rightarrow> u16) \<Rightarrow> bool \<Rightarrow> frame802154_fcf_t \<Rightarrow> frame802154_fcf_t" where
  "setup_fcf get_attr dest_is_broadcast f =
     (let src = (if get_attr PACKETBUF_ATTR_MAC_NO_SRC_ADDR = 1 then FRAME802154_NOADDR
                 else if LINKADDR_SIZE = 2 then FRAME802154_SHORTADDRMODE else FRAME802154_LONGADDRMODE);
          dest = (if get_attr PACKETBUF_ATTR_MAC_NO_DEST_ADDR = 1 then FRAME802154_NOADDR
                  else if dest_is_broadcast then FRAME802154_SHORTADDRMODE
                  else if LINKADDR_SIZE = 2 then FRAME802154_SHORTADDRMODE else FRAME802154_LONGADDRMODE)
      in f\<lparr>frame_type := ucast (get_attr PACKETBUF_ATTR_FRAME_TYPE),
           frame_pending := 0,
           ack_required := (if dest_is_broadcast then 0 else ucast (get_attr PACKETBUF_ATTR_MAC_ACK)),
           sequence_number_suppression :=
             (if dest_is_broadcast then if FRAME802154_VERSION \<ge> FRAME802154_IEEE802154_2015 then 1 else 0
              else FRAME802154_SUPPR_SEQNO),
           ie_list_present := ucast (get_attr PACKETBUF_ATTR_MAC_METADATA),
           frame_version := FRAME802154_VERSION,
           security_enabled := (if get_attr PACKETBUF_ATTR_SECURITY_LEVEL \<noteq> 0 then 1 else security_enabled f),
           src_addr_mode := src,
           dest_addr_mode := dest,
           panid_compression := (if src = FRAME802154_SHORTADDRMODE \<or> dest = FRAME802154_SHORTADDRMODE then 1 else 0)\<rparr>)"

definition framer_802154_setup_params ::
    "u16 \<Rightarrow> (packetbuf_attr_type \<Rightarrow> u16) \<Rightarrow> bool \<Rightarrow> frame802154_t \<Rightarrow> frame802154_t" where
  "framer_802154_setup_params pan get_attr dest_is_broadcast params =
     (let sc = security_control (aux_hdr params) in
      params\<lparr>fcf := setup_fcf get_attr dest_is_broadcast (fcf params),
             aux_hdr := (aux_hdr params)\<lparr>
               security_control := sc\<lparr>security_level := ucast (get_attr PACKETBUF_ATTR_SECURITY_LEVEL),
                 frame_counter_suppression := 1, frame_counter_size := 1,
                 key_id_mode := ucast (get_attr PACKETBUF_ATTR_KEY_ID_MODE)\<rparr>,
               key_index := ucast (get_attr PACKETBUF_ATTR_KEY_INDEX)\<rparr>,
             seq := ucast (get_attr PACKETBUF_ATTR_MAC_SEQNO),
             src_pid := pan,
             dest_pid := pan\<rparr>)"

definition framer_params :: "u16 \<Rightarrow> packetbuf \<Rightarrow> frame802154_t" where
  "framer_params pan p =
     (let q = framer_802154_setup_params pan (\<lambda>t. packetbuf_attr t p) (packetbuf_holds_broadcast p) frame802154_zero;
          q1 = (if packetbuf_holds_broadcast p then q\<lparr>dest_addr := (dest_addr q)[0 := 0xff, 1 := 0xff]\<rparr>
                else q\<lparr>dest_addr := linkaddr_copy (dest_addr q) (packetbuf_addr PACKETBUF_ADDR_RECEIVER p)\<rparr>)
      in q1\<lparr>src_addr := linkaddr_copy (src_addr q1) (packetbuf_addr PACKETBUF_ADDR_SENDER p),
            payload := packetbuf_dataptr p, payload_len := uint (packetbuf_datalen p)\<rparr>)"

definition create_frame :: "u16 \<Rightarrow> bool \<Rightarrow> packetbuf \<Rightarrow> (int \<times> packetbuf) outcome" where
  "create_frame pan do_create p =
     (if pan = 0xffff then Done (-1, p)
      else
        (let (hdr_len, params) = frame802154_hdrlen (framer_params pan p) in
         if \<not> do_create then Done (int hdr_len, p)
         else
           (let (ok, p1) = packetbuf_hdralloc hdr_len p in
            if ok \<noteq> 0 then
              obind (frame802154_create params (packetbuf_hdrptr p1) (pb_data p1)) (\<lambda>(_, _, m).
              Done (int hdr_len, p1\<lparr>pb_data := m\<rparr>))
            else Done (FRAMER_FAILED, p1))))"

definition framer_hdr_length :: "u16 \<Rightarrow> packetbuf \<Rightarrow> (int \<times> packetbuf) outcome" where
  "framer_hdr_length pan p = create_frame pan False p"

definition framer_create :: "u16 \<Rightarrow> packetbuf \<Rightarrow> (int \<times> packetbuf) outcome" where
  "framer_create pan p = create_frame pan True p"

section \<open>Parsing headers\<close>

definition parse_security :: "frame802154_t \<Rightarrow> packetbuf \<Rightarrow> packetbuf" where
  "parse_security f p =
     (if security_enabled (fcf f) \<noteq> 0 then
        packetbuf_set_attr PACKETBUF_ATTR_KEY_INDEX (ucast (key_index (aux_hdr f)))
          (packetbuf_set_attr PACKETBUF_ATTR_KEY_ID_MODE (ucast (key_id_mode (security_control (aux_hdr f))))
            (packetbuf_set_attr PACKETBUF_ATTR_SECURITY_LEVEL (ucast (security_level (security_control (aux_hdr f)))) p))
      else p)"

definition framer_parse :: "u16 \<Rightarrow> frame802154_t \<Rightarrow> packetbuf \<Rightarrow> (int \<times> packetbuf) outcome" where
  "framer_parse pan junk p =
     obind (frame802154_parse (drop (packetbuf_dataptr p) (pb_data p)) (uint (packetbuf_datalen p)) junk) (\<lambda>(hdr_len, f).
       let (ok, p1) = (if hdr_len \<noteq> 0 then packetbuf_hdrreduce hdr_len p else (0, p)) in
       if hdr_len \<noteq> 0 \<and> ok \<noteq> 0 then
         (let p2 = packetbuf_set_attr PACKETBUF_ATTR_FRAME_TYPE (ucast (frame_type (fcf f))) p1 in
          if dest_addr_mode (fcf f) \<noteq> 0 \<and> dest_pid f \<noteq> pan \<and> dest_pid f \<noteq> FRAME802154_BROADCASTPANDID
          then Done (FRAMER_FAILED, p2)
          else
            (let p3 = (if dest_addr_mode (fcf f) \<noteq> 0 \<and> \<not> frame802154_is_broadcast_addr (dest_addr_mode (fcf f)) (dest_addr f)
                       then packetbuf_set_addr PACKETBUF_ADDR_RECEIVER (dest_addr f) p2 else p2);
                 p4 = packetbuf_set_addr PACKETBUF_ADDR_SENDER (src_addr f) p3;
                 p5 = packetbuf_set_attr PACKETBUF_ATTR_MAC_SEQNO
                        (if sequence_number_suppression (fcf f) = 0 then ucast (seq f) else 0xffff) p4
             in Done (int hdr_len, parse_security f p5)))
       else Done (FRAMER_FAILED, p1))"

end
