(* ===== verification/FramerProps.thy ===== *)
theory FramerProps
  imports Framer
begin

text \<open>The framer's round trip: a packet framed by one node and parsed by another arrives with its payload, addresses, sequence
  number and security attributes.\<close>

section \<open>Packets that can be framed\<close>

definition sendable :: "u16 \<Rightarrow> packetbuf \<Rightarrow> bool" where
  "sendable pan p \<longleftrightarrow> pb_inv p \<and> bufptr p = 0 \<and> pan \<noteq> 0xffff \<and> is_linkaddr (packetbuf_addr PACKETBUF_ADDR_RECEIVER p) \<and>
     is_linkaddr (packetbuf_addr PACKETBUF_ADDR_SENDER p) \<and> unat (packetbuf_attr PACKETBUF_ATTR_FRAME_TYPE p) < 8 \<and>
     unat (packetbuf_attr PACKETBUF_ATTR_MAC_ACK p) < 2 \<and> unat (packetbuf_attr PACKETBUF_ATTR_MAC_METADATA p) < 2 \<and>
     unat (packetbuf_attr PACKETBUF_ATTR_SECURITY_LEVEL p) < 8 \<and> unat (packetbuf_attr PACKETBUF_ATTR_KEY_ID_MODE p) < 4 \<and>
     packetbuf_attr PACKETBUF_ATTR_MAC_NO_SRC_ADDR p \<noteq> 1 \<and> packetbuf_attr PACKETBUF_ATTR_MAC_NO_DEST_ADDR p \<noteq> 1"

lemma small_attr:
  assumes "unat (w :: u16) < 2 ^ k" "k \<le> 8"
  shows "take_bit k (ucast w :: u8) = ucast w"
proof -
  have "unat (ucast w :: u8) = unat w mod 2 ^ 8" by (simp add: unat_ucast_mod)
  also have "\<dots> < 2 ^ k" using assms(1) by (meson le_less_trans mod_less_eq_dividend)
  finally show ?thesis by (simp add: word_unat_eq_iff unsigned_take_bit_eq take_bit_nat_eq_self)
qed

lemma framer_params_ok:
  assumes "sendable pan p"
  shows "frame_ok (framer_params pan p)" "\<not> skips_byte (framer_params pan p)" "\<not> pan_without_addr (framer_params pan p)"
proof -
  have s: "take_bit 3 (ucast (packetbuf_attr PACKETBUF_ATTR_FRAME_TYPE p) :: u8) = ucast (packetbuf_attr PACKETBUF_ATTR_FRAME_TYPE p)"
    "take_bit 1 (ucast (packetbuf_attr PACKETBUF_ATTR_MAC_ACK p) :: u8) = ucast (packetbuf_attr PACKETBUF_ATTR_MAC_ACK p)"
    "take_bit 1 (ucast (packetbuf_attr PACKETBUF_ATTR_MAC_METADATA p) :: u8) = ucast (packetbuf_attr PACKETBUF_ATTR_MAC_METADATA p)"
    "take_bit 3 (ucast (packetbuf_attr PACKETBUF_ATTR_SECURITY_LEVEL p) :: u8) = ucast (packetbuf_attr PACKETBUF_ATTR_SECURITY_LEVEL p)"
    "take_bit 2 (ucast (packetbuf_attr PACKETBUF_ATTR_KEY_ID_MODE p) :: u8) = ucast (packetbuf_attr PACKETBUF_ATTR_KEY_ID_MODE p)"
    using assms small_attr [of _ 3] small_attr [of _ 1] small_attr [of _ 2] by (simp_all add: sendable_def)
  have l: "length (packetbuf_addr PACKETBUF_ADDR_SENDER p) = 8" "length (packetbuf_addr PACKETBUF_ADDR_RECEIVER p) = 8"
    using assms by (simp_all add: sendable_def is_linkaddr_def LINKADDR_SIZE_def)
  have n: "packetbuf_attr PACKETBUF_ATTR_MAC_NO_SRC_ADDR p \<noteq> 1" "packetbuf_attr PACKETBUF_ATTR_MAC_NO_DEST_ADDR p \<noteq> 1"
    using assms by (simp_all add: sendable_def)
  note d = framer_params_def framer_802154_setup_params_def setup_fcf_def frame802154_zero_def Let_def linkaddr_copy_def LINKADDR_SIZE_def
  show "frame_ok (framer_params pan p)"
    using s l n by (simp add: frame_ok_def d fcf_ok_def fcf_sent_def byte_simps)
  show "\<not> skips_byte (framer_params pan p)" by (simp add: skips_byte_def d)
  show "\<not> pan_without_addr (framer_params pan p)" using n by (simp add: pan_without_addr_def d)
qed

lemma framer_field_len: "\<exists>l. field_len (framer_params pan p) = (framer_params pan p, l)"
  by (simp add: field_len_def framer_params_def framer_802154_setup_params_def setup_fcf_def Let_def split_def)

lemma pb_frame_start: "pb_inv p \<Longrightarrow> bufptr p = 0 \<Longrightarrow> pb_frame p = take (unat (packetbuf_totlen p)) (pb_data p)"
  using unat_packetbuf_hdrlen [of p] unat_packetbuf_totlen [of p]
  by (simp add: pb_frame_def packetbuf_dataptr_def take_add)

lemma framer_create_eq:
  assumes s: "sendable pan p" and fits: "fst (frame802154_hdrlen (framer_params pan p)) + length (pb_frame p) \<le> PACKETBUF_SIZE"
  shows "\<exists>p1. framer_create pan p = Done (int (length (hdr_bytes (framer_params pan p))), p1) \<and> pb_inv p1 \<and>
    pb_frame p1 = hdr_bytes (framer_params pan p) @ pb_frame p \<and> bufptr p1 = 0 \<and> buflen p1 = buflen p \<and>
    unat (hdrlen p1) = unat (hdrlen p) + length (hdr_bytes (framer_params pan p))"
proof -
  let ?q = "framer_params pan p" let ?h = "hdr_bytes ?q" let ?n = "length ?h"
  obtain l where fl: "field_len ?q = (?q, l)" using framer_field_len by blast
  note ok = framer_params_ok [OF s]
  have n: "frame802154_hdrlen ?q = (?n, ?q)" using hdr_length [OF ok(1) fl ok(2)] by (simp add: frame802154_hdrlen_def fl)
  have inv: "pb_inv p" "bufptr p = 0" "pan \<noteq> 0xffff" using s by (simp_all add: sendable_def)
  have tot: "unat (packetbuf_totlen p) = length (pb_frame p)"
    using pb_frame_start [OF inv(1,2)] unat_packetbuf_totlen [OF inv(1)] inv(1) by (simp add: pb_inv_def)
  obtain p' where p': "packetbuf_hdralloc ?n p = (1, p')" "pb_inv p'" "unat (hdrlen p') = unat (hdrlen p) + ?n" "bufptr p' = bufptr p"
    "buflen p' = buflen p" "take (unat (packetbuf_totlen p)) (drop ?n (pb_data p')) = take (unat (packetbuf_totlen p)) (pb_data p)"
    using packetbuf_hdralloc_success [OF inv(1), of ?n] fits n tot by (metis add.commute fst_conv)
  let ?p1 = "p'\<lparr>pb_data := put_at 0 ?h (pb_data p')\<rparr>"
  have len: "?n \<le> length (pb_data p')" using p'(2,3) by (simp add: pb_inv_def)
  have c: "frame802154_create ?q 0 (pb_data p') = Done (?n, ?q, put_at 0 ?h (pb_data p'))"
    using len by (intro create_eq [OF ok(1) fl ok(2)]) simp
  have "framer_create pan p = Done (int ?n, ?p1)"
    using inv(3) by (simp add: framer_create_def create_frame_def n p'(1) packetbuf_hdrptr_def c)
  moreover have inv1: "pb_inv ?p1" using p'(2) len by (simp add: pb_inv_def)
  moreover have "pb_frame ?p1 = ?h @ pb_frame p"
  proof -
    have t1: "unat (packetbuf_totlen ?p1) = ?n + unat (packetbuf_totlen p)"
      using unat_packetbuf_totlen [OF inv1] unat_packetbuf_totlen [OF inv(1)] p'(3-5) by simp
    have "pb_frame ?p1 = take (?n + unat (packetbuf_totlen p)) (put_at 0 ?h (pb_data p'))"
      using pb_frame_start [OF inv1] inv(2) p'(4) t1 by simp
    also have "\<dots> = ?h @ take (unat (packetbuf_totlen p)) (drop ?n (pb_data p'))" by (simp add: put_at_def)
    finally show ?thesis using p'(6) pb_frame_start [OF inv(1,2)] by simp
  qed
  moreover have "bufptr ?p1 = 0 \<and> buflen ?p1 = buflen p \<and> unat (hdrlen ?p1) = unat (hdrlen p) + ?n" using p'(3-5) inv(2) by simp
  ultimately show ?thesis by blast
qed

section \<open>Receiving\<close>

lemma framer_parse_eq:
  assumes s: "sendable pan p" and r: "pb_inv r" "hdrlen r = 0" "bufptr r = 0" "pb_frame r = hdr_bytes (framer_params pan p) @ pay"
    and junk: "length (key_source (aux_hdr junk)) = 8"
  defines "n \<equiv> length (hdr_bytes (framer_params pan p))"
  defines "f \<equiv> received (framer_params pan p) (int (n + length pay)) junk"
  shows "frame802154_parse (drop (packetbuf_dataptr r) (pb_data r)) (uint (packetbuf_datalen r)) junk = Done (n, f)"
    "packetbuf_hdrreduce n r = (1, r\<lparr>bufptr := of_nat n, buflen := of_nat (length pay)\<rparr>)"
proof -
  let ?q = "framer_params pan p"
  note ok = framer_params_ok [OF s]
  have tot: "unat (packetbuf_totlen r) = unat (buflen r)" "packetbuf_dataptr r = 0"
    using unat_packetbuf_totlen [OF r(1)] unat_packetbuf_hdrlen [OF r(1)] r(2,3) by (simp_all add: packetbuf_dataptr_def)
  have fr: "take (unat (buflen r)) (pb_data r) = hdr_bytes ?q @ pay" using pb_frame_start [OF r(1,3)] tot r(4) by simp
  have "length (take (unat (buflen r)) (pb_data r)) = unat (buflen r)" using r(1-3) by (simp add: pb_inv_def)
  then have bl: "unat (buflen r) = n + length pay" unfolding fr by (simp add: n_def)
  have "take n (take (unat (buflen r)) (pb_data r)) = hdr_bytes ?q" unfolding fr by (simp add: n_def)
  then have at: "has_at (pb_data r) 0 (hdr_bytes ?q)" using bl by (simp add: has_at_def n_def [symmetric])
  have u: "uint (packetbuf_datalen r) = int (n + length pay)"
    by (simp add: packetbuf_datalen_def uint_nat bl del: of_nat_unat)
  show "frame802154_parse (drop (packetbuf_dataptr r) (pb_data r)) (uint (packetbuf_datalen r)) junk = Done (n, f)"
    unfolding u f_def n_def using at junk tot(2)
    by (subst parse_eq [OF ok(1,2,3)]) simp_all
  have "buflen r = of_nat (n + length pay)" by (simp only: bl [symmetric] of_nat_unat) simp
  then show "packetbuf_hdrreduce n r = (1, r\<lparr>bufptr := of_nat n, buflen := of_nat (length pay)\<rparr>)"
    using bl r(3) by (simp add: packetbuf_hdrreduce_def)
qed

lemma parse_security_fields [simp]:
  "pb_frame (parse_security f p) = pb_frame p" "packetbuf_addrs (parse_security f p) = packetbuf_addrs p"
  "packetbuf_attrs (parse_security f p) PACKETBUF_ATTR_FRAME_TYPE = packetbuf_attrs p PACKETBUF_ATTR_FRAME_TYPE"
  "packetbuf_attrs (parse_security f p) PACKETBUF_ATTR_MAC_SEQNO = packetbuf_attrs p PACKETBUF_ATTR_MAC_SEQNO"
  "security_enabled (fcf f) \<noteq> 0 \<Longrightarrow>
     packetbuf_attrs (parse_security f p) PACKETBUF_ATTR_SECURITY_LEVEL = ucast (security_level (security_control (aux_hdr f)))"
  "security_enabled (fcf f) = 0 \<Longrightarrow> parse_security f p = p"
  "security_enabled (fcf f) \<noteq> 0 \<Longrightarrow>
     packetbuf_attrs (parse_security f p) PACKETBUF_ATTR_KEY_ID_MODE = ucast (key_id_mode (security_control (aux_hdr f)))"
  "security_enabled (fcf f) \<noteq> 0 \<Longrightarrow> packetbuf_attrs (parse_security f p) PACKETBUF_ATTR_KEY_INDEX = ucast (key_index (aux_hdr f))"
  by (simp_all add: parse_security_def packetbuf_set_attr_def pb_frame_def packetbuf_dataptr_def packetbuf_hdrlen_def)

lemma all_ff_8: "length a = 8 \<Longrightarrow> all_ff 8 a \<longleftrightarrow> a = replicate 8 0xff"
  by (auto simp: numeral_eq_Suc length_Suc_conv)

lemma framer_modes:
  assumes "packetbuf_attr PACKETBUF_ATTR_MAC_NO_SRC_ADDR p \<noteq> 1" "packetbuf_attr PACKETBUF_ATTR_MAC_NO_DEST_ADDR p \<noteq> 1"
  shows "src_addr_mode (fcf (framer_params pan p)) = 3"
    "dest_addr_mode (fcf (framer_params pan p)) = (if packetbuf_holds_broadcast p then 2 else 3)"
    "panid_compression (fcf (framer_params pan p)) = (if packetbuf_holds_broadcast p then 1 else 0)"
    "sequence_number_suppression (fcf (framer_params pan p)) = (if packetbuf_holds_broadcast p then 1 else 0)"
    "frame_version (fcf (framer_params pan p)) = 2"
    "frame_type (fcf (framer_params pan p)) = ucast (packetbuf_attr PACKETBUF_ATTR_FRAME_TYPE p)"
    "security_enabled (fcf (framer_params pan p)) = (if packetbuf_attr PACKETBUF_ATTR_SECURITY_LEVEL p \<noteq> 0 then 1 else 0)"
  using assms
  by (simp_all add: framer_params_def framer_802154_setup_params_def setup_fcf_def frame802154_zero_def LINKADDR_SIZE_def Let_def)

lemma framer_addrs:
  assumes "length (packetbuf_addr PACKETBUF_ADDR_SENDER p) = 8" "length (packetbuf_addr PACKETBUF_ADDR_RECEIVER p) = 8"
  shows "src_addr (framer_params pan p) = packetbuf_addr PACKETBUF_ADDR_SENDER p"
    "dest_addr (framer_params pan p) = (if packetbuf_holds_broadcast p then [0xff, 0xff, 0, 0, 0, 0, 0, 0]
       else packetbuf_addr PACKETBUF_ADDR_RECEIVER p)"
    "src_pid (framer_params pan p) = pan" "dest_pid (framer_params pan p) = pan"
    "seq (framer_params pan p) = ucast (packetbuf_attr PACKETBUF_ATTR_MAC_SEQNO p)"
    "security_control (aux_hdr (framer_params pan p)) =
       \<lparr>security_level = ucast (packetbuf_attr PACKETBUF_ATTR_SECURITY_LEVEL p),
        key_id_mode = ucast (packetbuf_attr PACKETBUF_ATTR_KEY_ID_MODE p), frame_counter_suppression = 1, frame_counter_size = 1\<rparr>"
    "key_index (aux_hdr (framer_params pan p)) = ucast (packetbuf_attr PACKETBUF_ATTR_KEY_INDEX p)"
  using assms
  by (simp_all add: framer_params_def framer_802154_setup_params_def frame802154_zero_def LINKADDR_SIZE_def linkaddr_copy_def
      numeral_eq_Suc Let_def)

lemma framer_received:
  fixes pan p len junk
  defines "f \<equiv> received (framer_params pan p) len junk"
  assumes s: "sendable pan p" and ff: "packetbuf_addr PACKETBUF_ADDR_RECEIVER p \<noteq> replicate 8 0xff"
  shows "dest_addr_mode (fcf f) \<noteq> 0" "dest_pid f = pan" "src_addr f = packetbuf_addr PACKETBUF_ADDR_SENDER p"
    "frame802154_is_broadcast_addr (dest_addr_mode (fcf f)) (dest_addr f) \<longleftrightarrow> packetbuf_holds_broadcast p"
    "\<not> packetbuf_holds_broadcast p \<Longrightarrow> dest_addr f = packetbuf_addr PACKETBUF_ADDR_RECEIVER p"
    "sequence_number_suppression (fcf f) = 0 \<longleftrightarrow> \<not> packetbuf_holds_broadcast p"
    "\<not> packetbuf_holds_broadcast p \<Longrightarrow> seq f = ucast (packetbuf_attr PACKETBUF_ATTR_MAC_SEQNO p)"
    "frame_type (fcf f) = ucast (packetbuf_attr PACKETBUF_ATTR_FRAME_TYPE p)"
    "security_enabled (fcf f) = 0 \<longleftrightarrow> packetbuf_attr PACKETBUF_ATTR_SECURITY_LEVEL p = 0"
    "security_enabled (fcf f) \<noteq> 0 \<Longrightarrow>
       security_level (security_control (aux_hdr f)) = ucast (packetbuf_attr PACKETBUF_ATTR_SECURITY_LEVEL p)"
    "security_enabled (fcf f) \<noteq> 0 \<Longrightarrow> key_id_mode (security_control (aux_hdr f)) = ucast (packetbuf_attr PACKETBUF_ATTR_KEY_ID_MODE p)"
    "security_enabled (fcf f) \<noteq> 0 \<Longrightarrow> key_id_mode (security_control (aux_hdr f)) \<noteq> 0 \<Longrightarrow>
       key_index (aux_hdr f) = ucast (packetbuf_attr PACKETBUF_ATTR_KEY_INDEX p)"
proof -
  let ?d = "packetbuf_addr PACKETBUF_ADDR_RECEIVER p" and ?s = "packetbuf_addr PACKETBUF_ADDR_SENDER p"
  have l: "length ?s = 8" "length ?d = 8" and n: "packetbuf_attr PACKETBUF_ATTR_MAC_NO_SRC_ADDR p \<noteq> 1"
    "packetbuf_attr PACKETBUF_ATTR_MAC_NO_DEST_ADDR p \<noteq> 1"
    using s by (simp_all add: sendable_def is_linkaddr_def LINKADDR_SIZE_def)
  have b: "\<not> all_ff 8 ?d" using all_ff_8 [OF l(2)] ff by simp
  note m = framer_modes [OF n] and a = framer_addrs [OF l]
  have pid: "snd (frame802154_has_panid (fcf (framer_params pan p)))" by (simp add: frame802154_has_panid_def m)
  note d = f_def received_def Let_def split_def
  show "dest_addr_mode (fcf f) \<noteq> 0" "sequence_number_suppression (fcf f) = 0 \<longleftrightarrow> \<not> packetbuf_holds_broadcast p"
    "frame_type (fcf f) = ucast (packetbuf_attr PACKETBUF_ATTR_FRAME_TYPE p)"
    "security_enabled (fcf f) = 0 \<longleftrightarrow> packetbuf_attr PACKETBUF_ATTR_SECURITY_LEVEL p = 0"
    by (simp_all add: d m)
  show "dest_pid f = pan" using pid by (simp add: d m a)
  show "src_addr f = ?s" "\<not> packetbuf_holds_broadcast p \<Longrightarrow> dest_addr f = ?d"
    "\<not> packetbuf_holds_broadcast p \<Longrightarrow> seq f = ucast (packetbuf_attr PACKETBUF_ATTR_MAC_SEQNO p)"
    by (simp_all add: d m a recv_addr_def)
  show "frame802154_is_broadcast_addr (dest_addr_mode (fcf f)) (dest_addr f) \<longleftrightarrow> packetbuf_holds_broadcast p"
    using b by (simp add: d m a recv_addr_def frame802154_is_broadcast_addr_def numeral_2_eq_2)
  show "security_enabled (fcf f) \<noteq> 0 \<Longrightarrow>
       security_level (security_control (aux_hdr f)) = ucast (packetbuf_attr PACKETBUF_ATTR_SECURITY_LEVEL p)"
    "security_enabled (fcf f) \<noteq> 0 \<Longrightarrow> key_id_mode (security_control (aux_hdr f)) = ucast (packetbuf_attr PACKETBUF_ATTR_KEY_ID_MODE p)"
    "security_enabled (fcf f) \<noteq> 0 \<Longrightarrow> key_id_mode (security_control (aux_hdr f)) \<noteq> 0 \<Longrightarrow>
       key_index (aux_hdr f) = ucast (packetbuf_attr PACKETBUF_ATTR_KEY_INDEX p)"
    by (simp_all add: d a recv_aux_def)
qed

lemma ucast_low: "ucast (ucast (w :: u16) :: u8) = w mod 256"
  by (simp add: word_unat_eq_iff unat_ucast_mod unat_mod)

lemma framer_rest:
  assumes r: "pb_inv r" "hdrlen r = 0" "bufptr r = 0" "pb_frame r = h @ pay"
  shows "pb_frame (r\<lparr>bufptr := of_nat (length h), buflen := of_nat (length pay)\<rparr>) = pay"
proof -
  have "length (h @ pay) \<le> 128"
    using r(1) packetbuf_copyto_Done(2) [OF r(1)] r(4) by (simp add: pb_inv_def PACKETBUF_SIZE_def)
  moreover have "unat (packetbuf_totlen r) = length (h @ pay)"
    using packetbuf_copyto_Done(2) [OF r(1)] unat_packetbuf_totlen [OF r(1)] r(3,4) by simp
  moreover have "unat (of_nat (length h) :: u16) = length h" "unat (of_nat (length pay) :: u16) = length pay"
    using calculation(1) by (simp_all add: unat_of_nat)
  ultimately have "take (length h + length pay) (pb_data r) = h @ pay" "length h < 256"
      "unat (of_nat (length h) :: u16) = length h" "unat (of_nat (length pay) :: u16) = length pay"
    using pb_frame_start [OF r(1,3)] r(4) by simp_all
  then show ?thesis
    using r(2) by (simp add: pb_frame_def packetbuf_dataptr_def packetbuf_hdrlen_def unat_ucast_mod take_drop add.commute)
qed

lemma pb_frame_set [simp]: "pb_frame (packetbuf_set_attr t v p) = pb_frame p" "pb_frame (packetbuf_set_addr u a p) = pb_frame p"
  by (simp_all add: pb_frame_def packetbuf_dataptr_def packetbuf_hdrlen_def packetbuf_set_attr_def packetbuf_set_addr_def)

lemma ucast_small_attr: "unat (w :: u16) < 2 ^ 8 \<Longrightarrow> ucast (ucast w :: u8) = w"
  by (simp add: word_unat_eq_iff unat_ucast_mod)

lemma framer_parse_received:
  assumes s: "sendable pan p" and ff: "packetbuf_addr PACKETBUF_ADDR_RECEIVER p \<noteq> replicate 8 0xff"
    and r: "pb_inv r" "hdrlen r = 0" "bufptr r = 0" "pb_frame r = hdr_bytes (framer_params pan p) @ pb_frame p"
      "packetbuf_attrs r = (\<lambda>_. 0)" "packetbuf_addrs r = (\<lambda>_. linkaddr_null)"
    and junk: "length (key_source (aux_hdr junk)) = 8"
  shows "\<exists>r'. framer_parse pan junk r = Done (int (length (hdr_bytes (framer_params pan p))), r') \<and> pb_frame r' = pb_frame p \<and>
    packetbuf_addr PACKETBUF_ADDR_SENDER r' = packetbuf_addr PACKETBUF_ADDR_SENDER p \<and>
    packetbuf_addr PACKETBUF_ADDR_RECEIVER r' = packetbuf_addr PACKETBUF_ADDR_RECEIVER p \<and>
    packetbuf_attr PACKETBUF_ATTR_FRAME_TYPE r' = packetbuf_attr PACKETBUF_ATTR_FRAME_TYPE p \<and>
    packetbuf_attr PACKETBUF_ATTR_MAC_SEQNO r' =
      (if packetbuf_holds_broadcast p then 0xffff else packetbuf_attr PACKETBUF_ATTR_MAC_SEQNO p mod 256) \<and>
    packetbuf_attr PACKETBUF_ATTR_SECURITY_LEVEL r' = packetbuf_attr PACKETBUF_ATTR_SECURITY_LEVEL p \<and>
    (packetbuf_attr PACKETBUF_ATTR_SECURITY_LEVEL p \<noteq> 0 \<longrightarrow>
       packetbuf_attr PACKETBUF_ATTR_KEY_ID_MODE r' = packetbuf_attr PACKETBUF_ATTR_KEY_ID_MODE p \<and>
       (packetbuf_attr PACKETBUF_ATTR_KEY_ID_MODE p \<noteq> 0 \<longrightarrow>
          packetbuf_attr PACKETBUF_ATTR_KEY_INDEX r' = packetbuf_attr PACKETBUF_ATTR_KEY_INDEX p mod 256))"
proof -
  let ?h = "hdr_bytes (framer_params pan p)" let ?n = "length ?h" let ?L = "?n + length (pb_frame p)"
  let ?f = "received (framer_params pan p) (int ?L) junk"
  note eq = framer_parse_eq [OF s r(1-4) junk] and rc = framer_received [OF s ff, of "int ?L" junk]
  let ?r1 = "r\<lparr>bufptr := of_nat ?n, buflen := of_nat (length (pb_frame p))\<rparr>"
  have n0: "?n \<noteq> 0" by (simp add: hdr_bytes_def fcf_bytes_def split_def Let_def)
  have fr: "pb_frame ?r1 = pb_frame p" using framer_rest [OF r(1-4)] by simp
  have unicast: "packetbuf_addr PACKETBUF_ADDR_RECEIVER p = linkaddr_null" if "packetbuf_holds_broadcast p"
    using that s by (simp add: packetbuf_holds_broadcast_def packetbuf_addr_def [symmetric] sendable_def)
  have small: "ucast (ucast (packetbuf_attr PACKETBUF_ATTR_FRAME_TYPE p) :: u8) = packetbuf_attr PACKETBUF_ATTR_FRAME_TYPE p"
    "ucast (ucast (packetbuf_attr PACKETBUF_ATTR_SECURITY_LEVEL p) :: u8) = packetbuf_attr PACKETBUF_ATTR_SECURITY_LEVEL p"
    "ucast (ucast (packetbuf_attr PACKETBUF_ATTR_KEY_ID_MODE p) :: u8) = packetbuf_attr PACKETBUF_ATTR_KEY_ID_MODE p"
    using s by (auto simp: sendable_def intro!: ucast_small_attr)
  have addr: "is_linkaddr (packetbuf_addr PACKETBUF_ADDR_RECEIVER p)" "is_linkaddr (packetbuf_addr PACKETBUF_ADDR_SENDER p)"
    using s by (simp_all add: sendable_def)
  define f where "f = ?f"
  define r3 where "r3 = (let r2 = packetbuf_set_attr PACKETBUF_ATTR_FRAME_TYPE (ucast (frame_type (fcf f))) ?r1 in
    if packetbuf_holds_broadcast p then r2 else packetbuf_set_addr PACKETBUF_ADDR_RECEIVER (dest_addr f) r2)"
  define r5 where "r5 = packetbuf_set_attr PACKETBUF_ATTR_MAC_SEQNO (if packetbuf_holds_broadcast p then 0xffff else ucast (seq f))
    (packetbuf_set_addr PACKETBUF_ADDR_SENDER (src_addr f) r3)"
  note rc = rc [folded f_def] and eq = eq [folded f_def]
  have parse: "framer_parse pan junk r = Done (int ?n, parse_security f r5)"
    unfolding framer_parse_def eq(1) using n0 rc(1,2,4,6) by (simp add: eq(2) r3_def r5_def Let_def)
  have fr5: "pb_frame r5 = pb_frame p" using fr by (simp add: r5_def r3_def Let_def)
  have r5: "packetbuf_addrs r5 PACKETBUF_ADDR_SENDER = packetbuf_addr PACKETBUF_ADDR_SENDER p"
    "packetbuf_addrs r5 PACKETBUF_ADDR_RECEIVER = packetbuf_addr PACKETBUF_ADDR_RECEIVER p"
    "packetbuf_attrs r5 PACKETBUF_ATTR_FRAME_TYPE = packetbuf_attr PACKETBUF_ATTR_FRAME_TYPE p"
    "packetbuf_attrs r5 PACKETBUF_ATTR_MAC_SEQNO = (if packetbuf_holds_broadcast p then 0xffff else packetbuf_attr PACKETBUF_ATTR_MAC_SEQNO p mod 256)"
    "packetbuf_attrs r5 PACKETBUF_ATTR_SECURITY_LEVEL = 0"
    using rc(3,5,7,8) small addr unicast r(5,6)
    by (auto simp: r5_def r3_def packetbuf_set_attr_def packetbuf_set_addr_def ucast_low Let_def)
  show ?thesis
  proof (intro exI conjI)
    show "framer_parse pan junk r = Done (int ?n, parse_security f r5)" by (fact parse)
    show "packetbuf_attr PACKETBUF_ATTR_SECURITY_LEVEL (parse_security f r5) = packetbuf_attr PACKETBUF_ATTR_SECURITY_LEVEL p"
      using r5(5) rc(9,10) small(2) by (cases "security_enabled (fcf f) = 0") (simp_all add: packetbuf_attr_def)
    show "packetbuf_attr PACKETBUF_ATTR_SECURITY_LEVEL p \<noteq> 0 \<longrightarrow>
       packetbuf_attr PACKETBUF_ATTR_KEY_ID_MODE (parse_security f r5) = packetbuf_attr PACKETBUF_ATTR_KEY_ID_MODE p \<and>
       (packetbuf_attr PACKETBUF_ATTR_KEY_ID_MODE p \<noteq> 0 \<longrightarrow>
          packetbuf_attr PACKETBUF_ATTR_KEY_INDEX (parse_security f r5) = packetbuf_attr PACKETBUF_ATTR_KEY_INDEX p mod 256)"
    proof (intro impI conjI)
      assume sec: "packetbuf_attr PACKETBUF_ATTR_SECURITY_LEVEL p \<noteq> 0"
      then have e: "security_enabled (fcf f) \<noteq> 0" using rc(9) by simp
      show "packetbuf_attr PACKETBUF_ATTR_KEY_ID_MODE (parse_security f r5) = packetbuf_attr PACKETBUF_ATTR_KEY_ID_MODE p"
        using e rc(11) small(3) by (simp add: packetbuf_attr_def)
      assume "packetbuf_attr PACKETBUF_ATTR_KEY_ID_MODE p \<noteq> 0"
      then have "key_id_mode (security_control (aux_hdr f)) \<noteq> 0" using rc(11) [OF e] small(3) by auto
      then show "packetbuf_attr PACKETBUF_ATTR_KEY_INDEX (parse_security f r5) = packetbuf_attr PACKETBUF_ATTR_KEY_INDEX p mod 256"
        using e rc(12) by (simp add: packetbuf_attr_def ucast_low)
    qed
  qed (simp_all add: r5 fr5 packetbuf_attr_def packetbuf_addr_def)
qed

text \<open>C15. For a packet of the modelled
  configuration with both addresses present (\<open>sendable\<close>) whose header and contents fit the packet buffer, \<open>create\<close> succeeds, and when the
  bytes of the resulting frame are copied into the packet buffer of a node of the same PAN, whatever that buffer held before,
  \<open>parse\<close> succeeds with the same header length and leaves exactly the original contents as data, together with the sender and
  receiver addresses (a broadcast packet arrives with the null receiver address), the frame type, the sequence number
  modulo 256 (65535 for a broadcast, whose number is not transmitted), the security level, and the key mode and
  index of a secured frame.\<close>

theorem framer_roundtrip:
  assumes s: "sendable pan p" and ff: "packetbuf_addr PACKETBUF_ADDR_RECEIVER p \<noteq> replicate 8 0xff"
    and fits: "fst (frame802154_hdrlen (framer_params pan p)) + length (pb_frame p) \<le> PACKETBUF_SIZE"
    and r0: "length (pb_data r0) = PACKETBUF_SIZE" and junk: "length (key_source (aux_hdr junk)) = 8"
  shows "\<exists>n p1 r r'. framer_create pan p = Done (n, p1) \<and>
    packetbuf_copyfrom (pb_frame p1) (of_nat (length (pb_frame p1))) r0 = Done (int (length (pb_frame p1)), r) \<and>
    framer_parse pan junk r = Done (n, r') \<and> pb_frame r' = pb_frame p \<and>
    packetbuf_addr PACKETBUF_ADDR_SENDER r' = packetbuf_addr PACKETBUF_ADDR_SENDER p \<and>
    packetbuf_addr PACKETBUF_ADDR_RECEIVER r' = packetbuf_addr PACKETBUF_ADDR_RECEIVER p \<and>
    packetbuf_attr PACKETBUF_ATTR_FRAME_TYPE r' = packetbuf_attr PACKETBUF_ATTR_FRAME_TYPE p \<and>
    packetbuf_attr PACKETBUF_ATTR_MAC_SEQNO r' =
      (if packetbuf_holds_broadcast p then 0xffff else packetbuf_attr PACKETBUF_ATTR_MAC_SEQNO p mod 256) \<and>
    packetbuf_attr PACKETBUF_ATTR_SECURITY_LEVEL r' = packetbuf_attr PACKETBUF_ATTR_SECURITY_LEVEL p \<and>
    (packetbuf_attr PACKETBUF_ATTR_SECURITY_LEVEL p \<noteq> 0 \<longrightarrow>
       packetbuf_attr PACKETBUF_ATTR_KEY_ID_MODE r' = packetbuf_attr PACKETBUF_ATTR_KEY_ID_MODE p \<and>
       (packetbuf_attr PACKETBUF_ATTR_KEY_ID_MODE p \<noteq> 0 \<longrightarrow>
          packetbuf_attr PACKETBUF_ATTR_KEY_INDEX r' = packetbuf_attr PACKETBUF_ATTR_KEY_INDEX p mod 256))"
proof -
  let ?h = "hdr_bytes (framer_params pan p)" let ?n = "length ?h" let ?L = "?n + length (pb_frame p)"
  obtain p1 where p1: "framer_create pan p = Done (int ?n, p1)" "pb_inv p1" "pb_frame p1 = ?h @ pb_frame p"
    using framer_create_eq [OF s fits] by blast
  have L: "length (pb_frame p1) = ?L" "?L \<le> PACKETBUF_SIZE"
    using p1 packetbuf_copyto_Done(2) [OF p1(2)] by (simp_all add: pb_inv_def)
  then have u: "unat (of_nat ?L :: u16) = ?L" by (subst unat_of_nat) (simp add: PACKETBUF_SIZE_def)
  obtain r where r: "packetbuf_copyfrom (pb_frame p1) (of_nat ?L) r0 = Done (int ?L, r)" "pb_inv r" "pb_frame r = pb_frame p1"
    "hdrlen r = 0" "bufptr r = 0" "packetbuf_attrs r = (\<lambda>_. 0)" "packetbuf_addrs r = (\<lambda>_. linkaddr_null)"
    using packetbuf_copyfrom_spec [OF r0, of "of_nat ?L" "pb_frame p1"] L unfolding u by auto
  from framer_parse_received [OF s ff r(2,4,5) r(3) [unfolded p1(3)] r(6,7) junk]
  obtain r' where "framer_parse pan junk r = Done (int ?n, r') \<and> pb_frame r' = pb_frame p \<and>
    packetbuf_addr PACKETBUF_ADDR_SENDER r' = packetbuf_addr PACKETBUF_ADDR_SENDER p \<and>
    packetbuf_addr PACKETBUF_ADDR_RECEIVER r' = packetbuf_addr PACKETBUF_ADDR_RECEIVER p \<and>
    packetbuf_attr PACKETBUF_ATTR_FRAME_TYPE r' = packetbuf_attr PACKETBUF_ATTR_FRAME_TYPE p \<and>
    packetbuf_attr PACKETBUF_ATTR_MAC_SEQNO r' =
      (if packetbuf_holds_broadcast p then 0xffff else packetbuf_attr PACKETBUF_ATTR_MAC_SEQNO p mod 256) \<and>
    packetbuf_attr PACKETBUF_ATTR_SECURITY_LEVEL r' = packetbuf_attr PACKETBUF_ATTR_SECURITY_LEVEL p \<and>
    (packetbuf_attr PACKETBUF_ATTR_SECURITY_LEVEL p \<noteq> 0 \<longrightarrow>
       packetbuf_attr PACKETBUF_ATTR_KEY_ID_MODE r' = packetbuf_attr PACKETBUF_ATTR_KEY_ID_MODE p \<and>
       (packetbuf_attr PACKETBUF_ATTR_KEY_ID_MODE p \<noteq> 0 \<longrightarrow>
          packetbuf_attr PACKETBUF_ATTR_KEY_INDEX r' = packetbuf_attr PACKETBUF_ATTR_KEY_INDEX p mod 256))" by blast
  then show ?thesis using p1(1) r(1) [folded L(1)] by blast
qed

definition example_packet :: packetbuf where
  "example_packet = (packetbuf_set_attr PACKETBUF_ATTR_SECURITY_LEVEL 5 (packetbuf_set_attr PACKETBUF_ATTR_KEY_ID_MODE 1
     (packetbuf_set_attr PACKETBUF_ATTR_KEY_INDEX 2 (packetbuf_set_attr PACKETBUF_ATTR_MAC_SEQNO 7
     (packetbuf_set_attr PACKETBUF_ATTR_FRAME_TYPE 1
     (packetbuf_set_addr PACKETBUF_ADDR_RECEIVER [1, 2, 3, 4, 5, 6, 7, 8]
     (packetbuf_set_addr PACKETBUF_ADDR_SENDER [9, 2, 3, 4, 5, 6, 7, 8] pb_zero)))))))
     \<lparr>pb_data := [10, 11, 12] @ replicate 125 0, buflen := 3\<rparr>"

theorem framer_roundtrip_witness:
  "\<exists>n p1 r r'. framer_create 0xabcd example_packet = Done (n, p1) \<and>
    packetbuf_copyfrom (pb_frame p1) (of_nat (length (pb_frame p1))) pb_zero = Done (int (length (pb_frame p1)), r) \<and>
    framer_parse 0xabcd frame802154_zero r = Done (n, r') \<and> pb_frame r' = [10, 11, 12] \<and>
    packetbuf_addr PACKETBUF_ADDR_SENDER r' = [9, 2, 3, 4, 5, 6, 7, 8] \<and> packetbuf_attr PACKETBUF_ATTR_MAC_SEQNO r' = 7 \<and>
    packetbuf_attr PACKETBUF_ATTR_KEY_INDEX r' = 2"
proof -
  note d = example_packet_def packetbuf_set_attr_def packetbuf_set_addr_def pb_zero_def packetbuf_addr_def packetbuf_attr_def
    linkaddr_copy_def LINKADDR_SIZE_def PACKETBUF_SIZE_def packetbuf_holds_broadcast_def linkaddr_cmp_def linkaddr_null_def
  have fr: "pb_frame example_packet = [10, 11, 12]"
    by (simp add: d pb_frame_def packetbuf_dataptr_def packetbuf_hdrlen_def)
  have a: "packetbuf_addr PACKETBUF_ADDR_RECEIVER example_packet = [1, 2, 3, 4, 5, 6, 7, 8]"
    "packetbuf_addr PACKETBUF_ADDR_SENDER example_packet = [9, 2, 3, 4, 5, 6, 7, 8]" by (simp_all add: d)
  have b: "\<not> packetbuf_holds_broadcast example_packet" by (simp add: d numeral_eq_Suc)
  have s: "sendable 0xabcd example_packet" by (simp add: sendable_def pb_inv_def is_linkaddr_def d)
  have ff: "packetbuf_addr PACKETBUF_ADDR_RECEIVER example_packet \<noteq> replicate 8 0xff" unfolding a by code_simp
  have "fst (frame802154_hdrlen (framer_params 0xabcd example_packet)) = 23"
    by code_simp
  then have fits: "fst (frame802154_hdrlen (framer_params 0xabcd example_packet)) + length (pb_frame example_packet) \<le> PACKETBUF_SIZE"
    by (simp add: fr PACKETBUF_SIZE_def)
  have attrs: "packetbuf_attr PACKETBUF_ATTR_MAC_SEQNO example_packet = 7" "packetbuf_attr PACKETBUF_ATTR_KEY_INDEX example_packet = 2"
    "packetbuf_attr PACKETBUF_ATTR_SECURITY_LEVEL example_packet = 5" "packetbuf_attr PACKETBUF_ATTR_KEY_ID_MODE example_packet = 1"
    by (simp_all add: d)
  have "length (pb_data pb_zero) = PACKETBUF_SIZE" "length (key_source (aux_hdr frame802154_zero)) = 8"
    by (simp_all add: pb_zero_def frame802154_zero_def)
  from framer_roundtrip [OF s ff fits this] b show ?thesis
    unfolding fr a attrs by auto
qed

end
