(* ===== verification/SixpNbr.thy ===== *)
theory SixpNbr
  imports NbrTableProps
begin

text \<open>
  The neighbors of the 6top protocol, \<^verbatim>\<open>os/net/mac/tsch/sixtop/sixp-nbr.c\<close>: a neighbor table whose items hold the sequence number of
  the next request. The table is number \<open>sixp_nbrs\<close> of the neighbor tables; a pointer to a neighbor is the index of its item
  (None: NULL). The replacement policy of the neighbor tables is passed on.
\<close>

section \<open>Operations\<close>

record sixp_nbr_t =
  nbr_addr :: linkaddr
  next_seqno :: u8

definition sixp_nbrs :: nat where "sixp_nbrs = 0"

definition SIXP_INITIAL_SEQUENCE_NUMBER :: u8 where "SIXP_INITIAL_SEQUENCE_NUMBER = 0"

abbreviation nbr_item :: "sixp_nbr_t nbr_tables \<Rightarrow> nat \<Rightarrow> sixp_nbr_t" where
  "nbr_item s n \<equiv> nt_data (tabs s sixp_nbrs) n"

definition nbr_item_upd :: "nat \<Rightarrow> (sixp_nbr_t \<Rightarrow> sixp_nbr_t) \<Rightarrow> sixp_nbr_t nbr_tables \<Rightarrow> sixp_nbr_t nbr_tables" where
  "nbr_item_upd n f s = tab_upd sixp_nbrs (\<lambda>x. x\<lparr>nt_data := (nt_data x)(n := f (nt_data x n))\<rparr>) s"

definition sixp_nbr_find :: "linkaddr option \<Rightarrow> sixp_nbr_t nbr_tables \<Rightarrow> nat option" where
  "sixp_nbr_find addr s = (if addr = None then None else nbr_table_get_from_lladdr (Some sixp_nbrs) addr s)"

definition sixp_nbr_alloc ::
    "removal_policy \<Rightarrow> linkaddr option \<Rightarrow> sixp_nbr_t nbr_tables \<Rightarrow> nat option \<times> sixp_nbr_t nbr_tables" where
  "sixp_nbr_alloc policy addr s =
     (case addr of None \<Rightarrow> (None, s)
      | Some a \<Rightarrow>
          if sixp_nbr_find addr s \<noteq> None then (None, s)
          else
            (case nbr_table_add_lladdr policy sixp_nbrs addr NBR_TABLE_REASON_SIXTOP None s of
               (None, s1) \<Rightarrow> (None, s1)
             | (Some n, s1) \<Rightarrow>
                 (Some n, nbr_item_upd n (\<lambda>x. x\<lparr>nbr_addr := linkaddr_copy (nbr_addr x) a,
                            next_seqno := SIXP_INITIAL_SEQUENCE_NUMBER\<rparr>) s1)))"

definition sixp_nbr_free :: "nat option \<Rightarrow> sixp_nbr_t nbr_tables \<Rightarrow> sixp_nbr_t nbr_tables" where
  "sixp_nbr_free nbr s = (if nbr \<noteq> None then snd (nbr_table_remove (Some sixp_nbrs) nbr s) else s)"

definition sixp_nbr_get_next_seqno :: "nat option \<Rightarrow> sixp_nbr_t nbr_tables \<Rightarrow> int" where
  "sixp_nbr_get_next_seqno nbr s = (case nbr of None \<Rightarrow> -1 | Some n \<Rightarrow> uint (next_seqno (nbr_item s n)))"

definition sixp_nbr_set_next_seqno ::
    "nat option \<Rightarrow> u16 \<Rightarrow> sixp_nbr_t nbr_tables \<Rightarrow> int \<times> sixp_nbr_t nbr_tables" where
  "sixp_nbr_set_next_seqno nbr seqno s =
     (case nbr of None \<Rightarrow> (-1, s) | Some n \<Rightarrow> (0, nbr_item_upd n (\<lambda>x. x\<lparr>next_seqno := ucast seqno\<rparr>) s))"

definition sixp_nbr_reset_next_seqno :: "nat option \<Rightarrow> sixp_nbr_t nbr_tables \<Rightarrow> int \<times> sixp_nbr_t nbr_tables" where
  "sixp_nbr_reset_next_seqno nbr s =
     (case nbr of None \<Rightarrow> (-1, s) | Some n \<Rightarrow> (0, nbr_item_upd n (\<lambda>x. x\<lparr>next_seqno := 0\<rparr>) s))"

definition sixp_nbr_increment_next_seqno :: "nat option \<Rightarrow> sixp_nbr_t nbr_tables \<Rightarrow> int \<times> sixp_nbr_t nbr_tables" where
  "sixp_nbr_increment_next_seqno nbr s =
     (case nbr of None \<Rightarrow> (-1, s)
      | Some n \<Rightarrow>
          (0, nbr_item_upd n (\<lambda>x. let x1 = x\<lparr>next_seqno := next_seqno x + 1\<rparr>
                            in if next_seqno x1 = 0 then x1\<lparr>next_seqno := 1\<rparr> else x1) s))"

partial_function (option) nbr_init_loop :: "nat option \<Rightarrow> sixp_nbr_t nbr_tables \<Rightarrow> sixp_nbr_t nbr_tables option" where
  "nbr_init_loop nbr s =
     (if nbr \<noteq> None then
        (let next_nbr = nbr_table_next (Some sixp_nbrs) nbr s
         in nbr_init_loop next_nbr (sixp_nbr_free nbr s))
      else Some s)"

declare nbr_init_loop.simps [code]

definition sixp_nbr_init :: "sixp_nbr_t nbr_tables \<Rightarrow> (int \<times> sixp_nbr_t nbr_tables) option" where
  "sixp_nbr_init s =
     (if \<not> nbr_table_is_registered (Some sixp_nbrs) s
      then Some (0, snd (nbr_table_register sixp_nbrs None s))
      else map_option (\<lambda>s'. (0, s')) (nbr_init_loop (nbr_table_head (Some sixp_nbrs) s) s))"

section \<open>The table as a map from addresses to sequence numbers\<close>

text \<open>The invariant, and what the table holds for an address.\<close>

definition sn_inv :: "sixp_nbr_t nbr_tables \<Rightarrow> bool" where
  "sn_inv s \<longleftrightarrow> nt_inv s \<and> registered s sixp_nbrs"

definition seqno_of :: "sixp_nbr_t nbr_tables \<Rightarrow> linkaddr \<Rightarrow> u8 option" where
  "seqno_of s a = map_option (\<lambda>n. next_seqno (nbr_item s n)) (sixp_nbr_find (Some a) s)"

definition next_seq :: "u8 \<Rightarrow> u8" where
  "next_seq q = (if q = 255 then 1 else q + 1)"

text \<open>The contract of the table for its client, the transactions: each operation changes the sequence number of one neighbor.\<close>

locale seqno_table =
  fixes invar :: "'s \<Rightarrow> bool"
    and nfind :: "linkaddr option \<Rightarrow> 's \<Rightarrow> nat option"
    and seqno :: "'s \<Rightarrow> linkaddr \<Rightarrow> u8 option"
    and nset :: "nat option \<Rightarrow> u16 \<Rightarrow> 's \<Rightarrow> int \<times> 's"
    and nreset nincr :: "nat option \<Rightarrow> 's \<Rightarrow> int \<times> 's"
  assumes find_iff: "nfind (Some a) s = None \<longleftrightarrow> seqno s a = None"
    and set_law: "invar s \<Longrightarrow> is_linkaddr a \<Longrightarrow> nfind (Some a) s = Some n \<Longrightarrow> is_linkaddr b \<Longrightarrow>
      invar (snd (nset (Some n) q s)) \<and> nfind (Some b) (snd (nset (Some n) q s)) = nfind (Some b) s \<and>
      seqno (snd (nset (Some n) q s)) b = (if b = a then Some (ucast q) else seqno s b)"
    and reset_law: "invar s \<Longrightarrow> is_linkaddr a \<Longrightarrow> nfind (Some a) s = Some n \<Longrightarrow> is_linkaddr b \<Longrightarrow>
      invar (snd (nreset (Some n) s)) \<and> nfind (Some b) (snd (nreset (Some n) s)) = nfind (Some b) s \<and>
      seqno (snd (nreset (Some n) s)) b = (if b = a then Some 0 else seqno s b)"
    and incr_law: "invar s \<Longrightarrow> is_linkaddr a \<Longrightarrow> nfind (Some a) s = Some n \<Longrightarrow> is_linkaddr b \<Longrightarrow>
      invar (snd (nincr (Some n) s)) \<and> nfind (Some b) (snd (nincr (Some n) s)) = nfind (Some b) s \<and>
      seqno (snd (nincr (Some n) s)) b = (if b = a then map_option next_seq (seqno s a) else seqno s b)"
begin

lemma set_incr:
  assumes "invar s" "is_linkaddr a" "nfind (Some a) s = Some n" "is_linkaddr b"
  shows "invar (snd (nincr (Some n) (snd (nset (Some n) q s))))"
    "nfind (Some b) (snd (nincr (Some n) (snd (nset (Some n) q s)))) = nfind (Some b) s"
    "seqno (snd (nincr (Some n) (snd (nset (Some n) q s)))) b = (if b = a then Some (next_seq (ucast q)) else seqno s b)"
proof -
  note set_law [OF assms(1-3) assms(2), of q] set_law [OF assms, of q]
  moreover from this have "nfind (Some a) (snd (nset (Some n) q s)) = Some n" using assms(3) by simp
  ultimately show "invar (snd (nincr (Some n) (snd (nset (Some n) q s))))"
    "nfind (Some b) (snd (nincr (Some n) (snd (nset (Some n) q s)))) = nfind (Some b) s"
    "seqno (snd (nincr (Some n) (snd (nset (Some n) q s)))) b = (if b = a then Some (next_seq (ucast q)) else seqno s b)"
    using incr_law [of "snd (nset (Some n) q s)" a n b] assms(2,4) by auto
qed

lemma seqno_found: "nfind (Some a) s = Some n \<Longrightarrow> \<exists>q. seqno s a = Some q"
  using find_iff [of a s] by auto

end

section \<open>The table meets its contract\<close>

lemma item_upd_fields [simp]:
  "used_map (nbr_item_upd n f s) = used_map s" "locked_map (nbr_item_upd n f s) = locked_map s"
  "all_tables (nbr_item_upd n f s) = all_tables s" "num_tables (nbr_item_upd n f s) = num_tables s"
  "neighbor_addr_mem (nbr_item_upd n f s) = neighbor_addr_mem s" "nbr_table_keys (nbr_item_upd n f s) = nbr_table_keys s"
  "nt_index (tabs (nbr_item_upd n f s) t) = nt_index (tabs s t)"
  "nt_zero (tabs (nbr_item_upd n f s) t) = nt_zero (tabs s t)"
  "nbr_item (nbr_item_upd n f s) m = (if m = n then f (nbr_item s n) else nbr_item s m)"
  by (simp_all add: nbr_item_upd_def tab_upd_def)

lemma item_upd_inv [simp]: "nt_inv (nbr_item_upd n f s) = nt_inv s" "registered (nbr_item_upd n f s) t = registered s t"
  by (simp_all add: nt_inv_def registered_def nbr_table_is_registered_def)

lemma sn_inv_upd [simp]: "sn_inv (nbr_item_upd n f s) = sn_inv s"
  by (simp add: sn_inv_def)

lemma sixp_nbr_find_lookup: "sixp_nbr_find (Some a) s = lookup s sixp_nbrs a"
  by (simp add: sixp_nbr_find_def)

lemma find_upd [simp]: "sixp_nbr_find a (nbr_item_upd n f s) = sixp_nbr_find a s"
  by (cases a) (auto simp: sixp_nbr_find_lookup [unfolded] sixp_nbr_find_def intro!: lookup_cong simp: key_of_def uses_def)

lemma find_inj:
  assumes "sn_inv s" "is_linkaddr a" "is_linkaddr b" "sixp_nbr_find (Some a) s = Some n" "sixp_nbr_find (Some b) s = Some n"
  shows "a = b"
  using assms key_of_iff [of s a] key_of_iff [of s b]
  by (auto simp: sn_inv_def sixp_nbr_find_lookup lookup_eq split: option.splits if_splits)

lemma seqno_upd:
  assumes "sn_inv s" "is_linkaddr a" "sixp_nbr_find (Some a) s = Some n" "is_linkaddr b"
  shows "seqno_of (nbr_item_upd n f s) b = (if b = a then Some (next_seqno (f (nbr_item s n))) else seqno_of s b)"
  using assms(3) find_inj [OF assms(1,2,4,3)] by (cases "sixp_nbr_find (Some b) s") (auto simp: seqno_of_def)

lemma seqno_of_found: "sixp_nbr_find (Some a) s = Some n \<Longrightarrow> seqno_of s a = Some (next_seqno (nbr_item s n))"
  by (simp add: seqno_of_def)

lemma u8_wrap: "q + 1 = 0 \<longleftrightarrow> q = (255 :: u8)"
proof -
  have "q + 1 = 0 \<longleftrightarrow> q = - 1" by (simp add: eq_neg_iff_add_eq_0)
  moreover have "- 1 = (255 :: u8)" by simp
  ultimately show ?thesis by metis
qed

interpretation sn: seqno_table sn_inv sixp_nbr_find seqno_of sixp_nbr_set_next_seqno sixp_nbr_reset_next_seqno sixp_nbr_increment_next_seqno
proof unfold_locales
  show "sixp_nbr_find (Some a) s = None \<longleftrightarrow> seqno_of s a = None" for a s by (simp add: seqno_of_def)
qed (simp_all add: sixp_nbr_set_next_seqno_def sixp_nbr_reset_next_seqno_def sixp_nbr_increment_next_seqno_def seqno_upd
      next_seq_def seqno_of_found u8_wrap Let_def)

text \<open>A new neighbor starts with sequence number 0. At most one other neighbor disappears.\<close>

lemma add_lladdr_data:
  assumes "nt_inv s" "is_linkaddr a" "nbr_table_add_lladdr p t (Some a) r d s = (Some k, s')"
  shows "nt_data (tabs s' t) j = (if j = k then nt_zero (tabs s t) else nt_data (tabs s t) j)" "registered s' t = registered s t"
proof -
  obtain s1 where s1: "s' = take_item t k s1" "tabs s1 = tabs s" "all_tables s1 = all_tables s"
  proof (cases "key_of s a")
    case (Some j)
    then show ?thesis using that [of s] assms(3) by (auto simp: add_eq)
  next
    case None
    then show ?thesis
      using that assms(3) allocate_new_key [OF assms(1,2)]
      by (auto simp: add_eq new_key_def split: prod.splits option.splits)
  qed
  show "nt_data (tabs s' t) j = (if j = k then nt_zero (tabs s t) else nt_data (tabs s t) j)" "registered s' t = registered s t"
    using s1 by (simp_all add: take_item_def tab_upd_def registered_def nbr_table_is_registered_def Let_def)
qed

lemma sixp_nbr_alloc_spec:
  assumes inv: "sn_inv s" and a: "is_linkaddr a" and new: "sixp_nbr_find (Some a) s = None"
    and al: "sixp_nbr_alloc policy (Some a) s = (res, s')"
  shows "(res = None \<longrightarrow> s' = s) \<and> (\<forall>n. res = Some n \<longrightarrow> sn_inv s' \<and> sixp_nbr_find (Some a) s' = Some n \<and> seqno_of s' a = Some 0 \<and>
    (\<forall>b. is_linkaddr b \<longrightarrow> b \<noteq> a \<longrightarrow> seqno_of s' b = seqno_of s b \<or> seqno_of s' b = None))"
proof -
  obtain s1 where add: "nbr_table_add_lladdr policy sixp_nbrs (Some a) NBR_TABLE_REASON_SIXTOP None s = (res, s1)"
    and s': "s' = (case res of None \<Rightarrow> s1 | Some n \<Rightarrow> nbr_item_upd n (\<lambda>x. x\<lparr>nbr_addr := linkaddr_copy (nbr_addr x) a, next_seqno := 0\<rparr>) s1)"
    using al new by (auto simp: sixp_nbr_alloc_def SIXP_INITIAL_SEQUENCE_NUMBER_def split: prod.splits option.splits)
  have i: "nt_inv s" "registered s sixp_nbrs" using inv by (simp_all add: sn_inv_def)
  have spec: "nt_inv s1" "res = None \<longrightarrow> s1 = s"
    "\<And>n b. res = Some n \<Longrightarrow> is_linkaddr b \<Longrightarrow> b \<noteq> a \<Longrightarrow> lookup s1 sixp_nbrs b = lookup s sixp_nbrs b \<or> lookup s1 sixp_nbrs b = None"
    "\<And>n. res = Some n \<Longrightarrow> lookup s1 sixp_nbrs a = Some n"
    by (cases "key_of s a"; use add_known [OF i a add] add_new [OF i a add] i(2) in \<open>auto simp: Let_def\<close>)+
  show ?thesis
  proof (cases res)
    case (Some n)
    note dat = add_lladdr_data [OF i(1) a add [unfolded Some]]
    have inv1: "sn_inv s1" using spec(1) dat(2) i(2) by (simp add: sn_inv_def)
    have f: "sixp_nbr_find (Some a) s1 = Some n" using spec(4) Some by (simp add: sixp_nbr_find_lookup)
    have "seqno_of s1 b = seqno_of s b \<or> seqno_of s1 b = None" if "is_linkaddr b" "b \<noteq> a" for b
    proof -
      have "sixp_nbr_find (Some b) s1 \<noteq> Some n" using find_inj [OF inv1 a that(1) f] that(2) by auto
      then show ?thesis
        using spec(3) [OF Some that] dat(1) by (auto simp: seqno_of_def sixp_nbr_find_lookup)
    qed
    then show ?thesis using Some inv1 f seqno_upd [OF inv1 a f] s' a by auto
  qed (use s' spec in auto)
qed

lemma find_split: "find P xs = Some k \<Longrightarrow> \<exists>a b. xs = a @ k # b \<and> (\<forall>x \<in> set a. \<not> P x)"
proof (induction xs)
  case (Cons x xs)
  show ?case
  proof (cases "P x")
    case True
    then show ?thesis using Cons.prems by (intro exI [of _ "[]"] exI [of _ xs]) simp
  next
    case False
    then obtain a b where "xs = a @ k # b" "\<forall>x \<in> set a. \<not> P x" using Cons by auto
    then show ?thesis using False by (intro exI [of _ "x # a"] exI [of _ b]) simp
  qed
qed simp

text \<open>Initialising again removes every neighbor; the loop ends.\<close>

lemma nbr_init_loop_spec:
  "sn_inv s \<Longrightarrow> nbr_table_keys s = pre @ post \<Longrightarrow>
   \<exists>s'. nbr_init_loop (find (uses s sixp_nbrs) post) s = Some s' \<and> sn_inv s' \<and> key_of s' = key_of s \<and>
     (\<forall>k. uses s' sixp_nbrs k \<longleftrightarrow> uses s sixp_nbrs k \<and> k \<notin> set post)"
proof (induction "length post" arbitrary: s pre post rule: less_induct)
  case less
  note i = less.prems(1) [unfolded sn_inv_def] and d = nt_invD(5) [OF less.prems(1) [unfolded sn_inv_def, THEN conjunct1]]
  show ?case
  proof (cases "find (uses s sixp_nbrs) post")
    case None
    then show ?thesis using less.prems(1) by (auto simp: nbr_init_loop.simps find_None_iff)
  next
    case (Some k)
    then obtain a b where ab: "post = a @ k # b" "\<forall>x \<in> set a. \<not> uses s sixp_nbrs x" using find_split by metis
    let ?s = "sixp_nbr_free (Some k) s"
    have keys: "nbr_table_keys s = (pre @ a) @ k # b" using less.prems(2) ab(1) by simp
    have nx: "nbr_table_next (Some sixp_nbrs) (Some k) s = find (uses s sixp_nbrs) b" by (rule nbr_table_next_eq [OF d keys])
    have k: "k \<in> set (nbr_table_keys s)" using keys by simp
    note r = remove_props [OF i [THEN conjunct1] i [THEN conjunct2] k]
    have us: "uses ?s sixp_nbrs j \<longleftrightarrow> uses s sixp_nbrs j \<and> j \<noteq> k" for j
      using r(6) i by (simp add: sixp_nbr_free_def)
    have "find (uses s sixp_nbrs) b = find (uses ?s sixp_nbrs) b" using d keys us by (intro find_cong) auto
    moreover have "sn_inv ?s" using r(1,3,4) i by (simp add: sn_inv_def sixp_nbr_free_def registered_def nbr_table_is_registered_def)
    moreover have "nbr_table_keys ?s = ((pre @ a) @ [k]) @ b" using r(5) keys by (simp add: sixp_nbr_free_def)
    moreover have "length b < length post" using ab(1) by simp
    ultimately obtain s' where "nbr_init_loop (find (uses s sixp_nbrs) b) ?s = Some s'" "sn_inv s'" "key_of s' = key_of ?s"
      "\<forall>j. uses s' sixp_nbrs j \<longleftrightarrow> uses ?s sixp_nbrs j \<and> j \<notin> set b"
      using less.hyps [of b ?s "(pre @ a) @ [k]"] by auto
    then show ?thesis
      using Some nx us ab r(2) by (auto simp: nbr_init_loop.simps [of "Some k"] Let_def sixp_nbr_free_def)
  qed
qed

lemma sixp_nbr_init_again:
  assumes "sn_inv s"
  shows "\<exists>s'. sixp_nbr_init s = Some (0, s') \<and> sn_inv s' \<and> (\<forall>a. is_linkaddr a \<longrightarrow> seqno_of s' a = None)"
proof -
  obtain s' where s': "nbr_init_loop (nbr_table_head (Some sixp_nbrs) s) s = Some s'" "sn_inv s'" "key_of s' = key_of s"
    "\<And>k. uses s' sixp_nbrs k \<longleftrightarrow> uses s sixp_nbrs k \<and> k \<notin> set (nbr_table_keys s)"
    using nbr_init_loop_spec [OF assms, of "[]" "nbr_table_keys s"] by (auto simp: nbr_table_head_eq)
  have "sixp_nbr_find (Some a) s' = None" if "is_linkaddr a" for a
    using s'(3,4) key_of_iff [of s a] that assms by (auto simp: sixp_nbr_find_lookup lookup_eq sn_inv_def split: option.split)
  then show ?thesis using s'(1,2) assms by (auto simp: sixp_nbr_init_def sn_inv_def registered_def seqno_of_def)
qed

end
