(* ===== verification/SixpTrans.thy ===== *)
theory SixpTrans
  imports SixpNbr SixpPktProps
begin

text \<open>
  The transactions of the 6top protocol, \<^verbatim>\<open>os/net/mac/tsch/sixtop/sixp-trans.c\<close>, and the table of scheduling functions of
  \<^verbatim>\<open>sixtop.c\<close> they refer to.

  A pointer to a transaction is the index of its block in the pool (None: NULL); a block that has been freed keeps its
  contents, so what happens through a dangling pointer is visible. Each transaction has one timer; a running timer is its
  interval and the function it calls. The handlers of a scheduling function are code outside these files:
  they are functions on the state, passed as arguments (\<open>tmo\<close> for \<open>timeout\<close>, \<open>sent\<close> for the
  callback of a sent message), and \<open>sf_state\<close> is whatever state they keep.
\<close>

section \<open>State\<close>

definition SIXTOP_MAX_TRANSACTIONS :: nat where "SIXTOP_MAX_TRANSACTIONS = 1"
definition SIXTOP_MAX_SCHEDULING_FUNCTIONS :: nat where "SIXTOP_MAX_SCHEDULING_FUNCTIONS = 1"

datatype sixp_trans_state_t = SIXP_TRANS_STATE_UNAVAILABLE | SIXP_TRANS_STATE_INIT | SIXP_TRANS_STATE_REQUEST_SENT
  | SIXP_TRANS_STATE_REQUEST_RECEIVED | SIXP_TRANS_STATE_RESPONSE_SENT | SIXP_TRANS_STATE_RESPONSE_RECEIVED
  | SIXP_TRANS_STATE_CONFIRMATION_SENT | SIXP_TRANS_STATE_CONFIRMATION_RECEIVED | SIXP_TRANS_STATE_TERMINATING

datatype sixp_trans_mode_t = SIXP_TRANS_MODE_UNAVAILABLE | SIXP_TRANS_MODE_2_STEP | SIXP_TRANS_MODE_3_STEP

datatype sixp_output_status_t = SIXP_OUTPUT_STATUS_SUCCESS | SIXP_OUTPUT_STATUS_FAILURE

text \<open>Of the function pointers of a scheduling function the structure says which ones are not NULL.\<close>

record sixtop_sf_t =
  sfid :: u8
  timeout_interval :: nat
  sf_has_init :: bool
  sf_has_input :: bool
  sf_has_timeout :: bool

datatype timer_fn = Handle_trans_timeout | Process_trans

record sixp_trans_t =
  tr_sf :: "sixtop_sf_t option"
  peer_addr :: linkaddr
  tr_seqno :: u8
  tr_cmd :: u8
  tr_state :: sixp_trans_state_t
  tr_mode :: sixp_trans_mode_t
  cb_func :: "nat option"
  cb_arg :: "nat option"
  cb_arg_len :: u16
  tr_timer :: "(nat \<times> timer_fn) option"

text \<open>\<open>mac_sent\<close> holds the packets handed to the MAC layer whose transmission has not been reported, each with the
  transaction its callback refers to, if it has one.\<close>

record 'a sixp_node =
  sixp_nbr_tab :: "sixp_nbr_t nbr_tables"
  trans_memb :: "sixp_trans_t memb"
  trans_list :: "nat list"
  scheduling_functions :: "sixtop_sf_t option list"
  node_packetbuf :: packetbuf
  linkaddr_node_addr :: linkaddr
  mac_sent :: "(packetbuf \<times> nat option) list"
  sf_state :: 'a

type_synonym 'a timeout_handler = "u8 \<Rightarrow> u8 \<Rightarrow> linkaddr \<Rightarrow> 'a sixp_node \<Rightarrow> 'a sixp_node outcome"
type_synonym 'a sent_handler =
  "nat \<Rightarrow> nat option \<Rightarrow> u16 \<Rightarrow> linkaddr \<Rightarrow> sixp_output_status_t \<Rightarrow> 'a sixp_node \<Rightarrow> 'a sixp_node outcome"

abbreviation trans_at :: "'a sixp_node \<Rightarrow> nat \<Rightarrow> sixp_trans_t" where
  "trans_at s t \<equiv> mb_mem (trans_memb s) t"

definition trans_upd :: "nat \<Rightarrow> (sixp_trans_t \<Rightarrow> sixp_trans_t) \<Rightarrow> 'a sixp_node \<Rightarrow> 'a sixp_node" where
  "trans_upd t f s = s\<lparr>trans_memb := blk_upd t f (trans_memb s)\<rparr>"

definition sixp_trans_zero :: sixp_trans_t where
  "sixp_trans_zero = \<lparr>tr_sf = None, peer_addr = linkaddr_null, tr_seqno = 0, tr_cmd = 0, tr_state = SIXP_TRANS_STATE_UNAVAILABLE,
     tr_mode = SIXP_TRANS_MODE_UNAVAILABLE, cb_func = None, cb_arg = None, cb_arg_len = 0, tr_timer = None\<rparr>"

section \<open>Scheduling functions\<close>

definition sixtop_find_sf :: "u8 \<Rightarrow> 'a sixp_node \<Rightarrow> sixtop_sf_t option" where
  "sixtop_find_sf i s =
     (case find (\<lambda>e. case e of None \<Rightarrow> False | Some f \<Rightarrow> sfid f = i) (scheduling_functions s) of
        None \<Rightarrow> None | Some e \<Rightarrow> e)"

section \<open>Timers\<close>

definition ctimer_stop :: "nat \<Rightarrow> 'a sixp_node \<Rightarrow> 'a sixp_node" where
  "ctimer_stop t s = trans_upd t (\<lambda>x. x\<lparr>tr_timer := None\<rparr>) s"

definition ctimer_set :: "nat \<Rightarrow> nat \<Rightarrow> timer_fn \<Rightarrow> 'a sixp_node \<Rightarrow> 'a sixp_node" where
  "ctimer_set t interval f s = trans_upd t (\<lambda>x. x\<lparr>tr_timer := Some (interval, f)\<rparr>) s"

definition start_trans_timer :: "nat \<Rightarrow> 'a sixp_node \<Rightarrow> 'a sixp_node outcome" where
  "start_trans_timer t s =
     (case tr_sf (trans_at s t) of None \<Rightarrow> Fault
      | Some f \<Rightarrow> Done (ctimer_set t (timeout_interval f) Handle_trans_timeout s))"

definition schedule_trans_process :: "nat option \<Rightarrow> 'a sixp_node \<Rightarrow> 'a sixp_node" where
  "schedule_trans_process tr s =
     (case tr of None \<Rightarrow> s | Some t \<Rightarrow> ctimer_set t 0 Process_trans (ctimer_stop t s))"

section \<open>State transitions\<close>

definition free_trans :: "nat option \<Rightarrow> 'a sixp_node \<Rightarrow> 'a sixp_node" where
  "free_trans tr s =
     (case tr of None \<Rightarrow> s
      | Some t \<Rightarrow> s\<lparr>trans_list := remove1 t (trans_list s), trans_memb := snd (memb_free t (trans_memb s))\<rparr>)"

definition determine_trans_mode :: "sixp_pkt_t option \<Rightarrow> sixp_trans_mode_t outcome" where
  "determine_trans_mode req =
     (case req of None \<Rightarrow> Done SIXP_TRANS_MODE_UNAVAILABLE
      | Some r \<Rightarrow>
          if sp_type r = SIXP_PKT_TYPE_REQUEST \<and> (sp_code r = SIXP_PKT_CMD_ADD \<or> sp_code r = SIXP_PKT_CMD_DELETE)
          then
            (case sixp_pkt_get_cell_list (sp_type r) (sp_code r) False True (sp_body r) (sp_body_len r) of
               Done (_, cell_list_len) \<Rightarrow> Done (if cell_list_len = 0 then SIXP_TRANS_MODE_3_STEP else SIXP_TRANS_MODE_2_STEP)
             | Failed \<Rightarrow> Done SIXP_TRANS_MODE_2_STEP
             | Fault \<Rightarrow> Fault)
          else Done SIXP_TRANS_MODE_2_STEP)"

text \<open>The rules enforced, and the effect of a transition on the sequence number of the peer.\<close>

definition transition_ok :: "sixp_trans_t \<Rightarrow> sixp_trans_state_t \<Rightarrow> bool" where
  "transition_ok x new_state \<longleftrightarrow>
     new_state = SIXP_TRANS_STATE_TERMINATING \<or>
     new_state = SIXP_TRANS_STATE_REQUEST_SENT \<and> tr_state x = SIXP_TRANS_STATE_INIT \<or>
     new_state = SIXP_TRANS_STATE_REQUEST_RECEIVED \<and> tr_state x = SIXP_TRANS_STATE_INIT \<or>
     new_state = SIXP_TRANS_STATE_RESPONSE_SENT \<and> tr_state x = SIXP_TRANS_STATE_REQUEST_RECEIVED \<or>
     new_state = SIXP_TRANS_STATE_RESPONSE_RECEIVED \<and> tr_state x = SIXP_TRANS_STATE_REQUEST_SENT \<or>
     new_state = SIXP_TRANS_STATE_CONFIRMATION_RECEIVED \<and> tr_state x = SIXP_TRANS_STATE_RESPONSE_SENT \<and>
       tr_mode x = SIXP_TRANS_MODE_3_STEP \<or>
     new_state = SIXP_TRANS_STATE_CONFIRMATION_SENT \<and> tr_state x = SIXP_TRANS_STATE_RESPONSE_RECEIVED \<and>
       tr_mode x = SIXP_TRANS_MODE_3_STEP"

definition transition_seqno :: "sixp_trans_t \<Rightarrow> sixp_trans_state_t \<Rightarrow> sixp_nbr_t nbr_tables \<Rightarrow> sixp_nbr_t nbr_tables" where
  "transition_seqno x new_state tab =
     (if new_state = SIXP_TRANS_STATE_REQUEST_SENT then
        (case sixp_nbr_find (Some (peer_addr x)) tab of
           None \<Rightarrow> tab
         | Some n \<Rightarrow> if tr_cmd x = SIXP_PKT_CMD_CLEAR then tab else snd (sixp_nbr_increment_next_seqno (Some n) tab))
      else if new_state = SIXP_TRANS_STATE_RESPONSE_SENT then
        (case sixp_nbr_find (Some (peer_addr x)) tab of
           None \<Rightarrow> tab
         | Some n \<Rightarrow>
             snd (sixp_nbr_increment_next_seqno (Some n)
                    (if tr_seqno x \<noteq> 0 then snd (sixp_nbr_set_next_seqno (Some n) (ucast (tr_seqno x)) tab) else tab)))
      else tab)"

definition sixp_trans_transit_state :: "nat option \<Rightarrow> sixp_trans_state_t \<Rightarrow> 'a sixp_node \<Rightarrow> int \<times> 'a sixp_node" where
  "sixp_trans_transit_state tr new_state s =
     (case tr of None \<Rightarrow> (-1, s)
      | Some t \<Rightarrow>
          if transition_ok (trans_at s t) new_state then
            (let s1 = s\<lparr>sixp_nbr_tab := transition_seqno (trans_at s t) new_state (sixp_nbr_tab s)\<rparr>;
                 s2 = trans_upd t (\<lambda>x. x\<lparr>tr_state := new_state\<rparr>) s1
             in (0, schedule_trans_process (Some t) s2))
          else (-1, s))"

section \<open>Timer callbacks\<close>

definition handle_trans_timeout :: "'a timeout_handler \<Rightarrow> nat option \<Rightarrow> 'a sixp_node \<Rightarrow> 'a sixp_node outcome" where
  "handle_trans_timeout tmo ptr s =
     (case ptr of None \<Rightarrow> Done s
      | Some t \<Rightarrow>
          (case tr_sf (trans_at s t) of None \<Rightarrow> Fault
           | Some f \<Rightarrow>
               obind (if sf_has_timeout f then tmo (sfid f) (tr_cmd (trans_at s t)) (peer_addr (trans_at s t)) s else Done s) (\<lambda>s1.
               Done (snd (sixp_trans_transit_state (Some t) SIXP_TRANS_STATE_TERMINATING s1)))))"

definition process_trans :: "nat option \<Rightarrow> 'a sixp_node \<Rightarrow> 'a sixp_node outcome" where
  "process_trans ptr s =
     (case ptr of None \<Rightarrow> Done s
      | Some t \<Rightarrow>
          (let s1 = ctimer_stop t s; x = trans_at s1 t in
           if tr_state x = SIXP_TRANS_STATE_TERMINATING then Done (free_trans (Some t) s1)
           else
             (let s2 = (if (tr_state x = SIXP_TRANS_STATE_RESPONSE_SENT \<or> tr_state x = SIXP_TRANS_STATE_RESPONSE_RECEIVED) \<and>
                           tr_mode x = SIXP_TRANS_MODE_2_STEP \<or>
                           tr_state x = SIXP_TRANS_STATE_CONFIRMATION_SENT \<or> tr_state x = SIXP_TRANS_STATE_CONFIRMATION_RECEIVED
                        then snd (sixp_trans_transit_state (Some t) SIXP_TRANS_STATE_TERMINATING s1) else s1)
              in if tr_state (trans_at s2 t) \<noteq> SIXP_TRANS_STATE_TERMINATING then start_trans_timer t s2 else Done s2)))"

section \<open>Access\<close>

definition sixp_trans_get_cmd :: "nat option \<Rightarrow> 'a sixp_node \<Rightarrow> u8" where
  "sixp_trans_get_cmd tr s = (case tr of None \<Rightarrow> SIXP_PKT_CMD_UNAVAILABLE | Some t \<Rightarrow> tr_cmd (trans_at s t))"

definition sixp_trans_get_state :: "nat option \<Rightarrow> 'a sixp_node \<Rightarrow> sixp_trans_state_t" where
  "sixp_trans_get_state tr s = (case tr of None \<Rightarrow> SIXP_TRANS_STATE_UNAVAILABLE | Some t \<Rightarrow> tr_state (trans_at s t))"

definition sixp_trans_get_seqno :: "nat option \<Rightarrow> 'a sixp_node \<Rightarrow> int" where
  "sixp_trans_get_seqno tr s = (case tr of None \<Rightarrow> -1 | Some t \<Rightarrow> uint (tr_seqno (trans_at s t)))"

definition sixp_trans_get_mode :: "nat option \<Rightarrow> 'a sixp_node \<Rightarrow> sixp_trans_mode_t" where
  "sixp_trans_get_mode tr s = (case tr of None \<Rightarrow> SIXP_TRANS_MODE_UNAVAILABLE | Some t \<Rightarrow> tr_mode (trans_at s t))"

definition sixp_trans_invoke_callback ::
    "'a sent_handler \<Rightarrow> nat option \<Rightarrow> sixp_output_status_t \<Rightarrow> 'a sixp_node \<Rightarrow> 'a sixp_node outcome" where
  "sixp_trans_invoke_callback sent tr status s =
     (case tr of None \<Rightarrow> Done s
      | Some t \<Rightarrow>
          (case cb_func (trans_at s t) of None \<Rightarrow> Done s
           | Some f \<Rightarrow> sent f (cb_arg (trans_at s t)) (cb_arg_len (trans_at s t)) (peer_addr (trans_at s t)) status s))"

definition sixp_trans_set_callback ::
    "nat option \<Rightarrow> nat option \<Rightarrow> nat option \<Rightarrow> u16 \<Rightarrow> 'a sixp_node \<Rightarrow> 'a sixp_node" where
  "sixp_trans_set_callback tr func arg arg_len s =
     (case tr of None \<Rightarrow> s
      | Some t \<Rightarrow> trans_upd t (\<lambda>x. x\<lparr>cb_func := func, cb_arg := arg, cb_arg_len := arg_len\<rparr>) s)"

definition sixp_trans_find :: "linkaddr option \<Rightarrow> 'a sixp_node \<Rightarrow> nat option" where
  "sixp_trans_find addr s =
     (case addr of None \<Rightarrow> None | Some a \<Rightarrow> find (\<lambda>t. take LINKADDR_SIZE a = take LINKADDR_SIZE (peer_addr (trans_at s t))) (trans_list s))"

definition sixp_trans_alloc ::
    "sixp_pkt_t option \<Rightarrow> linkaddr option \<Rightarrow> 'a sixp_node \<Rightarrow> (nat option \<times> 'a sixp_node) outcome" where
  "sixp_trans_alloc pkt addr s =
     (case (pkt, addr) of
        (Some p, Some a) \<Rightarrow>
          (case sixtop_find_sf (sp_sfid p) s of None \<Rightarrow> Done (None, s)
           | Some f \<Rightarrow>
               if sixp_trans_find addr s \<noteq> None then Done (None, s)
               else
                 (case memb_alloc (trans_memb s) of
                    (None, m) \<Rightarrow> Done (None, s\<lparr>trans_memb := m\<rparr>)
                  | (Some t, m) \<Rightarrow>
                      obind (determine_trans_mode pkt) (\<lambda>mode.
                        let x = sixp_trans_zero\<lparr>tr_sf := Some f, peer_addr := a, tr_seqno := sp_seqno p, tr_cmd := sp_code p,
                                  tr_state := SIXP_TRANS_STATE_INIT, tr_mode := mode\<rparr>;
                            s1 = s\<lparr>trans_memb := blk_upd t (\<lambda>_. x) m, trans_list := alist_add t (trans_list s)\<rparr>
                        in obind (start_trans_timer t s1) (\<lambda>s2. Done (Some t, s2)))))
      | _ \<Rightarrow> Done (None, s))"

fun trans_init_loop :: "nat list \<Rightarrow> 'a sixp_node \<Rightarrow> 'a sixp_node" where
  "trans_init_loop [] s = s"
| "trans_init_loop (t # ts) s = trans_init_loop ts (free_trans (Some t) (ctimer_stop t s))"

definition sixp_trans_init :: "'a sixp_node \<Rightarrow> int \<times> 'a sixp_node" where
  "sixp_trans_init s =
     (let s1 = trans_init_loop (trans_list s) s
      in (0, s1\<lparr>trans_list := [], trans_memb := memb_init sixp_trans_zero (trans_memb s1)\<rparr>))"

end
