(* ===== verification/Sixp.thy ===== *)
theory Sixp
  imports SixpTrans Framer IeProps
begin

text \<open>
  The 6top protocol and sublayer, \<^verbatim>\<open>os/net/mac/tsch/sixtop/sixp.c\<close> and \<^verbatim>\<open>sixtop.c\<close>: sending and receiving 6P messages over
  the transactions of \<^verbatim>\<open>SixpTrans\<close>.

  The MAC layer is represented by the packets handed to it (\<open>mac_sent\<close>); it reports the outcome of a transmission later, by
  a call of \<open>mac_callback\<close>. A callback argument of \<open>sixtop_output\<close> is None for NULL and otherwise the
  transaction passed with \<open>mac_callback\<close>. \<open>inp\<close>, \<open>ini\<close> and \<open>sent\<close> are the handlers of the scheduling functions, \<open>pol\<close> is
  the replacement policy of the neighbor tables.
\<close>

type_synonym 'a input_handler =
  "u8 \<Rightarrow> sixp_pkt_type_t \<Rightarrow> u8 \<Rightarrow> u8 list option \<Rightarrow> u16 \<Rightarrow> linkaddr \<Rightarrow> 'a sixp_node \<Rightarrow> 'a sixp_node outcome"
type_synonym 'a init_handler = "u8 \<Rightarrow> 'a sixp_node \<Rightarrow> 'a sixp_node outcome"

abbreviation (input) MAC_OK :: int where "MAC_OK \<equiv> 0"
abbreviation (input) MAC_ERR_FATAL :: int where "MAC_ERR_FATAL \<equiv> 5"

section \<open>Reports of the MAC layer\<close>

text \<open>The state that a report asks for: None if it is unexpected.\<close>

definition mac_new_state :: "int \<Rightarrow> sixp_trans_state_t \<Rightarrow> sixp_trans_state_t option" where
  "mac_new_state status current_state =
     (if status = MAC_OK then
        (case current_state of
           SIXP_TRANS_STATE_INIT \<Rightarrow> Some SIXP_TRANS_STATE_REQUEST_SENT
         | SIXP_TRANS_STATE_REQUEST_RECEIVED \<Rightarrow> Some SIXP_TRANS_STATE_RESPONSE_SENT
         | SIXP_TRANS_STATE_RESPONSE_RECEIVED \<Rightarrow> Some SIXP_TRANS_STATE_CONFIRMATION_SENT
         | _ \<Rightarrow> None)
      else if current_state = SIXP_TRANS_STATE_INIT then Some SIXP_TRANS_STATE_TERMINATING
      else Some current_state)"

definition mac_callback :: "'a sent_handler \<Rightarrow> nat option \<Rightarrow> int \<Rightarrow> 'a sixp_node \<Rightarrow> 'a sixp_node outcome" where
  "mac_callback sent ptr status s =
     (case ptr of None \<Rightarrow> Done s
      | Some t \<Rightarrow>
          (let current_state = sixp_trans_get_state ptr s in
           case mac_new_state status current_state of None \<Rightarrow> Done s
           | Some new_state \<Rightarrow>
               (let (ret, s1) = (if new_state \<noteq> current_state then sixp_trans_transit_state ptr new_state s else (0, s)) in
                if new_state \<noteq> current_state \<and> ret \<noteq> 0
                then Done (snd (sixp_trans_transit_state ptr SIXP_TRANS_STATE_TERMINATING s1))
                else
                  obind (sixp_trans_invoke_callback sent ptr
                      (if status = MAC_OK then SIXP_OUTPUT_STATUS_SUCCESS else SIXP_OUTPUT_STATUS_FAILURE) s1) (\<lambda>s2.
                  Done (sixp_trans_set_callback ptr None None 0 s2)))))"

section \<open>Sending a packet\<close>

definition call_back :: "'a sent_handler \<Rightarrow> nat option \<Rightarrow> int \<Rightarrow> 'a sixp_node \<Rightarrow> 'a sixp_node outcome" where
  "call_back sent cb status s = (if cb \<noteq> None then mac_callback sent cb status s else Done s)"

definition mac_send :: "nat option \<Rightarrow> 'a sixp_node \<Rightarrow> 'a sixp_node" where
  "mac_send cb s = s\<lparr>mac_sent := mac_sent s @ [(node_packetbuf s, cb)]\<rparr>"

definition set_packetbuf :: "packetbuf \<Rightarrow> 'a sixp_node \<Rightarrow> 'a sixp_node" where
  "set_packetbuf p s = s\<lparr>node_packetbuf := p\<rparr>"

definition ies_zero :: ieee802154_ies where
  "ies_zero = \<lparr>ie_time_correction = 0, ie_is_nack = 0, ie_payload_ie_offset = 0, ie_mlme_len = 0,
     ie_tsch_synchronization_offset = 0, ie_asn = \<lparr>ls4b = 0, ms1b = 0\<rparr>, ie_join_priority = 0, ie_tsch_timeslot_id = 0,
     ie_tsch_timeslot = replicate 12 0,
     ie_tsch_slotframe_and_link = \<lparr>num_slotframes = 0, sfl_handle = 0, slotframe_size = 0, num_links = 0,
       links = replicate FRAME802154E_IE_MAX_LINKS \<lparr>sl_timeslot = 0, sl_channel_offset = 0, sl_link_options = 0\<rparr>\<rparr>,
     ie_channel_hopping_sequence_id = 0, ie_hopping_sequence_len = 0, ie_hopping_sequence_list = replicate 4 0,
     sixtop_ie_content_ptr = None, sixtop_ie_content_len = 0\<rparr>"

definition sixtop_output ::
    "'a sent_handler \<Rightarrow> linkaddr option \<Rightarrow> nat option \<Rightarrow> 'a sixp_node \<Rightarrow> 'a sixp_node outcome" where
  "sixtop_output sent dst cb s =
     (case dst of None \<Rightarrow> call_back sent cb MAC_ERR_FATAL s
      | Some dest \<Rightarrow>
          (let (ok, p) = packetbuf_hdralloc 1 (node_packetbuf s); s1 = set_packetbuf p s in
           if ok \<noteq> 1 then Done s1
           else
             obind (mem_write (packetbuf_hdrptr p) [SIXTOP_SUBIE_ID] (pb_data p)) (\<lambda>d1.
               let p1 = p\<lparr>pb_data := d1\<rparr>;
                   ies = ies_zero\<lparr>sixtop_ie_content_len := packetbuf_totlen p1\<rparr>;
                   (ok2, p2) = packetbuf_hdralloc 2 p1
               in if ok2 \<noteq> 1 then call_back sent cb MAC_ERR_FATAL (set_packetbuf p2 s)
                  else
                    (case frame80215e_create_ie_ietf (packetbuf_hdrptr p2) 2 (Some ies) (pb_data p2) of
                       Fault \<Rightarrow> Fault
                     | Failed \<Rightarrow> call_back sent cb MAC_ERR_FATAL (set_packetbuf p2 s)
                     | Done (_, d2) \<Rightarrow>
                         (let (ok3, p3) = packetbuf_hdralloc 2 (p2\<lparr>pb_data := d2\<rparr>);
                              term = (if ok3 \<noteq> 0
                                      then frame80215e_create_ie_header_list_termination_1 (packetbuf_hdrptr p3) 2 (Some ies_zero) (pb_data p3)
                                      else Done (0, pb_data p3))
                          in case term of
                               Fault \<Rightarrow> Fault
                             | Failed \<Rightarrow> if cb = None then Fault else mac_callback sent cb MAC_ERR_FATAL (set_packetbuf p3 s)
                             | Done (_, d3) \<Rightarrow>
                                 (let p4 = packetbuf_set_attr PACKETBUF_ATTR_MAC_METADATA 1 (p3\<lparr>pb_data := d3\<rparr>);
                                      p5 = packetbuf_set_attr PACKETBUF_ATTR_FRAME_TYPE (ucast FRAME802154_DATAFRAME) p4;
                                      p6 = packetbuf_set_addr PACKETBUF_ADDR_RECEIVER dest p5;
                                      p7 = packetbuf_set_addr PACKETBUF_ADDR_SENDER (linkaddr_node_addr s) p6
                                  in Done (mac_send cb (set_packetbuf p7 s))))))))"

section \<open>6P messages\<close>

definition send_back_error ::
    "'a sent_handler \<Rightarrow> sixp_pkt_type_t \<Rightarrow> u8 \<Rightarrow> u8 \<Rightarrow> u8 \<Rightarrow> linkaddr option \<Rightarrow> 'a sixp_node \<Rightarrow> (int \<times> 'a sixp_node) outcome" where
  "send_back_error sent type code i seqno dst s =
     obind (sixp_pkt_create type code i seqno None 0 None (node_packetbuf s)) (\<lambda>(r, _, p).
       if r < 0 then Done (-1, set_packetbuf p s)
       else obind (sixtop_output sent dst None (set_packetbuf p s)) (\<lambda>s1. Done (0, s1)))"

text \<open>The state transition that ends the processing of an accepted message, with the call of the scheduling function.\<close>

definition sixp_accept ::
    "'a input_handler \<Rightarrow> sixtop_sf_t \<Rightarrow> sixp_pkt_t \<Rightarrow> linkaddr \<Rightarrow> nat \<Rightarrow> 'a sixp_node \<Rightarrow> 'a sixp_node outcome" where
  "sixp_accept inp sf pkt src t s =
     (let new_state = (case sp_type pkt of SIXP_PKT_TYPE_REQUEST \<Rightarrow> Some SIXP_TRANS_STATE_REQUEST_RECEIVED
                       | SIXP_PKT_TYPE_RESPONSE \<Rightarrow> Some SIXP_TRANS_STATE_RESPONSE_RECEIVED
                       | SIXP_PKT_TYPE_CONFIRMATION \<Rightarrow> Some SIXP_TRANS_STATE_CONFIRMATION_RECEIVED
                       | _ \<Rightarrow> None)
      in case new_state of None \<Rightarrow> Done s
         | Some n \<Rightarrow>
             (let (ret, s1) = sixp_trans_transit_state (Some t) n s in
              if ret < 0 then Done (snd (sixp_trans_transit_state (Some t) SIXP_TRANS_STATE_TERMINATING s1))
              else if sf_has_input sf then inp (sfid sf) (sp_type pkt) (sp_code pkt) (sp_body pkt) (sp_body_len pkt) src s1
              else Done s1))"

text \<open>The inconsistency between the sequence number of a request and the one kept for the neighbor.\<close>

definition seqno_mismatch :: "sixp_pkt_t \<Rightarrow> nat option \<Rightarrow> 'a sixp_node \<Rightarrow> bool" where
  "seqno_mismatch pkt nbr s \<longleftrightarrow> sp_code pkt \<noteq> SIXP_PKT_CMD_CLEAR \<and>
     (nbr = None \<and> sp_seqno pkt \<noteq> 0 \<or>
      nbr \<noteq> None \<and> sixp_nbr_get_next_seqno nbr (sixp_nbr_tab s) \<noteq> 0 \<and> sp_seqno pkt = 0)"

text \<open>A request after the attempt to allocate a transaction for it.\<close>

definition sixp_request_checked :: "'a input_handler \<Rightarrow> 'a sent_handler \<Rightarrow> sixtop_sf_t \<Rightarrow> sixp_pkt_t \<Rightarrow> linkaddr \<Rightarrow>
    nat option \<Rightarrow> 'a sixp_node \<Rightarrow> 'a sixp_node outcome" where
  "sixp_request_checked inp sent sf pkt src tr s =
     (case tr of
        None \<Rightarrow>
          obind (send_back_error sent SIXP_PKT_TYPE_RESPONSE SIXP_PKT_RC_ERR_BUSY (sp_sfid pkt) (sp_seqno pkt) (Some src) s)
            (\<lambda>(_, s1). Done s1)
      | Some t \<Rightarrow>
          (let nbr = sixp_nbr_find (Some src) (sixp_nbr_tab s) in
           if seqno_mismatch pkt nbr s then
             (let s1 = snd (sixp_trans_transit_state (Some t) SIXP_TRANS_STATE_REQUEST_RECEIVED s) in
              obind (send_back_error sent SIXP_PKT_TYPE_RESPONSE SIXP_PKT_RC_ERR_SEQNUM (sp_sfid pkt)
                  (if nbr = None then 0 else word_of_int (sixp_nbr_get_next_seqno nbr (sixp_nbr_tab s1))) (Some src) s1)
                (\<lambda>(_, s2). Done s2))
           else sixp_accept inp sf pkt src t s))"

definition sixp_request ::
    "'a input_handler \<Rightarrow> 'a sent_handler \<Rightarrow> sixtop_sf_t \<Rightarrow> sixp_pkt_t \<Rightarrow> linkaddr \<Rightarrow> 'a sixp_node \<Rightarrow> 'a sixp_node outcome" where
  "sixp_request inp sent sf pkt src s =
     (if sixp_trans_find (Some src) s \<noteq> None then
        obind (send_back_error sent SIXP_PKT_TYPE_RESPONSE SIXP_PKT_RC_ERR_BUSY (sp_sfid pkt) (sp_seqno pkt) (Some src) s)
          (\<lambda>(_, s1). Done s1)
      else
        (let nbr = sixp_nbr_find (Some src) (sixp_nbr_tab s);
             s1 = (if sp_code pkt = SIXP_PKT_CMD_CLEAR \<and> nbr \<noteq> None
                   then s\<lparr>sixp_nbr_tab := snd (sixp_nbr_reset_next_seqno nbr (sixp_nbr_tab s))\<rparr> else s)
         in obind (sixp_trans_alloc (Some pkt) (Some src) s1) (\<lambda>(tr, s2). sixp_request_checked inp sent sf pkt src tr s2)))"

definition sixp_input ::
    "'a input_handler \<Rightarrow> 'a sent_handler \<Rightarrow> u8 list option \<Rightarrow> u16 \<Rightarrow> linkaddr option \<Rightarrow> 'a sixp_node \<Rightarrow> 'a sixp_node outcome" where
  "sixp_input inp sent buf len srca s =
     (case (buf, srca) of
        (Some b, Some src) \<Rightarrow>
          obind (sixp_pkt_parse buf len (Some sixp_pkt_zero)) (\<lambda>(r, pk).
            let pkt = (case pk of Some x \<Rightarrow> x | None \<Rightarrow> sixp_pkt_zero) in
            if r < 0 then
              if sp_version pkt \<noteq> SIXP_PKT_VERSION
              then obind (send_back_error sent SIXP_PKT_TYPE_RESPONSE SIXP_PKT_RC_ERR_VERSION (sp_sfid pkt) (sp_seqno pkt) srca s)
                     (\<lambda>(_, s1). Done s1)
              else Done s
            else if sp_type pkt \<noteq> SIXP_PKT_TYPE_REQUEST \<and> sp_type pkt \<noteq> SIXP_PKT_TYPE_RESPONSE \<and>
                    sp_type pkt \<noteq> SIXP_PKT_TYPE_CONFIRMATION then Done s
            else
              (case sixtop_find_sf (sp_sfid pkt) s of
                 None \<Rightarrow>
                   obind (send_back_error sent SIXP_PKT_TYPE_RESPONSE SIXP_PKT_RC_ERR_SFID (sp_sfid pkt) (sp_seqno pkt) srca s)
                     (\<lambda>(_, s1). Done s1)
               | Some sf \<Rightarrow>
                   if sp_type pkt = SIXP_PKT_TYPE_REQUEST then sixp_request inp sent sf pkt src s
                   else
                     (case sixp_trans_find srca s of
                        None \<Rightarrow> Done s
                      | Some t \<Rightarrow>
                          (let seqno = sixp_trans_get_seqno (Some t) s in
                           if seqno < 0 \<or> seqno \<noteq> uint (sp_seqno pkt) then Done s
                           else sixp_accept inp sf pkt src t s))))
      | _ \<Rightarrow> Done s)"

text \<open>The checks of \<open>sixp_output\<close> on the transaction with the peer.\<close>

definition sixp_output_allowed :: "sixp_pkt_type_t \<Rightarrow> nat option \<Rightarrow> 'a sixp_node \<Rightarrow> bool" where
  "sixp_output_allowed type tr s =
     (case type of
        SIXP_PKT_TYPE_REQUEST \<Rightarrow> tr = None
      | SIXP_PKT_TYPE_RESPONSE \<Rightarrow> tr \<noteq> None \<and> sixp_trans_get_state tr s = SIXP_TRANS_STATE_REQUEST_RECEIVED
      | SIXP_PKT_TYPE_CONFIRMATION \<Rightarrow> tr \<noteq> None \<and> sixp_trans_get_state tr s = SIXP_TRANS_STATE_RESPONSE_RECEIVED
      | _ \<Rightarrow> False)"

text \<open>The neighbor and the sequence number of the message (None if the call fails): a request takes the number kept for the neighbor,
  other messages the one of the transaction.\<close>

definition request_seqno ::
    "removal_policy \<Rightarrow> u8 \<Rightarrow> linkaddr option \<Rightarrow> nat option \<Rightarrow> sixp_nbr_t nbr_tables \<Rightarrow> int option \<times> sixp_nbr_t nbr_tables" where
  "request_seqno pol code dst nbr tab =
     (let (nbr1, tab1) = (if nbr = None then sixp_nbr_alloc pol dst tab else (nbr, tab)) in
      if nbr1 = None then (None, tab1)
      else
        (let seqno = sixp_nbr_get_next_seqno nbr1 tab1 in
         if seqno < 0 then (None, tab1)
         else (Some seqno, if code = SIXP_PKT_CMD_CLEAR then snd (sixp_nbr_reset_next_seqno nbr1 tab1) else tab1)))"

definition trans_seqno :: "nat option \<Rightarrow> 'a sixp_node \<Rightarrow> int option" where
  "trans_seqno tr s = (let seqno = sixp_trans_get_seqno tr s in if seqno < 0 then None else Some seqno)"

definition sixp_output_seqno ::
    "removal_policy \<Rightarrow> sixp_pkt_type_t \<Rightarrow> u8 \<Rightarrow> linkaddr option \<Rightarrow> nat option \<Rightarrow> 'a sixp_node \<Rightarrow> int option \<times> 'a sixp_node" where
  "sixp_output_seqno pol type code dst tr s =
     (let nbr = sixp_nbr_find dst (sixp_nbr_tab s) in
      if nbr = None \<and> type = SIXP_PKT_TYPE_RESPONSE \<and> code = SIXP_PKT_RC_SUCCESS \<and>
         (sixp_trans_get_cmd tr s = SIXP_PKT_CMD_ADD \<or> sixp_trans_get_cmd tr s = SIXP_PKT_CMD_DELETE) then
        (let (nbr1, tab1) = sixp_nbr_alloc pol dst (sixp_nbr_tab s)
         in (if nbr1 = None then None else trans_seqno tr s, s\<lparr>sixp_nbr_tab := tab1\<rparr>))
      else if type = SIXP_PKT_TYPE_REQUEST then
        (let (sq, tab1) = request_seqno pol code dst nbr (sixp_nbr_tab s) in (sq, s\<lparr>sixp_nbr_tab := tab1\<rparr>))
      else (trans_seqno tr s, s))"

definition sixp_output ::
    "'a sent_handler \<Rightarrow> removal_policy \<Rightarrow> sixp_pkt_type_t \<Rightarrow> u8 \<Rightarrow> u8 \<Rightarrow> u8 list option \<Rightarrow> u16 \<Rightarrow> linkaddr option \<Rightarrow>
     nat option \<Rightarrow> nat option \<Rightarrow> u16 \<Rightarrow> 'a sixp_node \<Rightarrow> (int \<times> 'a sixp_node) outcome" where
  "sixp_output sent pol type code i body body_len dst func arg arg_len s =
     (let tr = sixp_trans_find dst s in
      if \<not> sixp_output_allowed type tr s then Done (-1, s)
      else
        (case sixp_output_seqno pol type code dst tr s of
           (None, s1) \<Rightarrow> Done (-1, s1)
         | (Some seqno, s1) \<Rightarrow>
             obind (sixp_pkt_create type code i (word_of_int seqno) body body_len
                 (if type = SIXP_PKT_TYPE_REQUEST then Some sixp_pkt_zero else None) (node_packetbuf s1)) (\<lambda>(r, pkt, p).
               let s2 = set_packetbuf p s1 in
               if r < 0 then Done (-1, s2)
               else
                 obind (if type = SIXP_PKT_TYPE_REQUEST then sixp_trans_alloc pkt dst s2 else Done (tr, s2)) (\<lambda>(tr3, s3).
                   if type = SIXP_PKT_TYPE_REQUEST \<and> tr3 = None then Done (-1, s3)
                   else
                     obind (sixtop_output sent dst tr3 (sixp_trans_set_callback tr3 func arg arg_len s3)) (\<lambda>s4.
                     Done (0, s4))))))"

definition sixp_init :: "'a sixp_node \<Rightarrow> 'a sixp_node option" where
  "sixp_init s = map_option (\<lambda>(_, tab). snd (sixp_trans_init (s\<lparr>sixp_nbr_tab := tab\<rparr>))) (sixp_nbr_init (sixp_nbr_tab s))"

section \<open>The sublayer\<close>

definition strip_payload_termination_ie :: "'a sixp_node \<Rightarrow> 'a sixp_node outcome" where
  "strip_payload_termination_ie s =
     obind (mem_read (packetbuf_dataptr (node_packetbuf s)) 2 (pb_data (node_packetbuf s))) (\<lambda>b.
     Done (if b ! 0 = 0x00 \<and> b ! 1 = 0xf8 then set_packetbuf (snd (packetbuf_hdrreduce 2 (node_packetbuf s))) s else s))"

definition call_init :: "'a init_handler \<Rightarrow> sixtop_sf_t \<Rightarrow> 'a sixp_node \<Rightarrow> 'a sixp_node outcome" where
  "call_init ini sf s = (if sf_has_init sf then ini (sfid sf) s else Done s)"

fun first_free :: "'x option list \<Rightarrow> nat \<Rightarrow> nat" where
  "first_free [] i = i"
| "first_free (e # es) i = (if e = None then i else first_free es (Suc i))"

definition sixtop_add_sf :: "'a init_handler \<Rightarrow> sixtop_sf_t \<Rightarrow> 'a sixp_node \<Rightarrow> (int \<times> 'a sixp_node) outcome" where
  "sixtop_add_sf ini sf s =
     (if sixtop_find_sf (sfid sf) s \<noteq> None then Done (-1, s)
      else
        (let i = first_free (scheduling_functions s) 0 in
         if i = length (scheduling_functions s) then Done (-1, s)
         else
           obind (call_init ini sf (s\<lparr>scheduling_functions := (scheduling_functions s)[i := Some sf]\<rparr>)) (\<lambda>s1.
           obind (call_init ini sf s1) (\<lambda>s2. Done (0, s2)))))"

definition sixtop_input ::
    "'a input_handler \<Rightarrow> 'a sent_handler \<Rightarrow> frame802154_t \<Rightarrow> 'a sixp_node \<Rightarrow> 'a sixp_node outcome" where
  "sixtop_input inp sent junk s =
     (let p = node_packetbuf s; payload_ptr = packetbuf_dataptr p; payload_len = packetbuf_datalen p;
          hlen = packetbuf_hdrlen p; hdr_ptr = payload_ptr - unat hlen;
          src = packetbuf_addr PACKETBUF_ADDR_SENDER p
      in obind (frame802154_parse (drop hdr_ptr (pb_data p)) (uint hlen) junk) (\<lambda>(n, frame).
         if n = 0 \<or> ie_list_present (fcf frame) = 0 then Done s
         else
           (case frame802154e_parse_information_elements (drop payload_ptr (pb_data p)) (ucast payload_len) (Some ies_zero) of
              Fault \<Rightarrow> Fault
            | Failed \<Rightarrow> Done s
            | Done (r, ies) \<Rightarrow>
                (case sixtop_ie_content_ptr ies of
                   None \<Rightarrow> Done s
                 | Some off \<Rightarrow>
                     if r \<ge> 0 \<and> sixtop_ie_content_len ies > 0 then
                       obind (sixp_input inp sent (Some (drop (payload_ptr + off) (pb_data p))) (sixtop_ie_content_len ies) (Some src) s)
                         (\<lambda>s1. strip_payload_termination_ie
                           (set_packetbuf (snd (packetbuf_hdrreduce (off + unat (sixtop_ie_content_len ies)) (node_packetbuf s1))) s1))
                     else Done s))))"

fun init_sfs :: "'a init_handler \<Rightarrow> sixtop_sf_t option list \<Rightarrow> 'a sixp_node \<Rightarrow> 'a sixp_node outcome" where
  "init_sfs ini [] s = Done s"
| "init_sfs ini (e # es) s = obind (case e of None \<Rightarrow> Done s | Some sf \<Rightarrow> call_init ini sf s) (init_sfs ini es)"

definition sixtop_init_sf :: "'a init_handler \<Rightarrow> 'a sixp_node \<Rightarrow> 'a sixp_node outcome" where
  "sixtop_init_sf ini s = init_sfs ini (scheduling_functions s) s"

definition sixtop_init :: "'a init_handler \<Rightarrow> 'a sixp_node \<Rightarrow> 'a sixp_node outcome option" where
  "sixtop_init ini s =
     map_option (\<lambda>s1. sixtop_init_sf ini (s1\<lparr>scheduling_functions := map (\<lambda>_. None) (scheduling_functions s1)\<rparr>)) (sixp_init s)"

end
