(* ===== verification/SixpInv.thy ===== *)
theory SixpInv
  imports Sixp
begin

text \<open>
  The invariant of the 6P transactions and their progress. Every operation keeps the invariant, and no operation except the expiry of its
  timer ends a transaction or moves it backwards; each expiry of the timer moves it forwards. The lemmas hold for every
  scheduling function whose handlers behave as the locale \<open>sf_handlers\<close> says.
\<close>

section \<open>Invariant\<close>

definition trans_ok :: "sixp_trans_t \<Rightarrow> bool" where
  "trans_ok x \<longleftrightarrow> tr_sf x \<noteq> None \<and> is_linkaddr (peer_addr x) \<and>
     tr_state x \<noteq> SIXP_TRANS_STATE_UNAVAILABLE \<and> tr_mode x \<noteq> SIXP_TRANS_MODE_UNAVAILABLE \<and>
     (tr_state x = SIXP_TRANS_STATE_TERMINATING \<longrightarrow> tr_timer x = Some (0, Process_trans))"

text \<open>A block that is not in use: no timer runs, and a late report of the MAC layer finds no state to leave.\<close>

definition trans_quiet :: "sixp_trans_t \<Rightarrow> bool" where
  "trans_quiet x \<longleftrightarrow> tr_timer x = None \<and> tr_state x \<in> {SIXP_TRANS_STATE_UNAVAILABLE, SIXP_TRANS_STATE_TERMINATING}"

definition sixp_inv :: "'a sixp_node \<Rightarrow> bool" where
  "sixp_inv s \<longleftrightarrow> sn_inv (sixp_nbr_tab s) \<and> memb_inv (trans_memb s) \<and> distinct (trans_list s) \<and>
     memb_used (trans_memb s) = set (trans_list s) \<and> (\<forall>t \<in> set (trans_list s). trans_ok (trans_at s t)) \<and>
     inj_on (\<lambda>t. peer_addr (trans_at s t)) (set (trans_list s)) \<and>
     (\<forall>t. t \<notin> set (trans_list s) \<longrightarrow> trans_quiet (trans_at s t))"

lemma sixp_invD:
  assumes "sixp_inv s"
  shows "sn_inv (sixp_nbr_tab s)" "memb_inv (trans_memb s)" "distinct (trans_list s)" "memb_used (trans_memb s) = set (trans_list s)"
    "t \<in> set (trans_list s) \<Longrightarrow> trans_ok (trans_at s t)" "inj_on (\<lambda>t. peer_addr (trans_at s t)) (set (trans_list s))"
    "t \<notin> set (trans_list s) \<Longrightarrow> trans_quiet (trans_at s t)"
  using assms unfolding sixp_inv_def by blast+

lemma trans_upd_simps [simp]:
  "sixp_nbr_tab (trans_upd t f s) = sixp_nbr_tab s" "trans_list (trans_upd t f s) = trans_list s"
  "scheduling_functions (trans_upd t f s) = scheduling_functions s" "node_packetbuf (trans_upd t f s) = node_packetbuf s"
  "linkaddr_node_addr (trans_upd t f s) = linkaddr_node_addr s" "mac_sent (trans_upd t f s) = mac_sent s"
  "sf_state (trans_upd t f s) = sf_state s"
  "trans_at (trans_upd t f s) u = (if u = t then f (trans_at s t) else trans_at s u)"
  "memb_used (trans_memb (trans_upd t f s)) = memb_used (trans_memb s)"
  "memb_inv (trans_memb (trans_upd t f s)) = memb_inv (trans_memb s)"
  "mb_num (trans_memb (trans_upd t f s)) = mb_num (trans_memb s)"
  by (simp_all add: trans_upd_def blk_upd_def memb_used_def memb_inv_def)

text \<open>Changing one transaction, without its peer.\<close>

lemma sixp_inv_upd:
  assumes "sixp_inv s" "peer_addr (f (trans_at s t)) = peer_addr (trans_at s t)"
    "t \<in> set (trans_list s) \<Longrightarrow> trans_ok (f (trans_at s t))" "t \<notin> set (trans_list s) \<Longrightarrow> trans_quiet (f (trans_at s t))"
  shows "sixp_inv (trans_upd t f s)"
proof -
  have "(\<lambda>u. peer_addr (trans_at (trans_upd t f s) u)) = (\<lambda>u. peer_addr (trans_at s u))" using assms(2) by auto
  then have "inj_on (\<lambda>u. peer_addr (trans_at (trans_upd t f s) u)) (set (trans_list s))"
    using sixp_invD(6) [OF assms(1)] by simp
  moreover have "trans_ok (trans_at (trans_upd t f s) u)" if "u \<in> set (trans_list s)" for u
    using that sixp_invD(5) [OF assms(1) that] assms(3) by (cases "u = t") simp_all
  moreover have "trans_quiet (trans_at (trans_upd t f s) u)" if "u \<notin> set (trans_list s)" for u
    using that sixp_invD(7) [OF assms(1) that] assms(4) by (cases "u = t") simp_all
  ultimately show ?thesis using sixp_invD(1-4) [OF assms(1)] unfolding sixp_inv_def trans_upd_simps(1,2,9,10)
    by (intro conjI ballI allI impI)
qed

lemma sixp_inv_cong:
  "sixp_inv s \<Longrightarrow> trans_memb s' = trans_memb s \<Longrightarrow> trans_list s' = trans_list s \<Longrightarrow> sn_inv (sixp_nbr_tab s') \<Longrightarrow> sixp_inv s'"
  unfolding sixp_inv_def by simp

section \<open>Progress\<close>

fun stage :: "sixp_trans_state_t \<Rightarrow> nat" where
  "stage SIXP_TRANS_STATE_INIT = 4"
| "stage SIXP_TRANS_STATE_REQUEST_SENT = 3"
| "stage SIXP_TRANS_STATE_REQUEST_RECEIVED = 3"
| "stage SIXP_TRANS_STATE_RESPONSE_SENT = 2"
| "stage SIXP_TRANS_STATE_RESPONSE_RECEIVED = 2"
| "stage _ = 1"

text \<open>The number of expiries of its timer after which a transaction has ended at the latest.\<close>

definition rank :: "sixp_trans_t \<Rightarrow> nat" where
  "rank x = (if tr_state x = SIXP_TRANS_STATE_TERMINATING then 1
     else 2 * stage (tr_state x) + (case tr_timer x of Some (_, Process_trans) \<Rightarrow> 1 | _ \<Rightarrow> 0))"

text \<open>The transactions whose timer does not run: none, except while the handler of a timeout is being called.\<close>

definition untimed :: "'a sixp_node \<Rightarrow> nat set" where
  "untimed s = {t \<in> set (trans_list s). tr_timer (trans_at s t) = None}"

definition keeps :: "'a sixp_node \<Rightarrow> 'a sixp_node \<Rightarrow> bool" where
  "keeps s s' \<longleftrightarrow> sixp_inv s' \<and> untimed s' \<subseteq> untimed s \<and> (\<forall>t \<in> set (trans_list s). t \<in> set (trans_list s') \<and> rank (trans_at s' t) \<le> rank (trans_at s t) \<and>
     peer_addr (trans_at s' t) = peer_addr (trans_at s t))"

lemma keeps_refl: "sixp_inv s \<Longrightarrow> keeps s s"
  by (simp add: keeps_def)

lemma keeps_inv: "keeps s s' \<Longrightarrow> sixp_inv s'"
  by (simp add: keeps_def)

lemma keeps_trans: "keeps s s1 \<Longrightarrow> keeps s1 s2 \<Longrightarrow> keeps s s2"
  unfolding keeps_def using order_trans by (metis subset_trans)

lemma keepsD: "keeps s s' \<Longrightarrow> t \<in> set (trans_list s) \<Longrightarrow> t \<in> set (trans_list s') \<and> rank (trans_at s' t) \<le> rank (trans_at s t)"
  by (simp add: keeps_def)

lemma keeps_peer: "keeps s s' \<Longrightarrow> t \<in> set (trans_list s) \<Longrightarrow> peer_addr (trans_at s' t) = peer_addr (trans_at s t)"
  by (simp add: keeps_def)

lemma keeps_cong:
  "sixp_inv s \<Longrightarrow> trans_memb s' = trans_memb s \<Longrightarrow> trans_list s' = trans_list s \<Longrightarrow> sn_inv (sixp_nbr_tab s') \<Longrightarrow> keeps s s'"
  using sixp_inv_cong [of s s'] by (simp add: keeps_def untimed_def)

lemma keeps_upd:
  assumes "sixp_inv s" "peer_addr (f (trans_at s t)) = peer_addr (trans_at s t)"
    "t \<in> set (trans_list s) \<Longrightarrow> trans_ok (f (trans_at s t)) \<and> rank (f (trans_at s t)) \<le> rank (trans_at s t)"
    "t \<notin> set (trans_list s) \<Longrightarrow> trans_quiet (f (trans_at s t))"
    "tr_timer (f (trans_at s t)) = None \<Longrightarrow> tr_timer (trans_at s t) = None"
  shows "keeps s (trans_upd t f s)"
  using sixp_inv_upd [of s f t] assms by (auto simp: keeps_def untimed_def)

section \<open>State transitions\<close>

lemma transition_seqno_inv:
  assumes "sn_inv tab" "is_linkaddr (peer_addr x)"
  shows "sn_inv (transition_seqno x n tab)"
  using assms sn.incr_law [OF assms(1,2) _ assms(2)] sn.set_incr(1) [OF assms(1,2) _ assms(2)]
  by (auto simp: transition_seqno_def split: option.split)

lemma transit_eq:
  assumes "transition_ok (trans_at s t) n"
  shows "sixp_trans_transit_state (Some t) n s =
    (0, trans_upd t (\<lambda>x. x\<lparr>tr_state := n, tr_timer := Some (0, Process_trans)\<rparr>)
          (s\<lparr>sixp_nbr_tab := transition_seqno (trans_at s t) n (sixp_nbr_tab s)\<rparr>))"
  using assms by (simp add: sixp_trans_transit_state_def schedule_trans_process_def ctimer_set_def ctimer_stop_def trans_upd_def
      blk_upd_def Let_def)

lemma transit_fails: "\<not> transition_ok (trans_at s t) n \<Longrightarrow> sixp_trans_transit_state (Some t) n s = (-1, s)"
  by (simp add: sixp_trans_transit_state_def)

lemma transition_stage:
  assumes "transition_ok x n" "tr_state x \<noteq> SIXP_TRANS_STATE_UNAVAILABLE"
  shows "n \<noteq> SIXP_TRANS_STATE_UNAVAILABLE" "rank (x\<lparr>tr_state := n, tr_timer := Some (0, Process_trans)\<rparr>) \<le> rank x"
    "tr_timer x = Some (k, Handle_trans_timeout) \<Longrightarrow> tr_state x \<noteq> SIXP_TRANS_STATE_TERMINATING \<Longrightarrow>
       rank (x\<lparr>tr_state := n, tr_timer := Some (0, Process_trans)\<rparr>) < rank x"
proof -
  show "n \<noteq> SIXP_TRANS_STATE_UNAVAILABLE" using assms by (auto simp: transition_ok_def)
  show "rank (x\<lparr>tr_state := n, tr_timer := Some (0, Process_trans)\<rparr>) \<le> rank x"
    using assms by (cases "tr_state x") (auto simp: transition_ok_def rank_def)
  show "rank (x\<lparr>tr_state := n, tr_timer := Some (0, Process_trans)\<rparr>) < rank x"
    if "tr_timer x = Some (k, Handle_trans_timeout)" "tr_state x \<noteq> SIXP_TRANS_STATE_TERMINATING"
    using assms that by (cases "tr_state x") (auto simp: transition_ok_def rank_def)
qed

lemma transit_keeps:
  assumes inv: "sixp_inv s" and t: "t \<in> set (trans_list s)"
  shows "keeps s (snd (sixp_trans_transit_state (Some t) n s))"
proof (cases "transition_ok (trans_at s t) n")
  case True
  let ?s1 = "s\<lparr>sixp_nbr_tab := transition_seqno (trans_at s t) n (sixp_nbr_tab s)\<rparr>"
  note ok = sixp_invD(5) [OF inv t]
  have "keeps s ?s1" using ok transition_seqno_inv sixp_invD(1) [OF inv] by (intro keeps_cong [OF inv]) (simp_all add: trans_ok_def)
  moreover have "keeps ?s1 (trans_upd t (\<lambda>x. x\<lparr>tr_state := n, tr_timer := Some (0, Process_trans)\<rparr>) ?s1)"
    using ok t transition_stage [OF True] keeps_inv [OF calculation] by (intro keeps_upd) (auto simp: trans_ok_def)
  ultimately show ?thesis using keeps_trans by (simp add: transit_eq [OF True]) blast
qed (simp add: transit_fails keeps_refl inv)

section \<open>New transactions\<close>

definition new_trans :: "sixtop_sf_t \<Rightarrow> sixp_pkt_t \<Rightarrow> linkaddr \<Rightarrow> sixp_trans_mode_t \<Rightarrow> sixp_trans_t" where
  "new_trans f p a mode = sixp_trans_zero\<lparr>tr_sf := Some f, peer_addr := a, tr_seqno := sp_seqno p, tr_cmd := sp_code p,
     tr_state := SIXP_TRANS_STATE_INIT, tr_mode := mode, tr_timer := Some (timeout_interval f, Handle_trans_timeout)\<rparr>"

definition with_trans :: "nat \<Rightarrow> sixp_trans_t \<Rightarrow> 'a sixp_node \<Rightarrow> 'a sixp_node" where
  "with_trans t x s = s\<lparr>trans_memb := blk_upd t (\<lambda>_. x) ((trans_memb s)\<lparr>mb_count := (mb_count (trans_memb s))(t := 1)\<rparr>),
     trans_list := trans_list s @ [t]\<rparr>"

lemma with_trans_simps [simp]:
  "sixp_nbr_tab (with_trans t x s) = sixp_nbr_tab s" "trans_list (with_trans t x s) = trans_list s @ [t]"
  "scheduling_functions (with_trans t x s) = scheduling_functions s" "node_packetbuf (with_trans t x s) = node_packetbuf s"
  "linkaddr_node_addr (with_trans t x s) = linkaddr_node_addr s" "mac_sent (with_trans t x s) = mac_sent s"
  "sf_state (with_trans t x s) = sf_state s" "trans_at (with_trans t x s) u = (if u = t then x else trans_at s u)"
  "mb_num (trans_memb (with_trans t x s)) = mb_num (trans_memb s)"
  by (simp_all add: with_trans_def blk_upd_def)

lemma find_peer:
  assumes "sixp_inv s" "is_linkaddr a"
  shows "sixp_trans_find (Some a) s = Some t \<longleftrightarrow> t \<in> set (trans_list s) \<and> peer_addr (trans_at s t) = a"
    "sixp_trans_find (Some a) s = None \<longleftrightarrow> a \<notin> (\<lambda>t. peer_addr (trans_at s t)) ` set (trans_list s)"
proof -
  have eq: "take LINKADDR_SIZE a = take LINKADDR_SIZE (peer_addr (trans_at s u)) \<longleftrightarrow> peer_addr (trans_at s u) = a"
    if "u \<in> set (trans_list s)" for u
    using sixp_invD(5) [OF assms(1) that] assms(2) by (auto simp: trans_ok_def is_linkaddr_def)
  then have f: "sixp_trans_find (Some a) s = find (\<lambda>u. peer_addr (trans_at s u) = a) (trans_list s)"
    unfolding sixp_trans_find_def option.case by (intro find_cong) auto
  show "sixp_trans_find (Some a) s = None \<longleftrightarrow> a \<notin> (\<lambda>t. peer_addr (trans_at s t)) ` set (trans_list s)"
    unfolding f find_None_iff by auto
  show "sixp_trans_find (Some a) s = Some t \<longleftrightarrow> t \<in> set (trans_list s) \<and> peer_addr (trans_at s t) = a"
  proof
    assume "sixp_trans_find (Some a) s = Some t"
    then show "t \<in> set (trans_list s) \<and> peer_addr (trans_at s t) = a" unfolding f find_Some_iff by auto
  next
    assume t: "t \<in> set (trans_list s) \<and> peer_addr (trans_at s t) = a"
    then obtain u where u: "find (\<lambda>u. peer_addr (trans_at s u) = a) (trans_list s) = Some u"
      by (metis (mono_tags, lifting) find_None_iff option.exhaust)
    then have "u \<in> set (trans_list s)" "peer_addr (trans_at s u) = a" by (auto simp: find_Some_iff)
    then have "u = t" using t sixp_invD(6) [OF assms(1)] by (auto dest: inj_onD)
    then show "sixp_trans_find (Some a) s = Some t" using u f by simp
  qed
qed

lemma with_trans_keeps:
  assumes inv: "sixp_inv s" and t: "t < mb_num (trans_memb s)" "t \<notin> set (trans_list s)" and x: "trans_ok x" "tr_timer x \<noteq> None"
    and new: "peer_addr x \<notin> (\<lambda>t. peer_addr (trans_at s t)) ` set (trans_list s)"
  shows "keeps s (with_trans t x s)"
proof -
  let ?s = "with_trans t x s"
  have same: "trans_at ?s u = trans_at s u" if "u \<in> set (trans_list s)" for u using that t(2) by auto
  have "memb_used (trans_memb ?s) = insert t (memb_used (trans_memb s))"
    using t(1) by (auto simp: with_trans_def blk_upd_def memb_used_def)
  then have used: "memb_used (trans_memb ?s) = set (trans_list ?s)" by (simp add: sixp_invD(4) [OF inv])
  have mi: "memb_inv (trans_memb ?s)" using sixp_invD(2) [OF inv] by (simp add: with_trans_def blk_upd_def memb_inv_def)
  let ?g = "\<lambda>u. peer_addr (trans_at ?s u)"
  have g: "?g u = peer_addr (trans_at s u)" if "u \<in> set (trans_list s)" for u using same [OF that] by simp
  have i1: "inj_on ?g (set (trans_list s))" using sixp_invD(6) [OF inv] by (subst inj_on_cong [OF g])
  have "?g ` (set (trans_list s)) = (\<lambda>t. peer_addr (trans_at s t)) ` set (trans_list s)" by (rule image_cong [OF refl g])
  then have i2: "peer_addr x \<notin> ?g ` (set (trans_list s))" using new by (simp only: not_False_eq_True)
  have inj: "inj_on ?g (set (trans_list ?s))"
    unfolding with_trans_simps(2) set_append list.set using i1 i2 t(2) inj_on_insert [of ?g t "set (trans_list s)"]
    by (simp only: with_trans_simps(8) Un_insert_right Un_empty_right Diff_insert0 Diff_empty if_True simp_thms)
  have ok: "trans_ok (trans_at ?s u)" if "u \<in> set (trans_list ?s)" for u
    using that x(1) sixp_invD(5) [OF inv, of u] by (cases "u = t") simp_all
  have quiet: "trans_quiet (trans_at ?s u)" if "u \<notin> set (trans_list ?s)" for u
    using that sixp_invD(7) [OF inv, of u] by simp
  have nb: "sn_inv (sixp_nbr_tab ?s)" "distinct (trans_list ?s)" using sixp_invD(1,3) [OF inv] t(2) by simp_all
  have "sixp_inv ?s" unfolding sixp_inv_def using nb mi used inj ok quiet by (intro conjI ballI allI impI)
  moreover have "untimed ?s \<subseteq> untimed s" using x(2) by (auto simp: untimed_def split: if_splits)
  ultimately show ?thesis unfolding keeps_def using same by simp
qed

lemma trans_alloc_cases:
  assumes inv: "sixp_inv s" and a: "is_linkaddr a" and al: "sixp_trans_alloc (Some p) (Some a) s = Done (tr, s')"
  obtains (failed) "tr = None" "s' = s"
      "sixtop_find_sf (sp_sfid p) s = None \<or> sixp_trans_find (Some a) s \<noteq> None \<or> memb_used (trans_memb s) = {..<mb_num (trans_memb s)}"
  | (new) t f mode where "tr = Some t" "s' = with_trans t (new_trans f p a mode) s" "keeps s s'" "t \<notin> set (trans_list s)"
      "sixtop_find_sf (sp_sfid p) s = Some f" "determine_trans_mode (Some p) = Done mode" "sixp_trans_find (Some a) s = None"
proof (cases "sixtop_find_sf (sp_sfid p) s = None \<or> sixp_trans_find (Some a) s \<noteq> None")
  case True
  then show ?thesis using al failed by (auto simp: sixp_trans_alloc_def split: option.splits)
next
  case False
  then obtain f where f: "sixtop_find_sf (sp_sfid p) s = Some f" "sixp_trans_find (Some a) s = None" by auto
  show ?thesis
  proof (cases rule: memb_alloc_cases [of "trans_memb s"])
    case full
    then show ?thesis using al f failed by (auto simp: sixp_trans_alloc_def)
  next
    case (block t)
    then obtain mode where m: "determine_trans_mode (Some p) = Done mode" using al f by (auto simp: sixp_trans_alloc_def obind_Done_iff)
    have mode: "mode \<noteq> SIXP_TRANS_MODE_UNAVAILABLE" using m by (auto simp: determine_trans_mode_def split: if_splits outcome.splits)
    have tl: "t \<notin> set (trans_list s)" using block(3) sixp_invD(4) [OF inv] by simp
    have s': "tr = Some t" "s' = with_trans t (new_trans f p a mode) s"
      using al f m block(1) tl
      by (auto simp: sixp_trans_alloc_def Let_def start_trans_timer_def ctimer_set_def trans_upd_def with_trans_def new_trans_def
          blk_upd_def alist_add_def remove1_idem sixp_trans_zero_def)
    have "trans_ok (new_trans f p a mode)" "tr_timer (new_trans f p a mode) \<noteq> None"
      using a mode by (simp_all add: trans_ok_def new_trans_def sixp_trans_zero_def)
    moreover have "peer_addr (new_trans f p a mode) = a" by (simp add: new_trans_def)
    ultimately have "keeps s s'" using with_trans_keeps [OF inv block(2) tl] f(2) find_peer(2) [OF inv a] s'(2) by simp
    then show ?thesis using new s' tl f m by blast
  qed
qed

section \<open>Timers\<close>

lemma trans_upd_upd: "trans_upd t f (trans_upd t g s) = trans_upd t (\<lambda>x. f (g x)) s"
  by (simp add: trans_upd_def blk_upd_def)

lemma transit_terminating:
  "sixp_trans_transit_state (Some t) SIXP_TRANS_STATE_TERMINATING s =
    (0, trans_upd t (\<lambda>x. x\<lparr>tr_state := SIXP_TRANS_STATE_TERMINATING, tr_timer := Some (0, Process_trans)\<rparr>) s)"
  by (subst transit_eq) (simp_all add: transition_ok_def transition_seqno_def)

lemma free_trans_inv:
  assumes inv: "sixp_inv s" and t: "t \<in> set (trans_list s)" and fin: "tr_state (trans_at s t) = SIXP_TRANS_STATE_TERMINATING"
  shows "sixp_inv (free_trans (Some t) (ctimer_stop t s))"
proof -
  let ?s = "free_trans (Some t) (ctimer_stop t s)"
  let ?m = "trans_memb (ctimer_stop t s)"
  have m: "memb_inv ?m" "memb_used ?m = set (trans_list s)" using sixp_invD(2,4) [OF inv] by (simp_all add: ctimer_stop_def)
  have at: "trans_at ?s u = (if u = t then (trans_at s t)\<lparr>tr_timer := None\<rparr> else trans_at s u)" for u
    using memb_free_props(4) [OF m(1)] by (simp add: free_trans_def ctimer_stop_def)
  have ls: "trans_list ?s = remove1 t (trans_list s)" "sixp_nbr_tab ?s = sixp_nbr_tab s" by (simp_all add: free_trans_def ctimer_stop_def)
  have sets: "set (trans_list ?s) = set (trans_list s) - {t}" unfolding ls(1) by (rule set_remove1_eq [OF sixp_invD(3) [OF inv]])
  have used: "memb_used (trans_memb ?s) = set (trans_list ?s)" "memb_inv (trans_memb ?s)"
    using memb_free_props(1,2) [OF m(1)] m(2) unfolding sets by (simp_all add: free_trans_def)
  have ok: "trans_ok (trans_at ?s u)" if "u \<in> set (trans_list ?s)" for u
    using that sixp_invD(5) [OF inv, of u] unfolding sets at by simp
  have quiet: "trans_quiet (trans_at ?s u)" if "u \<notin> set (trans_list ?s)" for u
    using that sixp_invD(7) [OF inv, of u] fin unfolding sets at by (auto simp: trans_quiet_def)
  have g: "peer_addr (trans_at ?s u) = peer_addr (trans_at s u)" if "u \<in> set (trans_list ?s)" for u unfolding at by simp
  have "inj_on (\<lambda>u. peer_addr (trans_at s u)) (set (trans_list ?s))"
    using sixp_invD(6) [OF inv] sets by (auto intro: inj_on_subset)
  then have inj: "inj_on (\<lambda>u. peer_addr (trans_at ?s u)) (set (trans_list ?s))" by (subst inj_on_cong [OF g])
  have nb: "sn_inv (sixp_nbr_tab ?s)" "distinct (trans_list ?s)" using sixp_invD(1,3) [OF inv] ls by simp_all
  show ?thesis unfolding sixp_inv_def using nb used inj ok quiet by (intro conjI ballI allI impI)
qed

text \<open>What the expiry of the timer of \<open>t\<close> may do to the transactions.\<close>

definition expired :: "nat \<Rightarrow> 'a sixp_node \<Rightarrow> 'a sixp_node \<Rightarrow> bool" where
  "expired t s s' \<longleftrightarrow> sixp_inv s' \<and> untimed s' \<subseteq> untimed s \<and> (t \<in> set (trans_list s') \<longrightarrow> rank (trans_at s' t) < rank (trans_at s t)) \<and>
     (\<forall>u \<in> set (trans_list s). u \<noteq> t \<longrightarrow> u \<in> set (trans_list s') \<and> rank (trans_at s' u) \<le> rank (trans_at s u) \<and>
       peer_addr (trans_at s' u) = peer_addr (trans_at s u))"

lemma expired_upd:
  assumes "sixp_inv s" "t \<in> set (trans_list s)" "peer_addr (f (trans_at s t)) = peer_addr (trans_at s t)"
    "trans_ok (f (trans_at s t))" "rank (f (trans_at s t)) < rank (trans_at s t)" "tr_timer (f (trans_at s t)) \<noteq> None"
  shows "expired t s (trans_upd t f s)"
  using sixp_inv_upd [of s f t] assms by (auto simp: expired_def untimed_def split: if_splits)

lemma process_trans_expired:
  assumes inv: "sixp_inv s" and t: "t \<in> set (trans_list s)" and tm: "tr_timer (trans_at s t) = Some (n, Process_trans)"
  shows "\<exists>s'. process_trans (Some t) (ctimer_stop t s) = Done s' \<and> expired t s s'"
proof -
  let ?x = "trans_at s t"
  note ok = sixp_invD(5) [OF inv t]
  define ends where "ends \<longleftrightarrow> (tr_state ?x = SIXP_TRANS_STATE_RESPONSE_SENT \<or> tr_state ?x = SIXP_TRANS_STATE_RESPONSE_RECEIVED) \<and>
      tr_mode ?x = SIXP_TRANS_MODE_2_STEP \<or>
    tr_state ?x = SIXP_TRANS_STATE_CONFIRMATION_SENT \<or> tr_state ?x = SIXP_TRANS_STATE_CONFIRMATION_RECEIVED"
  consider (free) "tr_state ?x = SIXP_TRANS_STATE_TERMINATING" | (ends) "tr_state ?x \<noteq> SIXP_TRANS_STATE_TERMINATING" "ends"
    | (waits) "tr_state ?x \<noteq> SIXP_TRANS_STATE_TERMINATING" "\<not> ends" by blast
  then show ?thesis
  proof cases
    case free
    have c: "ctimer_stop t (ctimer_stop t s) = ctimer_stop t s" by (simp add: ctimer_stop_def trans_upd_upd)
    have "process_trans (Some t) (ctimer_stop t s) = Done (free_trans (Some t) (ctimer_stop t s))"
      using free unfolding process_trans_def option.case c Let_def by (simp add: ctimer_stop_def)
    moreover have "expired t s (free_trans (Some t) (ctimer_stop t s))"
      using free_trans_inv [OF inv t free] sixp_invD(2,3) [OF inv] memb_free_props(4) [of "trans_memb (ctimer_stop t s)"]
      by (auto simp: expired_def free_trans_def ctimer_stop_def untimed_def)
    ultimately show ?thesis by blast
  next
    case ends
    have "process_trans (Some t) (ctimer_stop t s) =
        Done (trans_upd t (\<lambda>x. x\<lparr>tr_state := SIXP_TRANS_STATE_TERMINATING, tr_timer := Some (0, Process_trans)\<rparr>) s)"
      using ends unfolding ends_def by (simp add: process_trans_def ctimer_stop_def trans_upd_upd transit_terminating Let_def)
    moreover have "rank (?x\<lparr>tr_state := SIXP_TRANS_STATE_TERMINATING, tr_timer := Some (0, Process_trans)\<rparr>) < rank ?x"
      using ends tm by (auto simp: rank_def ends_def)
    ultimately show ?thesis
      using expired_upd [OF inv t, of "\<lambda>x. x\<lparr>tr_state := SIXP_TRANS_STATE_TERMINATING, tr_timer := Some (0, Process_trans)\<rparr>"] ok
      by (simp add: trans_ok_def)
  next
    case waits
    obtain sf where sf: "tr_sf ?x = Some sf" using ok by (auto simp: trans_ok_def)
    have "process_trans (Some t) (ctimer_stop t s) =
        Done (trans_upd t (\<lambda>x. x\<lparr>tr_timer := Some (timeout_interval sf, Handle_trans_timeout)\<rparr>) s)"
      using waits sf unfolding ends_def
      by (auto simp: process_trans_def ctimer_stop_def trans_upd_upd start_trans_timer_def ctimer_set_def Let_def)
    moreover have "rank (?x\<lparr>tr_timer := Some (timeout_interval sf, Handle_trans_timeout)\<rparr>) < rank ?x"
      using waits tm by (simp add: rank_def)
    ultimately show ?thesis
      using expired_upd [OF inv t, of "\<lambda>x. x\<lparr>tr_timer := Some (timeout_interval sf, Handle_trans_timeout)\<rparr>"] ok waits(1)
      by (simp add: trans_ok_def)
  qed
qed

section \<open>Operations\<close>

lemma set_callback_keeps: "sixp_inv s \<Longrightarrow> keeps s (sixp_trans_set_callback tr f arg n s)"
proof (cases tr)
  case (Some t)
  assume inv: "sixp_inv s"
  show ?thesis unfolding sixp_trans_set_callback_def Some option.case
    using sixp_invD(5,7) [OF inv, of t] by (intro keeps_upd [OF inv]) (auto simp: trans_ok_def trans_quiet_def rank_def)
qed (simp add: sixp_trans_set_callback_def keeps_refl)

lemma set_packetbuf_keeps: "sixp_inv s \<Longrightarrow> keeps s (set_packetbuf p s)"
  by (rule keeps_cong) (simp_all add: set_packetbuf_def sixp_invD(1))

lemma mac_send_keeps: "sixp_inv s \<Longrightarrow> keeps s (mac_send cb s)"
  by (rule keeps_cong) (simp_all add: mac_send_def sixp_invD(1))

lemma nbr_tab_keeps: "sixp_inv s \<Longrightarrow> sn_inv tab \<Longrightarrow> keeps s (s\<lparr>sixp_nbr_tab := tab\<rparr>)"
  by (rule keeps_cong) simp_all

lemmas keeps_intros = keeps_refl set_callback_keeps set_packetbuf_keeps mac_send_keeps nbr_tab_keeps

lemma nbr_alloc_inv:
  assumes "sn_inv tab" "is_linkaddr a" "sixp_nbr_find (Some a) tab = None"
  shows "sn_inv (snd (sixp_nbr_alloc pol (Some a) tab))"
    "sixp_nbr_find (Some a) (snd (sixp_nbr_alloc pol (Some a) tab)) = fst (sixp_nbr_alloc pol (Some a) tab)"
  using sixp_nbr_alloc_spec [OF assms, of pol] assms(1,3)
  by (cases "sixp_nbr_alloc pol (Some a) tab"; cases "fst (sixp_nbr_alloc pol (Some a) tab)"; auto)+

lemma request_seqno_inv:
  assumes inv: "sn_inv tab" and a: "is_linkaddr a"
  shows "sn_inv (snd (request_seqno pol code (Some a) (sixp_nbr_find (Some a) tab) tab))"
proof -
  define r where "r = (if sixp_nbr_find (Some a) tab = None then sixp_nbr_alloc pol (Some a) tab else (sixp_nbr_find (Some a) tab, tab))"
  have r: "sn_inv (snd r)" "sixp_nbr_find (Some a) (snd r) = fst r"
    using nbr_alloc_inv [OF inv a] inv by (simp_all add: r_def)
  moreover have "sn_inv (snd (sixp_nbr_reset_next_seqno (fst r) (snd r)))" if "fst r \<noteq> None"
    using that r sn.reset_law [OF r(1) a _ a] by auto
  ultimately show ?thesis unfolding request_seqno_def r_def [symmetric] by (simp add: split_def Let_def)
qed

lemma output_seqno_keeps:
  assumes inv: "sixp_inv s" and a: "is_linkaddr a"
  shows "keeps s (snd (sixp_output_seqno pol type code (Some a) tr s))"
  using nbr_tab_keeps [OF inv] keeps_refl [OF inv] nbr_alloc_inv [OF sixp_invD(1) [OF inv] a]
    request_seqno_inv [OF sixp_invD(1) [OF inv] a]
  by (simp add: sixp_output_seqno_def split_def Let_def)

lemma mac_new_state_quiet:
  "q \<in> {SIXP_TRANS_STATE_UNAVAILABLE, SIXP_TRANS_STATE_TERMINATING} \<Longrightarrow> mac_new_state status q \<in> {None, Some q}"
  by (auto simp: mac_new_state_def)

text \<open>What the 6top layer relies on: the callback of a sent message and the handlers of a scheduling function use the functions
  of the protocol, none of which ends a transaction or moves it back, and the handler of a timeout returns.\<close>

locale sent_handler =
  fixes sent :: "'a sent_handler"
  assumes sent_keeps: "sixp_inv s \<Longrightarrow> sent f arg n a st s = Done s' \<Longrightarrow> keeps s s'"
begin

lemma invoke_callback_keeps: "sixp_inv s \<Longrightarrow> sixp_trans_invoke_callback sent tr st s = Done s' \<Longrightarrow> keeps s s'"
  by (auto simp: sixp_trans_invoke_callback_def keeps_refl split: option.splits intro: sent_keeps)

lemma callback_done:
  assumes "sixp_inv s" "obind (sixp_trans_invoke_callback sent tr st s) (\<lambda>s2. Done (sixp_trans_set_callback tr None None 0 s2)) = Done s'"
  shows "keeps s s'"
proof -
  obtain s2 where s2: "sixp_trans_invoke_callback sent tr st s = Done s2" "s' = sixp_trans_set_callback tr None None 0 s2"
    using assms(2) by (auto simp: obind_Done_iff)
  have "keeps s s2" by (rule invoke_callback_keeps [OF assms(1) s2(1)])
  then show ?thesis using s2(2) set_callback_keeps [OF keeps_inv] keeps_trans by blast
qed

lemma mac_callback_keeps:
  assumes inv: "sixp_inv s" and cb: "mac_callback sent tr status s = Done s'"
  shows "keeps s s'"
proof (cases tr)
  case None
  then show ?thesis using cb keeps_refl [OF inv] by (simp add: mac_callback_def)
next
  case (Some t)
  let ?st = "if status = 0 then SIXP_OUTPUT_STATUS_SUCCESS else SIXP_OUTPUT_STATUS_FAILURE"
  let ?cont = "\<lambda>s1. obind (sixp_trans_invoke_callback sent tr ?st s1) (\<lambda>s2. Done (sixp_trans_set_callback tr None None 0 s2))"
  let ?cur = "tr_state (trans_at s t)"
  have lst: "t \<in> set (trans_list s)" if "mac_new_state status ?cur = Some n" "n \<noteq> ?cur" for n
    using that mac_new_state_quiet [of ?cur status] sixp_invD(7) [OF inv, of t] by (auto simp: trans_quiet_def)
  consider (idle) "s' = s" | (same) "?cont s = Done s'"
    | (fails) n where "t \<in> set (trans_list s)"
        "snd (sixp_trans_transit_state tr SIXP_TRANS_STATE_TERMINATING (snd (sixp_trans_transit_state tr n s))) = s'"
    | (moves) n where "t \<in> set (trans_list s)" "?cont (snd (sixp_trans_transit_state tr n s)) = Done s'"
  proof (cases "mac_new_state status ?cur")
    case None
    then show ?thesis using that(1) cb Some by (simp add: mac_callback_def sixp_trans_get_state_def)
  next
    case n: (Some n)
    show ?thesis
    proof (cases "n = ?cur")
      case True
      then show ?thesis using that(2) cb Some n by (simp add: mac_callback_def sixp_trans_get_state_def)
    next
      case False
      then show ?thesis
        using that(3,4) lst [OF n False] cb Some n
        by (cases "fst (sixp_trans_transit_state tr n s) = 0")
          (simp_all add: mac_callback_def sixp_trans_get_state_def split_def)
    qed
  qed
  then show ?thesis
  proof cases
    case idle
    then show ?thesis using keeps_refl [OF inv] by simp
  next
    case same
    then show ?thesis by (rule callback_done [OF inv])
  next
    case (fails n)
    have "keeps s (snd (sixp_trans_transit_state tr n s))" using transit_keeps [OF inv fails(1)] Some by simp
    then show ?thesis using fails transit_keeps keeps_trans keeps_inv keepsD Some by metis
  next
    case (moves n)
    have "keeps s (snd (sixp_trans_transit_state tr n s))" using transit_keeps [OF inv moves(1)] Some by simp
    then show ?thesis using callback_done [OF keeps_inv moves(2)] keeps_trans by blast
  qed
qed

lemma call_back_keeps: "sixp_inv s \<Longrightarrow> call_back sent cb status s = Done s' \<Longrightarrow> keeps s s'"
  by (auto simp: call_back_def keeps_refl split: if_splits intro: mac_callback_keeps)

lemma sixtop_output_keeps:
  assumes inv: "sixp_inv s" and out: "sixtop_output sent dst cb s = Done s'"
  shows "keeps s s'"
proof -
  have fin: "keeps s s1" if "call_back sent cb st (set_packetbuf q s) = Done s1" for st q s1
    using call_back_keeps [OF keeps_inv that] set_packetbuf_keeps [OF inv] keeps_trans by blast
  have fin': "keeps s s1" if "mac_callback sent cb st (set_packetbuf q s) = Done s1" for st q s1
    using mac_callback_keeps [OF keeps_inv that] set_packetbuf_keeps [OF inv] keeps_trans by blast
  have sent: "keeps s (mac_send cb (set_packetbuf q s))" for q
    using mac_send_keeps [OF keeps_inv] set_packetbuf_keeps [OF inv] keeps_trans by blast
  have "ensures (keeps s) (sixtop_output sent dst cb s)"
    unfolding sixtop_output_def Let_def split_def
    using call_back_keeps [OF inv] set_packetbuf_keeps [OF inv] fin fin' sent
    by (auto simp: ensures_def [of _ "call_back _ _ _ _"] ensures_def [of _ "mac_callback _ _ _ _"] intro!: ensures_obind
        split: option.split outcome.split)
  then show ?thesis using out by (rule ensuresD)
qed

lemma send_back_error_keeps:
  assumes inv: "sixp_inv s" and out: "send_back_error sent type code i q dst s = Done (r, s')"
  shows "keeps s s'"
proof -
  have "keeps s s'" if "sixtop_output sent dst None (set_packetbuf p s) = Done s'" for p
    using sixtop_output_keeps [OF keeps_inv that] set_packetbuf_keeps [OF inv] keeps_trans by blast
  then show ?thesis using out set_packetbuf_keeps [OF inv] by (auto simp: send_back_error_def obind_Done_iff split: if_splits)
qed

lemma error_reply_keeps:
  "keeps s s1 \<Longrightarrow> ensures (keeps s) (obind (send_back_error sent type code i q dst s1) (\<lambda>(_, s2). Done s2))"
  using send_back_error_keeps keeps_inv keeps_trans by (intro ensures_obind) (auto, blast)

lemma sixp_output_keeps:
  assumes inv: "sixp_inv s" and a: "is_linkaddr a"
  shows "ensures (\<lambda>(_, s'). keeps s s') (sixp_output sent pol type code i body bl (Some a) func arg al s)"
proof -
  define tr where "tr = sixp_trans_find (Some a) s"
  obtain sq s1 where sq: "sixp_output_seqno pol type code (Some a) tr s = (sq, s1)" by fastforce
  have k1: "keeps s s1" using output_seqno_keeps [OF inv a, of pol type code tr] sq by simp
  have out: "keeps s s4"
    if "keeps s s3" "sixtop_output sent (Some a) t (sixp_trans_set_callback t func arg al s3) = Done s4" for t s3 s4
  proof -
    have "keeps s (sixp_trans_set_callback t func arg al s3)" using keeps_trans [OF that(1) set_callback_keeps [OF keeps_inv [OF that(1)]]] .
    then show ?thesis using sixtop_output_keeps [OF keeps_inv that(2)] keeps_trans by blast
  qed
  have pkt: "keeps s (set_packetbuf p s1)" for p using keeps_trans [OF k1 set_packetbuf_keeps [OF keeps_inv [OF k1]]] .
  have alloc: "keeps s s3" if "sixp_trans_alloc q (Some a) (set_packetbuf p s1) = Done (t, s3)" for q p t s3
  proof (cases q)
    case None
    then show ?thesis using that pkt by (auto simp: sixp_trans_alloc_def)
  next
    case (Some p')
    show ?thesis using trans_alloc_cases [OF keeps_inv [OF pkt] a that [unfolded Some]] pkt keeps_trans by metis
  qed
  show ?thesis
    unfolding sixp_output_def Let_def tr_def [symmetric] sq
    using pkt alloc k1 keeps_refl [OF inv]
    by (cases sq) (auto intro!: ensures_obind split: if_splits, (use out in blast)+)
qed

end

locale sf_handlers = sent_handler sent for sent :: "'a sent_handler" +
  fixes tmo :: "'a timeout_handler" and inp :: "'a input_handler"
  assumes tmo_keeps: "sixp_inv s \<Longrightarrow> is_linkaddr a \<Longrightarrow> \<exists>s'. tmo i c a s = Done s' \<and> keeps s s'"
    and inp_keeps: "sixp_inv s \<Longrightarrow> is_linkaddr a \<Longrightarrow> inp i type code body len a s = Done s' \<Longrightarrow> keeps s s'"
begin

lemma sixp_accept_keeps:
  assumes inv: "sixp_inv s" and t: "t \<in> set (trans_list s)" and a: "is_linkaddr a"
    and acc: "sixp_accept inp sf pkt a t s = Done s'"
  shows "keeps s s'"
proof -
  note tk = transit_keeps [OF inv t]
  have fails: "keeps s (snd (sixp_trans_transit_state (Some t) SIXP_TRANS_STATE_TERMINATING (snd (sixp_trans_transit_state (Some t) n s))))" for n
    using keeps_trans [OF tk transit_keeps] keeps_inv [OF tk] keepsD [OF tk t] by blast
  have calls: "keeps s s'" if "inp i ty c b l a (snd (sixp_trans_transit_state (Some t) n s)) = Done s'" for i ty c b l n
    using inp_keeps [OF keeps_inv [OF tk] a that] tk keeps_trans by blast
  have "s' = s \<or> (\<exists>n. s' = snd (sixp_trans_transit_state (Some t) SIXP_TRANS_STATE_TERMINATING (snd (sixp_trans_transit_state (Some t) n s))) \<or>
    s' = snd (sixp_trans_transit_state (Some t) n s) \<or>
    inp (sfid sf) (sp_type pkt) (sp_code pkt) (sp_body pkt) (sp_body_len pkt) a (snd (sixp_trans_transit_state (Some t) n s)) = Done s')"
    using acc by (cases "sp_type pkt") (auto simp: sixp_accept_def split_def Let_def split: if_splits)
  then show ?thesis using keeps_refl [OF inv] tk fails calls by blast
qed

lemma accept_ensures:
  "keeps s s1 \<Longrightarrow> t \<in> set (trans_list s1) \<Longrightarrow> is_linkaddr a \<Longrightarrow> ensures (keeps s) (sixp_accept inp sf pkt a t s1)"
  unfolding ensures_def using sixp_accept_keeps keeps_inv keeps_trans by blast

lemma sixp_request_keeps:
  assumes inv: "sixp_inv s" and a: "is_linkaddr a"
  shows "ensures (keeps s) (sixp_request inp sent sf pkt a s)"
proof -
  define nbr where "nbr = sixp_nbr_find (Some a) (sixp_nbr_tab s)"
  define s1 where "s1 = (if sp_code pkt = SIXP_PKT_CMD_CLEAR \<and> nbr \<noteq> None
    then s\<lparr>sixp_nbr_tab := snd (sixp_nbr_reset_next_seqno nbr (sixp_nbr_tab s))\<rparr> else s)"
  have k1: "keeps s s1"
    using nbr_tab_keeps [OF inv] keeps_refl [OF inv] sn.reset_law [OF sixp_invD(1) [OF inv] a _ a]
    by (auto simp: s1_def nbr_def)
  have step: "ensures (keeps s) (sixp_request_checked inp sent sf pkt a tr s2)"
    if al: "sixp_trans_alloc (Some pkt) (Some a) s1 = Done (tr, s2)" for tr s2
  proof (cases rule: trans_alloc_cases [OF keeps_inv [OF k1] a al])
    case 1
    then show ?thesis using error_reply_keeps [OF k1] by (simp add: sixp_request_checked_def)
  next
    case (2 t f mode)
    have k2: "keeps s s2" using keeps_trans [OF k1 2(3)] .
    have t: "t \<in> set (trans_list s2)" using 2(2) by simp
    have "keeps s (snd (sixp_trans_transit_state (Some t) SIXP_TRANS_STATE_REQUEST_RECEIVED s2))"
      using keeps_trans [OF k2 transit_keeps [OF keeps_inv [OF k2] t]] .
    then show ?thesis using 2(1) error_reply_keeps accept_ensures [OF k2 t a] by (simp add: sixp_request_checked_def Let_def)
  qed
  then have "ensures (keeps s) (obind (sixp_trans_alloc (Some pkt) (Some a) s1) (\<lambda>(tr, s2). sixp_request_checked inp sent sf pkt a tr s2))"
    by (intro ensures_obind) (auto split: prod.split)
  then show ?thesis
    using error_reply_keeps [OF keeps_refl [OF inv]]
    unfolding sixp_request_def Let_def nbr_def [symmetric] s1_def [symmetric] by (intro ensures_if)
qed

lemma sixp_input_keeps:
  assumes inv: "sixp_inv s" and a: "is_linkaddr a" and "sixp_input inp sent buf len (Some a) s = Done s'"
  shows "keeps s s'"
proof -
  have acc: "ensures (keeps s) (sixp_accept inp sf pkt a t s)" if "sixp_trans_find (Some a) s = Some t" for sf pkt t
    using accept_ensures [OF keeps_refl [OF inv] _ a] that find_peer(1) [OF inv a] by blast
  have "ensures (keeps s) (sixp_input inp sent buf len (Some a) s)"
    unfolding sixp_input_def Let_def
    using error_reply_keeps [OF keeps_refl [OF inv]] sixp_request_keeps [OF inv a] acc keeps_refl [OF inv]
    by (auto intro!: ensures_obind split: option.split)
  then show ?thesis using assms(3) by (rule ensuresD)
qed

lemma timeout_expired:
  assumes inv: "sixp_inv s" and t: "t \<in> set (trans_list s)" and tm: "tr_timer (trans_at s t) = Some (n, Handle_trans_timeout)"
  shows "\<exists>s'. handle_trans_timeout tmo (Some t) (ctimer_stop t s) = Done s' \<and> expired t s s'"
proof -
  let ?s0 = "ctimer_stop t s" let ?x = "trans_at s t"
  note ok = sixp_invD(5) [OF inv t]
  have nt: "tr_state ?x \<noteq> SIXP_TRANS_STATE_TERMINATING" using ok tm by (auto simp: trans_ok_def)
  obtain sf where sf: "tr_sf (trans_at ?s0 t) = Some sf" using ok by (auto simp: trans_ok_def ctimer_stop_def)
  have inv0: "sixp_inv ?s0" unfolding ctimer_stop_def
    using ok nt t by (intro sixp_inv_upd [OF inv]) (auto simp: trans_ok_def)
  have r0: "rank (trans_at ?s0 u) \<le> rank (trans_at s u)" "peer_addr (trans_at ?s0 u) = peer_addr (trans_at s u)" for u
    by (simp_all add: ctimer_stop_def rank_def)
  have un0: "untimed ?s0 \<subseteq> insert t (untimed s)" by (auto simp: untimed_def ctimer_stop_def split: if_splits)
  have ls0: "trans_list ?s0 = trans_list s" by (simp add: ctimer_stop_def)
  have "is_linkaddr (peer_addr (trans_at ?s0 t))" using ok by (simp add: trans_ok_def r0(2))
  note tk = tmo_keeps [OF inv0 this, of "sfid sf" "tr_cmd (trans_at ?s0 t)"]
  obtain s1 where s1: "(if sf_has_timeout sf then tmo (sfid sf) (tr_cmd (trans_at ?s0 t)) (peer_addr (trans_at ?s0 t)) ?s0 else Done ?s0) = Done s1"
    "keeps ?s0 s1"
    using tk keeps_refl [OF inv0] by (cases "sf_has_timeout sf") auto
  let ?s2 = "trans_upd t (\<lambda>x. x\<lparr>tr_state := SIXP_TRANS_STATE_TERMINATING, tr_timer := Some (0, Process_trans)\<rparr>) s1"
  have t1: "t \<in> set (trans_list s1)" using keepsD [OF s1(2)] t ls0 by simp
  have run: "handle_trans_timeout tmo (Some t) ?s0 = Done ?s2"
    using sf s1(1) by (simp add: handle_trans_timeout_def transit_terminating)
  have k: "keeps s1 ?s2" using transit_keeps [OF keeps_inv [OF s1(2)] t1] by (metis transit_terminating snd_conv)
  have k02: "keeps ?s0 ?s2" using keeps_trans [OF s1(2) k] .
  have "untimed ?s2 \<subseteq> untimed s"
  proof
    fix u assume u: "u \<in> untimed ?s2"
    then have "u \<noteq> t" by (auto simp: untimed_def)
    then show "u \<in> untimed s" using u k02 un0 unfolding keeps_def by blast
  qed
  moreover have "rank (trans_at ?s2 t) < rank ?x"
    using nt ok by (cases "tr_state ?x") (auto simp: rank_def trans_ok_def)
  moreover have "u \<in> set (trans_list ?s2) \<and> rank (trans_at ?s2 u) \<le> rank (trans_at s u) \<and>
      peer_addr (trans_at ?s2 u) = peer_addr (trans_at s u)" if "u \<in> set (trans_list s)" for u
    using keepsD [OF k02, unfolded ls0, OF that] keeps_peer [OF k02, unfolded ls0, OF that] r0 [of u] by simp
  ultimately have "expired t s ?s2" using keeps_inv [OF k02] unfolding expired_def by blast
  then show ?thesis using run by blast
qed

end

end
