(* ===== verification/SixpProps.thy ===== *)
theory SixpProps
  imports SixpInv
begin

text \<open>
  Properties of the 6P state machine: its executions as a step relation, the invariant along every execution, and the end of every
  transaction.
\<close>

section \<open>Executions\<close>

text \<open>What can happen to a node: a scheduling function sends a message, a message arrives, the MAC layer reports on a packet handed to
  it (of any index, packets may overtake each other), or the timer of a transaction expires. Function arguments are in the order of the code.\<close>

datatype sixp_event =
    Ev_output sixp_pkt_type_t u8 u8 "u8 list option" u16 linkaddr "nat option" "nat option" u16
  | Ev_input "u8 list option" u16 linkaddr
  | Ev_mac_report nat int
  | Ev_timer nat

definition expire :: "'a timeout_handler \<Rightarrow> nat \<Rightarrow> timer_fn \<Rightarrow> 'a sixp_node \<Rightarrow> 'a sixp_node outcome" where
  "expire tmo t f s =
     (case f of Handle_trans_timeout \<Rightarrow> handle_trans_timeout tmo (Some t) (ctimer_stop t s)
      | Process_trans \<Rightarrow> process_trans (Some t) (ctimer_stop t s))"

definition drop_sent :: "nat \<Rightarrow> 'a sixp_node \<Rightarrow> 'a sixp_node" where
  "drop_sent i s = s\<lparr>mac_sent := take i (mac_sent s) @ drop (Suc i) (mac_sent s)\<rparr>"

inductive sixp_step :: "'a timeout_handler \<Rightarrow> 'a sent_handler \<Rightarrow> 'a input_handler \<Rightarrow> removal_policy \<Rightarrow>
    sixp_event \<Rightarrow> 'a sixp_node \<Rightarrow> 'a sixp_node \<Rightarrow> bool"
  for tmo sent inp pol
where
  step_output: "is_linkaddr a \<Longrightarrow> sixp_output sent pol type code i body bl (Some a) func arg al s = Done (r, s') \<Longrightarrow>
    sixp_step tmo sent inp pol (Ev_output type code i body bl a func arg al) s s'"
| step_input: "is_linkaddr a \<Longrightarrow> sixp_input inp sent buf len (Some a) s = Done s' \<Longrightarrow>
    sixp_step tmo sent inp pol (Ev_input buf len a) s s'"
| step_report: "i < length (mac_sent s) \<Longrightarrow> mac_sent s ! i = (p, cb) \<Longrightarrow> call_back sent cb status (drop_sent i s) = Done s' \<Longrightarrow>
    sixp_step tmo sent inp pol (Ev_mac_report i status) s s'"
| step_timer: "tr_timer (trans_at s t) = Some (n, f) \<Longrightarrow> expire tmo t f s = Done s' \<Longrightarrow>
    sixp_step tmo sent inp pol (Ev_timer t) s s'"

inductive_cases sixp_stepE: "sixp_step tmo sent inp pol e s s'"
inductive_cases timer_stepE: "sixp_step tmo sent inp pol (Ev_timer t) s s'"

inductive sixp_run :: "'a timeout_handler \<Rightarrow> 'a sent_handler \<Rightarrow> 'a input_handler \<Rightarrow> removal_policy \<Rightarrow>
    sixp_event list \<Rightarrow> 'a sixp_node \<Rightarrow> 'a sixp_node \<Rightarrow> bool"
  for tmo sent inp pol
where
  run_Nil: "sixp_run tmo sent inp pol [] s s"
| run_Cons: "sixp_step tmo sent inp pol e s s1 \<Longrightarrow> sixp_run tmo sent inp pol es s1 s' \<Longrightarrow> sixp_run tmo sent inp pol (e # es) s s'"

inductive_cases sixp_run_ConsE: "sixp_run tmo sent inp pol (e # es) s s'"

definition sixp_ok :: "'a sixp_node \<Rightarrow> bool" where
  "sixp_ok s \<longleftrightarrow> sixp_inv s \<and> untimed s = {}"

context sf_handlers
begin

lemma timer_expires:
  assumes "sixp_inv s" "t \<in> set (trans_list s)" "tr_timer (trans_at s t) = Some (n, f)"
  shows "\<exists>s'. expire tmo t f s = Done s' \<and> expired t s s'"
  using timeout_expired [OF assms(1,2)] process_trans_expired [OF assms(1,2)] assms(3)
  by (cases f) (simp_all add: expire_def)

lemma listed_timer: "sixp_inv s \<Longrightarrow> tr_timer (trans_at s t) = Some x \<Longrightarrow> t \<in> set (trans_list s)"
  using sixp_invD(7) by (fastforce simp: trans_quiet_def)

lemma step_keeps:
  assumes inv: "sixp_inv s" and step: "sixp_step tmo sent inp pol e s s'"
  shows "keeps s s' \<and> (\<forall>t. e \<noteq> Ev_timer t) \<or> (\<exists>t. e = Ev_timer t \<and> t \<in> set (trans_list s) \<and> expired t s s')"
  using step
proof (cases rule: sixp_step.cases)
  case (step_output a type code i body bl func arg al r)
  then show ?thesis using ensuresD [OF sixp_output_keeps [OF inv step_output(2)] step_output(3)] by simp
next
  case (step_input a buf len)
  then show ?thesis using sixp_input_keeps [OF inv step_input(2,3)] by simp
next
  case (step_report i p cb status)
  have k: "keeps s (drop_sent i s)" by (rule keeps_cong [OF inv]) (simp_all add: drop_sent_def sixp_invD(1) [OF inv])
  then show ?thesis using call_back_keeps [OF keeps_inv step_report(4)] keeps_trans step_report(1) by blast
next
  case (step_timer t n f)
  have t: "t \<in> set (trans_list s)" using listed_timer [OF inv step_timer(2)] .
  then show ?thesis using timer_expires [OF inv t step_timer(2)] step_timer(1,3) by auto
qed

lemma step_ok: "sixp_ok s \<Longrightarrow> sixp_step tmo sent inp pol e s s' \<Longrightarrow> sixp_ok s'"
  using step_keeps [of s pol e s'] unfolding sixp_ok_def keeps_def expired_def by blast

lemma run_ok: "sixp_run tmo sent inp pol es s s' \<Longrightarrow> sixp_ok s \<Longrightarrow> sixp_ok s'"
  by (induction rule: sixp_run.induct) (auto intro: step_ok)

lemma step_rank:
  assumes "sixp_inv s" "sixp_step tmo sent inp pol e s s'" "t \<in> set (trans_list s)"
  shows "t \<notin> set (trans_list s') \<and> e = Ev_timer t \<or>
    t \<in> set (trans_list s') \<and> rank (trans_at s' t) + (if e = Ev_timer t then 1 else 0) \<le> rank (trans_at s t)"
  using step_keeps [OF assms(1,2)] assms(3) unfolding keeps_def expired_def by (auto simp: Suc_le_eq)

lemma run_ends:
  "sixp_run tmo sent inp pol es s s' \<Longrightarrow> sixp_ok s \<Longrightarrow> t \<in> set (trans_list s) \<Longrightarrow>
   rank (trans_at s t) \<le> count_list es (Ev_timer t) \<Longrightarrow>
   \<exists>es1 es2 s1. es = es1 @ es2 \<and> sixp_run tmo sent inp pol es1 s s1 \<and> sixp_run tmo sent inp pol es2 s1 s' \<and> t \<notin> set (trans_list s1)"
proof (induction rule: sixp_run.induct)
  case (run_Nil s)
  then show ?case by (cases "tr_state (trans_at s t)") (auto simp: rank_def)
next
  case (run_Cons e s s1 es s')
  have inv: "sixp_inv s" using run_Cons.prems(1) by (simp add: sixp_ok_def)
  show ?case
  proof (cases "t \<in> set (trans_list s1)")
    case True
    have "rank (trans_at s1 t) \<le> count_list es (Ev_timer t)"
      using step_rank [OF inv run_Cons.hyps(1) run_Cons.prems(2)] True run_Cons.prems(3) by (auto split: if_splits)
    then obtain es1 es2 s2 where "es = es1 @ es2" "sixp_run tmo sent inp pol es1 s1 s2" "sixp_run tmo sent inp pol es2 s2 s'"
      "t \<notin> set (trans_list s2)"
      using run_Cons.IH [OF step_ok [OF run_Cons.prems(1) run_Cons.hyps(1)] True] by blast
    then show ?thesis using sixp_run.run_Cons [OF run_Cons.hyps(1)] by (metis append_Cons)
  next
    case False
    then show ?thesis
      using sixp_run.run_Cons [OF run_Cons.hyps(1) sixp_run.run_Nil] run_Cons.hyps(2) by (metis append_Cons append_Nil)
  qed
qed

lemma timer_enabled:
  assumes "sixp_ok s" "t \<in> set (trans_list s)"
  shows "\<exists>s'. sixp_step tmo sent inp pol (Ev_timer t) s s'"
proof -
  obtain n f where "tr_timer (trans_at s t) = Some (n, f)" using assms by (auto simp: sixp_ok_def untimed_def)
  then show ?thesis using timer_expires [of s t n f] assms sixp_step.step_timer by (fastforce simp: sixp_ok_def)
qed

lemma rank_bound: "rank x \<le> 9"
  by (cases "tr_state x") (auto simp: rank_def split: option.split timer_fn.split)

end

end
