(* ===== verification/SfSimple.thy ===== *)
theory SfSimple
  imports SixpProps TschSchedule
begin

text \<open>
  The scheduling function \<^verbatim>\<open>examples/6tisch/sixtop/sf-simple.c\<close>: it negotiates cells with 6P messages and installs or removes
  the corresponding links in the TSCH schedule. Its state is the schedule and its two message buffers.

  The sent callbacks are numbered (0 adds, 1 deletes); both get the response buffer as argument. A cell is
  stored in memory as two little-endian 16-bit numbers. The counter of the loop over a received cell list is
  a \<open>uint8_t\<close>; a message is at most 128 bytes long, so it does not wrap. The random numbers of
  \<open>sf_simple_add_links\<close> are the values of a function, and its loop may run for ever (None).
\<close>

section \<open>State\<close>

definition SF_SIMPLE_MAX_LINKS :: nat where "SF_SIMPLE_MAX_LINKS = 3"
definition SF_SIMPLE_SFID :: u8 where "SF_SIMPLE_SFID = 0xf0"

record sf_simple =
  sfs_tsch :: tsch
  res_storage :: "u8 list"
  req_storage :: "u8 list"

record sf_simple_cell_t =
  timeslot_offset :: u16
  cell_channel_offset :: u16

type_synonym sfs_node = "sf_simple sixp_node"

abbreviation storage_size :: nat where "storage_size \<equiv> 4 + SF_SIMPLE_MAX_LINKS * 4"

definition cell_bytes :: "sf_simple_cell_t \<Rightarrow> u8 list" where
  "cell_bytes c = write16 (timeslot_offset c) @ write16 (cell_channel_offset c)"

definition sfs_upd :: "(sf_simple \<Rightarrow> sf_simple) \<Rightarrow> sfs_node \<Rightarrow> sfs_node" where
  "sfs_upd f s = s\<lparr>sf_state := f (sf_state s)\<rparr>"

definition set_tsch :: "tsch \<Rightarrow> sfs_node \<Rightarrow> sfs_node" where
  "set_tsch t s = sfs_upd (\<lambda>x. x\<lparr>sfs_tsch := t\<rparr>) s"

section \<open>Cells and the schedule\<close>

definition read_cell :: "nat \<Rightarrow> u8 list \<Rightarrow> sf_simple_cell_t outcome" where
  "read_cell off buf =
     obind (mem_read off 4 buf) (\<lambda>b.
     Done \<lparr>timeslot_offset = ucast (b ! 0) + push_bit 8 (ucast (b ! 1)),
           cell_channel_offset = ucast (b ! 2) + push_bit 8 (ucast (b ! 3))\<rparr>)"

fun add_links_loop :: "linkaddr \<Rightarrow> u8 \<Rightarrow> nat option \<Rightarrow> u8 list \<Rightarrow> nat \<Rightarrow> nat \<Rightarrow> tsch \<Rightarrow> tsch outcome" where
  "add_links_loop a opt sl cells i 0 s = Done s"
| "add_links_loop a opt sl cells i (Suc k) s =
     obind (read_cell i cells) (\<lambda>c.
       if timeslot_offset c = 0xffff then add_links_loop a opt sl cells (Suc i) k s
       else Done (snd (tsch_schedule_add_link sl opt LINK_TYPE_NORMAL (Some a) (timeslot_offset c) (cell_channel_offset c) s)))"

definition add_links_to_schedule :: "linkaddr \<Rightarrow> u8 \<Rightarrow> u8 list \<Rightarrow> u16 \<Rightarrow> sfs_node \<Rightarrow> sfs_node outcome" where
  "add_links_to_schedule a opt cells len s =
     (let t = sfs_tsch (sf_state s); sl = tsch_schedule_get_slotframe_by_handle 0 t in
      if sl = None then Done s
      else obind (add_links_loop a opt sl cells 0 (unat len div 4) t) (\<lambda>t'. Done (set_tsch t' s)))"

fun remove_cells_loop :: "nat option \<Rightarrow> u8 list \<Rightarrow> nat \<Rightarrow> nat \<Rightarrow> tsch \<Rightarrow> tsch outcome" where
  "remove_cells_loop sl cells i 0 s = Done s"
| "remove_cells_loop sl cells i (Suc k) s =
     obind (read_cell i cells) (\<lambda>c.
       remove_cells_loop sl cells (Suc i) k
         (if timeslot_offset c = 0xffff then s else snd (tsch_schedule_remove_link_by_timeslot sl (timeslot_offset c) s)))"

definition remove_links_to_schedule :: "u8 list \<Rightarrow> u16 \<Rightarrow> sfs_node \<Rightarrow> sfs_node outcome" where
  "remove_links_to_schedule cells len s =
     (let t = sfs_tsch (sf_state s); sl = tsch_schedule_get_slotframe_by_handle 0 t in
      if sl = None then Done s
      else obind (remove_cells_loop sl cells 0 (unat len div 4) t) (\<lambda>t'. Done (set_tsch t' s)))"

section \<open>Callbacks of sent responses\<close>

text \<open>Both callbacks act on the cell list of the response only if it was sent and the peer is a neighbor.\<close>

definition response_cells :: "u8 list option \<Rightarrow> u16 \<Rightarrow> (u8 list \<times> u16) outcome" where
  "response_cells body len =
     obind (sixp_pkt_get_cell_list SIXP_PKT_TYPE_RESPONSE SIXP_PKT_RC_SUCCESS True True body len) (\<lambda>(off, n).
     Done (case (off, body) of (Some k, Some b) \<Rightarrow> drop k b | _ \<Rightarrow> [], n))"

definition add_response_sent_callback :: "u16 \<Rightarrow> linkaddr \<Rightarrow> sixp_output_status_t \<Rightarrow> sfs_node \<Rightarrow> sfs_node outcome" where
  "add_response_sent_callback body_len a status s =
     (if status = SIXP_OUTPUT_STATUS_SUCCESS then
        (case response_cells (Some (res_storage (sf_state s))) body_len of
           Done (cells, n) \<Rightarrow>
             if sixp_nbr_find (Some a) (sixp_nbr_tab s) \<noteq> None then add_links_to_schedule a LINK_OPTION_RX cells n s else Done s
         | Failed \<Rightarrow> Done s
         | Fault \<Rightarrow> Fault)
      else Done s)"

definition delete_response_sent_callback :: "u16 \<Rightarrow> linkaddr \<Rightarrow> sixp_output_status_t \<Rightarrow> sfs_node \<Rightarrow> sfs_node outcome" where
  "delete_response_sent_callback body_len a status s =
     (if status = SIXP_OUTPUT_STATUS_SUCCESS then
        (case response_cells (Some (res_storage (sf_state s))) body_len of
           Done (cells, n) \<Rightarrow>
             if sixp_nbr_find (Some a) (sixp_nbr_tab s) \<noteq> None then remove_links_to_schedule cells n s else Done s
         | Failed \<Rightarrow> Done s
         | Fault \<Rightarrow> Fault)
      else Done s)"

definition sf_simple_sent :: "sf_simple sent_handler" where
  "sf_simple_sent func arg arg_len a status s =
     (if func = 0 then add_response_sent_callback arg_len a status s
      else if func = 1 then delete_response_sent_callback arg_len a status s
      else Done s)"

section \<open>Requests\<close>

definition store_cell :: "sf_simple_cell_t \<Rightarrow> nat \<Rightarrow> u8 list \<Rightarrow> u8 list outcome" where
  "store_cell c off res =
     (case sixp_pkt_set_cell_list SIXP_PKT_TYPE_RESPONSE SIXP_PKT_RC_SUCCESS (Some (cell_bytes c)) 4 (of_nat off)
        (Some res) (of_nat storage_size) of
        Done r \<Rightarrow> Done r | Failed \<Rightarrow> Done res | Fault \<Rightarrow> Fault)"

text \<open>The loops over the requested cells; the results are the response, its length and the number of cells found.\<close>

function add_req_loop :: "nat option \<Rightarrow> tsch \<Rightarrow> u8 list \<Rightarrow> nat \<Rightarrow> nat \<Rightarrow> nat \<Rightarrow> nat \<Rightarrow> u8 list \<Rightarrow> u16 \<Rightarrow> (u8 list \<times> u16 \<times> nat) outcome" where
  "add_req_loop sl t cells len num i feasible res res_len =
     (if i < len \<and> feasible < num then
        obind (read_cell i cells) (\<lambda>c.
          if tsch_schedule_get_link_by_timeslot sl (timeslot_offset c) t = None
          then obind (store_cell c feasible res) (\<lambda>res'. add_req_loop sl t cells len num (i + 4) (Suc feasible) res' (res_len + 4))
          else add_req_loop sl t cells len num (i + 4) feasible res res_len)
      else Done (res, res_len, feasible))"
  by pat_completeness auto
termination by (relation "measure (\<lambda>(_, _, _, len, _, i, _, _, _). len - i)") auto

declare add_req_loop.simps [simp del]

fun delete_req_loop :: "nat option \<Rightarrow> tsch \<Rightarrow> u8 list \<Rightarrow> nat \<Rightarrow> nat \<Rightarrow> u8 list \<Rightarrow> u16 \<Rightarrow> (u8 list \<times> u16) outcome" where
  "delete_req_loop sl t cells i 0 res res_len = Done (res, res_len)"
| "delete_req_loop sl t cells i (Suc k) res res_len =
     obind (read_cell i cells) (\<lambda>c.
       if tsch_schedule_get_link_by_timeslot sl (timeslot_offset c) t \<noteq> None
       then obind (store_cell c 0 res) (\<lambda>res'. delete_req_loop sl t cells (Suc i) k res' (res_len + 4))
       else delete_req_loop sl t cells (Suc i) k res res_len)"

text \<open>The fields of a request that both handlers read: the number of cells and the cell list.\<close>

definition request_cells :: "u8 \<Rightarrow> u8 list option \<Rightarrow> u16 \<Rightarrow> (u8 \<times> u8 list \<times> u16) outcome" where
  "request_cells cmd body len =
     obind (sixp_pkt_get_num_cells SIXP_PKT_TYPE_REQUEST cmd True body len) (\<lambda>num.
     obind (sixp_pkt_get_cell_list SIXP_PKT_TYPE_REQUEST cmd True True body len) (\<lambda>(off, n).
     Done (num, case (off, body) of (Some k, Some b) \<Rightarrow> drop k b | _ \<Rightarrow> [], n)))"

definition send_response :: "removal_policy \<Rightarrow> nat \<Rightarrow> u16 \<Rightarrow> linkaddr \<Rightarrow> sfs_node \<Rightarrow> sfs_node outcome" where
  "send_response pol func res_len a s =
     obind (sixp_output sf_simple_sent pol SIXP_PKT_TYPE_RESPONSE SIXP_PKT_RC_SUCCESS SF_SIMPLE_SFID
        (Some (res_storage (sf_state s))) res_len (Some a) (Some func) (Some 0) res_len s) (\<lambda>(_, s1). Done s1)"

definition add_req_input :: "removal_policy \<Rightarrow> u8 list option \<Rightarrow> u16 \<Rightarrow> linkaddr \<Rightarrow> sfs_node \<Rightarrow> sfs_node outcome" where
  "add_req_input pol body body_len a s =
     (case request_cells SIXP_PKT_CMD_ADD body body_len of
        Fault \<Rightarrow> Fault
      | Failed \<Rightarrow> Done s
      | Done (num_cells, cells, n) \<Rightarrow>
          (let t = sfs_tsch (sf_state s); sl = tsch_schedule_get_slotframe_by_handle 0 t in
           if sl = None then Done s
           else if num_cells > 0 \<and> n > 0 then
             obind (add_req_loop sl t cells (unat n) (unat num_cells) 0 0 (replicate storage_size 0) 0) (\<lambda>(res, res_len, feasible).
               let s1 = sfs_upd (\<lambda>x. x\<lparr>res_storage := res\<rparr>) s in
               if feasible = unat num_cells then send_response pol 0 res_len a s1 else Done s1)
           else Done s))"

definition delete_req_input :: "removal_policy \<Rightarrow> u8 list option \<Rightarrow> u16 \<Rightarrow> linkaddr \<Rightarrow> sfs_node \<Rightarrow> sfs_node outcome" where
  "delete_req_input pol body body_len a s =
     (case request_cells SIXP_PKT_CMD_DELETE body body_len of
        Fault \<Rightarrow> Fault
      | Failed \<Rightarrow> Done s
      | Done (num_cells, cells, n) \<Rightarrow>
          (let t = sfs_tsch (sf_state s); sl = tsch_schedule_get_slotframe_by_handle 0 t in
           if sl = None then Done s
           else
             obind (if num_cells > 0 \<and> n > 0 then delete_req_loop sl t cells 0 (unat n div 4) (replicate storage_size 0) 0
                    else Done (replicate storage_size 0, 0)) (\<lambda>(res, res_len).
             send_response pol 1 res_len a (sfs_upd (\<lambda>x. x\<lparr>res_storage := res\<rparr>) s))))"

definition request_input :: "removal_policy \<Rightarrow> u8 \<Rightarrow> u8 list option \<Rightarrow> u16 \<Rightarrow> linkaddr \<Rightarrow> sfs_node \<Rightarrow> sfs_node outcome" where
  "request_input pol cmd body body_len a s =
     (if cmd = SIXP_PKT_CMD_ADD then add_req_input pol body body_len a s
      else if cmd = SIXP_PKT_CMD_DELETE then delete_req_input pol body body_len a s
      else Done s)"

section \<open>Responses\<close>

definition response_input :: "u8 \<Rightarrow> u8 list option \<Rightarrow> u16 \<Rightarrow> linkaddr \<Rightarrow> sfs_node \<Rightarrow> sfs_node outcome" where
  "response_input rc body body_len a s =
     (let tr = sixp_trans_find (Some a) s in
      if sixp_nbr_find (Some a) (sixp_nbr_tab s) = None \<or> tr = None then Done s
      else if rc = SIXP_PKT_RC_SUCCESS then
        (let cmd = sixp_trans_get_cmd tr s in
         if cmd = SIXP_PKT_CMD_ADD \<or> cmd = SIXP_PKT_CMD_DELETE then
           (case response_cells body body_len of
              Fault \<Rightarrow> Fault
            | Failed \<Rightarrow> Done s
            | Done (cells, n) \<Rightarrow>
                if cmd = SIXP_PKT_CMD_ADD then add_links_to_schedule a LINK_OPTION_TX cells n s
                else remove_links_to_schedule cells n s)
         else Done s)
      else Done s)"

definition sf_simple_input :: "removal_policy \<Rightarrow> sf_simple input_handler" where
  "sf_simple_input pol i type code body body_len a s =
     (case type of
        SIXP_PKT_TYPE_REQUEST \<Rightarrow> request_input pol code body body_len a s
      | SIXP_PKT_TYPE_RESPONSE \<Rightarrow> response_input code body body_len a s
      | _ \<Rightarrow> Done s)"

text \<open>The driver has no \<open>init\<close> and no \<open>timeout\<close> function; these two are never called.\<close>

definition sf_simple_driver :: "nat \<Rightarrow> sixtop_sf_t" where
  "sf_simple_driver clock_second =
     \<lparr>sfid = SF_SIMPLE_SFID, timeout_interval = clock_second, sf_has_init = False, sf_has_input = True, sf_has_timeout = False\<rparr>"

abbreviation sf_simple_timeout :: "sf_simple timeout_handler" where
  "sf_simple_timeout \<equiv> \<lambda>_ _ _ s. Done s"

section \<open>Starting a transaction\<close>

text \<open>The inner loop compares a random slot with the cells chosen so far.\<close>

fun slot_scan :: "u16 \<Rightarrow> sf_simple_cell_t list \<Rightarrow> u8 \<Rightarrow> u8" where
  "slot_scan r [] slot_check = slot_check"
| "slot_scan r (c # cs) slot_check =
     (if timeslot_offset c \<noteq> r then if cs = [] then 1 else slot_scan r cs slot_check else slot_check + 1)"

partial_function (option) choose_slots ::
    "(nat \<Rightarrow> u16) \<Rightarrow> nat \<Rightarrow> nat option \<Rightarrow> tsch \<Rightarrow> u8 \<Rightarrow> sf_simple_cell_t list \<Rightarrow> sf_simple_cell_t list option option" where
  "choose_slots rnd k sl t slot_check cells =
     (let random_slot = (rnd k AND 0xff) mod TSCH_SCHEDULE_DEFAULT_LENGTH in
      if tsch_schedule_get_link_by_timeslot sl random_slot t = None then
        (let check1 = slot_scan random_slot cells slot_check in
         if check1 = 1 then
           (let cells1 = cells @ [\<lparr>timeslot_offset = random_slot, cell_channel_offset = 0\<rparr>] in
            if length cells1 < SF_SIMPLE_MAX_LINKS then choose_slots rnd (Suc k) sl t (check1 + 1) cells1 else Some (Some cells1))
         else if uint check1 > uint TSCH_SCHEDULE_DEFAULT_LENGTH then Some None
         else choose_slots rnd (Suc k) sl t check1 cells)
      else choose_slots rnd (Suc k) sl t slot_check cells)"

text \<open>One of the setters that fill the request buffer: the result says whether all succeeded.\<close>

definition try_set :: "(u8 list \<Rightarrow> u8 list outcome) \<Rightarrow> bool \<times> u8 list \<Rightarrow> (bool \<times> u8 list) outcome" where
  "try_set f b =
     (if \<not> fst b then Done b
      else case f (snd b) of Done r \<Rightarrow> Done (True, r) | Failed \<Rightarrow> Done (False, snd b) | Fault \<Rightarrow> Fault)"

definition send_request :: "removal_policy \<Rightarrow> u8 \<Rightarrow> u16 \<Rightarrow> linkaddr \<Rightarrow> bool \<times> u8 list \<Rightarrow> sfs_node \<Rightarrow> (int \<times> sfs_node) outcome" where
  "send_request pol cmd req_len a b s =
     (let s1 = sfs_upd (\<lambda>x. x\<lparr>req_storage := snd b\<rparr>) s in
      if \<not> fst b then Done (-1, s1)
      else obind (sixp_output sf_simple_sent pol SIXP_PKT_TYPE_REQUEST cmd SF_SIMPLE_SFID (Some (snd b)) req_len (Some a) None None 0 s1)
             (\<lambda>(_, s2). Done (0, s2)))"

definition sf_simple_add_links ::
    "removal_policy \<Rightarrow> (nat \<Rightarrow> u16) \<Rightarrow> linkaddr \<Rightarrow> u8 \<Rightarrow> sfs_node \<Rightarrow> (int \<times> sfs_node) outcome option" where
  "sf_simple_add_links pol rnd a nlinks s =
     (let t = sfs_tsch (sf_state s); sl = tsch_schedule_get_slotframe_by_handle 0 t in
      case choose_slots rnd 0 sl t 1 [] of
        None \<Rightarrow> None
      | Some None \<Rightarrow> Some (Done (-1, s))
      | Some (Some cells) \<Rightarrow>
          Some (if cells = [] then Done (-1, s)
                else
                  obind (try_set (\<lambda>r. sixp_pkt_set_cell_options SIXP_PKT_TYPE_REQUEST SIXP_PKT_CMD_ADD 1 (Some r) (of_nat storage_size))
                      (True, replicate storage_size 0)) (\<lambda>b1.
                  obind (try_set (\<lambda>r. sixp_pkt_set_num_cells SIXP_PKT_TYPE_REQUEST SIXP_PKT_CMD_ADD nlinks (Some r) (of_nat storage_size)) b1) (\<lambda>b2.
                  obind (try_set (\<lambda>r. sixp_pkt_set_cell_list SIXP_PKT_TYPE_REQUEST SIXP_PKT_CMD_ADD (Some (concat (map cell_bytes cells)))
                      (of_nat (length cells * 4)) 0 (Some r) (of_nat storage_size)) b2) (\<lambda>b3.
                  send_request pol SIXP_PKT_CMD_ADD (4 + of_nat (length cells * 4)) a b3 s)))))"

definition sf_simple_remove_links :: "removal_policy \<Rightarrow> linkaddr \<Rightarrow> sfs_node \<Rightarrow> (int \<times> sfs_node) outcome" where
  "sf_simple_remove_links pol a s =
     (let t = sfs_tsch (sf_state s); sl = tsch_schedule_get_slotframe_by_handle 0 t;
          link_at = (\<lambda>i. tsch_schedule_get_link_by_timeslot sl (of_nat i) t);
          wanted = (\<lambda>i. case link_at i of None \<Rightarrow> False
            | Some l \<Rightarrow> linkaddr_cmp (l_addr (link t l)) a \<and> link_options (link t l) = LINK_OPTION_TX)
      in case find wanted [0..<unat TSCH_SCHEDULE_DEFAULT_LENGTH] of
           None \<Rightarrow> Done (-1, s)
         | Some i \<Rightarrow>
             (let cell = \<lparr>timeslot_offset = of_nat i,
                          cell_channel_offset = (case link_at i of Some l \<Rightarrow> channel_offset (link t l) | None \<Rightarrow> 0)\<rparr> in
              obind (try_set (\<lambda>r. sixp_pkt_set_num_cells SIXP_PKT_TYPE_REQUEST SIXP_PKT_CMD_DELETE 1 (Some r) (of_nat storage_size))
                  (True, replicate storage_size 0)) (\<lambda>b1.
              obind (try_set (\<lambda>r. sixp_pkt_set_cell_list SIXP_PKT_TYPE_REQUEST SIXP_PKT_CMD_DELETE (Some (cell_bytes cell)) 4 0
                  (Some r) (of_nat storage_size)) b1) (\<lambda>b2.
              send_request pol SIXP_PKT_CMD_DELETE (4 + 4) a b2 s))))"

section \<open>The handlers meet the contract of the 6top layer\<close>

lemma sfs_upd_keeps: "sixp_inv s \<Longrightarrow> keeps s (sfs_upd f s)"
  by (rule keeps_cong) (simp_all add: sfs_upd_def sixp_invD(1))

lemma schedule_keeps:
  assumes "sixp_inv s"
  shows "ensures (keeps s) (add_links_to_schedule a opt cells n s)" "ensures (keeps s) (remove_links_to_schedule cells n s)"
  using sfs_upd_keeps [OF assms] keeps_refl [OF assms]
  by (auto simp: add_links_to_schedule_def remove_links_to_schedule_def set_tsch_def Let_def intro!: ensures_obind)

lemma sent_callbacks_keep:
  assumes "sixp_inv s"
  shows "ensures (keeps s) (sf_simple_sent f arg n a st s)"
  using schedule_keeps [OF assms] keeps_refl [OF assms]
  by (auto simp: sf_simple_sent_def add_response_sent_callback_def delete_response_sent_callback_def split: outcome.split)

interpretation sfs_sent: sent_handler sf_simple_sent
  by unfold_locales (rule ensuresD [OF sent_callbacks_keep])

lemma send_response_keeps:
  assumes k: "keeps s s1" and a: "is_linkaddr a"
  shows "ensures (keeps s) (send_response pol f n a s1)"
  unfolding send_response_def
  by (rule ensures_obind_mono [OF sfs_sent.sixp_output_keeps [OF keeps_inv [OF k] a]]) (auto intro: keeps_trans [OF k])

lemma sf_simple_input_keeps:
  assumes inv: "sixp_inv s" and a: "is_linkaddr a"
  shows "ensures (keeps s) (sf_simple_input pol i type code body n a s)"
proof -
  note r = keeps_refl [OF inv] and u = sfs_upd_keeps [OF inv]
  have "ensures (keeps s) (add_req_input pol body n a s)" "ensures (keeps s) (delete_req_input pol body n a s)"
    unfolding add_req_input_def delete_req_input_def Let_def
    using r u send_response_keeps [OF u a] by (auto intro!: ensures_obind split: outcome.split)
  moreover have "ensures (keeps s) (response_input code body n a s)"
    unfolding response_input_def Let_def using r schedule_keeps [OF inv] by (auto split: outcome.split)
  ultimately show ?thesis using r by (cases type) (simp_all add: sf_simple_input_def request_input_def)
qed

interpretation sfs: sf_handlers sf_simple_sent sf_simple_timeout "sf_simple_input pol" for pol
proof unfold_locales
  show "\<exists>s'. Done s = Done s' \<and> keeps s s'" if "sixp_inv s" for s :: sfs_node using keeps_refl [OF that] by blast
qed (rule ensuresD [OF sf_simple_input_keeps])

end
