(* ===== verification/SixpLife.thy ===== *)
theory SixpLife
  imports SfSimple
begin

text \<open>
  The life of the 6P transactions of a node, from its start: an executable form of the step relation, the start of a node, and the
  properties of all its executions.
\<close>

text \<open>An updated function is evaluated only where it is applied, with the new value computed once.\<close>

declare fun_upd_def [code del]
declare fun_upd_apply [code]

section \<open>Executable steps\<close>

text \<open>Failed stands for an event that cannot happen in the state.\<close>

fun sixp_exec :: "'a timeout_handler \<Rightarrow> 'a sent_handler \<Rightarrow> 'a input_handler \<Rightarrow> removal_policy \<Rightarrow>
    sixp_event \<Rightarrow> 'a sixp_node \<Rightarrow> 'a sixp_node outcome" where
  "sixp_exec tmo sent inp pol (Ev_output type code i body bl a func arg al) s =
     (if is_linkaddr a then obind (sixp_output sent pol type code i body bl (Some a) func arg al s) (\<lambda>(_, s'). Done s') else Failed)"
| "sixp_exec tmo sent inp pol (Ev_input buf len a) s = (if is_linkaddr a then sixp_input inp sent buf len (Some a) s else Failed)"
| "sixp_exec tmo sent inp pol (Ev_mac_report i status) s =
     (if i < length (mac_sent s) then call_back sent (snd (mac_sent s ! i)) status (drop_sent i s) else Failed)"
| "sixp_exec tmo sent inp pol (Ev_timer t) s =
     (case tr_timer (trans_at s t) of None \<Rightarrow> Failed | Some (_, f) \<Rightarrow> expire tmo t f s)"

fun sixp_execs :: "'a timeout_handler \<Rightarrow> 'a sent_handler \<Rightarrow> 'a input_handler \<Rightarrow> removal_policy \<Rightarrow>
    sixp_event list \<Rightarrow> 'a sixp_node \<Rightarrow> 'a sixp_node outcome" where
  "sixp_execs tmo sent inp pol [] s = Done s"
| "sixp_execs tmo sent inp pol (e # es) s = obind (sixp_exec tmo sent inp pol e s) (sixp_execs tmo sent inp pol es)"

lemma sixp_exec_step: "sixp_exec tmo sent inp pol e s = Done s' \<Longrightarrow> sixp_step tmo sent inp pol e s s'"
  by (cases e)
    (auto simp: obind_Done_iff split: if_splits option.splits
      intro: sixp_step.step_output sixp_step.step_input sixp_step.step_report [OF _ prod.collapse [symmetric]] sixp_step.step_timer)

lemma sixp_execs_run: "sixp_execs tmo sent inp pol es s = Done s' \<Longrightarrow> sixp_run tmo sent inp pol es s s'"
  by (induction es arbitrary: s)
    (auto simp: obind_Done_iff intro: sixp_run.run_Nil sixp_run.run_Cons [OF sixp_exec_step])

text \<open>A property of a run that can be evaluated.\<close>

definition after :: "'b outcome \<Rightarrow> ('b \<Rightarrow> bool) \<Rightarrow> bool" where
  "after m P = (case m of Done s \<Rightarrow> P s | _ \<Rightarrow> False)"

lemma after_run: "after (sixp_execs tmo sent inp pol es s) P \<Longrightarrow> \<exists>s'. sixp_run tmo sent inp pol es s s' \<and> P s'"
  unfolding after_def by (cases "sixp_execs tmo sent inp pol es s") (use sixp_execs_run in force)+

section \<open>Start\<close>

text \<open>The memory of a node before its initialisation, and a node that runs the scheduling function \<open>sf\<close>.\<close>

definition blank_tables :: "sixp_nbr_t nbr_tables" where
  "blank_tables = \<lparr>used_map = replicate 16 0, locked_map = replicate 16 0, all_tables = replicate 8 None, num_tables = 0,
     neighbor_addr_mem = \<lparr>mb_num = 16, mb_count = \<lambda>_. 0, mb_mem = \<lambda>_. linkaddr_null\<rparr>, nbr_table_keys = [],
     tabs = \<lambda>_. \<lparr>nt_index = 0, nt_callback = None, nt_data = \<lambda>_. \<lparr>nbr_addr = linkaddr_null, next_seqno = 0\<rparr>,
                 nt_zero = \<lparr>nbr_addr = linkaddr_null, next_seqno = 0\<rparr>\<rparr>, removed_log = []\<rparr>"

definition blank_node :: "packetbuf \<Rightarrow> linkaddr \<Rightarrow> 'a \<Rightarrow> 'a sixp_node" where
  "blank_node p a x = \<lparr>sixp_nbr_tab = blank_tables,
     trans_memb = \<lparr>mb_num = SIXTOP_MAX_TRANSACTIONS, mb_count = \<lambda>_. 0, mb_mem = \<lambda>_. sixp_trans_zero\<rparr>,
     trans_list = [], scheduling_functions = replicate SIXTOP_MAX_SCHEDULING_FUNCTIONS None, node_packetbuf = p,
     linkaddr_node_addr = a, mac_sent = [], sf_state = x\<rparr>"

lemma blank_tables_ok: "nt_inv blank_tables" "\<not> registered blank_tables t" "num_tables blank_tables < MAX_NUM_TABLES"
  by (simp_all add: nt_inv_def blank_tables_def registered_def nbr_table_is_registered_def NBR_TABLE_MAX_NEIGHBORS_def
      MAX_NUM_TABLES_def memb_inv_def memb_used_def)

lemma trans_init_loop_fields [simp]:
  "sixp_nbr_tab (trans_init_loop ts s) = sixp_nbr_tab s" "scheduling_functions (trans_init_loop ts s) = scheduling_functions s"
  "mac_sent (trans_init_loop ts s) = mac_sent s"
  by (induction ts arbitrary: s) (simp_all add: free_trans_def ctimer_stop_def)

lemma sixp_trans_init_inv:
  assumes "sn_inv (sixp_nbr_tab s)"
  shows "sixp_ok (snd (sixp_trans_init s))" "trans_list (snd (sixp_trans_init s)) = []"
  using assms by (simp_all add: sixp_trans_init_def sixp_ok_def sixp_inv_def untimed_def Let_def trans_quiet_def sixp_trans_zero_def)

lemma sixp_nbr_init_inv:
  assumes "nt_inv tab" "num_tables tab < MAX_NUM_TABLES \<or> registered tab sixp_nbrs"
  shows "\<exists>tab'. sixp_nbr_init tab = Some (0, tab') \<and> sn_inv tab'"
proof (cases "registered tab sixp_nbrs")
  case True
  then show ?thesis using sixp_nbr_init_again [of tab] assms(1) by (auto simp: sn_inv_def)
next
  case False
  then show ?thesis
    using register_inv [OF assms(1) False _ refl] assms(2) by (auto simp: sixp_nbr_init_def registered_def sn_inv_def)
qed

lemma sixp_init_ok:
  assumes "nt_inv (sixp_nbr_tab s)" "num_tables (sixp_nbr_tab s) < MAX_NUM_TABLES \<or> registered (sixp_nbr_tab s) sixp_nbrs"
  shows "\<exists>s'. sixp_init s = Some s' \<and> sixp_ok s' \<and> trans_list s' = []"
  using sixp_nbr_init_inv [OF assms] sixp_trans_init_inv [of "s\<lparr>sixp_nbr_tab := _\<rparr>"] by (force simp: sixp_init_def)

lemma sixp_ok_sfs: "sixp_ok s \<Longrightarrow> sixp_ok (s\<lparr>scheduling_functions := sfs\<rparr>)"
  by (simp add: sixp_ok_def sixp_inv_def untimed_def)

text \<open>A node that has started the sublayer and added a scheduling function, and the state of \<open>sf-simple\<close> then.\<close>

definition sfs_blank :: sf_simple where
  "sfs_blank = \<lparr>sfs_tsch = tsch_zero, res_storage = replicate storage_size 0, req_storage = replicate storage_size 0\<rparr>"

definition started :: "sixtop_sf_t \<Rightarrow> linkaddr \<Rightarrow> 'a \<Rightarrow> 'a sixp_node" where
  "started sf a x = (let s = blank_node pb_zero a x in
     case sixtop_init (\<lambda>_ s. Done s) s of
       Some (Done s1) \<Rightarrow> (case sixtop_add_sf (\<lambda>_ s. Done s) sf s1 of Done (_, s2) \<Rightarrow> s2 | _ \<Rightarrow> s)
     | _ \<Rightarrow> s)"

lemma init_sfs_None: "init_sfs ini (map (\<lambda>_. None) xs) s = Done s"
  by (induction xs) simp_all

lemma sixp_init_sfs: "sixp_init s = Some s' \<Longrightarrow> scheduling_functions s' = scheduling_functions s"
  by (auto simp: sixp_init_def sixp_trans_init_def Let_def)

lemma started_eq:
  assumes "sixp_init (blank_node pb_zero a x) = Some s'"
  shows "started sf a x = s'\<lparr>scheduling_functions := [Some sf]\<rparr>"
  using assms sixp_init_sfs [OF assms]
  by (simp add: started_def Let_def sixtop_init_def sixtop_init_sf_def sixtop_add_sf_def sixtop_find_sf_def call_init_def
      blank_node_def SIXTOP_MAX_SCHEDULING_FUNCTIONS_def)

lemma started_ok: "sixp_ok (started sf a x)"
proof -
  obtain s' where s': "sixp_init (blank_node pb_zero a x) = Some s'" "sixp_ok s'"
    using sixp_init_ok [of "blank_node pb_zero a x"] blank_tables_ok by (auto simp: blank_node_def)
  then show ?thesis using started_eq [OF s'(1)] sixp_ok_sfs by simp
qed

abbreviation sfs_start :: "linkaddr \<Rightarrow> sfs_node" where
  "sfs_start a \<equiv> started (sf_simple_driver 128) a sfs_blank"

abbreviation sfs_execs :: "sixp_event list \<Rightarrow> sfs_node \<Rightarrow> sfs_node outcome" where
  "sfs_execs \<equiv> sixp_execs sf_simple_timeout sf_simple_sent (sf_simple_input None) None"

abbreviation sfs_run :: "removal_policy \<Rightarrow> sixp_event list \<Rightarrow> sfs_node \<Rightarrow> sfs_node \<Rightarrow> bool" where
  "sfs_run pol \<equiv> sixp_run sf_simple_timeout sf_simple_sent (sf_simple_input pol) pol"

definition addr_a :: linkaddr where "addr_a = [1, 1, 1, 1, 1, 1, 1, 1]"
definition addr_b :: linkaddr where "addr_b = [2, 2, 2, 2, 2, 2, 2, 2]"
definition addr_me :: linkaddr where "addr_me = [9, 9, 9, 9, 9, 9, 9, 9]"

definition count_req :: "linkaddr \<Rightarrow> sixp_event" where
  "count_req a = Ev_output SIXP_PKT_TYPE_REQUEST SIXP_PKT_CMD_COUNT SF_SIMPLE_SFID (Some [0, 0, 0]) 3 a None None 0"

text \<open>A request to the first neighbor that is not sent before the transaction times out, then a request to the second one.\<close>

definition stale_events :: "sixp_event list" where
  "stale_events = [count_req addr_a, Ev_timer 0, Ev_timer 0, count_req addr_b]"

definition mute_sf :: sixtop_sf_t where
  "mute_sf = (sf_simple_driver 128)\<lparr>sf_has_input := False\<rparr>"

definition receivers :: "'a sixp_node \<Rightarrow> (linkaddr \<times> nat option) list" where
  "receivers s = map (\<lambda>(p, cb). (packetbuf_addr PACKETBUF_ADDR_RECEIVER p, cb)) (mac_sent s)"

definition peers :: "'a sixp_node \<Rightarrow> (linkaddr \<times> sixp_trans_state_t) list" where
  "peers s = map (\<lambda>t. (peer_addr (trans_at s t), tr_state (trans_at s t))) (trans_list s)"

section \<open>Properties\<close>

lemma sixp_ok_facts:
  assumes "sixp_ok s"
  shows "distinct (trans_list s)" "set (trans_list s) = memb_used (trans_memb s)"
    "inj_on (\<lambda>t. peer_addr (trans_at s t)) (set (trans_list s))"
    "t \<in> set (trans_list s) \<Longrightarrow> tr_sf (trans_at s t) \<noteq> None" "t \<in> set (trans_list s) \<Longrightarrow> tr_timer (trans_at s t) \<noteq> None"
    "t \<in> set (trans_list s) \<Longrightarrow> tr_state (trans_at s t) \<noteq> SIXP_TRANS_STATE_UNAVAILABLE"
    "t \<in> set (trans_list s) \<Longrightarrow> tr_mode (trans_at s t) \<noteq> SIXP_TRANS_MODE_UNAVAILABLE"
    "t \<notin> set (trans_list s) \<Longrightarrow> tr_timer (trans_at s t) = None"
proof -
  have i: "sixp_inv s" "untimed s = {}" using assms by (simp_all add: sixp_ok_def)
  note inv = sixp_invD [OF i(1)]
  show "distinct (trans_list s)" "set (trans_list s) = memb_used (trans_memb s)"
    "inj_on (\<lambda>t. peer_addr (trans_at s t)) (set (trans_list s))"
    "t \<in> set (trans_list s) \<Longrightarrow> tr_sf (trans_at s t) \<noteq> None" "t \<in> set (trans_list s) \<Longrightarrow> tr_timer (trans_at s t) \<noteq> None"
    "t \<in> set (trans_list s) \<Longrightarrow> tr_state (trans_at s t) \<noteq> SIXP_TRANS_STATE_UNAVAILABLE"
    "t \<in> set (trans_list s) \<Longrightarrow> tr_mode (trans_at s t) \<noteq> SIXP_TRANS_MODE_UNAVAILABLE"
    "t \<notin> set (trans_list s) \<Longrightarrow> tr_timer (trans_at s t) = None"
    using inv(2-4,6) inv(5) [of t] inv(7) [of t] i(2) by (auto simp: trans_ok_def trans_quiet_def untimed_def)
qed

text \<open>C12. Initialisation of the 6top protocol returns a node without transactions, also when the node was initialised before, and in
  every state that an execution reaches from there, with any scheduling functions whose handlers keep the invariant, the transactions in use
  are exactly the allocated blocks of the pool, there is at most one for each peer, each refers to a scheduling function, has a mode and has a
  running timer, and a block that is not in use has no running timer.\<close>

theorem sixp_run_invariant:
  assumes "sf_handlers sent tmo inp"
    and "nt_inv (sixp_nbr_tab s)" "num_tables (sixp_nbr_tab s) < MAX_NUM_TABLES \<or> registered (sixp_nbr_tab s) sixp_nbrs"
  shows "\<exists>s1. sixp_init s = Some s1 \<and> trans_list s1 = [] \<and>
    (\<forall>sfs pol es s'. sixp_run tmo sent inp pol es (s1\<lparr>scheduling_functions := sfs\<rparr>) s' \<longrightarrow>
      distinct (trans_list s') \<and> set (trans_list s') = memb_used (trans_memb s') \<and>
      inj_on (\<lambda>t. peer_addr (trans_at s' t)) (set (trans_list s')) \<and>
      (\<forall>t. t \<in> set (trans_list s') \<longrightarrow> tr_sf (trans_at s' t) \<noteq> None \<and> tr_timer (trans_at s' t) \<noteq> None \<and>
         tr_state (trans_at s' t) \<noteq> SIXP_TRANS_STATE_UNAVAILABLE \<and> tr_mode (trans_at s' t) \<noteq> SIXP_TRANS_MODE_UNAVAILABLE) \<and>
      (\<forall>t. t \<notin> set (trans_list s') \<longrightarrow> tr_timer (trans_at s' t) = None))"
proof -
  obtain s1 where s1: "sixp_init s = Some s1" "sixp_ok s1" "trans_list s1 = []" using sixp_init_ok [OF assms(2,3)] by blast
  have "sixp_ok s'" if "sixp_run tmo sent inp pol es (s1\<lparr>scheduling_functions := sfs\<rparr>) s'" for sfs pol es s'
    by (rule sf_handlers.run_ok [OF assms(1) that sixp_ok_sfs [OF s1(2)]])
  then show ?thesis
    using s1(1,3) by (intro exI [of _ s1] conjI allI impI) (simp_all add: sixp_ok_facts del: inj_on_def, simp add: sixp_ok_facts(2) [symmetric] sixp_ok_facts(3))
qed

lemma one_request:
  "\<exists>s. sfs_run None [count_req addr_a] (sfs_start addr_me) s \<and> trans_list s = [0]"
  by (rule after_run) code_simp

theorem sixp_run_invariant_witness:
  "\<exists>s1. sixp_init (blank_node pb_zero addr_me sfs_blank) = Some s1 \<and>
     (\<exists>s'. sfs_run None [count_req addr_a] (s1\<lparr>scheduling_functions := [Some (sf_simple_driver 128)]\<rparr>) s' \<and>
       trans_list s' = [0] \<and> set (trans_list s') = memb_used (trans_memb s'))"
proof -
  let ?b = "blank_node pb_zero addr_me sfs_blank" and ?sf = "[Some (sf_simple_driver 128)]"
  have blank: "nt_inv (sixp_nbr_tab ?b)" "num_tables (sixp_nbr_tab ?b) < MAX_NUM_TABLES \<or> registered (sixp_nbr_tab ?b) sixp_nbrs"
    using blank_tables_ok by (simp_all add: blank_node_def)
  obtain s1 where s1: "sixp_init ?b = Some s1"
    "\<And>sfs es s'. sfs_run None es (s1\<lparr>scheduling_functions := sfs\<rparr>) s' \<Longrightarrow> set (trans_list s') = memb_used (trans_memb s')"
    using sixp_run_invariant [OF sfs.sf_handlers_axioms [of None] blank] by blast
  obtain s' where s': "sfs_run None [count_req addr_a] (s1\<lparr>scheduling_functions := ?sf\<rparr>) s'" "trans_list s' = [0]"
    using one_request started_eq [OF s1(1)] by auto
  show ?thesis using s1(1) s' s1(2) [OF s'(1)] by (intro exI conjI)
qed

text \<open>C13. With the scheduling function sf-simple, every transaction ends: its timer can always expire, and when it has expired nine times,
  whatever happens in between, the transaction has been freed.\<close>

theorem sfs_transaction_ends:
  assumes "sixp_ok s" "t \<in> set (trans_list s)"
  shows "(\<exists>s'. sixp_step sf_simple_timeout sf_simple_sent (sf_simple_input pol) pol (Ev_timer t) s s') \<and>
    (\<forall>es s'. sfs_run pol es s s' \<longrightarrow> 9 \<le> count_list es (Ev_timer t) \<longrightarrow>
      (\<exists>es1 es2 s1. es = es1 @ es2 \<and> sfs_run pol es1 s s1 \<and> sfs_run pol es2 s1 s' \<and> t \<notin> set (trans_list s1)))"
  using sfs.timer_enabled [OF assms, of pol]
  by (intro conjI allI impI) (simp, rule sfs.run_ends [OF _ assms], assumption, rule order_trans [OF sfs.rank_bound])

theorem sfs_transaction_ends_witness:
  "\<exists>s. sfs_run None [count_req addr_a] (sfs_start addr_me) s \<and> trans_list s = [0] \<and>
     (\<exists>s'. sixp_step sf_simple_timeout sf_simple_sent (sf_simple_input None) None (Ev_timer 0) s s')"
proof -
  obtain s where s: "sfs_run None [count_req addr_a] (sfs_start addr_me) s" "trans_list s = [0]" using one_request by blast
  have "sixp_ok s" by (rule sfs.run_ok [OF s(1) started_ok])
  then show ?thesis using s sfs_transaction_ends [of s 0 None] by auto
qed

text \<open>The report on a packet reaches the transaction that uses the block of the pool at that time: when a request to a first neighbor
  is still queued as its transaction times out, and a request to a second neighbor reuses the block, the report on the first request moves the
  transaction with the second neighbor to the state REQUEST\_SENT while its own request is still queued.\<close>

theorem stale_report_moves_other_transaction:
  "\<exists>s. sixp_run tmo sent inp pol stale_events (started mute_sf addr_me x) s \<and> receivers s = [(addr_a, Some 0), (addr_b, Some 0)] \<and>
     peers s = [(addr_b, SIXP_TRANS_STATE_INIT)] \<and>
     (\<exists>s'. sixp_run tmo sent inp pol [Ev_mac_report 0 0] s s' \<and> receivers s' = [(addr_b, Some 0)] \<and>
        peers s' = [(addr_b, SIXP_TRANS_STATE_REQUEST_SENT)])"
proof -
  let ?Q = "\<lambda>s. receivers s = [(addr_b, Some 0)] \<and> peers s = [(addr_b, SIXP_TRANS_STATE_REQUEST_SENT)]"
  have "after (sixp_execs tmo sent inp pol stale_events (started mute_sf addr_me x)) (\<lambda>s. receivers s = [(addr_a, Some 0), (addr_b, Some 0)] \<and>
      peers s = [(addr_b, SIXP_TRANS_STATE_INIT)] \<and> after (sixp_execs tmo sent inp pol [Ev_mac_report 0 0] s) ?Q)"
    by code_simp
  from after_run [OF this] show ?thesis using after_run [of _ _ _ _ "[Ev_mac_report 0 0]" _ ?Q] by blast
qed

end
