(* ===== verification/MacSeq.thy ===== *)
theory MacSeq
  imports Packetbuf
begin

text \<open>
  Detection of duplicate frames, \<^verbatim>\<open>os/net/mac/mac-sequence.c\<close>: an array of the last sequence numbers received, most recent
  first, with one entry for each sender. The time is an argument; \<open>clock_time_t\<close> has 32 bits and 128 ticks are a second.
\<close>

section \<open>Operations\<close>

record seqno =
  sq_sender :: linkaddr
  sq_timestamp :: u32
  sq_seqno :: u8

definition MAX_SEQNOS :: nat where "MAX_SEQNOS = 16"
definition SEQNO_MAX_AGE :: u32 where "SEQNO_MAX_AGE = 20 * 128"

text \<open>The loop of \<open>mac_sequence_is_duplicate\<close> over the entries from index \<open>i\<close>.\<close>

fun is_duplicate_loop :: "u32 \<Rightarrow> packetbuf \<Rightarrow> seqno list \<Rightarrow> int" where
  "is_duplicate_loop now p [] = 0"
| "is_duplicate_loop now p (e # es) =
     (if linkaddr_cmp (packetbuf_addr PACKETBUF_ADDR_SENDER p) (sq_sender e) then
        if packetbuf_attr PACKETBUF_ATTR_MAC_SEQNO p = ucast (sq_seqno e) \<and> now - sq_timestamp e \<le> SEQNO_MAX_AGE then 1 else 0
      else is_duplicate_loop now p es)"

definition mac_sequence_is_duplicate :: "u32 \<Rightarrow> packetbuf \<Rightarrow> seqno list \<Rightarrow> int" where
  "mac_sequence_is_duplicate now p received_seqnos = is_duplicate_loop now p received_seqnos"

fun locate_loop :: "linkaddr \<Rightarrow> seqno list \<Rightarrow> nat \<Rightarrow> nat" where
  "locate_loop a [] i = i"
| "locate_loop a (e # es) i = (if linkaddr_cmp a (sq_sender e) then i + 1 else locate_loop a es (i + 1))"

fun shift_loop :: "nat \<Rightarrow> seqno list \<Rightarrow> seqno list" where
  "shift_loop 0 h = h"
| "shift_loop (Suc j) h = shift_loop j (h[Suc j := h ! j])"

definition mac_sequence_register_seqno :: "u32 \<Rightarrow> packetbuf \<Rightarrow> seqno list \<Rightarrow> seqno list" where
  "mac_sequence_register_seqno now p received_seqnos =
     (let i = locate_loop (packetbuf_addr PACKETBUF_ADDR_SENDER p) received_seqnos 0;
          h = shift_loop (i - 1) received_seqnos
      in h[0 := \<lparr>sq_sender = linkaddr_copy (sq_sender (h ! 0)) (packetbuf_addr PACKETBUF_ADDR_SENDER p), sq_timestamp = now,
                 sq_seqno = ucast (packetbuf_attr PACKETBUF_ATTR_MAC_SEQNO p)\<rparr>])"

section \<open>The array as a list of the latest number of each sender\<close>

definition seqno_zero :: seqno where
  "seqno_zero = \<lparr>sq_sender = linkaddr_null, sq_timestamp = 0, sq_seqno = 0\<rparr>"

definition entry :: "u32 \<times> packetbuf \<Rightarrow> seqno" where
  "entry r = \<lparr>sq_sender = packetbuf_addr PACKETBUF_ADDR_SENDER (snd r), sq_timestamp = fst r,
     sq_seqno = ucast (packetbuf_attr PACKETBUF_ATTR_MAC_SEQNO (snd r))\<rparr>"

text \<open>All registrations, in their order, from an array of zeros.\<close>

definition registered_seqnos :: "(u32 \<times> packetbuf) list \<Rightarrow> seqno list" where
  "registered_seqnos rs = foldl (\<lambda>h (t, p). mac_sequence_register_seqno t p h) (replicate MAX_SEQNOS seqno_zero) rs"

lemma shift_loop_front: "j < length h \<Longrightarrow> (shift_loop j h)[0 := x] = x # take j h @ drop (Suc j) h"
proof (induction j h rule: shift_loop.induct)
  case (1 h)
  then show ?case by (cases h) simp_all
next
  case (2 j h)
  have "drop (Suc j) (h[Suc j := h ! j]) = h ! j # drop (Suc (Suc j)) h"
    using 2(2) by (simp add: drop_update_swap Cons_nth_drop_Suc [symmetric])
  then show ?case using 2 by (simp add: take_Suc_conv_app_nth)
qed

lemma locate_loop_Suc: "locate_loop a h (i + k) = locate_loop a h i + k"
  by (induction h arbitrary: i) (auto simp: add.commute [of _ k] add.assoc simp flip: add_Suc_right)

fun remove_sender :: "linkaddr \<Rightarrow> seqno list \<Rightarrow> seqno list" where
  "remove_sender a (e # e' # es) = (if linkaddr_cmp a (sq_sender e) then e' # es else e # remove_sender a (e' # es))"
| "remove_sender a h = []"

lemma locate_remove:
  "h \<noteq> [] \<Longrightarrow> 0 < locate_loop a h 0 \<and> locate_loop a h 0 \<le> length h \<and>
     take (locate_loop a h 0 - 1) h @ drop (locate_loop a h 0) h = remove_sender a h"
proof (induction a h rule: remove_sender.induct)
  case (1 a e e' es)
  then show ?case using locate_loop_Suc [of a "e' # es" 0 1] by (cases "locate_loop a (e' # es) 0") auto
qed auto

lemma register_front:
  assumes "h \<noteq> []" "is_linkaddr (packetbuf_addr PACKETBUF_ADDR_SENDER p)"
  shows "mac_sequence_register_seqno now p h = entry (now, p) # remove_sender (packetbuf_addr PACKETBUF_ADDR_SENDER p) h"
proof -
  define i where "i = locate_loop (packetbuf_addr PACKETBUF_ADDR_SENDER p) h 0"
  have i: "0 < i" "i \<le> length h" "take (i - 1) h @ drop i h = remove_sender (packetbuf_addr PACKETBUF_ADDR_SENDER p) h"
    using locate_remove [OF assms(1)] unfolding i_def by blast+
  then have "i - 1 < length h" "Suc (i - 1) = i" by auto
  then show ?thesis
    using assms(2) i(3) shift_loop_front [of "i - 1" h]
    by (simp add: mac_sequence_register_seqno_def entry_def Let_def flip: i_def)
qed

text \<open>The latest registration of each sender, most recent first.\<close>

fun latest :: "(u32 \<times> packetbuf) list \<Rightarrow> seqno list" where
  "latest [] = []"
| "latest (r # rs) = entry r # filter (\<lambda>e. sq_sender e \<noteq> sq_sender (entry r)) (latest rs)"

lemma sq_sender_entry [simp]: "sq_sender (entry r) = packetbuf_addr PACKETBUF_ADDR_SENDER (snd r)"
  by (simp add: entry_def)

abbreviation sender :: "u32 \<times> packetbuf \<Rightarrow> linkaddr" where
  "sender r \<equiv> packetbuf_addr PACKETBUF_ADDR_SENDER (snd r)"

lemma latest_senders: "distinct (map sq_sender (latest rs))" "sq_sender ` set (latest rs) = sender ` set rs"
proof (induction rs)
  case (Cons r rs)
  {
    case 1
    then show ?case using Cons by (auto simp: distinct_map_filter)
  next
    case 2
    have "sq_sender ` set (filter (\<lambda>e. sq_sender e \<noteq> sender r) (latest rs)) = sq_sender ` set (latest rs) - {sender r}" by auto
    then show ?case using Cons(2) by auto
  }
qed simp_all

lemma latest_sender: "e \<in> set (latest rs) \<Longrightarrow> sq_sender e \<in> sender ` set rs"
  using imageI [of e "set (latest rs)" sq_sender] by (simp only: latest_senders)

lemma remove_sender_replicate: "remove_sender a (replicate k z) = replicate (k - 1) z"
proof (induction k)
  case (Suc k)
  then show ?case by (cases k) simp_all
qed simp

lemma remove_sender_Cons:
  "es \<noteq> [] \<Longrightarrow> remove_sender a (e # es) = (if linkaddr_cmp a (sq_sender e) then es else e # remove_sender a es)"
  by (cases es) simp_all

lemma remove_sender_latest:
  "distinct (map sq_sender l) \<Longrightarrow> \<forall>e \<in> set l. is_linkaddr (sq_sender e) \<Longrightarrow> is_linkaddr a \<Longrightarrow> 0 < n \<Longrightarrow> n \<le> m \<Longrightarrow>
   remove_sender a (take n (l @ replicate m z)) = take (n - 1) (filter (\<lambda>e. sq_sender e \<noteq> a) l @ replicate m z)"
proof (induction l arbitrary: n)
  case Nil
  then show ?case by (simp add: min_def remove_sender_replicate)
next
  case (Cons e l)
  obtain n' where n: "n = Suc n'" using Cons.prems(4) by (cases n) auto
  show ?case
  proof (cases "n' = 0")
    case False
    have "take n' (l @ replicate m z) \<noteq> []" using False Cons.prems(5) n by auto
    moreover have "filter (\<lambda>e'. sq_sender e' \<noteq> sq_sender e) l = l" using Cons.prems(1) by (simp add: filter_id_conv) (metis imageI)
    ultimately show ?thesis
      using Cons.IH [of n'] Cons.prems False by (auto simp: n remove_sender_Cons take_Cons' simp del: remove_sender.simps)
  qed (simp add: n)
qed

lemma take_max: "take MAX_SEQNOS (x # xs) = x # take (MAX_SEQNOS - 1) xs"
  by (simp add: MAX_SEQNOS_def)

lemma registered_seqnos_eq:
  assumes "\<forall>r \<in> set rs. is_linkaddr (sender r)"
  shows "registered_seqnos rs = take MAX_SEQNOS (latest (rev rs) @ replicate MAX_SEQNOS seqno_zero)"
  using assms
proof (induction rs rule: rev_induct)
  case Nil
  then show ?case by (simp add: registered_seqnos_def)
next
  case (snoc r rs)
  let ?l = "latest (rev rs)"
  have max: "0 < MAX_SEQNOS" by (simp add: MAX_SEQNOS_def)
  have l: "\<forall>e \<in> set ?l. is_linkaddr (sq_sender e)"
  proof
    fix e
    assume "e \<in> set ?l"
    then obtain r' where "r' \<in> set rs" "sq_sender e = sender r'" using latest_sender [of e "rev rs"] by auto
    then show "is_linkaddr (sq_sender e)" using snoc.prems by simp
  qed
  have IH: "registered_seqnos rs = take MAX_SEQNOS (?l @ replicate MAX_SEQNOS seqno_zero)" using snoc by simp
  have ne: "take MAX_SEQNOS (?l @ replicate MAX_SEQNOS seqno_zero) \<noteq> []" using max by simp
  have r: "is_linkaddr (sender r)" using snoc.prems by simp
  have "registered_seqnos (rs @ [r]) = mac_sequence_register_seqno (fst r) (snd r) (registered_seqnos rs)"
    by (simp add: registered_seqnos_def split_def)
  also have "\<dots> = entry r # remove_sender (sender r) (take MAX_SEQNOS (?l @ replicate MAX_SEQNOS seqno_zero))"
    unfolding IH register_front [OF ne r] by simp
  also have "\<dots> = entry r # take (MAX_SEQNOS - 1) (filter (\<lambda>e. sq_sender e \<noteq> sender r) ?l @ replicate MAX_SEQNOS seqno_zero)"
    unfolding remove_sender_latest [OF latest_senders(1) l r max order_refl] by (rule refl)
  also have "\<dots> = take MAX_SEQNOS (latest (rev (rs @ [r])) @ replicate MAX_SEQNOS seqno_zero)"
    by (simp add: take_max)
  finally show ?case .
qed

section \<open>Property\<close>

text \<open>A registration is found exactly if fewer than 16 different senders have registered since.\<close>

lemma latest_split:
  assumes "sender r \<notin> sender ` set rs1"
  shows "\<exists>L1 L2. latest (rs1 @ r # rs2) = L1 @ entry r # L2 \<and> sq_sender ` set L1 = sender ` set rs1"
  using assms
proof (induction rs1)
  case Nil
  show ?case by (intro exI [of _ "[]"] exI) simp
next
  case (Cons x rs1)
  then obtain L1 L2 where L: "latest (rs1 @ r # rs2) = L1 @ entry r # L2" "sq_sender ` set L1 = sender ` set rs1" by auto
  have "sq_sender ` set (filter (\<lambda>e. sq_sender e \<noteq> sender x) L1) = sq_sender ` set L1 - {sender x}" by auto
  then show ?case
    using L Cons.prems by (intro exI [of _ "entry x # filter (\<lambda>e. sq_sender e \<noteq> sender x) L1"] exI [of _ "filter (\<lambda>e. sq_sender e \<noteq> sender x) L2"]) auto
qed

lemma find_append: "find P (xs @ ys) = (case find P xs of None \<Rightarrow> find P ys | Some x \<Rightarrow> Some x)"
  by (induction xs) simp_all

lemma find_append_None: "(\<And>x. x \<in> set xs \<Longrightarrow> \<not> P x) \<Longrightarrow> find P (xs @ ys) = find P ys"
  by (induction xs) simp_all

lemma find_latest:
  assumes "sender r = a" "a \<notin> sender ` set rs1"
  shows "find (\<lambda>e. sq_sender e = a) (take n (latest (rs1 @ r # rs2))) = (if card (sender ` set rs1) < n then Some (entry r) else None)"
proof -
  obtain L1 L2 where L: "latest (rs1 @ r # rs2) = L1 @ entry r # L2" "sq_sender ` set L1 = sender ` set rs1"
    using latest_split [of r rs1 rs2] assms by auto
  have "distinct (map sq_sender L1)" using latest_senders(1) [of "rs1 @ r # rs2"] L(1) by simp
  then have c: "card (sender ` set rs1) = length L1" using distinct_card L(2) by (metis length_map set_map)
  have n: "sq_sender e \<noteq> a" if "e \<in> set (take n L1)" for e
    using that assms(2) L(2) by (metis imageI in_set_takeD)
  then show ?thesis
    using c assms(1) by (cases "n - length L1") (simp_all add: L(1) find_append_None find_None_iff)
qed

lemma is_duplicate_find:
  "(\<And>e. e \<in> set h \<Longrightarrow> is_linkaddr (sq_sender e)) \<Longrightarrow> is_linkaddr (packetbuf_addr PACKETBUF_ADDR_SENDER p) \<Longrightarrow>
   is_duplicate_loop now p h = 1 \<longleftrightarrow>
     (\<exists>e. find (\<lambda>e. sq_sender e = packetbuf_addr PACKETBUF_ADDR_SENDER p) h = Some e \<and>
       packetbuf_attr PACKETBUF_ATTR_MAC_SEQNO p = ucast (sq_seqno e) \<and> now - sq_timestamp e \<le> SEQNO_MAX_AGE)"
  by (induction h) auto

lemma find_replicate: "\<not> P z \<Longrightarrow> find P (replicate k z) = None"
  by (induction k) simp_all

lemma find_padded:
  "\<not> P z \<Longrightarrow> find P (take n (l @ replicate m z)) = find P (take n l)"
  by (auto simp: find_append find_replicate split: option.split)

lemma split_last_unique:
  assumes "P x" "\<And>z. z \<in> set ys \<Longrightarrow> \<not> P z" "P x'" "\<And>z. z \<in> set ys' \<Longrightarrow> \<not> P z" "xs @ x # ys = xs' @ x' # ys'"
  shows "xs = xs' \<and> x = x' \<and> ys = ys'"
proof -
  have "takeWhile (\<lambda>z. \<not> P z) (rev (xs @ x # ys)) = rev ys \<and> dropWhile (\<lambda>z. \<not> P z) (rev (xs @ x # ys)) = x # rev xs"
    using assms(1,2) by (simp add: takeWhile_append dropWhile_append)
  moreover have "takeWhile (\<lambda>z. \<not> P z) (rev (xs' @ x' # ys')) = rev ys' \<and> dropWhile (\<lambda>z. \<not> P z) (rev (xs' @ x' # ys')) = x' # rev xs'"
    using assms(3,4) by (simp add: takeWhile_append dropWhile_append)
  ultimately show ?thesis using assms(5) by auto
qed

text \<open>C33. After any sequence of registrations from an empty history, a frame is reported as a duplicate exactly if the last
  registration of its sender was a frame with the same sequence number at most 20 seconds (on the wrapping clock) before, and frames of fewer than 16
  other senders have been registered since.\<close>

theorem duplicate_exact:
  assumes "\<forall>r \<in> set rs. is_linkaddr (packetbuf_addr PACKETBUF_ADDR_SENDER (snd r))"
    and "is_linkaddr (packetbuf_addr PACKETBUF_ADDR_SENDER p)" "packetbuf_addr PACKETBUF_ADDR_SENDER p \<noteq> linkaddr_null"
  shows "mac_sequence_is_duplicate now p (registered_seqnos rs) = 1 \<longleftrightarrow>
    (\<exists>rs1 t q rs2. rs = rs1 @ (t, q) # rs2 \<and> packetbuf_addr PACKETBUF_ADDR_SENDER q = packetbuf_addr PACKETBUF_ADDR_SENDER p \<and>
      uint (packetbuf_attr PACKETBUF_ATTR_MAC_SEQNO p) = uint (packetbuf_attr PACKETBUF_ATTR_MAC_SEQNO q) mod 256 \<and>
      now - t \<le> 2560 \<and> packetbuf_addr PACKETBUF_ADDR_SENDER p \<notin> (\<lambda>r. packetbuf_addr PACKETBUF_ADDR_SENDER (snd r)) ` set rs2 \<and>
      card ((\<lambda>r. packetbuf_addr PACKETBUF_ADDR_SENDER (snd r)) ` set rs2) < 16)"
proof -
  let ?a = "packetbuf_addr PACKETBUF_ADDR_SENDER p"
  let ?ok = "\<lambda>e. packetbuf_attr PACKETBUF_ATTR_MAC_SEQNO p = ucast (sq_seqno e) \<and> now - sq_timestamp e \<le> SEQNO_MAX_AGE"
  have ok: "?ok (entry (t, q)) \<longleftrightarrow>
      uint (packetbuf_attr PACKETBUF_ATTR_MAC_SEQNO p) = uint (packetbuf_attr PACKETBUF_ATTR_MAC_SEQNO q) mod 256 \<and> now - t \<le> 2560" for t q
    by (simp add: entry_def SEQNO_MAX_AGE_def word_uint_eq_iff unsigned_ucast_eq take_bit_eq_mod unsigned_take_bit_eq take_bit_int_def uint_mod)
  have h: "registered_seqnos rs = take 16 (latest (rev rs) @ replicate 16 seqno_zero)"
    using registered_seqnos_eq [OF assms(1)] by (simp add: MAX_SEQNOS_def)
  have l: "is_linkaddr (sq_sender e)" if "e \<in> set (registered_seqnos rs)" for e
  proof -
    have "e \<in> set (latest (rev rs)) \<or> e = seqno_zero" using that set_take_subset unfolding h by (fastforce dest: in_set_takeD)
    then show ?thesis using latest_sender [of e "rev rs"] assms(1) by (fastforce simp: seqno_zero_def)
  qed
  have "\<not> sq_sender seqno_zero = ?a" using assms(3) by (simp add: seqno_zero_def)
  note pad = find_padded [of "\<lambda>e. sq_sender e = ?a", OF this, of 16 "latest (rev rs)" 16]
  have d: "mac_sequence_is_duplicate now p (registered_seqnos rs) = 1 \<longleftrightarrow>
      (\<exists>e. find (\<lambda>e. sq_sender e = ?a) (take 16 (latest (rev rs))) = Some e \<and> ?ok e)"
    using is_duplicate_find [of "registered_seqnos rs" p now, OF l assms(2)] pad by (simp only: mac_sequence_is_duplicate_def h)
  show ?thesis
  proof (cases "?a \<in> sender ` set rs")
    case True
    then obtain rs1 t q rs2 where rs: "rs = rs1 @ (t, q) # rs2" "sender (t, q) = ?a" "?a \<notin> sender ` set rs2"
    proof -
      assume goal: "\<And>rs1 t q rs2. rs = rs1 @ (t, q) # rs2 \<Longrightarrow> sender (t, q) = ?a \<Longrightarrow> ?a \<notin> sender ` set rs2 \<Longrightarrow> thesis"
      have "\<exists>r \<in> set rs. sender r = ?a" using True by (metis imageE)
      then obtain rs1 r rs2 where "rs = rs1 @ r # rs2" "sender r = ?a" "\<forall>z \<in> set rs2. sender z \<noteq> ?a"
        using split_list_last_prop [of rs "\<lambda>r. sender r = ?a"] by blast
      then show thesis using goal [of rs1 "fst r" "snd r" rs2] by (metis imageE prod.collapse)
    qed
    have u: "rs1' = rs1 \<and> t' = t \<and> q' = q \<and> rs2' = rs2"
      if "rs = rs1' @ (t', q') # rs2'" "sender (t', q') = ?a" "?a \<notin> sender ` set rs2'" for rs1' t' q' rs2'
    proof -
      have n: "\<not> sender z = ?a" if "?a \<notin> sender ` set zs" "z \<in> set zs" for z zs using that by (metis imageI)
      have "rs1 = rs1' \<and> (t, q) = (t', q') \<and> rs2 = rs2'"
        by (rule split_last_unique [of "\<lambda>r. sender r = ?a", OF rs(2) n [OF rs(3)] that(2) n [OF that(3)]]) (use that(1) rs(1) in auto)
      then show ?thesis by simp
    qed
    have "find (\<lambda>e. sq_sender e = ?a) (take 16 (latest (rev rs))) = (if card (sender ` set rs2) < 16 then Some (entry (t, q)) else None)"
      using find_latest [OF rs(2), of "rev rs2" 16 "rev rs1"] rs(3) by (simp add: rs(1))
    then have "mac_sequence_is_duplicate now p (registered_seqnos rs) = 1 \<longleftrightarrow> card (sender ` set rs2) < 16 \<and> ?ok (entry (t, q))"
      unfolding d by auto
    then show ?thesis unfolding ok using rs u by (metis snd_conv)
  next
    case False
    then have "find (\<lambda>e. sq_sender e = ?a) (take 16 (latest (rev rs))) = None"
      using latest_sender [of _ "rev rs"] unfolding find_None_iff set_rev by (metis in_set_takeD)
    moreover have "\<not> (\<exists>rs1 t q rs2. rs = rs1 @ (t, q) # rs2 \<and> packetbuf_addr PACKETBUF_ADDR_SENDER q = ?a)"
      using False by force
    ultimately show ?thesis unfolding d by auto
  qed
qed

definition from_node :: "u8 \<Rightarrow> u16 \<Rightarrow> packetbuf" where
  "from_node a q = packetbuf_set_attr PACKETBUF_ATTR_MAC_SEQNO q (packetbuf_set_addr PACKETBUF_ADDR_SENDER (replicate 8 a)
     \<lparr>pb_data = replicate 128 0, buflen = 0, bufptr = 0, hdrlen = 0, packetbuf_attrs = \<lambda>_. 0, packetbuf_addrs = \<lambda>_. linkaddr_null\<rparr>)"

theorem duplicate_exact_witness:
  "mac_sequence_is_duplicate 300 (from_node 7 5) (registered_seqnos [(100, from_node 7 5), (200, from_node 8 6)]) = 1"
proof -
  have a: "packetbuf_addr PACKETBUF_ADDR_SENDER (from_node x q) = replicate 8 x"
    "packetbuf_attr PACKETBUF_ATTR_MAC_SEQNO (from_node x q) = q" for x q
    by (simp_all add: from_node_def packetbuf_addr_def packetbuf_attr_def packetbuf_set_attr_def packetbuf_set_addr_def
        linkaddr_copy_def LINKADDR_SIZE_def)
  have "replicate 8 (7 :: u8) \<noteq> linkaddr_null" "replicate 8 (7 :: u8) \<noteq> replicate 8 8"
    by code_simp+
  note ne = this
  have "\<forall>r \<in> set [(100, from_node 7 5), (200, from_node 8 6)]. is_linkaddr (sender r)"
    by (simp add: a is_linkaddr_def LINKADDR_SIZE_def)
  note ex = duplicate_exact [OF this, of "from_node 7 5" 300]
  have "is_linkaddr (packetbuf_addr PACKETBUF_ADDR_SENDER (from_node 7 5))" "packetbuf_addr PACKETBUF_ADDR_SENDER (from_node 7 5) \<noteq> linkaddr_null"
    using ne by (simp_all add: a is_linkaddr_def LINKADDR_SIZE_def)
  from ex [OF this, THEN iffD2, OF exI [of _ "[]"], OF exI [of _ 100], OF exI [of _ "from_node 7 5"], OF exI [of _ "[(200, from_node 8 6)]"]]
  show ?thesis using ne by (simp add: a)
qed

end
