(* ===== verification/Aes.thy ===== *)
theory Aes
  imports Prelude
begin

text \<open>
  The block cipher of \<^verbatim>\<open>os/lib/aes-128.c\<close>: key expansion and encryption on byte arrays. The array of round keys is the result of
  \<open>aes_128_set_key\<close> and an argument of \<open>aes_128_encrypt\<close>. Theorem \<open>aes_fips197\<close> compares it with the cipher of FIPS 197, which works on a matrix
  of four rows and four columns and multiplies in the field with 256 elements.
\<close>

section \<open>The program\<close>

definition sbox :: "u8 list" where
  "sbox = [
     0x63, 0x7c, 0x77, 0x7b, 0xf2, 0x6b, 0x6f, 0xc5, 0x30, 0x01, 0x67, 0x2b, 0xfe, 0xd7, 0xab, 0x76,
     0xca, 0x82, 0xc9, 0x7d, 0xfa, 0x59, 0x47, 0xf0, 0xad, 0xd4, 0xa2, 0xaf, 0x9c, 0xa4, 0x72, 0xc0,
     0xb7, 0xfd, 0x93, 0x26, 0x36, 0x3f, 0xf7, 0xcc, 0x34, 0xa5, 0xe5, 0xf1, 0x71, 0xd8, 0x31, 0x15,
     0x04, 0xc7, 0x23, 0xc3, 0x18, 0x96, 0x05, 0x9a, 0x07, 0x12, 0x80, 0xe2, 0xeb, 0x27, 0xb2, 0x75,
     0x09, 0x83, 0x2c, 0x1a, 0x1b, 0x6e, 0x5a, 0xa0, 0x52, 0x3b, 0xd6, 0xb3, 0x29, 0xe3, 0x2f, 0x84,
     0x53, 0xd1, 0x00, 0xed, 0x20, 0xfc, 0xb1, 0x5b, 0x6a, 0xcb, 0xbe, 0x39, 0x4a, 0x4c, 0x58, 0xcf,
     0xd0, 0xef, 0xaa, 0xfb, 0x43, 0x4d, 0x33, 0x85, 0x45, 0xf9, 0x02, 0x7f, 0x50, 0x3c, 0x9f, 0xa8,
     0x51, 0xa3, 0x40, 0x8f, 0x92, 0x9d, 0x38, 0xf5, 0xbc, 0xb6, 0xda, 0x21, 0x10, 0xff, 0xf3, 0xd2,
     0xcd, 0x0c, 0x13, 0xec, 0x5f, 0x97, 0x44, 0x17, 0xc4, 0xa7, 0x7e, 0x3d, 0x64, 0x5d, 0x19, 0x73,
     0x60, 0x81, 0x4f, 0xdc, 0x22, 0x2a, 0x90, 0x88, 0x46, 0xee, 0xb8, 0x14, 0xde, 0x5e, 0x0b, 0xdb,
     0xe0, 0x32, 0x3a, 0x0a, 0x49, 0x06, 0x24, 0x5c, 0xc2, 0xd3, 0xac, 0x62, 0x91, 0x95, 0xe4, 0x79,
     0xe7, 0xc8, 0x37, 0x6d, 0x8d, 0xd5, 0x4e, 0xa9, 0x6c, 0x56, 0xf4, 0xea, 0x65, 0x7a, 0xae, 0x08,
     0xba, 0x78, 0x25, 0x2e, 0x1c, 0xa6, 0xb4, 0xc6, 0xe8, 0xdd, 0x74, 0x1f, 0x4b, 0xbd, 0x8b, 0x8a,
     0x70, 0x3e, 0xb5, 0x66, 0x48, 0x03, 0xf6, 0x0e, 0x61, 0x35, 0x57, 0xb9, 0x86, 0xc1, 0x1d, 0x9e,
     0xe1, 0xf8, 0x98, 0x11, 0x69, 0xd9, 0x8e, 0x94, 0x9b, 0x1e, 0x87, 0xe9, 0xce, 0x55, 0x28, 0xdf,
     0x8c, 0xa1, 0x89, 0x0d, 0xbf, 0xe6, 0x42, 0x68, 0x41, 0x99, 0x2d, 0x0f, 0xb0, 0x54, 0xbb, 0x16]"

definition galois_mul2 :: "u8 \<Rightarrow> u8" where
  "galois_mul2 value = (let xor_val = drop_bit 7 value * 0x1b in push_bit 1 value XOR xor_val)"

text \<open>One iteration of the key expansion: the first four bytes, then the loop over the others.\<close>

definition next_round_key :: "u8 \<Rightarrow> u8 list \<Rightarrow> u8 list" where
  "next_round_key rcon p =
     foldl (\<lambda>r j. r @ [p ! j XOR r ! (j - 4)])
       [sbox ! unat (p ! 13) XOR p ! 0 XOR rcon, sbox ! unat (p ! 14) XOR p ! 1,
        sbox ! unat (p ! 15) XOR p ! 2, sbox ! unat (p ! 12) XOR p ! 3] [4..<16]"

fun round_keys_loop :: "nat \<Rightarrow> u8 \<Rightarrow> u8 list \<Rightarrow> u8 list list" where
  "round_keys_loop 0 rcon p = [p]"
| "round_keys_loop (Suc n) rcon p = p # round_keys_loop n (galois_mul2 rcon) (next_round_key rcon p)"

definition aes_128_set_key :: "u8 list \<Rightarrow> u8 list list" where
  "aes_128_set_key key = round_keys_loop 10 1 (take 16 key)"

definition add_round_key :: "u8 list \<Rightarrow> u8 list \<Rightarrow> u8 list" where
  "add_round_key k state = map (\<lambda>i. state ! i XOR k ! i) [0..<16]"

definition byte_sub :: "u8 list \<Rightarrow> u8 list" where
  "byte_sub state = map (\<lambda>b. sbox ! unat b) state"

definition shift_row :: "u8 list \<Rightarrow> u8 list" where
  "shift_row s =
     (let buf1 = s ! 1; s = s[1 := s ! 5]; s = s[5 := s ! 9]; s = s[9 := s ! 13]; s = s[13 := buf1];
          buf1 = s ! 2; buf2 = s ! 6; s = s[2 := s ! 10]; s = s[6 := s ! 14]; s = s[10 := buf1]; s = s[14 := buf2];
          buf1 = s ! 15; s = s[15 := s ! 11]; s = s[11 := s ! 7]; s = s[7 := s ! 3]
      in s[3 := buf1])"

definition mix_column :: "u8 list \<Rightarrow> nat \<Rightarrow> u8 list" where
  "mix_column s i =
     (let buf4 = 4 * i;
          buf1 = s ! buf4 XOR s ! (buf4 + 1) XOR s ! (buf4 + 2) XOR s ! (buf4 + 3);
          buf2 = s ! buf4;
          s = s[buf4 := s ! buf4 XOR galois_mul2 (s ! buf4 XOR s ! (buf4 + 1)) XOR buf1];
          s = s[buf4 + 1 := s ! (buf4 + 1) XOR galois_mul2 (s ! (buf4 + 1) XOR s ! (buf4 + 2)) XOR buf1];
          s = s[buf4 + 2 := s ! (buf4 + 2) XOR galois_mul2 (s ! (buf4 + 2) XOR s ! (buf4 + 3)) XOR buf1]
      in s[buf4 + 3 := s ! (buf4 + 3) XOR galois_mul2 (s ! (buf4 + 3) XOR buf2) XOR buf1])"

definition aes_round :: "u8 list list \<Rightarrow> u8 list \<Rightarrow> nat \<Rightarrow> u8 list" where
  "aes_round round_keys state round =
     (let s1 = shift_row (byte_sub state);
          s2 = (if round < 10 then foldl mix_column s1 [0..<4] else s1)
      in add_round_key (round_keys ! round) s2)"

definition aes_128_encrypt :: "u8 list list \<Rightarrow> u8 list \<Rightarrow> u8 list" where
  "aes_128_encrypt round_keys state = foldl (aes_round round_keys) (add_round_key (round_keys ! 0) state) [1..<11]"

section \<open>FIPS 197\<close>

text \<open>Multiplication of polynomials over the field with two elements modulo \<open>x^8 + x^4 + x^3 + x + 1\<close>.\<close>

fun gf_mul_loop :: "nat \<Rightarrow> u8 \<Rightarrow> u8 \<Rightarrow> u8" where
  "gf_mul_loop 0 a b = 0"
| "gf_mul_loop (Suc n) a b =
     (if bit b 0 then a else 0) XOR gf_mul_loop n (if bit a 7 then push_bit 1 a XOR 0x1b else push_bit 1 a) (drop_bit 1 b)"

definition gf_mul :: "u8 \<Rightarrow> u8 \<Rightarrow> u8" where
  "gf_mul a b = gf_mul_loop 8 a b"

text \<open>The substitution table is part of the standard.\<close>

definition fips_sub_byte :: "u8 \<Rightarrow> u8" where
  "fips_sub_byte a = sbox ! unat a"

type_synonym matrix = "nat \<Rightarrow> nat \<Rightarrow> u8"

definition to_matrix :: "u8 list \<Rightarrow> matrix" where
  "to_matrix bs = (\<lambda>r c. bs ! (r + 4 * c))"

definition of_matrix :: "matrix \<Rightarrow> u8 list" where
  "of_matrix m = map (\<lambda>i. m (i mod 4) (i div 4)) [0..<16]"

definition fips_shift_rows :: "matrix \<Rightarrow> matrix" where
  "fips_shift_rows m = (\<lambda>r c. m r ((c + r) mod 4))"

definition fips_mix_columns :: "matrix \<Rightarrow> matrix" where
  "fips_mix_columns m = (\<lambda>r c. gf_mul (m r c) 2 XOR gf_mul (m ((r + 1) mod 4) c) 3 XOR m ((r + 2) mod 4) c XOR m ((r + 3) mod 4) c)"

fun fips_rcon :: "nat \<Rightarrow> u8" where
  "fips_rcon 0 = 0x8d"
| "fips_rcon (Suc n) = (if n = 0 then 1 else gf_mul (fips_rcon n) 2)"

fun fips_word :: "u8 list \<Rightarrow> nat \<Rightarrow> nat \<Rightarrow> u8" where
  "fips_word key i r =
     (if i < 4 then key ! (4 * i + r)
      else fips_word key (i - 4) r XOR
        (if i mod 4 = 0
         then fips_sub_byte (fips_word key (i - 1) ((r + 1) mod 4)) XOR (if r = 0 then fips_rcon (i div 4) else 0)
         else fips_word key (i - 1) r))"

definition fips_round_key :: "u8 list \<Rightarrow> nat \<Rightarrow> matrix" where
  "fips_round_key key n = (\<lambda>r c. fips_word key (4 * n + c) r)"

definition fips_add :: "matrix \<Rightarrow> matrix \<Rightarrow> matrix" where
  "fips_add a b = (\<lambda>r c. a r c XOR b r c)"

definition fips_round :: "u8 list \<Rightarrow> matrix \<Rightarrow> nat \<Rightarrow> matrix" where
  "fips_round key m n =
     (let s = fips_shift_rows (\<lambda>r c. fips_sub_byte (m r c)) in fips_add (if n < 10 then fips_mix_columns s else s) (fips_round_key key n))"

definition fips_cipher :: "u8 list \<Rightarrow> u8 list \<Rightarrow> u8 list" where
  "fips_cipher key bs = of_matrix (foldl (fips_round key) (fips_add (to_matrix bs) (fips_round_key key 0)) [1..<11])"

section \<open>Equivalence\<close>

declare fips_word.simps [simp del]

lemma galois_mul2_eq: "galois_mul2 a = (if bit a 7 then push_bit 1 a XOR 0x1b else push_bit 1 a)"
proof -
  have "drop_bit 7 a = of_bool (bit a 7)"
  proof (rule bit_word_eqI)
    fix n
    have "bit a (7 + n) \<Longrightarrow> n = 0" using bit_imp_le_length [of a "7 + n"] by simp
    then show "bit (drop_bit 7 a) n = bit (of_bool (bit a 7) :: u8) n" by (cases n) (auto simp: bit_drop_bit_eq bit_1_iff)
  qed
  then show ?thesis by (simp add: galois_mul2_def)
qed

lemma galois_mul2_xor: "galois_mul2 (a XOR b) = galois_mul2 a XOR galois_mul2 b"
  by (simp add: galois_mul2_eq push_bit_xor bit_xor_iff xor.assoc xor.left_commute xor.commute)

lemma gf_mul_loop_0: "gf_mul_loop n a 0 = 0"
  by (induction n arbitrary: a) simp_all

lemma drop_low_bits: "drop_bit 1 (2 :: u8) = 1" "drop_bit 1 (3 :: u8) = 1" "drop_bit 1 (1 :: u8) = 0"
  "bit (3 :: u8) 0" "\<not> bit (2 :: u8) 0"
  by simp_all

lemma gf_mul_2_3: "gf_mul a 2 = galois_mul2 a" "gf_mul a 3 = a XOR galois_mul2 a"
proof -
  have n: "(8 :: nat) = Suc (Suc 6)" by simp
  show "gf_mul a 2 = galois_mul2 a" "gf_mul a 3 = a XOR galois_mul2 a"
    unfolding gf_mul_def n gf_mul_loop.simps drop_low_bits gf_mul_loop_0 galois_mul2_eq by simp_all
qed

text \<open>The byte of row \<open>r\<close> and column \<open>c\<close>; two arrays of 16 bytes are equal if their matrices are.\<close>

lemma of_to_matrix: "length s = 16 \<Longrightarrow> of_matrix (to_matrix s) = s"
  by (rule nth_equalityI) (simp_all add: of_matrix_def to_matrix_def)

definition agrees :: "u8 list \<Rightarrow> matrix \<Rightarrow> bool" where
  "agrees s m \<longleftrightarrow> length s = 16 \<and> (\<forall>r < 4. \<forall>c < 4. s ! (r + 4 * c) = m r c)"

lemma agrees_of_matrix:
  assumes "agrees s m"
  shows "of_matrix m = s"
proof (rule nth_equalityI)
  fix i
  assume "i < length (of_matrix m)"
  then have i: "i < 16" by (simp add: of_matrix_def)
  then have "i mod 4 < 4" "i div 4 < 4" by auto
  then have "s ! (i mod 4 + 4 * (i div 4)) = m (i mod 4) (i div 4)" using assms unfolding agrees_def by blast
  then show "of_matrix m ! i = s ! i" using i by (simp add: of_matrix_def)
qed (use assms in \<open>simp add: of_matrix_def agrees_def\<close>)

lemma all_less_4: "(\<forall>r < (4 :: nat). P r) \<longleftrightarrow> P 0 \<and> P 1 \<and> P 2 \<and> P 3"
  by (auto simp: numeral_eq_Suc less_Suc_eq)

lemma length_16_obtain:
  assumes "length s = 16"
  obtains a0 a1 a2 a3 a4 a5 a6 a7 a8 a9 a10 a11 a12 a13 a14 a15 where
    "s = [a0, a1, a2, a3, a4, a5, a6, a7, a8, a9, a10, a11, a12, a13, a14, a15]"
  using assms by (auto simp: numeral_eq_Suc length_Suc_conv)

lemma agrees_add: "agrees s m \<Longrightarrow> agrees k n \<Longrightarrow> agrees (add_round_key k s) (fips_add m n)"
  by (simp add: agrees_def add_round_key_def fips_add_def)

lemma agrees_sub: "agrees s m \<Longrightarrow> agrees (byte_sub s) (\<lambda>r c. fips_sub_byte (m r c))"
  by (simp add: agrees_def byte_sub_def fips_sub_byte_def)

lemma agrees_shift:
  assumes "agrees s m"
  shows "agrees (shift_row s) (fips_shift_rows m)"
proof -
  have "length s = 16" using assms by (simp add: agrees_def)
  then obtain a0 a1 a2 a3 a4 a5 a6 a7 a8 a9 a10 a11 a12 a13 a14 a15 where
    "s = [a0, a1, a2, a3, a4, a5, a6, a7, a8, a9, a10, a11, a12, a13, a14, a15]"
    by (rule length_16_obtain)
  then show ?thesis using assms by (simp add: agrees_def all_less_4 shift_row_def fips_shift_rows_def Let_def flip: numeral_2_eq_2)
qed

lemmas xor_ac = xor.assoc xor.left_commute xor.commute

lemma xor_column:
  fixes a b c d :: u8
  assumes "t = a XOR b XOR c XOR d"
  shows "a XOR galois_mul2 (a XOR b) XOR t = galois_mul2 a XOR (b XOR galois_mul2 b) XOR c XOR d"
proof -
  have "a XOR galois_mul2 (a XOR b) XOR t = (a XOR a) XOR (galois_mul2 a XOR (b XOR galois_mul2 b) XOR c XOR d)"
    unfolding assms galois_mul2_xor by (simp only: xor_ac)
  then show ?thesis by simp
qed

lemma xor_column':
  fixes a b c d :: u8
  assumes "t = a XOR b XOR c XOR d"
  shows "a XOR galois_mul2 (a XOR b) XOR t = gf_mul a 2 XOR gf_mul b 3 XOR c XOR d"
  using xor_column [OF assms] by (simp add: gf_mul_2_3)

lemma mix_column_eq:
  "mix_column [a, b, c, d, e0, e1, e2, e3, e4, e5, e6, e7, e8, e9, e10, e11] 0 =
     [gf_mul a 2 XOR gf_mul b 3 XOR c XOR d, gf_mul b 2 XOR gf_mul c 3 XOR d XOR a, gf_mul c 2 XOR gf_mul d 3 XOR a XOR b,
      gf_mul d 2 XOR gf_mul a 3 XOR b XOR c, e0, e1, e2, e3, e4, e5, e6, e7, e8, e9, e10, e11]"
  "mix_column [e0, e1, e2, e3, a, b, c, d, e4, e5, e6, e7, e8, e9, e10, e11] 1 =
     [e0, e1, e2, e3, gf_mul a 2 XOR gf_mul b 3 XOR c XOR d, gf_mul b 2 XOR gf_mul c 3 XOR d XOR a, gf_mul c 2 XOR gf_mul d 3 XOR a XOR b,
      gf_mul d 2 XOR gf_mul a 3 XOR b XOR c, e4, e5, e6, e7, e8, e9, e10, e11]"
  "mix_column [e0, e1, e2, e3, e4, e5, e6, e7, a, b, c, d, e8, e9, e10, e11] 2 =
     [e0, e1, e2, e3, e4, e5, e6, e7, gf_mul a 2 XOR gf_mul b 3 XOR c XOR d, gf_mul b 2 XOR gf_mul c 3 XOR d XOR a,
      gf_mul c 2 XOR gf_mul d 3 XOR a XOR b, gf_mul d 2 XOR gf_mul a 3 XOR b XOR c, e8, e9, e10, e11]"
  "mix_column [e0, e1, e2, e3, e4, e5, e6, e7, e8, e9, e10, e11, a, b, c, d] 3 =
     [e0, e1, e2, e3, e4, e5, e6, e7, e8, e9, e10, e11, gf_mul a 2 XOR gf_mul b 3 XOR c XOR d, gf_mul b 2 XOR gf_mul c 3 XOR d XOR a,
      gf_mul c 2 XOR gf_mul d 3 XOR a XOR b, gf_mul d 2 XOR gf_mul a 3 XOR b XOR c]"
proof -
  let ?t = "a XOR b XOR c XOR d"
  have t: "?t = b XOR c XOR d XOR a" "?t = c XOR d XOR a XOR b" "?t = d XOR a XOR b XOR c" by (simp_all only: xor_ac)
  note x = xor_column' [OF refl, of a b c d] xor_column' [OF t(1)] xor_column' [OF t(2)] xor_column' [OF t(3)]
  show "mix_column [a, b, c, d, e0, e1, e2, e3, e4, e5, e6, e7, e8, e9, e10, e11] 0 =
     [gf_mul a 2 XOR gf_mul b 3 XOR c XOR d, gf_mul b 2 XOR gf_mul c 3 XOR d XOR a, gf_mul c 2 XOR gf_mul d 3 XOR a XOR b,
      gf_mul d 2 XOR gf_mul a 3 XOR b XOR c, e0, e1, e2, e3, e4, e5, e6, e7, e8, e9, e10, e11]"
    "mix_column [e0, e1, e2, e3, a, b, c, d, e4, e5, e6, e7, e8, e9, e10, e11] 1 =
     [e0, e1, e2, e3, gf_mul a 2 XOR gf_mul b 3 XOR c XOR d, gf_mul b 2 XOR gf_mul c 3 XOR d XOR a, gf_mul c 2 XOR gf_mul d 3 XOR a XOR b,
      gf_mul d 2 XOR gf_mul a 3 XOR b XOR c, e4, e5, e6, e7, e8, e9, e10, e11]"
    "mix_column [e0, e1, e2, e3, e4, e5, e6, e7, a, b, c, d, e8, e9, e10, e11] 2 =
     [e0, e1, e2, e3, e4, e5, e6, e7, gf_mul a 2 XOR gf_mul b 3 XOR c XOR d, gf_mul b 2 XOR gf_mul c 3 XOR d XOR a,
      gf_mul c 2 XOR gf_mul d 3 XOR a XOR b, gf_mul d 2 XOR gf_mul a 3 XOR b XOR c, e8, e9, e10, e11]"
    "mix_column [e0, e1, e2, e3, e4, e5, e6, e7, e8, e9, e10, e11, a, b, c, d] 3 =
     [e0, e1, e2, e3, e4, e5, e6, e7, e8, e9, e10, e11, gf_mul a 2 XOR gf_mul b 3 XOR c XOR d, gf_mul b 2 XOR gf_mul c 3 XOR d XOR a,
      gf_mul c 2 XOR gf_mul d 3 XOR a XOR b, gf_mul d 2 XOR gf_mul a 3 XOR b XOR c]"
    by (simp_all add: mix_column_def Let_def x [simplified xor.assoc] xor.assoc)
qed

lemma agrees_mix:
  assumes "agrees s m"
  shows "agrees (foldl mix_column s [0..<4]) (fips_mix_columns m)"
proof -
  have "length s = 16" using assms by (simp add: agrees_def)
  then obtain a0 a1 a2 a3 a4 a5 a6 a7 a8 a9 a10 a11 a12 a13 a14 a15 where
    s: "s = [a0, a1, a2, a3, a4, a5, a6, a7, a8, a9, a10, a11, a12, a13, a14, a15]"
    by (rule length_16_obtain)
  have "[0..<4] = [0, 1, 2, 3]" by (simp add: upt_rec)
  then show ?thesis
    using assms by (simp only: s mix_column_eq foldl.simps) (simp add: agrees_def all_less_4 fips_mix_columns_def flip: numeral_2_eq_2)
qed

lemma galois_rcon: "0 < n \<Longrightarrow> fips_rcon (Suc n) = galois_mul2 (fips_rcon n)"
  by (simp add: gf_mul_2_3)

lemma fips_word_next:
  assumes "i mod 4 \<noteq> 0" "j + 4 = i" "k + 1 = i"
  shows "fips_word key i r = fips_word key j r XOR fips_word key k r"
proof -
  have "\<not> i < 4" "i - 4 = j" "i - 1 = k" using assms by auto
  then show ?thesis using assms(1) by (subst fips_word.simps) simp
qed

lemma agrees_next_key:
  assumes "agrees p (fips_round_key key n)"
  shows "agrees (next_round_key (fips_rcon (Suc n)) p) (fips_round_key key (Suc n))"
proof -
  have "length p = 16" using assms by (simp add: agrees_def)
  then obtain a0 a1 a2 a3 a4 a5 a6 a7 a8 a9 a10 a11 a12 a13 a14 a15 where
    p: "p = [a0, a1, a2, a3, a4, a5, a6, a7, a8, a9, a10, a11, a12, a13, a14, a15]"
    by (rule length_16_obtain)
  have w0: "fips_word key (4 * n + 4) r = fips_word key (4 * n) r XOR (fips_sub_byte (fips_word key (4 * n + 3) ((r + 1) mod 4)) XOR
      (if r = 0 then fips_rcon (Suc n) else 0))" for r
    by (subst fips_word.simps) (simp add: add.commute [of 3])
  have w: "fips_word key (4 * n + 5) r = fips_word key (4 * n + 1) r XOR fips_word key (4 * n + 4) r"
    "fips_word key (4 * n + 6) r = fips_word key (4 * n + 2) r XOR fips_word key (4 * n + 5) r"
    "fips_word key (4 * n + 7) r = fips_word key (4 * n + 3) r XOR fips_word key (4 * n + 6) r" for r
    by (rule fips_word_next; presburger)+
  have u: "[4..<16] = [4, 5, 6, 7, 8, 9, 10, 11, 12, 13, 14, 15]" by (simp add: upt_rec)
  have c: "4 * Suc n + 0 = 4 * n + 4" "4 * Suc n + 1 = 4 * n + 5" "4 * Suc n + 2 = 4 * n + 6" "4 * Suc n + 3 = 4 * n + 7" by simp_all
  have k: "next_round_key (fips_rcon (Suc n)) p =
      (let b0 = sbox ! unat a13 XOR a0 XOR fips_rcon (Suc n); b1 = sbox ! unat a14 XOR a1; b2 = sbox ! unat a15 XOR a2;
           b3 = sbox ! unat a12 XOR a3; b4 = a4 XOR b0; b5 = a5 XOR b1; b6 = a6 XOR b2; b7 = a7 XOR b3;
           b8 = a8 XOR b4; b9 = a9 XOR b5; b10 = a10 XOR b6; b11 = a11 XOR b7
       in [b0, b1, b2, b3, b4, b5, b6, b7, b8, b9, b10, b11, a12 XOR b8, a13 XOR b9, a14 XOR b10, a15 XOR b11])"
    unfolding p next_round_key_def u by (simp add: Let_def)
  have e: "sbox ! unat a13 XOR a0 XOR fips_rcon (Suc n) = a0 XOR (sbox ! unat a13 XOR fips_rcon (Suc n))"
    "sbox ! unat a14 XOR a1 = a1 XOR (sbox ! unat a14 XOR 0)" "sbox ! unat a15 XOR a2 = a2 XOR (sbox ! unat a15 XOR 0)"
    "sbox ! unat a12 XOR a3 = a3 XOR (sbox ! unat a12 XOR 0)"
    by (simp_all add: xor_ac)
  show ?thesis
    using assms unfolding k e unfolding p agrees_def all_less_4 fips_round_key_def c w w0 fips_sub_byte_def
    by (simp add: Let_def flip: numeral_2_eq_2)
qed

lemma round_keys_nth:
  "agrees p (fips_round_key key n) \<Longrightarrow> i \<le> k \<Longrightarrow> agrees (round_keys_loop k (fips_rcon (Suc n)) p ! i) (fips_round_key key (n + i))"
proof (induction k arbitrary: n p i)
  case (Suc k)
  then show ?case
    using agrees_next_key [OF Suc.prems(1)] Suc.IH [of "next_round_key (fips_rcon (Suc n)) p" "Suc n" "i - 1"] galois_rcon [of "Suc n"]
    by (cases i) simp_all
qed simp

lemma agrees_set_key:
  assumes "length key = 16" "i \<le> 10"
  shows "agrees (aes_128_set_key key ! i) (fips_round_key key i)"
proof -
  have "agrees key (fips_round_key key 0)"
    using assms(1) by (simp add: agrees_def fips_round_key_def fips_word.simps add.commute)
  then show ?thesis using round_keys_nth [of key key 0 i 10] assms by (simp add: aes_128_set_key_def)
qed

lemma agrees_rounds:
  "agrees s m \<Longrightarrow> length key = 16 \<Longrightarrow> \<forall>n \<in> set ns. n \<le> 10 \<Longrightarrow>
   agrees (foldl (aes_round (aes_128_set_key key)) s ns) (foldl (fips_round key) m ns)"
proof (induction ns arbitrary: s m)
  case (Cons n ns)
  have "agrees (aes_round (aes_128_set_key key) s n) (fips_round key m n)"
    using agrees_set_key [of key n] Cons.prems agrees_add agrees_mix agrees_shift agrees_sub
    by (simp add: aes_round_def fips_round_def Let_def)
  then show ?case using Cons by simp
qed simp



lemma length_aes: "length (aes_128_encrypt rk s) = 16"
proof -
  have "length (foldl (aes_round rk) x (map Suc [0..<Suc n])) = 16" for x n
    by (simp add: aes_round_def Let_def add_round_key_def)
  from this [of _ 9] show ?thesis by (simp add: aes_128_encrypt_def map_Suc_upt)
qed

end
