(* ===== verification/Ccm.thy ===== *)
theory Ccm
  imports Aes
begin

text \<open>
  Authenticated encryption, \<^verbatim>\<open>os/lib/ccm-star.c\<close>: a message authentication code in cipher block chaining mode and encryption in counter mode.
  \<open>enc\<close> is the driver's block cipher with the key that has been set. The buffers \<open>m\<close> and \<open>a\<close> are the \<open>m_len\<close> and \<open>a_len\<close> bytes the code
  accesses; the loops count their position in a \<open>uint8_t\<close>, and a loop that never ends is None.
\<close>

section \<open>The program\<close>

definition CCM_STAR_NONCE_LENGTH :: nat where "CCM_STAR_NONCE_LENGTH = 13"

definition CCM_STAR_AUTH_FLAGS :: "u8 \<Rightarrow> u8 \<Rightarrow> u8" where
  "CCM_STAR_AUTH_FLAGS adata m =
     ucast ((if adata \<noteq> 0 then 64 else 0 :: u32) OR push_bit 3 (drop_bit 1 (ucast m - 2)) OR 1)"

definition set_iv :: "u8 \<Rightarrow> u8 list \<Rightarrow> u8 \<Rightarrow> u8 list" where
  "set_iv flags nonce counter = [flags] @ take CCM_STAR_NONCE_LENGTH nonce @ [0, counter]"

definition ctr_step :: "(u8 list \<Rightarrow> u8 list) \<Rightarrow> u8 list \<Rightarrow> nat \<Rightarrow> u8 list \<Rightarrow> u8 \<Rightarrow> u8 list" where
  "ctr_step enc nonce pos m counter =
     (let a = enc (set_iv 1 nonce counter)
      in take pos m @ map2 (XOR) (take 16 (drop pos m)) a @ drop (pos + 16) m)"

text \<open>The loop that xors at most 16 bytes into a block, as far as there are bytes.\<close>

definition xor_block :: "u8 list \<Rightarrow> u8 list \<Rightarrow> u8 list" where
  "xor_block x bs = map (\<lambda>i. if i < length bs then x ! i XOR bs ! i else x ! i) [0..<length x]"

partial_function (option) mic_loop :: "(u8 list \<Rightarrow> u8 list) \<Rightarrow> u8 \<Rightarrow> u8 \<Rightarrow> u8 list \<Rightarrow> u8 list \<Rightarrow> u8 list option" where
  "mic_loop enc pos len src x =
     (if pos < len then mic_loop enc (pos + 16) len src (enc (xor_block x (drop (unat pos) src))) else Some x)"

definition mic :: "(u8 list \<Rightarrow> u8 list) \<Rightarrow> u8 list \<Rightarrow> u8 list \<Rightarrow> u8 \<Rightarrow> u8 list \<Rightarrow> u8 \<Rightarrow> u8 \<Rightarrow> u8 list option" where
  "mic enc nonce m m_len a a_len mic_len =
     (let x0 = enc (set_iv (CCM_STAR_AUTH_FLAGS a_len mic_len) nonce m_len);
          after_a = (if a_len \<noteq> 0
                     then mic_loop enc 14 a_len a (enc (take 1 x0 @ [x0 ! 1 XOR a_len] @ xor_block (drop 2 x0) a))
                     else Some x0);
          after_m = (case after_a of None \<Rightarrow> None | Some x \<Rightarrow> if m_len \<noteq> 0 then mic_loop enc 0 m_len m x else Some x)
      in map_option (\<lambda>x. take (unat mic_len) (ctr_step enc nonce 0 x 0)) after_m)"

partial_function (option) ctr_loop ::
    "(u8 list \<Rightarrow> u8 list) \<Rightarrow> u8 list \<Rightarrow> u8 \<Rightarrow> u8 \<Rightarrow> u8 \<Rightarrow> u8 list \<Rightarrow> u8 list option" where
  "ctr_loop enc nonce pos counter m_len m =
     (if pos < m_len then ctr_loop enc nonce (pos + 16) (counter + 1) m_len (ctr_step enc nonce (unat pos) m counter) else Some m)"

definition ctr :: "(u8 list \<Rightarrow> u8 list) \<Rightarrow> u8 list \<Rightarrow> u8 list \<Rightarrow> u8 \<Rightarrow> u8 list option" where
  "ctr enc nonce m m_len = ctr_loop enc nonce 0 1 m_len m"

text \<open>The result: the buffer \<open>m\<close> after the call and the authentication code.\<close>

definition aead :: "(u8 list \<Rightarrow> u8 list) \<Rightarrow> u8 list \<Rightarrow> u8 list \<Rightarrow> u8 \<Rightarrow> u8 list \<Rightarrow> u8 \<Rightarrow> u8 \<Rightarrow> bool \<Rightarrow> (u8 list \<times> u8 list) option" where
  "aead enc nonce m m_len a a_len mic_len forward =
     (case (if \<not> forward then ctr enc nonce m m_len else Some m) of
        None \<Rightarrow> None
      | Some m1 \<Rightarrow>
          (case mic enc nonce m1 m_len a a_len mic_len of
             None \<Rightarrow> None
           | Some t \<Rightarrow> (case (if forward then ctr enc nonce m1 m_len else Some m1) of
                 None \<Rightarrow> None
               | Some m2 \<Rightarrow> Some (m2, t))))"

declare mic_loop.simps [code] ctr_loop.simps [code]

section \<open>RFC 3610\<close>

text \<open>With 2 bytes for the length of the message, as in IEEE 802.15.4.\<close>

fun chunks :: "u8 list \<Rightarrow> u8 list list" where
  "chunks [] = []"
| "chunks (x # xs) = take 16 (x # xs) # chunks (drop 16 (x # xs))"

definition pad16 :: "u8 list \<Rightarrow> u8 list" where
  "pad16 b = b @ replicate (16 - length b) 0"

definition rfc_b0 :: "u8 list \<Rightarrow> nat \<Rightarrow> nat \<Rightarrow> nat \<Rightarrow> u8 list" where
  "rfc_b0 nonce lm la mlen =
     [of_nat ((if la > 0 then 64 else 0) + 8 * ((mlen - 2) div 2) + 1)] @ nonce @ [of_nat (lm div 256), of_nat lm]"

definition rfc_auth_blocks :: "u8 list \<Rightarrow> u8 list \<Rightarrow> u8 list \<Rightarrow> nat \<Rightarrow> u8 list list" where
  "rfc_auth_blocks nonce m a mlen =
     [rfc_b0 nonce (length m) (length a) mlen] @
     (if a = [] then [] else map pad16 (chunks ([of_nat (length a div 256), of_nat (length a)] @ a))) @
     map pad16 (chunks m)"

definition rfc_cbc :: "(u8 list \<Rightarrow> u8 list) \<Rightarrow> u8 list list \<Rightarrow> u8 list" where
  "rfc_cbc enc bs = foldl (\<lambda>x b. enc (map2 (XOR) x b)) (replicate 16 0) bs"

definition rfc_key_stream :: "(u8 list \<Rightarrow> u8 list) \<Rightarrow> u8 list \<Rightarrow> nat \<Rightarrow> u8 list" where
  "rfc_key_stream enc nonce i = enc ([1] @ nonce @ [of_nat (i div 256), of_nat i])"

definition rfc_mic :: "(u8 list \<Rightarrow> u8 list) \<Rightarrow> u8 list \<Rightarrow> u8 list \<Rightarrow> u8 list \<Rightarrow> nat \<Rightarrow> u8 list" where
  "rfc_mic enc nonce m a mlen =
     take mlen (map2 (XOR) (rfc_cbc enc (rfc_auth_blocks nonce m a mlen)) (rfc_key_stream enc nonce 0))"

definition rfc_crypt :: "(u8 list \<Rightarrow> u8 list) \<Rightarrow> u8 list \<Rightarrow> u8 list \<Rightarrow> u8 list" where
  "rfc_crypt enc nonce m = map2 (XOR) m (concat (map (rfc_key_stream enc nonce) [1..<length m + 1]))"

section \<open>Loops\<close>

lemma xor_block_pad:
  assumes "length x = 16"
  shows "xor_block x bs = map2 (XOR) x (pad16 (take 16 bs))"
  using assms by (intro nth_equalityI) (simp_all add: xor_block_def pad16_def nth_append)

lemma chunks_ne: "xs \<noteq> [] \<Longrightarrow> chunks xs = take 16 xs # chunks (drop 16 xs)"
  by (cases xs) simp_all

lemma chunks_drop: "n < length src \<Longrightarrow> chunks (drop n src) = take 16 (drop n src) # chunks (drop (n + 16) src)"
  using chunks_ne [of "drop n src"] by (simp add: add.commute [of n])

lemma pos_step:
  assumes "pos < len" "unat (len :: u8) \<le> 240 + unat pos mod 16"
  shows "unat (pos + 16) = unat pos + 16"
proof -
  have "unat pos < unat len" using assms(1) by (simp add: word_less_nat_alt)
  then have "unat pos + 16 < 256" using assms(2) by presburger
  then show ?thesis by (simp add: unat_word_ariths)
qed

lemma of_nat_u8_0: "n < 256 \<Longrightarrow> (of_nat n :: u8) = 0 \<longleftrightarrow> n = 0"
  by (simp add: word_unat_eq_iff unat_of_nat)

lemma auth_flags:
  assumes "mlen \<in> {2, 4, 8, 16 :: nat}"
  shows "CCM_STAR_AUTH_FLAGS adata (of_nat mlen) = of_nat ((if adata \<noteq> 0 then 64 else 0) + 8 * ((mlen - 2) div 2) + 1)"
proof -
  consider "mlen = 2" | "mlen = 4" | "mlen = 8" | "mlen = 16" using assms by auto
  then show ?thesis by cases (simp_all add: CCM_STAR_AUTH_FLAGS_def)
qed

locale block_cipher =
  fixes enc :: "u8 list \<Rightarrow> u8 list"
  assumes enc_length: "length (enc x) = 16"
begin

lemma foldl_length: "length x = 16 \<Longrightarrow> length (foldl (\<lambda>x b. enc (map2 (XOR) x b)) x bs) = 16"
  by (induction bs arbitrary: x) (simp_all add: enc_length)

lemma mic_loop_cbc:
  "length x = 16 \<Longrightarrow> length src = unat len \<Longrightarrow> unat len \<le> 240 + unat pos mod 16 \<Longrightarrow>
   mic_loop enc pos len src x = Some (foldl (\<lambda>x b. enc (map2 (XOR) x b)) x (map pad16 (chunks (drop (unat pos) src))))"
proof (induction "unat len - unat pos" arbitrary: pos x rule: less_induct)
  case less
  show ?case
  proof (cases "pos < len")
    case True
    have l: "unat pos < unat len" using True by (simp add: word_less_nat_alt)
    have p: "unat (pos + 16) = unat pos + 16" by (rule pos_step [OF True less.prems(3)])
    have "mic_loop enc pos len src x = mic_loop enc (pos + 16) len src (enc (xor_block x (drop (unat pos) src)))"
      using True by (subst mic_loop.simps) simp
    also have "\<dots> = Some (foldl (\<lambda>x b. enc (map2 (XOR) x b)) (enc (xor_block x (drop (unat pos) src)))
        (map pad16 (chunks (drop (unat (pos + 16)) src))))"
      using less.prems l p by (intro less.hyps) (simp_all add: enc_length)
    finally show ?thesis
      using l less.prems by (simp add: p chunks_drop xor_block_pad)
  next
    case False
    then have "unat len \<le> unat pos" by (simp add: word_less_nat_alt)
    then show ?thesis using False less.prems by (subst mic_loop.simps) simp
  qed
qed

lemma ctr_step_eq:
  "length (ctr_step enc nonce pos m c) = length m"
  "take (pos + 16) (ctr_step enc nonce pos m c) = take pos m @ map2 (XOR) (take 16 (drop pos m)) (enc (set_iv 1 nonce c))"
  "drop (pos + 16) (ctr_step enc nonce pos m c) = drop (pos + 16) m"
proof -
  show "length (ctr_step enc nonce pos m c) = length m"
    "take (pos + 16) (ctr_step enc nonce pos m c) = take pos m @ map2 (XOR) (take 16 (drop pos m)) (enc (set_iv 1 nonce c))"
    by (auto simp: ctr_step_def Let_def enc_length)
  show "drop (pos + 16) (ctr_step enc nonce pos m c) = drop (pos + 16) m"
    by (cases "pos + 16 \<le> length m") (simp_all add: ctr_step_def Let_def enc_length)
qed

lemma key_stream_iv: "length nonce = 13 \<Longrightarrow> i < 256 \<Longrightarrow> enc (set_iv 1 nonce (of_nat i)) = rfc_key_stream enc nonce i"
  by (simp add: rfc_key_stream_def set_iv_def CCM_STAR_NONCE_LENGTH_def)

lemma ctr_loop_eq:
  assumes "length nonce = 13"
  shows "length m = unat m_len \<Longrightarrow> unat m_len \<le> 240 \<Longrightarrow> k \<le> 15 \<Longrightarrow>
   ctr_loop enc nonce (of_nat (16 * k)) (of_nat (k + 1)) m_len m =
     Some (take (16 * k) m @ map2 (XOR) (drop (16 * k) m) (concat (map (rfc_key_stream enc nonce) [k + 1..<length m + 1])))"
proof (induction "length m - 16 * k" arbitrary: m k rule: less_induct)
  case less
  have u: "unat (of_nat (16 * k) :: u8) = 16 * k" using less.prems(3) by (simp add: unat_of_nat del: of_nat_mult)
  show ?case
  proof (cases "16 * k < length m")
    case True
    let ?m = "ctr_step enc nonce (16 * k) m (of_nat (k + 1))"
    have c: "(of_nat (16 * k) :: u8) < m_len" using True u less.prems(1) by (simp add: word_less_nat_alt)
    have k: "k + 1 \<le> 15" using True less.prems by simp
    have w: "of_nat (16 * k) + 16 = (of_nat (16 * (k + 1)) :: u8)" "of_nat (k + 1) + 1 = (of_nat (k + 1 + 1) :: u8)" by simp_all
    have "ctr_loop enc nonce (of_nat (16 * k)) (of_nat (k + 1)) m_len m = ctr_loop enc nonce (of_nat (16 * (k + 1))) (of_nat (k + 1 + 1)) m_len ?m"
      using c u by (subst ctr_loop.simps) (simp only: w if_True)
    also have "\<dots> = Some (take (16 * (k + 1)) ?m @ map2 (XOR) (drop (16 * (k + 1)) ?m)
        (concat (map (rfc_key_stream enc nonce) [k + 1 + 1..<length ?m + 1])))"
      using less.prems True k by (intro less.hyps) (simp_all add: ctr_step_eq)
    also have "16 * (k + 1) = 16 * k + 16" by simp
    finally have r: "ctr_loop enc nonce (of_nat (16 * k)) (of_nat (k + 1)) m_len m = Some (take (16 * k) m @
        map2 (XOR) (take 16 (drop (16 * k) m)) (enc (set_iv 1 nonce (of_nat (k + 1)))) @
        map2 (XOR) (drop (16 * k + 16) m) (concat (map (rfc_key_stream enc nonce) [k + 1 + 1..<length m + 1])))"
      unfolding ctr_step_eq by simp
    have up: "[k + 1..<length m + 1] = (k + 1) # [k + 1 + 1..<length m + 1]" using True by (subst upt_conv_Cons) simp_all
    have len: "length (rfc_key_stream enc nonce (k + 1)) = 16" by (simp add: rfc_key_stream_def enc_length)
    show ?thesis
      unfolding r up using key_stream_iv [OF assms, of "k + 1"] k len
      by (simp add: zip_append2 add.commute [of 16] del: of_nat_Suc of_nat_add)
  next
    case False
    then have "\<not> (of_nat (16 * k) :: u8) < m_len" using u less.prems(1) by (simp add: word_less_nat_alt)
    then show ?thesis using False by (subst ctr_loop.simps) simp
  qed
qed

lemma ctr_eq:
  assumes "length nonce = 13" "length m = unat m_len" "unat m_len \<le> 240"
  shows "ctr enc nonce m m_len = Some (rfc_crypt enc nonce m)"
  using ctr_loop_eq [OF assms(1-3), of 0] by (simp add: ctr_def rfc_crypt_def)

lemma rfc_crypt_twice: "rfc_crypt enc nonce (rfc_crypt enc nonce m) = m"
proof -
  have "length (concat (map (rfc_key_stream enc nonce) [1..<n + 1])) = 16 * n" for n
    by (simp add: length_concat comp_def rfc_key_stream_def enc_length sum_list_triv)
  moreover have "map2 (XOR) (map2 (XOR) m k) k = m" if "length m \<le> length k" for k
    using that by (intro nth_equalityI) (simp_all add: xor.assoc)
  ultimately show ?thesis by (simp add: rfc_crypt_def)
qed

lemma first_block:
  assumes "length x = 16" "length (a :: u8 list) < 256"
  shows "take 1 x @ [x ! 1 XOR of_nat (length a)] @ xor_block (drop 2 x) a =
    map2 (XOR) x (pad16 (take 16 ([of_nat (length a div 256), of_nat (length a)] @ a)))"
proof (rule nth_equalityI)
  fix i
  assume "i < length (take 1 x @ [x ! 1 XOR of_nat (length a)] @ xor_block (drop 2 x) a)"
  then have "i < 16" using assms(1) by (simp add: xor_block_def)
  then show "(take 1 x @ [x ! 1 XOR of_nat (length a)] @ xor_block (drop 2 x) a) ! i =
      map2 (XOR) x (pad16 (take 16 ([of_nat (length a div 256), of_nat (length a)] @ a))) ! i"
    using assms by (auto simp: xor_block_def pad16_def nth_append nth_Cons split: nat.split)
qed (use assms in \<open>simp add: xor_block_def pad16_def\<close>)

lemma mic_eq:
  assumes nonce: "length nonce = 13" and m: "length m \<le> 240" and a: "length a \<le> 254" and M: "mlen \<in> {2, 4, 8, 16}"
  shows "mic enc nonce m (of_nat (length m)) a (of_nat (length a)) (of_nat mlen) = Some (rfc_mic enc nonce m a mlen)"
proof -
  let ?step = "\<lambda>x b. enc (map2 (XOR) x b)" and ?b0 = "rfc_b0 nonce (length m) (length a) mlen"
  let ?A = "if a = [] then [] else map pad16 (chunks ([of_nat (length a div 256), of_nat (length a)] @ a))"
  have u: "unat (of_nat (length m) :: u8) = length m" "unat (of_nat (length a) :: u8) = length a" "unat (of_nat mlen :: u8) = mlen"
    using m a M by (auto simp: unat_of_nat)
  have z: "(of_nat (length a) :: u8) = 0 \<longleftrightarrow> a = []" "(of_nat (length m) :: u8) = 0 \<longleftrightarrow> m = []"
    using m a by (simp_all add: of_nat_u8_0)
  define x0 where "x0 = enc (set_iv (CCM_STAR_AUTH_FLAGS (of_nat (length a)) (of_nat mlen)) nonce (of_nat (length m)))"
  have l0: "length x0 = 16" by (simp add: x0_def enc_length)
  have iv: "set_iv (CCM_STAR_AUTH_FLAGS (of_nat (length a)) (of_nat mlen)) nonce (of_nat (length m)) = ?b0"
    using nonce m by (simp add: set_iv_def rfc_b0_def CCM_STAR_NONCE_LENGTH_def auth_flags [OF M] z)
  have "map2 (XOR) (replicate 16 0) ?b0 = ?b0"
    using nonce by (intro nth_equalityI) (simp_all add: rfc_b0_def)
  then have x0: "x0 = foldl ?step (replicate 16 0) [?b0]" by (simp add: x0_def iv)
  define x1 where "x1 = foldl ?step x0 ?A"
  have after_a: "(if (of_nat (length a) :: u8) \<noteq> 0
      then mic_loop enc 14 (of_nat (length a)) a (enc (take 1 x0 @ [x0 ! 1 XOR of_nat (length a)] @ xor_block (drop 2 x0) a))
      else Some x0) = Some x1"
  proof (cases "a = []")
    case False
    have "chunks ([of_nat (length a div 256), of_nat (length a)] @ a) =
        take 16 ([of_nat (length a div 256), of_nat (length a)] @ a) # chunks (drop 14 a)"
      by (subst chunks_ne) simp_all
    then show ?thesis
      using False a u(2) first_block [OF l0, of a]
      by (simp add: z x1_def mic_loop_cbc enc_length)
  qed (simp add: x1_def z)
  have l1: "length x1 = 16"
    unfolding x1_def using l0 by (rule foldl_length)
  have after_m: "(if (of_nat (length m) :: u8) \<noteq> 0 then mic_loop enc 0 (of_nat (length m)) m x1 else Some x1) =
      Some (foldl ?step x1 (map pad16 (chunks m)))"
    using m u(1) l1 by (cases "m = []") (simp_all add: z mic_loop_cbc)
  have cbc: "foldl ?step x1 (map pad16 (chunks m)) = rfc_cbc enc (rfc_auth_blocks nonce m a mlen)"
    by (simp add: rfc_cbc_def rfc_auth_blocks_def x1_def x0)
  have "length (rfc_cbc enc (rfc_auth_blocks nonce m a mlen)) = 16"
    unfolding cbc [symmetric] by (rule foldl_length [OF l1])
  then have "ctr_step enc nonce 0 (rfc_cbc enc (rfc_auth_blocks nonce m a mlen)) 0 =
      map2 (XOR) (rfc_cbc enc (rfc_auth_blocks nonce m a mlen)) (rfc_key_stream enc nonce 0)"
    using key_stream_iv [OF nonce, of 0] by (simp add: ctr_step_def Let_def)
  then show ?thesis
    unfolding mic_def Let_def x0_def [symmetric] after_a using after_m cbc u(3) by (simp add: rfc_mic_def)
qed

lemma aead_eq:
  assumes "length nonce = 13" "length m \<le> 240" "length a \<le> 254" "mlen \<in> {2, 4, 8, 16}"
  shows "aead enc nonce m (of_nat (length m)) a (of_nat (length a)) (of_nat mlen) True = Some (rfc_crypt enc nonce m, rfc_mic enc nonce m a mlen)"
    "aead enc nonce (rfc_crypt enc nonce m) (of_nat (length m)) a (of_nat (length a)) (of_nat mlen) False = Some (m, rfc_mic enc nonce m a mlen)"
proof -
  have u: "unat (of_nat (length m) :: u8) = length m" using assms(2) by (simp add: unat_of_nat)
  have l: "length (rfc_crypt enc nonce m) = length m"
    by (cases m) (simp_all add: rfc_crypt_def length_concat comp_def rfc_key_stream_def enc_length sum_list_triv)
  have "ctr enc nonce m (of_nat (length m)) = Some (rfc_crypt enc nonce m)"
    "ctr enc nonce (rfc_crypt enc nonce m) (of_nat (length m)) = Some m"
    using ctr_eq [OF assms(1), of m] ctr_eq [OF assms(1), of "rfc_crypt enc nonce m"] assms(2) u l rfc_crypt_twice by simp_all
  then show "aead enc nonce m (of_nat (length m)) a (of_nat (length a)) (of_nat mlen) True = Some (rfc_crypt enc nonce m, rfc_mic enc nonce m a mlen)"
    "aead enc nonce (rfc_crypt enc nonce m) (of_nat (length m)) a (of_nat (length a)) (of_nat mlen) False = Some (m, rfc_mic enc nonce m a mlen)"
    using mic_eq [OF assms] by (simp_all add: aead_def)
qed

end

interpretation aes: block_cipher "aes_128_encrypt rk" for rk
  by unfold_locales (rule length_aes)

section \<open>Properties\<close>

text \<open>A message of more than 240 bytes: the position wraps before it reaches the end.\<close>

lemma ctr_loop_returns:
  assumes "ctr_loop enc nonce pos c len m = Some y"
  shows "unat pos mod 16 = 0 \<longrightarrow> unat len \<le> 240"
proof (rule ctr_loop.raw_induct [where P = "\<lambda>enc nonce pos c len m y. unat pos mod 16 = 0 \<longrightarrow> unat len \<le> 240", OF _ assms])
  fix f :: "(u8 list \<Rightarrow> u8 list) \<Rightarrow> u8 list \<Rightarrow> u8 \<Rightarrow> u8 \<Rightarrow> u8 \<Rightarrow> u8 list \<Rightarrow> u8 list option"
    and enc :: "u8 list \<Rightarrow> u8 list" and nonce m y :: "u8 list" and pos c len :: u8
  assume IH: "\<And>enc nonce pos c len m y. f enc nonce pos c len m = Some y \<Longrightarrow> unat pos mod 16 = 0 \<longrightarrow> unat len \<le> 240"
    and eq: "(if pos < len then f enc nonce (pos + 16) (c + 1) len (ctr_step enc nonce (unat pos) m c) else Some m) = Some y"
  show "unat pos mod 16 = 0 \<longrightarrow> unat len \<le> 240"
  proof (cases "pos < len")
    case True
    have "unat (pos + 16) mod 16 = unat pos mod 16" by (simp add: unat_word_ariths mod_mod_cancel)
    then show ?thesis using IH [of enc nonce "pos + 16" "c + 1" len] eq True by simp
  next
    case False
    have "unat pos < 256" using unsigned_less [of pos] by simp
    then have "unat pos mod 16 = 0 \<longrightarrow> unat pos \<le> 240" by presburger
    then show ?thesis using False by (auto simp: word_less_nat_alt)
  qed
qed

text \<open>C21. With a block cipher that returns blocks of 16 bytes, AES for instance, a message of at most 240 bytes and at most 254 bytes of additional
  data, sealing computes the cipher text and the authentication code that RFC 3610 defines, and opening the cipher text returns the message and
  the same code; for a longer message neither returns, because the 8-bit position wraps.\<close>

theorem ccm_rfc3610:
  assumes "\<And>x. length (enc x) = 16" "length nonce = 13" "length a \<le> 254" "mlen \<in> {2, 4, 8, 16}"
  shows "(length m \<le> 240 \<longrightarrow>
      aead enc nonce m (of_nat (length m)) a (of_nat (length a)) (of_nat mlen) True = Some (rfc_crypt enc nonce m, rfc_mic enc nonce m a mlen) \<and>
      aead enc nonce (rfc_crypt enc nonce m) (of_nat (length m)) a (of_nat (length a)) (of_nat mlen) False =
        Some (m, rfc_mic enc nonce m a mlen)) \<and>
    (240 < length m \<and> length m < 256 \<longrightarrow> (\<forall>forward. aead enc nonce m (of_nat (length m)) a (of_nat (length a)) (of_nat mlen) forward = None))"
proof -
  have "block_cipher enc" by unfold_locales (rule assms(1))
  note ok = block_cipher.aead_eq [OF this assms(2) _ assms(3,4)]
  have "ctr enc nonce m' (of_nat (length m)) = None" if "240 < length m" "length m < 256" for m'
  proof (rule ccontr)
    assume "ctr enc nonce m' (of_nat (length m)) \<noteq> None"
    then obtain y where "ctr_loop enc nonce 0 1 (of_nat (length m)) m' = Some y" by (auto simp: ctr_def)
    from ctr_loop_returns [OF this] that show False by (simp add: unat_of_nat)
  qed
  then have "aead enc nonce m (of_nat (length m)) a (of_nat (length a)) (of_nat mlen) forward = None" if "240 < length m" "length m < 256" for forward
    using that by (auto simp: aead_def split: option.split)
  then show ?thesis using ok by blast
qed

theorem ccm_rfc3610_witness:
  "aead (aes_128_encrypt (aes_128_set_key (replicate 16 7))) (replicate 13 1) [10, 11, 12] 3 [1, 2] 2 4 True =
     Some (rfc_crypt (aes_128_encrypt (aes_128_set_key (replicate 16 7))) (replicate 13 1) [10, 11, 12],
       rfc_mic (aes_128_encrypt (aes_128_set_key (replicate 16 7))) (replicate 13 1) [10, 11, 12] [1, 2] 4)"
  using ccm_rfc3610 [OF length_aes [of "aes_128_set_key (replicate 16 7)"], of "replicate 13 1" "[1, 2]" 4 "[10, 11, 12]"] by simp

end
