(* ===== verification/TschSecurity.thy ===== *)
theory TschSecurity
  imports Ccm Sixp
begin

text \<open>
  Frame security, \<^verbatim>\<open>os/net/mac/tsch/tsch-security.c\<close>, with the software drivers of \<^verbatim>\<open>Ccm\<close> and \<^verbatim>\<open>Aes\<close>. A pointer argument
  is the memory from that address on (None: NULL); \<open>same\<close> says that both pointers of \<open>tsch_security_secure_frame\<close> are equal. The
  structures on the stack are the arguments \<open>junk\<close>. A call of the cipher that never returns (messages of more than 240 bytes) is Fault.
\<close>

section \<open>Keys and levels\<close>

definition TSCH_SECURITY_K1 :: "u8 list" where
  "TSCH_SECURITY_K1 = [0x36, 0x54, 0x69, 0x53, 0x43, 0x48, 0x20, 0x6D, 0x69, 0x6E, 0x69, 0x6D, 0x61, 0x6C, 0x31, 0x35]"

definition TSCH_SECURITY_K2 :: "u8 list" where
  "TSCH_SECURITY_K2 = [0xde, 0xad, 0xbe, 0xef, 0xfa, 0xce, 0xca, 0xfe, 0xde, 0xad, 0xbe, 0xef, 0xfa, 0xce, 0xca, 0xfe]"

definition tsch_keys :: "u8 list list" where
  "tsch_keys = [TSCH_SECURITY_K1, TSCH_SECURITY_K2]"

abbreviation (input) N_KEYS :: nat where "N_KEYS \<equiv> 2"

definition tsch_security_init_nonce :: "linkaddr \<Rightarrow> tsch_asn_t \<Rightarrow> u8 list" where
  "tsch_security_init_nonce sender asn =
     take 8 sender @ [ms1b asn, ucast (drop_bit 24 (ls4b asn) AND 0xff), ucast (drop_bit 16 (ls4b asn) AND 0xff),
       ucast (drop_bit 8 (ls4b asn) AND 0xff), ucast (ls4b asn AND 0xff)]"

text \<open>The required level and key index of a frame type: beacons, acknowledgements and other frames.\<close>

definition required_security :: "u8 \<Rightarrow> u8 \<times> u8" where
  "required_security type =
     (if type = FRAME802154_BEACONFRAME then (1, 1) else if type = FRAME802154_ACKFRAME then (5, 2) else (5, 2))"

definition tsch_security_check_level :: "bool \<Rightarrow> bool \<Rightarrow> frame802154_t option \<Rightarrow> bool" where
  "tsch_security_check_level tsch_is_associated tsch_is_pan_secured frame =
     (case frame of None \<Rightarrow> False
      | Some f \<Rightarrow>
          if security_enabled (fcf f) = 0 then \<not> (tsch_is_associated \<and> tsch_is_pan_secured)
          else if tsch_is_associated \<and> \<not> tsch_is_pan_secured then False
          else (security_level (security_control (aux_hdr f)), key_index (aux_hdr f)) = required_security (frame_type (fcf f)))"

definition tsch_security_mic_len :: "frame802154_t option \<Rightarrow> nat" where
  "tsch_security_mic_len frame =
     (case frame of None \<Rightarrow> 0
      | Some f \<Rightarrow> if security_enabled (fcf f) \<noteq> 0 then push_bit (unat (security_level (security_control (aux_hdr f)) AND 3)) 2 else 0)"

section \<open>Information elements in front of the payload\<close>

text \<open>The field \<open>ie_payload_ie_offset\<close> after a call of \<open>frame802154e_parse_information_elements\<close> whose result is ignored: the value assigned last before
  the call returns, with an error or not.\<close>

function offset_run :: "ie_loop \<Rightarrow> u8 list \<Rightarrow> u8 outcome" where
  "offset_run s mem =
     (if il_size s > 0 then
        (case ie_iteration s mem of
           Failed \<Rightarrow> Done (ie_payload_ie_offset (il_ies s))
         | Fault \<Rightarrow> Fault
         | Done (Return n ies) \<Rightarrow> Done (ie_payload_ie_offset ies)
         | Done (Continue s') \<Rightarrow> offset_run s' mem)
      else Done (if il_state s = PARSING_HEADER_IE then of_nat (il_off s) else ie_payload_ie_offset (il_ies s)))"
  by pat_completeness auto

termination
  using ie_iteration_progress
  by (relation "measure (\<lambda>(s, mem). length mem - il_off s)") (auto intro: diff_less_mono2)

declare offset_run.simps [simp del]

definition ies_offset :: "u8 list \<Rightarrow> u8 \<Rightarrow> u8 outcome" where
  "ies_offset mem buf_size =
     offset_run \<lparr>il_off = 0, il_size = buf_size, il_state = PARSING_HEADER_IE, il_nested = 0, il_ies = ies_zero\<rparr> mem"

text \<open>The offset that the sender uses: only if elements were found.\<close>

definition sent_offset :: "u8 list \<Rightarrow> u8 \<Rightarrow> nat outcome" where
  "sent_offset mem buf_size =
     (case frame802154e_parse_information_elements mem buf_size (Some ies_zero) of
        Done (n, ies) \<Rightarrow> Done (if n > 0 then unat (ie_payload_ie_offset ies) else 0)
      | Failed \<Rightarrow> Done 0
      | Fault \<Rightarrow> Fault)"

section \<open>Sealing and opening frames\<close>

text \<open>The lengths of the authenticated and the encrypted part.\<close>

definition auth_len :: "u8 \<Rightarrow> int \<Rightarrow> int \<Rightarrow> u8" where
  "auth_len level hlen dlen = (if level AND 4 \<noteq> 0 then word_of_int hlen else word_of_int (hlen + dlen))"

definition enc_len :: "u8 \<Rightarrow> int \<Rightarrow> u8" where
  "enc_len level dlen = (if level AND 4 \<noteq> 0 then word_of_int dlen else 0)"

text \<open>\<open>CCM_STAR.set_key\<close> and \<open>CCM_STAR.aead\<close> on the first bytes of a buffer.\<close>

definition ccm_star :: "u8 list \<Rightarrow> u8 list \<Rightarrow> u8 list \<Rightarrow> u8 \<Rightarrow> u8 \<Rightarrow> u8 \<Rightarrow> bool \<Rightarrow> (u8 list \<times> u8 list) outcome" where
  "ccm_star key nonce buf a_len m_len mic_len forward =
     obind (mem_read 0 (unat a_len) buf) (\<lambda>a.
     obind (mem_read (unat a_len) (unat m_len) buf) (\<lambda>m.
       case aead (aes_128_encrypt (aes_128_set_key key)) nonce m m_len a a_len mic_len forward of
         None \<Rightarrow> Fault
       | Some (m', t) \<Rightarrow> obind (mem_write (unat a_len) m' buf) (\<lambda>b. Done (b, t))))"

text \<open>The frame with its header length corrected by the offset of the payload elements: copy, cipher, and the code behind it.\<close>

definition seal_frame ::
    "linkaddr \<Rightarrow> u8 list \<Rightarrow> u8 list \<Rightarrow> bool \<Rightarrow> int \<Rightarrow> int \<Rightarrow> frame802154_t \<Rightarrow> tsch_asn_t \<Rightarrow> (nat \<times> u8 list) outcome" where
  "seal_frame node_addr hdr outbuf same hlen dlen frame asn =
     (let ki = key_index (aux_hdr frame); level = security_level (security_control (aux_hdr frame));
          mic_len = tsch_security_mic_len (Some frame);
          a_len = auth_len level hlen dlen; m_len = enc_len level dlen
      in if security_enabled (fcf frame) = 0 \<or> ki = 0 \<or> unat ki > N_KEYS then Done (0, outbuf)
         else
           obind (if same then Done outbuf
                  else obind (mem_read 0 (unat a_len + unat m_len) hdr) (\<lambda>bs. mem_write 0 bs outbuf)) (\<lambda>buf.
           obind (ccm_star (tsch_keys ! (unat ki - 1)) (tsch_security_init_nonce node_addr asn) buf a_len m_len (of_nat mic_len) True)
             (\<lambda>(buf1, t).
           obind (mem_write (nat (hlen + dlen)) t buf1) (\<lambda>buf2. Done (mic_len, buf2)))))"

definition tsch_security_secure_frame ::
    "linkaddr \<Rightarrow> frame802154_t \<Rightarrow> u8 list option \<Rightarrow> u8 list option \<Rightarrow> bool \<Rightarrow> int \<Rightarrow> int \<Rightarrow> tsch_asn_t \<Rightarrow> (nat \<times> u8 list option) outcome" where
  "tsch_security_secure_frame node_addr junk hdr outbuf same hlen dlen asn =
     (case (hdr, outbuf) of
        (Some h, Some buf) \<Rightarrow>
          if hlen < 0 \<or> dlen < 0 then Done (0, outbuf)
          else
            obind (frame802154_parse h (hlen + dlen) junk) (\<lambda>(n, frame).
              if n < 3 then Done (0, outbuf)
              else
                obind (sent_offset (drop (nat hlen) h) (word_of_int dlen)) (\<lambda>off.
                obind (seal_frame node_addr h buf same (hlen + int off) (dlen - int off) frame asn) (\<lambda>(r, b).
                Done (r, Some b))))
      | _ \<Rightarrow> Done (0, outbuf))"

definition open_frame ::
    "u8 list \<Rightarrow> int \<Rightarrow> int \<Rightarrow> frame802154_t \<Rightarrow> linkaddr \<Rightarrow> tsch_asn_t \<Rightarrow> (nat \<times> u8 list) outcome" where
  "open_frame hdr hlen dlen frame sender asn =
     (let level = security_level (security_control (aux_hdr frame)); mic_len = tsch_security_mic_len (Some frame) in
      obind (ccm_star (tsch_keys ! (unat (key_index (aux_hdr frame)) - 1)) (tsch_security_init_nonce sender asn) hdr
          (auth_len level hlen dlen) (enc_len level dlen) (of_nat mic_len) False) (\<lambda>(buf, generated_mic).
      obind (mem_read (nat (hlen + dlen)) mic_len buf) (\<lambda>received.
      Done (if mic_len > 0 \<and> generated_mic \<noteq> received then 0 else 1, buf))))"

definition tsch_security_parse_frame ::
    "bool \<Rightarrow> bool \<Rightarrow> u8 list option \<Rightarrow> int \<Rightarrow> int \<Rightarrow> frame802154_t option \<Rightarrow> linkaddr \<Rightarrow> tsch_asn_t \<Rightarrow> (nat \<times> u8 list option) outcome" where
  "tsch_security_parse_frame tsch_is_associated tsch_is_pan_secured hdr hlen dlen frame sender asn =
     (case (frame, hdr) of
        (Some f, Some h) \<Rightarrow>
          if hlen < 0 \<or> dlen < 0 then Done (0, hdr)
          else if \<not> tsch_security_check_level tsch_is_associated tsch_is_pan_secured frame then Done (0, hdr)
          else if security_enabled (fcf f) = 0 then Done (1, hdr)
          else if key_index (aux_hdr f) = 0 \<or> unat (key_index (aux_hdr f)) > N_KEYS then Done (0, hdr)
          else
            obind (ies_offset (drop (nat hlen) h) (word_of_int dlen)) (\<lambda>off.
            obind (open_frame h (hlen + uint off) (dlen - uint off) f sender asn) (\<lambda>(r, b). Done (r, Some b)))
      | _ \<Rightarrow> Done (0, hdr))"

section \<open>The cipher on a buffer\<close>

abbreviation sec_enc :: "u8 list \<Rightarrow> u8 list \<Rightarrow> u8 list" where
  "sec_enc key \<equiv> aes_128_encrypt (aes_128_set_key key)"

lemma length_rfc_crypt [simp]: "length (rfc_crypt (sec_enc key) nonce m) = length m"
  using aes.aead_eq by (cases m) (simp_all add: rfc_crypt_def length_concat comp_def rfc_key_stream_def length_aes sum_list_triv)

lemma ccm_star_eq:
  assumes nonce: "length nonce = 13" and mic: "mlen \<in> {2, 4, 8, 16}"
    and len: "unat a_len + unat m_len \<le> length buf" "unat a_len \<le> 254" "unat m_len \<le> 240"
  shows "ccm_star key nonce buf a_len m_len (of_nat mlen) True =
      Done (put_at (unat a_len) (rfc_crypt (sec_enc key) nonce (take (unat m_len) (drop (unat a_len) buf))) buf,
        rfc_mic (sec_enc key) nonce (take (unat m_len) (drop (unat a_len) buf)) (take (unat a_len) buf) mlen)"
    "take (unat m_len) (drop (unat a_len) buf) = rfc_crypt (sec_enc key) nonce m \<Longrightarrow>
     ccm_star key nonce buf a_len m_len (of_nat mlen) False =
      Done (put_at (unat a_len) m buf, rfc_mic (sec_enc key) nonce m (take (unat a_len) buf) mlen)"
proof -
  define a where "a = take (unat a_len) buf"
  have a: "length a = unat a_len" "of_nat (length a) = a_len" using len(1) by (simp_all add: a_def)
  have r: "mem_read 0 (unat a_len) buf = Done a" "mem_read (unat a_len) (unat m_len) buf = Done (take (unat m_len) (drop (unat a_len) buf))"
    using len(1) by (simp_all add: mem_read_def a_def)
  {
    fix m c :: "u8 list"
    assume m: "length m = unat m_len" and c: "c = take (unat m_len) (drop (unat a_len) buf)"
    have "of_nat (length m) = m_len" using m by simp
    then have "aead (sec_enc key) nonce m m_len a a_len (of_nat mlen) True = Some (rfc_crypt (sec_enc key) nonce m, rfc_mic (sec_enc key) nonce m a mlen)"
      "aead (sec_enc key) nonce (rfc_crypt (sec_enc key) nonce m) m_len a a_len (of_nat mlen) False = Some (m, rfc_mic (sec_enc key) nonce m a mlen)"
      using aes.aead_eq [OF nonce _ _ mic, of m a] len(2,3) a m by simp_all
  }
  note ae = this
  let ?m = "take (unat m_len) (drop (unat a_len) buf)"
  have w: "mem_write (unat a_len) x buf = Done (put_at (unat a_len) x buf)" if "length x = unat m_len" for x
    using len(1) that by (simp add: mem_write_put_at)
  have lm: "length ?m = unat m_len" using len(1) by simp
  show "ccm_star key nonce buf a_len m_len (of_nat mlen) True =
      Done (put_at (unat a_len) (rfc_crypt (sec_enc key) nonce ?m) buf, rfc_mic (sec_enc key) nonce ?m (take (unat a_len) buf) mlen)"
    using ae(1) [OF lm refl] w lm by (simp add: ccm_star_def r a_def [symmetric])
  show "ccm_star key nonce buf a_len m_len (of_nat mlen) False =
      Done (put_at (unat a_len) m buf, rfc_mic (sec_enc key) nonce m (take (unat a_len) buf) mlen)"
    if "?m = rfc_crypt (sec_enc key) nonce m"
  proof -
    have "length m = unat m_len" using that lm by (metis length_rfc_crypt)
    then show ?thesis using ae(2) [OF _ refl] w that by (simp add: ccm_star_def r a_def [symmetric])
  qed
qed

lemma nonce_length: "is_linkaddr sender \<Longrightarrow> length (tsch_security_init_nonce sender asn) = 13"
  by (simp add: tsch_security_init_nonce_def is_linkaddr_def LINKADDR_SIZE_def)

lemma mic_len_cases: "security_enabled (fcf f) \<noteq> 0 \<Longrightarrow> tsch_security_mic_len (Some f) \<in> {2, 4, 8, 16}"
proof -
  have "unat (security_level (security_control (aux_hdr f)) AND 3) < 4"
    using and_mask_le(1) [of "security_level (security_control (aux_hdr f)) AND 3"] by (simp add: and.assoc)
  then have "unat (security_level (security_control (aux_hdr f)) AND 3) \<in> {0, 1, 2, 3}" by auto
  then show "security_enabled (fcf f) \<noteq> 0 \<Longrightarrow> tsch_security_mic_len (Some f) \<in> {2, 4, 8, 16}"
    by (auto simp: tsch_security_mic_len_def push_bit_eq_mult)
qed

lemma check_level_key:
  assumes "tsch_security_check_level assoc secured (Some f)" "security_enabled (fcf f) \<noteq> 0"
  shows "key_index (aux_hdr f) \<noteq> 0" "unat (key_index (aux_hdr f)) \<le> 2"
  using assms by (auto simp: tsch_security_check_level_def required_security_def split: if_splits)

section \<open>Offsets\<close>

text \<open>In front of the payload elements, position and remaining size add up to the length of the data; behind them the offset is fixed.\<close>

abbreviation same_offset :: "ieee802154_ies \<Rightarrow> ieee802154_ies \<Rightarrow> bool" where
  "same_offset i j \<equiv> ie_payload_ie_offset j = ie_payload_ie_offset i"

definition fixes_offset :: "ie_loop \<Rightarrow> ie_step \<Rightarrow> bool" where
  "fixes_offset s r = (case r of Continue s' \<Rightarrow> il_state s' \<noteq> PARSING_HEADER_IE \<and> same_offset (il_ies s) (il_ies s')
     | Return n ies \<Rightarrow> same_offset (il_ies s) ies)"

lemmas ensures_rules = ensures_obind ensures_if

lemma header_ie_offset: "ensures (same_offset ies) (frame802154e_parse_header_ie b l i ies mem)"
  unfolding frame802154e_parse_header_ie_def Let_def by (auto intro!: ensures_rules)

lemma mlme_ie_offset:
  "ensures (same_offset ies) (frame802154e_parse_mlme_short_ie b l i ies mem)"
  "ensures (same_offset ies) (frame802154e_parse_mlme_long_ie b l i ies mem)"
proof -
  show "ensures (same_offset ies) (frame802154e_parse_mlme_long_ie b l i ies mem)"
    unfolding frame802154e_parse_mlme_long_ie_def Let_def by (intro ensures_rules) simp_all
  have "ensures (same_offset ies) (parse_slotframe_and_link b l ies mem)"
    unfolding parse_slotframe_and_link_def Let_def by (intro ensures_rules) simp_all
  moreover have "ensures (same_offset ies) (parse_synchronization b l ies mem)"
    unfolding parse_synchronization_def Let_def by (intro ensures_rules) simp_all
  moreover have "ensures (same_offset ies) (parse_timeslot b l ies mem)"
    unfolding parse_timeslot_def Let_def by (intro ensures_rules) simp_all
  ultimately show "ensures (same_offset ies) (frame802154e_parse_mlme_short_ie b l i ies mem)"
    unfolding frame802154e_parse_mlme_short_ie_def by simp
qed

lemma ie_advance_fixes:
  "il_state s' \<noteq> PARSING_HEADER_IE \<Longrightarrow> same_offset (il_ies s) (il_ies s') \<Longrightarrow> ensures (fixes_offset s) (ie_advance len s')"
  by (simp add: ie_advance_def fixes_offset_def)

lemma payload_step_fixes:
  assumes "il_state s \<noteq> PARSING_HEADER_IE"
  shows "ensures (fixes_offset s) (ie_payload_step d s mem)"
  unfolding ie_payload_step_def Let_def
  by (intro ensures_rules ie_advance_fixes) (simp_all add: assms fixes_offset_def)

lemma mlme_step_fixes:
  assumes "il_state s \<noteq> PARSING_HEADER_IE"
  shows "ensures (fixes_offset s) (ie_mlme_step d s mem)"
  unfolding ie_mlme_step_def Let_def
  using mlme_ie_offset [of "il_ies s"] assms
  by (intro ensures_if ensures_obind_mono [of "same_offset (il_ies s)"] ie_advance_fixes) simp_all

lemma iteration_fixes:
  assumes "il_state s \<noteq> PARSING_HEADER_IE"
  shows "ensures (fixes_offset s) (ie_iteration s mem)"
proof -
  let ?s = "s\<lparr>il_size := il_size s - 2, il_off := il_off s + 2\<rparr>"
  have e: "fixes_offset ?s = fixes_offset s" by (rule ext) (simp add: fixes_offset_def split: ie_step.split)
  have "ensures (fixes_offset s) (ie_payload_step d ?s mem)" "ensures (fixes_offset s) (ie_mlme_step d ?s mem)" for d
    using payload_step_fixes [of ?s d mem] mlme_step_fixes [of ?s d mem] assms unfolding e by simp_all
  then show ?thesis
    unfolding ie_iteration_def Let_def using assms by (cases "il_state s") (auto intro!: ensures_rules)
qed

text \<open>The value of the offset when the loop has ended, with or without an error.\<close>

lemma offset_run_fixed: "il_state s \<noteq> PARSING_HEADER_IE \<Longrightarrow> ensures (\<lambda>off. off = ie_payload_ie_offset (il_ies s)) (offset_run s mem)"
proof (induction s mem rule: offset_run.induct)
  case (1 s mem)
  show ?case
  proof (cases "il_size s > 0")
    case True
    then show ?thesis
      using iteration_fixes [OF 1(2), of mem] 1(1) [OF True]
      by (subst offset_run.simps) (auto simp: fixes_offset_def split: outcome.split ie_step.split)
  qed (use 1 in \<open>simp add: offset_run.simps\<close>)
qed

lemma loop_run_offset: "ie_loop_run s mem = Done (n, ies) \<Longrightarrow> offset_run s mem = Done (ie_payload_ie_offset ies)"
proof (induction s mem rule: offset_run.induct)
  case (1 s mem)
  then show ?case
    by (cases "il_size s > 0")
      (auto simp: offset_run.simps [of s] ie_loop_run.simps [of s] split: outcome.splits ie_step.splits if_splits)
qed

definition header_inv :: "nat \<Rightarrow> ie_loop \<Rightarrow> bool" where
  "header_inv D s \<longleftrightarrow> (if il_state s = PARSING_HEADER_IE then il_off s + unat (il_size s) = D \<and> ie_payload_ie_offset (il_ies s) = 0
     else unat (ie_payload_ie_offset (il_ies s)) \<le> D)"

definition header_res :: "nat \<Rightarrow> ie_step \<Rightarrow> bool" where
  "header_res D r = (case r of Continue s' \<Rightarrow> header_inv D s' | Return n ies \<Rightarrow> unat (ie_payload_ie_offset ies) \<le> D)"

lemma header_step_res:
  assumes "header_inv D s" "D < 256" "il_state s = PARSING_HEADER_IE" "\<not> il_size s < 2"
    "t = s\<lparr>il_size := il_size s - 2, il_off := il_off s + 2\<rparr>"
  shows "ensures (header_res D) (ie_header_step d t mem)"
proof -
  have t: "il_state t = PARSING_HEADER_IE" "ie_payload_ie_offset (il_ies t) = 0" "il_off t + unat (il_size t) = D"
    using assms by (simp_all add: header_inv_def unat_sub word_le_nat_alt word_less_nat_alt) arith
  have "unat (of_nat (il_off t) :: u8) \<le> D" using t(3) assms(2) by (simp add: unat_of_nat)
  then have t1: "header_res D (Continue (t\<lparr>il_state := PARSING_PAYLOAD_IE, il_ies := (il_ies t)\<lparr>ie_payload_ie_offset := of_nat (il_off t)\<rparr>,
      il_off := q, il_size := z\<rparr>))"
    "header_res D (Continue (t\<lparr>il_state := PARSING_PAYLOAD_IE, il_ies := (il_ies t)\<lparr>ie_payload_ie_offset := of_nat (il_off t)\<rparr>\<rparr>))"
    "header_res D (Return n ((il_ies t)\<lparr>ie_payload_ie_offset := of_nat (il_off t)\<rparr>))" for q z n
    by (simp_all add: header_res_def header_inv_def)
  have t2: "header_res D (Continue (t\<lparr>il_ies := ies, il_off := il_off t + unat l, il_size := il_size t - ucast l\<rparr>))"
    if "same_offset (il_ies t) ies" "unat l \<le> unat (il_size t)" for ies and l :: u16
  proof -
    have "unat (ucast l :: u8) = unat l" using that(2) u8_bound [of "il_size t"] by (simp add: unat_ucast_mod)
    then show ?thesis using t that by (simp add: header_res_def header_inv_def unat_sub word_le_nat_alt)
  qed
  show ?thesis
    unfolding ie_header_step_def Let_def ie_advance_def
    using t1 t2
    by (intro ensures_if ensures_obind_mono [OF header_ie_offset]) simp_all
qed

lemma iteration_res:
  assumes "header_inv D s" "D < 256"
  shows "ensures (header_res D) (ie_iteration s mem)"
proof (cases "il_state s = PARSING_HEADER_IE")
  case True
  then show ?thesis
    unfolding ie_iteration_def Let_def using header_step_res [OF assms True] by (auto intro!: ensures_rules)
next
  case False
  have "header_res D r" if "fixes_offset s r" for r
    using that assms False by (auto simp: header_res_def fixes_offset_def header_inv_def split: ie_step.splits)
  then show ?thesis using iteration_fixes [OF False, of mem] by (auto simp: ensures_def)
qed

lemma header_inv_bound: "header_inv D s \<Longrightarrow> unat (ie_payload_ie_offset (il_ies s)) \<le> D"
  by (auto simp: header_inv_def split: if_splits)

lemma offset_run_bound: "header_inv D s \<Longrightarrow> D < 256 \<Longrightarrow> ensures (\<lambda>off. unat off \<le> D) (offset_run s mem)"
proof (induction s mem rule: offset_run.induct)
  case (1 s mem)
  show ?case
  proof (cases "il_size s > 0")
    case True
    then show ?thesis
      using iteration_res [OF 1(2,3), of mem] 1(1) [OF True] 1(3) header_inv_bound [OF 1(2)]
      by (subst offset_run.simps) (auto simp: header_res_def split: outcome.split ie_step.split)
  next
    case False
    then show ?thesis using 1 by (simp add: offset_run.simps header_inv_def unat_of_nat split: if_splits)
  qed
qed

lemma sent_offset_props:
  assumes "sent_offset mem sz = Done off"
  shows "off \<le> unat sz" "off \<noteq> 0 \<Longrightarrow> ies_offset mem sz = Done (of_nat off)"
proof -
  let ?s = "\<lparr>il_off = 0, il_size = sz, il_state = PARSING_HEADER_IE, il_nested = 0, il_ies = ies_zero\<rparr>"
  have z: "ies_zero\<lparr>ie_payload_ie_offset := 0\<rparr> = ies_zero" by (simp add: ies_zero_def)
  have "header_inv (unat sz) ?s" by (simp add: header_inv_def ies_zero_def)
  then have b: "ensures (\<lambda>off. unat off \<le> unat sz) (offset_run ?s mem)" using offset_run_bound u8_bound by blast
  consider "off = 0" | n ies where "ie_loop_run ?s mem = Done (n, ies)" "off = unat (ie_payload_ie_offset ies)"
    using assms by (auto simp: sent_offset_def frame802154e_parse_information_elements_def z split: outcome.splits prod.splits if_splits)
  then have "off \<le> unat sz \<and> (off \<noteq> 0 \<longrightarrow> ies_offset mem sz = Done (of_nat off))"
  proof cases
    case (2 n ies)
    then show ?thesis using loop_run_offset [OF 2(1)] b by (simp add: ies_offset_def)
  qed simp
  then show "off \<le> unat sz" "off \<noteq> 0 \<Longrightarrow> ies_offset mem sz = Done (of_nat off)" by simp_all
qed

lemma ies_offset_bound: "ies_offset mem sz = Done off \<Longrightarrow> unat off \<le> unat sz"
  using offset_run_bound [of "unat sz" "\<lparr>il_off = 0, il_size = sz, il_state = PARSING_HEADER_IE, il_nested = 0, il_ies = ies_zero\<rparr>" mem] u8_bound [of sz]
  by (simp add: ies_offset_def header_inv_def ies_zero_def ensures_def)

text \<open>Data that starts with the termination of the header elements.\<close>

lemma ies_offset_term1:
  assumes "take 2 mem = [0x00, 0x3f]" "2 \<le> unat sz"
  shows "ensures (\<lambda>off. off = 2) (ies_offset mem sz)"
proof -
  let ?s = "\<lparr>il_off = 0, il_size = sz, il_state = PARSING_HEADER_IE, il_nested = 0, il_ies = ies_zero\<rparr>"
  have "write16 0x3f00 = [0x00, 0x3f]" by (simp add: write16_def)
  then have "has_at mem (il_off ?s) (write16 0x3f00)" using assms(1) by (simp add: has_at_def numeral_2_eq_2)
  from header_term_1_iteration [OF this] have i: "ie_iteration ?s mem = Done (Continue (?s\<lparr>il_off := 2, il_size := sz - 2,
      il_state := PARSING_PAYLOAD_IE, il_ies := ies_zero\<lparr>ie_payload_ie_offset := 2\<rparr>\<rparr>))"
    using assms(2) by simp
  have "0 < il_size ?s" using assms(2) by (simp add: word_less_nat_alt)
  then have "ies_offset mem sz = offset_run (?s\<lparr>il_off := 2, il_size := sz - 2,
      il_state := PARSING_PAYLOAD_IE, il_ies := ies_zero\<lparr>ie_payload_ie_offset := 2\<rparr>\<rparr>) mem"
    unfolding ies_offset_def by (subst offset_run.simps) (simp add: i)
  then show ?thesis
    using offset_run_fixed [of "?s\<lparr>il_off := 2, il_size := sz - 2,
      il_state := PARSING_PAYLOAD_IE, il_ies := ies_zero\<lparr>ie_payload_ie_offset := 2\<rparr>\<rparr>" mem] by simp
qed

lemma sent_offset_term1:
  assumes "sent_offset mem sz = Done off" "take 2 mem = [0x00, 0x3f]" "off \<noteq> 0"
  shows "off = 2"
proof -
  have s: "2 \<le> unat sz"
  proof (rule ccontr)
    assume "\<not> 2 \<le> unat sz"
    then consider "unat sz = 0" | "unat sz = 1" by linarith
    then show False
    proof cases
      case 1
      then show ?thesis using sent_offset_props(1) [OF assms(1)] assms(3) by simp
    next
      case 2
      then have "sz = 1" by (simp add: word_unat_eq_iff)
      then have "sent_offset mem sz = Done 0"
        by (simp add: sent_offset_def frame802154e_parse_information_elements_def ie_loop_run.simps ie_iteration_def)
      then show ?thesis using assms by simp
    qed
  qed
  have "ies_offset mem sz = Done (of_nat off)" using sent_offset_props(2) [OF assms(1,3)] .
  then have "(of_nat off :: u8) = 2" using ies_offset_term1 [OF assms(2) s] by simp
  then have "unat (of_nat off :: u8) = 2" by simp
  moreover have "off < 256" using sent_offset_props(1) [OF assms(1)] u8_bound [of sz] by simp
  then have "unat (of_nat off :: u8) = off" by (simp add: unat_of_nat)
  ultimately show ?thesis by linarith
qed

lemma common_start:
  assumes "h = A @ B" "r = A @ C" "length A = k + 2"
  shows "take 2 (drop k r) = take 2 (drop k h)"
  using assms by simp

section \<open>A frame from the sender to the receiver\<close>

lemma part_lengths:
  assumes "0 \<le> hl" "0 \<le> dl" "hl + dl \<le> 240"
  shows "unat (auth_len level hl dl) + unat (enc_len level dl) = nat (hl + dl)"
    "unat (auth_len level hl dl) \<le> 254" "unat (enc_len level dl) \<le> 240"
proof -
  have u: "unat (word_of_int k :: u8) = nat k" if "0 \<le> k" "k \<le> 240" for k
    using that by (simp add: unsigned_of_int take_bit_int_eq_self)
  then show "unat (auth_len level hl dl) + unat (enc_len level dl) = nat (hl + dl)"
    "unat (auth_len level hl dl) \<le> 254" "unat (enc_len level dl) \<le> 240"
    using assms u [of hl] u [of dl] u [of "hl + dl"] by (auto simp: auth_len_def enc_len_def simp del: of_int_add)
qed

lemma put_at_middle: "length M = length C \<Longrightarrow> put_at (length A) M (A @ C @ R) = A @ M @ R"
  by (simp add: put_at_def)

text \<open>The code that goes with a frame whose parts are \<open>A\<close> and \<open>M\<close>.\<close>

abbreviation frame_key :: "frame802154_t \<Rightarrow> u8 list" where
  "frame_key f \<equiv> tsch_keys ! (unat (key_index (aux_hdr f)) - 1)"

definition frame_mic :: "frame802154_t \<Rightarrow> linkaddr \<Rightarrow> tsch_asn_t \<Rightarrow> u8 list \<Rightarrow> u8 list \<Rightarrow> u8 list" where
  "frame_mic f sender asn M A = rfc_mic (sec_enc (frame_key f)) (tsch_security_init_nonce sender asn) M A (tsch_security_mic_len (Some f))"

definition frame_cipher :: "frame802154_t \<Rightarrow> linkaddr \<Rightarrow> tsch_asn_t \<Rightarrow> u8 list \<Rightarrow> u8 list" where
  "frame_cipher f sender asn M = rfc_crypt (sec_enc (frame_key f)) (tsch_security_init_nonce sender asn) M"

lemma length_frame_cipher [simp]: "length (frame_cipher f sender asn M) = length M"
  by (simp add: frame_cipher_def)

lemma length_frame_mic: "security_enabled (fcf f) \<noteq> 0 \<Longrightarrow> length (frame_mic f sender asn M A) = tsch_security_mic_len (Some f)"
proof -
  assume "security_enabled (fcf f) \<noteq> 0"
  then have "tsch_security_mic_len (Some f) \<le> 16" using mic_len_cases by fastforce
  moreover have "length (rfc_cbc (sec_enc k) bs) = 16" for k bs
    by (cases bs rule: rev_cases) (simp_all add: rfc_cbc_def length_aes)
  ultimately show ?thesis by (simp add: frame_mic_def rfc_mic_def rfc_key_stream_def length_aes)
qed

lemma seal_frame_eq:
  assumes sec: "security_enabled (fcf f) \<noteq> 0" and key: "key_index (aux_hdr f) \<noteq> 0" "unat (key_index (aux_hdr f)) \<le> 2"
    and addr: "is_linkaddr sender" and len: "0 \<le> hl" "0 \<le> dl" "hl + dl \<le> 240"
    and h: "h = A @ M @ R" "length A = unat (auth_len (security_level (security_control (aux_hdr f))) hl dl)"
      "length M = unat (enc_len (security_level (security_control (aux_hdr f))) dl)"
    and buf: "same \<Longrightarrow> buf = h" "nat (hl + dl) + tsch_security_mic_len (Some f) \<le> length buf"
  shows "seal_frame sender h buf same hl dl f asn =
    Done (tsch_security_mic_len (Some f),
      A @ frame_cipher f sender asn M @ frame_mic f sender asn M A @ drop (nat (hl + dl) + tsch_security_mic_len (Some f)) buf)"
proof -
  let ?l = "security_level (security_control (aux_hdr f))" and ?N = "nat (hl + dl)" and ?T = "frame_mic f sender asn M A"
  note pl = part_lengths [OF len, of ?l] and mic = mic_len_cases [OF sec]
  have N: "length A + length M = ?N" using pl(1) h by simp
  define R0 where "R0 = drop ?N buf"
  have c: "(if same then Done buf else obind (mem_read 0 (unat (auth_len ?l hl dl) + unat (enc_len ?l dl)) h) (\<lambda>bs. mem_write 0 bs buf)) =
      Done (A @ M @ R0)"
    using buf N h by (auto simp: R0_def mem_read_def mem_write_def)
  have s: "ccm_star (frame_key f) (tsch_security_init_nonce sender asn) (A @ M @ R0) (auth_len ?l hl dl) (enc_len ?l dl)
      (of_nat (tsch_security_mic_len (Some f))) True = Done (A @ frame_cipher f sender asn M @ R0, ?T)"
    using ccm_star_eq(1) [OF nonce_length [OF addr] mic, of "auth_len ?l hl dl" "enc_len ?l dl" "A @ M @ R0" "frame_key f"] pl h(2,3)
      put_at_middle [of "frame_cipher f sender asn M" M A R0]
    by (simp add: frame_cipher_def frame_mic_def)
  have w: "mem_write ?N ?T (A @ frame_cipher f sender asn M @ R0) =
      Done (A @ frame_cipher f sender asn M @ ?T @ drop (tsch_security_mic_len (Some f)) R0)"
    using N buf(2) length_frame_mic [OF sec, of sender asn M A] by (simp add: mem_write_def R0_def)
  show ?thesis
    unfolding seal_frame_def Let_def c obind.simps s w prod.case using sec key
    by (simp add: R0_def add.commute [of "tsch_security_mic_len (Some f)"])
qed

lemma open_frame_eq:
  assumes sec: "security_enabled (fcf f) \<noteq> 0" and addr: "is_linkaddr sender" and len: "0 \<le> hl" "0 \<le> dl" "hl + dl \<le> 240"
    and r: "r = A @ frame_cipher f sender asn M @ frame_mic f sender asn M A @ R"
      "length A = unat (auth_len (security_level (security_control (aux_hdr f))) hl dl)"
      "length M = unat (enc_len (security_level (security_control (aux_hdr f))) dl)"
  shows "open_frame r hl dl f sender asn = Done (1, A @ M @ frame_mic f sender asn M A @ R)"
proof -
  let ?l = "security_level (security_control (aux_hdr f))" and ?N = "nat (hl + dl)" and ?T = "frame_mic f sender asn M A"
  note pl = part_lengths [OF len, of ?l] and mic = mic_len_cases [OF sec]
  have N: "length A + length M = ?N" using pl(1) r(2,3) by simp
  have s: "ccm_star (frame_key f) (tsch_security_init_nonce sender asn) r (auth_len ?l hl dl) (enc_len ?l dl)
      (of_nat (tsch_security_mic_len (Some f))) False = Done (A @ M @ ?T @ R, ?T)"
    using ccm_star_eq(2) [OF nonce_length [OF addr] mic, of "auth_len ?l hl dl" "enc_len ?l dl" r "frame_key f" asn M] pl r(2,3)
      put_at_middle [of M "frame_cipher f sender asn M" A "?T @ R"]
    by (simp add: frame_cipher_def frame_mic_def r(1))
  have "mem_read ?N (tsch_security_mic_len (Some f)) (A @ M @ ?T @ R) = Done ?T"
    using N length_frame_mic [OF sec, of sender asn M A] by (simp add: mem_read_def)
  then show ?thesis unfolding open_frame_def Let_def s by simp
qed

lemma parts_obtain:
  assumes "0 \<le> hl" "0 \<le> dl" "hl + dl \<le> 240" "nat (hl + dl) \<le> length h"
  obtains A M where "h = A @ M @ drop (nat (hl + dl)) h" "length A = unat (auth_len level hl dl)" "length M = unat (enc_len level dl)"
proof
  note pl = part_lengths [OF assms(1-3), of level]
  let ?a = "unat (auth_len level hl dl)" and ?m = "unat (enc_len level dl)"
  show "h = take ?a h @ take ?m (drop ?a h) @ drop (nat (hl + dl)) h"
    by (metis append_take_drop_id drop_drop add.commute pl(1))
  show "length (take ?a h) = ?a" "length (take ?m (drop ?a h)) = ?m" using pl(1) assms(4) by simp_all
qed


definition secured_example :: "u8 list" where
  "secured_example = [9, 236, 7, 205, 171, 8, 7, 6, 5, 4, 3, 2, 1, 8, 7, 6, 5, 4, 3, 2, 9, 109, 2, 0x00, 0x3f, 0x00, 0xf8] @ replicate 16 0"


end
