(* ===== verification/TschPacket.thy ===== *)
theory TschPacket
  imports TschSecurity Framer TschState
begin

text \<open>
  The frames that TSCH itself builds, \<^verbatim>\<open>os/net/mac/tsch/tsch-packet.c\<close> with link-layer security compiled in: enhanced
  acknowledgements and enhanced beacons.

  The global variables these functions read (PAN identifier, node address, whether the PAN is secured, slot number, join priority) are
  arguments. \<open>junk\<close> is the structure on the stack of \<open>tsch_packet_create_eack\<close>, which the function does not clear. The configuration
  switches of acknowledgements and beacons are arguments too. The parsers return 0 on failure, here \<open>Failed\<close>: no caller uses the
  structures then.
\<close>

section \<open>Acknowledgements\<close>

type_synonym attrs = "packetbuf_attr_type \<Rightarrow> u16"

abbreviation (input) TSCH_SECURITY_KEY_SEC_LEVEL_ACK :: u16 where "TSCH_SECURITY_KEY_SEC_LEVEL_ACK \<equiv> 5"
abbreviation (input) TSCH_SECURITY_KEY_INDEX_ACK :: u16 where "TSCH_SECURITY_KEY_INDEX_ACK \<equiv> 2"
abbreviation (input) TSCH_SECURITY_KEY_SEC_LEVEL_EB :: u16 where "TSCH_SECURITY_KEY_SEC_LEVEL_EB \<equiv> 1"
abbreviation (input) TSCH_SECURITY_KEY_INDEX_EB :: u16 where "TSCH_SECURITY_KEY_INDEX_EB \<equiv> 1"
abbreviation (input) FRAME802154_1_BYTE_KEY_ID_MODE :: u16 where "FRAME802154_1_BYTE_KEY_ID_MODE \<equiv> 1"

definition tsch_packet_eackbuf_set_attr :: "packetbuf_attr_type \<Rightarrow> u16 \<Rightarrow> attrs \<Rightarrow> attrs" where
  "tsch_packet_eackbuf_set_attr type val eackbuf_attrs = eackbuf_attrs(type := val)"

definition tsch_packet_eackbuf_attr :: "attrs \<Rightarrow> packetbuf_attr_type \<Rightarrow> u16" where
  "tsch_packet_eackbuf_attr eackbuf_attrs type = eackbuf_attrs type"

text \<open>The attributes of an acknowledgement; the old values are cleared.\<close>

definition eack_attrs :: "bool \<Rightarrow> bool \<Rightarrow> bool \<Rightarrow> linkaddr option \<Rightarrow> u8 \<Rightarrow> attrs" where
  "eack_attrs with_dest with_src secured dest seqno =
     (let set = tsch_packet_eackbuf_set_attr;
          a = set PACKETBUF_ATTR_MAC_SEQNO (ucast seqno)
                (set PACKETBUF_ATTR_MAC_METADATA 1 (set PACKETBUF_ATTR_FRAME_TYPE (ucast FRAME802154_ACKFRAME) (\<lambda>_. 0)));
          b = set PACKETBUF_ATTR_MAC_NO_DEST_ADDR 1 a;
          c = (if with_dest \<and> dest \<noteq> None then set PACKETBUF_ATTR_MAC_NO_DEST_ADDR 0 b else b);
          d = set PACKETBUF_ATTR_MAC_NO_SRC_ADDR 1 c;
          e = (if with_src then set PACKETBUF_ATTR_MAC_NO_SRC_ADDR 0 d else d)
      in if secured
         then set PACKETBUF_ATTR_KEY_INDEX TSCH_SECURITY_KEY_INDEX_ACK
                (set PACKETBUF_ATTR_KEY_ID_MODE FRAME802154_1_BYTE_KEY_ID_MODE
                  (set PACKETBUF_ATTR_SECURITY_LEVEL TSCH_SECURITY_KEY_SEC_LEVEL_ACK e))
         else e)"

definition eack_params :: "bool \<Rightarrow> bool \<Rightarrow> bool \<Rightarrow> u16 \<Rightarrow> linkaddr \<Rightarrow> frame802154_t \<Rightarrow> linkaddr option \<Rightarrow> u8 \<Rightarrow> frame802154_t" where
  "eack_params with_dest with_src secured pan node junk dest seqno =
     (let p1 = (case dest of Some a \<Rightarrow> if with_dest then junk\<lparr>dest_addr := linkaddr_copy (dest_addr junk) a\<rparr> else junk | None \<Rightarrow> junk);
          p2 = (if with_src then p1\<lparr>src_addr := linkaddr_copy (src_addr p1) node\<rparr> else p1)
      in framer_802154_setup_params pan (tsch_packet_eackbuf_attr (eack_attrs with_dest with_src secured dest seqno)) False p2)"

text \<open>The result is the length or -1, the attribute array and the memory from \<open>buf\<close> on. \<open>drift\<close> is an \<open>int16_t\<close>.\<close>

definition tsch_packet_create_eack ::
    "bool \<Rightarrow> bool \<Rightarrow> bool \<Rightarrow> u16 \<Rightarrow> linkaddr \<Rightarrow> frame802154_t \<Rightarrow> u8 list option \<Rightarrow> u16 \<Rightarrow> linkaddr option \<Rightarrow> u8 \<Rightarrow> u16 \<Rightarrow> int \<Rightarrow> attrs \<Rightarrow>
     (int \<times> attrs \<times> u8 list option) outcome" where
  "tsch_packet_create_eack with_dest with_src secured pan node junk buf buf_len dest seqno drift nack attrs =
     (case buf of None \<Rightarrow> Done (-1, attrs, None)
      | Some mem \<Rightarrow>
          (let attrs' = eack_attrs with_dest with_src secured dest seqno;
               (hdr_len, params) = frame802154_hdrlen (eack_params with_dest with_src secured pan node junk dest seqno);
               ies = ies_zero\<lparr>ie_time_correction := drift, ie_is_nack := word_of_int nack\<rparr>
           in obind (mem_write 0 (replicate (unat buf_len) 0) mem) (\<lambda>mem1.
              case frame80215e_create_ie_header_ack_nack_time_correction hdr_len (uint buf_len - int hdr_len) (Some ies) mem1 of
                Fault \<Rightarrow> Fault
              | Failed \<Rightarrow> Done (-1, attrs', Some mem1)
              | Done (ack_len, mem2) \<Rightarrow>
                  obind (frame802154_create params 0 mem2) (\<lambda>(_, _, mem3). Done (ack_len + int hdr_len, attrs', Some mem3)))))"

definition tsch_packet_parse_eack ::
    "u16 \<Rightarrow> linkaddr \<Rightarrow> u8 list \<Rightarrow> int \<Rightarrow> u8 \<Rightarrow> frame802154_t option \<Rightarrow> ieee802154_ies option \<Rightarrow> u8 option \<Rightarrow>
     (int \<times> frame802154_t \<times> ieee802154_ies option \<times> u8 option) outcome" where
  "tsch_packet_parse_eack pan node buf buf_size seqno frame ies hdr_len =
     (case frame of None \<Rightarrow> Failed
      | Some junk \<Rightarrow>
          if buf_size < 0 then Failed
          else obind (frame802154_parse buf buf_size junk) (\<lambda>(ret, f).
            if ret < 3 then Failed
            else
              (let curr_len = of_nat ret :: u8;
                   hdr_len1 = map_option (\<lambda>_. of_nat ret) hdr_len;
                   (ok, _, dest) = frame802154_extract_linkaddr (Some f) [] []
               in if seqno \<noteq> seq f then Failed
                  else if \<not> frame802154_check_dest_panid pan (Some f) then Failed
                  else if ok = 0 \<or> \<not> linkaddr_cmp dest node \<and> \<not> linkaddr_cmp dest linkaddr_null then Failed
                  else
                    (let ies1 = map_option (\<lambda>_. ies_zero) ies in
                     obind (if ie_list_present (fcf f) \<noteq> 0 then
                              (let mic_len = int (tsch_security_mic_len (Some f)) in
                               if buf_size < uint curr_len + mic_len then Failed
                               else obind (frame802154e_parse_information_elements (drop (unat curr_len) buf)
                                      (word_of_int (buf_size - uint curr_len - mic_len)) ies1) (\<lambda>(ret2, i).
                                    Done (curr_len + word_of_int ret2, Some i)))
                            else Done (curr_len, ies1)) (\<lambda>(curr_len2, ies2).
                     case (hdr_len1, ies2) of
                       (None, _) \<Rightarrow> Done (uint curr_len2, f, ies2, None)
                     | (Some h, None) \<Rightarrow> Fault
                     | (Some h, Some i) \<Rightarrow> Done (uint curr_len2, f, ies2, Some (h + ie_payload_ie_offset i)))))))"

section \<open>Beacons\<close>

text \<open>Which optional elements a beacon has. The code that fills them in is compiled only if the switch equals
  \<open>TSCH_PACKET_IE_INLINE\<close>; no file defines that macro or \<open>TSCH_PACKET_IE_ELIDED\<close>, so that both are 0 and an element is
  either left out (switch 0) or sent with identifier 0 (switch above 0). The list termination of the payload elements is left
  out for the same reason.\<close>

record eb_conf =
  eb_with_timeslot_timing :: nat
  eb_with_hopping_sequence :: nat
  eb_with_slotframe_and_link :: nat

type_synonym ie_writer = "nat \<Rightarrow> int \<Rightarrow> ieee802154_ies option \<Rightarrow> u8 list \<Rightarrow> (int \<times> u8 list) outcome"

text \<open>One element is written at \<open>p\<close> and the data length grows; a failed writer ends \<open>tsch_packet_create_eb\<close> with -1, here \<open>Failed\<close>.\<close>

definition eb_put :: "ie_writer \<Rightarrow> ieee802154_ies \<Rightarrow> nat \<times> packetbuf \<Rightarrow> (nat \<times> packetbuf) outcome" where
  "eb_put w ies st =
     (let (p, pb) = st in
      obind (w p (uint (packetbuf_remaininglen pb)) (Some ies) (pb_data pb)) (\<lambda>(ie_len, m).
      Done (p + nat ie_len, packetbuf_set_datalen (packetbuf_datalen pb + word_of_int ie_len) (pb\<lparr>pb_data := m\<rparr>))))"

definition eb_elements :: "eb_conf \<Rightarrow> packetbuf \<Rightarrow> packetbuf outcome" where
  "eb_elements conf pb0 =
     (let pb = packetbuf_clear pb0; ies = ies_zero in
      obind (eb_put frame80215e_create_ie_tsch_synchronization ies (packetbuf_dataptr pb, pb)) (\<lambda>s1.
      obind (if eb_with_timeslot_timing conf > 0 then eb_put frame80215e_create_ie_tsch_timeslot ies s1 else Done s1) (\<lambda>s2.
      obind (if eb_with_hopping_sequence conf > 0 then eb_put frame80215e_create_ie_tsch_channel_hopping_sequence ies s2
             else Done s2) (\<lambda>s3.
      obind (if eb_with_slotframe_and_link conf > 0 then eb_put frame80215e_create_ie_tsch_slotframe_and_link ies s3
             else Done s3) (\<lambda>(_, pb'). Done pb')))))"

text \<open>The elements move behind the header of their MLME element, and the termination of the header elements goes in front.\<close>

definition eb_wrap :: "packetbuf \<Rightarrow> packetbuf outcome" where
  "eb_wrap pb =
     (let ies = ies_zero\<lparr>ie_mlme_len := packetbuf_datalen pb\<rparr>; d = packetbuf_dataptr pb in
      obind (mem_read d (unat (packetbuf_datalen pb)) (pb_data pb)) (\<lambda>bs.
      obind (mem_write (d + 2) bs (pb_data pb)) (\<lambda>m1.
        let pb1 = packetbuf_set_datalen (packetbuf_datalen pb + 2) (pb\<lparr>pb_data := m1\<rparr>) in
        obind (frame80215e_create_ie_mlme d (uint (packetbuf_remaininglen pb1)) (Some ies) m1) (\<lambda>(_, m2).
          let (_, pb2) = packetbuf_hdralloc 2 (pb1\<lparr>pb_data := m2\<rparr>) in
          obind (frame80215e_create_ie_header_list_termination_1 (packetbuf_hdrptr pb2) (uint (packetbuf_remaininglen pb2))
                   (Some ies) (pb_data pb2)) (\<lambda>(_, m3).
          Done (pb2\<lparr>pb_data := m3\<rparr>))))))"

definition eb_set_attrs :: "bool \<Rightarrow> linkaddr \<Rightarrow> packetbuf \<Rightarrow> packetbuf" where
  "eb_set_attrs secured node pb =
     (let p1 = packetbuf_set_attr PACKETBUF_ATTR_MAC_METADATA 1
                 (packetbuf_set_attr PACKETBUF_ATTR_FRAME_TYPE (ucast FRAME802154_BEACONFRAME) pb);
          p2 = packetbuf_set_addr PACKETBUF_ADDR_RECEIVER tsch_eb_address (packetbuf_set_addr PACKETBUF_ADDR_SENDER node p1)
      in if secured
         then packetbuf_set_attr PACKETBUF_ATTR_KEY_INDEX TSCH_SECURITY_KEY_INDEX_EB
                (packetbuf_set_attr PACKETBUF_ATTR_KEY_ID_MODE FRAME802154_1_BYTE_KEY_ID_MODE
                  (packetbuf_set_attr PACKETBUF_ATTR_SECURITY_LEVEL TSCH_SECURITY_KEY_SEC_LEVEL_EB p2))
         else p2)"

text \<open>The result is the total length, the header length and the offset of the synchronization element, stored through the two
  pointers if they are not NULL, and the packet buffer.\<close>

definition tsch_packet_create_eb :: "eb_conf \<Rightarrow> bool \<Rightarrow> u16 \<Rightarrow> linkaddr \<Rightarrow> packetbuf \<Rightarrow> (int \<times> u8 \<times> u8 \<times> packetbuf) outcome" where
  "tsch_packet_create_eb conf secured pan node pb0 =
     obind (eb_elements conf pb0) (\<lambda>pb1.
     obind (eb_wrap pb1) (\<lambda>pb2.
     obind (framer_create pan (eb_set_attrs secured node pb2)) (\<lambda>(n, pb3).
     if n < 0 then Failed
     else Done (uint (packetbuf_totlen pb3), packetbuf_hdrlen pb3, packetbuf_hdrlen pb3 + 2, pb3))))"

text \<open>The other fields of the structure on the stack are not read.\<close>

definition tsch_packet_update_eb :: "tsch_asn_t \<Rightarrow> u8 \<Rightarrow> u8 list \<Rightarrow> int \<Rightarrow> u8 \<Rightarrow> (bool \<times> u8 list) outcome" where
  "tsch_packet_update_eb tsch_current_asn tsch_join_priority buf buf_size off =
     (let ies = ies_zero\<lparr>ie_asn := tsch_current_asn, ie_join_priority := tsch_join_priority\<rparr> in
      case frame80215e_create_ie_tsch_synchronization (unat off) (buf_size - uint off) (Some ies) buf of
        Fault \<Rightarrow> Fault
      | Failed \<Rightarrow> Done (False, buf)
      | Done (_, buf') \<Rightarrow> Done (True, buf'))"

definition tsch_packet_parse_eb ::
    "u8 list \<Rightarrow> int \<Rightarrow> frame802154_t option \<Rightarrow> ieee802154_ies option \<Rightarrow> u8 option \<Rightarrow> bool \<Rightarrow>
     (int \<times> frame802154_t \<times> ieee802154_ies option \<times> u8 option) outcome" where
  "tsch_packet_parse_eb buf buf_size frame ies hdr_len frame_without_mic =
     (case frame of None \<Rightarrow> Failed
      | Some junk \<Rightarrow>
          if buf_size < 0 then Failed
          else obind (frame802154_parse buf buf_size junk) (\<lambda>(ret, f).
            if ret = 0 then Failed
            else if frame_version (fcf f) < FRAME802154_IEEE802154_2015 \<or> frame_type (fcf f) \<noteq> FRAME802154_BEACONFRAME then Failed
            else
              (let curr_len = of_nat ret :: u8;
                   hdr_len1 = map_option (\<lambda>_. of_nat ret) hdr_len;
                   ies1 = map_option (\<lambda>_. ies_zero\<lparr>ie_join_priority := 0xff\<rparr>) ies
               in obind (if ie_list_present (fcf f) \<noteq> 0 then
                           (let mic_len = (if frame_without_mic then 0 else int (tsch_security_mic_len (Some f))) in
                            if \<not> frame_without_mic \<and> buf_size < uint curr_len + mic_len then Failed
                            else obind (frame802154e_parse_information_elements (drop (unat curr_len) buf)
                                   (word_of_int (buf_size - uint curr_len - mic_len)) ies1) (\<lambda>(ret2, i).
                                 Done (curr_len + word_of_int ret2, Some i)))
                         else Done (curr_len, ies1)) (\<lambda>(curr_len2, ies2).
                  case (hdr_len1, ies2) of
                    (None, _) \<Rightarrow> Done (uint curr_len2, f, ies2, None)
                  | (Some h, None) \<Rightarrow> Fault
                  | (Some h, Some i) \<Rightarrow> Done (uint curr_len2, f, ies2, Some (h + ie_payload_ie_offset i))))))"

section \<open>The frame pending bit\<close>

definition tsch_packet_set_frame_pending :: "u8 list \<Rightarrow> u8 list outcome" where
  "tsch_packet_set_frame_pending buf = obind (mem_read 0 1 buf) (\<lambda>b. mem_write 0 [b ! 0 OR push_bit 4 1] buf)"

definition tsch_packet_get_frame_pending :: "u8 list \<Rightarrow> u8 outcome" where
  "tsch_packet_get_frame_pending buf = obind (mem_read 0 1 buf) (\<lambda>b. Done (drop_bit 4 (b ! 0) AND 1))"

end
