(* ===== verification/TschPacketProps.thy ===== *)
theory TschPacketProps
  imports TschPacket FramerProps SixpLife
begin

text \<open>
  Acknowledgements and beacons as the receiver sees them: what \<open>tsch_packet_create_eack\<close> and \<open>tsch_packet_create_eb\<close> build is read
  back by the parsers of another node.
\<close>

section \<open>Acknowledgements\<close>

abbreviation eack_has_dest :: "bool \<Rightarrow> linkaddr option \<Rightarrow> bool" where
  "eack_has_dest with_dest dest \<equiv> with_dest \<and> dest \<noteq> None"

lemma eack_fcf:
  "fcf (eack_params with_dest with_src secured pan node junk dest seqno) =
     \<lparr>frame_type = 2, security_enabled = (if secured then 1 else security_enabled (fcf junk)), frame_pending = 0, ack_required = 0,
      panid_compression = 0, sequence_number_suppression = 0, ie_list_present = 1,
      dest_addr_mode = (if eack_has_dest with_dest dest then 3 else 0), frame_version = 2, src_addr_mode = (if with_src then 3 else 0)\<rparr>"
  by (cases dest)
    (simp_all add: eack_params_def eack_attrs_def framer_802154_setup_params_def setup_fcf_def tsch_packet_eackbuf_attr_def
      tsch_packet_eackbuf_set_attr_def LINKADDR_SIZE_def Let_def frame802154_fcf_t.splits)

lemma ucast_u8_u16 [simp]: "ucast (ucast (w :: u8) :: u16) = w"
  by (rule bit_word_eqI) (auto simp: bit_simps)

lemma eack_fields:
  fixes with_dest with_src secured pan node junk dest seqno
  defines "p \<equiv> eack_params with_dest with_src secured pan node junk dest seqno"
  shows "seq p = seqno" "src_pid p = pan" "dest_pid p = pan"
    "security_control (aux_hdr p) = \<lparr>security_level = (if secured then 5 else 0), key_id_mode = (if secured then 1 else 0),
       frame_counter_suppression = 1, frame_counter_size = 1\<rparr>"
    "key_index (aux_hdr p) = (if secured then 2 else 0)" "frame_counter (aux_hdr p) = frame_counter (aux_hdr junk)"
    "key_source (aux_hdr p) = key_source (aux_hdr junk)"
    "dest_addr p = (case dest of Some a \<Rightarrow> if with_dest then linkaddr_copy [] a else dest_addr junk | None \<Rightarrow> dest_addr junk)"
    "src_addr p = (if with_src then linkaddr_copy [] node else src_addr junk)"
  by (auto simp: p_def eack_params_def eack_attrs_def framer_802154_setup_params_def tsch_packet_eackbuf_attr_def
      tsch_packet_eackbuf_set_attr_def linkaddr_copy_def Let_def split: option.splits)

definition stack_frame :: "frame802154_t \<Rightarrow> bool" where
  "stack_frame f \<longleftrightarrow> length (dest_addr f) = 8 \<and> length (src_addr f) = 8 \<and> length (frame_counter (aux_hdr f)) = 4 \<and>
     length (key_source (aux_hdr f)) = 8"

definition eack_ok :: "bool \<Rightarrow> bool \<Rightarrow> linkaddr \<Rightarrow> frame802154_t \<Rightarrow> linkaddr option \<Rightarrow> bool" where
  "eack_ok secured with_dest node junk dest \<longleftrightarrow> stack_frame junk \<and> (secured \<or> security_enabled (fcf junk) = 0) \<and> is_linkaddr node \<and>
     (\<forall>a. dest = Some a \<longrightarrow> is_linkaddr a)"

lemma eack_params_ok:
  fixes with_src pan seqno
  assumes "eack_ok secured with_dest node junk dest"
  defines "p \<equiv> eack_params with_dest with_src secured pan node junk dest seqno"
  shows "frame_ok p" "\<not> skips_byte p" "\<not> pan_without_addr p" "\<exists>l. field_len p = (p, l)"
proof -
  have "length (dest_addr p) = 8" "length (src_addr p) = 8"
    using assms by (auto simp: eack_ok_def stack_frame_def eack_fields is_linkaddr_def linkaddr_copy_def LINKADDR_SIZE_def split: option.splits)
  then show "frame_ok p"
    using assms by (auto simp: frame_ok_def p_def eack_fields eack_fcf fcf_ok_def fcf_sent_def eack_ok_def stack_frame_def)
  show "\<not> skips_byte p" "\<not> pan_without_addr p" "\<exists>l. field_len p = (p, l)"
    by (simp_all add: skips_byte_def pan_without_addr_def p_def eack_fields eack_fcf frame802154_has_panid_def field_len_def
        Let_def split_def)
qed

text \<open>The acknowledgement in memory.\<close>

abbreviation ack_field_of :: "u16 \<Rightarrow> int \<Rightarrow> u16" where
  "ack_field_of drift nack \<equiv> (if nack \<noteq> 0 then (drift AND 0x0fff) OR 0x8000 else drift AND 0x0fff)"

abbreviation eack_bytes :: "frame802154_t \<Rightarrow> u16 \<Rightarrow> int \<Rightarrow> u8 list" where
  "eack_bytes p drift nack \<equiv> hdr_bytes p @ write16 0x0f02 @ write16 (ack_field_of drift nack)"

lemma has_at_drop: "has_at mem off b \<Longrightarrow> has_at (drop off mem) 0 b"
  by (simp add: has_at_def)

lemma put_at_0_append:
  assumes "length a + length b \<le> length m"
  shows "has_at (put_at 0 a (put_at (length a) b m)) 0 (a @ b)"
  using assms by (simp add: has_at_def put_at_def)

lemma create_eack_eq:
  fixes with_src pan seqno
  assumes ok: "eack_ok secured with_dest node junk dest" and nack: "nack = 0 \<or> nack = 1"
  defines "p \<equiv> eack_params with_dest with_src secured pan node junk dest seqno"
  assumes len: "length (hdr_bytes p) + 4 \<le> unat buf_len" "unat buf_len \<le> length mem"
  shows "\<exists>mem'. tsch_packet_create_eack with_dest with_src secured pan node junk (Some mem) buf_len dest seqno drift nack attrs =
      Done (int (length (hdr_bytes p) + 4), eack_attrs with_dest with_src secured dest seqno, Some mem') \<and>
    has_at mem' 0 (eack_bytes p drift nack)"
proof -
  note pok = eack_params_ok [OF ok, of with_src pan seqno, folded p_def]
  obtain l where l: "field_len p = (p, l)" using pok(4) by blast
  have hl: "frame802154_hdrlen p = (length (hdr_bytes p), p)"
    using hdr_length [OF pok(1) l pok(2)] by (simp add: frame802154_hdrlen_def l)
  let ?i = "ies_zero\<lparr>ie_time_correction := drift, ie_is_nack := word_of_int nack\<rparr>"
  let ?b = "write16 0x0f02 @ write16 (ack_field_of drift nack)"
  define z where "z = put_at 0 (replicate (unat buf_len) 0) mem"
  have z: "mem_write 0 (replicate (unat buf_len) 0) mem = Done z" "length z = length mem"
    using len by (simp_all add: z_def mem_write_put_at)
  have w: "frame80215e_create_ie_header_ack_nack_time_correction (length (hdr_bytes p)) (uint buf_len - int (length (hdr_bytes p))) (Some ?i) z =
      Done (4, put_at (length (hdr_bytes p)) ?b z)"
  proof (rule create_ack)
    show "4 \<le> uint buf_len - int (length (hdr_bytes p))" using len(1) uint_nat [of buf_len] by linarith
    show "length (hdr_bytes p) + 4 \<le> length z" using len z(2) by simp
    show "ack_field_of drift nack = (if ie_is_nack ?i \<noteq> 0 then ie_time_correction ?i AND 0xFFF OR 0x8000 else ie_time_correction ?i AND 0xFFF)"
      using nack by auto
  qed
  have c: "frame802154_create p 0 (put_at (length (hdr_bytes p)) ?b z) =
      Done (length (hdr_bytes p), p, put_at 0 (hdr_bytes p) (put_at (length (hdr_bytes p)) ?b z))"
    by (rule create_eq [OF pok(1) l pok(2)]) (use len z(2) in simp)
  have "has_at (put_at 0 (hdr_bytes p) (put_at (length (hdr_bytes p)) ?b z)) 0 (hdr_bytes p @ ?b)"
    by (rule put_at_0_append) (use len z(2) in simp)
  then show ?thesis
    unfolding tsch_packet_create_eack_def option.case Let_def p_def [symmetric] hl z(1) prod.case obind.simps w outcome.case c
    by simp
qed

lemma eack_hdr_length:
  assumes ok: "eack_ok secured with_dest node junk dest"
  shows "length (hdr_bytes (eack_params with_dest with_src secured pan node junk dest seqno)) =
    3 + (if eack_has_dest with_dest dest then 10 else 0) + (if with_src then if eack_has_dest with_dest dest then 8 else 10 else 0) +
    (if secured then 2 else 0)"
  using ok
  by (auto simp: hdr_bytes_def frame802154_has_panid_def eack_fcf eack_fields fcf_bytes_def addr_len_def aux_bytes_def eack_ok_def
      stack_frame_def is_linkaddr_def linkaddr_copy_def LINKADDR_SIZE_def Let_def split: option.splits)

lemma ack_parse:
  assumes "has_at mem 0 (write16 0x0f02 @ write16 f)"
  shows "frame802154e_parse_information_elements mem 4 (Some i0) =
    Done (4, i0\<lparr>ie_payload_ie_offset := 4, ie_is_nack := (if f AND 0x8000 \<noteq> 0 then 1 else 0),
      ie_time_correction := (if f AND 0x0800 \<noteq> 0 then f OR 0xf000 else f AND 0x0fff)\<rparr>)"
  using ie_loop_run_step [OF _ ack_iteration [of mem "\<lparr>il_off = 0, il_size = 4, il_state = PARSING_HEADER_IE, il_nested = 0,
      il_ies = i0\<lparr>ie_payload_ie_offset := 0\<rparr>\<rparr>" f]] assms
  by (simp add: frame802154e_parse_information_elements_def ie_loop_run.simps [of "\<lparr>il_off = 4, il_size = 0, il_state = _, il_nested = _, il_ies = _\<rparr>"])

lemma extract_both:
  assumes "extract_addr (dest_addr_mode (fcf f)) (dest_addr f) = Some d" "extract_addr (src_addr_mode (fcf f)) (src_addr f) = Some s"
  shows "frame802154_extract_linkaddr (Some f) x y = (1, s, d)"
  using assms by (simp add: frame802154_extract_linkaddr_def)

text \<open>A receiver of the frame sees these header fields.\<close>

lemma eack_received:
  fixes with_src pan seqno len junk'
  assumes ok: "eack_ok secured with_dest node junk dest"
  defines "p \<equiv> eack_params with_dest with_src secured pan node junk dest seqno"
  defines "f \<equiv> received p len junk'"
  shows "fcf f = fcf p" "seq f = seqno" "frame802154_check_dest_panid pan (Some f)"
    "tsch_security_mic_len (Some f) = (if secured then 4 else 0)"
    "\<exists>s. frame802154_extract_linkaddr (Some f) [] [] =
       (1, s, if with_dest \<and> dest \<noteq> None \<and> the dest \<noteq> replicate 8 0xff then the dest else linkaddr_null)"
proof -
  note [simp] = f_def p_def received_def Let_def split_def
  show "fcf f = fcf p" by simp
  show "seq f = seqno" by (simp add: eack_fcf eack_fields)
  show "frame802154_check_dest_panid pan (Some f)"
    by (simp add: frame802154_check_dest_panid_def eack_fcf eack_fields frame802154_has_panid_def)
  show "tsch_security_mic_len (Some f) = (if secured then 4 else 0)"
    using ok by (auto simp: tsch_security_mic_len_def eack_fcf eack_fields recv_aux_def eack_ok_def)
  have s: "\<exists>s. extract_addr (src_addr_mode (fcf f)) (src_addr f) = Some s"
    by (simp add: extract_addr_def eack_fcf LINKADDR_SIZE_def)
  have "extract_addr (dest_addr_mode (fcf f)) (dest_addr f) =
      Some (if with_dest \<and> dest \<noteq> None \<and> the dest \<noteq> replicate 8 0xff then the dest else linkaddr_null)"
    using ok all_ff_8
    by (auto simp: extract_addr_def eack_fcf eack_fields recv_addr_def frame802154_is_broadcast_addr_def eack_ok_def is_linkaddr_def
        linkaddr_copy_def LINKADDR_SIZE_def linkaddr_null_def)
  then show "\<exists>s. frame802154_extract_linkaddr (Some f) [] [] =
       (1, s, if with_dest \<and> dest \<noteq> None \<and> the dest \<noteq> replicate 8 0xff then the dest else linkaddr_null)"
    using s by (blast intro: extract_both)
qed

lemma parse_eack_eq:
  fixes with_src pan seqno len junk'
  assumes ok: "eack_ok secured with_dest node junk dest" and junk': "length (key_source (aux_hdr junk')) = 8"
  defines "p \<equiv> eack_params with_dest with_src secured pan node junk dest seqno"
  defines "n \<equiv> length (hdr_bytes p)" and "ml \<equiv> (if secured then 4 else 0) :: nat"
  assumes at: "has_at r 0 (hdr_bytes p @ write16 0x0f02 @ write16 a)" and drift: "- 2048 \<le> sint drift" "sint drift < 2048"
    and a: "a = ack_field_of drift nack"
  defines "f \<equiv> received p (int (n + 4 + ml)) junk'"
  shows "tsch_packet_parse_eack pan me r (int (n + 4 + ml)) seqno' (Some junk') (Some i0) (Some h0) =
    (if seqno' = seqno \<and> (eack_has_dest with_dest dest \<longrightarrow> the dest = replicate 8 0xff \<or> linkaddr_cmp (the dest) me \<or> the dest = linkaddr_null)
     then Done (int (n + 4), f, Some (ies_zero\<lparr>ie_payload_ie_offset := 4, ie_is_nack := (if nack \<noteq> 0 then 1 else 0),
            ie_time_correction := drift\<rparr>), Some (of_nat (n + 4)))
     else Failed)"
proof -
  note pok = eack_params_ok [OF ok, of with_src pan seqno, folded p_def]
  note rec = eack_received [OF ok, where with_src = with_src and pan = pan and seqno = seqno and len = "int (n + 4 + ml)" and junk' = junk', folded p_def, folded f_def]
  have n: "3 \<le> n" "n \<le> 23" using eack_hdr_length [OF ok, of with_src pan seqno] by (auto simp: n_def p_def)
  have parse: "frame802154_parse r (int (n + 4 + ml)) junk' = Done (n, f)"
    unfolding f_def n_def by (rule parse_eq [OF pok(1-3) _ _ junk']) (use at in \<open>simp_all add: has_at_append\<close>)
  obtain s where ex: "frame802154_extract_linkaddr (Some f) [] [] =
      (1, s, if with_dest \<and> dest \<noteq> None \<and> the dest \<noteq> replicate 8 0xff then the dest else linkaddr_null)" using rec(5) by blast
  have un: "unat (of_nat n :: u8) = n" "uint (of_nat n :: u8) = int n" using n by (simp_all add: unat_of_nat uint_nat)
  have "has_at (drop n r) 0 (write16 0x0f02 @ write16 a)" using at has_at_append [of r 0 "hdr_bytes p"] by (auto simp: n_def intro: has_at_drop)
  note ies = ack_parse [OF this, of ies_zero] and af = ack_field [OF drift, of "nack \<noteq> 0"]
  have size: "(word_of_int (int (n + 4 + ml) - int n - int ml) :: u8) = 4" by simp
  have ielist: "ie_list_present (fcf f) \<noteq> 0" using rec(1) by (simp add: p_def eack_fcf)
  have mic: "tsch_security_mic_len (Some f) = ml" using rec(4) by (simp add: ml_def)
  have fin: "uint (of_nat n + 4 :: u8) = int n + 4"
    using n by (simp add: uint_nat unat_word_ariths unat_of_nat)
  let ?d = "if with_dest \<and> dest \<noteq> None \<and> the dest \<noteq> replicate 8 0xff then the dest else linkaddr_null"
  have d: "(\<not> linkaddr_cmp ?d me \<and> \<not> linkaddr_cmp ?d linkaddr_null) \<longleftrightarrow>
      \<not> (eack_has_dest with_dest dest \<longrightarrow> the dest = replicate 8 0xff \<or> linkaddr_cmp (the dest) me \<or> the dest = linkaddr_null)"
    using ok by (auto simp: eack_ok_def)
  have room: "\<not> int (n + 4 + ml) < int n + int ml" and ret: "\<not> n < 3" and nonneg: "\<not> int (n + 4 + ml) < 0" using n by simp_all
  show ?thesis
    unfolding tsch_packet_parse_eack_def option.case parse obind.simps prod.case Let_def ex rec(2) un mic size option.map ies
      if_not_P [OF nonneg] if_not_P [OF ret] if_not_P [OF room] if_P [OF ielist] d
    using rec(3) fin af unfolding a by simp
qed

text \<open>C19. The acknowledgement of a frame is understood by its sender, in every configuration of the addresses and of security: it gives back
  the NACK flag and the time correction (between -2048 and 2047 microseconds), and the acknowledged node takes it exactly for the sequence
  number it was made for and, if it names a destination other than the broadcast and the null address, only if that is its own address.
  In a PAN without security this holds if the uninitialised flag
  \<open>security_enabled\<close> on the stack of the sender happens to be 0.\<close>

theorem eack_roundtrip:
  fixes with_dest with_src secured pan node junk dest seqno
  defines "p \<equiv> eack_params with_dest with_src secured pan node junk dest seqno"
  assumes ok: "eack_ok secured with_dest node junk dest" and nack: "nack = 0 \<or> nack = 1"
    and drift: "- 2048 \<le> sint drift" "sint drift < 2048"
    and len: "27 \<le> unat buf_len" "unat buf_len \<le> length mem" and junk': "length (key_source (aux_hdr junk')) = 8"
  shows "\<exists>n mem' f. tsch_packet_create_eack with_dest with_src secured pan node junk (Some mem) buf_len dest seqno drift nack attrs =
      Done (int n, eack_attrs with_dest with_src secured dest seqno, Some mem') \<and> frame_type (fcf f) = 2 \<and>
    (\<forall>r me seqno' i0 h0. take n r = take n mem' \<longrightarrow> tsch_packet_parse_eack pan me r (int (n + tsch_security_mic_len (Some f))) seqno'
        (Some junk') (Some i0) (Some h0) =
      (if seqno' = seqno \<and> (with_dest \<and> dest \<noteq> None \<longrightarrow>
            the dest = replicate 8 0xff \<or> linkaddr_cmp (the dest) me \<or> the dest = linkaddr_null)
       then Done (int n, f, Some (ies_zero\<lparr>ie_payload_ie_offset := 4, ie_is_nack := word_of_int nack, ie_time_correction := drift\<rparr>),
              Some (of_nat n))
       else Failed))"
proof -
  let ?n = "length (hdr_bytes p)"
  have n: "?n \<le> 23" using eack_hdr_length [OF ok, of with_src pan seqno] by (simp add: p_def)
  obtain mem' where c: "tsch_packet_create_eack with_dest with_src secured pan node junk (Some mem) buf_len dest seqno drift nack attrs =
      Done (int (?n + 4), eack_attrs with_dest with_src secured dest seqno, Some mem')" "has_at mem' 0 (eack_bytes p drift nack)"
    using create_eack_eq [OF ok nack, of with_src pan seqno buf_len mem drift attrs] n len unfolding p_def by auto
  let ?f = "received p (int (?n + 4 + (if secured then 4 else 0))) junk'"
  note rec = eack_received [OF ok, where with_src = with_src and pan = pan and seqno = seqno and len = "int (?n + 4 + (if secured then 4 else 0))" and junk' = junk', folded p_def]
  have ack: "word_of_int nack = (if nack \<noteq> 0 then 1 else 0 :: u8)" using nack by auto
  have at: "has_at r 0 (eack_bytes p drift nack)" if "take (?n + 4) r = take (?n + 4) mem'" for r
    using c(2) that by (simp add: has_at_def)
  show ?thesis
    using c(1) rec(1,4) parse_eack_eq [OF ok junk' at [unfolded p_def] drift refl, of _ "_ :: linkaddr", folded p_def]
    by (intro exI [of _ "?n + 4"] exI [of _ mem'] exI [of _ ?f]) (auto simp: p_def eack_fcf ack)
qed

theorem eack_roundtrip_witness:
  "\<exists>n mem' f. tsch_packet_create_eack True False True 0xabcd addr_b frame802154_zero (Some (replicate 127 0)) 127 (Some addr_a) 7 (-150) 1 (\<lambda>_. 0) =
      Done (int n, eack_attrs True False True (Some addr_a) 7, Some mem') \<and>
    tsch_packet_parse_eack 0xabcd addr_a mem' (int (n + tsch_security_mic_len (Some f))) 7 (Some frame802154_zero) (Some ies_zero) (Some 0) =
      Done (int n, f, Some (ies_zero\<lparr>ie_payload_ie_offset := 4, ie_is_nack := 1, ie_time_correction := -150\<rparr>), Some (of_nat n)) \<and>
    tsch_packet_parse_eack 0xabcd addr_a mem' (int (n + tsch_security_mic_len (Some f))) 8 (Some frame802154_zero) (Some ies_zero) (Some 0) = Failed"
proof -
  have "eack_ok True True addr_b frame802154_zero (Some addr_a)"
    by (simp add: eack_ok_def stack_frame_def frame802154_zero_def is_linkaddr_def LINKADDR_SIZE_def addr_a_def addr_b_def)
  moreover have "- 2048 \<le> sint (- 150 :: u16)" "sint (- 150 :: u16) < 2048" by code_simp+
  ultimately obtain n mem' f where c: "tsch_packet_create_eack True False True 0xabcd addr_b frame802154_zero (Some (replicate 127 0)) 127
      (Some addr_a) 7 (-150) 1 (\<lambda>_. 0) = Done (int n, eack_attrs True False True (Some addr_a) 7, Some mem')"
    and p: "\<forall>r me seqno' i0 h0. take n r = take n mem' \<longrightarrow> tsch_packet_parse_eack 0xabcd me r (int (n + tsch_security_mic_len (Some f))) seqno'
        (Some frame802154_zero) (Some i0) (Some h0) =
      (if seqno' = 7 \<and> (True \<and> Some addr_a \<noteq> None \<longrightarrow>
            the (Some addr_a) = replicate 8 0xff \<or> linkaddr_cmp (the (Some addr_a)) me \<or> the (Some addr_a) = linkaddr_null)
       then Done (int n, f, Some (ies_zero\<lparr>ie_payload_ie_offset := 4, ie_is_nack := word_of_int 1, ie_time_correction := -150\<rparr>),
              Some (of_nat n))
       else Failed)"
    using eack_roundtrip [where with_dest = True and with_src = False and secured = True and node = addr_b and junk = frame802154_zero
        and dest = "Some addr_a" and nack = 1 and drift = "-150" and buf_len = 127 and mem = "replicate 127 0" and junk' = frame802154_zero
        and pan = "0xabcd" and seqno = 7 and attrs = "\<lambda>_. 0"]
    by (auto simp: frame802154_zero_def)
  show ?thesis
    by (intro exI [of _ n] exI [of _ mem'] exI [of _ f] conjI) (simp_all only: c p [rule_format, OF refl], simp_all)
qed

end
