(* ===== verification/TschBeacon.thy ===== *)
theory TschBeacon
  imports TschPacketProps
begin

text \<open>
  Enhanced beacons from the node that builds them to the node that reads them: the elements in the packet buffer, the frame around
  them, the update of the slot number just before the transmission, and the parser.
\<close>

section \<open>The elements\<close>

text \<open>A cleared packet buffer with the bytes \<open>bs\<close> as data.\<close>

definition eb_holds :: "packetbuf \<Rightarrow> u8 list \<Rightarrow> bool" where
  "eb_holds pb bs \<longleftrightarrow> length (pb_data pb) = PACKETBUF_SIZE \<and> hdrlen pb = 0 \<and> bufptr pb = 0 \<and> unat (buflen pb) = length bs \<and>
     length bs \<le> PACKETBUF_SIZE \<and> take (length bs) (pb_data pb) = bs \<and> packetbuf_attrs pb = (\<lambda>_. 0) \<and>
     packetbuf_addrs pb = (\<lambda>_. linkaddr_null)"

lemma eb_holds_len:
  assumes "eb_holds pb bs"
  shows "packetbuf_dataptr pb = 0" "uint (packetbuf_remaininglen pb) = 128 - int (length bs)" "pb_inv pb"
proof -
  show i: "pb_inv pb" using assms by (simp add: eb_holds_def pb_inv_def)
  show "packetbuf_dataptr pb = 0" using assms by (simp add: eb_holds_def packetbuf_dataptr_def packetbuf_hdrlen_def)
  have "unat (packetbuf_totlen pb) = length bs" using unat_packetbuf_totlen [OF i] assms by (simp add: eb_holds_def)
  then have "unat (packetbuf_remaininglen pb) = 128 - length bs"
    using assms by (simp add: packetbuf_remaininglen_def unat_sub word_le_nat_alt PACKETBUF_SIZE_def eb_holds_def)
  then show "uint (packetbuf_remaininglen pb) = 128 - int (length bs)"
    using assms by (simp add: uint_nat eb_holds_def PACKETBUF_SIZE_def of_nat_diff)
qed

text \<open>A writer of the beacon writes the bytes \<open>e\<close>, and possibly some more behind them.\<close>

definition eb_writer :: "ie_writer \<Rightarrow> u8 list \<Rightarrow> bool" where
  "eb_writer w e \<longleftrightarrow> length e \<le> 8 \<and> (\<forall>buf len mem. buf + 20 \<le> length mem \<longrightarrow> 20 \<le> len \<longrightarrow>
     (\<exists>x. length x \<le> 11 \<and> w buf len (Some ies_zero) mem = Done (int (length e), put_at buf (e @ x) mem)))"

lemma put_at_before:
  "off + length a + length b \<le> length m \<Longrightarrow> put_at off a (put_at (off + length a) b m) = put_at off (a @ b) m"
  by (simp add: put_at_def add.assoc)

lemma hopping_0_written:
  assumes "buf + 20 \<le> length mem" "20 \<le> len"
  shows "frame80215e_create_ie_tsch_channel_hopping_sequence buf len (Some ies_zero) mem =
    Done (3, put_at buf ((write16 0xc801 @ [0]) @ replicate 11 0) mem)"
proof -
  let ?z = "[0, 0] @ write16 0 @ write16 0 @ write16 0 @ write16 0 :: u8 list"
  have w: "write16 0 = [0, 0]" by (simp add: write16_def)
  have d: "create_mlme_long_ie_descriptor buf 9 1 m = mem_write buf (write16 0xc801) m" for m
    by (simp add: create_mlme_long_ie_descriptor_def)
  have m1: "mem_write (buf + 2) ?z mem = Done (put_at (buf + 2) ?z mem)" using assms by (intro mem_write_put_at) simp
  have m2: "mem_write (buf + 12) [] (put_at (buf + 2) ?z mem) = Done (put_at (buf + 2) ?z mem)"
    using assms by (intro mem_write_Nil) simp
  have m3: "mem_write (buf + 12) (write16 0) (put_at (buf + 2) ?z mem) = Done (put_at (buf + 2) (?z @ write16 0) mem)"
  proof -
    have "put_at (buf + 12) (write16 0) (put_at (buf + 2) ?z mem) = put_at (buf + 2) (?z @ write16 0) mem"
      using put_at_put_at [of "buf + 2" ?z "write16 0" mem] assms by (simp add: numeral_eq_Suc)
    then show ?thesis using assms by (simp add: mem_write_put_at)
  qed
  have m4: "mem_write buf (write16 0xc801) (put_at (buf + 2) (?z @ write16 0) mem) = Done (put_at buf (write16 0xc801 @ ?z @ write16 0) mem)"
    using assms put_at_before [of buf "write16 0xc801" "?z @ write16 0" mem] by (simp add: mem_write_put_at)
  have r: "(write16 0xc801 @ [0]) @ replicate 11 0 = write16 0xc801 @ ?z @ write16 0" by (simp add: w numeral_eq_Suc)
  have i: "ie_hopping_sequence_len ies_zero = 0" "ie_channel_hopping_sequence_id ies_zero = 0" by (simp_all add: ies_zero_def)
  show ?thesis
    using assms(2) m1 m2 m3 m4 d unfolding r
    by (simp add: frame80215e_create_ie_tsch_channel_hopping_sequence_def i ie_written_def mem_read_def w)
qed

lemma eb_writers:
  "eb_writer frame80215e_create_ie_tsch_synchronization (enc_sync ies_zero)"
  "eb_writer frame80215e_create_ie_tsch_timeslot (write16 0x1c01 @ [0])"
  "eb_writer frame80215e_create_ie_tsch_channel_hopping_sequence (write16 0xc801 @ [0])"
  "eb_writer frame80215e_create_ie_tsch_slotframe_and_link (write16 0x1b01 @ [0])"
proof -
  have wf: "ies_wf ies_zero" by (simp add: ies_wf_def ies_zero_def tsch_ts_elements_count_def FRAME802154E_IE_MAX_LINKS_def TSCH_HOPPING_SEQUENCE_MAX_LEN_def)
  have e: "enc_timeslot ies_zero = write16 0x1c01 @ [0]" "enc_links ies_zero = write16 0x1b01 @ [0]" "length (enc_sync ies_zero) = 8"
    by (simp_all add: enc_timeslot_def enc_links_def enc_sync_def ies_zero_def)
  show "eb_writer frame80215e_create_ie_tsch_synchronization (enc_sync ies_zero)"
    using create_sync e(3) by (auto simp: eb_writer_def intro!: exI [of _ "[]"])
  show "eb_writer frame80215e_create_ie_tsch_timeslot (write16 0x1c01 @ [0])"
    using create_timeslot [OF wf, unfolded e(1)] by (auto simp: eb_writer_def intro!: exI [of _ "[]"])
  show "eb_writer frame80215e_create_ie_tsch_slotframe_and_link (write16 0x1b01 @ [0])"
    using create_links [OF wf, unfolded e(2)] by (auto simp: eb_writer_def ies_zero_def intro!: exI [of _ "[]"])
  have "frame80215e_create_ie_tsch_channel_hopping_sequence buf len (Some ies_zero) mem =
      Done (3, put_at buf ((write16 0xc801 @ [0]) @ replicate 11 0) mem)" if "buf + 20 \<le> length mem" "20 \<le> len" for buf len mem
    using that by (rule hopping_0_written)
  then show "eb_writer frame80215e_create_ie_tsch_channel_hopping_sequence (write16 0xc801 @ [0])"
    by (auto simp: eb_writer_def simp del: append_assoc intro!: exI [of _ "replicate 11 0"])
qed

lemma eb_put_ok:
  assumes h: "eb_holds pb bs" and w: "eb_writer w e" and l: "length bs \<le> 100"
  shows "\<exists>pb'. eb_put w ies_zero (length bs, pb) = Done (length (bs @ e), pb') \<and> eb_holds pb' (bs @ e)"
proof -
  have "length bs + 20 \<le> length (pb_data pb)" "20 \<le> 128 - int (length bs)" using h l by (simp_all add: eb_holds_def PACKETBUF_SIZE_def)
  then obtain x where x: "length x \<le> 11" "w (length bs) (128 - int (length bs)) (Some ies_zero) (pb_data pb) =
      Done (int (length e), put_at (length bs) (e @ x) (pb_data pb))" and e: "length e \<le> 8" using w unfolding eb_writer_def by blast
  let ?m = "put_at (length bs) (e @ x) (pb_data pb)"
  let ?pb = "packetbuf_set_datalen (packetbuf_datalen pb + word_of_int (int (length e))) (pb\<lparr>pb_data := ?m\<rparr>)"
  have "take (length bs + length e) ?m = bs @ e" "length ?m = 128"
    using h l x(1) e by (simp_all add: put_at_def eb_holds_def PACKETBUF_SIZE_def)
  moreover have "unat (buflen pb + of_nat (length e)) = length bs + length e"
    using h l e by (simp add: eb_holds_def unat_word_ariths unat_of_nat)
  ultimately have "eb_holds ?pb (bs @ e)"
    using h l e by (simp add: eb_holds_def PACKETBUF_SIZE_def packetbuf_set_datalen_def packetbuf_datalen_def)
  then show ?thesis using x(2) by (simp add: eb_put_def eb_holds_len(2) [OF h])
qed

lemma eb_opt_ok:
  assumes "eb_holds pb bs" "eb_writer w e" "length bs \<le> 100"
  shows "\<exists>pb'. (if c > 0 then eb_put w ies_zero (length bs, pb) else Done (length bs, pb)) =
      Done (length (bs @ (if c > 0 then e else [])), pb') \<and> eb_holds pb' (bs @ (if c > (0 :: nat) then e else []))"
  using eb_put_ok [OF assms] assms(1) by auto

text \<open>The elements of a beacon with their meaning for the parser.\<close>

definition eb_pieces :: "eb_conf \<Rightarrow> tsch_asn_t \<Rightarrow> u8 \<Rightarrow> (u8 list \<times> (ieee802154_ies \<Rightarrow> ieee802154_ies)) list" where
  "eb_pieces conf asn jp =
     [(enc_sync (ies_zero\<lparr>ie_asn := asn, ie_join_priority := jp\<rparr>), \<lambda>x. x\<lparr>ie_asn := asn, ie_join_priority := jp\<rparr>)] @
     (if eb_with_timeslot_timing conf > 0 then [(write16 0x1c01 @ [0], \<lambda>x. x\<lparr>ie_tsch_timeslot_id := 0\<rparr>)] else []) @
     (if eb_with_hopping_sequence conf > 0 then [(write16 0xc801 @ [0], \<lambda>x. x\<lparr>ie_channel_hopping_sequence_id := 0\<rparr>)] else []) @
     (if eb_with_slotframe_and_link conf > 0 then [(write16 0x1b01 @ [0], \<lambda>x. x)] else [])"

abbreviation eb_bytes :: "eb_conf \<Rightarrow> tsch_asn_t \<Rightarrow> u8 \<Rightarrow> u8 list" where
  "eb_bytes conf asn jp \<equiv> concat (map fst (eb_pieces conf asn jp))"

lemma eb_bytes_split: "\<exists>rest. (\<forall>asn jp. eb_bytes conf asn jp = enc_sync (ies_zero\<lparr>ie_asn := asn, ie_join_priority := jp\<rparr>) @ rest) \<and> length rest \<le> 9"
  unfolding eb_pieces_def by (rule exI [of _ "(if eb_with_timeslot_timing conf > 0 then write16 0x1c01 @ [0] else []) @
      (if eb_with_hopping_sequence conf > 0 then write16 0xc801 @ [0] else []) @
      (if eb_with_slotframe_and_link conf > 0 then write16 0x1b01 @ [0] else [])"]) auto

lemma eb_elements_ok:
  assumes "length (pb_data pb0) = PACKETBUF_SIZE"
  shows "\<exists>pb. eb_elements conf pb0 = Done pb \<and> eb_holds pb (eb_bytes conf \<lparr>ls4b = 0, ms1b = 0\<rparr> 0)"
proof -
  let ?e1 = "enc_sync ies_zero"
  define e2 where "e2 = (if eb_with_timeslot_timing conf > 0 then write16 0x1c01 @ [0] else [] :: u8 list)"
  define e3 where "e3 = (if eb_with_hopping_sequence conf > 0 then write16 0xc801 @ [0] else [] :: u8 list)"
  define e4 where "e4 = (if eb_with_slotframe_and_link conf > 0 then write16 0x1b01 @ [0] else [] :: u8 list)"
  have le: "length e2 \<le> 3" "length e3 \<le> 3" by (simp_all add: e2_def e3_def)
  have h0: "eb_holds (packetbuf_clear pb0) []" using assms by (simp add: eb_holds_def packetbuf_clear_def packetbuf_attr_clear_def)
  have l1: "length ?e1 = 8" by (simp add: enc_sync_def)
  obtain p1 where p1: "eb_put frame80215e_create_ie_tsch_synchronization ies_zero (0, packetbuf_clear pb0) = Done (length ?e1, p1)"
    "eb_holds p1 ?e1" using eb_put_ok [OF h0 eb_writers(1)] by auto
  obtain p2 where p2: "(if eb_with_timeslot_timing conf > 0 then eb_put frame80215e_create_ie_tsch_timeslot ies_zero (length ?e1, p1)
      else Done (length ?e1, p1)) = Done (length (?e1 @ e2), p2)" "eb_holds p2 (?e1 @ e2)"
    using eb_opt_ok [OF p1(2) eb_writers(2), of "eb_with_timeslot_timing conf", folded e2_def] l1 by auto
  obtain p3 where p3: "(if eb_with_hopping_sequence conf > 0 then eb_put frame80215e_create_ie_tsch_channel_hopping_sequence ies_zero
      (length (?e1 @ e2), p2) else Done (length (?e1 @ e2), p2)) = Done (length (?e1 @ e2 @ e3), p3)" "eb_holds p3 (?e1 @ e2 @ e3)"
    using eb_opt_ok [OF p2(2) eb_writers(3), of "eb_with_hopping_sequence conf", folded e3_def] l1 le by auto
  obtain p4 where p4: "(if eb_with_slotframe_and_link conf > 0 then eb_put frame80215e_create_ie_tsch_slotframe_and_link ies_zero
      (length (?e1 @ e2 @ e3), p3) else Done (length (?e1 @ e2 @ e3), p3)) = Done (length (?e1 @ e2 @ e3 @ e4), p4)"
    "eb_holds p4 (?e1 @ e2 @ e3 @ e4)"
    using eb_opt_ok [OF p3(2) eb_writers(4), of "eb_with_slotframe_and_link conf", folded e4_def] l1 le by auto
  have "eb_elements conf pb0 = Done p4"
    unfolding eb_elements_def Let_def eb_holds_len(1) [OF h0] p1(1) obind.simps p2(1) p3(1) p4(1) prod.case by simp
  moreover have "ies_zero\<lparr>ie_asn := \<lparr>ls4b = 0, ms1b = 0\<rparr>, ie_join_priority := 0\<rparr> = ies_zero" by (simp add: ies_zero_def)
  then have "eb_bytes conf \<lparr>ls4b = 0, ms1b = 0\<rparr> 0 = ?e1 @ e2 @ e3 @ e4" by (simp add: eb_pieces_def e2_def e3_def e4_def)
  ultimately show ?thesis using p4(2) by metis
qed

section \<open>The frame\<close>

abbreviation mlme_desc :: "nat \<Rightarrow> u16" where "mlme_desc n \<equiv> of_nat (34816 + n)"

lemma mlme_written:
  assumes "n < 2048" "buf + 2 \<le> length mem" "2 \<le> len" "unat (ie_mlme_len i) = n"
  shows "frame80215e_create_ie_mlme buf len (Some i) mem = Done (2, put_at buf (write16 (mlme_desc n)) mem)"
proof -
  obtain d where d: "create_payload_ie_descriptor buf PAYLOAD_IE_MLME (int n) mem = mem_write buf (write16 d) mem"
    "unat d = 32768 + 2048 * unat PAYLOAD_IE_MLME + n" using payload_descriptor [OF assms(1), of PAYLOAD_IE_MLME buf mem] by auto
  have "unat (mlme_desc n) = 34816 + n" using assms(1) by (simp add: unat_of_nat del: of_nat_add)
  then have "d = mlme_desc n" using d(2) by (simp add: word_unat_eq_iff)
  then show ?thesis
    using assms(2-4) d(1) by (simp add: frame80215e_create_ie_mlme_def ie_written_def mem_write_put_at uint_nat)
qed

lemma hdralloc_attrs:
  "packetbuf_attrs (snd (packetbuf_hdralloc k p)) = packetbuf_attrs p" "packetbuf_addrs (snd (packetbuf_hdralloc k p)) = packetbuf_addrs p"
  by (simp_all add: packetbuf_hdralloc_def)

abbreviation eb_payload :: "u8 list \<Rightarrow> u8 list" where
  "eb_payload bs \<equiv> write16 0x3f00 @ write16 (mlme_desc (length bs)) @ bs"

lemma eb_wrap_ok:
  assumes h: "eb_holds pb bs" and l: "length bs \<le> 100"
  shows "\<exists>pb'. eb_wrap pb = Done pb' \<and> pb_inv pb' \<and> bufptr pb' = 0 \<and> hdrlen pb' = 2 \<and> unat (buflen pb') = 2 + length bs \<and>
    pb_frame pb' = eb_payload bs \<and> packetbuf_attrs pb' = (\<lambda>_. 0) \<and> packetbuf_addrs pb' = (\<lambda>_. linkaddr_null)"
proof -
  let ?n = "length bs" and ?d = "write16 (mlme_desc (length bs))"
  have data: "length (pb_data pb) = 128" "unat (packetbuf_datalen pb) = ?n" "take ?n (pb_data pb) = bs"
    using h by (simp_all add: eb_holds_def PACKETBUF_SIZE_def packetbuf_datalen_def)
  let ?m1 = "put_at 2 bs (pb_data pb)" let ?m2 = "put_at 0 ?d ?m1"
  let ?pb1 = "packetbuf_set_datalen (packetbuf_datalen pb + 2) (pb\<lparr>pb_data := ?m1\<rparr>)"
  let ?pb2 = "?pb1\<lparr>pb_data := ?m2\<rparr>"
  have rw: "mem_read 0 ?n (pb_data pb) = Done bs" "mem_write 2 bs (pb_data pb) = Done ?m1" "length ?m1 = 128" "length ?m2 = 128"
    using data l by (simp_all add: mem_read_def mem_write_put_at)
  have len2: "unat (packetbuf_datalen pb + 2) = ?n + 2" using data(2) l by (simp add: unat_word_ariths)
  have "?m2 = put_at 0 (?d @ bs) (pb_data pb)" using put_at_before [of 0 ?d bs "pb_data pb"] data(1) l by (simp flip: numeral_2_eq_2)
  then have m2: "take (?n + 2) ?m2 = ?d @ bs" by (simp add: put_at_def)
  have h2: "eb_holds ?pb2 (?d @ bs)" "eb_holds ?pb1 (take (?n + 2) ?m1)"
    using h l rw(3,4) m2 len2 by (simp_all add: eb_holds_def packetbuf_set_datalen_def PACKETBUF_SIZE_def)
  note e1 = eb_holds_len [OF h2(2)] and e2 = eb_holds_len [OF h2(1)]
  have w: "frame80215e_create_ie_mlme 0 (uint (packetbuf_remaininglen ?pb1)) (Some (ies_zero\<lparr>ie_mlme_len := packetbuf_datalen pb\<rparr>)) ?m1 = Done (2, ?m2)"
    using l rw(3) data(2) e1(2) by (intro mlme_written) simp_all
  have tot2: "unat (packetbuf_totlen ?pb2) = ?n + 2" using unat_packetbuf_totlen [OF e2(3)] h2(1) by (simp add: eb_holds_def)
  have room: "2 + unat (packetbuf_totlen ?pb2) \<le> PACKETBUF_SIZE" using tot2 l by (simp add: PACKETBUF_SIZE_def)
  obtain pb3 where pb3: "packetbuf_hdralloc 2 ?pb2 = (1, pb3)" "pb_inv pb3" "unat (hdrlen pb3) = unat (hdrlen ?pb2) + 2" "bufptr pb3 = bufptr ?pb2"
      "buflen pb3 = buflen ?pb2" "take (unat (packetbuf_totlen ?pb2)) (drop 2 (pb_data pb3)) = take (unat (packetbuf_totlen ?pb2)) (pb_data ?pb2)"
    using packetbuf_hdralloc_success [OF e2(3) room] by blast
  have attrs: "packetbuf_attrs pb3 = (\<lambda>_. 0)" "packetbuf_addrs pb3 = (\<lambda>_. linkaddr_null)"
    using hdralloc_attrs [of 2 ?pb2] pb3(1) h2(1) by (simp_all add: eb_holds_def)
  have f: "bufptr pb3 = 0" "unat (hdrlen pb3) = 2" "unat (buflen pb3) = ?n + 2" "length (pb_data pb3) = 128"
    using pb3(2-5) h2(1) by (simp_all add: eb_holds_def pb_inv_def PACKETBUF_SIZE_def)
  have tot3: "unat (packetbuf_totlen pb3) = ?n + 4" using unat_packetbuf_totlen [OF pb3(2)] f by simp
  then have rem: "2 \<le> uint (packetbuf_remaininglen pb3)"
    using l by (simp add: packetbuf_remaininglen_def PACKETBUF_SIZE_def uint_nat unat_sub word_le_nat_alt)
  let ?pb4 = "pb3\<lparr>pb_data := put_at 0 (write16 0x3f00) (pb_data pb3)\<rparr>"
  have t: "frame80215e_create_ie_header_list_termination_1 (packetbuf_hdrptr pb3) (uint (packetbuf_remaininglen pb3))
      (Some (ies_zero\<lparr>ie_mlme_len := packetbuf_datalen pb\<rparr>)) (pb_data pb3) = Done (2, pb_data ?pb4)"
    using create_term_1 [of 0 "pb_data pb3"] f(4) rem by (simp add: packetbuf_hdrptr_def)
  have "eb_wrap pb = Done ?pb4"
    unfolding eb_wrap_def Let_def eb_holds_len(1) [OF h] data(2) rw(1) obind.simps add_0 rw(2) w prod.case pb3(1) t by simp
  moreover have inv4: "pb_inv ?pb4" using pb3(2) f(4) by (simp add: pb_inv_def)
  moreover have "pb_frame ?pb4 = eb_payload bs"
  proof -
    have "unat (packetbuf_totlen ?pb4) = ?n + 4" using unat_packetbuf_totlen [OF inv4] f by simp
    then have "pb_frame ?pb4 = take (?n + 4) (put_at 0 (write16 0x3f00) (pb_data pb3))" using pb_frame_start [OF inv4] f(1) by simp
    also have "\<dots> = write16 0x3f00 @ take (?n + 2) (drop 2 (pb_data pb3))" by (simp add: put_at_def flip: numeral_2_eq_2)
    finally show ?thesis using pb3(6) m2 tot2 by simp
  qed
  moreover have "hdrlen pb3 = 2" using f(2) by (simp add: word_unat_eq_iff)
  ultimately show ?thesis using f(1,3) attrs by (intro exI [of _ ?pb4]) simp
qed

lemma eb_sendable:
  fixes secured
  assumes "pb_inv pb" "bufptr pb = 0" "packetbuf_attrs pb = (\<lambda>_. 0)" "packetbuf_addrs pb = (\<lambda>_. linkaddr_null)"
    and "is_linkaddr node" "pan \<noteq> 0xffff"
  defines "q \<equiv> eb_set_attrs secured node pb"
  shows "sendable pan q" "pb_frame q = pb_frame pb" "hdrlen q = hdrlen pb" "buflen q = buflen pb" "packetbuf_holds_broadcast q"
    "packetbuf_addr PACKETBUF_ADDR_SENDER q = node" "packetbuf_addr PACKETBUF_ADDR_RECEIVER q = linkaddr_null"
    "packetbuf_attr PACKETBUF_ATTR_FRAME_TYPE q = 0" "packetbuf_attr PACKETBUF_ATTR_MAC_METADATA q = 1"
    "packetbuf_attr PACKETBUF_ATTR_SECURITY_LEVEL q = (if secured then 1 else 0)"
    "packetbuf_attr PACKETBUF_ATTR_KEY_ID_MODE q = (if secured then 1 else 0)"
    "packetbuf_attr PACKETBUF_ATTR_KEY_INDEX q = (if secured then 1 else 0)"
proof -
  have n: "linkaddr_null = tsch_eb_address" by (simp add: linkaddr_null_def tsch_eb_address_def)
  note d = q_def eb_set_attrs_def Let_def packetbuf_set_attr_def packetbuf_set_addr_def packetbuf_attr_def packetbuf_addr_def
    pb_frame_def packetbuf_dataptr_def packetbuf_hdrlen_def packetbuf_holds_broadcast_def
  show "pb_frame q = pb_frame pb" "hdrlen q = hdrlen pb" "buflen q = buflen pb" "packetbuf_holds_broadcast q"
    "packetbuf_addr PACKETBUF_ADDR_SENDER q = node" "packetbuf_addr PACKETBUF_ADDR_RECEIVER q = linkaddr_null"
    "packetbuf_attr PACKETBUF_ATTR_FRAME_TYPE q = 0" "packetbuf_attr PACKETBUF_ATTR_MAC_METADATA q = 1"
    "packetbuf_attr PACKETBUF_ATTR_SECURITY_LEVEL q = (if secured then 1 else 0)"
    "packetbuf_attr PACKETBUF_ATTR_KEY_ID_MODE q = (if secured then 1 else 0)"
    "packetbuf_attr PACKETBUF_ATTR_KEY_INDEX q = (if secured then 1 else 0)"
    using assms(3-5) by (simp_all add: d n)
  show "sendable pan q" using assms(1-6) by (simp add: sendable_def d n pb_inv_def)
qed

lemma eb_hdr_length:
  assumes "sendable pan q" "packetbuf_holds_broadcast q" "packetbuf_attr PACKETBUF_ATTR_KEY_ID_MODE q \<in> {0, 1}"
  shows "length (hdr_bytes (framer_params pan q)) = (if packetbuf_attr PACKETBUF_ATTR_SECURITY_LEVEL q = 0 then 14
    else if packetbuf_attr PACKETBUF_ATTR_KEY_ID_MODE q = 0 then 15 else 16)"
proof -
  note m = framer_modes [of q pan] and a = framer_addrs [of q pan]
  have "length (packetbuf_addr PACKETBUF_ADDR_SENDER q) = 8" "length (packetbuf_addr PACKETBUF_ADDR_RECEIVER q) = 8"
    using assms(1) by (simp_all add: sendable_def is_linkaddr_def LINKADDR_SIZE_def)
  then show ?thesis
    using assms m a by (auto simp: sendable_def hdr_bytes_def frame802154_has_panid_def fcf_bytes_def addr_len_def aux_bytes_def Let_def)
qed

lemma create_eb_eq:
  assumes pb0: "length (pb_data pb0) = PACKETBUF_SIZE" and node: "is_linkaddr node" and pan: "pan \<noteq> 0xffff"
  shows "\<exists>q pb. tsch_packet_create_eb conf secured pan node pb0 =
      Done (int (length (pb_frame pb)), of_nat (length (hdr_bytes (framer_params pan q)) + 2),
        of_nat (length (hdr_bytes (framer_params pan q)) + 4), pb) \<and>
    pb_frame pb = hdr_bytes (framer_params pan q) @ eb_payload (eb_bytes conf \<lparr>ls4b = 0, ms1b = 0\<rparr> 0) \<and>
    length (hdr_bytes (framer_params pan q)) = (if secured then 16 else 14) \<and> sendable pan q \<and> packetbuf_holds_broadcast q \<and>
    packetbuf_addr PACKETBUF_ADDR_SENDER q = node \<and> packetbuf_addr PACKETBUF_ADDR_RECEIVER q = linkaddr_null \<and>
    packetbuf_attr PACKETBUF_ATTR_FRAME_TYPE q = 0 \<and> packetbuf_attr PACKETBUF_ATTR_MAC_METADATA q = 1 \<and>
    packetbuf_attr PACKETBUF_ATTR_SECURITY_LEVEL q = (if secured then 1 else 0) \<and>
    packetbuf_attr PACKETBUF_ATTR_KEY_ID_MODE q = (if secured then 1 else 0) \<and>
    packetbuf_attr PACKETBUF_ATTR_KEY_INDEX q = (if secured then 1 else 0) \<and> pb_inv pb"
proof -
  let ?bs = "eb_bytes conf \<lparr>ls4b = 0, ms1b = 0\<rparr> 0"
  have bs: "length ?bs \<le> 17" using eb_bytes_split [of conf] by (auto simp: enc_sync_def simp del: length_concat)
  obtain p1 where p1: "eb_elements conf pb0 = Done p1" "eb_holds p1 ?bs" using eb_elements_ok [OF pb0] by blast
  obtain p2 where p2: "eb_wrap p1 = Done p2" "pb_inv p2" "bufptr p2 = 0" "hdrlen p2 = 2" "unat (buflen p2) = 2 + length ?bs"
    "pb_frame p2 = eb_payload ?bs" "packetbuf_attrs p2 = (\<lambda>_. 0)" "packetbuf_addrs p2 = (\<lambda>_. linkaddr_null)"
    using eb_wrap_ok [OF p1(2)] bs by (auto simp del: length_concat)
  let ?q = "eb_set_attrs secured node p2"
  note q = eb_sendable [OF p2(2,3,7,8) node pan, of secured]
  let ?H = "length (hdr_bytes (framer_params pan ?q))"
  have H: "?H = (if secured then 16 else 14)" using eb_hdr_length [OF q(1,5)] q(10,11) by auto
  obtain l where fl: "field_len (framer_params pan ?q) = (framer_params pan ?q, l)" using framer_field_len by blast
  have "fst (frame802154_hdrlen (framer_params pan ?q)) = ?H" using hdr_length [OF framer_params_ok(1) [OF q(1)] fl framer_params_ok(2) [OF q(1)]] .
  moreover have "?H + length (pb_frame ?q) \<le> PACKETBUF_SIZE" using H bs by (simp add: q(2) p2(6) PACKETBUF_SIZE_def del: length_concat)
  ultimately obtain p3 where p3: "framer_create pan ?q = Done (int ?H, p3)" "pb_inv p3"
    "pb_frame p3 = hdr_bytes (framer_params pan ?q) @ pb_frame ?q" "bufptr p3 = 0" "buflen p3 = buflen ?q" "unat (hdrlen p3) = unat (hdrlen ?q) + ?H"
    using framer_create_eq [OF q(1)] by auto
  have u: "unat (packetbuf_hdrlen p3) = ?H + 2" "unat (packetbuf_totlen p3) = length (pb_frame p3)"
    using unat_packetbuf_hdrlen [OF p3(2)] unat_packetbuf_totlen [OF p3(2)] p3(3-6) q(2-4) p2(4-6) by (simp_all del: length_concat)
  then have "packetbuf_hdrlen p3 = of_nat (?H + 2)" using H by (simp add: word_unat_eq_iff unat_of_nat)
  moreover have "(of_nat (?H + 2) :: u8) + 2 = of_nat (?H + 4)" by simp
  moreover have "uint (packetbuf_totlen p3) = int (length (pb_frame p3))" using u(2) by (simp add: uint_nat del: length_concat)
  ultimately have "tsch_packet_create_eb conf secured pan node pb0 = Done (int (length (pb_frame p3)), of_nat (?H + 2), of_nat (?H + 4), p3)"
    unfolding tsch_packet_create_eb_def p1(1) p2(1) p3(1) obind.simps prod.case by simp
  then show ?thesis using p3(2,3) q p2(6) H by (intro exI [of _ ?q] exI [of _ p3]) simp
qed

section \<open>Updating and reading\<close>

lemma update_eb_eq:
  assumes at: "has_at mem 0 (pre @ enc_sync x @ rest)" and off: "unat off = length pre" and sz: "int (length pre + 8) \<le> sz"
  shows "\<exists>mem'. tsch_packet_update_eb asn jp mem sz off = Done (True, mem') \<and> length mem' = length mem \<and>
    has_at mem' 0 (pre @ enc_sync (ies_zero\<lparr>ie_asn := asn, ie_join_priority := jp\<rparr>) @ rest)"
proof -
  let ?i = "ies_zero\<lparr>ie_asn := asn, ie_join_priority := jp\<rparr>"
  have l: "length (enc_sync y) = 8" for y by (simp add: enc_sync_def)
  have m: "mem = pre @ enc_sync x @ rest @ drop (length pre + 8 + length rest) mem"
    using at append_take_drop_id [of "length (pre @ enc_sync x @ rest)" mem] by (simp add: has_at_def l add.assoc)
  have len: "length pre + 8 \<le> length mem" "length pre + 8 + length rest \<le> length mem" using has_at_length [OF at] by (simp_all add: l)
  have "put_at (length pre) (enc_sync ?i) mem = pre @ enc_sync ?i @ rest @ drop (length pre + 8 + length rest) mem"
    by (subst m) (simp add: put_at_def l)
  moreover have "frame80215e_create_ie_tsch_synchronization (unat off) (sz - uint off) (Some ?i) mem = Done (8, put_at (length pre) (enc_sync ?i) mem)"
    using create_sync [of "unat off" mem "sz - uint off" ?i] off len sz by (simp add: uint_nat)
  ultimately show ?thesis
    using len l by (intro exI [of _ "put_at (length pre) (enc_sync ?i) mem"]) (simp add: tsch_packet_update_eb_def has_at_def)
qed

text \<open>The parser reads the number of links, four bytes behind an element without slotframes.\<close>

lemma sub_ie_links_0: "sub_ie_slack 4 (write16 0x1b01 @ [0]) (\<lambda>x. x)"
  unfolding sub_ie_slack_def
proof (intro conjI allI impI)
  fix s :: ie_loop and mem
  assume h: "has_at mem (il_off s) (write16 0x1b01 @ [0])" and k: "il_off s + length (write16 0x1b01 @ [0] :: u8 list) + 4 \<le> length mem"
    and sz: "length (write16 0x1b01 @ [0] :: u8 list) \<le> unat (il_size s)" and st: "il_state s = PARSING_MLME_SUBIE"
    and n: "int (length (write16 0x1b01 @ [0] :: u8 list)) \<le> il_nested s"
  have r: "read16_at (il_off s) mem = Done 0x1b01" using h read16_at_write16 [of mem "il_off s" "0x1b01"] by (simp add: has_at_append)
  have "has_at mem (il_off s + 2) [0]" using h by (simp add: has_at_append)
  then have b0: "mem_read (il_off s + 2) 1 mem = Done [0]" using mem_read_at [of mem "il_off s + 2" "[0]" _ 0 1] by simp
  obtain b where b4: "mem_read (il_off s + 2 + 4) 1 mem = Done b" using k by (simp add: mem_read_def)
  have sz2: "\<not> il_size s < 2" "unat (il_size s - 2) = unat (il_size s) - 2"
    using sz by (simp_all add: word_less_nat_alt unat_sub word_le_nat_alt)
  have p: "frame802154e_parse_mlme_short_ie (il_off s + 2) 1 0x1b i mem = Done i" for i
    using b0 b4 by (simp add: frame802154e_parse_mlme_short_ie_def parse_slotframe_and_link_def)
  show "ie_iteration s mem = Done (Continue (s\<lparr>il_off := il_off s + length (write16 0x1b01 @ [0] :: u8 list),
       il_size := il_size s - of_nat (length (write16 0x1b01 @ [0] :: u8 list)),
       il_nested := il_nested s - int (length (write16 0x1b01 @ [0] :: u8 list)),
       il_state := (if il_nested s = int (length (write16 0x1b01 @ [0] :: u8 list)) then PARSING_PAYLOAD_IE else PARSING_MLME_SUBIE),
       il_ies := il_ies s\<rparr>))"
    using r p sz sz2 st n by (cases s) (auto simp: ie_iteration_def ie_mlme_step_def ie_advance_def)
qed simp_all

lemma eb_pieces_parse: "list_all (\<lambda>(b, f). sub_ie_slack 4 b f) (eb_pieces conf asn jp)"
proof -
  let ?i = "ies_zero\<lparr>ie_asn := asn, ie_join_priority := jp\<rparr>"
  have wf: "ies_wf ies_zero" by (simp add: ies_wf_def ies_zero_def tsch_ts_elements_count_def FRAME802154E_IE_MAX_LINKS_def TSCH_HOPPING_SEQUENCE_MAX_LEN_def)
  have s1: "sub_ie_slack 4 (enc_sync ?i) (\<lambda>x. x\<lparr>ie_asn := asn, ie_join_priority := jp\<rparr>)"
    using sub_ie_slack_mono [OF elem_sub_ie [of "Sync ?i"]] by simp
  have s2: "sub_ie_slack 4 (write16 0x1c01 @ [0]) (\<lambda>x. x\<lparr>ie_tsch_timeslot_id := 0\<rparr>)"
    using sub_ie_slack_mono [OF elem_sub_ie [of "Timeslot ies_zero"]] wf by (simp add: enc_timeslot_def ies_zero_def)
  have s3: "sub_ie_slack 4 (write16 0xc801 @ [0]) (\<lambda>x. x\<lparr>ie_channel_hopping_sequence_id := 0\<rparr>)"
    by (rule sub_ie_slack_mono) (auto intro!: sub_ie_longI [where ident = 9] simp: ies_wf_def frame802154e_parse_mlme_long_ie_def mem_read_at [where k = 0])
  show ?thesis using s1 s2 s3 sub_ie_links_0 by (simp add: eb_pieces_def)
qed

lemma eb_received:
  fixes pan q len junk
  defines "f \<equiv> received (framer_params pan q) len junk"
  assumes q: "sendable pan q" "packetbuf_holds_broadcast q" "packetbuf_addr PACKETBUF_ADDR_RECEIVER q = linkaddr_null"
    and a: "packetbuf_attr PACKETBUF_ATTR_FRAME_TYPE q = 0" "packetbuf_attr PACKETBUF_ATTR_MAC_METADATA q = 1"
      "packetbuf_attr PACKETBUF_ATTR_SECURITY_LEVEL q = (if secured then 1 else 0)"
      "packetbuf_attr PACKETBUF_ATTR_KEY_ID_MODE q = (if secured then 1 else 0)"
      "packetbuf_attr PACKETBUF_ATTR_KEY_INDEX q = (if secured then 1 else 0)"
  shows "frame_version (fcf f) = 2" "frame_type (fcf f) = 0" "ie_list_present (fcf f) = 1"
    "security_enabled (fcf f) = (if secured then 1 else 0)" "tsch_security_mic_len (Some f) = (if secured then 4 else 0)"
    "src_addr f = packetbuf_addr PACKETBUF_ADDR_SENDER q" "src_addr_mode (fcf f) = 3" "dest_pid f = pan"
    "secured \<Longrightarrow> security_level (security_control (aux_hdr f)) = 1 \<and> key_index (aux_hdr f) = 1"
proof -
  have "packetbuf_addr PACKETBUF_ADDR_RECEIVER q \<noteq> replicate 8 0xff" using q(3) by (simp add: linkaddr_null_def LINKADDR_SIZE_def)
  note r = framer_received [OF q(1) this, of len junk, folded f_def]
  have f: "fcf f = fcf (framer_params pan q)" by (simp add: f_def received_def Let_def split_def)
  have no: "packetbuf_attr PACKETBUF_ATTR_MAC_NO_SRC_ADDR q \<noteq> 1" "packetbuf_attr PACKETBUF_ATTR_MAC_NO_DEST_ADDR q \<noteq> 1"
    using q(1) by (simp_all add: sendable_def)
  note m = framer_modes [OF no, of pan]
  show "frame_version (fcf f) = 2" "frame_type (fcf f) = 0" "security_enabled (fcf f) = (if secured then 1 else 0)" "src_addr_mode (fcf f) = 3"
    "src_addr f = packetbuf_addr PACKETBUF_ADDR_SENDER q" "dest_pid f = pan" using m r a f by simp_all
  show "ie_list_present (fcf f) = 1"
    using a(2) by (simp add: f framer_params_def framer_802154_setup_params_def setup_fcf_def Let_def)
  show "tsch_security_mic_len (Some f) = (if secured then 4 else 0)" using r(9,10) a(3) by (auto simp: tsch_security_mic_len_def)
  show "secured \<Longrightarrow> security_level (security_control (aux_hdr f)) = 1 \<and> key_index (aux_hdr f) = 1" using r(9-12) a(3-5) by auto
qed

lemma parse_eb_eq:
  fixes pan q junk conf asn jp without_mic
  defines "H \<equiv> hdr_bytes (framer_params pan q)" and "bs \<equiv> eb_bytes conf asn jp"
  assumes q: "sendable pan q" "packetbuf_holds_broadcast q" "packetbuf_addr PACKETBUF_ADDR_RECEIVER q = linkaddr_null"
    and a: "packetbuf_attr PACKETBUF_ATTR_FRAME_TYPE q = 0" "packetbuf_attr PACKETBUF_ATTR_MAC_METADATA q = 1"
      "packetbuf_attr PACKETBUF_ATTR_SECURITY_LEVEL q = (if secured then 1 else 0)"
      "packetbuf_attr PACKETBUF_ATTR_KEY_ID_MODE q = (if secured then 1 else 0)"
      "packetbuf_attr PACKETBUF_ATTR_KEY_INDEX q = (if secured then 1 else 0)"
    and H: "length H \<le> 16" and at: "has_at r 0 (H @ eb_payload bs)" and slack: "length H + 4 + length bs + 4 \<le> length r"
    and junk: "length (key_source (aux_hdr junk)) = 8"
  defines "len \<equiv> int (length H + 4 + length bs) + (if without_mic \<or> \<not> secured then 0 else 4)"
  shows "tsch_packet_parse_eb r len (Some junk) (Some i0) (Some h0) without_mic =
    Done (int (length H + 4 + length bs), received (framer_params pan q) len junk,
      Some (ies_zero\<lparr>ie_payload_ie_offset := 2, ie_asn := asn, ie_join_priority := jp\<rparr>), Some (of_nat (length H + 2)))"
proof -
  let ?f = "received (framer_params pan q) len junk" and ?h = "length H"
  note rec = eb_received [OF q a, of len junk]
  have bs: "length bs \<le> 17" unfolding bs_def using eb_bytes_split [of conf] by (auto simp: enc_sync_def simp del: length_concat)
  have parse: "frame802154_parse r len junk = Done (?h, ?f)"
    unfolding H_def by (rule parse_eq [OF framer_params_ok [OF q(1)] _ _ junk]) (use at in \<open>simp_all add: has_at_append len_def H_def del: length_concat\<close>)
  have H2: "2 \<le> ?h" by (simp add: H_def hdr_bytes_def fcf_bytes_def split_def Let_def)
  have un: "unat (of_nat ?h :: u8) = ?h" "uint (of_nat ?h :: u8) = int ?h" using H by (simp_all add: unat_of_nat uint_nat)
  have at2: "has_at (drop ?h r) 0 (eb_payload bs)" using at has_at_append [of r 0 H] by (auto intro: has_at_drop)
  have wf: "ies_wf (ies_zero\<lparr>ie_join_priority := 0xff\<rparr>)"
    by (simp add: ies_wf_def ies_zero_def tsch_ts_elements_count_def FRAME802154E_IE_MAX_LINKS_def TSCH_HOPPING_SEQUENCE_MAX_LEN_def)
  have "unat (mlme_desc (length bs)) = 32768 + 2048 * 1 + length bs" using bs by (simp add: unat_of_nat del: of_nat_add)
  then have ies: "frame802154e_parse_information_elements (drop ?h r) (of_nat (4 + length bs)) (Some (ies_zero\<lparr>ie_join_priority := 0xff\<rparr>)) =
      Done (int (4 + length bs), fold snd (eb_pieces conf asn jp) (ies_zero\<lparr>ie_join_priority := 0xff, ie_payload_ie_offset := 2\<rparr>))"
    using parse_sub_ies [OF eb_pieces_parse wf bs_def [THEN meta_eq_to_obj_eq] _ _ at2] bs slack by (simp del: length_concat)
  have fold: "fold snd (eb_pieces conf asn jp) (ies_zero\<lparr>ie_join_priority := 0xff, ie_payload_ie_offset := 2\<rparr>) =
      ies_zero\<lparr>ie_payload_ie_offset := 2, ie_asn := asn, ie_join_priority := jp\<rparr>"
    by (simp add: eb_pieces_def ies_zero_def)
  let ?mic = "if without_mic then 0 else int (tsch_security_mic_len (Some ?f))"
  have mic: "len - int ?h - ?mic = int (4 + length bs)" "\<not> len < int ?h + ?mic" "\<not> len < 0" using rec(5) by (auto simp: len_def)
  have fin: "uint (of_nat ?h + word_of_int (int (4 + length bs)) :: u8) = int (?h + 4 + length bs)"
    using H bs by (simp add: uint_nat unat_word_ariths unat_of_nat)
  have "tsch_packet_parse_eb r len (Some junk) (Some i0) (Some h0) without_mic =
      Done (uint (of_nat ?h + word_of_int (int (4 + length bs)) :: u8), ?f,
        Some (ies_zero\<lparr>ie_payload_ie_offset := 2, ie_asn := asn, ie_join_priority := jp\<rparr>), Some (of_nat ?h + 2))"
    unfolding tsch_packet_parse_eb_def option.case if_not_P [OF mic(3)] parse obind.simps prod.case Let_def option.map un mic(1) of_int_of_nat_eq ies fold
    using H2 rec(1-3) mic(2) by (auto simp del: of_nat_add)
  then show ?thesis unfolding fin by (simp del: length_concat)
qed

lemma eb_update_parse:
  fixes pan q conf
  defines "H \<equiv> hdr_bytes (framer_params pan q)" and "N \<equiv> length (hdr_bytes (framer_params pan q)) + 4 + length (eb_bytes conf \<lparr>ls4b = 0, ms1b = 0\<rparr> 0)"
  assumes q: "sendable pan q" "packetbuf_holds_broadcast q" "packetbuf_addr PACKETBUF_ADDR_RECEIVER q = linkaddr_null"
    and a: "packetbuf_attr PACKETBUF_ATTR_FRAME_TYPE q = 0" "packetbuf_attr PACKETBUF_ATTR_MAC_METADATA q = 1"
      "packetbuf_attr PACKETBUF_ATTR_SECURITY_LEVEL q = (if secured then 1 else 0)"
      "packetbuf_attr PACKETBUF_ATTR_KEY_ID_MODE q = (if secured then 1 else 0)"
      "packetbuf_attr PACKETBUF_ATTR_KEY_INDEX q = (if secured then 1 else 0)"
    and H: "length H = (if secured then 16 else 14)"
    and mem: "take N mem = H @ eb_payload (eb_bytes conf \<lparr>ls4b = 0, ms1b = 0\<rparr> 0)" "int N \<le> sz"
  shows "\<exists>mem'. tsch_packet_update_eb asn jp mem sz (of_nat (length H + 4)) = Done (True, mem') \<and> length mem' = length mem \<and>
    (\<forall>r without_mic junk i0 h0. take N r = take N mem' \<longrightarrow> N + 4 \<le> length r \<longrightarrow> length (key_source (aux_hdr junk)) = 8 \<longrightarrow>
      (\<exists>f. tsch_packet_parse_eb r (int N + (if without_mic \<or> \<not> secured then 0 else 4)) (Some junk) (Some i0) (Some h0) without_mic =
          Done (int N, f, Some (ies_zero\<lparr>ie_payload_ie_offset := 2, ie_asn := asn, ie_join_priority := jp\<rparr>), Some (of_nat (length H + 2))) \<and>
        src_addr f = packetbuf_addr PACKETBUF_ADDR_SENDER q \<and> dest_pid f = pan \<and> tsch_security_mic_len (Some f) = (if secured then 4 else 0)))"
proof -
  obtain rest where rest: "\<And>asn jp. eb_bytes conf asn jp = enc_sync (ies_zero\<lparr>ie_asn := asn, ie_join_priority := jp\<rparr>) @ rest" "length rest \<le> 9"
    using eb_bytes_split [of conf] by auto
  let ?e = "\<lambda>asn jp. enc_sync (ies_zero\<lparr>ie_asn := asn, ie_join_priority := jp\<rparr>)"
  let ?pre = "H @ write16 0x3f00 @ write16 (mlme_desc (8 + length rest))"
  have l8: "length (?e asn jp) = 8" for asn jp by (simp add: enc_sync_def)
  have bl: "length (eb_bytes conf asn jp) = 8 + length rest" for asn jp by (simp add: rest(1) l8)
  have bytes: "H @ eb_payload (eb_bytes conf asn jp) = ?pre @ ?e asn jp @ rest" for asn jp by (simp add: rest(1) l8 del: of_nat_add)
  have N: "N = length H + 12 + length rest" by (simp add: N_def bl H_def del: length_concat)
  have off: "unat (of_nat (length H + 4) :: u8) = length ?pre" using H by (simp add: unat_of_nat del: of_nat_add)
  have "length (take N mem) = N" using mem(1) by (simp add: bl N del: length_concat)
  then have at0: "has_at mem 0 (?pre @ ?e \<lparr>ls4b = 0, ms1b = 0\<rparr> 0 @ rest)" using mem(1) unfolding bytes by (simp add: has_at_def N l8 add.assoc del: of_nat_add)
  obtain mem' where m': "tsch_packet_update_eb asn jp mem sz (of_nat (length H + 4)) = Done (True, mem')" "length mem' = length mem"
      "has_at mem' 0 (?pre @ ?e asn jp @ rest)" using update_eb_eq [OF at0 off, of sz asn jp] mem(2) N by auto
  have "\<exists>f. tsch_packet_parse_eb r (int N + (if without_mic \<or> \<not> secured then 0 else 4)) (Some junk) (Some i0) (Some h0) without_mic =
          Done (int N, f, Some (ies_zero\<lparr>ie_payload_ie_offset := 2, ie_asn := asn, ie_join_priority := jp\<rparr>), Some (of_nat (length H + 2))) \<and>
        src_addr f = packetbuf_addr PACKETBUF_ADDR_SENDER q \<and> dest_pid f = pan \<and> tsch_security_mic_len (Some f) = (if secured then 4 else 0)"
    if r: "take N r = take N mem'" "N + 4 \<le> length r" "length (key_source (aux_hdr junk)) = 8" for r without_mic junk i0 h0
  proof -
    have "has_at r 0 (H @ eb_payload (eb_bytes conf asn jp))" unfolding bytes using m'(3) r(1) N l8 by (simp add: has_at_def add.assoc del: of_nat_add)
    then show ?thesis
      using parse_eb_eq [OF q a _ _ _ r(3), of r conf asn jp without_mic i0 h0] H r(2) N bl eb_received [OF q a, of _ junk]
      by (simp add: add.assoc H_def del: length_concat)
  qed
  then show ?thesis using m'(1,2) by blast
qed

text \<open>C18. A beacon can always be built, whatever the optional elements, and fits into 37 bytes. When the slot number and the join priority are
  written into it before it is sent, every node that receives it, with or without the message integrity code behind it, reads exactly this slot
  number and join priority, the address of the sender, and the header length that the sender computed; the optional elements carry no information. (The
  parser needs four more bytes of memory behind the beacon.)\<close>

theorem eb_roundtrip:
  assumes pb0: "length (pb_data pb0) = PACKETBUF_SIZE" and node: "is_linkaddr node" and pan: "pan \<noteq> 0xffff"
  shows "\<exists>N h off pb. tsch_packet_create_eb conf secured pan node pb0 = Done (int N, h, off, pb) \<and> length (pb_frame pb) = N \<and> N \<le> 37 \<and>
    (\<forall>mem sz asn jp. take N mem = pb_frame pb \<longrightarrow> int N \<le> sz \<longrightarrow>
      (\<exists>mem'. tsch_packet_update_eb asn jp mem sz off = Done (True, mem') \<and> length mem' = length mem \<and>
        (\<forall>r without_mic junk i0 h0. take N r = take N mem' \<longrightarrow> N + 4 \<le> length r \<longrightarrow> length (key_source (aux_hdr junk)) = 8 \<longrightarrow>
          (\<exists>f. tsch_packet_parse_eb r (int N + (if without_mic \<or> \<not> secured then 0 else 4)) (Some junk) (Some i0) (Some h0) without_mic =
              Done (int N, f, Some (ies_zero\<lparr>ie_payload_ie_offset := 2, ie_asn := asn, ie_join_priority := jp\<rparr>), Some h) \<and>
            src_addr f = node \<and> dest_pid f = pan \<and> tsch_security_mic_len (Some f) = (if secured then 4 else 0)))))"
proof -
  obtain q pb where c: "tsch_packet_create_eb conf secured pan node pb0 =
      Done (int (length (pb_frame pb)), of_nat (length (hdr_bytes (framer_params pan q)) + 2), of_nat (length (hdr_bytes (framer_params pan q)) + 4), pb)"
    and pb: "pb_frame pb = hdr_bytes (framer_params pan q) @ eb_payload (eb_bytes conf \<lparr>ls4b = 0, ms1b = 0\<rparr> 0)"
    and H: "length (hdr_bytes (framer_params pan q)) = (if secured then 16 else 14)"
    and q: "sendable pan q" "packetbuf_holds_broadcast q" "packetbuf_addr PACKETBUF_ADDR_RECEIVER q = linkaddr_null"
      "packetbuf_attr PACKETBUF_ATTR_FRAME_TYPE q = 0" "packetbuf_attr PACKETBUF_ATTR_MAC_METADATA q = 1"
      "packetbuf_attr PACKETBUF_ATTR_SECURITY_LEVEL q = (if secured then 1 else 0)"
      "packetbuf_attr PACKETBUF_ATTR_KEY_ID_MODE q = (if secured then 1 else 0)"
      "packetbuf_attr PACKETBUF_ATTR_KEY_INDEX q = (if secured then 1 else 0)" and s: "packetbuf_addr PACKETBUF_ADDR_SENDER q = node"
    using create_eb_eq [OF assms, of conf secured] by blast
  let ?N = "length (pb_frame pb)" and ?b = "eb_bytes conf \<lparr>ls4b = 0, ms1b = 0\<rparr> 0"
  have N: "?N = length (hdr_bytes (framer_params pan q)) + 4 + length ?b" by (simp add: pb del: length_concat)
  moreover have "length ?b \<le> 17" using eb_bytes_split [of conf] by (auto simp: enc_sync_def simp del: length_concat)
  ultimately have "?N \<le> 37" using H by simp
  then show ?thesis
    using c eb_update_parse [OF q H, of conf] unfolding N [symmetric] pb [symmetric] s
    by (intro exI [of _ ?N] exI [of _ "of_nat (length (hdr_bytes (framer_params pan q)) + 2)"]
        exI [of _ "of_nat (length (hdr_bytes (framer_params pan q)) + 4)"] exI [of _ pb]) blast
qed

theorem eb_roundtrip_witness:
  "\<exists>N h off pb mem' f. tsch_packet_create_eb \<lparr>eb_with_timeslot_timing = 0, eb_with_hopping_sequence = 1, eb_with_slotframe_and_link = 1\<rparr>
      True 0xabcd addr_a pb_zero = Done (int N, h, off, pb) \<and>
    tsch_packet_update_eb \<lparr>ls4b = 0x01020304, ms1b = 5\<rparr> 3 (pb_frame pb @ replicate 4 0) (int N) off = Done (True, mem') \<and>
    tsch_packet_parse_eb mem' (int N + 4) (Some frame802154_zero) (Some ies_zero) (Some 0) False =
      Done (int N, f, Some (ies_zero\<lparr>ie_payload_ie_offset := 2, ie_asn := \<lparr>ls4b = 0x01020304, ms1b = 5\<rparr>, ie_join_priority := 3\<rparr>), Some h) \<and>
    src_addr f = addr_a"
proof -
  have "length (pb_data pb_zero) = PACKETBUF_SIZE" "is_linkaddr addr_a" "(0xabcd :: u16) \<noteq> 0xffff"
    by (simp_all add: pb_zero_def addr_a_def is_linkaddr_def LINKADDR_SIZE_def)
  from eb_roundtrip [OF this, of "\<lparr>eb_with_timeslot_timing = 0, eb_with_hopping_sequence = 1, eb_with_slotframe_and_link = 1\<rparr>" True]
  obtain N h off pb where c: "tsch_packet_create_eb \<lparr>eb_with_timeslot_timing = 0, eb_with_hopping_sequence = 1, eb_with_slotframe_and_link = 1\<rparr>
      True 0xabcd addr_a pb_zero = Done (int N, h, off, pb)" "length (pb_frame pb) = N"
    and u: "\<And>mem sz asn jp. take N mem = pb_frame pb \<Longrightarrow> int N \<le> sz \<Longrightarrow>
      \<exists>mem'. tsch_packet_update_eb asn jp mem sz off = Done (True, mem') \<and> length mem' = length mem \<and>
        (\<forall>r without_mic junk i0 h0. take N r = take N mem' \<longrightarrow> N + 4 \<le> length r \<longrightarrow> length (key_source (aux_hdr junk)) = 8 \<longrightarrow>
          (\<exists>f. tsch_packet_parse_eb r (int N + (if without_mic \<or> \<not> True then 0 else 4)) (Some junk) (Some i0) (Some h0) without_mic =
              Done (int N, f, Some (ies_zero\<lparr>ie_payload_ie_offset := 2, ie_asn := asn, ie_join_priority := jp\<rparr>), Some h) \<and>
            src_addr f = addr_a \<and> dest_pid f = 0xabcd \<and> tsch_security_mic_len (Some f) = (if True then 4 else 0)))" by blast
  let ?m = "pb_frame pb @ replicate 4 0"
  have m: "take N ?m = pb_frame pb" "int N \<le> int N" "length ?m = N + 4" "length (key_source (aux_hdr frame802154_zero)) = 8"
    using c(2) by (simp_all add: frame802154_zero_def)
  from u [OF m(1,2), of "\<lparr>ls4b = 0x01020304, ms1b = 5\<rparr>" 3] obtain mem' where m': "tsch_packet_update_eb \<lparr>ls4b = 0x01020304, ms1b = 5\<rparr> 3 ?m (int N) off = Done (True, mem')"
      "length mem' = length ?m" "\<exists>f. tsch_packet_parse_eb mem' (int N + (if False \<or> \<not> True then 0 else 4)) (Some frame802154_zero) (Some ies_zero) (Some 0) False =
          Done (int N, f, Some (ies_zero\<lparr>ie_payload_ie_offset := 2, ie_asn := \<lparr>ls4b = 0x01020304, ms1b = 5\<rparr>, ie_join_priority := 3\<rparr>), Some h) \<and>
        src_addr f = addr_a \<and> dest_pid f = 0xabcd \<and> tsch_security_mic_len (Some f) = (if True then 4 else 0)"
    using m(3,4) by (metis order_refl)
  then show ?thesis using c(1) by auto
qed

end
