(* ===== verification/TimeSync.thy ===== *)
theory TimeSync
  imports TschState "HOL-Library.Signed_Division"
begin

text \<open>
  Adaptive time synchronization, \<^verbatim>\<open>os/net/mac/tsch/tsch-adaptive-timesync.c\<close>: estimating the drift of the time source and compensating it.
  Times are converted with the macros of the CC2538 (\<^verbatim>\<open>arch/cpu/cc2538/rtimer-arch.h\<close>, 32768 ticks per second), the
  processor of the boards this repository is made for.

  Signed integers are of type \<open>int\<close>, brought into the range of their C type after each operation that can leave it; \<open>long\<close> has 32 bits. Division
  truncates towards zero. The static variables of the functions are fields of the state.
\<close>

section \<open>Signed machine integers\<close>

definition s16 :: "int \<Rightarrow> int" where "s16 x = sint (word_of_int x :: 16 word)"
definition s32 :: "int \<Rightarrow> int" where "s32 x = sint (word_of_int x :: 32 word)"
definition s64 :: "int \<Rightarrow> int" where "s64 x = sint (word_of_int x :: 64 word)"

lemma s16_id: "- 32768 \<le> x \<Longrightarrow> x < 32768 \<Longrightarrow> s16 x = x"
  by (simp add: s16_def signed_of_int signed_take_bit_int_eq_self)

lemma s32_id: "- 2147483648 \<le> x \<Longrightarrow> x < 2147483648 \<Longrightarrow> s32 x = x"
  by (simp add: s32_def signed_of_int signed_take_bit_int_eq_self)

lemma s64_id: "- 9223372036854775808 \<le> x \<Longrightarrow> x < 9223372036854775808 \<Longrightarrow> s64 x = x"
  by (simp add: s64_def signed_of_int signed_take_bit_int_eq_self)

text \<open>A difference that fits is not affected by the wrap-around of its subtrahend.\<close>

lemma s32_minus_s32: "s32 (x - s32 y) = s32 (x - y)"
proof -
  have "(word_of_int (s32 y) :: 32 word) = word_of_int y" by (simp add: s32_def)
  then show ?thesis by (simp add: s32_def)
qed

section \<open>Conversion of times\<close>

abbreviation (input) RTIMER_ARCH_SECOND :: int where "RTIMER_ARCH_SECOND \<equiv> 32768"

definition US_TO_RTIMERTICKS :: "int \<Rightarrow> int" where
  "US_TO_RTIMERTICKS us =
     (if us \<ge> 0 then s32 (s32 us * RTIMER_ARCH_SECOND + 500000) sdiv 1000000
      else s32 (s32 us * RTIMER_ARCH_SECOND - 500000) sdiv 1000000)"

definition RTIMERTICKS_TO_US :: "int \<Rightarrow> int" where
  "RTIMERTICKS_TO_US t =
     (if t \<ge> 0 then s32 (s32 t * 1000000 + RTIMER_ARCH_SECOND div 2) sdiv RTIMER_ARCH_SECOND
      else s32 (s32 t * 1000000 - RTIMER_ARCH_SECOND div 2) sdiv RTIMER_ARCH_SECOND)"

definition RTIMERTICKS_TO_US_64 :: "u32 \<Rightarrow> u32" where
  "RTIMERTICKS_TO_US_64 t = word_of_int ((uint t * 1000000 + RTIMER_ARCH_SECOND div 2) div RTIMER_ARCH_SECOND)"

section \<open>State and operations\<close>

record timesync =
  drift_ppm :: int
  compensated_ticks :: int
  timesync_entry_count :: u8
  asn_since_last_learning :: u32
  ts_buffer :: "int list"
  ts_pos :: u8
  last_timesource_neighbor :: "nat option"
  min_drift_seen :: int
  max_drift_seen :: int
  ts_remainder :: int
  tick_conversion_error :: int
  base_drift_remainder :: int
  base_drift_tick_conversion_error :: int

definition TSCH_DRIFT_UNIT :: int where "TSCH_DRIFT_UNIT = 1000 * 1000 * 256"
definition NUM_TIMESYNC_ENTRIES :: nat where "NUM_TIMESYNC_ENTRIES = 8"
definition TSCH_MAX_KEEPALIVE_TIMEOUT :: u32 where "TSCH_MAX_KEEPALIVE_TIMEOUT = 60 * 128"
definition TSCH_SLOTS_PER_SECOND :: u32 where "TSCH_SLOTS_PER_SECOND = 1000000 div 10000"

definition tsch_adaptive_timesync_get_drift_ppm :: "timesync \<Rightarrow> int" where
  "tsch_adaptive_timesync_get_drift_ppm ts = drift_ppm ts sdiv 256"

text \<open>\<open>rnd\<close> is the random value that the keep-alive timer uses.\<close>

definition timesync_entry_add :: "u16 \<Rightarrow> int \<Rightarrow> timesync \<Rightarrow> tsch \<Rightarrow> int \<times> timesync \<times> tsch" where
  "timesync_entry_add rnd val ts s =
     (let pos = (if timesync_entry_count ts = 0 then 0 else ts_pos ts);
          buffer = (ts_buffer ts)[unat pos := val];
          (count, s') = (if unat (timesync_entry_count ts) < NUM_TIMESYNC_ENTRIES then (timesync_entry_count ts + 1, s)
                         else (timesync_entry_count ts, tsch_set_ka_timeout rnd TSCH_MAX_KEEPALIVE_TIMEOUT s));
          sum = fold (\<lambda>x acc. s32 (acc + x)) (take (unat count) buffer) 0
      in (sum sdiv uint count,
          ts\<lparr>ts_buffer := buffer, timesync_entry_count := count, ts_pos := (pos + 1) mod of_nat NUM_TIMESYNC_ENTRIES\<rparr>, s'))"

text \<open>\<open>timeslot_length\<close> is the slot length in ticks. A division by zero is a \<open>Fault\<close>.\<close>

definition timesync_learn_drift_ticks :: "u32 \<Rightarrow> u16 \<Rightarrow> u32 \<Rightarrow> int \<Rightarrow> timesync \<Rightarrow> tsch \<Rightarrow> (timesync \<times> tsch) outcome" where
  "timesync_learn_drift_ticks timeslot_length rnd time_delta_asn drift_ticks ts s =
     (let time_delta_ticks = s32 (uint (time_delta_asn * timeslot_length));
          real_drift_ticks = s32 (drift_ticks + compensated_ticks ts)
      in if time_delta_ticks = 0 then Fault
         else
           (let last_drift_ppm = s32 ((real_drift_ticks * TSCH_DRIFT_UNIT) sdiv time_delta_ticks);
                (d, ts', s') = timesync_entry_add rnd last_drift_ppm ts s
            in Done (ts'\<lparr>drift_ppm := d\<rparr>, s')))"

definition tsch_timesync_update :: "u32 \<Rightarrow> u16 \<Rightarrow> nat option \<Rightarrow> u16 \<Rightarrow> int \<Rightarrow> timesync \<Rightarrow> tsch \<Rightarrow> (timesync \<times> tsch) outcome" where
  "tsch_timesync_update timeslot_length rnd n time_delta_asn drift_correction ts s =
     obind (if last_timesource_neighbor ts \<noteq> n then
              Done (ts\<lparr>last_timesource_neighbor := n, drift_ppm := 0, timesync_entry_count := 0, compensated_ticks := 0,
                       asn_since_last_learning := 0\<rparr>, s)
            else
              (let ts1 = ts\<lparr>asn_since_last_learning := asn_since_last_learning ts + ucast time_delta_asn\<rparr> in
               if asn_since_last_learning ts1 \<ge> 4 * TSCH_SLOTS_PER_SECOND then
                 obind (timesync_learn_drift_ticks timeslot_length rnd (asn_since_last_learning ts1) drift_correction ts1 s) (\<lambda>(ts2, s').
                 Done (ts2\<lparr>compensated_ticks := 0, asn_since_last_learning := 0\<rparr>, s'))
               else Done (ts1\<lparr>compensated_ticks := s32 (compensated_ticks ts1 + drift_correction)\<rparr>, s))) (\<lambda>(ts3, s').
     Done (ts3\<lparr>min_drift_seen := min drift_correction (min_drift_seen ts3), max_drift_seen := max drift_correction (max_drift_seen ts3)\<rparr>, s'))"

text \<open>The result is the number of ticks, the new remainder and the new conversion error.\<close>

definition compensate_internal :: "u32 \<Rightarrow> int \<Rightarrow> int \<Rightarrow> int \<Rightarrow> int \<times> int \<times> int" where
  "compensate_internal time_delta_usec drift rem err =
     (let d = s64 (uint time_delta_usec * drift + rem);
          amount = s32 (d sdiv TSCH_DRIFT_UNIT);
          rem' = s32 (d - s32 (amount * TSCH_DRIFT_UNIT));
          amount' = s32 (amount + err);
          amount_ticks = US_TO_RTIMERTICKS amount';
          err' = s16 (amount' - RTIMERTICKS_TO_US amount_ticks);
          limited = (if \<bar>amount_ticks\<bar> > RTIMER_ARCH_SECOND div 128
                     then (if amount_ticks > 0 then RTIMER_ARCH_SECOND else - RTIMER_ARCH_SECOND) sdiv 128 else amount_ticks)
      in (limited, rem', err'))"

definition tsch_timesync_adaptive_compensate :: "int \<Rightarrow> u32 \<Rightarrow> timesync \<Rightarrow> int \<times> timesync" where
  "tsch_timesync_adaptive_compensate base_drift_ppm time_delta_ticks ts =
     (let time_delta_usec = RTIMERTICKS_TO_US_64 time_delta_ticks;
          (result, ts1) =
            (if drift_ppm ts \<noteq> 0 \<and> last_timesource_neighbor ts \<noteq> None then
               (let (r, rem, err) = compensate_internal time_delta_usec (drift_ppm ts) (ts_remainder ts) (tick_conversion_error ts)
                in (r, ts\<lparr>ts_remainder := rem, tick_conversion_error := err, compensated_ticks := s32 (compensated_ticks ts + r)\<rparr>))
             else (0, ts))
      in if base_drift_ppm \<noteq> 0 then
           (let (r, rem, err) = compensate_internal time_delta_usec (256 * base_drift_ppm) (base_drift_remainder ts1)
                                  (base_drift_tick_conversion_error ts1)
            in (s32 (result + r), ts1\<lparr>base_drift_remainder := rem, base_drift_tick_conversion_error := err\<rparr>))
         else (result, ts1))"

section \<open>The conversions round to the nearest value\<close>

lemma sdiv_pos: "0 \<le> a \<Longrightarrow> 0 < b \<Longrightarrow> a sdiv b = a div (b :: int)"
  by (cases "a = 0") (simp_all add: signed_divide_int_def sgn_if)

lemma sdiv_neg: "a \<le> 0 \<Longrightarrow> 0 < b \<Longrightarrow> a sdiv b = - ((- a) div (b :: int))"
  using sdiv_pos [of "- a" b] minus_sdiv_eq [of "- a" b] by simp

lemma conversion_error:
  assumes "\<bar>us\<bar> \<le> 60000"
  shows "\<bar>us - RTIMERTICKS_TO_US (US_TO_RTIMERTICKS us)\<bar> \<le> 15" "\<bar>1000000 * US_TO_RTIMERTICKS us - 32768 * us\<bar> \<le> 500000"
proof -
  have pos: "\<bar>us - RTIMERTICKS_TO_US (US_TO_RTIMERTICKS us)\<bar> \<le> 15 \<and> \<bar>1000000 * US_TO_RTIMERTICKS us - 32768 * us\<bar> \<le> 500000 \<and>
      0 \<le> US_TO_RTIMERTICKS us" if "0 \<le> us" "us \<le> 60000" for us
  proof -
    define t where "t = (us * 32768 + 500000) div 1000000"
    have t: "US_TO_RTIMERTICKS us = t" using that by (simp add: US_TO_RTIMERTICKS_def s32_id sdiv_pos t_def)
    have t1: "1000000 * t \<le> us * 32768 + 500000" "us * 32768 + 500000 < 1000000 * t + 1000000" "0 \<le> t"
      using that unfolding t_def by simp_all
    then have t2: "t \<le> 2000" using that by linarith
    define u where "u = (t * 1000000 + 16384) div 32768"
    have u: "RTIMERTICKS_TO_US t = u" using t1(3) t2 by (simp add: RTIMERTICKS_TO_US_def s32_id sdiv_pos u_def)
    have "32768 * u \<le> t * 1000000 + 16384" "t * 1000000 + 16384 < 32768 * u + 32768" unfolding u_def by simp_all
    then show ?thesis using t1 unfolding t u by linarith
  qed
  have neg: "US_TO_RTIMERTICKS (- us) = - US_TO_RTIMERTICKS us" if "0 \<le> us" "us \<le> 60000" for us
    using that sdiv_neg [of "- us * 32768 - 500000" 1000000]
    by (cases "us = 0") (simp_all add: US_TO_RTIMERTICKS_def s32_id sdiv_pos)
  have neg2: "RTIMERTICKS_TO_US (- t) = - RTIMERTICKS_TO_US t" if "0 \<le> t" "t \<le> 2000" for t
    using that sdiv_neg [of "- t * 1000000 - 16384" 32768]
    by (cases "t = 0") (simp_all add: RTIMERTICKS_TO_US_def s32_id sdiv_pos)
  show "\<bar>us - RTIMERTICKS_TO_US (US_TO_RTIMERTICKS us)\<bar> \<le> 15" "\<bar>1000000 * US_TO_RTIMERTICKS us - 32768 * us\<bar> \<le> 500000"
  proof (atomize (full), cases "0 \<le> us")
    case False
    let ?t = "US_TO_RTIMERTICKS (- us)"
    have p: "\<bar>- us - RTIMERTICKS_TO_US ?t\<bar> \<le> 15" "\<bar>1000000 * ?t - 32768 * - us\<bar> \<le> 500000" "0 \<le> ?t" using pos [of "- us"] assms False by auto
    then have "?t \<le> 2000" using assms False by linarith
    then have "US_TO_RTIMERTICKS us = - ?t" "RTIMERTICKS_TO_US (- ?t) = - RTIMERTICKS_TO_US ?t"
      using neg [of "- us"] neg2 p(3) assms False by auto
    then show "\<bar>us - RTIMERTICKS_TO_US (US_TO_RTIMERTICKS us)\<bar> \<le> 15 \<and> \<bar>1000000 * US_TO_RTIMERTICKS us - 32768 * us\<bar> \<le> 500000"
      using p by (auto simp: abs_minus_commute)
  qed (use pos [of us] assms in auto)
qed

section \<open>Compensation\<close>

lemma sdiv_rest:
  assumes "0 < (b :: int)"
  shows "\<bar>a - a sdiv b * b\<bar> < b" "\<bar>a\<bar> < k * b \<Longrightarrow> \<bar>a sdiv b\<bar> < k"
proof -
  define q m where "q = \<bar>a\<bar> div b" and "m = \<bar>a\<bar> mod b"
  have q: "\<bar>a\<bar> = q * b + m" "0 \<le> m" "m < b" "0 \<le> q"
    using assms by (simp_all add: q_def m_def pos_imp_zdiv_nonneg_iff)
  have e: "a sdiv b = (if 0 \<le> a then q else - q)" using sdiv_pos [of a b] sdiv_neg [of a b] assms by (auto simp: q_def)
  have "a = (if 0 \<le> a then q * b + m else - (q * b + m))" using q(1) by (auto simp: abs_if split: if_splits)
  then have "a - a sdiv b * b = (if 0 \<le> a then m else - m)" unfolding e by (auto split: if_splits)
  then show "\<bar>a - a sdiv b * b\<bar> < b" using q(2,3) by simp
  assume "\<bar>a\<bar> < k * b"
  then have "q * b < k * b" using q by linarith
  then have "q < k" using assms by simp
  then show "\<bar>a sdiv b\<bar> < k" unfolding e using q(4) by simp
qed

text \<open>One step: what is not compensated stays in the remainder and the conversion error, although the product
  with the drift unit may overflow.\<close>

lemma compensate_step:
  assumes small: "\<bar>uint delta * drift\<bar> \<le> 7700 * TSCH_DRIFT_UNIT" and old: "\<bar>r\<bar> < TSCH_DRIFT_UNIT" "\<bar>e\<bar> \<le> 15"
    and c: "compensate_internal delta drift r e = (t, r', e')"
  shows "uint delta * drift + r + TSCH_DRIFT_UNIT * e = TSCH_DRIFT_UNIT * (RTIMERTICKS_TO_US t + e') + r'"
    "\<bar>r'\<bar> < TSCH_DRIFT_UNIT" "\<bar>e'\<bar> \<le> 15" "\<bar>t\<bar> \<le> 253"
proof -
  define U where "U = TSCH_DRIFT_UNIT"
  have U: "U = 256000000" by (simp add: U_def TSCH_DRIFT_UNIT_def)
  define d where "d = uint delta * drift + r"
  have d: "\<bar>d\<bar> < 7701 * U" using small old(1) unfolding d_def U_def by linarith
  have s64: "s64 d = d" by (rule s64_id) (use d U in linarith)+
  define a where "a = d sdiv U"
  have a: "\<bar>a\<bar> < 7701" "\<bar>d - a * U\<bar> < U" using sdiv_rest [of U d] d U unfolding a_def by auto
  have s32: "s32 a = a" "s32 (d - s32 (a * U)) = d - a * U" "s32 (a + e) = a + e"
    using a old(2) U unfolding s32_minus_s32 by (auto intro!: s32_id)
  let ?t = "US_TO_RTIMERTICKS (a + e)"
  have "\<bar>a + e\<bar> \<le> 60000" using a(1) old(2) by linarith
  note conv = conversion_error [OF this]
  have t: "\<bar>?t\<bar> \<le> 253"
    using conv(2) a(1) old(2) unfolding abs_le_iff abs_less_iff by (simp add: algebra_simps)
  have s16: "s16 (a + e - RTIMERTICKS_TO_US ?t) = a + e - RTIMERTICKS_TO_US ?t" using conv(1) a(1) old(2) by (intro s16_id) linarith+
  have "compensate_internal delta drift r e = (?t, d - a * U, a + e - RTIMERTICKS_TO_US ?t)"
    using t unfolding compensate_internal_def Let_def d_def [symmetric] s64 U_def [symmetric] a_def [symmetric] s32 s16 by simp
  then have eq: "t = ?t" "r' = d - a * U" "e' = a + e - RTIMERTICKS_TO_US ?t" using c by simp_all
  show "uint delta * drift + r + TSCH_DRIFT_UNIT * e = TSCH_DRIFT_UNIT * (RTIMERTICKS_TO_US t + e') + r'"
    unfolding eq U_def [symmetric] d_def [symmetric] by (simp add: algebra_simps)
  show "\<bar>r'\<bar> < TSCH_DRIFT_UNIT" "\<bar>e'\<bar> \<le> 15" "\<bar>t\<bar> \<le> 253" using a(1,2) conv(1) t old(2) by (simp_all add: eq U_def)
qed

text \<open>The compensations of a sequence of slots.\<close>

fun compensate_run :: "u32 list \<Rightarrow> timesync \<Rightarrow> int list \<times> timesync" where
  "compensate_run [] ts = ([], ts)"
| "compensate_run (delta # deltas) ts =
     (let (r, ts1) = tsch_timesync_adaptive_compensate 0 delta ts; (rs, ts2) = compensate_run deltas ts1 in (r # rs, ts2))"

definition exact_drift :: "int \<Rightarrow> u32 list \<Rightarrow> int" where
  "exact_drift drift deltas = (\<Sum>delta\<leftarrow>deltas. uint (RTIMERTICKS_TO_US_64 delta) * drift)"

lemma compensate_run_exact:
  assumes "drift_ppm ts \<noteq> 0" "last_timesource_neighbor ts \<noteq> None" "\<bar>ts_remainder ts\<bar> < TSCH_DRIFT_UNIT" "\<bar>tick_conversion_error ts\<bar> \<le> 15"
    and "\<forall>delta\<in>set deltas. \<bar>uint (RTIMERTICKS_TO_US_64 delta) * drift_ppm ts\<bar> \<le> 7700 * TSCH_DRIFT_UNIT"
    and "compensate_run deltas ts = (rs, ts')"
  shows "exact_drift (drift_ppm ts) deltas + ts_remainder ts + TSCH_DRIFT_UNIT * tick_conversion_error ts =
      TSCH_DRIFT_UNIT * (\<Sum>t\<leftarrow>rs. RTIMERTICKS_TO_US t) + TSCH_DRIFT_UNIT * tick_conversion_error ts' + ts_remainder ts' \<and>
    \<bar>ts_remainder ts'\<bar> < TSCH_DRIFT_UNIT \<and> \<bar>tick_conversion_error ts'\<bar> \<le> 15 \<and> (\<forall>t\<in>set rs. \<bar>t\<bar> \<le> 253)"
  using assms
proof (induction deltas arbitrary: ts rs)
  case (Cons delta deltas)
  let ?c = "compensate_internal (RTIMERTICKS_TO_US_64 delta) (drift_ppm ts) (ts_remainder ts) (tick_conversion_error ts)"
  obtain t r e where c: "?c = (t, r, e)" by (cases ?c)
  note st = compensate_step [OF _ Cons.prems(3,4) c]
  let ?ts = "ts\<lparr>ts_remainder := r, tick_conversion_error := e, compensated_ticks := s32 (compensated_ticks ts + t)\<rparr>"
  have 1: "tsch_timesync_adaptive_compensate 0 delta ts = (t, ?ts)"
    using Cons.prems(1,2) c by (simp add: tsch_timesync_adaptive_compensate_def Let_def)
  obtain rs' where rs: "compensate_run deltas ?ts = (rs', ts')" "rs = t # rs'"
    using Cons.prems(6) by (auto simp: 1 Let_def split: prod.splits)
  have "exact_drift (drift_ppm ?ts) deltas + ts_remainder ?ts + TSCH_DRIFT_UNIT * tick_conversion_error ?ts =
      TSCH_DRIFT_UNIT * (\<Sum>t\<leftarrow>rs'. RTIMERTICKS_TO_US t) + TSCH_DRIFT_UNIT * tick_conversion_error ts' + ts_remainder ts' \<and>
    \<bar>ts_remainder ts'\<bar> < TSCH_DRIFT_UNIT \<and> \<bar>tick_conversion_error ts'\<bar> \<le> 15 \<and> (\<forall>t\<in>set rs'. \<bar>t\<bar> \<le> 253)"
    by (rule Cons.IH [OF _ _ _ _ _ rs(1)]) (use Cons.prems st in auto)
  then show ?case using st Cons.prems(5) unfolding rs(2) by (simp add: exact_drift_def algebra_simps)
qed (simp add: exact_drift_def)


definition ts_example :: timesync where
  "ts_example = \<lparr>drift_ppm = 40 * 256, compensated_ticks = 0, timesync_entry_count = 0, asn_since_last_learning = 0,
     ts_buffer = replicate 8 0, ts_pos = 0, last_timesource_neighbor = Some 2, min_drift_seen = 0, max_drift_seen = 0, ts_remainder = 0,
     tick_conversion_error = 0, base_drift_remainder = 0, base_drift_tick_conversion_error = 0\<rparr>"


section \<open>The drift estimate\<close>

text \<open>The values of a run of learning steps, in order.\<close>

fun entry_adds :: "(u16 \<times> int) list \<Rightarrow> int \<times> timesync \<times> tsch \<Rightarrow> int \<times> timesync \<times> tsch" where
  "entry_adds [] st = st"
| "entry_adds ((rnd, v) # vs) (x, ts, s) = entry_adds vs (timesync_entry_add rnd v ts s)"

lemma entry_adds_append: "entry_adds (us @ vs) st = entry_adds vs (entry_adds us st)"
  by (induction us st rule: entry_adds.induct) simp_all

lemma fold_s32_sum:
  assumes "\<bar>acc\<bar> + int (length xs) * 200000000 \<le> 2000000000" "\<forall>x\<in>set xs. \<bar>x\<bar> \<le> 200000000"
  shows "fold (\<lambda>x acc. s32 (acc + x)) xs acc = acc + sum_list xs"
  using assms
proof (induction xs arbitrary: acc)
  case (Cons x xs)
  then have x: "\<bar>x\<bar> \<le> 200000000" by simp
  have "s32 (acc + x) = acc + x" using Cons.prems(1) x by (intro s32_id) (simp_all add: algebra_simps)
  moreover have "\<bar>acc + x\<bar> + int (length xs) * 200000000 \<le> 2000000000" using Cons.prems(1) x by (simp add: algebra_simps)
  ultimately show ?case using Cons by simp
qed simp

text \<open>The buffer holds the last eight values, the oldest one at the position that is written next.\<close>

definition holds_last :: "int list \<Rightarrow> timesync \<Rightarrow> bool" where
  "holds_last vs ts \<longleftrightarrow> length (ts_buffer ts) = 8 \<and> unat (timesync_entry_count ts) = min 8 (length vs) \<and>
     (if length vs < 8 then take (length vs) (ts_buffer ts) = vs \<and> (vs \<noteq> [] \<longrightarrow> unat (ts_pos ts) = length vs)
      else unat (ts_pos ts) < 8 \<and> drop (unat (ts_pos ts)) (ts_buffer ts) @ take (unat (ts_pos ts)) (ts_buffer ts) = drop (length vs - 8) vs)"

lemma next_pos: "unat p < 8 \<Longrightarrow> unat ((p + 1) mod 8 :: u8) = (if unat p = 7 then 0 else unat p + 1)"
  by (auto simp: unat_mod_distrib unat_word_ariths)

lemma holds_last_sum:
  assumes "holds_last vs ts"
  shows "sum_list (take (unat (timesync_entry_count ts)) (ts_buffer ts)) = sum_list (drop (length vs - 8) vs)"
proof (cases "length vs < 8")
  case False
  let ?b = "ts_buffer ts" and ?p = "unat (ts_pos ts)"
  have "drop (length vs - 8) vs = drop ?p ?b @ take ?p ?b" "take (unat (timesync_entry_count ts)) ?b = ?b"
    using assms False by (simp_all add: holds_last_def)
  moreover have "sum_list ?b = sum_list (take ?p ?b) + sum_list (drop ?p ?b)" by (metis append_take_drop_id sum_list_append)
  ultimately show ?thesis by simp
qed (use assms in \<open>simp add: holds_last_def\<close>)

lemma entry_add_holds:
  assumes h: "holds_last vs ts" and a: "timesync_entry_add rnd v ts s = (r, ts', s')"
  shows "holds_last (vs @ [v]) ts'"
proof -
  let ?pos = "if timesync_entry_count ts = 0 then 0 else ts_pos ts" and ?b = "ts_buffer ts"
  have c0: "timesync_entry_count ts = 0 \<longleftrightarrow> vs = []" using h by (auto simp: holds_last_def word_unat_eq_iff min_def)
  have f: "ts_buffer ts' = ?b[unat ?pos := v]" "ts_pos ts' = (?pos + 1) mod 8"
    "timesync_entry_count ts' = (if unat (timesync_entry_count ts) < 8 then timesync_entry_count ts + 1 else timesync_entry_count ts)"
    using a by (auto simp: timesync_entry_add_def NUM_TIMESYNC_ENTRIES_def Let_def split: if_splits)
  have c: "unat (timesync_entry_count ts') = min 8 (length (vs @ [v]))" and b: "length ?b = 8"
    using h unfolding f(3) holds_last_def by (auto simp: unat_word_ariths)
  show ?thesis
  proof (cases "length vs < 8")
    case True
    then have p: "unat ?pos = length vs" and t: "take (length vs) ?b = vs" using h c0 by (auto simp: holds_last_def)
    have "take (length vs + 1) (ts_buffer ts') = vs @ [v]" using True b t by (simp add: f(1) p take_Suc_conv_app_nth)
    moreover have "unat (ts_pos ts') = (if length vs = 7 then 0 else length vs + 1)" using next_pos [of ?pos] True by (simp add: f(2) p)
    ultimately show ?thesis using True b c by (auto simp: holds_last_def f(1))
  next
    case False
    then have p: "?pos = ts_pos ts" "unat (ts_pos ts) < 8" and k: "drop (unat (ts_pos ts)) ?b @ take (unat (ts_pos ts)) ?b = drop (length vs - 8) vs"
      using h c0 by (auto simp: holds_last_def)
    let ?p = "unat (ts_pos ts)"
    have b': "ts_buffer ts' = take ?p ?b @ v # drop (?p + 1) ?b" using p b by (simp add: f(1) upd_conv_take_nth_drop)
    have "length vs + 1 - 8 = Suc (length vs - 8)" using False by simp
    then have "drop (length vs + 1 - 8) (vs @ [v]) = tl (drop (length vs - 8) vs) @ [v]" using False by (simp add: tl_drop drop_Suc)
    also have "\<dots> = drop (?p + 1) ?b @ take ?p ?b @ [v]" unfolding k [symmetric] using p(2) b
      by (subst Cons_nth_drop_Suc [symmetric]) simp_all
    finally have d: "drop (length vs + 1 - 8) (vs @ [v]) = drop (?p + 1) ?b @ take ?p ?b @ [v]" .
    have "unat (ts_pos ts') = (if ?p = 7 then 0 else ?p + 1)" using next_pos [OF p(2)] by (simp add: f(2) p(1))
    then have "drop (unat (ts_pos ts')) (ts_buffer ts') @ take (unat (ts_pos ts')) (ts_buffer ts') = drop (length vs + 1 - 8) (vs @ [v])"
      using b p(2) unfolding d b' by auto
    then show ?thesis using False b c p(2) \<open>unat (ts_pos ts') = _\<close> by (simp add: holds_last_def f(1))
  qed
qed

lemma entry_add_result:
  assumes a: "timesync_entry_add rnd v ts s = (r, ts', s')" and h: "holds_last vs ts" and small: "\<forall>x\<in>set (vs @ [v]). \<bar>x\<bar> \<le> 200000000"
  shows "r = sum_list (drop (length vs + 1 - 8) (vs @ [v])) sdiv int (min 8 (length vs + 1))"
proof -
  note h' = entry_add_holds [OF h a]
  let ?xs = "take (unat (timesync_entry_count ts')) (ts_buffer ts')"
  have r: "r = fold (\<lambda>x acc. s32 (acc + x)) ?xs 0 sdiv uint (timesync_entry_count ts')"
    using a by (auto simp: timesync_entry_add_def Let_def split: if_splits)
  have c: "unat (timesync_entry_count ts') = min 8 (length vs + 1)" using h' by (simp add: holds_last_def)
  have "set ?xs \<subseteq> set (vs @ [v])"
  proof (cases "length vs + 1 < 8")
    case False
    let ?p = "unat (ts_pos ts')"
    have "set (ts_buffer ts') = set (drop ?p (ts_buffer ts') @ take ?p (ts_buffer ts'))" by (metis append_take_drop_id set_append sup_commute)
    also have "\<dots> \<subseteq> set (vs @ [v])" using h' False set_drop_subset [of "length (vs @ [v]) - 8" "vs @ [v]"] by (simp add: holds_last_def)
    finally show ?thesis using set_take_subset by fastforce
  qed (use h' c in \<open>simp add: holds_last_def\<close>)
  moreover have "length ?xs \<le> 8" using c by simp
  ultimately have "fold (\<lambda>x acc. s32 (acc + x)) ?xs 0 = sum_list ?xs" using fold_s32_sum [of 0 ?xs] small by auto
  then show ?thesis using holds_last_sum [OF h'] c by (simp add: r uint_nat)
qed

lemma entry_adds_holds:
  assumes "timesync_entry_count ts = 0" "length (ts_buffer ts) = 8" "entry_adds rvs (x, ts, s) = (r, ts', s')"
  shows "holds_last (map snd rvs) ts'"
  using assms(3)
proof (induction rvs arbitrary: r ts' s' rule: rev_induct)
  case Nil
  then show ?case using assms(1,2) by (simp add: holds_last_def)
next
  case (snoc rv rvs)
  obtain y t u where e: "entry_adds rvs (x, ts, s) = (y, t, u)" by (cases "entry_adds rvs (x, ts, s)")
  then have "timesync_entry_add (fst rv) (snd rv) t u = (r, ts', s')" using snoc.prems by (cases rv) (simp add: entry_adds_append)
  from entry_add_holds [OF snoc.IH [OF e] this] show ?case by simp
qed

text \<open>The drift estimate is the mean of the last eight measurements (of all of them while there are fewer), rounded towards zero, from the first measurement after
  a change of the time source on, for measurements up to 781 000 ppm. The old contents of the buffer have no influence.\<close>

theorem drift_estimate_mean:
  assumes "timesync_entry_count ts = 0" "length (ts_buffer ts) = NUM_TIMESYNC_ENTRIES" "rvs \<noteq> []" "\<forall>x\<in>set (map snd rvs). \<bar>x\<bar> \<le> 200000000"
  shows "fst (entry_adds rvs (x, ts, s)) = sum_list (drop (length rvs - 8) (map snd rvs)) sdiv int (min 8 (length rvs))"
proof -
  obtain us rnd v where rvs: "rvs = us @ [(rnd, v)]" using assms(3) by (metis surj_pair rev_exhaust)
  obtain y t u where e: "entry_adds us (x, ts, s) = (y, t, u)" by (cases "entry_adds us (x, ts, s)")
  obtain r t' u' where a: "timesync_entry_add rnd v t u = (r, t', u')" by (cases "timesync_entry_add rnd v t u")
  have "holds_last (map snd us) t" using entry_adds_holds [OF assms(1) _ e] assms(2) by (simp add: NUM_TIMESYNC_ENTRIES_def)
  from entry_add_result [OF a this] show ?thesis using assms(4) a e by (simp add: rvs entry_adds_append)
qed

theorem drift_estimate_mean_witness:
  "\<forall>s. fst (entry_adds [(0, 100), (0, -7)] (0, ts_example, s)) = 46"
  using drift_estimate_mean [of ts_example "[(0, 100), (0, -7)]" 0] by (simp add: ts_example_def NUM_TIMESYNC_ENTRIES_def)

end
