(* ===== verification/SlotOp.thy ===== *)
theory SlotOp
  imports TschSchedule TschSecurity TschPacket TimeSync MacSeq
begin

text \<open>
  The slot operation of \<^verbatim>\<open>os/net/mac/tsch/tsch-slot-operation.c\<close>: the choice of the packet of a slot, the transmit slot with
  its acknowledgment, the receive slot, channel hopping and the loop that schedules the next wake-up. The record \<open>node\<close> holds
  the state of \<^verbatim>\<open>tsch-slot-operation.c\<close> and \<^verbatim>\<open>tsch.c\<close> around the queues and the schedule (field \<open>core\<close>) and the drift estimation (field
  \<open>tsync\<close>).

  What the radio driver and the timers answer during a slot is an argument (records \<open>tx_env\<close>, \<open>rx_env\<close>, \<open>slot_env\<close>). A slot that is
  yielded to wait for a timer goes on in the same state: \<open>tsch_get_lock\<close> waits while \<open>tsch_in_slot_operation\<close> is set. The
  configuration is one radio, without CCA, with link-layer security, and with the default values for jitter and timestamps;
  the switches the projects of the repository set differently are fields of \<open>node_conf\<close>.
\<close>

record input_packet =
  ip_payload :: "u8 list"
  ip_rx_asn :: tsch_asn_t
  ip_len :: int
  ip_rssi :: int
  ip_channel :: u8

record node_conf =
  linkaddr_node_addr :: linkaddr
  node_id :: u16
  id_mac_list :: "(u16 \<times> linkaddr) list"
  sync_with_lower_node_id :: bool
  radio_on_during_timeslot :: bool
  no_hopping_sequence :: bool
  eack_with_dest :: bool
  eack_with_src :: bool
  multiphy_default_timing :: nat
  base_drift :: int
  desync_ticks :: u32
  default_hopping_sequence :: "u8 list"
  beacon_conf :: eb_conf
  with_6tisch_minimal :: bool
  eb_only_coordinator :: bool
  conf_eb_period :: u32

text \<open>Timing tables are reached through the pointer \<open>tsch_timing\<close>: an index into \<open>timings\<close>. \<open>radio_sent\<close> lists the frames passed
  to the radio for transmission, \<open>radio_is_on\<close> is the last command given to it, \<open>net_input\<close> the packets passed to the network layer.\<close>

record node =
  core :: tsch
  tsync :: timesync
  tsch_current_asn :: tsch_asn_t
  last_sync_asn :: tsch_asn_t
  last_sync_time :: u32
  tsch_join_priority :: u8
  pan_id :: u16
  tsch_is_pan_secured :: bool
  tsch_hopping_sequence :: "u8 list"
  tsch_hopping_sequence_length :: tsch_asn_divisor_t
  tsch_timing :: nat
  timings :: "nat \<Rightarrow> u32 list"
  input_array :: "input_packet list"
  input_ringbuf :: ringbufindex
  dequeued_array :: "nat option list"
  dequeued_ringbuf :: ringbufindex
  backup_link :: "nat option"
  current_packet :: "nat option"
  current_neighbor :: "nat option"
  burst_link_scheduled :: bool
  tsch_current_burst_count :: int
  current_slot_start :: u32
  slot_timer :: "u32 option"
  tsch_current_channel :: u8
  drift_correction :: int
  is_drift_correction_used :: bool
  tsch_in_slot_operation :: bool
  mac_tx_status :: u8
  encrypted_packet :: "u8 list"
  input_queue_drop :: int
  tx_count :: u32
  rx_count :: u32
  sync_count :: u32
  events_polled :: bool
  main_polled :: bool
  radio_is_on :: bool
  radio_sent :: "u8 list list"
  eack_attrs_buf :: attrs
  tsch_packet_seqno :: u8
  tsch_is_started :: bool
  tsch_is_initialized :: bool
  tsch_association_count :: int
  tsch_current_eb_period :: u32
  last_eb_nbr_addr :: linkaddr
  last_eb_nbr_jp :: u8
  ll_seqnos :: "seqno list"
  net_input :: "packetbuf list"

definition TSCH_PACKET_MAX_LEN :: nat where "TSCH_PACKET_MAX_LEN = 127"
definition TSCH_BURST_MAX_LEN :: int where "TSCH_BURST_MAX_LEN = 32"
definition RTIMER_GUARD :: u32 where "RTIMER_GUARD = 2"
definition SYNC_IE_BOUND :: int where "SYNC_IE_BOUND = US_TO_RTIMERTICKS (2200 div 4)"
definition LINK_OPTION_SAMPLE_RSSI :: u8 where "LINK_OPTION_SAMPLE_RSSI = 16"
definition MAC_TX_ERR_FATAL :: u8 where "MAC_TX_ERR_FATAL = 5"
definition RADIO_TX_OK :: u8 where "RADIO_TX_OK = 0"

text \<open>The elements of a timing table.\<close>

abbreviation (input) tsch_ts_tx_offset :: nat where "tsch_ts_tx_offset \<equiv> 2"
abbreviation (input) tsch_ts_timeslot_length :: nat where "tsch_ts_timeslot_length \<equiv> 11"

definition timeslot_len :: "node_conf \<Rightarrow> node \<Rightarrow> u32" where
  "timeslot_len cf x = timings x (multiphy_default_timing cf) ! tsch_ts_timeslot_length"

section \<open>Channel hopping and timers\<close>

text \<open>\<open>radio_divisor\<close> is the sequence length the radio asks for, if any. Reading behind the hopping sequence and a division by
  zero are faults.\<close>

definition tsch_calculate_channel :: "bool \<Rightarrow> tsch_asn_divisor_t option \<Rightarrow> tsch_asn_t \<Rightarrow> u8 \<Rightarrow> node \<Rightarrow> u8 outcome" where
  "tsch_calculate_channel no_hopping radio_divisor asn off x =
     (if no_hopping then Done (ucast (ls4b asn) + off)
      else
        (let full = tsch_hopping_sequence_length x;
             divisor = (case radio_divisor of None \<Rightarrow> full | Some d \<Rightarrow> if div_val d < div_val full then d else full)
         in if div_val divisor = 0 then Fault
            else
              (let index_of_0 = TSCH_ASN_MOD asn divisor;
                   index_of_offset = (unat index_of_0 + unat off) mod unat (div_val divisor)
               in if index_of_offset < length (tsch_hopping_sequence x)
                  then Done (tsch_hopping_sequence x ! index_of_offset) else Fault)))"

definition check_timer_miss :: "u32 \<Rightarrow> u32 \<Rightarrow> u32 \<Rightarrow> bool" where
  "check_timer_miss ref_time off now =
     (let target = ref_time + off;
          now_has_overflowed = now < ref_time;
          target_has_overflowed = target < ref_time
      in if now_has_overflowed = target_has_overflowed then target \<le> now else now_has_overflowed)"

text \<open>\<open>now\<close> is the time read, \<open>rtimer_ok\<close> whether \<open>rtimer_set\<close> succeeded. On failure the code waits for the time and returns 0.\<close>

definition tsch_schedule_slot_operation :: "u32 \<Rightarrow> u32 \<Rightarrow> u32 \<Rightarrow> bool \<Rightarrow> node \<Rightarrow> bool \<times> node" where
  "tsch_schedule_slot_operation ref_time off now rtimer_ok x =
     (if check_timer_miss ref_time (off - RTIMER_GUARD) now then (False, x)
      else if rtimer_ok then (True, x\<lparr>slot_timer := Some (ref_time + off)\<rparr>)
      else (False, x))"

section \<open>The packet of a slot\<close>

text \<open>The result is the packet and the target neighbor.\<close>

definition get_packet_and_neighbor_for_link :: "nat \<Rightarrow> tsch \<Rightarrow> nat option \<times> nat option" where
  "get_packet_and_neighbor_for_link l s =
     (if link_options (link s l) AND LINK_OPTION_TX \<noteq> 0 then
        (let (p1, n1) = (if l_type (link s l) = LINK_TYPE_ADVERTISING \<or> l_type (link s l) = LINK_TYPE_ADVERTISING_ONLY
                         then (tsch_queue_get_packet_for_nbr (n_eb s) (Some l) s, n_eb s) else (None, None))
         in if l_type (link s l) \<noteq> LINK_TYPE_ADVERTISING_ONLY \<and> p1 = None then
              (let n2 = tsch_queue_get_nbr (l_addr (link s l)) s;
                   p2 = tsch_queue_get_packet_for_nbr n2 (Some l) s
               in if p2 = None \<and> n2 = n_broadcast s then
                    (case tsch_queue_get_unicast_packet_for_any (Some l) s of
                       None \<Rightarrow> (None, n2) | Some (p3, n3) \<Rightarrow> (Some p3, Some n3))
                  else (p2, n2))
            else (p1, n1))
      else (None, None))"

section \<open>The radio\<close>

datatype tsch_radio_state_on_cmd =
  TSCH_RADIO_CMD_ON_START_OF_TIMESLOT | TSCH_RADIO_CMD_ON_WITHIN_TIMESLOT | TSCH_RADIO_CMD_ON_FORCE

datatype tsch_radio_state_off_cmd =
  TSCH_RADIO_CMD_OFF_END_OF_TIMESLOT | TSCH_RADIO_CMD_OFF_WITHIN_TIMESLOT | TSCH_RADIO_CMD_OFF_FORCE

definition tsch_radio_on :: "node_conf \<Rightarrow> tsch_radio_state_on_cmd \<Rightarrow> node \<Rightarrow> node" where
  "tsch_radio_on cf c x =
     (let do_it = (case c of TSCH_RADIO_CMD_ON_START_OF_TIMESLOT \<Rightarrow> radio_on_during_timeslot cf
                   | TSCH_RADIO_CMD_ON_WITHIN_TIMESLOT \<Rightarrow> \<not> radio_on_during_timeslot cf
                   | TSCH_RADIO_CMD_ON_FORCE \<Rightarrow> True)
      in if do_it then x\<lparr>radio_is_on := True\<rparr> else x)"

definition tsch_radio_off :: "node_conf \<Rightarrow> tsch_radio_state_off_cmd \<Rightarrow> node \<Rightarrow> node" where
  "tsch_radio_off cf c x =
     (let do_it = (case c of TSCH_RADIO_CMD_OFF_END_OF_TIMESLOT \<Rightarrow> radio_on_during_timeslot cf
                   | TSCH_RADIO_CMD_OFF_WITHIN_TIMESLOT \<Rightarrow> \<not> radio_on_during_timeslot cf
                   | TSCH_RADIO_CMD_OFF_FORCE \<Rightarrow> True)
      in if do_it then x\<lparr>radio_is_on := False\<rparr> else x)"

section \<open>Node identifiers\<close>

text \<open>\<^verbatim>\<open>os/services/deployment/deployment.c\<close>: the table ends with identifier 0.\<close>

fun nodeid_loop :: "linkaddr \<Rightarrow> (u16 \<times> linkaddr) list \<Rightarrow> u16" where
  "nodeid_loop a [] = 0"
| "nodeid_loop a ((i, mac) # ids) = (if i = 0 then 0 else if linkaddr_cmp a mac then i else nodeid_loop a ids)"

definition nodeid_from_linkaddr :: "(u16 \<times> linkaddr) list \<Rightarrow> linkaddr option \<Rightarrow> u16" where
  "nodeid_from_linkaddr ids a = (case a of None \<Rightarrow> 0 | Some b \<Rightarrow> nodeid_loop b ids)"

definition lower_node :: "node_conf \<Rightarrow> linkaddr \<Rightarrow> bool" where
  "lower_node cf a =
     (let nbr_id = nodeid_from_linkaddr (id_mac_list cf) (Some a) in nbr_id > 0 \<and> nbr_id < node_id cf)"

section \<open>The transmit slot\<close>

text \<open>What the environment answers in a transmit slot: whether \<open>prepare\<close> succeeded, the result of \<open>transmit\<close>, the acknowledgment
  buffer with the length that \<open>read\<close> returned, random numbers, the clock, and the contents of the frame structure on the stack.\<close>

record tx_env =
  te_prepare_ok :: bool
  te_transmit :: u8
  te_ackbuf :: "u8 list"
  te_ack_len :: int
  te_rnd_backoff :: u16
  te_rnd_learn :: u16
  te_rnd_keepalive :: u16
  te_clock :: u32
  te_junk :: frame802154_t

text \<open>The payload of the packet is written in place, in the data block of its queuebuf.\<close>

definition queuebuf_write :: "nat \<Rightarrow> u8 list \<Rightarrow> tsch \<Rightarrow> tsch outcome" where
  "queuebuf_write b bs s =
     obind (queuebuf_load_to_ram b (qbs s)) (\<lambda>r.
     Done (s\<lparr>qbs := (qbs s)\<lparr>buframmem := blk_upd r (\<lambda>d. d\<lparr>qd_data := bs\<rparr>) (buframmem (qbs s))\<rparr>\<rparr>))"

text \<open>Securing the frame, into a separate buffer if the payload is encrypted. The result is the buffer to send from, its length and the state.\<close>

definition tx_secure :: "node_conf \<Rightarrow> tx_env \<Rightarrow> nat \<Rightarrow> nat \<Rightarrow> u8 list \<Rightarrow> u8 \<Rightarrow> node \<Rightarrow> (u8 list \<times> u8 \<times> node) outcome" where
  "tx_secure cf ev p b packet packet_len x =
     (if tsch_is_pan_secured x then
        obind (queuebuf_attr b PACKETBUF_ATTR_SECURITY_LEVEL (qbs (core x))) (\<lambda>lv.
          let with_encryption = lv AND 4 \<noteq> 0; hl = uint (header_len (pkt (core x) p)) in
          obind (tsch_security_secure_frame (linkaddr_node_addr cf) (te_junk ev) (Some packet)
                   (Some (if with_encryption then encrypted_packet x else packet)) (\<not> with_encryption)
                   hl (uint packet_len - hl) (tsch_current_asn x)) (\<lambda>(k, out).
          case out of None \<Rightarrow> Fault
          | Some o' \<Rightarrow>
              if with_encryption then Done (o', packet_len + of_nat k, x\<lparr>encrypted_packet := o'\<rparr>)
              else obind (queuebuf_write b o' (core x)) (\<lambda>s. Done (o', packet_len + of_nat k, x\<lparr>core := s\<rparr>))))
      else Done (packet, packet_len, x))"

text \<open>The frame to send: frame pending bit, sequence number, synchronization element of a beacon. The result of \<open>tx_prepare\<close> is whether
  the packet is ready, the buffer to send from, its length, the sequence number, whether a burst link was requested, and the state.\<close>

definition tx_payload :: "bool \<Rightarrow> bool \<Rightarrow> u8 \<Rightarrow> u8 \<Rightarrow> node \<Rightarrow> u8 list \<Rightarrow> (bool \<times> u8 list \<times> u8) outcome" where
  "tx_payload burst_link_requested is_eb packet_len off x packet0 =
     obind (if burst_link_requested then tsch_packet_set_frame_pending packet0 else Done packet0) (\<lambda>packet1.
     obind (mem_read 2 1 packet1) (\<lambda>sq.
     obind (if is_eb then tsch_packet_update_eb (tsch_current_asn x) (tsch_join_priority x) packet1 (uint packet_len) off
            else Done (True, packet1)) (\<lambda>(packet_ready, packet2).
     Done (packet_ready, packet2, sq ! 0))))"

definition tx_prepare :: "node_conf \<Rightarrow> tx_env \<Rightarrow> nat \<Rightarrow> nat \<Rightarrow> nat \<Rightarrow> node \<Rightarrow> (bool \<times> u8 list \<times> u8 \<times> u8 \<times> bool \<times> node) outcome" where
  "tx_prepare cf ev n p b x =
     obind (queuebuf_dataptr b (qbs (core x))) (\<lambda>ptr. case ptr of None \<Rightarrow> Fault | Some packet0 \<Rightarrow>
     obind (queuebuf_datalen b (qbs (core x))) (\<lambda>dl.
       let packet_len = ucast dl :: u8;
           (count, s1) = (if \<not> is_broadcast (nbr (core x) n) \<and> tsch_current_burst_count x + 1 < TSCH_BURST_MAX_LEN
                          then tsch_queue_packet_count (n_addr (nbr (core x) n)) (core x) else (0, core x));
           burst_link_requested = count > 1
       in
       obind (tx_payload burst_link_requested (Some n = n_eb s1) packet_len (tsch_sync_ie_offset (pkt s1 p)) x packet0)
         (\<lambda>(packet_ready, packet1, sq).
       obind (queuebuf_write b packet1 s1) (\<lambda>s2.
       obind (tx_secure cf ev p b packet1 packet_len (x\<lparr>core := s2\<rparr>)) (\<lambda>(packet, len, x3).
       Done (packet_ready, packet, len, sq, burst_link_requested, x3))))))"

text \<open>The acknowledgment: None if there is none or it is refused, otherwise the elements in it; a negative length counts as an
  acknowledgment without elements, from no time source.\<close>

definition tx_read_ack :: "node_conf \<Rightarrow> tx_env \<Rightarrow> nat \<Rightarrow> u8 \<Rightarrow> node \<Rightarrow> ieee802154_ies option option outcome" where
  "tx_read_ack cf ev n sq x =
     (if te_ack_len ev > 0 then
        (case tsch_packet_parse_eack (pan_id x) (linkaddr_node_addr cf) (te_ackbuf ev) (te_ack_len ev) sq
                (Some (te_junk ev)) (Some ies_zero) (Some 0) of
           Fault \<Rightarrow> Fault
         | Failed \<Rightarrow> Done None
         | Done (r, f, ies, hl) \<Rightarrow>
             if r = 0 then Done None
             else
               obind (tsch_security_parse_frame (tsch_is_associated (core x)) (tsch_is_pan_secured x) (Some (te_ackbuf ev))
                        (uint (the hl)) (te_ack_len ev - uint (the hl) - int (tsch_security_mic_len (Some f)))
                        (Some f) (n_addr (nbr (core x) n)) (tsch_current_asn x)) (\<lambda>(ok, _).
               Done (if ok \<noteq> 0 then Some ies else None)))
      else if te_ack_len ev < 0 then Done (Some None)
      else Done None)"

definition bound_drift :: "int \<Rightarrow> int" where
  "bound_drift d = (if d > SYNC_IE_BOUND then SYNC_IE_BOUND else if d < - SYNC_IE_BOUND then - SYNC_IE_BOUND else d)"

text \<open>A synchronization: the drift correction of this slot, the drift estimation and the keep-alive timer.\<close>

definition slot_sync :: "node_conf \<Rightarrow> u16 \<Rightarrow> u16 \<Rightarrow> u32 \<Rightarrow> nat option \<Rightarrow> int \<Rightarrow> node \<Rightarrow> node outcome" where
  "slot_sync cf rnd_learn rnd_keepalive clock n drift x =
     (let since_last_timesync = TSCH_ASN_DIFF (tsch_current_asn x) (last_sync_asn x) in
      obind (tsch_timesync_update (timeslot_len cf x) rnd_learn n (ucast since_last_timesync) drift (tsync x) (core x)) (\<lambda>(t, s).
      Done (x\<lparr>drift_correction := drift, is_drift_correction_used := True, tsync := t, last_sync_asn := tsch_current_asn x,
              last_sync_time := clock, core := tsch_schedule_keepalive rnd_keepalive s\<rparr>)))"

definition time_keeping :: "node \<Rightarrow> bool" where
  "time_keeping x = (case current_link (core x) of None \<Rightarrow> False
     | Some l \<Rightarrow> link_options (link (core x) l) AND LINK_OPTION_TIME_KEEPING \<noteq> 0)"

definition tx_await_ack :: "node_conf \<Rightarrow> tx_env \<Rightarrow> nat \<Rightarrow> nat \<Rightarrow> u8 \<Rightarrow> bool \<Rightarrow> node \<Rightarrow> node outcome" where
  "tx_await_ack cf ev n b sq burst_link_requested x0 =
     (let x = tsch_radio_off cf TSCH_RADIO_CMD_OFF_WITHIN_TIMESLOT (tsch_radio_on cf TSCH_RADIO_CMD_ON_WITHIN_TIMESLOT x0) in
      obind (queuebuf_addr b PACKETBUF_ADDR_RECEIVER (qbs (core x))) (\<lambda>recv.
      obind (tx_read_ack cf ev n sq x) (\<lambda>ack.
        let from_time_source = te_ack_len ev > 0 \<and>
              (if sync_with_lower_node_id cf then lower_node cf recv else is_time_source (nbr (core x) n))
        in case ack of
             None \<Rightarrow> Done (x\<lparr>mac_tx_status := MAC_TX_NOACK\<rparr>)
           | Some ies \<Rightarrow>
               obind (case ies of None \<Rightarrow> Done x
                      | Some i \<Rightarrow>
                          if from_time_source \<and> time_keeping x
                          then slot_sync cf (te_rnd_learn ev) (te_rnd_keepalive ev) (te_clock ev) (Some n)
                                 (bound_drift (US_TO_RTIMERTICKS (sint (ie_time_correction i)))) x
                          else Done x) (\<lambda>y.
               Done (y\<lparr>mac_tx_status := MAC_TX_OK,
                       burst_link_scheduled := burst_link_requested \<or> burst_link_scheduled y\<rparr>)))))"

definition tx_transmit :: "node_conf \<Rightarrow> tx_env \<Rightarrow> nat \<Rightarrow> nat \<Rightarrow> u8 list \<Rightarrow> u8 \<Rightarrow> u8 \<Rightarrow> bool \<Rightarrow> node \<Rightarrow> node outcome" where
  "tx_transmit cf ev n b packet packet_len sq burst_link_requested x =
     (let x1 = tsch_radio_off cf TSCH_RADIO_CMD_OFF_WITHIN_TIMESLOT
                 (x\<lparr>radio_sent := radio_sent x @ [take (unat packet_len) packet], tx_count := tx_count x + 1\<rparr>)
      in if te_transmit ev = RADIO_TX_OK then
           (if \<not> is_broadcast (nbr (core x) n) then tx_await_ack cf ev n b sq burst_link_requested x1
            else Done (x1\<lparr>mac_tx_status := MAC_TX_OK\<rparr>))
         else Done (x1\<lparr>mac_tx_status := MAC_TX_ERR\<rparr>))"

text \<open>The end of the slot: the queue is updated and a packet that left it is kept for \<open>tsch_tx_process_pending\<close>.\<close>

definition tx_finish :: "node_conf \<Rightarrow> tx_env \<Rightarrow> nat \<Rightarrow> nat \<Rightarrow> nat \<Rightarrow> nat \<Rightarrow> node \<Rightarrow> node outcome" where
  "tx_finish cf ev i n p l x0 =
     (let x = tsch_radio_off cf TSCH_RADIO_CMD_OFF_END_OF_TIMESLOT x0;
          s1 = pkt_upd p (\<lambda>k. k\<lparr>transmissions := transmissions k + 1, p_ret := mac_tx_status x\<rparr>) (core x);
          (in_queue, s2) = tsch_queue_packet_sent (te_rnd_backoff ev) n p l (mac_tx_status x) s1;
          y = x\<lparr>core := s2, events_polled := True\<rparr>
      in if in_queue = 0 then
           (if i < length (dequeued_array y)
            then Done (y\<lparr>dequeued_array := (dequeued_array y)[i := Some p],
                         dequeued_ringbuf := snd (ringbufindex_put (dequeued_ringbuf y))\<rparr>)
            else Fault)
         else Done y)"

text \<open>\<open>mac_tx_status\<close> is static: it keeps its value from the last slot if the packet is not ready or the radio refuses it.\<close>

definition tsch_tx_slot :: "node_conf \<Rightarrow> tx_env \<Rightarrow> node \<Rightarrow> node outcome" where
  "tsch_tx_slot cf ev x =
     (let dequeued_index = ringbufindex_peek_put (dequeued_ringbuf x) in
      if dequeued_index = -1 then Done x
      else
        (case (current_packet x, current_neighbor x, current_link (core x)) of
           (Some p, Some n, Some l) \<Rightarrow>
             obind (case p_qb (pkt (core x) p) of None \<Rightarrow> Done (x\<lparr>mac_tx_status := MAC_TX_ERR_FATAL\<rparr>)
                    | Some b \<Rightarrow>
                        obind (tx_prepare cf ev n p b x) (\<lambda>(packet_ready, packet, packet_len, sq, burst_link_requested, x1).
                        if packet_ready \<and> te_prepare_ok ev
                        then tx_transmit cf ev n b packet packet_len sq burst_link_requested x1
                        else Done x1)) (\<lambda>x2.
             tx_finish cf ev (nat dequeued_index) n p l x2)
         | _ \<Rightarrow> Fault))"

section \<open>The receive slot\<close>

text \<open>What the environment answers in a receive slot: whether a packet was seen within the guard time, whether one is pending at its
  end, the payload buffer after \<open>read\<close>, its length, signal strength and start time.\<close>

record rx_env =
  re_packet_seen :: bool
  re_pending :: bool
  re_payload :: "u8 list"
  re_len :: int
  re_rssi :: int
  re_start_time :: u32
  re_rnd_learn :: u16
  re_rnd_keepalive :: u16
  re_clock :: u32
  re_ackbuf :: "u8 list"
  re_junk :: frame802154_t
  re_ack_junk :: frame802154_t

text \<open>The frame checks: the header, the PAN, the addresses, the type and the security. The result is the frame, its source
  address, the payload after decryption and the length without the message integrity code; None if the frame is not valid. The
  place of an invalid frame in the input array is not put into the ring, its contents are not read again.\<close>

definition rx_check :: "rx_env \<Rightarrow> node \<Rightarrow> (frame802154_t \<times> linkaddr \<times> linkaddr \<times> u8 list \<times> int) option outcome" where
  "rx_check ev x =
     obind (frame802154_parse (re_payload ev) (re_len ev) (re_junk ev)) (\<lambda>(hl, f).
       let (ok, src, dst) = frame802154_extract_linkaddr (Some f) [] [] in
       if hl > 0 \<and> frame802154_check_dest_panid (pan_id x) (Some f) \<and> ok \<noteq> 0 \<and>
          (frame_type (fcf f) = FRAME802154_DATAFRAME \<or> frame_type (fcf f) = FRAME802154_BEACONFRAME)
       then
         (let mic_len = int (tsch_security_mic_len (Some f)) in
          obind (tsch_security_parse_frame (tsch_is_associated (core x)) (tsch_is_pan_secured x) (Some (re_payload ev))
                   (int hl) (re_len ev - int hl - mic_len) (Some f) src (tsch_current_asn x)) (\<lambda>(r, buf).
          Done (if r \<noteq> 0 then Some (f, src, dst, the buf, re_len ev - mic_len) else None)))
       else Done None)"

text \<open>The acknowledgment: built, secured and sent; the frame pending bit of the received frame schedules a burst link.\<close>

definition rx_send_ack :: "node_conf \<Rightarrow> rx_env \<Rightarrow> linkaddr \<Rightarrow> u8 \<Rightarrow> int \<Rightarrow> u8 list \<Rightarrow> node \<Rightarrow> node outcome" where
  "rx_send_ack cf ev src sq estimated_drift buf x =
     obind (tsch_packet_create_eack (eack_with_dest cf) (eack_with_src cf) (tsch_is_pan_secured x) (pan_id x) (linkaddr_node_addr cf)
              (re_ack_junk ev) (Some (re_ackbuf ev)) (of_nat TSCH_PACKET_MAX_LEN) (Some src) sq
              (word_of_int (RTIMERTICKS_TO_US estimated_drift)) 0 (eack_attrs_buf x)) (\<lambda>(ack_len, att, ack).
       let x1 = x\<lparr>eack_attrs_buf := att\<rparr> in
       if ack_len > 0 then
         obind (if tsch_is_pan_secured x1
                then tsch_security_secure_frame (linkaddr_node_addr cf) (re_ack_junk ev) ack ack True ack_len 0 (tsch_current_asn x1)
                else Done (0, ack)) (\<lambda>(k, out).
         obind (tsch_packet_get_frame_pending buf) (\<lambda>pending.
         Done (tsch_radio_off cf TSCH_RADIO_CMD_OFF_WITHIN_TIMESLOT
                 (x1\<lparr>radio_sent := radio_sent x1 @ [take (nat (ack_len + int k)) (the out)],
                     burst_link_scheduled := pending \<noteq> 0\<rparr>))))
       else Done x1)"

text \<open>A valid frame for this node or for all. \<open>estimated_drift\<close> is the difference between the expected and the actual start.\<close>

definition rx_accept :: "node_conf \<Rightarrow> rx_env \<Rightarrow> frame802154_t \<Rightarrow> linkaddr \<Rightarrow> u8 list \<Rightarrow> node \<Rightarrow> node outcome" where
  "rx_accept cf ev f src buf x0 =
     (let x = x0\<lparr>rx_count := rx_count x0 + 1\<rparr>;
          expected_rx_time = current_slot_start x + timings x (tsch_timing x) ! tsch_ts_tx_offset;
          estimated_drift = sint (expected_rx_time - re_start_time ev)
      in
      obind (if ack_required (fcf f) \<noteq> 0 then rx_send_ack cf ev src (seq f) estimated_drift buf x else Done x) (\<lambda>x1.
        let n = tsch_queue_get_nbr src (core x1);
            from_time_source = (if sync_with_lower_node_id cf then lower_node cf src
                                else (case n of None \<Rightarrow> False | Some i \<Rightarrow> is_time_source (nbr (core x1) i)))
        in
        obind (if from_time_source \<and> time_keeping x1
               then slot_sync cf (re_rnd_learn ev) (re_rnd_keepalive ev) (re_clock ev) n (s32 (- estimated_drift))
                      (x1\<lparr>sync_count := sync_count x1 + 1\<rparr>)
               else Done x1) (\<lambda>x2.
        Done (x2\<lparr>input_ringbuf := snd (ringbufindex_put (input_ringbuf x2))\<rparr>))))"

definition rx_receive :: "node_conf \<Rightarrow> rx_env \<Rightarrow> nat \<Rightarrow> node \<Rightarrow> node outcome" where
  "rx_receive cf ev i x =
     obind (rx_check ev x) (\<lambda>r.
       let current_input = \<lparr>ip_payload = re_payload ev, ip_rx_asn = tsch_current_asn x, ip_len = re_len ev,
             ip_rssi = s16 (re_rssi ev), ip_channel = tsch_current_channel x\<rparr>
       in case r of
            None \<Rightarrow> Done (x\<lparr>input_array := (input_array x)[i := current_input]\<rparr>)
          | Some (f, src, dst, buf, len) \<Rightarrow>
              (let x1 = x\<lparr>input_array := (input_array x)[i := current_input\<lparr>ip_payload := buf, ip_len := len\<rparr>]\<rparr> in
               obind (if linkaddr_cmp dst (linkaddr_node_addr cf) \<or> linkaddr_cmp dst linkaddr_null
                      then rx_accept cf ev f src buf x1 else Done x1) (\<lambda>x2.
               Done (x2\<lparr>events_polled := True\<rparr>))))"

definition tsch_rx_slot :: "node_conf \<Rightarrow> rx_env \<Rightarrow> node \<Rightarrow> node outcome" where
  "tsch_rx_slot cf ev x =
     (let input_index = ringbufindex_peek_put (input_ringbuf x) in
      if input_index = -1 then Done (x\<lparr>input_queue_drop := input_queue_drop x + 1\<rparr>)
      else if \<not> nat input_index < length (input_array x) then Fault
      else
        (let x1 = tsch_radio_on cf TSCH_RADIO_CMD_ON_WITHIN_TIMESLOT x in
         obind (if \<not> re_packet_seen ev then Done (tsch_radio_off cf TSCH_RADIO_CMD_OFF_FORCE x1)
                else
                  (let x2 = tsch_radio_off cf TSCH_RADIO_CMD_OFF_WITHIN_TIMESLOT x1 in
                   obind (if re_pending ev then rx_receive cf ev (nat input_index) x2 else Done x2) (\<lambda>x3.
                   Done (tsch_radio_off cf TSCH_RADIO_CMD_OFF_END_OF_TIMESLOT x3)))) (\<lambda>x4.
         Done (x4\<lparr>input_queue_drop := 0\<rparr>))))"

section \<open>A slot\<close>

text \<open>What the radio answers: the length of its hopping sequence and its timing table, if it has them.\<close>

record slot_env =
  se_divisor :: "tsch_asn_divisor_t option"
  se_timing :: "nat option"
  se_tx :: tx_env
  se_rx :: rx_env

text \<open>\<^verbatim>\<open>tsch.c\<close>: the main process is polled so that it leaves the network.\<close>

definition tsch_disassociate :: "node \<Rightarrow> node" where
  "tsch_disassociate x =
     (if tsch_is_associated (core x)
      then x\<lparr>core := (core x)\<lparr>tsch_is_associated := False\<rparr>, main_polled := True\<rparr> else x)"

text \<open>The packet and link of the slot; without a packet and without an Rx flag the backup link is used.\<close>

definition slot_select :: "nat \<Rightarrow> node \<Rightarrow> nat \<times> node" where
  "slot_select l x =
     (let (p, n) = get_packet_and_neighbor_for_link l (core x) in
      case (p, has_rx (core x) l, backup_link x) of
        (None, False, Some l2) \<Rightarrow>
          (let s = (core x)\<lparr>current_link := Some l2\<rparr>; (p2, n2) = get_packet_and_neighbor_for_link l2 s
           in (l2, x\<lparr>core := s, current_packet := p2, current_neighbor := n2\<rparr>))
      | _ \<Rightarrow> (l, x\<lparr>current_packet := p, current_neighbor := n\<rparr>))"

definition slot_channel :: "node_conf \<Rightarrow> slot_env \<Rightarrow> nat \<Rightarrow> node \<Rightarrow> node outcome" where
  "slot_channel cf ev l x =
     obind (if burst_link_scheduled x then Done (x\<lparr>burst_link_scheduled := False\<rparr>)
            else obind (tsch_calculate_channel (no_hopping_sequence cf) (se_divisor ev) (tsch_current_asn x)
                          (ucast (channel_offset (link (core x) l))) x) (\<lambda>c.
                 Done (x\<lparr>tsch_current_channel := c\<rparr>))) (\<lambda>x1.
     Done (x1\<lparr>tsch_timing := (case se_timing ev of Some t \<Rightarrow> t | None \<Rightarrow> multiphy_default_timing cf)\<rparr>))"

definition slot_run :: "node_conf \<Rightarrow> slot_env \<Rightarrow> nat \<Rightarrow> node \<Rightarrow> node outcome" where
  "slot_run cf ev l0 x0 =
     (let (l, x) = slot_select l0 (x0\<lparr>tsch_in_slot_operation := True, drift_correction := 0, is_drift_correction_used := False\<rparr>);
          sample = link_options (link (core x) l) AND LINK_OPTION_SAMPLE_RSSI \<noteq> 0
      in if current_packet x \<noteq> None \<or> has_rx (core x) l \<or> sample then
           obind (slot_channel cf ev l x) (\<lambda>x1.
             let x2 = tsch_radio_on cf TSCH_RADIO_CMD_ON_START_OF_TIMESLOT x1 in
             if sample then Done (tsch_radio_off cf TSCH_RADIO_CMD_OFF_END_OF_TIMESLOT x2)
             else if current_packet x2 \<noteq> None then tsch_tx_slot cf (se_tx ev) x2
             else tsch_rx_slot cf (se_rx ev) x2)
         else Done (x\<lparr>burst_link_scheduled := False\<rparr>))"

text \<open>One round of the loop that schedules the next wake-up: the result is the reference time, the time to the next active slot
  and the state.\<close>

definition next_slot :: "node_conf \<Rightarrow> node \<Rightarrow> u32 \<times> u32 \<times> node" where
  "next_slot cf x =
     (let s = core x;
          s1 = (case current_link s of None \<Rightarrow> s
                | Some l \<Rightarrow> if has_tx s l \<and> link_options (link s l) AND LINK_OPTION_SHARED \<noteq> 0
                            then tsch_queue_update_all_backoff_windows (l_addr (link s l)) s else s);
          (diff, x1) =
            (if burst_link_scheduled x
             then (1, x\<lparr>core := s1, backup_link := None, tsch_current_burst_count := tsch_current_burst_count x + 1\<rparr>)
             else
               (case tsch_schedule_get_next_active_link (tsch_current_asn x) s1 of
                  (None, _, bk) \<Rightarrow> (1, x\<lparr>core := s1\<lparr>current_link := None\<rparr>, backup_link := bk\<rparr>)
                | (Some l, d, bk) \<Rightarrow> (the d, x\<lparr>core := s1\<lparr>current_link := Some l\<rparr>, backup_link := bk, tsch_current_burst_count := 0\<rparr>)));
          t = ucast (diff :: u16) * timeslot_len cf x + word_of_int (drift_correction x);
          (comp, ts) = tsch_timesync_adaptive_compensate (base_drift cf) t (tsync x1);
          time_to_next_active_slot = t + word_of_int comp
      in (current_slot_start x, time_to_next_active_slot,
          x1\<lparr>tsync := ts, tsch_current_asn := TSCH_ASN_INC (tsch_current_asn x) (ucast diff), drift_correction := 0,
             is_drift_correction_used := False, current_slot_start := current_slot_start x + time_to_next_active_slot\<rparr>))"

text \<open>The loop ends when the timer could be set. Each round reads the clock and calls \<open>rtimer_set\<close>: the list holds what they answer;
  None is a loop that has not ended after these rounds.\<close>

fun next_slot_loop :: "node_conf \<Rightarrow> (u32 \<times> bool) list \<Rightarrow> node \<Rightarrow> node option" where
  "next_slot_loop cf [] x = None"
| "next_slot_loop cf ((now, rtimer_ok) # obs) x =
     (let (prev_slot_start, t, x1) = next_slot cf x;
          (scheduled, x2) = tsch_schedule_slot_operation prev_slot_start t now rtimer_ok x1
      in if scheduled then Some x2 else next_slot_loop cf obs x2)"

definition out_of_sync :: "node_conf \<Rightarrow> node \<Rightarrow> bool" where
  "out_of_sync cf x \<longleftrightarrow> \<not> tsch_is_coordinator (core x) \<and>
     TSCH_ASN_DIFF (tsch_current_asn x) (last_sync_asn x) > desync_ticks cf div timeslot_len cf x"

text \<open>One activation of the slot operation, from a wake-up to the next yield; \<open>Failed\<close> if the rounds in \<open>obs\<close> do not suffice.\<close>

definition tsch_slot_operation :: "node_conf \<Rightarrow> slot_env \<Rightarrow> (u32 \<times> bool) list \<Rightarrow> node \<Rightarrow> node outcome" where
  "tsch_slot_operation cf ev obs x =
     (if \<not> tsch_is_associated (core x) then Done x
      else
        obind (case current_link (core x) of
                 None \<Rightarrow> Done x
               | Some l \<Rightarrow> if tsch_lock_requested (core x) then Done x else slot_run cf ev l x) (\<lambda>x1.
        if \<not> tsch_is_coordinator (core x1) \<and> timeslot_len cf x1 = 0 then Fault
        else if out_of_sync cf x1
        then Done ((tsch_disassociate (x1\<lparr>tsync := (tsync x1)\<lparr>last_timesource_neighbor := None\<rparr>\<rparr>))\<lparr>tsch_in_slot_operation := False\<rparr>)
        else (case next_slot_loop cf obs x1 of
                None \<Rightarrow> Failed
              | Some x2 \<Rightarrow> Done (x2\<lparr>tsch_in_slot_operation := False\<rparr>))))"

fun start_loop :: "node_conf \<Rightarrow> (u32 \<times> bool) list \<Rightarrow> node \<Rightarrow> node option" where
  "start_loop cf [] x = None"
| "start_loop cf ((now, rtimer_ok) # obs) x =
     (let (l, d, bk) = tsch_schedule_get_next_active_link (tsch_current_asn x) (core x);
          diff = (case l of None \<Rightarrow> 1 | Some _ \<Rightarrow> the d);
          t = ucast diff * timeslot_len cf x;
          x1 = x\<lparr>core := (core x)\<lparr>current_link := l\<rparr>, backup_link := bk,
                 tsch_current_asn := TSCH_ASN_INC (tsch_current_asn x) (ucast diff),
                 current_slot_start := current_slot_start x + t\<rparr>;
          (scheduled, x2) = tsch_schedule_slot_operation (current_slot_start x) t now rtimer_ok x1
      in if scheduled then Some x2 else start_loop cf obs x2)"

definition tsch_slot_operation_start :: "node_conf \<Rightarrow> (u32 \<times> bool) list \<Rightarrow> node \<Rightarrow> node option" where
  "tsch_slot_operation_start cf obs x = start_loop cf obs x"

definition tsch_slot_operation_sync :: "u32 \<Rightarrow> tsch_asn_t \<Rightarrow> u32 \<Rightarrow> node \<Rightarrow> node" where
  "tsch_slot_operation_sync next_slot_start next_slot_asn clock x =
     x\<lparr>current_slot_start := next_slot_start, tsch_current_asn := next_slot_asn, last_sync_asn := next_slot_asn,
       last_sync_time := clock, core := (core x)\<lparr>current_link := None\<rparr>\<rparr>"

end
