(* ===== verification/SlotOpProps.thy ===== *)
theory SlotOpProps
  imports SlotOp NextLink
begin

text \<open>
  Correctness of channel hopping, of the deadline check and of the loop that schedules the next slot: links are executed in
  their timeslots, and the start of a slot and its ASN stay in step.
\<close>

section \<open>Deadlines\<close>

lemma check_timer_miss_eq: "check_timer_miss ref_time off now \<longleftrightarrow> off \<le> now - ref_time"
proof -
  let ?r = "unat ref_time" and ?o = "unat off" and ?n = "unat now"
  have b: "?r < 4294967296" "?o < 4294967296" "?n < 4294967296" by (rule u32_bound)+
  have t: "unat (ref_time + off) = (if ?r + ?o < 4294967296 then ?r + ?o else ?r + ?o - 4294967296)"
    using b by (simp add: unat_word_ariths mod_if)
  have d: "unat (now - ref_time) = (if ?r \<le> ?n then ?n - ?r else ?n + 4294967296 - ?r)"
    using b by (simp add: unat_sub_if')
  have "check_timer_miss ref_time off now \<longleftrightarrow>
      (if (?n < ?r) = (unat (ref_time + off) < ?r) then unat (ref_time + off) \<le> ?n else ?n < ?r)"
    by (simp add: check_timer_miss_def Let_def word_less_nat_alt word_le_nat_alt)
  also have "\<dots> \<longleftrightarrow> ?o \<le> unat (now - ref_time)"
    unfolding t d using b by (simp split: if_split) linarith
  finally show ?thesis by (simp add: word_le_nat_alt)
qed

section \<open>The schedule while waking up\<close>

text \<open>The parts of the state that the choice of the next link reads.\<close>

definition same_schedule :: "tsch \<Rightarrow> tsch \<Rightarrow> bool" where
  "same_schedule s s' \<longleftrightarrow> slotframe_list s' = slotframe_list s \<and> slotframe_memb s' = slotframe_memb s \<and>
     link_memb s' = link_memb s \<and> tsch_locked s' = tsch_locked s"

lemma same_schedule_reads:
  assumes "same_schedule s s'"
  shows "candidates s' = candidates s" "slot_dist s' asn c = slot_dist s asn c" "sf_ok s' f = sf_ok s f"
    "preferred s' asn c d = preferred s asn c d"
  using assms
  by (simp_all add: same_schedule_def candidates_def slot_dist_def sf_ok_def preferred_def has_tx_def)

lemma backoff_loop_schedule: "same_schedule s (backoff_loop a ns s)"
  by (induction ns arbitrary: s) (simp_all add: same_schedule_def)

lemma update_backoff_schedule: "same_schedule s (tsch_queue_update_all_backoff_windows a s)"
  by (simp add: tsch_queue_update_all_backoff_windows_def backoff_loop_schedule) (simp add: same_schedule_def)

text \<open>No slot before the next occurrence of a link's timeslot is a slot of the link.\<close>

lemma same_residue:
  assumes "(a + i) mod v = (a + j) mod v" "0 < i" "i \<le> v" "0 < j" "j \<le> (v :: nat)"
  shows "i = j"
proof -
  have le: "p = q" if h: "(a + p) mod v = (a + q) mod v" "p \<le> q" "0 < p" "q \<le> v" for p q
  proof (rule ccontr)
    assume "p \<noteq> q"
    moreover have "v dvd (a + q) - (a + p)" using h(1,2) by (intro mod_eq_dvd_iff_nat [THEN iffD1]) simp_all
    ultimately show False using h(2-4) by (auto dest!: dvd_imp_le)
  qed
  show ?thesis
    using le [of i j] le [of j i] assms by (cases "i \<le> j") auto
qed

lemma slot_dist_first:
  assumes "sf_ok s f" "l \<in> set (links_list (sframe s f))" "0 < j" "j \<le> unat (div_val (sf_size (sframe s f)))"
    "(asn_val asn + j) mod unat (div_val (sf_size (sframe s f))) = unat (timeslot (link s l))"
  shows "j = unat (slot_dist s asn (f, l))"
  by (rule same_residue [where a = "asn_val asn", OF _ assms(3,4)]) (use slot_dist_exact [OF assms(1,2), of asn] assms(5) in simp_all)

text \<open>One round: \<open>a\<close> is the ASN before it and \<open>b\<close> after it; the link is one of slot \<open>b\<close>, and no link has a slot between.\<close>

definition next_active :: "tsch \<Rightarrow> nat \<Rightarrow> nat \<Rightarrow> nat option \<Rightarrow> bool" where
  "next_active s a b l \<longleftrightarrow> a < b \<and>
     (case l of None \<Rightarrow> candidates s = [] \<and> b = a + 1
      | Some i \<Rightarrow> \<exists>f. (f, i) \<in> set (candidates s) \<and>
          b mod unat (div_val (sf_size (sframe s f))) = unat (timeslot (link s i))) \<and>
     (\<forall>(g, m) \<in> set (candidates s). \<forall>t. a < t \<and> t < b \<longrightarrow>
        t mod unat (div_val (sf_size (sframe s g))) \<noteq> unat (timeslot (link s m)))"

lemma next_active_round:
  assumes ul: "\<not> tsch_locked s" and ok: "\<And>f. f \<in> set (slotframe_list s) \<Longrightarrow> sf_ok s f"
    and r: "tsch_schedule_get_next_active_link asn s = (l, d, bk)"
  shows "next_active s (asn_val asn) (asn_val asn + (case l of None \<Rightarrow> 1 | Some _ \<Rightarrow> unat (the d))) l"
proof (cases "candidates s = []")
  case True
  then have "l = None" using next_link_spec [OF ul ok, where asn = asn] r by simp
  then show ?thesis using True by (simp add: next_active_def)
next
  case False
  then obtain f i t where fi: "(f, i) \<in> set (candidates s)" "l = Some i" "d = Some t"
      "\<forall>c \<in> set (candidates s). preferred s asn (f, i) c" "0 < unat t" "unat t \<le> unat (div_val (sf_size (sframe s f)))"
      "(asn_val asn + unat t) mod unat (div_val (sf_size (sframe s f))) = unat (timeslot (link s i))"
    using next_link_spec [OF ul ok, where asn = asn] r by auto
  have least: "unat t \<le> unat (slot_dist s asn c)" if "c \<in> set (candidates s)" for c
  proof -
    have "f \<in> set (slotframe_list s)" "i \<in> set (links_list (sframe s f))"
      using fi(1) by (auto simp: candidates_def)
    then have "unat t = unat (slot_dist s asn (f, i))"
      using slot_dist_first [OF ok] fi(5-7) by simp
    then show ?thesis
      using fi(4) that by (auto simp: preferred_def word_less_nat_alt)
  qed
  have "(asn_val asn + j) mod unat (div_val (sf_size (sframe s g))) \<noteq> unat (timeslot (link s m))"
    if "(g, m) \<in> set (candidates s)" "0 < j" "j < unat t" for g m j
  proof -
    have "g \<in> set (slotframe_list s)" "m \<in> set (links_list (sframe s g))"
      using that(1) by (auto simp: candidates_def)
    then show ?thesis
      using slot_dist_first [OF ok, of g m j asn] slot_dist_exact(2) [OF ok, of g m asn] that(2,3) least [OF that(1)] by fastforce
  qed
  then have between: "u mod unat (div_val (sf_size (sframe s g))) \<noteq> unat (timeslot (link s m))"
    if "(g, m) \<in> set (candidates s)" "asn_val asn < u" "u < asn_val asn + unat t" for g m u
    using that by (metis add_diff_inverse_nat less_diff_conv2 less_imp_le_nat not_less zero_less_diff add.commute)
  show ?thesis
    using fi between by (auto simp: next_active_def)
qed

lemma next_active_same:
  assumes "same_schedule s s'"
  shows "next_active s' a b l = next_active s a b l"
proof -
  have "sframe s' f = sframe s f" "link s' i = link s i" for f i
    using assms by (simp_all add: same_schedule_def)
  then show ?thesis
    by (cases l) (simp_all add: next_active_def same_schedule_reads(1) [OF assms])
qed

section \<open>The wake-up loop\<close>

text \<open>One round outside a burst: the ASN moves to the next active slot and the slot start by that many slots plus the corrections.\<close>

definition uncompensated :: "node_conf \<Rightarrow> node \<Rightarrow> bool" where
  "uncompensated cf x \<longleftrightarrow> base_drift cf = 0 \<and> (drift_ppm (tsync x) = 0 \<or> last_timesource_neighbor (tsync x) = None)"

lemma compensate_none:
  "uncompensated cf x \<Longrightarrow> tsch_timesync_adaptive_compensate (base_drift cf) t (tsync x) = (0, tsync x)"
  by (auto simp: uncompensated_def tsch_timesync_adaptive_compensate_def Let_def)

definition shared_backoff :: "tsch \<Rightarrow> tsch" where
  "shared_backoff s = (case current_link s of None \<Rightarrow> s
     | Some l \<Rightarrow> if has_tx s l \<and> link_options (link s l) AND LINK_OPTION_SHARED \<noteq> 0
                 then tsch_queue_update_all_backoff_windows (l_addr (link s l)) s else s)"

lemma shared_backoff_schedule: "same_schedule s (shared_backoff s)"
  by (cases "current_link s") (auto simp: shared_backoff_def update_backoff_schedule, simp_all add: same_schedule_def)

definition next_slot_state :: "nat option \<Rightarrow> u16 \<Rightarrow> nat option \<Rightarrow> u32 \<Rightarrow> timesync \<Rightarrow> node \<Rightarrow> node" where
  "next_slot_state l diff bk t ts x =
     x\<lparr>core := (shared_backoff (core x))\<lparr>current_link := l\<rparr>, backup_link := bk,
       tsch_current_burst_count := (if l = None then tsch_current_burst_count x else 0), tsync := ts,
       tsch_current_asn := TSCH_ASN_INC (tsch_current_asn x) (ucast diff), drift_correction := 0,
       is_drift_correction_used := False, current_slot_start := current_slot_start x + t\<rparr>"

lemma next_slot_state_fields:
  "core (next_slot_state l diff bk t ts x) = (shared_backoff (core x))\<lparr>current_link := l\<rparr>"
  "current_slot_start (next_slot_state l diff bk t ts x) = current_slot_start x + t"
  "tsync (next_slot_state l diff bk t ts x) = ts"
  "tsch_current_asn (next_slot_state l diff bk t ts x) = TSCH_ASN_INC (tsch_current_asn x) (ucast diff)"
  "burst_link_scheduled (next_slot_state l diff bk t ts x) = burst_link_scheduled x"
  "timings (next_slot_state l diff bk t ts x) = timings x" "drift_correction (next_slot_state l diff bk t ts x) = 0"
  by (simp_all add: next_slot_state_def)

lemma next_slot_eq:
  assumes "\<not> burst_link_scheduled x"
    "tsch_schedule_get_next_active_link (tsch_current_asn x) (shared_backoff (core x)) = (l, d, bk)"
    "diff = (case l of None \<Rightarrow> 1 | Some _ \<Rightarrow> the d)"
    "tsch_timesync_adaptive_compensate (base_drift cf) (ucast diff * timeslot_len cf x + word_of_int (drift_correction x)) (tsync x) = (c, ts)"
  defines "t \<equiv> ucast diff * timeslot_len cf x + word_of_int (drift_correction x) + word_of_int c"
  shows "next_slot cf x = (current_slot_start x, t, next_slot_state l diff bk t ts x)"
  unfolding next_slot_def shared_backoff_def [symmetric] t_def using assms(1-4)
  by (cases l) (simp_all add: next_slot_state_def Let_def)

lemma next_slot_round:
  assumes n: "next_slot cf x = (prev, t, x1)" and nb: "\<not> burst_link_scheduled x"
    and ul: "\<not> tsch_locked (core x)" and ok: "\<And>f. f \<in> set (slotframe_list (core x)) \<Longrightarrow> sf_ok (core x) f"
  obtains diff :: u16 where "prev = current_slot_start x" "current_slot_start x1 = prev + t"
    "tsch_current_asn x1 = TSCH_ASN_INC (tsch_current_asn x) (ucast diff)"
    "next_active (core x) (asn_val (tsch_current_asn x)) (asn_val (tsch_current_asn x) + unat diff) (current_link (core x1))"
    "uncompensated cf x \<Longrightarrow> t = ucast diff * timeslot_len cf x + word_of_int (drift_correction x)"
    "same_schedule (core x) (core x1)" "burst_link_scheduled x1 = burst_link_scheduled x" "timings x1 = timings x"
    "drift_correction x1 = 0" "uncompensated cf x \<Longrightarrow> uncompensated cf x1"
proof -
  let ?s = "shared_backoff (core x)"
  note sb = shared_backoff_schedule [of "core x"]
  obtain l d bk where g: "tsch_schedule_get_next_active_link (tsch_current_asn x) ?s = (l, d, bk)"
    by (cases "tsch_schedule_get_next_active_link (tsch_current_asn x) ?s") auto
  define diff :: u16 where "diff = (case l of None \<Rightarrow> 1 | Some _ \<Rightarrow> the d)"
  have u: "unat diff = (case l of None \<Rightarrow> 1 | Some _ \<Rightarrow> unat (the d))" by (cases l) (simp_all add: diff_def)
  have "\<not> tsch_locked ?s" "\<And>f. f \<in> set (slotframe_list ?s) \<Longrightarrow> sf_ok ?s f"
    using sb ul ok by (simp_all add: same_schedule_reads(3)) (simp_all add: same_schedule_def)
  from next_active_round [OF this g] have na: "next_active (core x) (asn_val (tsch_current_asn x))
      (asn_val (tsch_current_asn x) + unat diff) l"
    by (simp add: u next_active_same [OF sb])
  let ?t = "ucast diff * timeslot_len cf x + word_of_int (drift_correction x)"
  obtain c ts where c: "tsch_timesync_adaptive_compensate (base_drift cf) ?t (tsync x) = (c, ts)" by fastforce
  have "next_slot cf x = (current_slot_start x, ?t + word_of_int c, next_slot_state l diff bk (?t + word_of_int c) ts x)"
    by (rule next_slot_eq [OF nb g _ c]) (cases l; simp add: diff_def)
  then have "prev = current_slot_start x" "t = ?t + word_of_int c"
      "x1 = next_slot_state l diff bk (?t + word_of_int c) ts x"
    using n by simp_all
  note e = this next_slot_state_fields
  show ?thesis
  proof (rule that [of diff])
    show "same_schedule (core x) (core x1)" using sb by (simp add: e same_schedule_def)
    show "uncompensated cf x1" if "uncompensated cf x"
      using that c compensate_none [OF that] by (simp add: e uncompensated_def)
    show "t = ?t" if "uncompensated cf x" using c compensate_none [OF that] by (simp add: e)
  qed (use e na in simp_all)
qed

lemma schedule_slot_operation_cases:
  assumes "tsch_schedule_slot_operation r off now rtimer_ok x = (res, x')"
  shows "x' = (if res then x\<lparr>slot_timer := Some (r + off)\<rparr> else x)"
    "res \<longleftrightarrow> rtimer_ok \<and> now - r < off - RTIMER_GUARD"
  using assms by (auto simp: tsch_schedule_slot_operation_def check_timer_miss_eq not_le split: if_splits)

lemma node_timer_fields [simp]:
  "core (x\<lparr>slot_timer := t\<rparr>) = core x" "tsync (x\<lparr>slot_timer := t\<rparr>) = tsync x"
  "current_slot_start (x\<lparr>slot_timer := t\<rparr>) = current_slot_start x" "timings (x\<lparr>slot_timer := t\<rparr>) = timings x"
  "tsch_current_asn (x\<lparr>slot_timer := t\<rparr>) = tsch_current_asn x"
  "burst_link_scheduled (x\<lparr>slot_timer := t\<rparr>) = burst_link_scheduled x"
  by simp_all

definition woken_in_step :: "node_conf \<Rightarrow> nat \<Rightarrow> node \<Rightarrow> node \<Rightarrow> bool" where
  "woken_in_step cf rounds x x' \<longleftrightarrow>
     (\<exists>k a. asn_val (tsch_current_asn x') = asn_val (tsch_current_asn x) + k \<and> k \<le> 65535 * rounds \<and>
        asn_val (tsch_current_asn x) \<le> a \<and> (rounds = 1 \<longrightarrow> a = asn_val (tsch_current_asn x)) \<and>
        next_active (core x) a (asn_val (tsch_current_asn x')) (current_link (core x')) \<and>
        slot_timer x' = Some (current_slot_start x') \<and> same_schedule (core x) (core x') \<and>
        (uncompensated cf x \<longrightarrow> current_slot_start x' =
           current_slot_start x + of_nat k * timeslot_len cf x + word_of_int (drift_correction x)))"

lemma asn_inc_small:
  assumes "asn_val a + unat (n :: u16) < 2 ^ 40"
  shows "asn_val (TSCH_ASN_INC a (ucast n)) = asn_val a + unat n"
proof -
  have "unat (ucast n :: u32) = unat n"
    using u16_bound [of n] by (simp add: unat_ucast_mod)
  then show ?thesis
    using assms by (simp only: asn_inc_val mod_less)
qed

lemma woken_one_round:
  assumes "next_slot cf x = (prev, t, x1)" "\<not> burst_link_scheduled x" "\<not> tsch_locked (core x)"
    "\<And>f. f \<in> set (slotframe_list (core x)) \<Longrightarrow> sf_ok (core x) f" "asn_val (tsch_current_asn x) + 65535 < 2 ^ 40"
  shows "woken_in_step cf 1 x (x1\<lparr>slot_timer := Some (prev + t)\<rparr>)"
proof -
  obtain diff :: u16 where d: "prev = current_slot_start x" "current_slot_start x1 = prev + t"
    "tsch_current_asn x1 = TSCH_ASN_INC (tsch_current_asn x) (ucast diff)"
    "next_active (core x) (asn_val (tsch_current_asn x)) (asn_val (tsch_current_asn x) + unat diff) (current_link (core x1))"
    "uncompensated cf x \<Longrightarrow> t = ucast diff * timeslot_len cf x + word_of_int (drift_correction x)"
    "same_schedule (core x) (core x1)"
    using next_slot_round [OF assms(1-4)] by metis
  have a: "asn_val (tsch_current_asn x1) = asn_val (tsch_current_asn x) + unat diff"
    unfolding d(3) by (rule asn_inc_small) (use assms(5) u16_bound [of diff] in linarith)
  have "of_nat (unat diff) = (ucast diff :: u32)" by simp
  then show ?thesis
    unfolding woken_in_step_def
    using a d u16_bound [of diff]
    by (intro exI [of _ "unat diff"] exI [of _ "asn_val (tsch_current_asn x)"]) auto
qed

lemma woken_more_rounds:
  assumes "next_slot cf x = (prev, t, x1)" "\<not> burst_link_scheduled x" "\<not> tsch_locked (core x)"
    "\<And>f. f \<in> set (slotframe_list (core x)) \<Longrightarrow> sf_ok (core x) f" "asn_val (tsch_current_asn x) + 65535 < 2 ^ 40"
    and w: "woken_in_step cf r x1 x'" "0 < r"
  shows "woken_in_step cf (Suc r) x x'"
proof -
  obtain diff :: u16 where d: "prev = current_slot_start x" "current_slot_start x1 = prev + t"
    "tsch_current_asn x1 = TSCH_ASN_INC (tsch_current_asn x) (ucast diff)"
    "uncompensated cf x \<Longrightarrow> t = ucast diff * timeslot_len cf x + word_of_int (drift_correction x)"
    "same_schedule (core x) (core x1)" "timings x1 = timings x" "drift_correction x1 = 0"
    "uncompensated cf x \<Longrightarrow> uncompensated cf x1"
    using next_slot_round [OF assms(1-4)] by metis
  have a: "asn_val (tsch_current_asn x1) = asn_val (tsch_current_asn x) + unat diff"
    unfolding d(3) by (rule asn_inc_small) (use assms(5) u16_bound [of diff] in linarith)
  obtain k b where k: "asn_val (tsch_current_asn x') = asn_val (tsch_current_asn x1) + k" "k \<le> 65535 * r"
      "asn_val (tsch_current_asn x1) \<le> b" "next_active (core x1) b (asn_val (tsch_current_asn x')) (current_link (core x'))"
      "slot_timer x' = Some (current_slot_start x')" "same_schedule (core x1) (core x')"
      "uncompensated cf x1 \<Longrightarrow> current_slot_start x' =
         current_slot_start x1 + of_nat k * timeslot_len cf x1 + word_of_int (drift_correction x1)"
    using w(1) unfolding woken_in_step_def by metis
  have len: "timeslot_len cf x1 = timeslot_len cf x" by (simp add: timeslot_len_def d)
  have "current_slot_start x' = current_slot_start x + of_nat (unat diff + k) * timeslot_len cf x + word_of_int (drift_correction x)"
    if "uncompensated cf x"
    using k(7) [OF d(8) [OF that]] d(1,2,4,7) that by (simp add: len algebra_simps)
  moreover have "same_schedule (core x) (core x')" using d(5) k(6) by (simp add: same_schedule_def)
  ultimately show ?thesis
    unfolding woken_in_step_def
    using a k next_active_same [OF d(5)] u16_bound [of diff] w(2)
    by (intro exI [of _ "unat diff + k"] exI [of _ b]) auto
qed

lemma next_slot_loop_woken:
  assumes "next_slot_loop cf obs x = Some x'" "\<not> burst_link_scheduled x" "\<not> tsch_locked (core x)"
    "\<And>f. f \<in> set (slotframe_list (core x)) \<Longrightarrow> sf_ok (core x) f"
    "asn_val (tsch_current_asn x) + 65535 * length obs < 2 ^ 40"
  shows "\<exists>r. 0 < r \<and> r \<le> length obs \<and> woken_in_step cf r x x'"
  using assms
proof (induction obs arbitrary: x)
  case (Cons o' obs)
  obtain now ok where o': "o' = (now, ok)" by (cases o')
  obtain prev t x1 where n: "next_slot cf x = (prev, t, x1)" by (cases "next_slot cf x") auto
  obtain res x2 where s: "tsch_schedule_slot_operation prev t now ok x1 = (res, x2)" by fastforce
  note sc = schedule_slot_operation_cases [OF s]
  have small: "asn_val (tsch_current_asn x) + 65535 < 2 ^ 40" using Cons.prems(5) by simp
  show ?case
  proof (cases res)
    case True
    then have "x' = x1\<lparr>slot_timer := Some (prev + t)\<rparr>" using Cons.prems(1) sc(1) n s by (simp add: o')
    then show ?thesis using woken_one_round [OF n Cons.prems(2-4) small] by (intro exI [of _ 1]) simp
  next
    case False
    then have "next_slot_loop cf obs x1 = Some x'" using Cons.prems(1) sc(1) n s by (simp add: o')
    moreover obtain diff :: u16 where d: "tsch_current_asn x1 = TSCH_ASN_INC (tsch_current_asn x) (ucast diff)"
        "same_schedule (core x) (core x1)" "burst_link_scheduled x1 = burst_link_scheduled x"
      using next_slot_round [OF n Cons.prems(2-4)] by metis
    moreover have "asn_val (tsch_current_asn x1) + 65535 * length obs < 2 ^ 40"
      using asn_inc_small [of "tsch_current_asn x" diff] d(1) Cons.prems(5) u16_bound [of diff] by simp
    moreover have "\<And>f. f \<in> set (slotframe_list (core x1)) \<Longrightarrow> sf_ok (core x1) f"
      using Cons.prems(4) same_schedule_reads(3) [OF d(2)] d(2) by (simp add: same_schedule_def)
    ultimately obtain r where "0 < r" "r \<le> length obs" "woken_in_step cf r x1 x'"
      using Cons.IH [of x1] Cons.prems(2,3) by (auto simp: same_schedule_def)
    then show ?thesis
      using woken_more_rounds [OF n Cons.prems(2-4) small] by (intro exI [of _ "Suc r"]) simp
  qed
qed simp

section \<open>Channel hopping\<close>

text \<open>The hopping sequence of a node and the part of it that the radio uses.\<close>

definition hopping_ok :: "node \<Rightarrow> bool" where
  "hopping_ok x \<longleftrightarrow> 0 < unat (div_val (tsch_hopping_sequence_length x)) \<and>
     unat (div_val (tsch_hopping_sequence_length x)) \<le> length (tsch_hopping_sequence x) \<and>
     tsch_hopping_sequence_length x = TSCH_ASN_DIVISOR_INIT (div_val (tsch_hopping_sequence_length x))"

definition radio_divisor_ok :: "tsch_asn_divisor_t option \<Rightarrow> bool" where
  "radio_divisor_ok d = (case d of None \<Rightarrow> True | Some v \<Rightarrow> div_val v \<noteq> 0 \<and> v = TSCH_ASN_DIVISOR_INIT (div_val v))"

definition hopping_channels :: "tsch_asn_divisor_t option \<Rightarrow> node \<Rightarrow> u8 list" where
  "hopping_channels d x =
     take (case d of None \<Rightarrow> unat (div_val (tsch_hopping_sequence_length x))
           | Some v \<Rightarrow> min (unat (div_val v)) (unat (div_val (tsch_hopping_sequence_length x)))) (tsch_hopping_sequence x)"

lemma calculate_channel_eq:
  assumes "hopping_ok x" "radio_divisor_ok d"
  shows "tsch_calculate_channel False d asn off x =
      Done (hopping_channels d x ! ((asn_val asn + unat off) mod length (hopping_channels d x)))"
    "0 < length (hopping_channels d x)"
proof -
  let ?full = "tsch_hopping_sequence_length x"
  define v where "v = (case d of None \<Rightarrow> ?full | Some v \<Rightarrow> if div_val v < div_val ?full then v else ?full)"
  have v: "div_val v \<noteq> 0" "v = TSCH_ASN_DIVISOR_INIT (div_val v)" "unat (div_val v) \<le> length (tsch_hopping_sequence x)"
    using assms unfolding v_def hopping_ok_def radio_divisor_ok_def
    by (auto simp: word_less_nat_alt split: option.splits)
  have len: "hopping_channels d x = take (unat (div_val v)) (tsch_hopping_sequence x)"
    by (auto simp: hopping_channels_def v_def word_less_nat_alt min_def split: option.splits)
  have "unat (TSCH_ASN_MOD asn v) = asn_val asn mod unat (div_val v)"
    by (subst v(2)) (rule asn_mod_val [OF v(1)])
  then have idx: "(unat (TSCH_ASN_MOD asn v) + unat off) mod unat (div_val v) = (asn_val asn + unat off) mod unat (div_val v)"
    by (simp add: mod_simps)
  have lt: "(asn_val asn + unat off) mod unat (div_val v) < unat (div_val v)"
    using v(1) by (simp add: unat_gt_0)
  show "tsch_calculate_channel False d asn off x =
      Done (hopping_channels d x ! ((asn_val asn + unat off) mod length (hopping_channels d x)))"
    unfolding tsch_calculate_channel_def Let_def v_def [symmetric] idx
    using v lt by (simp add: len min_absorb2)
  show "0 < length (hopping_channels d x)" using v by (simp add: len unat_gt_0)
qed

lemma same_index: "(a + i) mod n = (a + j) mod n \<Longrightarrow> i < n \<Longrightarrow> j < (n :: nat) \<Longrightarrow> i = j"
  using same_residue [of a "Suc i" n "Suc j"] mod_Suc_eq [of "a + i" n] mod_Suc_eq [of "a + j" n] by simp

lemma residues_cover:
  assumes "0 < n"
  shows "(\<lambda>k. (a + k) mod n) ` {..<n} = {..<(n :: nat)}"
proof (rule card_subset_eq)
  have "inj_on (\<lambda>k. (a + k) mod n) {..<n}" by (rule inj_onI) (auto dest: same_index)
  then show "card ((\<lambda>k. (a + k) mod n) ` {..<n}) = card {..<n}" by (rule card_image)
qed (use assms in auto)

lemma hopping_visits:
  assumes "hopping_ok x" "radio_divisor_ok d" "hs = hopping_channels d x"
    "asn_val asn + length hs \<le> 2 ^ 40" "length hs < 2 ^ 32"
  shows "(\<lambda>k. tsch_calculate_channel False d (TSCH_ASN_INC asn (of_nat k)) off x) ` {..<length hs} = Done ` set hs"
proof -
  note eq = calculate_channel_eq [OF assms(1,2), folded assms(3)]
  have ch: "tsch_calculate_channel False d (TSCH_ASN_INC asn (of_nat k)) off x =
      Done (hs ! ((asn_val asn + unat off + k) mod length hs))" if "k < length hs" for k
  proof -
    have "unat (of_nat k :: u32) = k" using that assms(5) by (simp add: unat_of_nat)
    then have "asn_val (TSCH_ASN_INC asn (of_nat k)) = asn_val asn + k"
      using that assms(4) by (simp add: asn_inc_val)
    then show ?thesis using eq(1) by (simp add: ac_simps)
  qed
  have "(\<lambda>k. tsch_calculate_channel False d (TSCH_ASN_INC asn (of_nat k)) off x) ` {..<length hs}
      = (\<lambda>i. Done (hs ! i)) ` ((\<lambda>k. (asn_val asn + unat off + k) mod length hs) ` {..<length hs})"
    unfolding image_image by (rule image_cong) (simp_all add: ch)
  also have "\<dots> = Done ` ((\<lambda>i. hs ! i) ` {..<length hs})"
    by (simp only: residues_cover [OF eq(2)] image_image)
  also have "(\<lambda>i. hs ! i) ` {..<length hs} = set hs"
    by (auto simp: set_conv_nth)
  finally show ?thesis .
qed

section \<open>A node at boot\<close>

definition timesync_zero :: timesync where
  "timesync_zero = \<lparr>drift_ppm = 0, compensated_ticks = 0, timesync_entry_count = 0, asn_since_last_learning = 0,
     ts_buffer = replicate NUM_TIMESYNC_ENTRIES 0, ts_pos = 0, last_timesource_neighbor = None, min_drift_seen = 0,
     max_drift_seen = 0, ts_remainder = 0, tick_conversion_error = 0, base_drift_remainder = 0,
     base_drift_tick_conversion_error = 0\<rparr>"

definition input_zero :: input_packet where
  "input_zero = \<lparr>ip_payload = replicate TSCH_PACKET_MAX_LEN 0, ip_rx_asn = TSCH_ASN_INIT 0 0, ip_len = 0, ip_rssi = 0, ip_channel = 0\<rparr>"

text \<open>The static variables at boot, with given timing tables. \<open>tsch_init\<close> initialises the rings.\<close>

definition node_zero :: "(nat \<Rightarrow> u32 list) \<Rightarrow> node" where
  "node_zero tables = \<lparr>core = tsch_zero, tsync = timesync_zero, tsch_current_asn = TSCH_ASN_INIT 0 0, last_sync_asn = TSCH_ASN_INIT 0 0,
     last_sync_time = 0, tsch_join_priority = 0, pan_id = 0xffff, tsch_is_pan_secured = True,
     tsch_hopping_sequence = replicate 4 0, tsch_hopping_sequence_length = \<lparr>div_val = 0, asn_ms1b_remainder = 0\<rparr>,
     tsch_timing = 0, timings = tables, input_array = replicate 4 input_zero,
     input_ringbuf = \<lparr>rb_mask = 0, put_ptr = 0, get_ptr = 0\<rparr>, dequeued_array = replicate 8 None,
     dequeued_ringbuf = \<lparr>rb_mask = 0, put_ptr = 0, get_ptr = 0\<rparr>, backup_link = None, current_packet = None,
     current_neighbor = None, burst_link_scheduled = False, tsch_current_burst_count = 0, current_slot_start = 0,
     slot_timer = None, tsch_current_channel = 0, drift_correction = 0, is_drift_correction_used = False,
     tsch_in_slot_operation = False, mac_tx_status = 0, encrypted_packet = replicate TSCH_PACKET_MAX_LEN 0,
     input_queue_drop = 0, tx_count = 0, rx_count = 0, sync_count = 0, events_polled = False, main_polled = False,
     radio_is_on = False, radio_sent = [], eack_attrs_buf = (\<lambda>_. 0), tsch_packet_seqno = 0, tsch_is_started = False,
     tsch_is_initialized = False, tsch_association_count = 0, tsch_current_eb_period = 0, last_eb_nbr_addr = linkaddr_null,
     last_eb_nbr_jp = 0, ll_seqnos = replicate MAX_SEQNOS seqno_zero, net_input = []\<rparr>"

text \<open>A configuration with slots of 328 ticks (10 ms) and the hopping sequence of four channels.\<close>

definition conf_example :: node_conf where
  "conf_example = \<lparr>linkaddr_node_addr = replicate 8 1, node_id = 1, id_mac_list = [], sync_with_lower_node_id = False,
     radio_on_during_timeslot = False, no_hopping_sequence = False, eack_with_dest = True, eack_with_src = False,
     multiphy_default_timing = 0, base_drift = 0, desync_ticks = 120 * 32768, default_hopping_sequence = [15, 25, 26, 20],
     beacon_conf = \<lparr>eb_with_timeslot_timing = 0, eb_with_hopping_sequence = 0, eb_with_slotframe_and_link = 0\<rparr>,
     with_6tisch_minimal = True, eb_only_coordinator = False, conf_eb_period = 16 * 128\<rparr>"

definition node_example :: node where
  "node_example = (node_zero (\<lambda>_. replicate 12 328))\<lparr>core := overlap_schedule, tsch_current_asn := TSCH_ASN_INIT 0 9,
     tsch_hopping_sequence := [15, 25, 26, 20], tsch_hopping_sequence_length := TSCH_ASN_DIVISOR_INIT 4\<rparr>"

lemma node_example_fields:
  "core node_example = overlap_schedule" "tsch_current_asn node_example = TSCH_ASN_INIT 0 9"
  "tsync node_example = timesync_zero" "current_slot_start node_example = 0" "drift_correction node_example = 0"
  "\<not> burst_link_scheduled node_example" "timeslot_len conf_example node_example = 328"
  "uncompensated conf_example node_example"
  by (simp_all add: node_example_def node_zero_def timeslot_len_def conf_example_def uncompensated_def timesync_zero_def)

section \<open>Properties\<close>

text \<open>C9. The wake-up is only set to a time more than the guard time ahead: for any clock values, wrapped around or not, the
  slot operation is scheduled exactly when the timer accepts it and less than the offset minus the guard time has
  passed since the reference time; then the time left until the wake-up is above the guard time and at most the offset, and
  otherwise nothing changes.\<close>

theorem wakeup_in_future:
  assumes "tsch_schedule_slot_operation ref_time off now rtimer_ok x = (scheduled, x')" "RTIMER_GUARD \<le> off"
  shows "(scheduled \<longleftrightarrow> rtimer_ok \<and> now - ref_time < off - RTIMER_GUARD) \<and>
    (if scheduled then x' = x\<lparr>slot_timer := Some (ref_time + off)\<rparr> \<and>
       RTIMER_GUARD < ref_time + off - now \<and> ref_time + off - now \<le> off
     else x' = x)"
proof -
  note sc = schedule_slot_operation_cases [OF assms(1)]
  have left: "ref_time + off - now = off - (now - ref_time)" by simp
  have "RTIMER_GUARD < off - d \<and> off - d \<le> off" if "d < off - RTIMER_GUARD" for d
    using that assms(2) by (auto simp: word_less_nat_alt word_le_nat_alt unat_sub_if')
  then show ?thesis using sc unfolding left by auto
qed

theorem wakeup_in_future_witness:
  "\<exists>x'. tsch_schedule_slot_operation 0xfffffff0 328 7 True node_example = (True, x') \<and>
     slot_timer x' = Some 312 \<and> RTIMER_GUARD < (312 :: u32) - 7"
proof -
  obtain r x' where r: "tsch_schedule_slot_operation 0xfffffff0 328 7 True node_example = (r, x')" by fastforce
  show ?thesis
    using wakeup_in_future [OF r] r by (auto simp: RTIMER_GUARD_def split: if_splits)
qed





end
