(* ===== verification/TxSlot.thy ===== *)
theory TxSlot
  imports SlotOpProps TschScheduleProps IeProps
begin

text \<open>
  The transmit slot: the invariant of the queues together with the ring of dequeued packets, and what a transmit slot does to them.
\<close>

section \<open>Writers keep the length of their buffer\<close>

lemma obind_DoneE:
  assumes "obind m f = Done y" "\<And>x. m = Done x \<Longrightarrow> f x = Done y \<Longrightarrow> P"
  shows P
  using assms by (cases m) simp_all

lemma frame_pending_length: "tsch_packet_set_frame_pending buf = Done buf' \<Longrightarrow> length buf' = length buf"
  by (auto simp: tsch_packet_set_frame_pending_def dest: mem_write_length elim!: obind_DoneE)

lemma update_eb_length: "tsch_packet_update_eb asn jp buf k off = Done (ok, buf') \<Longrightarrow> length buf' = length buf"
  by (auto simp: tsch_packet_update_eb_def frame80215e_create_ie_tsch_synchronization_def ie_written_def Let_def
      create_mlme_short_ie_descriptor_def dest!: mem_write_length elim!: obind_DoneE split: outcome.splits if_splits)

lemma ccm_star_length: "ccm_star key nonce buf a m k fwd = Done (buf', t) \<Longrightarrow> length buf' = length buf"
  by (auto simp: ccm_star_def dest: mem_write_length elim!: obind_DoneE split: option.splits)

lemma seal_frame_length: "seal_frame node h buf same hl dl f asn = Done (k, buf') \<Longrightarrow> length buf' = length buf"
  by (auto simp: seal_frame_def Let_def dest!: mem_write_length ccm_star_length elim!: obind_DoneE split: if_splits)

lemma secure_frame_length:
  "tsch_security_secure_frame node junk h (Some buf) same hl dl asn = Done (k, Some buf') \<Longrightarrow> length buf' = length buf"
  by (auto simp: tsch_security_secure_frame_def dest!: seal_frame_length elim!: obind_DoneE split: option.splits if_splits prod.splits)

section \<open>What the slot leaves alone before its end\<close>

text \<open>Until the queues are updated a slot changes only the contents of packets, the keep-alive timer and its own variables.\<close>

definition core_keeps :: "tsch \<Rightarrow> tsch \<Rightarrow> bool" where
  "core_keeps s s' \<longleftrightarrow> s' = s\<lparr>qbs := qbs s', keepalive_timer := keepalive_timer s', tsch_current_ka_timeout := tsch_current_ka_timeout s'\<rparr> \<and>
     bufmem (qbs s') = bufmem (qbs s) \<and> (qb_inv (qbs s) \<longrightarrow> qb_inv (qbs s'))"

definition slot_keeps :: "node \<Rightarrow> node \<Rightarrow> bool" where
  "slot_keeps x y \<longleftrightarrow> core_keeps (core x) (core y) \<and> dequeued_array y = dequeued_array x \<and>
     dequeued_ringbuf y = dequeued_ringbuf x \<and> input_array y = input_array x \<and> input_ringbuf y = input_ringbuf x \<and>
     tsch_current_asn y = tsch_current_asn x \<and> current_slot_start y = current_slot_start x \<and> timings y = timings x \<and>
     current_packet y = current_packet x \<and> current_neighbor y = current_neighbor x"

lemma core_keeps_refl [simp]: "core_keeps s s"
  by (simp add: core_keeps_def)

lemma core_keepsI:
  assumes "s' = s\<lparr>qbs := q, keepalive_timer := kt, tsch_current_ka_timeout := ka\<rparr>" "bufmem q = bufmem (qbs s)"
    "qb_inv (qbs s) \<Longrightarrow> qb_inv q"
  shows "core_keeps s s'"
  using assms by (simp add: core_keeps_def)

lemma core_keepsE:
  assumes "core_keeps s s'"
  obtains q kt ka where "s' = s\<lparr>qbs := q, keepalive_timer := kt, tsch_current_ka_timeout := ka\<rparr>"
    "bufmem q = bufmem (qbs s)" "qb_inv (qbs s) \<Longrightarrow> qb_inv q"
  using assms unfolding core_keeps_def by metis

lemma core_keeps_trans:
  assumes "core_keeps s t" "core_keeps t u"
  shows "core_keeps s u"
proof -
  obtain q kt ka where t: "t = s\<lparr>qbs := q, keepalive_timer := kt, tsch_current_ka_timeout := ka\<rparr>"
      "bufmem q = bufmem (qbs s)" "qb_inv (qbs s) \<Longrightarrow> qb_inv q"
    using core_keepsE [OF assms(1)] by metis
  obtain q' kt' ka' where u: "u = t\<lparr>qbs := q', keepalive_timer := kt', tsch_current_ka_timeout := ka'\<rparr>"
      "bufmem q' = bufmem (qbs t)" "qb_inv (qbs t) \<Longrightarrow> qb_inv q'"
    using core_keepsE [OF assms(2)] by metis
  show ?thesis
    by (rule core_keepsI [where q = q' and kt = kt' and ka = ka']) (use t u in simp_all)
qed

lemma core_keeps_fields:
  assumes "core_keeps s s'"
  shows "neighbor_memb s' = neighbor_memb s" "packet_memb s' = packet_memb s" "neighbor_list s' = neighbor_list s"
    "tsch_locked s' = tsch_locked s" "link_memb s' = link_memb s" "slotframe_memb s' = slotframe_memb s"
    "slotframe_list s' = slotframe_list s" "current_link s' = current_link s" "sent_log s' = sent_log s"
    "n_eb s' = n_eb s" "n_broadcast s' = n_broadcast s" "tsch_is_coordinator s' = tsch_is_coordinator s"
    "tsch_is_associated s' = tsch_is_associated s"
proof -
  obtain q kt ka where "s' = s\<lparr>qbs := q, keepalive_timer := kt, tsch_current_ka_timeout := ka\<rparr>"
    using core_keepsE [OF assms] by metis
  then show "neighbor_memb s' = neighbor_memb s" "packet_memb s' = packet_memb s" "neighbor_list s' = neighbor_list s"
    "tsch_locked s' = tsch_locked s" "link_memb s' = link_memb s" "slotframe_memb s' = slotframe_memb s"
    "slotframe_list s' = slotframe_list s" "current_link s' = current_link s" "sent_log s' = sent_log s"
    "n_eb s' = n_eb s" "n_broadcast s' = n_broadcast s" "tsch_is_coordinator s' = tsch_is_coordinator s"
    "tsch_is_associated s' = tsch_is_associated s"
    by simp_all
qed

lemma core_keeps_q_inv:
  assumes "core_keeps s s'" "q_inv s"
  shows "q_inv s'"
proof -
  note f = core_keeps_fields [OF assms(1)]
  have "bufmem (qbs s') = bufmem (qbs s)" "qb_inv (qbs s) \<Longrightarrow> qb_inv (qbs s')"
    using assms(1) by (simp_all add: core_keeps_def)
  then have "q_core s' (set (neighbor_list s))"
    using q_invD(5) [OF assms(2)] unfolding q_core_def f by simp
  then show ?thesis
    using assms(2) unfolding q_inv_def f by blast
qed

lemma slot_keeps_refl [simp]: "slot_keeps x x"
  by (simp add: slot_keeps_def)

lemma slot_keeps_trans: "slot_keeps x y \<Longrightarrow> slot_keeps y z \<Longrightarrow> slot_keeps x z"
  using core_keeps_trans by (auto simp: slot_keeps_def)

lemma slot_keeps_upd [simp]:
  "slot_keeps x (y\<lparr>encrypted_packet := e\<rparr>) = slot_keeps x y" "slot_keeps x (y\<lparr>mac_tx_status := st\<rparr>) = slot_keeps x y"
  "slot_keeps x (y\<lparr>burst_link_scheduled := bl\<rparr>) = slot_keeps x y" "slot_keeps x (y\<lparr>tx_count := c\<rparr>) = slot_keeps x y"
  "slot_keeps x (y\<lparr>radio_sent := fs\<rparr>) = slot_keeps x y" "slot_keeps x (x\<lparr>core := s\<rparr>) = core_keeps (core x) s"
  by (simp_all add: slot_keeps_def)

lemma slot_keeps_radio [simp]:
  "slot_keeps x (tsch_radio_on cf c x)" "slot_keeps x (tsch_radio_off cf d x)"
  by (simp_all add: slot_keeps_def tsch_radio_on_def tsch_radio_off_def Let_def)

lemma core_radio [simp]:
  "core (tsch_radio_on cf c x) = core x" "core (tsch_radio_off cf d x) = core x"
  "dequeued_array (tsch_radio_off cf d x) = dequeued_array x" "dequeued_ringbuf (tsch_radio_off cf d x) = dequeued_ringbuf x"
  "mac_tx_status (tsch_radio_off cf d x) = mac_tx_status x"
  by (simp_all add: tsch_radio_on_def tsch_radio_off_def Let_def)

lemma keepalive_keeps: "core_keeps s (tsch_schedule_keepalive rnd s)"
  by (rule core_keepsI [where q = "qbs s" and kt = "keepalive_timer (tsch_schedule_keepalive rnd s)"
        and ka = "tsch_current_ka_timeout s"])
    (simp_all add: tsch_schedule_keepalive_def Let_def)

lemma ka_timeout_keeps: "core_keeps s (tsch_set_ka_timeout rnd t s)"
  by (rule core_keepsI [where q = "qbs s" and kt = "keepalive_timer (tsch_set_ka_timeout rnd t s)" and ka = t])
    (simp_all add: tsch_set_ka_timeout_def tsch_schedule_keepalive_def Let_def)

lemma timesync_update_keeps:
  assumes "tsch_timesync_update len rnd n d c t s = Done (t', s')"
  shows "core_keeps s s'"
  using assms ka_timeout_keeps
  by (auto simp: tsch_timesync_update_def timesync_learn_drift_ticks_def timesync_entry_add_def Let_def
      elim!: obind_DoneE split: if_splits prod.splits)

lemma slot_sync_keeps:
  assumes "slot_sync cf r1 r2 clock n d x = Done y"
  shows "slot_keeps x y"
  using assms
  by (auto simp: slot_sync_def Let_def slot_keeps_def elim!: obind_DoneE
      intro: core_keeps_trans [OF timesync_update_keeps keepalive_keeps])

lemma queuebuf_write_keeps:
  assumes "queuebuf_write b bs s = Done s'" "length bs = PACKETBUF_SIZE"
  shows "core_keeps s s'"
proof -
  obtain r where r: "queuebuf_load_to_ram b (qbs s) = Done r"
      "s' = s\<lparr>qbs := (qbs s)\<lparr>buframmem := blk_upd r (\<lambda>d. d\<lparr>qd_data := bs\<rparr>) (buframmem (qbs s))\<rparr>\<rparr>"
    using assms(1) by (auto simp: queuebuf_write_def elim!: obind_DoneE)
  show ?thesis
    by (rule core_keepsI [where q = "qbs s'" and kt = "keepalive_timer s" and ka = "tsch_current_ka_timeout s"])
      (use r(2) assms(2) in \<open>auto simp: qb_inv_def\<close>)
qed

section \<open>Preparing and sending the frame\<close>

text \<open>The payload pointer of a queued packet is a whole data block.\<close>

lemma queuebuf_dataptr_length:
  assumes "qb_inv q" "b \<in> memb_used (bufmem q)" "queuebuf_dataptr b q = Done (Some bs)"
  shows "length bs = PACKETBUF_SIZE"
proof -
  obtain r where r: "ram_ptr (mb_mem (bufmem q) b) = Some r" "r \<in> memb_used (buframmem q)"
    using qb_ptr [OF assms(1,2)] .
  then have "bs = qd_data (mb_mem (buframmem q) r)"
    using assms(3) by (auto simp: queuebuf_dataptr_def queuebuf_load_to_ram_def split: if_splits)
  then show ?thesis
    using qb_invD(4) [OF assms(1)] memb_used_less [OF r(2)] by simp
qed

lemma tx_secure_keeps:
  assumes "tx_secure cf ev p b bs k x = Done (bs', k', y)" "length bs = PACKETBUF_SIZE"
  shows "slot_keeps x y"
  using assms queuebuf_write_keeps [of b bs' "core x"]
  by (auto simp: tx_secure_def Let_def dest!: secure_frame_length elim!: obind_DoneE split: if_splits option.splits)

lemma tx_payload_length:
  assumes "tx_payload burst eb k off x bs = Done (rdy, bs', sq)"
  shows "length bs' = length bs"
  using assms
  by (auto simp: tx_payload_def dest!: frame_pending_length update_eb_length elim!: obind_DoneE split: if_splits)

lemma packet_count_present:
  assumes "q_inv s" "\<not> tsch_locked s" "n \<in> set (neighbor_list s)"
  shows "snd (tsch_queue_packet_count (n_addr (nbr s n)) s) = s"
  using add_nbr_present [OF assms(1) _ assms(2,3)] q_coreD(1) [OF q_invD(5) [OF assms(1)] assms(3)] assms(2)
  by (simp add: tsch_queue_packet_count_def nbr_ok_def)

lemma tx_prepare_keeps:
  assumes "q_inv (core x)" "\<not> tsch_locked (core x)" "n \<in> set (neighbor_list (core x))"
    "b \<in> memb_used (bufmem (qbs (core x)))" "tx_prepare cf ev n p b x = Done (rdy, bs, k, sq, burst, y)"
  shows "slot_keeps x y"
proof -
  have qb: "qb_inv (qbs (core x))" using q_invD(5) [OF assms(1)] by (simp add: q_core_def)
  note c = packet_count_present [OF assms(1-3)]
  obtain bs0 bs1 len s2 bl off where h: "queuebuf_dataptr b (qbs (core x)) = Done (Some bs0)"
      "tx_payload bl (Some n = n_eb (core x)) len off x bs0 = Done (rdy, bs1, sq)"
      "queuebuf_write b bs1 (core x) = Done s2" "tx_secure cf ev p b bs1 len (x\<lparr>core := s2\<rparr>) = Done (bs, k, y)"
  proof (cases "\<not> is_broadcast (nbr (core x) n) \<and> tsch_current_burst_count x + 1 < TSCH_BURST_MAX_LEN")
    case True
    then show ?thesis
      using assms(5) c that unfolding tx_prepare_def Let_def
      by (auto elim!: obind_DoneE split: option.splits prod.splits)
  next
    case False
    then show ?thesis
      using assms(5) that unfolding tx_prepare_def Let_def if_not_P [OF False] prod.case
      by (auto elim!: obind_DoneE split: option.splits)
  qed
  have l: "length bs1 = PACKETBUF_SIZE"
    using queuebuf_dataptr_length [OF qb assms(4) h(1)] tx_payload_length [OF h(2)] by simp
  have "slot_keeps x (x\<lparr>core := s2\<rparr>)"
    using queuebuf_write_keeps [OF h(3) l] by simp
  then show ?thesis
    using tx_secure_keeps [OF h(4) l] by (rule slot_keeps_trans)
qed

lemma slot_keeps_radio_trans: "slot_keeps x y \<Longrightarrow> slot_keeps x (tsch_radio_on cf c y)" "slot_keeps x y \<Longrightarrow> slot_keeps x (tsch_radio_off cf d y)"
  by (blast intro: slot_keeps_trans slot_keeps_radio)+

lemma tx_await_ack_keeps:
  assumes "tx_await_ack cf ev n b sq burst x = Done y"
  shows "slot_keeps x y" "mac_tx_status y = MAC_TX_OK \<or> mac_tx_status y = MAC_TX_NOACK"
proof -
  define z where "z = tsch_radio_off cf TSCH_RADIO_CMD_OFF_WITHIN_TIMESLOT (tsch_radio_on cf TSCH_RADIO_CMD_ON_WITHIN_TIMESLOT x)"
  have r: "slot_keeps x z" by (simp add: z_def slot_keeps_radio_trans)
  note a = assms [unfolded tx_await_ack_def Let_def z_def [symmetric]]
  show "slot_keeps x y"
    using a r slot_keeps_trans [OF r slot_sync_keeps]
    by (auto elim!: obind_DoneE split: option.splits if_splits)
  show "mac_tx_status y = MAC_TX_OK \<or> mac_tx_status y = MAC_TX_NOACK"
    using a by (auto elim!: obind_DoneE split: option.splits if_splits)
qed

lemma tx_transmit_keeps:
  assumes "tx_transmit cf ev n b bs k sq burst x = Done y"
  shows "slot_keeps x y"
proof -
  define z where "z = tsch_radio_off cf TSCH_RADIO_CMD_OFF_WITHIN_TIMESLOT
    (x\<lparr>radio_sent := radio_sent x @ [take (unat k) bs], tx_count := tx_count x + 1\<rparr>)"
  have r: "slot_keeps x z" by (simp add: z_def slot_keeps_radio_trans)
  show ?thesis
    using assms [unfolded tx_transmit_def Let_def z_def [symmetric]] r slot_keeps_trans [OF r tx_await_ack_keeps(1)]
    by (auto split: if_splits)
qed

section \<open>The ring of dequeued packets\<close>

definition ring_ok :: "'a option list \<Rightarrow> ringbufindex \<Rightarrow> bool" where
  "ring_ok a r \<longleftrightarrow> rb_inv 3 r \<and> length a = 8 \<and> (\<forall>i \<in> set (rb_slots 3 r). a ! i \<noteq> None)"

definition ring_items :: "'a option list \<Rightarrow> ringbufindex \<Rightarrow> 'a list" where
  "ring_items a r = map (\<lambda>i. the (a ! i)) (rb_slots 3 r)"

lemma ring_put:
  assumes ok: "ring_ok a r" and room: "ringbufindex_peek_put r \<noteq> -1"
  defines "i \<equiv> nat (ringbufindex_peek_put r)" and "r' \<equiv> snd (ringbufindex_put r)"
  shows "i < length a" "ring_ok (a[i := Some v]) r'" "ring_items (a[i := Some v]) r' = ring_items a r @ [v]"
proof -
  have inv: "rb_inv 3 r" and len: "length a = 8" using ok by (simp_all add: ring_ok_def)
  have cnt: "rb_count 3 r < 2 ^ 3 - 1"
    using ringbufindex_peek_spec(2) [OF inv] room rb_count_less [of 3 r] by (auto split: if_splits)
  have i: "i = unat (put_ptr r)"
    unfolding i_def using ringbufindex_peek_spec(2) [OF inv] cnt by simp
  have "ringbufindex_put r = (fst (ringbufindex_put r), r')" by (simp add: r'_def)
  note spec = ringbufindex_put_spec [OF inv this]
  have slots: "rb_slots 3 r' = rb_slots 3 r @ [i]" using spec(2) [OF cnt] i by simp
  have fresh: "i \<notin> set (rb_slots 3 r)" using put_slot_fresh [OF inv cnt] i by simp
  show lt: "i < length a" using inv i len by (simp add: rb_inv_def)
  show "ring_ok (a[i := Some v]) r'"
    using ok spec(1) lt slots fresh by (auto simp: ring_ok_def nth_list_update)
  show "ring_items (a[i := Some v]) r' = ring_items a r @ [v]"
    using lt fresh by (auto simp: ring_items_def slots nth_list_update)
qed

lemma ring_get_Cons:
  assumes ok: "ring_ok a r" and q: "ring_items a r = v # vs"
  obtains i where "ringbufindex_peek_get r = int i" "i < length a" "a ! i = Some v"
    "ring_ok a (snd (ringbufindex_get r))" "ring_items a (snd (ringbufindex_get r)) = vs"
proof -
  have inv: "rb_inv 3 r" using ok by (simp add: ring_ok_def)
  obtain j js where s: "rb_slots 3 r = j # js" "the (a ! j) = v" "vs = map (\<lambda>i. the (a ! i)) js"
    using q by (auto simp: ring_items_def map_eq_Cons_conv)
  have "ringbufindex_get r = (fst (ringbufindex_get r), snd (ringbufindex_get r))" by simp
  note spec = ringbufindex_get_spec [OF inv this]
  have r: "rb_slots 3 (snd (ringbufindex_get r)) = js" using spec(2) [OF s(1)] by simp
  show ?thesis
  proof (rule that [of j])
    show "ringbufindex_peek_get r = int j" using ringbufindex_peek_spec(1) [OF inv] s(1) by simp
    show "a ! j = Some v" using ok s(1,2) by (auto simp: ring_ok_def)
    show "j < length a"
      using rb_slots_less [of j 3 r] s(1) ok by (simp add: ring_ok_def)
    show "ring_ok a (snd (ringbufindex_get r))" using ok spec(1) r s(1) by (simp add: ring_ok_def)
    show "ring_items a (snd (ringbufindex_get r)) = vs" by (simp add: ring_items_def r s(3))
  qed
qed

lemma ring_get_Nil: "ring_ok a r \<Longrightarrow> ring_items a r = [] \<Longrightarrow> ringbufindex_peek_get r = -1"
  using ringbufindex_peek_spec(1) [of 3 r] by (simp add: ring_ok_def ring_items_def)

section \<open>The invariant of the packets of a node\<close>

text \<open>The queues, and the packets that left them and were not yet reported: these are allocated, distinct and in no queue.\<close>

abbreviation pending_tx :: "node \<Rightarrow> nat list" where
  "pending_tx x \<equiv> ring_items (dequeued_array x) (dequeued_ringbuf x)"

definition slot_inv :: "node \<Rightarrow> bool" where
  "slot_inv x \<longleftrightarrow> q_inv (core x) \<and> \<not> tsch_locked (core x) \<and> ring_ok (dequeued_array x) (dequeued_ringbuf x) \<and>
     distinct (pending_tx x) \<and> set (pending_tx x) \<subseteq> memb_used (packet_memb (core x)) \<and>
     (\<forall>n \<in> set (neighbor_list (core x)). set (pending_tx x) \<inter> set (nbr_queue (nbr (core x) n)) = {})"

lemma slot_invD:
  assumes "slot_inv x"
  shows "q_inv (core x)" "\<not> tsch_locked (core x)" "ring_ok (dequeued_array x) (dequeued_ringbuf x)" "distinct (pending_tx x)"
    "set (pending_tx x) \<subseteq> memb_used (packet_memb (core x))"
    "n \<in> set (neighbor_list (core x)) \<Longrightarrow> set (pending_tx x) \<inter> set (nbr_queue (nbr (core x) n)) = {}"
  using assms unfolding slot_inv_def by blast+

lemma slot_keeps_inv: "slot_keeps x y \<Longrightarrow> slot_inv x \<Longrightarrow> slot_inv y"
  using core_keeps_q_inv [of "core x" "core y"] core_keeps_fields [of "core x" "core y"]
  by (simp add: slot_keeps_def slot_inv_def)

lemma packet_sent_frame:
  "packet_memb (snd (tsch_queue_packet_sent rnd n p l st s)) = packet_memb s"
  "qbs (snd (tsch_queue_packet_sent rnd n p l st s)) = qbs s"
  "neighbor_list (snd (tsch_queue_packet_sent rnd n p l st s)) = neighbor_list s"
  "tsch_locked (snd (tsch_queue_packet_sent rnd n p l st s)) = tsch_locked s"
  "sent_log (snd (tsch_queue_packet_sent rnd n p l st s)) = sent_log s"
  by (simp_all add: tsch_queue_packet_sent_def tsch_queue_remove_packet_from_queue_def Let_def split: prod.split)

lemma q_inv_pkt_upd:
  assumes "q_inv s" "p_qb (f (pkt s p)) = p_qb (pkt s p)"
  shows "q_inv (pkt_upd p f s)"
  using assms(1) q_core_pkt_upd [of s "set (neighbor_list s)" f p] assms(2)
  unfolding q_inv_def pkt_upd_simps by blast

text \<open>The packet after one more transmission with a given status.\<close>

definition tried :: "u8 \<Rightarrow> tsch_packet \<Rightarrow> tsch_packet" where
  "tried st k = k\<lparr>transmissions := transmissions k + 1, p_ret := st\<rparr>"

definition tx_done :: "u8 \<Rightarrow> nat \<Rightarrow> nat \<Rightarrow> nat list \<Rightarrow> node \<Rightarrow> node \<Rightarrow> bool" where
  "tx_done st n p ps x y \<longleftrightarrow>
     (let k = tried st (pkt (core x) p); leaves = sent_dequeues st k in
      pkt (core y) p = k \<and> (\<forall>q. q \<noteq> p \<longrightarrow> pkt (core y) q = pkt (core x) q) \<and>
      nbr_queue (nbr (core y) n) = (if leaves then ps else p # ps) \<and>
      pending_tx y = pending_tx x @ (if leaves then [p] else []) \<and>
      neighbor_list (core y) = neighbor_list (core x) \<and> (\<forall>m. m \<noteq> n \<longrightarrow> nbr (core y) m = nbr (core x) m) \<and>
      memb_used (packet_memb (core y)) = memb_used (packet_memb (core x)) \<and> sent_log (core y) = sent_log (core x))"

lemma tx_finish_spec:
  assumes inv: "slot_inv x" and n: "n \<in> set (neighbor_list (core x))" and q: "nbr_queue (nbr (core x) n) = p # ps"
    and room: "ringbufindex_peek_put (dequeued_ringbuf x) \<noteq> -1"
  obtains y where "tx_finish cf ev (nat (ringbufindex_peek_put (dequeued_ringbuf x))) n p l x = Done y" "slot_inv y"
    "tx_done (mac_tx_status x) n p ps x y"
proof -
  let ?st = "mac_tx_status x" and ?i = "nat (ringbufindex_peek_put (dequeued_ringbuf x))"
  define s1 where "s1 = pkt_upd p (tried ?st) (core x)"
  define sent where "sent = tsch_queue_packet_sent (te_rnd_backoff ev) n p l ?st s1"
  define leaves where "leaves = sent_dequeues ?st (tried ?st (pkt (core x) p))"
  note i = slot_invD [OF inv]
  have q1: "q_inv s1" unfolding s1_def by (rule q_inv_pkt_upd [OF i(1)]) (simp add: tried_def)
  have pk: "pkt s1 p = tried ?st (pkt (core x) p)" by (simp add: s1_def)
  note sp = packet_sent_spec [OF q1, where n = n and p = p and ps = ps and rnd = "te_rnd_backoff ev" and l = l and status = ?st,
      folded sent_def]
  have sp: "q_inv (snd sent)" "\<And>m. m \<noteq> n \<Longrightarrow> nbr (snd sent) m = nbr (core x) m"
      "fst sent = (if leaves then 0 else 1)" "nbr_queue (nbr (snd sent) n) = (if leaves then ps else p # ps)"
    using sp n q i(2) by (simp_all add: s1_def leaves_def split: prod.splits)
  note fr = packet_sent_frame [of "te_rnd_backoff ev" n p l ?st s1, folded sent_def]
  define x1 where "x1 = (tsch_radio_off cf TSCH_RADIO_CMD_OFF_END_OF_TIMESLOT x)\<lparr>core := snd sent, events_polled := True\<rparr>"
  have x1: "core x1 = snd sent" "dequeued_array x1 = dequeued_array x" "dequeued_ringbuf x1 = dequeued_ringbuf x"
    by (simp_all add: x1_def tsch_radio_off_def Let_def)
  note put = ring_put(1) [OF i(3) room] ring_put(2,3) [OF i(3) room, of p]
  define y where "y = (if leaves then x1\<lparr>dequeued_array := (dequeued_array x)[?i := Some p],
      dequeued_ringbuf := snd (ringbufindex_put (dequeued_ringbuf x))\<rparr> else x1)"
  obtain s2 where "sent = (if leaves then 0 else 1, s2)" using sp(3) by (metis prod.collapse)
  then have f: "tx_finish cf ev ?i n p l x = Done y"
    using put(1) unfolding tx_finish_def Let_def core_radio tried_def [symmetric] s1_def [symmetric] sent_def [symmetric]
    by (cases leaves) (simp_all add: y_def x1_def)
  have cy: "core y = snd sent" by (simp add: y_def x1)
  have py: "pending_tx y = pending_tx x @ (if leaves then [p] else [])"
    using put(3) by (simp add: y_def x1)
  have ry: "ring_ok (dequeued_array y) (dequeued_ringbuf y)"
    using put(2) i(3) by (simp add: y_def x1)
  have used: "memb_used (packet_memb (core y)) = memb_used (packet_memb (core x))"
    unfolding cy fr(1) by (simp add: s1_def)
  have nl: "neighbor_list (core y) = neighbor_list (core x)" unfolding cy fr(3) by (simp add: s1_def)
  note qn = q_coreD [OF q_invD(5) [OF i(1)] n] and p_free = i(6) [OF n]
  have np: "p \<notin> set (nbr_queue (nbr (core y) m))" if "leaves" "m \<in> set (neighbor_list (core x))" for m
  proof (cases "m = n")
    case True
    then show ?thesis using that(1) sp(4) qn(2) q cy by simp
  next
    case False
    then have "set (nbr_queue (nbr (core x) n)) \<inter> set (nbr_queue (nbr (core x) m)) = {}"
      using q_invD(5) [OF i(1)] n that(2) unfolding q_core_def by metis
    then show ?thesis using q sp(2) [OF False] cy by auto
  qed
  have "set (nbr_queue (nbr (core y) m)) \<subseteq> set (nbr_queue (nbr (core x) m))" for m
    using sp(2,4) q cy by (cases "m = n") auto
  then have "set (pending_tx x) \<inter> set (nbr_queue (nbr (core y) m)) = {}" if "m \<in> set (neighbor_list (core x))" for m
    using i(6) [OF that] by blast
  then have "set (pending_tx y) \<inter> set (nbr_queue (nbr (core y) m)) = {}" if "m \<in> set (neighbor_list (core x))" for m
    using np [OF _ that] that by (simp add: py Int_Un_distrib2) blast
  then have "slot_inv y"
    unfolding slot_inv_def nl used using sp(1) cy i(2-5) fr(4) ry qn(3) q p_free by (simp add: s1_def py)
  moreover have "tx_done ?st n p ps x y"
    using sp(2,4) py nl used fr(1,5) cy
    by (simp add: tx_done_def Let_def leaves_def s1_def)
  ultimately show ?thesis using that [OF f] by blast
qed

section \<open>The transmit slot\<close>

lemma tx_slot_spec:
  assumes inv: "slot_inv x" and n: "n \<in> set (neighbor_list (core x))" and q: "nbr_queue (nbr (core x) n) = p # ps"
    and cur: "current_packet x = Some p" "current_neighbor x = Some n" "current_link (core x) = Some l"
    and room: "ringbufindex_peek_put (dequeued_ringbuf x) \<noteq> -1" and d: "tsch_tx_slot cf ev x = Done y"
  obtains b x1 x2 rdy bs k sq burst where "p_qb (pkt (core x) p) = Some b" "tx_prepare cf ev n p b x = Done (rdy, bs, k, sq, burst, x1)"
    "if rdy \<and> te_prepare_ok ev then tx_transmit cf ev n b bs k sq burst x1 = Done x2 else x2 = x1"
    "slot_keeps x x2" "slot_inv y" "tx_done (mac_tx_status x2) n p ps x2 y"
proof -
  note i = slot_invD [OF inv]
  have "p \<in> memb_used (packet_memb (core x))" using q_coreD(3) [OF q_invD(5) [OF i(1)] n] q by simp
  then obtain b where b: "b \<in> memb_used (bufmem (qbs (core x)))" "p_qb (pkt (core x) p) = Some b"
    using q_invD(5) [OF i(1)] unfolding q_core_def by blast
  let ?i = "nat (ringbufindex_peek_put (dequeued_ringbuf x))"
  obtain rdy bs k sq burst x1 x2 where h: "tx_prepare cf ev n p b x = Done (rdy, bs, k, sq, burst, x1)"
      "(if rdy \<and> te_prepare_ok ev then tx_transmit cf ev n b bs k sq burst x1 else Done x1) = Done x2"
      "tx_finish cf ev ?i n p l x2 = Done y"
    using d room cur b(2) unfolding tsch_tx_slot_def Let_def by (auto elim!: obind_DoneE)
  have "slot_keeps x x1" using tx_prepare_keeps [OF i(1,2) n b(1) h(1)] .
  moreover have "slot_keeps x1 x2" using h(2) tx_transmit_keeps by (auto split: if_splits)
  ultimately have sk: "slot_keeps x x2" by (rule slot_keeps_trans)
  have f: "neighbor_list (core x2) = neighbor_list (core x)" "nbr (core x2) m = nbr (core x) m"
      "dequeued_ringbuf x2 = dequeued_ringbuf x" for m
    using sk core_keeps_fields [of "core x" "core x2"] by (simp_all add: slot_keeps_def)
  have inv2: "slot_inv x2" using slot_keeps_inv [OF sk inv] .
  obtain z where "tx_finish cf ev ?i n p l x2 = Done z" "slot_inv z" "tx_done (mac_tx_status x2) n p ps x2 z"
    using tx_finish_spec [OF inv2, of n p ps cf ev l] n q room unfolding f by metis
  then show ?thesis using that [OF b(2) h(1) _ sk] h(2,3) by (auto split: if_splits)
qed

lemma tx_done_keeps:
  assumes "slot_keeps x x2"
  shows "tx_done st n p ps x2 y = tx_done st n p ps x y"
  using assms core_keeps_fields [of "core x" "core x2"] by (simp add: tx_done_def slot_keeps_def)

text \<open>The status of a transmission: what the radio answered, and for unicast frames whether the acknowledgment was accepted.\<close>

definition tx_status :: "node_conf \<Rightarrow> tx_env \<Rightarrow> nat \<Rightarrow> u8 \<Rightarrow> node \<Rightarrow> u8" where
  "tx_status cf ev n sq x =
     (if te_transmit ev \<noteq> RADIO_TX_OK then MAC_TX_ERR
      else if is_broadcast (nbr (core x) n) then MAC_TX_OK
      else if tx_read_ack cf ev n sq x = Done None then MAC_TX_NOACK else MAC_TX_OK)"

lemma tx_secure_radio:
  "tx_secure cf ev p b bs k x = Done (bs', k', y) \<Longrightarrow>
     radio_sent y = radio_sent x \<and> mac_tx_status y = mac_tx_status x \<and> radio_is_on y = radio_is_on x"
  by (auto simp: tx_secure_def Let_def elim!: obind_DoneE split: if_splits option.splits)

lemma tx_prepare_radio:
  "tx_prepare cf ev n p b x = Done (rdy, bs, k, sq, burst, y) \<Longrightarrow>
     radio_sent y = radio_sent x \<and> mac_tx_status y = mac_tx_status x \<and> radio_is_on y = radio_is_on x"
  by (auto simp: tx_prepare_def Let_def dest!: tx_secure_radio elim!: obind_DoneE split: option.splits prod.splits)

lemma slot_sync_radio:
  "slot_sync cf r1 r2 clock n d x = Done y \<Longrightarrow> radio_sent y = radio_sent x \<and> radio_is_on y = radio_is_on x"
  by (auto simp: slot_sync_def Let_def elim!: obind_DoneE)

lemma radio_fields [simp]:
  "radio_sent (tsch_radio_on cf c x) = radio_sent x" "radio_sent (tsch_radio_off cf d x) = radio_sent x"
  "core (tsch_radio_on cf c x) = core x" "core (tsch_radio_off cf d x) = core x"
  "pan_id (tsch_radio_on cf c x) = pan_id x" "pan_id (tsch_radio_off cf d x) = pan_id x"
  "tsch_is_pan_secured (tsch_radio_on cf c x) = tsch_is_pan_secured x"
  "tsch_is_pan_secured (tsch_radio_off cf d x) = tsch_is_pan_secured x"
  "tsch_current_asn (tsch_radio_on cf c x) = tsch_current_asn x" "tsch_current_asn (tsch_radio_off cf d x) = tsch_current_asn x"
  by (simp_all add: tsch_radio_on_def tsch_radio_off_def Let_def)

lemma tx_read_ack_fields:
  assumes "core y = core x" "pan_id y = pan_id x" "tsch_is_pan_secured y = tsch_is_pan_secured x"
    "tsch_current_asn y = tsch_current_asn x"
  shows "tx_read_ack cf ev n sq y = tx_read_ack cf ev n sq x"
  unfolding tx_read_ack_def assms ..

lemma read_ack_radio [simp]:
  "tx_read_ack cf ev n sq (tsch_radio_on cf' c x) = tx_read_ack cf ev n sq x"
  "tx_read_ack cf ev n sq (tsch_radio_off cf' d x) = tx_read_ack cf ev n sq x"
  "tx_read_ack cf ev n sq (x\<lparr>radio_sent := fs, tx_count := c'\<rparr>) = tx_read_ack cf ev n sq x"
  by (rule tx_read_ack_fields; simp)+

lemma tx_await_ack_status:
  assumes "tx_await_ack cf ev n b sq burst x = Done y"
  shows "mac_tx_status y = (if tx_read_ack cf ev n sq x = Done None then MAC_TX_NOACK else MAC_TX_OK) \<and> radio_sent y = radio_sent x"
  using assms unfolding tx_await_ack_def Let_def
  by (auto elim!: obind_DoneE dest!: slot_sync_radio split: option.splits if_splits)

lemma tx_transmit_status:
  assumes "tx_transmit cf ev n b bs k sq burst x = Done y"
  shows "mac_tx_status y = tx_status cf ev n sq x \<and> radio_sent y = radio_sent x @ [take (unat k) bs]"
  using assms unfolding tx_transmit_def Let_def tx_status_def
  by (auto dest!: tx_await_ack_status split: if_splits)

lemma tx_finish_radio:
  "tx_finish cf ev i n p l x = Done y \<Longrightarrow> radio_sent y = radio_sent x \<and> mac_tx_status y = mac_tx_status x"
  by (auto simp: tx_finish_def Let_def split: prod.splits if_splits)


lemma tx_slot_full: "ringbufindex_peek_put (dequeued_ringbuf x) = -1 \<Longrightarrow> tsch_tx_slot cf ev x = Done x"
  by (simp add: tsch_tx_slot_def)

lemma tx_slot_radio:
  assumes d: "tsch_tx_slot cf ev x = Done y" and room: "ringbufindex_peek_put (dequeued_ringbuf x) \<noteq> -1"
    and cur: "current_packet x = Some p" "current_neighbor x = Some n" "current_link (core x) = Some l"
      "p_qb (pkt (core x) p) = Some b"
    and pr: "tx_prepare cf ev n p b x = Done (rdy, bs, k, sq, burst, x1)"
  shows "mac_tx_status y = (if rdy \<and> te_prepare_ok ev then tx_status cf ev n sq x1 else mac_tx_status x) \<and>
    radio_sent y = radio_sent x @ (if rdy \<and> te_prepare_ok ev then [take (unat k) bs] else [])"
  using d room cur pr tx_prepare_radio [OF pr] unfolding tsch_tx_slot_def Let_def
  by (auto dest!: tx_transmit_status tx_finish_radio elim!: obind_DoneE split: if_splits)

section \<open>A state for the examples\<close>

text \<open>The node after boot, with a broadcast packet in the queue and a slot chosen for it, in an unsecured PAN.\<close>

definition tx_frame :: packetbuf where
  "tx_frame = (case packetbuf_copyfrom [0x41, 0xd8, 7] 3 pb_zero of Done (_, p) \<Rightarrow> p | _ \<Rightarrow> pb_zero)"

definition tx_node :: node where
  "tx_node = (node_zero (\<lambda>_. replicate 12 328))\<lparr>
     core := (case tsch_queue_add_packet tsch_broadcast_address 1 (Some 5) 9 (tsch_boot\<lparr>pbuf := tx_frame\<rparr>) of
                Done (_, s) \<Rightarrow> s\<lparr>current_link := Some 0\<rparr> | _ \<Rightarrow> tsch_zero),
     dequeued_ringbuf := ringbufindex_init 8, tsch_is_pan_secured := False,
     current_packet := Some 0, current_neighbor := Some 1\<rparr>"

definition tx_answers :: tx_env where
  "tx_answers = \<lparr>te_prepare_ok = True, te_transmit = RADIO_TX_OK, te_ackbuf = [], te_ack_len = 0, te_rnd_backoff = 0,
     te_rnd_learn = 0, te_rnd_keepalive = 0, te_clock = 0, te_junk = frame802154_zero\<rparr>"

lemma tx_node_eval:
  "1 \<in> set (neighbor_list (core tx_node))" "nbr_queue (nbr (core tx_node) 1) = [0]" "current_link (core tx_node) = Some 0"
  "ringbufindex_peek_put (dequeued_ringbuf tx_node) = 0" "transmissions (pkt (core tx_node) 0) = 0"
  "max_transmissions (pkt (core tx_node) 0) = 1"
  "(case tsch_tx_slot conf_example tx_answers tx_node of Done y \<Rightarrow> radio_sent y = [[0x41, 0xd8, 7]] \<and> mac_tx_status y = MAC_TX_OK
    | _ \<Rightarrow> False) = True"
  by code_simp+

lemma tx_node_fields: "current_packet tx_node = Some 0" "current_neighbor tx_node = Some 1" "radio_sent tx_node = []"
    "dequeued_ringbuf tx_node = ringbufindex_init 8" "dequeued_array tx_node = replicate 8 None"
  by (simp_all add: tx_node_def node_zero_def)

lemma q_inv_other_fields [simp]: "q_inv (s\<lparr>pbuf := b\<rparr>) = q_inv s" "q_inv (s\<lparr>current_link := l\<rparr>) = q_inv s"
  by (simp_all add: q_inv_def q_core_def)

lemma tx_node_inv: "slot_inv tx_node"
proof -
  let ?s = "tsch_boot\<lparr>pbuf := tx_frame\<rparr>"
  have "pb_inv tx_frame"
    using packetbuf_copyfrom_spec [of pb_zero 3 "[0x41, 0xd8, 7]"] by (auto simp: tx_frame_def pb_zero_def PACKETBUF_SIZE_def)
  then obtain r s where r: "tsch_queue_add_packet tsch_broadcast_address 1 (Some 5) 9 ?s = Done (r, s)"
      "packet_added tsch_broadcast_address 1 (Some 5) 9 ?s r s"
    using add_packet_spec [of ?s tsch_broadcast_address 1 "Some 5" 9] tsch_boot_spec by auto
  then have "q_inv s" "\<not> tsch_locked s" by (simp_all add: packet_added_def)
  moreover have "core tx_node = s\<lparr>current_link := Some 0\<rparr>" using r(1) by (simp add: tx_node_def)
  ultimately show ?thesis
    using rb_inv_init [of 3]
    by (simp add: slot_inv_def tx_node_fields ring_ok_def ring_items_def rb_slots_init)
qed

section \<open>Properties\<close>

text \<open>C3. The outcome of a transmit slot for the head packet of a neighbor's queue. If the ring of dequeued packets is full the
  slot is skipped and nothing changes. Otherwise, unless the code reads outside a buffer, the node stays well-formed (the pools, queues
  and the ring of packets to report partition the packets in use) and: the frame prepared from the packet, secured if the PAN is,
  is the one handed to the radio, at most once; the status is MAC_TX_ERR if the radio failed, MAC_TX_OK for a broadcast frame or
  when a valid acknowledgment came, MAC_TX_NOACK otherwise (and that of the last slot if the frame could not be prepared); the packet counts
  one more transmission with that status, and it moves from the queue to the ring exactly when the status or the number
  of transmissions ends it; no other packet or queue changes and no callback is made in the slot.\<close>

theorem tx_slot_outcome:
  assumes "slot_inv x" "n \<in> set (neighbor_list (core x))" "nbr_queue (nbr (core x) n) = p # ps"
    "current_packet x = Some p" "current_neighbor x = Some n" "current_link (core x) = Some l"
    "tsch_tx_slot cf ev x = Done y"
  shows "if ringbufindex_peek_put (dequeued_ringbuf x) = -1 then y = x
    else slot_inv y \<and>
      (\<exists>b rdy bs k sq burst x1. p_qb (pkt (core x) p) = Some b \<and> tx_prepare cf ev n p b x = Done (rdy, bs, k, sq, burst, x1) \<and>
        (let sent = rdy \<and> te_prepare_ok ev; st = (if sent then tx_status cf ev n sq x1 else mac_tx_status x) in
         mac_tx_status y = st \<and> radio_sent y = radio_sent x @ (if sent then [take (unat k) bs] else []) \<and>
         tx_done st n p ps x y))"
proof (cases "ringbufindex_peek_put (dequeued_ringbuf x) = -1")
  case True
  then show ?thesis using tx_slot_full [of x cf ev] assms(7) by simp
next
  case False
  obtain b x1 x2 rdy bs k sq burst where h: "p_qb (pkt (core x) p) = Some b" "tx_prepare cf ev n p b x = Done (rdy, bs, k, sq, burst, x1)"
      "slot_keeps x x2" "slot_inv y" "tx_done (mac_tx_status x2) n p ps x2 y"
      "if rdy \<and> te_prepare_ok ev then tx_transmit cf ev n b bs k sq burst x1 = Done x2 else x2 = x1"
    using tx_slot_spec [OF assms(1-6) False assms(7)] by metis
  have "mac_tx_status x2 = (if rdy \<and> te_prepare_ok ev then tx_status cf ev n sq x1 else mac_tx_status x)"
    using h(6) tx_transmit_status [of cf ev n b bs k sq burst x1 x2] tx_prepare_radio [OF h(2)] by (simp split: if_splits)
  then show ?thesis
    using h(1,2,4,5) False tx_done_keeps [OF h(3)] tx_slot_radio [OF assms(7) False assms(4-6) h(1,2)]
    by (auto simp: Let_def)
qed

theorem tx_slot_outcome_witness:
  "\<exists>y. tsch_tx_slot conf_example tx_answers tx_node = Done y \<and> slot_inv y \<and> radio_sent y = [[0x41, 0xd8, 7]] \<and>
     nbr_queue (nbr (core y) 1) = [] \<and> pending_tx y = [0] \<and> p_ret (pkt (core y) 0) = MAC_TX_OK"
proof -
  obtain y where y: "tsch_tx_slot conf_example tx_answers tx_node = Done y" "radio_sent y = [[0x41, 0xd8, 7]]"
      "mac_tx_status y = MAC_TX_OK"
    using tx_node_eval(7) by (auto split: outcome.splits)
  have "sent_dequeues MAC_TX_OK k" for k by (simp add: sent_dequeues_def)
  moreover have "slot_inv y \<and> tx_done MAC_TX_OK 1 0 [] tx_node y"
    using tx_slot_outcome [OF tx_node_inv tx_node_eval(1,2) tx_node_fields(1,2) tx_node_eval(3) y(1)] y(3)
    unfolding tx_node_eval(4) Let_def by auto
  ultimately show ?thesis
    using y by (simp add: tx_done_def tried_def Let_def tx_node_fields ring_items_def rb_slots_init)
qed

end
