(* ===== verification/SlotInv.thy ===== *)
theory SlotInv
  imports TxSlot
begin

text \<open>
  The well-formedness of a node and that every activation of the slot operation, with its transmit and receive slots, keeps it.
\<close>

definition node_wf :: "node \<Rightarrow> bool" where
  "node_wf x \<longleftrightarrow> slot_inv x \<and> rb_inv 2 (input_ringbuf x) \<and> length (input_array x) = 4 \<and>
     (\<forall>n. n_eb (core x) = Some n \<or> n_broadcast (core x) = Some n \<longrightarrow> n \<in> set (neighbor_list (core x)))"

lemma node_wfD:
  assumes "node_wf x"
  shows "slot_inv x" "rb_inv 2 (input_ringbuf x)" "length (input_array x) = 4"
    "n_eb (core x) = Some n \<Longrightarrow> n \<in> set (neighbor_list (core x))"
    "n_broadcast (core x) = Some n \<Longrightarrow> n \<in> set (neighbor_list (core x))"
  using assms by (auto simp: node_wf_def)

lemma node_wf_other [simp]:
  "node_wf (x\<lparr>tsch_in_slot_operation := b\<rparr>) = node_wf x" "node_wf (x\<lparr>drift_correction := i\<rparr>) = node_wf x"
  "node_wf (x\<lparr>is_drift_correction_used := b\<rparr>) = node_wf x" "node_wf (x\<lparr>current_packet := p\<rparr>) = node_wf x"
  "node_wf (x\<lparr>current_neighbor := n\<rparr>) = node_wf x" "node_wf (x\<lparr>burst_link_scheduled := b\<rparr>) = node_wf x"
  "node_wf (x\<lparr>tsch_current_channel := c\<rparr>) = node_wf x" "node_wf (x\<lparr>tsch_timing := t\<rparr>) = node_wf x"
  "node_wf (x\<lparr>events_polled := b\<rparr>) = node_wf x" "node_wf (x\<lparr>input_queue_drop := k\<rparr>) = node_wf x"
  "node_wf (x\<lparr>tsync := ts\<rparr>) = node_wf x" "node_wf (x\<lparr>main_polled := b\<rparr>) = node_wf x" "node_wf (x\<lparr>slot_timer := st\<rparr>) = node_wf x"
  by (simp_all add: node_wf_def slot_inv_def)

lemma node_wf_core:
  assumes "node_wf x" "q_inv s" "\<not> tsch_locked s" "neighbor_list s = neighbor_list (core x)" "packet_memb s = packet_memb (core x)"
    "\<And>n. nbr_queue (nbr s n) = nbr_queue (nbr (core x) n)" "n_eb s = n_eb (core x)" "n_broadcast s = n_broadcast (core x)"
  shows "node_wf (x\<lparr>core := s\<rparr>)"
  using assms by (simp add: node_wf_def slot_inv_def)

lemma node_wf_link [simp]: "node_wf (x\<lparr>core := (core x)\<lparr>current_link := l\<rparr>\<rparr>) = node_wf x"
  by (simp add: node_wf_def slot_inv_def)

lemma slot_keeps_wf: "slot_keeps x y \<Longrightarrow> node_wf x \<Longrightarrow> node_wf y"
  using slot_keeps_inv core_keeps_fields [of "core x" "core y"] by (auto simp: node_wf_def slot_keeps_def)

section \<open>The packet of a slot\<close>

lemma packet_for_nbr_head:
  assumes inv: "q_inv s" "\<not> tsch_locked s" and n: "n' = Some n \<longrightarrow> n \<in> set (neighbor_list s)"
    and p: "tsch_queue_get_packet_for_nbr n' l s = Some p" and e: "n' = Some n \<or> n' = None"
  shows "n' = Some n \<and> (\<exists>ps. nbr_queue (nbr s n) = p # ps)"
proof (cases n')
  case (Some m)
  then have nn: "n' = Some n" using e by simp
  have "nbr_ok (nbr s n)" using q_coreD(1) [OF q_invD(5) [OF inv(1)]] n nn by simp
  then show ?thesis
    using p get_packet_for_nbr_eq [of s n l] inv(2) nn by (cases "nbr_queue (nbr s n)") (auto simp: offers_packet_def split: if_splits)
qed (use p in \<open>simp add: tsch_queue_get_packet_for_nbr_def Let_def split: if_splits\<close>)

lemma get_nbr_listed: "tsch_queue_get_nbr a s = Some n \<Longrightarrow> n \<in> set (neighbor_list s)"
  by (auto simp: tsch_queue_get_nbr_def find_Some_iff split: if_splits)

lemma packet_for_link_head:
  assumes wf: "node_wf x" and g: "get_packet_and_neighbor_for_link l s = (Some p, n')"
    and s: "s = core x \<or> s = (core x)\<lparr>current_link := c\<rparr>"
  shows "\<exists>n ps. n' = Some n \<and> n \<in> set (neighbor_list (core x)) \<and> nbr_queue (nbr (core x) n) = p # ps"
proof -
  have inv: "q_inv s" "\<not> tsch_locked s" and same: "neighbor_list s = neighbor_list (core x)" "\<And>n. nbr s n = nbr (core x) n" "n_eb s = n_eb (core x)"
    using slot_invD(1,2) [OF node_wfD(1) [OF wf]] s by auto
  have one: "\<exists>n ps. m = Some n \<and> n \<in> set (neighbor_list s) \<and> nbr_queue (nbr s n) = p # ps"
    if "tsch_queue_get_packet_for_nbr m (Some l) s = Some p" "\<And>k. m = Some k \<Longrightarrow> k \<in> set (neighbor_list s)" for m
    using packet_for_nbr_head [OF inv _ that(1)] that(2) by (cases m) auto
  have any: "n \<in> set (neighbor_list s) \<and> (\<exists>ps. nbr_queue (nbr s n) = p # ps)"
    if u: "tsch_queue_get_unicast_packet_for_any (Some l) s = Some (p, n)" for n
  proof -
    have ok: "nbr_ok (nbr s k)" if "k \<in> set (neighbor_list s)" for k using q_coreD(1) [OF q_invD(5) [OF inv(1)] that] .
    have "p = hd (nbr_queue (nbr s n))" "n \<in> set (neighbor_list s)" "nbr_queue (nbr s n) \<noteq> []"
      using u inv(2) unicast_loop_eq [OF inv(2) ok]
      by (auto simp: tsch_queue_get_unicast_packet_for_any_def find_Some_iff offers_packet_def)
    then show ?thesis by (cases "nbr_queue (nbr s n)") auto
  qed
  have eb: "k \<in> set (neighbor_list s)" if "n_eb s = Some k" for k using node_wfD(4) [OF wf] that same by simp
  have "\<exists>n ps. n' = Some n \<and> n \<in> set (neighbor_list s) \<and> nbr_queue (nbr s n) = p # ps"
    using g one [of "n_eb s", OF _ eb] one [of "tsch_queue_get_nbr (l_addr (link s l)) s", OF _ get_nbr_listed] any
    by (auto simp: get_packet_and_neighbor_for_link_def Let_def split: if_splits option.splits)
  then show ?thesis unfolding same .
qed

section \<open>Transmit slots\<close>

lemma virtual_nbrs_upd [simp]:
  "n_eb (nbr_upd n f s) = n_eb s" "n_broadcast (nbr_upd n f s) = n_broadcast s" "n_eb (pkt_upd p g s) = n_eb s"
  "n_broadcast (pkt_upd p g s) = n_broadcast s"
  by (simp_all add: nbr_upd_def pkt_upd_def)

lemma packet_sent_other:
  "n_eb (snd (tsch_queue_packet_sent rnd n p l st s)) = n_eb s" "n_broadcast (snd (tsch_queue_packet_sent rnd n p l st s)) = n_broadcast s"
  by (simp_all add: tsch_queue_packet_sent_def tsch_queue_remove_packet_from_queue_def Let_def split: prod.split)

lemma tx_finish_other:
  assumes "tx_finish cf ev i n p l x = Done y"
  shows "n_eb (core y) = n_eb (core x)" "n_broadcast (core y) = n_broadcast (core x)" "input_array y = input_array x"
    "input_ringbuf y = input_ringbuf x" "neighbor_list (core y) = neighbor_list (core x)"
proof -
  define s1 where "s1 = pkt_upd p (\<lambda>k. k\<lparr>transmissions := transmissions k + 1, p_ret := mac_tx_status x\<rparr>) (core x)"
  define sent where "sent = tsch_queue_packet_sent (te_rnd_backoff ev) n p l (mac_tx_status x) s1"
  have c: "core y = snd sent" "input_array y = input_array x" "input_ringbuf y = input_ringbuf x"
    using assms unfolding tx_finish_def Let_def
    by (auto simp: s1_def sent_def tsch_radio_off_def Let_def split: prod.splits if_splits)
  show "n_eb (core y) = n_eb (core x)" "n_broadcast (core y) = n_broadcast (core x)" "input_array y = input_array x"
    "input_ringbuf y = input_ringbuf x" "neighbor_list (core y) = neighbor_list (core x)"
    by (simp_all add: c sent_def packet_sent_other packet_sent_frame s1_def)
qed

lemma tx_slot_wf:
  assumes wf: "node_wf x" and n: "n \<in> set (neighbor_list (core x))" "nbr_queue (nbr (core x) n) = p # ps"
    and cur: "current_packet x = Some p" "current_neighbor x = Some n" "current_link (core x) = Some l"
    and d: "tsch_tx_slot cf ev x = Done y"
  shows "node_wf y"
proof (cases "ringbufindex_peek_put (dequeued_ringbuf x) = -1")
  case True
  then show ?thesis using tx_slot_full [of x cf ev] d wf by simp
next
  case False
  let ?i = "nat (ringbufindex_peek_put (dequeued_ringbuf x))"
  note inv = node_wfD(1) [OF wf]
  obtain b x1 x2 rdy bs k sq burst where h: "p_qb (pkt (core x) p) = Some b" "tx_prepare cf ev n p b x = Done (rdy, bs, k, sq, burst, x1)"
      "slot_keeps x x2" "slot_inv y" "if rdy \<and> te_prepare_ok ev then tx_transmit cf ev n b bs k sq burst x1 = Done x2 else x2 = x1"
    using tx_slot_spec [OF inv n cur False d] by metis
  have fin: "tx_finish cf ev ?i n p l x2 = Done y"
    using d False cur h(1,2,5) by (simp add: tsch_tx_slot_def Let_def split: if_splits)
  have "node_wf x2" using slot_keeps_wf [OF h(3) wf] .
  then show ?thesis using h(4) tx_finish_other [OF fin] by (simp add: node_wf_def)
qed

section \<open>Receive slots\<close>

text \<open>What a receive slot keeps: all but the input ring and the timers.\<close>

definition rx_keeps :: "node \<Rightarrow> node \<Rightarrow> bool" where
  "rx_keeps x y \<longleftrightarrow> core_keeps (core x) (core y) \<and> dequeued_array y = dequeued_array x \<and> dequeued_ringbuf y = dequeued_ringbuf x \<and>
     length (input_array y) = length (input_array x) \<and> (rb_inv 2 (input_ringbuf x) \<longrightarrow> rb_inv 2 (input_ringbuf y))"

lemma rx_keeps_refl [simp]: "rx_keeps x x"
  by (simp add: rx_keeps_def)

lemma rx_keeps_trans: "rx_keeps x y \<Longrightarrow> rx_keeps y z \<Longrightarrow> rx_keeps x z"
  using core_keeps_trans by (auto simp: rx_keeps_def)

lemma slot_keeps_rx: "slot_keeps x y \<Longrightarrow> rx_keeps x y"
  by (simp add: slot_keeps_def rx_keeps_def)

lemma rx_keeps_upd [simp]:
  "rx_keeps x (y\<lparr>rx_count := c\<rparr>) = rx_keeps x y" "rx_keeps x (y\<lparr>eack_attrs_buf := a\<rparr>) = rx_keeps x y"
  "rx_keeps x (y\<lparr>radio_sent := fs\<rparr>) = rx_keeps x y" "rx_keeps x (y\<lparr>burst_link_scheduled := b\<rparr>) = rx_keeps x y"
  "rx_keeps x (y\<lparr>sync_count := k\<rparr>) = rx_keeps x y" "rx_keeps x (y\<lparr>events_polled := b\<rparr>) = rx_keeps x y"
  "rx_keeps x (y\<lparr>input_array := (input_array y)[i := v]\<rparr>) = rx_keeps x y" "rx_keeps x (y\<lparr>input_queue_drop := q\<rparr>) = rx_keeps x y"
  "rx_keeps x (tsch_radio_on cf on y) = rx_keeps x y" "rx_keeps x (tsch_radio_off cf off y) = rx_keeps x y"
  by (simp_all add: rx_keeps_def tsch_radio_on_def tsch_radio_off_def Let_def)

lemma rx_keeps_wf: "rx_keeps x y \<Longrightarrow> node_wf x \<Longrightarrow> node_wf y"
  using core_keeps_q_inv [of "core x" "core y"] core_keeps_fields [of "core x" "core y"]
  by (auto simp: rx_keeps_def node_wf_def slot_inv_def)

lemma rx_send_ack_keeps: "rx_send_ack cf ev src sq d buf x = Done y \<Longrightarrow> rx_keeps x y"
  by (auto simp: rx_send_ack_def Let_def elim!: obind_DoneE split: if_splits)

lemma rx_accept_keeps:
  assumes "rx_accept cf ev f src buf x = Done y"
  shows "rx_keeps x y"
proof -
  define x0 where "x0 = x\<lparr>rx_count := rx_count x + 1\<rparr>"
  define drift where "drift = sint (current_slot_start x0 + timings x0 (tsch_timing x0) ! tsch_ts_tx_offset - re_start_time ev)"
  obtain x1 x2 ts where h: "(if ack_required (fcf f) \<noteq> 0 then rx_send_ack cf ev src (seq f) drift buf x0 else Done x0) = Done x1"
      "(if ts then slot_sync cf (re_rnd_learn ev) (re_rnd_keepalive ev) (re_clock ev) (tsch_queue_get_nbr src (core x1)) (s32 (- drift))
          (x1\<lparr>sync_count := sync_count x1 + 1\<rparr>) else Done x1) = Done x2"
      "y = x2\<lparr>input_ringbuf := snd (ringbufindex_put (input_ringbuf x2))\<rparr>"
    using assms unfolding rx_accept_def Let_def x0_def [symmetric] drift_def [symmetric]
    by (auto elim!: obind_DoneE)
  have "rx_keeps x0 x1" using h(1) rx_send_ack_keeps by (auto split: if_splits)
  moreover have "rx_keeps x1 x2"
  proof (cases ts)
    case True
    then have "rx_keeps (x1\<lparr>sync_count := sync_count x1 + 1\<rparr>) x2" using h(2) by (simp add: slot_keeps_rx [OF slot_sync_keeps])
    then show ?thesis using rx_keeps_trans [of x1 "x1\<lparr>sync_count := sync_count x1 + 1\<rparr>" x2] by simp
  qed (use h(2) in simp)
  moreover have "rx_keeps x2 y"
    using ringbufindex_put_spec(1) [of 2 "input_ringbuf x2"] by (auto simp: h(3) rx_keeps_def) (metis prod.collapse)
  ultimately show ?thesis using rx_keeps_trans [of x0 x1 x2] rx_keeps_trans [of x0 x2 y] rx_keeps_trans [of x x0 y] by (simp add: x0_def)
qed

lemma rx_receive_keeps:
  assumes "rx_receive cf ev i x = Done y"
  shows "rx_keeps x y"
proof -
  obtain r where r: "rx_check ev x = Done r" using assms by (auto simp: rx_receive_def elim!: obind_DoneE)
  define v where "v = \<lparr>ip_payload = re_payload ev, ip_rx_asn = tsch_current_asn x, ip_len = re_len ev,
             ip_rssi = s16 (re_rssi ev), ip_channel = tsch_current_channel x\<rparr>"
  note d = assms [unfolded rx_receive_def r obind.simps Let_def v_def [symmetric]]
  show ?thesis
  proof (cases r)
    case None
    then show ?thesis using d by auto
  next
    case (Some q)
    obtain f src dst buf len where q: "q = (f, src, dst, buf, len)" by (cases q)
    define x1 where "x1 = x\<lparr>input_array := (input_array x)[i := v\<lparr>ip_payload := buf, ip_len := len\<rparr>]\<rparr>"
    obtain x2 where h: "(if linkaddr_cmp dst (linkaddr_node_addr cf) \<or> linkaddr_cmp dst linkaddr_null
        then rx_accept cf ev f src buf x1 else Done x1) = Done x2" "y = x2\<lparr>events_polled := True\<rparr>"
      using d [unfolded Some q option.case prod.case x1_def [symmetric]] by (auto elim!: obind_DoneE)
    then have "rx_keeps x1 x2" using rx_accept_keeps by (auto split: if_splits)
    note x2 = this h(2)
    show ?thesis using rx_keeps_trans [of x x1 x2] x2 by (simp add: x1_def)
  qed
qed

lemma rx_slot_keeps:
  assumes "tsch_rx_slot cf ev x = Done y"
  shows "rx_keeps x y"
proof -
  define x2 where "x2 = tsch_radio_off cf TSCH_RADIO_CMD_OFF_WITHIN_TIMESLOT (tsch_radio_on cf TSCH_RADIO_CMD_ON_WITHIN_TIMESLOT x)"
  have k: "rx_keeps x x2" by (simp add: x2_def)
  show ?thesis
    using assms [unfolded tsch_rx_slot_def Let_def x2_def [symmetric]] k rx_keeps_trans [OF k rx_receive_keeps]
    by (auto elim!: obind_DoneE split: if_splits)
qed

section \<open>The next slot\<close>

lemma backoff_loop_other:
  "neighbor_list (backoff_loop a ns s) = neighbor_list s" "packet_memb (backoff_loop a ns s) = packet_memb s"
  "n_eb (backoff_loop a ns s) = n_eb s" "n_broadcast (backoff_loop a ns s) = n_broadcast s" "tsch_locked (backoff_loop a ns s) = tsch_locked s"
  by (induction ns arbitrary: s) simp_all

lemma shared_backoff_wf:
  assumes "node_wf x"
  shows "node_wf (x\<lparr>core := shared_backoff (core x)\<rparr>)"
proof -
  note i = slot_invD [OF node_wfD(1) [OF assms]]
  have "node_wf (x\<lparr>core := tsch_queue_update_all_backoff_windows a (core x)\<rparr>)" for a
  proof (rule node_wf_core [OF assms])
    show "q_inv (tsch_queue_update_all_backoff_windows a (core x))" using backoff_sweep_exact [OF i(1,2)] by blast
    show "nbr_queue (nbr (tsch_queue_update_all_backoff_windows a (core x)) n) = nbr_queue (nbr (core x) n)" for n
      using backoff_sweep_exact [OF i(1,2), of a n] by (simp add: nbr_queue_def)
  qed (use i(2) in \<open>simp_all add: tsch_queue_update_all_backoff_windows_def backoff_loop_other\<close>)
  then show ?thesis using assms by (simp add: shared_backoff_def split: option.split)
qed

lemma next_slot_core:
  assumes "next_slot cf x = (t0, t, y)"
  shows "(core y = shared_backoff (core x) \<or> (\<exists>l. core y = (shared_backoff (core x))\<lparr>current_link := l\<rparr>)) \<and>
    dequeued_array y = dequeued_array x \<and> dequeued_ringbuf y = dequeued_ringbuf x \<and> input_array y = input_array x \<and>
    input_ringbuf y = input_ringbuf x"
  using assms unfolding next_slot_def shared_backoff_def [symmetric] Let_def
  by (auto split: prod.splits if_splits option.splits)

lemma next_slot_wf:
  assumes "node_wf x" "next_slot cf x = (t0, t, y)"
  shows "node_wf y"
proof -
  note n = next_slot_core [OF assms(2)]
  let ?z = "x\<lparr>core := shared_backoff (core x)\<rparr>"
  have "node_wf y = node_wf (x\<lparr>core := core y\<rparr>)" using n by (simp add: node_wf_def slot_inv_def)
  moreover have "node_wf (x\<lparr>core := (shared_backoff (core x))\<lparr>current_link := l\<rparr>\<rparr>) = node_wf ?z" for l
    using node_wf_link [where x = ?z and l = l] by simp
  ultimately show ?thesis using n shared_backoff_wf [OF assms(1)] by metis
qed

lemma next_slot_loop_wf: "node_wf x \<Longrightarrow> next_slot_loop cf obs x = Some y \<Longrightarrow> node_wf y"
proof (induction cf obs x rule: next_slot_loop.induct)
  case (2 cf now ok obs x)
  obtain t0 t x1 where n: "next_slot cf x = (t0, t, x1)" by (cases "next_slot cf x")
  have w: "node_wf x1" using next_slot_wf [OF 2(2) n] .
  obtain r x2 where r: "tsch_schedule_slot_operation t0 t now ok x1 = (r, x2)" by fastforce
  then have "node_wf x2" using w by (auto simp: tsch_schedule_slot_operation_def split: if_splits)
  then show ?case using 2 n r by (auto split: if_splits)
qed simp

section \<open>An activation\<close>

lemma slot_select_wf:
  assumes wf: "node_wf x" and s: "slot_select l0 x = (l, y)" and c: "current_link (core x) = Some l0"
  shows "node_wf y" "current_link (core y) = Some l"
    "current_packet y = Some p \<Longrightarrow> \<exists>n ps. current_neighbor y = Some n \<and> n \<in> set (neighbor_list (core y)) \<and> nbr_queue (nbr (core y) n) = p # ps"
proof -
  obtain p1 n1 where g: "get_packet_and_neighbor_for_link l0 (core x) = (p1, n1)" by fastforce
  have "node_wf y \<and> current_link (core y) = Some l \<and>
    (current_packet y = Some p \<longrightarrow> (\<exists>n ps. current_neighbor y = Some n \<and> n \<in> set (neighbor_list (core y)) \<and> nbr_queue (nbr (core y) n) = p # ps))"
  proof (cases "p1 = None \<and> \<not> has_rx (core x) l0 \<and> backup_link x \<noteq> None")
    case True
    then obtain l2 where l2: "backup_link x = Some l2" by auto
    obtain p2 n2 where g2: "get_packet_and_neighbor_for_link l2 ((core x)\<lparr>current_link := Some l2\<rparr>) = (p2, n2)" by fastforce
    have y: "l = l2" "y = x\<lparr>core := (core x)\<lparr>current_link := Some l2\<rparr>, current_packet := p2, current_neighbor := n2\<rparr>"
      using s g g2 True l2 by (auto simp: slot_select_def)
    have "\<exists>n ps. n2 = Some n \<and> n \<in> set (neighbor_list (core x)) \<and> nbr_queue (nbr (core x) n) = p # ps" if "p2 = Some p"
      by (rule packet_for_link_head [OF wf g2 [unfolded that], where c = "Some l2"]) simp
    then show ?thesis using wf by (simp add: y)
  next
    case False
    then have y: "l = l0" "y = x\<lparr>current_packet := p1, current_neighbor := n1\<rparr>"
      using s g by (auto simp: slot_select_def split: option.splits bool.splits)
    have "\<exists>n ps. n1 = Some n \<and> n \<in> set (neighbor_list (core x)) \<and> nbr_queue (nbr (core x) n) = p # ps" if "p1 = Some p"
      by (rule packet_for_link_head [OF wf g [unfolded that]]) simp
    then show ?thesis using wf c by (simp add: y)
  qed
  then show "node_wf y" "current_link (core y) = Some l"
    "current_packet y = Some p \<Longrightarrow> \<exists>n ps. current_neighbor y = Some n \<and> n \<in> set (neighbor_list (core y)) \<and> nbr_queue (nbr (core y) n) = p # ps"
    by blast+
qed

lemma slot_channel_keeps:
  assumes "slot_channel cf ev l x = Done y"
  shows "node_wf y = node_wf x" "core y = core x" "current_packet y = current_packet x" "current_neighbor y = current_neighbor x"
  using assms by (auto simp: slot_channel_def elim!: obind_DoneE split: if_splits)

lemma slot_run_wf:
  assumes wf: "node_wf x" and c: "current_link (core x) = Some l0" and d: "slot_run cf ev l0 x = Done y"
  shows "node_wf y"
proof -
  define x0 where "x0 = x\<lparr>tsch_in_slot_operation := True, drift_correction := 0, is_drift_correction_used := False\<rparr>"
  obtain l x1 where s: "slot_select l0 x0 = (l, x1)" by fastforce
  have w: "node_wf x0" "current_link (core x0) = Some l0" using wf c by (simp_all add: x0_def)
  note sl = slot_select_wf [OF w(1) s w(2)]
  let ?sample = "link_options (link (core x1) l) AND LINK_OPTION_SAMPLE_RSSI \<noteq> 0"
  show ?thesis
  proof (cases "current_packet x1 \<noteq> None \<or> has_rx (core x1) l \<or> ?sample")
    case False
    then show ?thesis using d sl(1) by (auto simp: slot_run_def x0_def [symmetric] s)
  next
    case True
    then obtain x2 where ch: "slot_channel cf ev l x1 = Done x2"
      using d by (auto simp: slot_run_def x0_def [symmetric] s elim!: obind_DoneE)
    define x3 where "x3 = tsch_radio_on cf TSCH_RADIO_CMD_ON_START_OF_TIMESLOT x2"
    note k = slot_channel_keeps [OF ch]
    have w3: "node_wf x3" unfolding x3_def using slot_keeps_wf [OF slot_keeps_radio(1)] k(1) sl(1) by blast
    have c3: "core x3 = core x1" "current_packet x3 = current_packet x1" "current_neighbor x3 = current_neighbor x1"
      using k by (simp_all add: x3_def tsch_radio_on_def Let_def)
    have run: "(if ?sample then Done (tsch_radio_off cf TSCH_RADIO_CMD_OFF_END_OF_TIMESLOT x3)
        else if current_packet x3 \<noteq> None then tsch_tx_slot cf (se_tx ev) x3 else tsch_rx_slot cf (se_rx ev) x3) = Done y"
      using d True ch unfolding slot_run_def Let_def x0_def [symmetric] s prod.case x3_def by (auto split: if_splits)
    show ?thesis
    proof (cases "?sample \<or> current_packet x3 = None")
      case True
      then show ?thesis using run w3 slot_keeps_wf [OF slot_keeps_radio(2) w3] rx_keeps_wf [OF rx_slot_keeps w3] by (auto split: if_splits)
    next
      case False
      then obtain p where p: "current_packet x3 = Some p" "tsch_tx_slot cf (se_tx ev) x3 = Done y" using run by auto
      then obtain n ps where "current_neighbor x1 = Some n" "n \<in> set (neighbor_list (core x1))" "nbr_queue (nbr (core x1) n) = p # ps"
        using sl(3) [of p] c3(2) by auto
      then show ?thesis using tx_slot_wf [OF w3, of n p ps l cf "se_tx ev" y] p c3 sl(2) by simp
    qed
  qed
qed

section \<open>Properties\<close>

text \<open>C7. Well-formed nodes stay well-formed: whatever the radio and the clock answer, an activation of the slot operation that does
  not read outside a buffer keeps the pools, the neighbor queues, the ring of packets to report, the input ring and the pointers to the virtual
  neighbors consistent: every packet in use is in at most one queue or in the ring, once, with a buffer of its own, and no list holds a freed block.\<close>

theorem slot_operation_well_formed:
  assumes "node_wf x" "tsch_slot_operation cf ev obs x = Done y"
  shows "node_wf y"
proof -
  have dis: "node_wf (tsch_disassociate z) = node_wf z" for z
    by (simp add: tsch_disassociate_def node_wf_def slot_inv_def q_inv_def q_core_def)
  show ?thesis
  proof (cases "tsch_is_associated (core x)")
    case True
    then obtain x1 where x1: "(case current_link (core x) of None \<Rightarrow> Done x
        | Some l \<Rightarrow> if tsch_lock_requested (core x) then Done x else slot_run cf ev l x) = Done x1"
      using assms(2) by (auto simp: tsch_slot_operation_def elim!: obind_DoneE)
    have "node_wf x1" using x1 assms(1) slot_run_wf [OF assms(1)] by (auto split: option.splits if_splits)
    moreover have "if out_of_sync cf x1
        then y = (tsch_disassociate (x1\<lparr>tsync := (tsync x1)\<lparr>last_timesource_neighbor := None\<rparr>\<rparr>))\<lparr>tsch_in_slot_operation := False\<rparr>
        else \<exists>z. next_slot_loop cf obs x1 = Some z \<and> y = z\<lparr>tsch_in_slot_operation := False\<rparr>"
      using assms(2) unfolding tsch_slot_operation_def if_not_P [OF not_not [THEN iffD2, OF True]] x1 obind.simps
      by (simp split: if_splits option.splits)
    ultimately show ?thesis
      using next_slot_loop_wf [of x1 cf obs] dis by (auto split: if_splits)
  qed (use assms in \<open>simp add: tsch_slot_operation_def\<close>)
qed

lemma q_inv_associated: "q_inv (s\<lparr>tsch_is_associated := b\<rparr>) = q_inv s"
  by (simp add: q_inv_def q_core_def)

text \<open>The example node with an input ring, associated, in a slot with a packet to send.\<close>

definition wf_node :: node where
  "wf_node = tx_node\<lparr>core := (core tx_node)\<lparr>tsch_is_associated := True\<rparr>, input_ringbuf := ringbufindex_init 4\<rparr>"

definition rx_answers :: rx_env where
  "rx_answers = \<lparr>re_packet_seen = False, re_pending = False, re_payload = [], re_len = 0, re_rssi = 0, re_start_time = 0, re_rnd_learn = 0,
     re_rnd_keepalive = 0, re_clock = 0, re_ackbuf = [], re_junk = frame802154_zero, re_ack_junk = frame802154_zero\<rparr>"

definition slot_answers :: slot_env where
  "slot_answers = \<lparr>se_divisor = None, se_timing = Some 0, se_tx = tx_answers, se_rx = rx_answers\<rparr>"

lemma wf_node_wf: "node_wf wf_node"
proof -
  have "n_eb (core tx_node) = Some 0 \<and> n_broadcast (core tx_node) = Some 1 \<and> 0 \<in> set (neighbor_list (core tx_node)) \<and>
      1 \<in> set (neighbor_list (core tx_node)) \<and> length (input_array tx_node) = 4" by code_simp
  then show ?thesis
    using tx_node_inv rb_inv_init [of 2] by (auto simp: wf_node_def node_wf_def slot_inv_def q_inv_associated)
qed

lemma wf_node_eval:
  "(case tsch_slot_operation conf_example slot_answers [(0, True)] wf_node of Done y \<Rightarrow> slot_timer y = Some 328 | _ \<Rightarrow> False) = True"
  by code_simp

theorem slot_operation_well_formed_witness:
  "\<exists>y. tsch_slot_operation conf_example slot_answers [(0, True)] wf_node = Done y \<and> node_wf y"
proof -
  obtain y where y: "tsch_slot_operation conf_example slot_answers [(0, True)] wf_node = Done y"
    using wf_node_eval by (auto split: outcome.splits)
  show ?thesis using slot_operation_well_formed [OF wf_node_wf y] y by blast
qed

end
