(* ===== verification/TschMain.thy ===== *)
theory TschMain
  imports SlotOp
begin

text \<open>
  The main module \<^verbatim>\<open>os/net/mac/tsch/tsch.c\<close>: sending and receiving packets, beacons, keep-alives, association and the reset when
  the network is left. Time, random numbers and the answers of the radio are arguments. The network layer is reached through
  \<open>net_input\<close>; reports of sent packets are recorded in \<open>sent_log\<close>. The report to this module itself, \<open>keepalive_packet_sent\<close>, is the
  callback number \<open>KEEPALIVE_SENT\<close>. The optional choice of the time source from beacons (\<open>TSCH_AUTOSELECT_TIME_SOURCE\<close>, which does not
  compile), the check of the time at association (default 0), 6top and the callbacks of RPL are switched off; logging is left out.
\<close>

definition TSCH_MAX_JOIN_PRIORITY :: u8 where "TSCH_MAX_JOIN_PRIORITY = 32"
definition TSCH_MAC_MAX_FRAME_RETRIES :: u8 where "TSCH_MAC_MAX_FRAME_RETRIES = 7"
definition IEEE802154_PANID :: u16 where "IEEE802154_PANID = 0xabcd"
definition TSCH_MAX_INCOMING_PACKETS :: u8 where "TSCH_MAX_INCOMING_PACKETS = 4"
definition TSCH_DEQUEUED_ARRAY_SIZE :: u8 where "TSCH_DEQUEUED_ARRAY_SIZE = 8"
definition KEEPALIVE_SENT :: nat where "KEEPALIVE_SENT = 0"

abbreviation core_upd :: "(tsch \<Rightarrow> tsch) \<Rightarrow> node \<Rightarrow> node" where
  "core_upd f x \<equiv> x\<lparr>core := f (core x)\<rparr>"

text \<open>A call that may not return, inside an operation that may fault: \<open>Failed\<close> stands for not returning.\<close>

definition returns :: "'a option \<Rightarrow> 'a outcome" where
  "returns m = (case m of None \<Rightarrow> Failed | Some x \<Rightarrow> Done x)"

section \<open>Setters\<close>

text \<open>The argument of \<open>tsch_set_eb_period\<close> is not used.\<close>

definition tsch_set_eb_period :: "node_conf \<Rightarrow> u32 \<Rightarrow> node \<Rightarrow> node" where
  "tsch_set_eb_period cf period x = x\<lparr>tsch_current_eb_period := conf_eb_period cf\<rparr>"

definition tsch_set_coordinator :: "node_conf \<Rightarrow> bool \<Rightarrow> node \<Rightarrow> node" where
  "tsch_set_coordinator cf enable x =
     tsch_set_eb_period cf (conf_eb_period cf)
       (core_upd (\<lambda>s. (if tsch_is_coordinator s \<noteq> enable then s\<lparr>tsch_is_associated := False\<rparr> else s)
                      \<lparr>tsch_is_coordinator := enable\<rparr>) x)"

definition tsch_set_pan_secured :: "bool \<Rightarrow> node \<Rightarrow> node" where
  "tsch_set_pan_secured enable x = x\<lparr>tsch_is_pan_secured := enable\<rparr>"

definition tsch_set_join_priority :: "u8 \<Rightarrow> node \<Rightarrow> node" where
  "tsch_set_join_priority jp x = x\<lparr>tsch_join_priority := jp\<rparr>"

section \<open>Reports of sent packets and keep-alives\<close>

definition keepalive_packet_sent :: "u16 \<Rightarrow> u16 \<Rightarrow> u8 \<Rightarrow> node \<Rightarrow> node" where
  "keepalive_packet_sent rnd rnd' status x =
     (if status = MAC_TX_NOACK then
        (if linkaddr_cmp (last_eb_nbr_addr x) linkaddr_null then
           core_upd (tsch_schedule_keepalive rnd) (if sync_count x = 0 then tsch_disassociate x else x)
         else
           (let s = snd (tsch_queue_update_time_source rnd' (Some (last_eb_nbr_addr x)) (core x))
            in x\<lparr>core := tsch_schedule_keepalive_immediately s, tsch_join_priority := last_eb_nbr_jp x + 1\<rparr>))
      else core_upd (tsch_schedule_keepalive rnd) x)"

definition call_sent :: "u16 \<Rightarrow> u16 \<Rightarrow> nat option \<Rightarrow> nat \<Rightarrow> u8 \<Rightarrow> u8 \<Rightarrow> node \<Rightarrow> node" where
  "call_sent rnd rnd' sent ptr status num_tx x =
     (let x1 = core_upd (mac_call_sent_callback sent ptr status num_tx) x
      in if sent = Some KEEPALIVE_SENT then keepalive_packet_sent rnd rnd' status x1 else x1)"

section \<open>Sending\<close>

definition next_seqno :: "u8 \<Rightarrow> u8" where
  "next_seqno n = (if n + 1 = 0 then n + 2 else n + 1)"

text \<open>The attributes and the sender address of the packet buffer before the frame is created.\<close>

definition send_attrs :: "node_conf \<Rightarrow> u8 \<Rightarrow> node \<Rightarrow> packetbuf" where
  "send_attrs cf sq x =
     (let p0 = pbuf (core x);
          p1 = (if linkaddr_cmp (packetbuf_addr PACKETBUF_ADDR_RECEIVER p0) linkaddr_null then p0
                else packetbuf_set_attr PACKETBUF_ATTR_MAC_ACK 1 (packetbuf_set_attr PACKETBUF_ATTR_MAC_SEQNO (ucast sq) p0));
          p2 = packetbuf_set_attr PACKETBUF_ATTR_FRAME_TYPE (ucast FRAME802154_DATAFRAME) p1;
          p3 = (if tsch_is_pan_secured x
                then packetbuf_set_attr PACKETBUF_ATTR_KEY_INDEX 2
                       (packetbuf_set_attr PACKETBUF_ATTR_KEY_ID_MODE FRAME802154_1_BYTE_KEY_ID_MODE
                         (packetbuf_set_attr PACKETBUF_ATTR_SECURITY_LEVEL 5 p2))
                else p2)
      in packetbuf_set_addr PACKETBUF_ADDR_SENDER (linkaddr_node_addr cf) p3)"

definition send_packet :: "node_conf \<Rightarrow> u16 \<Rightarrow> u16 \<Rightarrow> nat option \<Rightarrow> nat \<Rightarrow> node \<Rightarrow> node outcome" where
  "send_packet cf rnd rnd' sent ptr x =
     (if \<not> tsch_is_associated (core x) then Done (call_sent rnd rnd' sent ptr MAC_TX_ERR 1 x)
      else
        (let recv = packetbuf_addr PACKETBUF_ADDR_RECEIVER (pbuf (core x));
             is_unicast = \<not> linkaddr_cmp recv linkaddr_null;
             sq = (if is_unicast then next_seqno (tsch_packet_seqno x) else tsch_packet_seqno x);
             a = (if is_unicast then recv else tsch_broadcast_address);
             p = send_attrs cf sq x;
             mt = ucast (packetbuf_attr PACKETBUF_ATTR_MAX_MAC_TRANSMISSIONS p) :: u8;
             max_transmissions = (if mt = 0 then TSCH_MAC_MAX_FRAME_RETRIES + 1 else mt);
             x1 = x\<lparr>tsch_packet_seqno := sq\<rparr>
         in obind (framer_create (pan_id x) p) (\<lambda>(hdr_len, p').
              let x2 = core_upd (\<lambda>s. s\<lparr>pbuf := p'\<rparr>) x1 in
              if hdr_len < 0 then Done (call_sent rnd rnd' sent ptr MAC_TX_ERR 1 x2)
              else
                obind (tsch_queue_add_packet a max_transmissions sent ptr (core x2)) (\<lambda>(r, s).
                case r of
                  None \<Rightarrow> Done (call_sent rnd rnd' sent ptr MAC_TX_ERR 1 (x2\<lparr>core := s\<rparr>))
                | Some i \<Rightarrow> Done (x2\<lparr>core := pkt_upd i (\<lambda>k. k\<lparr>header_len := word_of_int hdr_len\<rparr>) s\<rparr>)))))"

definition keepalive_send :: "node_conf \<Rightarrow> u16 \<Rightarrow> u16 \<Rightarrow> node \<Rightarrow> node outcome" where
  "keepalive_send cf rnd rnd' x =
     (if tsch_is_associated (core x) then
        (case tsch_queue_get_time_source (core x) of
           None \<Rightarrow> Done x
         | Some n \<Rightarrow>
             send_packet cf rnd rnd' (Some KEEPALIVE_SENT) 0
               (core_upd (\<lambda>s. s\<lparr>pbuf := packetbuf_set_addr PACKETBUF_ADDR_RECEIVER (n_addr (nbr s n)) (packetbuf_clear (pbuf s))\<rparr>) x))
      else Done x)"

section \<open>Receiving\<close>

text \<open>\<open>now\<close> is the clock for the duplicate check, \<open>junk\<close> the frame structure on the stack.\<close>

definition packet_input :: "u32 \<Rightarrow> frame802154_t \<Rightarrow> node \<Rightarrow> node outcome" where
  "packet_input now junk x =
     obind (framer_parse (pan_id x) junk (pbuf (core x))) (\<lambda>(frame_parsed, p).
       let x1 = core_upd (\<lambda>s. s\<lparr>pbuf := p\<rparr>) x in
       if frame_parsed < 0 then Done x1
       else
         (let has_seqno = packetbuf_attr PACKETBUF_ATTR_MAC_SEQNO p \<noteq> 0xffff;
              duplicate = has_seqno \<and> mac_sequence_is_duplicate now p (ll_seqnos x1) \<noteq> 0;
              x2 = (if has_seqno \<and> \<not> duplicate then x1\<lparr>ll_seqnos := mac_sequence_register_seqno now p (ll_seqnos x1)\<rparr> else x1)
          in Done (if \<not> duplicate then x2\<lparr>net_input := net_input x2 @ [p]\<rparr> else x2)))"

definition eb_input :: "frame802154_t \<Rightarrow> input_packet \<Rightarrow> node \<Rightarrow> node outcome" where
  "eb_input junk inp x =
     (case tsch_packet_parse_eb (ip_payload inp) (ip_len inp) (Some junk) (Some ies_zero) None True of
        Fault \<Rightarrow> Fault
      | Failed \<Rightarrow> Done x
      | Done (r, f, ies, _) \<Rightarrow>
          if r = 0 then Done x
          else
            (let eb_ies = the ies;
                 ts = map_option (nbr (core x)) (tsch_queue_get_time_source (core x));
                 x1 = (case ts of
                         Some t \<Rightarrow> if linkaddr_cmp (last_eb_nbr_addr x) (n_addr t) then x
                                    else x\<lparr>last_eb_nbr_addr := linkaddr_copy (last_eb_nbr_addr x) (src_addr f),
                                           last_eb_nbr_jp := ie_join_priority eb_ies\<rparr>
                       | None \<Rightarrow> x\<lparr>last_eb_nbr_addr := linkaddr_copy (last_eb_nbr_addr x) (src_addr f),
                                    last_eb_nbr_jp := ie_join_priority eb_ies\<rparr>)
             in Done (case ts of
                  None \<Rightarrow> x1
                | Some t \<Rightarrow>
                    if linkaddr_cmp (src_addr f) (n_addr t) then
                      (let x2 = (if TSCH_ASN_DIFF (ip_rx_asn inp) (ie_asn eb_ies) \<noteq> 0 then tsch_disassociate x1 else x1)
                       in if ie_join_priority eb_ies \<ge> TSCH_MAX_JOIN_PRIORITY then tsch_disassociate x2 else x2)
                    else x1)))"

text \<open>One pending input packet, and the loops over the rings. The loops are partial functions; a fault ends them. The clock, the stack
  contents and the random numbers that an iteration sees are given for its place in the ring.\<close>

definition rx_pending_step :: "u32 \<Rightarrow> frame802154_t \<Rightarrow> nat \<Rightarrow> node \<Rightarrow> node outcome" where
  "rx_pending_step now junk i x =
     (let inp = input_array x ! i in
      obind (frame802154_parse (ip_payload inp) (ip_len inp) junk) (\<lambda>(ret, f).
        let is_data = ret \<noteq> 0 \<and> frame_type (fcf f) = FRAME802154_DATAFRAME;
            is_eb = ret \<noteq> 0 \<and> frame_version (fcf f) = FRAME802154_IEEE802154_2015 \<and> frame_type (fcf f) = FRAME802154_BEACONFRAME
        in
        obind (if is_data then
                 obind (packetbuf_copyfrom (ip_payload inp) (word_of_int (ip_len inp)) (pbuf (core x))) (\<lambda>(_, p).
                 packet_input now junk
                   (core_upd (\<lambda>s. s\<lparr>pbuf := packetbuf_set_attr PACKETBUF_ATTR_CHANNEL (ucast (ip_channel inp))
                                   (packetbuf_set_attr PACKETBUF_ATTR_RSSI (word_of_int (ip_rssi inp)) p)\<rparr>) x))
               else if is_eb then eb_input junk inp x
               else Done x) (\<lambda>x1.
        Done (x1\<lparr>input_ringbuf := snd (ringbufindex_get (input_ringbuf x1))\<rparr>))))"

partial_function (option) tsch_rx_process_pending :: "(nat \<Rightarrow> u32) \<Rightarrow> (nat \<Rightarrow> frame802154_t) \<Rightarrow> node \<Rightarrow> node outcome option" where
  "tsch_rx_process_pending now junk x =
     (let i = ringbufindex_peek_get (input_ringbuf x) in
      if i = -1 then Some (Done x)
      else (case rx_pending_step (now (nat i)) (junk (nat i)) (nat i) x of
              Done x1 \<Rightarrow> tsch_rx_process_pending now junk x1
            | Failed \<Rightarrow> Some Failed
            | Fault \<Rightarrow> Some Fault))"

text \<open>A dequeued packet is put into the packet buffer, reported and freed, then unused neighbors are removed.\<close>

definition tx_pending_step :: "u16 \<Rightarrow> u16 \<Rightarrow> nat \<Rightarrow> node \<Rightarrow> node outcome" where
  "tx_pending_step rnd rnd' i x =
     (case dequeued_array x ! i of None \<Rightarrow> Fault
      | Some p \<Rightarrow>
          (case p_qb (pkt (core x) p) of None \<Rightarrow> Fault
           | Some b \<Rightarrow>
               obind (queuebuf_to_packetbuf b (pbuf (core x)) (qbs (core x))) (\<lambda>pb.
               let x1 = core_upd (\<lambda>s. s\<lparr>pbuf := pb\<rparr>) x;
                   k = pkt (core x1) p;
                   x2 = call_sent rnd rnd' (p_sent k) (p_ptr k) (p_ret k) (transmissions k) x1
               in obind (returns (tsch_queue_free_unused_neighbors (tsch_queue_free_packet (Some p) (core x2)))) (\<lambda>s.
                  Done (x2\<lparr>core := s, dequeued_ringbuf := snd (ringbufindex_get (dequeued_ringbuf x2))\<rparr>)))))"

partial_function (option) tsch_tx_process_pending :: "(nat \<Rightarrow> u16) \<Rightarrow> (nat \<Rightarrow> u16) \<Rightarrow> node \<Rightarrow> node outcome option" where
  "tsch_tx_process_pending rnd rnd' x =
     (let i = ringbufindex_peek_get (dequeued_ringbuf x) in
      if i = -1 then Some (Done x)
      else (case tx_pending_step (rnd (nat i)) (rnd' (nat i)) (nat i) x of
              Done x1 \<Rightarrow> tsch_tx_process_pending rnd rnd' x1
            | Failed \<Rightarrow> Some Failed
            | Fault \<Rightarrow> Some Fault))"

definition run :: "'a outcome option \<Rightarrow> 'a outcome" where
  "run m = (case m of None \<Rightarrow> Failed | Some r \<Rightarrow> r)"

text \<open>The process that is polled after slots.\<close>

definition tsch_pending_events ::
    "(nat \<Rightarrow> u32) \<Rightarrow> (nat \<Rightarrow> frame802154_t) \<Rightarrow> (nat \<Rightarrow> u16) \<Rightarrow> (nat \<Rightarrow> u16) \<Rightarrow> node \<Rightarrow> node outcome" where
  "tsch_pending_events now junk rnd rnd' x =
     obind (run (tsch_rx_process_pending now junk (x\<lparr>events_polled := False\<rparr>))) (\<lambda>x1.
     run (tsch_tx_process_pending rnd rnd' x1))"

section \<open>Leaving and joining\<close>

record pending_env =
  pe_now :: "nat \<Rightarrow> u32"
  pe_junk :: "nat \<Rightarrow> frame802154_t"
  pe_rnd :: "nat \<Rightarrow> u16"
  pe_rnd' :: "nat \<Rightarrow> u16"

definition tsch_reset :: "node_conf \<Rightarrow> pending_env \<Rightarrow> u16 \<Rightarrow> node \<Rightarrow> node outcome" where
  "tsch_reset cf pe rnd x =
     obind (tsch_pending_events (pe_now pe) (pe_junk pe) (pe_rnd pe) (pe_rnd' pe) (x\<lparr>pan_id := 0xffff\<rparr>)) (\<lambda>x1.
     obind (returns (tsch_queue_reset (core x1))) (\<lambda>s1.
     obind (returns (tsch_queue_free_unused_neighbors s1)) (\<lambda>s2.
       let s3 = snd (tsch_queue_update_time_source rnd None s2) in
       Done (tsch_set_eb_period cf (conf_eb_period cf)
         (x1\<lparr>core := s3\<lparr>current_link := None\<rparr>, tsch_join_priority := 0xff, tsch_current_asn := TSCH_ASN_INIT 0 0,
             tsch_timing := multiphy_default_timing cf, last_eb_nbr_addr := linkaddr_null\<rparr>)))))"

text \<open>The hopping sequence is copied into an array of fixed size; an empty one makes the divisor zero.\<close>

definition set_hopping_sequence :: "u8 list \<Rightarrow> node \<Rightarrow> node outcome" where
  "set_hopping_sequence hs x =
     (if hs = [] then Fault
      else obind (mem_write 0 hs (tsch_hopping_sequence x)) (\<lambda>a.
           Done (x\<lparr>tsch_hopping_sequence := a, tsch_hopping_sequence_length := TSCH_ASN_DIVISOR_INIT (of_nat (length hs))\<rparr>)))"

definition tsch_start_coordinator :: "node_conf \<Rightarrow> u32 \<Rightarrow> u32 \<Rightarrow> node \<Rightarrow> node outcome" where
  "tsch_start_coordinator cf rtimer_now clock x =
     obind (set_hopping_sequence (default_hopping_sequence cf) (x\<lparr>pan_id := IEEE802154_PANID\<rparr>)) (\<lambda>x1.
     obind (if with_6tisch_minimal cf then returns (tsch_schedule_create_minimal (core x1)) else Done (core x1)) (\<lambda>s.
     Done (tsch_slot_operation_sync rtimer_now (tsch_current_asn x1) clock
             (x1\<lparr>core := s\<lparr>tsch_is_associated := True\<rparr>, tsch_join_priority := 0\<rparr>))))"

text \<open>The timing and the hopping sequence of a beacon. A timing in the beacon is written through \<open>tsch_timing\<close>.\<close>

definition eb_timing :: "node_conf \<Rightarrow> nat option \<Rightarrow> ieee802154_ies \<Rightarrow> node \<Rightarrow> node outcome" where
  "eb_timing cf radio_timing ies x =
     (if ie_tsch_timeslot_id ies = 0
      then Done (x\<lparr>tsch_timing := (case radio_timing of Some t \<Rightarrow> t | None \<Rightarrow> multiphy_default_timing cf)\<rparr>)
      else if length (timings x (tsch_timing x)) < tsch_ts_elements_count then Fault
      else Done (x\<lparr>timings := (timings x)(tsch_timing x :=
             map (\<lambda>u. word_of_int (US_TO_RTIMERTICKS (uint u))) (take tsch_ts_elements_count (ie_tsch_timeslot ies))
               @ drop tsch_ts_elements_count (timings x (tsch_timing x)))\<rparr>))"

definition eb_hopping :: "node_conf \<Rightarrow> ieee802154_ies \<Rightarrow> node \<Rightarrow> (bool \<times> node) outcome" where
  "eb_hopping cf ies x =
     (if ie_channel_hopping_sequence_id ies = 0
      then obind (set_hopping_sequence (default_hopping_sequence cf) x) (\<lambda>y. Done (True, y))
      else if unat (ie_hopping_sequence_len ies) \<le> length (tsch_hopping_sequence x)
      then obind (set_hopping_sequence (take (unat (ie_hopping_sequence_len ies)) (ie_hopping_sequence_list ies)) x) (\<lambda>y. Done (True, y))
      else Done (False, x))"

fun eb_links :: "nat option \<Rightarrow> tsch_slotframe_and_links_link list \<Rightarrow> tsch \<Rightarrow> tsch" where
  "eb_links sf [] s = s"
| "eb_links sf (l # ls) s =
     eb_links sf ls (snd (tsch_schedule_add_link sf (sl_link_options l) LINK_TYPE_ADVERTISING (Some tsch_broadcast_address)
       (sl_timeslot l) (sl_channel_offset l) s))"

definition eb_schedule :: "node_conf \<Rightarrow> ieee802154_ies \<Rightarrow> tsch \<Rightarrow> (bool \<times> tsch) outcome" where
  "eb_schedule cf ies s =
     (let d = ie_tsch_slotframe_and_link ies in
      if num_slotframes d = 0 then
        (if with_6tisch_minimal cf then obind (returns (tsch_schedule_create_minimal s)) (\<lambda>t. Done (True, t)) else Done (True, s))
      else
        obind (returns (tsch_schedule_remove_all_slotframes s)) (\<lambda>(_, s1).
        if unat (num_links d) \<le> FRAME802154E_IE_MAX_LINKS then
          (let (sf, s2) = tsch_schedule_add_slotframe (ucast (sfl_handle d)) (slotframe_size d) s1
           in Done (True, eb_links sf (take (unat (num_links d)) (links d)) s2))
        else Done (False, s1)))"

text \<open>Joining the sender of the beacon, after all checks.\<close>

definition eb_join :: "node_conf \<Rightarrow> u16 \<Rightarrow> u16 \<Rightarrow> u32 \<Rightarrow> u32 \<Rightarrow> frame802154_t \<Rightarrow> node \<Rightarrow> int \<times> node" where
  "eb_join cf rnd rnd' clock timestamp f x =
     (if tsch_join_priority x \<le> TSCH_MAX_JOIN_PRIORITY then
        (case tsch_queue_add_nbr (src_addr f) (core x) of
           (None, s) \<Rightarrow> (0, x\<lparr>core := s\<rparr>)
         | (Some n, s) \<Rightarrow>
             (let s1 = snd (tsch_queue_update_time_source rnd (Some (src_addr f)) s);
                  x1 = tsch_slot_operation_sync (timestamp - timings x (tsch_timing x) ! tsch_ts_tx_offset) (tsch_current_asn x) clock
                         (x\<lparr>core := s1, pan_id := src_pid f\<rparr>)
              in (1, x1\<lparr>core := tsch_schedule_keepalive rnd' ((core x1)\<lparr>tsch_is_associated := True\<rparr>),
                        tsch_is_pan_secured := security_enabled (fcf f) \<noteq> 0, tx_count := 0, rx_count := 0, sync_count := 0,
                        tsync := (tsync x1)\<lparr>min_drift_seen := 0, max_drift_seen := 0\<rparr>,
                        tsch_association_count := tsch_association_count x1 + 1\<rparr>)))
      else (0, x))"

definition tsch_associate ::
    "node_conf \<Rightarrow> nat option \<Rightarrow> u16 \<Rightarrow> u16 \<Rightarrow> u32 \<Rightarrow> frame802154_t \<Rightarrow> input_packet \<Rightarrow> u32 \<Rightarrow> node \<Rightarrow> (int \<times> node) outcome" where
  "tsch_associate cf radio_timing rnd rnd' clock junk input_eb timestamp x =
     (case tsch_packet_parse_eb (ip_payload input_eb) (ip_len input_eb) (Some junk) (Some ies_zero) (Some 0) False of
        Fault \<Rightarrow> Fault
      | Failed \<Rightarrow> Done (0, x)
      | Done (r, f, ies_opt, hl_opt) \<Rightarrow>
          if r = 0 then Done (0, x)
          else
            (let ies = the ies_opt; hl = uint (the hl_opt);
                 x1 = x\<lparr>tsch_current_asn := ie_asn ies, tsch_join_priority := ie_join_priority ies + 1\<rparr>
             in if security_enabled (fcf f) = 0 then Done (0, x1)
                else
                  obind (tsch_security_parse_frame (tsch_is_associated (core x1)) (tsch_is_pan_secured x1) (Some (ip_payload input_eb))
                           hl (ip_len input_eb - hl - int (tsch_security_mic_len (Some f))) (Some f) (src_addr f) (tsch_current_asn x1))
                    (\<lambda>(authentic, _).
                  if authentic = 0 then Done (0, x1)
                  else if src_pid f \<noteq> IEEE802154_PANID then Done (0, x1)
                  else if ie_join_priority ies = 0xff then Done (0, x1)
                  else
                    obind (eb_timing cf radio_timing ies x1) (\<lambda>x2.
                    obind (eb_hopping cf ies x2) (\<lambda>(ok, x3).
                    if \<not> ok then Done (0, x3)
                    else
                      obind (eb_schedule cf ies (core x3)) (\<lambda>(ok', s).
                        let x4 = x3\<lparr>core := s\<rparr> in
                        if \<not> ok' then Done (0, x4)
                        else if sync_with_lower_node_id cf \<and> \<not> lower_node cf (src_addr f) then Done (0, x4)
                        else Done (eb_join cf rnd rnd' clock timestamp f x4)))))))"

section \<open>Scanning\<close>

text \<open>What one poll of the scanning thread sees: the clock, a random number, the timing table of the radio, and a received packet with its
  timestamp \<open>t0\<close> and the current time \<open>t1\<close>. The channel and the time it was chosen are the thread's static variables.\<close>

record scan_env =
  sc_clock :: u32
  sc_rnd_channel :: u16
  sc_timing :: "nat option"
  sc_packet :: "(input_packet \<times> u32 \<times> u32) option"
  sc_rnd :: u16
  sc_rnd' :: u16
  sc_junk :: frame802154_t
  sc_pending :: pending_env

definition TSCH_CHANNEL_SCAN_DURATION :: u32 where "TSCH_CHANNEL_SCAN_DURATION = 128"

text \<open>500 ms are 16384 ticks.\<close>

definition plausible_timestamp :: "u32 \<Rightarrow> u32 \<Rightarrow> bool" where
  "plausible_timestamp t0 t1 \<longleftrightarrow> \<bar>sint (t0 - t1)\<bar> > 0 \<and> \<bar>sint (t0 - t1)\<bar> < 16384"

definition tsch_scan_poll :: "node_conf \<Rightarrow> scan_env \<Rightarrow> int \<times> u32 \<Rightarrow> node \<Rightarrow> ((int \<times> u32) \<times> node) outcome" where
  "tsch_scan_poll cf ev ch x =
     (let (current_channel, current_channel_since) = ch;
          x1 = x\<lparr>tsch_timing := (case sc_timing ev of Some t \<Rightarrow> t | None \<Rightarrow> multiphy_default_timing cf)\<rparr>;
          switch = current_channel = -1 \<or> sc_clock ev - current_channel_since > TSCH_CHANNEL_SCAN_DURATION;
          hs = default_hopping_sequence cf;
          scan_channel = (if no_hopping_sequence cf then 0 else hs ! (unat (sc_rnd_channel ev) mod length hs));
          ch1 = (if switch then (uint scan_channel, sc_clock ev) else ch);
          x2 = x1\<lparr>radio_is_on := True\<rparr>
      in obind (case sc_packet ev of
                  None \<Rightarrow> Done x2
                | Some (inp, t0, t1) \<Rightarrow>
                    if plausible_timestamp t0 t1
                    then obind (tsch_associate cf (sc_timing ev) (sc_rnd ev) (sc_rnd' ev) (sc_clock ev) (sc_junk ev) inp t0 x2) (\<lambda>(_, y). Done y)
                    else Done x2) (\<lambda>x3.
         Done (ch1, if tsch_is_associated (core x3) then x3\<lparr>radio_is_on := False\<rparr> else x3)))"

section \<open>The main process and the beacon process\<close>

text \<open>The main process starts the network (coordinator) or scans until the node is associated, then starts the slot operation; when it is
  polled and the node is no longer associated, it resets the state and starts again.\<close>

datatype main_state = Starting | Scanning | Operating

text \<open>The start of the scanning thread; the channel is kept from an earlier scan.\<close>

definition tsch_scan_start :: "u32 \<Rightarrow> int \<times> u32 \<Rightarrow> node \<Rightarrow> (int \<times> u32) \<times> node" where
  "tsch_scan_start clock ch x = ((fst ch, clock), x\<lparr>tsch_current_asn := TSCH_ASN_INIT 0 0\<rparr>)"

definition tsch_process_poll ::
    "node_conf \<Rightarrow> scan_env \<Rightarrow> u32 \<Rightarrow> (u32 \<times> bool) list \<Rightarrow> main_state \<Rightarrow> int \<times> u32 \<Rightarrow> node \<Rightarrow> (main_state \<times> (int \<times> u32) \<times> node) outcome" where
  "tsch_process_poll cf ev rtimer_now obs st ch x =
     (case st of
        Operating \<Rightarrow>
          if tsch_is_associated (core x) then Done (Operating, ch, x\<lparr>main_polled := False\<rparr>)
          else obind (tsch_reset cf (sc_pending ev) (sc_rnd ev) (x\<lparr>main_polled := False\<rparr>)) (\<lambda>y.
               Done (Starting, ch, y))
      | _ \<Rightarrow>
          obind (if tsch_is_associated (core x) then Done (ch, x)
                 else if tsch_is_coordinator (core x)
                 then obind (tsch_start_coordinator cf rtimer_now (sc_clock ev) x) (\<lambda>y. Done (ch, y))
                 else (case if st = Starting then tsch_scan_start (sc_clock ev) ch x else (ch, x) of
                         (ch0, x0) \<Rightarrow> tsch_scan_poll cf ev ch0 x0)) (\<lambda>(ch1, y).
          if tsch_is_associated (core y)
          then obind (returns (tsch_slot_operation_start cf obs y)) (\<lambda>z. Done (Operating, ch1, z))
          else Done (Scanning, ch1, y)))"

text \<open>One round of the beacon process: the state and the delay until the next round. The packet buffer is as \<open>tsch_packet_create_eb\<close> leaves it; if
  that fails the code does not use it.\<close>

definition send_eb_round :: "node_conf \<Rightarrow> node \<Rightarrow> (u32 \<times> node) outcome" where
  "send_eb_round cf x =
     (let should_send_eb = tsch_is_associated (core x) \<and> tsch_current_eb_period x > 0 \<and>
            \<not> (eb_only_coordinator cf \<and> \<not> tsch_is_coordinator (core x));
          (count, s) = (if should_send_eb then tsch_queue_packet_count tsch_eb_address (core x) else (0, core x));
          x1 = x\<lparr>core := s\<rparr>
      in obind (if should_send_eb \<and> count = 0 then
                  (case tsch_packet_create_eb (beacon_conf cf) (tsch_is_pan_secured x1) (pan_id x1) (linkaddr_node_addr cf) (pbuf s) of
                     Fault \<Rightarrow> Fault
                   | Failed \<Rightarrow> Done x1
                   | Done (len, hl, off, p) \<Rightarrow>
                       if len > 0 then
                         obind (tsch_queue_add_packet tsch_eb_address 1 None 0 (s\<lparr>pbuf := p\<rparr>)) (\<lambda>(r, s2).
                         Done (x1\<lparr>core := (case r of None \<Rightarrow> s2
                                 | Some i \<Rightarrow> pkt_upd i (\<lambda>k. k\<lparr>tsch_sync_ie_offset := off, header_len := hl\<rparr>) s2)\<rparr>))
                       else Done (x1\<lparr>core := s\<lparr>pbuf := p\<rparr>\<rparr>))
                else Done x1) (\<lambda>y.
         Done (if tsch_current_eb_period y > 0 then tsch_current_eb_period y else conf_eb_period cf, y)))"

section \<open>Initialisation\<close>

definition turn_on :: "node \<Rightarrow> int \<times> node" where
  "turn_on x = (if tsch_is_initialized x \<and> \<not> tsch_is_started x then (1, x\<lparr>tsch_is_started := True\<rparr>) else (0, x))"

definition turn_off :: "node \<Rightarrow> int \<times> node" where
  "turn_off x = (1, x\<lparr>radio_is_on := False\<rparr>)"

text \<open>\<open>radio_ok\<close>: the radio supports the modes and parameters that TSCH needs.\<close>

definition tsch_init :: "node_conf \<Rightarrow> bool \<Rightarrow> pending_env \<Rightarrow> u16 \<Rightarrow> u16 \<Rightarrow> node \<Rightarrow> node outcome" where
  "tsch_init cf radio_ok pe rnd rnd_seqno x =
     (if \<not> radio_ok then Done x
      else
        obind (tsch_reset cf pe rnd (core_upd (\<lambda>s. s\<lparr>qbs := queuebuf_init (qbs s)\<rparr>) x)) (\<lambda>x1.
        Done (snd (turn_on (x1\<lparr>core := snd (tsch_schedule_init (tsch_queue_init (core x1))),
          input_ringbuf := ringbufindex_init TSCH_MAX_INCOMING_PACKETS, dequeued_ringbuf := ringbufindex_init TSCH_DEQUEUED_ARRAY_SIZE,
          tsch_packet_seqno := ucast rnd_seqno, tsch_is_initialized := True\<rparr>)))))"

end
