(* ===== verification/TschMainProps.thy ===== *)
theory TschMainProps
  imports TschMain TxSlot FramerProps
begin

text \<open>
  Properties of the main module: the reports of sent packets, sending, and association.
\<close>

section \<open>What the callbacks keep\<close>

text \<open>The queues, the packets and the log are as before; neighbors without packets may come and go.\<close>

definition packets_keep :: "tsch \<Rightarrow> tsch \<Rightarrow> bool" where
  "packets_keep s s' \<longleftrightarrow> q_inv s' \<and> \<not> tsch_locked s' \<and> (\<forall>m. nbr_queue_of s' m = nbr_queue_of s m) \<and>
     packet_memb s' = packet_memb s \<and> qbs s' = qbs s \<and> pbuf s' = pbuf s \<and> sent_log s' = sent_log s"

lemma packets_keep_trans: "packets_keep s t \<Longrightarrow> packets_keep t u \<Longrightarrow> packets_keep s u"
  by (simp add: packets_keep_def)

lemma q_inv_flags [simp]:
  "q_inv (s\<lparr>tsch_is_associated := b\<rparr>) = q_inv s" "q_inv (s\<lparr>keepalive_timer := t\<rparr>) = q_inv s" "q_inv (s\<lparr>sent_log := l\<rparr>) = q_inv s"
  by (simp_all add: q_inv_def q_core_def)

lemma nbr_queue_of_fields [simp]:
  "nbr_queue_of (s\<lparr>sent_log := l\<rparr>) m = nbr_queue_of s m" "nbr_queue_of (s\<lparr>pbuf := b\<rparr>) m = nbr_queue_of s m"
  by (simp_all add: nbr_queue_of_def)

lemma ka_timeout_fields [simp]:
  "pbuf (tsch_set_ka_timeout rnd t s) = pbuf s" "sent_log (tsch_set_ka_timeout rnd t s) = sent_log s"
  by (simp_all add: tsch_set_ka_timeout_def tsch_schedule_keepalive_def Let_def)

lemma packets_keep_flags:
  assumes "q_inv s" "\<not> tsch_locked s"
  shows "packets_keep s s" "packets_keep s (s\<lparr>tsch_is_associated := b\<rparr>)" "packets_keep s (tsch_schedule_keepalive rnd s)"
    "packets_keep s (tsch_schedule_keepalive_immediately s)"
  using assms by (simp_all add: packets_keep_def nbr_queue_of_def tsch_schedule_keepalive_def
      tsch_schedule_keepalive_immediately_def Let_def)

lemma update_time_source_keeps:
  assumes inv: "q_inv s" and ul: "\<not> tsch_locked s" and a: "is_linkaddr a"
  shows "packets_keep s (snd (tsch_queue_update_time_source rnd (Some a) s))"
proof (cases "tsch_is_coordinator s")
  case True
  then show ?thesis using packets_keep_flags(1) [OF inv ul] by (simp add: tsch_queue_update_time_source_def)
next
  case False
  obtain r s1 where e: "tsch_queue_add_nbr a s = (r, s1)" by fastforce
  have ad: "nbr_added a s r s1" using add_nbr_spec [OF inv a ul] e by simp
  note d = nbr_addedD [OF ad]
  have k1: "packets_keep s s1"
    using d(1,2) nbr_added_queues [OF ad a] nbr_added_frame [OF ad] by (simp add: packets_keep_def)
  let ?old = "tsch_queue_get_time_source s"
  have old: "Some k = ?old" if "k \<in> set (neighbor_list s1)" "is_time_source (nbr s1 k)" for k
    using that get_time_source_Some [OF inv ul, of k] d(3,7,8) [of k] nbr_new_ok(4) [OF a]
    by (cases "k \<in> set (neighbor_list s)") auto
  have "packets_keep s1 (time_source_switch rnd ?old (Some n) s1)" if "?old \<noteq> Some n" for n
    using time_source_switch_inv(1) [OF d(1) that old] d(2) time_source_switch_nbr [OF that]
    by (simp add: packets_keep_def time_source_switch_frame nbr_queue_of_def)
       (simp add: time_source_switch_def Let_def split: option.split)
  then have "packets_keep s1 (if Some n \<noteq> ?old then time_source_switch rnd ?old (Some n) s1 else s1)" for n
    using packets_keep_flags(1) [OF d(1,2)] by auto
  then show ?thesis
    using False ul e k1 packets_keep_trans [OF k1] by (cases r) (simp_all add: tsch_queue_update_time_source_def Let_def)
qed

lemma keepalive_packet_sent_keeps:
  assumes inv: "q_inv (core x)" "\<not> tsch_locked (core x)" and a: "is_linkaddr (last_eb_nbr_addr x)"
  shows "packets_keep (core x) (core (keepalive_packet_sent rnd rnd' st x))"
    "dequeued_array (keepalive_packet_sent rnd rnd' st x) = dequeued_array x"
    "dequeued_ringbuf (keepalive_packet_sent rnd rnd' st x) = dequeued_ringbuf x"
    "last_eb_nbr_addr (keepalive_packet_sent rnd rnd' st x) = last_eb_nbr_addr x"
proof -
  let ?s = "snd (tsch_queue_update_time_source rnd' (Some (last_eb_nbr_addr x)) (core x))"
  have u: "packets_keep (core x) ?s" using update_time_source_keeps [OF inv a] .
  then have "packets_keep (core x) (tsch_schedule_keepalive_immediately ?s)"
    using packets_keep_trans [OF u packets_keep_flags(4)] by (simp add: packets_keep_def)
  moreover have "packets_keep (core x) (core (tsch_disassociate x))"
    using packets_keep_flags(1,2) [OF inv] by (simp add: tsch_disassociate_def)
  then have "packets_keep (core x) (tsch_schedule_keepalive rnd (core (tsch_disassociate x)))"
    using packets_keep_trans packets_keep_flags(3) by (metis packets_keep_def)
  ultimately show "packets_keep (core x) (core (keepalive_packet_sent rnd rnd' st x))"
    using packets_keep_flags(3) [OF inv] by (simp add: keepalive_packet_sent_def Let_def)
  show "dequeued_array (keepalive_packet_sent rnd rnd' st x) = dequeued_array x"
    "dequeued_ringbuf (keepalive_packet_sent rnd rnd' st x) = dequeued_ringbuf x"
    "last_eb_nbr_addr (keepalive_packet_sent rnd rnd' st x) = last_eb_nbr_addr x"
    by (simp_all add: keepalive_packet_sent_def tsch_disassociate_def Let_def)
qed

section \<open>Reports of sent packets\<close>

text \<open>The report of a packet: its callback, with its argument, the status and the number of transmissions.\<close>

definition report :: "tsch_packet \<Rightarrow> sent_event list" where
  "report k = (case p_sent k of None \<Rightarrow> []
     | Some cb \<Rightarrow> [\<lparr>ev_sent = cb, ev_ptr = p_ptr k, ev_status = p_ret k, ev_num_tx = transmissions k\<rparr>])"

lemma call_sent_keeps:
  assumes inv: "q_inv (core x)" "\<not> tsch_locked (core x)" and a: "is_linkaddr (last_eb_nbr_addr x)"
    and y: "y = call_sent rnd rnd' (p_sent k) (p_ptr k) (p_ret k) (transmissions k) x"
  shows "packets_keep ((core x)\<lparr>sent_log := sent_log (core x) @ report k\<rparr>) (core y)"
    "dequeued_array y = dequeued_array x" "dequeued_ringbuf y = dequeued_ringbuf x" "last_eb_nbr_addr y = last_eb_nbr_addr x"
proof -
  let ?x = "x\<lparr>core := (core x)\<lparr>sent_log := sent_log (core x) @ report k\<rparr>\<rparr>"
  have e: "y = (if p_sent k = Some KEEPALIVE_SENT then keepalive_packet_sent rnd rnd' (p_ret k) ?x else ?x)"
    by (cases "p_sent k") (simp_all add: y call_sent_def mac_call_sent_callback_def report_def Let_def)
  note kp = keepalive_packet_sent_keeps [of ?x rnd rnd' "p_ret k"]
  show "packets_keep ((core x)\<lparr>sent_log := sent_log (core x) @ report k\<rparr>) (core y)"
    using kp(1) packets_keep_flags(1) [of "core ?x"] inv a by (simp add: e)
  show "dequeued_array y = dequeued_array x" "dequeued_ringbuf y = dequeued_ringbuf x" "last_eb_nbr_addr y = last_eb_nbr_addr x"
    using kp(2-4) inv a by (simp_all add: e)
qed

lemma free_unused_keeps:
  assumes "q_inv s" "\<not> tsch_locked s"
  obtains s' where "tsch_queue_free_unused_neighbors s = Some s'" "packets_keep s s'"
proof -
  obtain s' where s': "tsch_queue_free_unused_neighbors s = Some s'" "q_inv s'"
      "neighbor_list s' = filter (\<lambda>n. nbr_needed (nbr s n)) (neighbor_list s)"
      "\<forall>n \<in> set (neighbor_list s'). nbr s' n = nbr s n"
    using free_unused_exact [OF assms] by blast
  have "nbr_queue_of s' m = nbr_queue_of s m" for m
    using s'(3,4) by (auto simp: nbr_queue_of_def nbr_needed_def)
  moreover have "packet_memb s' = packet_memb s \<and> qbs s' = qbs s \<and> sent_log s' = sent_log s \<and> pbuf s' = pbuf s \<and> \<not> tsch_locked s'"
    using free_unused_frame [of "neighbor_list s" s s'] s'(1) assms(2) by (simp add: tsch_queue_free_unused_neighbors_def)
  ultimately show ?thesis using that s'(1,2) by (simp add: packets_keep_def)
qed

lemma slot_inv_queues:
  "slot_inv x \<longleftrightarrow> q_inv (core x) \<and> \<not> tsch_locked (core x) \<and> ring_ok (dequeued_array x) (dequeued_ringbuf x) \<and>
     distinct (pending_tx x) \<and> set (pending_tx x) \<subseteq> memb_used (packet_memb (core x)) \<and>
     (\<forall>n. set (pending_tx x) \<inter> set (nbr_queue_of (core x) n) = {})"
  by (auto simp: slot_inv_def nbr_queue_of_def)

text \<open>What processing the packets \<open>ps\<close> does: each is reported once, in order, and freed; the queues are as before.\<close>

definition reported :: "nat list \<Rightarrow> node \<Rightarrow> node \<Rightarrow> bool" where
  "reported ps x y \<longleftrightarrow> slot_inv y \<and> pending_tx x = ps @ pending_tx y \<and>
     sent_log (core y) = sent_log (core x) @ concat (map (\<lambda>p. report (pkt (core x) p)) ps) \<and>
     memb_used (packet_memb (core y)) = memb_used (packet_memb (core x)) - set ps \<and>
     (\<forall>p \<in> memb_used (packet_memb (core y)). pkt (core y) p = pkt (core x) p) \<and>
     (\<forall>m. nbr_queue_of (core y) m = nbr_queue_of (core x) m)"

text \<open>What the callbacks rely on besides: the packet buffer has its size and the remembered beacon address is an address.\<close>

definition main_ok :: "node \<Rightarrow> bool" where
  "main_ok x \<longleftrightarrow> length (pb_data (pbuf (core x))) = PACKETBUF_SIZE \<and> is_linkaddr (last_eb_nbr_addr x)"

lemma free_packet_fields:
  assumes inv: "q_inv s" and p: "p \<in> memb_used (packet_memb s)"
  shows "pkt (tsch_queue_free_packet (Some p) s) i = pkt s i" "sent_log (tsch_queue_free_packet (Some p) s) = sent_log s"
    "nbr (tsch_queue_free_packet (Some p) s) = nbr s" "neighbor_list (tsch_queue_free_packet (Some p) s) = neighbor_list s"
    "pbuf (tsch_queue_free_packet (Some p) s) = pbuf s" "tsch_locked (tsch_queue_free_packet (Some p) s) = tsch_locked s"
    "neighbor_memb (tsch_queue_free_packet (Some p) s) = neighbor_memb s"
proof -
  have "memb_inv (packet_memb s)" using q_invD(5) [OF inv] by (simp add: q_core_def)
  then show "pkt (tsch_queue_free_packet (Some p) s) i = pkt s i" "sent_log (tsch_queue_free_packet (Some p) s) = sent_log s"
    "nbr (tsch_queue_free_packet (Some p) s) = nbr s" "neighbor_list (tsch_queue_free_packet (Some p) s) = neighbor_list s"
    "pbuf (tsch_queue_free_packet (Some p) s) = pbuf s" "tsch_locked (tsch_queue_free_packet (Some p) s) = tsch_locked s"
    "neighbor_memb (tsch_queue_free_packet (Some p) s) = neighbor_memb s"
    using memb_free_props [of "packet_memb s" p] by (simp_all add: tsch_queue_free_packet_def Let_def split: option.split)
qed

lemma free_packet_inv:
  assumes inv: "q_inv s" and p: "p \<in> memb_used (packet_memb s)" and nq: "\<And>n. p \<notin> set (nbr_queue_of s n)"
  shows "q_inv (tsch_queue_free_packet (Some p) s)"
    "memb_used (packet_memb (tsch_queue_free_packet (Some p) s)) = memb_used (packet_memb s) - {p}"
proof -
  have nq': "p \<notin> set (nbr_queue (nbr s n))" if "n \<in> set (neighbor_list s)" for n
    using nq [of n] that by (simp add: nbr_queue_of_def)
  note c = q_core_free_packet [OF q_invD(5) [OF inv] p nq']
  show "q_inv (tsch_queue_free_packet (Some p) s)"
    using inv c(1) unfolding q_inv_def free_packet_fields(3,4,7) [OF inv p] by blast
  show "memb_used (packet_memb (tsch_queue_free_packet (Some p) s)) = memb_used (packet_memb s) - {p}" using c(2) .
qed

lemma tx_pending_step_spec:
  assumes inv: "slot_inv x" and ok: "main_ok x" and q: "pending_tx x = p # ps"
  obtains i y where "ringbufindex_peek_get (dequeued_ringbuf x) = int i" "tx_pending_step rnd rnd' i x = Done y"
    "reported [p] x y" "main_ok y"
proof -
  note i = slot_invD [OF inv]
  obtain i where r: "ringbufindex_peek_get (dequeued_ringbuf x) = int i" "dequeued_array x ! i = Some p"
      "ring_ok (dequeued_array x) (snd (ringbufindex_get (dequeued_ringbuf x)))"
      "ring_items (dequeued_array x) (snd (ringbufindex_get (dequeued_ringbuf x))) = ps"
    using ring_get_Cons [OF i(3) q] .
  have p: "p \<in> memb_used (packet_memb (core x))" "\<And>n. p \<notin> set (nbr_queue_of (core x) n)" "p \<notin> set ps" "distinct ps"
    using i(4,5) inv q by (auto simp: slot_inv_queues)
  obtain b where b: "b \<in> memb_used (bufmem (qbs (core x)))" "p_qb (pkt (core x) p) = Some b"
    using q_invD(5) [OF i(1)] p(1) unfolding q_core_def by blast
  have "qb_inv (qbs (core x))" using q_invD(5) [OF i(1)] by (simp add: q_core_def)
  then obtain pb where pb: "queuebuf_to_packetbuf b (pbuf (core x)) (qbs (core x)) = Done pb" "pb_inv pb"
    using queuebuf_to_packetbuf_spec [OF _ b(1)] ok unfolding main_ok_def by metis
  define k where "k = pkt (core x) p"
  define x2 where "x2 = call_sent rnd rnd' (p_sent k) (p_ptr k) (p_ret k) (transmissions k) (x\<lparr>core := (core x)\<lparr>pbuf := pb\<rparr>\<rparr>)"
  note cs = call_sent_keeps [OF _ _ _ x2_def, simplified, OF i(1,2)]
  have la: "is_linkaddr (last_eb_nbr_addr x)" using ok by (simp add: main_ok_def)
  have c2: "q_inv (core x2)" "\<not> tsch_locked (core x2)" "nbr_queue_of (core x2) m = nbr_queue_of (core x) m"
      "packet_memb (core x2) = packet_memb (core x)" "pbuf (core x2) = pb" "sent_log (core x2) = sent_log (core x) @ report k" for m
    using cs(1) [OF la] by (simp_all add: packets_keep_def nbr_queue_of_def)
  have p2: "p \<in> memb_used (packet_memb (core x2))" "p \<notin> set (nbr_queue_of (core x2) n)" for n
    using p(1,2) by (simp_all add: c2)
  let ?s = "tsch_queue_free_packet (Some p) (core x2)"
  note fi = free_packet_inv [OF c2(1) p2] and ff = free_packet_fields [OF c2(1) p2(1)]
  have qf: "nbr_queue_of ?s m = nbr_queue_of (core x2) m" for m by (simp add: nbr_queue_of_def ff)
  obtain s' where s': "tsch_queue_free_unused_neighbors ?s = Some s'" "packets_keep ?s s'"
    using free_unused_keeps [OF fi(1)] c2(2) ff(6) by auto
  define y where "y = x2\<lparr>core := s', dequeued_ringbuf := snd (ringbufindex_get (dequeued_ringbuf x2))\<rparr>"
  have st: "tx_pending_step rnd rnd' i x = Done y"
    using r(2) b(2) pb(1) s'(1) by (simp add: tx_pending_step_def Let_def returns_def y_def x2_def k_def)
  have f: "q_inv s'" "\<not> tsch_locked s'" "nbr_queue_of s' m = nbr_queue_of (core x) m" "pkt s' j = pkt (core x) j"
      "memb_used (packet_memb s') = memb_used (packet_memb (core x)) - {p}" "pbuf s' = pb"
      "sent_log s' = sent_log (core x) @ report k" for m j
    using s'(2) fi(2) ff qf c2 by (simp_all add: packets_keep_def)
  have "slot_inv y"
    using f r(3,4) i(5) p(3,4) q cs(2,3) [OF la] inv by (auto simp: slot_inv_queues y_def)
  then have "reported [p] x y"
    using f r(4) q cs(2,3) [OF la] by (simp add: reported_def y_def k_def)
  moreover have "main_ok y"
    using f(6) pb(2) la cs(4) [OF la] by (simp add: main_ok_def y_def pb_inv_def)
  ultimately show ?thesis using that [OF r(1) st] by blast
qed

lemma reported_trans:
  assumes "reported [p] x y" "reported ps y z" "distinct (p # ps)" "set ps \<subseteq> memb_used (packet_memb (core x))"
  shows "reported (p # ps) x z"
proof -
  have "pkt (core y) q = pkt (core x) q" if "q \<in> set ps" for q
    using assms(1,3,4) that by (auto simp: reported_def)
  then have "concat (map (\<lambda>q. report (pkt (core y) q)) ps) = concat (map (\<lambda>q. report (pkt (core x) q)) ps)"
    by (intro arg_cong [where f = concat]) simp
  then show ?thesis using assms(1,2) by (auto simp: reported_def)
qed

lemma tx_process_pending_reports:
  assumes "slot_inv x" "main_ok x"
  shows "\<exists>y. tsch_tx_process_pending rnd rnd' x = Some (Done y) \<and> reported (pending_tx x) x y \<and> main_ok y"
  using assms
proof (induction "pending_tx x" arbitrary: x)
  case Nil
  then show ?case
    using ring_get_Nil [OF slot_invD(3) [OF Nil(2)]] Nil(1)
    by (subst tsch_tx_process_pending.simps) (simp add: reported_def)
next
  case (Cons p ps)
  let ?j = "nat (ringbufindex_peek_get (dequeued_ringbuf x))"
  obtain i y where y: "ringbufindex_peek_get (dequeued_ringbuf x) = int i" "tx_pending_step (rnd ?j) (rnd' ?j) i x = Done y"
      "reported [p] x y" "main_ok y"
    using tx_pending_step_spec [OF Cons(3,4) Cons(2) [symmetric]] by metis
  have inv: "slot_inv y" "ps = pending_tx y" using y(3) Cons(2) by (simp_all add: reported_def)
  obtain z where z: "tsch_tx_process_pending rnd rnd' y = Some (Done z)" "reported (pending_tx y) y z" "main_ok z"
    using Cons(1) [OF inv(2,1) y(4)] by blast
  have "reported (p # ps) x z"
    using reported_trans [OF y(3)] z(2) slot_invD(4,5) [OF Cons(3)] inv(2) Cons(2) by (metis insert_subset list.simps(15))
  moreover have "tsch_tx_process_pending rnd rnd' x = tsch_tx_process_pending rnd rnd' y"
    using y(1,2) by (subst tsch_tx_process_pending.simps) simp
  ultimately show ?case using z(1,3) Cons(2) by auto
qed

section \<open>Sending\<close>

lemma add_packet_log:
  assumes d: "tsch_queue_add_packet a max_tx sent ptr s = Done (r, s')" and inv: "q_inv s" "is_linkaddr a" "\<not> tsch_locked s"
  shows "sent_log s' = sent_log s"
proof -
  obtain r1 s1 where e: "tsch_queue_add_nbr a s = (r1, s1)" by fastforce
  have "sent_log s1 = sent_log s" using nbr_added_frame(8) [of a s r1 s1] add_nbr_spec [OF inv] e by simp
  then show ?thesis
    using d e inv(3) unfolding tsch_queue_add_packet_def
    by (auto simp: Let_def elim!: obind_DoneE split: option.splits prod.splits if_splits)
qed

lemma framer_create_full:
  assumes s: "sendable pan p" and full: "PACKETBUF_SIZE < length (hdr_bytes (framer_params pan p)) + length (pb_frame p)"
  shows "framer_create pan p = Done (-1, p)"
proof -
  let ?q = "framer_params pan p"
  obtain l where fl: "field_len ?q = (?q, l)" using framer_field_len by blast
  note ok = framer_params_ok [OF s]
  have n: "frame802154_hdrlen ?q = (length (hdr_bytes ?q), ?q)"
    using hdr_length [OF ok(1) fl ok(2)] by (simp add: frame802154_hdrlen_def fl)
  have inv: "pb_inv p" "bufptr p = 0" "pan \<noteq> 0xffff" using s by (simp_all add: sendable_def)
  have "unat (packetbuf_totlen p) = length (pb_frame p)"
    using pb_frame_start [OF inv(1,2)] unat_packetbuf_totlen [OF inv(1)] inv(1) by (simp add: pb_inv_def)
  then show ?thesis
    using full inv(3) by (simp add: framer_create_def create_frame_def n packetbuf_hdralloc_def)
qed

text \<open>The sequence number, the queue and the header of a packet to send.\<close>

definition send_seqno :: "node \<Rightarrow> u8" where
  "send_seqno x = (if linkaddr_cmp (packetbuf_addr PACKETBUF_ADDR_RECEIVER (pbuf (core x))) linkaddr_null
     then tsch_packet_seqno x else next_seqno (tsch_packet_seqno x))"

definition send_addr :: "node \<Rightarrow> linkaddr" where
  "send_addr x = (let a = packetbuf_addr PACKETBUF_ADDR_RECEIVER (pbuf (core x)) in
     if linkaddr_cmp a linkaddr_null then tsch_broadcast_address else a)"

definition send_header :: "node_conf \<Rightarrow> node \<Rightarrow> u8 list" where
  "send_header cf x = hdr_bytes (framer_params (pan_id x) (send_attrs cf (send_seqno x) x))"

definition send_max :: "node \<Rightarrow> u8" where
  "send_max x = (let mt = ucast (packetbuf_attr PACKETBUF_ATTR_MAX_MAC_TRANSMISSIONS (pbuf (core x))) in if mt = 0 then 8 else mt)"

text \<open>The packet was queued, for its receiver, as the last one, with its frame; or it was reported as failed.\<close>

definition send_queued :: "node_conf \<Rightarrow> nat option \<Rightarrow> nat \<Rightarrow> node \<Rightarrow> node \<Rightarrow> bool" where
  "send_queued cf sent ptr x y \<longleftrightarrow> sent_log (core y) = sent_log (core x) \<and>
     (\<exists>p n b att ad. p \<notin> memb_used (packet_memb (core x)) \<and> n \<in> set (neighbor_list (core y)) \<and> n_addr (nbr (core y) n) = send_addr x \<and>
        nbr_queue_of (core y) n = nbr_queue_of (core x) n @ [p] \<and>
        (\<forall>m. m \<noteq> n \<longrightarrow> nbr_queue_of (core y) m = nbr_queue_of (core x) m) \<and>
        packet_fields (send_max x) sent ptr (pkt (core y) p) \<and>
        header_len (pkt (core y) p) = of_nat (length (send_header cf x)) \<and> p_qb (pkt (core y) p) = Some b \<and>
        qb_packet (qbs (core y)) b = Some (send_header cf x @ pb_frame (pbuf (core x)), att, ad))"

definition send_failed :: "nat option \<Rightarrow> nat \<Rightarrow> node \<Rightarrow> node \<Rightarrow> bool" where
  "send_failed sent ptr x y \<longleftrightarrow> (\<forall>m. nbr_queue_of (core y) m = nbr_queue_of (core x) m) \<and>
     sent_log (core y) = sent_log (core x) @ (case sent of None \<Rightarrow> []
       | Some cb \<Rightarrow> [\<lparr>ev_sent = cb, ev_ptr = ptr, ev_status = MAC_TX_ERR, ev_num_tx = 1\<rparr>])"

definition no_space :: "linkaddr \<Rightarrow> tsch \<Rightarrow> bool" where
  "no_space a s \<longleftrightarrow> memb_numfree (neighbor_memb s) = 0 \<or> memb_numfree (packet_memb s) = 0 \<or> memb_numfree (bufmem (qbs s)) = 0 \<or>
     (\<exists>n \<in> set (neighbor_list s). n_addr (nbr s n) = a \<and> length (nbr_queue (nbr s n)) = 7)"

lemma send_attrs_fields:
  "pb_frame (send_attrs cf sq x) = pb_frame (pbuf (core x))" "bufptr (send_attrs cf sq x) = bufptr (pbuf (core x))"
  "packetbuf_addr PACKETBUF_ADDR_RECEIVER (send_attrs cf sq x) = packetbuf_addr PACKETBUF_ADDR_RECEIVER (pbuf (core x))"
  "packetbuf_attr PACKETBUF_ATTR_MAX_MAC_TRANSMISSIONS (send_attrs cf sq x) =
     packetbuf_attr PACKETBUF_ATTR_MAX_MAC_TRANSMISSIONS (pbuf (core x))"
  by (simp_all add: send_attrs_def Let_def pb_frame_def packetbuf_set_attr_def packetbuf_set_addr_def packetbuf_addr_def
      packetbuf_attr_def packetbuf_dataptr_def packetbuf_hdrlen_def)

lemma call_sent_failed:
  assumes "q_inv (core x)" "\<not> tsch_locked (core x)" "is_linkaddr (last_eb_nbr_addr x)"
    "\<And>m. nbr_queue_of (core x) m = nbr_queue_of (core x0) m" "sent_log (core x) = sent_log (core x0)"
  shows "send_failed sent ptr x0 (call_sent rnd rnd' sent ptr MAC_TX_ERR 1 x) \<and>
    q_inv (core (call_sent rnd rnd' sent ptr MAC_TX_ERR 1 x))"
proof -
  let ?k = "pkt_zero\<lparr>p_sent := sent, p_ptr := ptr, p_ret := MAC_TX_ERR, transmissions := 1\<rparr>"
  have "packets_keep ((core x)\<lparr>sent_log := sent_log (core x) @ report ?k\<rparr>) (core (call_sent rnd rnd' sent ptr MAC_TX_ERR 1 x))"
    using call_sent_keeps(1) [OF assms(1-3), of _ rnd rnd' ?k] by simp
  moreover have "report ?k = (case sent of None \<Rightarrow> [] | Some cb \<Rightarrow> [\<lparr>ev_sent = cb, ev_ptr = ptr, ev_status = MAC_TX_ERR, ev_num_tx = 1\<rparr>])"
    by (cases sent) (simp_all add: report_def)
  ultimately show ?thesis
    using assms(4,5) by (simp add: packets_keep_def send_failed_def)
qed

lemma send_packet_cases:
  assumes inv: "q_inv (core x)" "\<not> tsch_locked (core x)" "is_linkaddr (last_eb_nbr_addr x)"
    and s: "sendable (pan_id x) (send_attrs cf (send_seqno x) x)" and as: "tsch_is_associated (core x)"
  obtains (full) "PACKETBUF_SIZE < length (send_header cf x) + length (pb_frame (pbuf (core x)))"
      "send_packet cf rnd rnd' sent ptr x = Done (call_sent rnd rnd' sent ptr MAC_TX_ERR 1
         (x\<lparr>tsch_packet_seqno := send_seqno x, core := (core x)\<lparr>pbuf := send_attrs cf (send_seqno x) x\<rparr>\<rparr>))"
    | (added) p' r s where "length (send_header cf x) + length (pb_frame (pbuf (core x))) \<le> PACKETBUF_SIZE"
      "pb_frame p' = send_header cf x @ pb_frame (pbuf (core x))"
      "packet_added (send_addr x) (send_max x) sent ptr ((core x)\<lparr>pbuf := p'\<rparr>) r s" "sent_log s = sent_log (core x)"
      "send_packet cf rnd rnd' sent ptr x = Done (case r of
         None \<Rightarrow> call_sent rnd rnd' sent ptr MAC_TX_ERR 1 (x\<lparr>tsch_packet_seqno := send_seqno x, core := s\<rparr>)
       | Some i \<Rightarrow> x\<lparr>tsch_packet_seqno := send_seqno x, core := pkt_upd i (\<lambda>k. k\<lparr>header_len := of_nat (length (send_header cf x))\<rparr>) s\<rparr>)"
proof -
  let ?p = "send_attrs cf (send_seqno x) x"
  have fr: "pb_frame ?p = pb_frame (pbuf (core x))" by (rule send_attrs_fields)
  have n: "fst (frame802154_hdrlen (framer_params (pan_id x) ?p)) = length (send_header cf x)"
    using framer_field_len [of "pan_id x" ?p] hdr_length [OF framer_params_ok(1) [OF s] _ framer_params_ok(2) [OF s]]
    by (auto simp: frame802154_hdrlen_def send_header_def)
  have sq: "(if \<not> linkaddr_cmp (packetbuf_addr PACKETBUF_ADDR_RECEIVER (pbuf (core x))) linkaddr_null
      then next_seqno (tsch_packet_seqno x) else tsch_packet_seqno x) = send_seqno x" by (simp add: send_seqno_def)
  have ad: "(if \<not> linkaddr_cmp (packetbuf_addr PACKETBUF_ADDR_RECEIVER (pbuf (core x))) linkaddr_null
      then packetbuf_addr PACKETBUF_ADDR_RECEIVER (pbuf (core x)) else tsch_broadcast_address) = send_addr x"
    by (simp add: send_addr_def Let_def)
  have mt: "(if (ucast (packetbuf_attr PACKETBUF_ATTR_MAX_MAC_TRANSMISSIONS ?p) :: u8) = 0 then TSCH_MAC_MAX_FRAME_RETRIES + 1
      else ucast (packetbuf_attr PACKETBUF_ATTR_MAX_MAC_TRANSMISSIONS ?p)) = send_max x"
    by (simp add: send_max_def Let_def send_attrs_fields TSCH_MAC_MAX_FRAME_RETRIES_def)
  note def' = send_packet_def [of cf rnd rnd' sent ptr x, unfolded Let_def sq ad mt]
  show ?thesis
  proof (cases "length (send_header cf x) + length (pb_frame (pbuf (core x))) \<le> PACKETBUF_SIZE")
    case False
    then have "framer_create (pan_id x) ?p = Done (-1, ?p)"
      using framer_create_full [OF s] by (simp add: fr send_header_def)
    then show ?thesis using full False as by (simp add: def')
  next
    case True
    obtain p' where p': "framer_create (pan_id x) ?p = Done (int (length (send_header cf x)), p')" "pb_inv p'"
        "pb_frame p' = send_header cf x @ pb_frame (pbuf (core x))"
      using framer_create_eq [OF s] True n fr unfolding send_header_def by auto
    have a: "is_linkaddr (send_addr x)"
      using s by (simp add: send_addr_def Let_def sendable_def send_attrs_fields)
    obtain r t where r: "tsch_queue_add_packet (send_addr x) (send_max x) sent ptr ((core x)\<lparr>pbuf := p'\<rparr>) = Done (r, t)"
        "packet_added (send_addr x) (send_max x) sent ptr ((core x)\<lparr>pbuf := p'\<rparr>) r t"
      using add_packet_spec [of "(core x)\<lparr>pbuf := p'\<rparr>" "send_addr x" "send_max x" sent ptr] inv a p'(2) by auto
    have "sent_log t = sent_log (core x)" using add_packet_log [OF r(1)] inv a by simp
    then show ?thesis
      using added [OF True p'(3) r(2)] p'(1) r(1) as by (cases r) (simp_all add: def')
  qed
qed

lemma next_seqno_nonzero: "next_seqno n \<noteq> 0"
proof -
  have "n + 2 = 1" if "n + 1 = 0"
  proof -
    have "n + 2 = (n + 1) + 1" by simp
    also have "\<dots> = 1" unfolding that by simp
    finally show ?thesis .
  qed
  then show ?thesis unfolding next_seqno_def by (metis zero_neq_one)
qed

lemma call_sent_seqno [simp]: "tsch_packet_seqno (call_sent rnd rnd' sent ptr st k x) = tsch_packet_seqno x"
  by (simp add: call_sent_def keepalive_packet_sent_def tsch_disassociate_def Let_def)

lemma send_packet_queued:
  assumes ad: "packet_added (send_addr x) (send_max x) sent ptr ((core x)\<lparr>pbuf := p'\<rparr>) (Some i) s" and log: "sent_log s = sent_log (core x)"
    and fr: "pb_frame p' = send_header cf x @ pb_frame (pbuf (core x))"
    and y: "core y = pkt_upd i (\<lambda>k. k\<lparr>header_len := of_nat (length (send_header cf x))\<rparr>) s"
  shows "send_queued cf sent ptr x y \<and> q_inv (core y)"
proof -
  obtain n b where h: "q_inv s" "i \<notin> memb_used (packet_memb (core x))" "n \<in> set (neighbor_list s)" "n_addr (nbr s n) = send_addr x"
      "nbr_queue_of s n = nbr_queue_of (core x) n @ [i]" "\<forall>m. m \<noteq> n \<longrightarrow> nbr_queue_of s m = nbr_queue_of (core x) m"
      "packet_fields (send_max x) sent ptr (pkt s i)" "p_qb (pkt s i) = Some b"
      "qb_packet (qbs s) b = Some (pb_frame p', packetbuf_attrs p', packetbuf_addrs p')"
    using ad by (auto simp: packet_added_def)
  have "q_inv (core y)" unfolding y using q_inv_pkt_upd [OF h(1)] by simp
  moreover have "nbr_queue_of (core y) m = nbr_queue_of s m" for m by (simp add: y nbr_queue_of_def)
  ultimately show ?thesis
    using h fr log unfolding send_queued_def
    by (intro conjI exI [of _ i] exI [of _ n] exI [of _ b] exI [of _ "packetbuf_attrs p'"] exI [of _ "packetbuf_addrs p'"])
       (simp_all add: y packet_fields_def)
qed

section \<open>Properties\<close>

text \<open>C5. The reports: \<open>tsch_tx_process_pending\<close> ends without a fault, whatever the callbacks of this module do, and reports each packet the
  slots have taken off the queues exactly once, in the order they left, with the status and the number of transmissions
  they left with; their blocks are freed, the packets still queued stay, in order, and the node stays well-formed.\<close>

theorem pending_packets_reported:
  assumes "slot_inv x" "main_ok x"
  shows "\<exists>y. tsch_tx_process_pending rnd rnd' x = Some (Done y) \<and> slot_inv y \<and> pending_tx y = [] \<and>
    sent_log (core y) = sent_log (core x) @ concat (map (\<lambda>p. report (pkt (core x) p)) (pending_tx x)) \<and>
    memb_used (packet_memb (core y)) = memb_used (packet_memb (core x)) - set (pending_tx x) \<and>
    (\<forall>p \<in> memb_used (packet_memb (core y)). pkt (core y) p = pkt (core x) p) \<and>
    (\<forall>m. nbr_queue_of (core y) m = nbr_queue_of (core x) m)"
  using tx_process_pending_reports [OF assms, of rnd rnd'] by (auto simp: reported_def)

text \<open>The state after the slot of the example, with one packet to report.\<close>

lemma tx_node_sent_eval:
  "(case tsch_tx_slot conf_example tx_answers tx_node of
      Done y \<Rightarrow> length (pb_data (pbuf (core y))) = PACKETBUF_SIZE \<and> last_eb_nbr_addr y = linkaddr_null \<and> sent_log (core y) = [] \<and>
        pending_tx y = [0] \<and>
        report (pkt (core y) 0) = [\<lparr>ev_sent = 5, ev_ptr = 9, ev_status = MAC_TX_OK, ev_num_tx = 1\<rparr>]
    | _ \<Rightarrow> False) = True"
  by code_simp

theorem pending_packets_reported_witness:
  "\<exists>x y. tsch_tx_slot conf_example tx_answers tx_node = Done x \<and> tsch_tx_process_pending (\<lambda>_. 0) (\<lambda>_. 0) x = Some (Done y) \<and>
     pending_tx x = [0] \<and> pending_tx y = [] \<and>
     sent_log (core y) = [\<lparr>ev_sent = 5, ev_ptr = 9, ev_status = MAC_TX_OK, ev_num_tx = 1\<rparr>]"
proof -
  obtain x where x: "tsch_tx_slot conf_example tx_answers tx_node = Done x" "main_ok x" "sent_log (core x) = []" "pending_tx x = [0]"
      "report (pkt (core x) 0) = [\<lparr>ev_sent = 5, ev_ptr = 9, ev_status = MAC_TX_OK, ev_num_tx = 1\<rparr>]"
    using tx_node_sent_eval by (auto simp: main_ok_def split: outcome.splits)
  have "slot_inv x"
    using tx_slot_spec [OF tx_node_inv tx_node_eval(1,2) tx_node_fields(1,2) tx_node_eval(3) _ x(1)] tx_node_eval(4) by auto
  then show ?thesis
    using pending_packets_reported [of x "\<lambda>_. 0" "\<lambda>_. 0"] x by auto
qed

text \<open>C6. Sending never faults and has exactly one of two outcomes. If the node is associated, the frame fits the packet buffer and there is
  space, the packet becomes the last one in the queue of its receiver (the broadcast queue for the null address),
  holding the frame with its header, the callback and the number of attempts asked for (8 by default), and nothing is reported; otherwise no queue changes
  and the callback is called once with MAC_TX_ERR. A unicast packet takes the next sequence number, never 0.\<close>

theorem send_packet_outcome:
  assumes "q_inv (core x)" "\<not> tsch_locked (core x)" "is_linkaddr (last_eb_nbr_addr x)"
    "tsch_is_associated (core x) \<longrightarrow> sendable (pan_id x) (send_attrs cf (send_seqno x) x)"
  shows "\<exists>y. send_packet cf rnd rnd' sent ptr x = Done y \<and> q_inv (core y) \<and>
    (if tsch_is_associated (core x) \<and> length (send_header cf x) + length (pb_frame (pbuf (core x))) \<le> PACKETBUF_SIZE
     then send_queued cf sent ptr x y \<or> no_space (send_addr x) (core x) \<and> send_failed sent ptr x y
     else send_failed sent ptr x y) \<and>
    tsch_packet_seqno y = (if tsch_is_associated (core x) then send_seqno x else tsch_packet_seqno x) \<and>
    (linkaddr_cmp (packetbuf_addr PACKETBUF_ADDR_RECEIVER (pbuf (core x))) linkaddr_null \<or> send_seqno x \<noteq> 0)"
proof -
  note fail = call_sent_failed [where sent = sent and ptr = ptr and rnd = rnd and rnd' = rnd' and ?x0.0 = x]
  have sq: "linkaddr_cmp (packetbuf_addr PACKETBUF_ADDR_RECEIVER (pbuf (core x))) linkaddr_null \<or> send_seqno x \<noteq> 0"
    using next_seqno_nonzero by (simp add: send_seqno_def)
  show ?thesis
  proof (cases "tsch_is_associated (core x)")
    case False
    then show ?thesis using fail [OF assms(1-3)] sq by (simp add: send_packet_def)
  next
    case True
    then have s: "sendable (pan_id x) (send_attrs cf (send_seqno x) x)" using assms(4) by simp
    show ?thesis
    proof (cases rule: send_packet_cases [OF assms(1-3) s True, of rnd rnd' sent ptr])
      case 1
      then show ?thesis
        using fail [of "x\<lparr>tsch_packet_seqno := send_seqno x, core := (core x)\<lparr>pbuf := send_attrs cf (send_seqno x) x\<rparr>\<rparr>"] assms(1-3) sq True by simp
    next
      case (2 p' r s)
      show ?thesis
      proof (cases r)
        case None
        then have "q_inv s" "\<not> tsch_locked s" "\<And>m. nbr_queue_of s m = nbr_queue_of (core x) m" "no_space (send_addr x) (core x)"
          using 2(3) by (auto simp: packet_added_def no_space_def)
        then show ?thesis
          using fail [of "x\<lparr>tsch_packet_seqno := send_seqno x, core := s\<rparr>"] assms(3) 2(1,4,5) None sq True by simp
      next
        case (Some i)
        let ?y = "x\<lparr>tsch_packet_seqno := send_seqno x,
          core := pkt_upd i (\<lambda>k. k\<lparr>header_len := of_nat (length (send_header cf x))\<rparr>) s\<rparr>"
        have "send_queued cf sent ptr x ?y \<and> q_inv (core ?y)"
          by (rule send_packet_queued [OF 2(3) [unfolded Some] 2(4,2)]) simp
        then show ?thesis using 2(1,5) Some sq True by simp
      qed
    qed
  qed
qed

text \<open>An associated node with a packet for a neighbor in the packet buffer.\<close>

definition send_node :: node where
  "send_node = (node_zero (\<lambda>_. replicate 12 328))\<lparr>core := tsch_boot\<lparr>tsch_is_associated := True, pbuf := example_packet\<rparr>, pan_id := 0xabcd\<rparr>"

theorem send_packet_outcome_witness:
  "\<exists>y. send_packet conf_example 0 0 (Some 7) 8 send_node = Done y \<and> send_queued conf_example (Some 7) 8 send_node y \<and>
     tsch_packet_seqno y = 1"
proof -
  have c: "core send_node = tsch_boot\<lparr>tsch_is_associated := True, pbuf := example_packet\<rparr>" "last_eb_nbr_addr send_node = linkaddr_null"
    by (simp_all add: send_node_def node_zero_def)
  have s: "sendable (pan_id send_node) (send_attrs conf_example (send_seqno send_node) send_node)"
    and l: "length (send_header conf_example send_node) + length (pb_frame (pbuf (core send_node))) \<le> PACKETBUF_SIZE"
    and sq: "send_seqno send_node = 1"
    by code_simp+
  have "\<not> no_space (send_addr send_node) (core send_node)"
    using tsch_boot_free tsch_boot_queues by (auto simp: no_space_def c(1))
  then show ?thesis
    using send_packet_outcome [of send_node conf_example 0 0 "Some 7" 8] s l sq tsch_boot_spec c by auto
qed

end
