(* ===== verification/TschJoin.thy ===== *)
theory TschJoin
  imports TschMainProps TschBeacon
begin

text \<open>
  Joining a network: which beacons are accepted by \<open>tsch_associate\<close> and the state a node joins with.
\<close>

section \<open>The schedule does not touch the association\<close>

text \<open>The flags of the association that only the main module writes.\<close>

definition assoc :: "tsch \<Rightarrow> bool \<times> bool" where
  "assoc s = (tsch_is_associated s, tsch_is_coordinator s)"

lemma assoc_lock [simp]: "tsch_get_lock s = (ok, s') \<Longrightarrow> assoc s' = assoc s" "assoc (tsch_release_lock s) = assoc s"
  by (auto simp: assoc_def tsch_get_lock_def tsch_release_lock_def Let_def split: if_splits)

lemma assoc_update [simp]:
  "assoc (nbr_upd n f s) = assoc s" "assoc (sf_upd n g s) = assoc s" "assoc (link_upd n h s) = assoc s"
  "assoc (s\<lparr>neighbor_memb := m\<rparr>) = assoc s" "assoc (s\<lparr>neighbor_list := l\<rparr>) = assoc s" "assoc (s\<lparr>link_memb := m'\<rparr>) = assoc s"
  "assoc (s\<lparr>slotframe_memb := m''\<rparr>) = assoc s" "assoc (s\<lparr>slotframe_list := l\<rparr>) = assoc s" "assoc (s\<lparr>current_link := c\<rparr>) = assoc s"
  "assoc (s\<lparr>current_link_handle := i\<rparr>) = assoc s" "assoc (s\<lparr>tsch_lock_requested := b\<rparr>) = assoc s"
  "assoc (s\<lparr>tsch_locked := b\<rparr>) = assoc s"
  by (simp_all add: assoc_def nbr_upd_def sf_upd_def link_upd_def)

lemma assoc_add_nbr [simp]: "assoc (snd (tsch_queue_add_nbr a s)) = assoc s"
  by (auto simp: tsch_queue_add_nbr_def Let_def split: option.split prod.split)

lemma assoc_count [simp]: "assoc (count_tx_link chg opts a s) = assoc s"
  using assoc_add_nbr [of a s] by (cases "tsch_queue_add_nbr a s") (simp add: count_tx_link_def split: option.split)

lemma assoc_remove_link [simp]: "assoc (snd (tsch_schedule_remove_link sf l s)) = assoc s"
  by (auto simp: tsch_schedule_remove_link_def Let_def split: option.split prod.split)

lemma assoc_remove_links_loop:
  assumes "remove_links_loop f s = Some s'"
  shows "assoc s' = assoc s"
  by (rule remove_links_loop.raw_induct [where P = "\<lambda>f s s'. assoc s' = assoc s", OF _ assms]) (auto split: list.splits)

lemma assoc_remove_slotframe: "tsch_schedule_remove_slotframe sf s = Some (r, s') \<Longrightarrow> assoc s' = assoc s"
  by (auto simp: tsch_schedule_remove_slotframe_def Let_def dest!: assoc_remove_links_loop split: option.splits prod.splits if_splits)

lemma assoc_remove_all:
  assumes "tsch_schedule_remove_all_slotframes s = Some rs"
  shows "assoc (snd rs) = assoc s"
  by (rule tsch_schedule_remove_all_slotframes.raw_induct [where P = "\<lambda>s rs. assoc (snd rs) = assoc s", OF _ assms])
     (auto dest!: assoc_remove_slotframe split: list.splits option.splits prod.splits if_splits)

lemma assoc_add_slotframe [simp]: "assoc (snd (tsch_schedule_add_slotframe h sz s)) = assoc s"
  by (auto simp: tsch_schedule_add_slotframe_def Let_def split: option.split prod.split)

lemma assoc_remove_by_timeslot [simp]: "assoc (snd (tsch_schedule_remove_link_by_timeslot sf ts s)) = assoc s"
  by (simp add: tsch_schedule_remove_link_by_timeslot_def)

lemma assoc_add_link [simp]: "assoc (snd (tsch_schedule_add_link sf opts lt a ts co s)) = assoc s"
proof -
  define s0 where "s0 = snd (tsch_schedule_remove_link_by_timeslot sf ts s)"
  obtain ok s1 where l: "tsch_get_lock s0 = (ok, s1)" by fastforce
  have "assoc s1 = assoc s0" using l by (rule assoc_lock(1))
  then have "assoc s1 = assoc s" by (simp add: s0_def)
  then show ?thesis
    unfolding tsch_schedule_add_link_def s0_def [symmetric] l Let_def by (simp split: option.split prod.split)
qed

lemma assoc_create_minimal: "tsch_schedule_create_minimal s = Some s' \<Longrightarrow> assoc s' = assoc s"
  by (auto simp: tsch_schedule_create_minimal_def Let_def split_beta dest!: assoc_remove_all split: option.splits if_splits)

lemma assoc_eb_links [simp]: "assoc (eb_links sf ls s) = assoc s"
  by (induction ls arbitrary: s) simp_all

lemma assoc_eb_schedule: "eb_schedule cf ies s = Done (ok, s') \<Longrightarrow> assoc s' = assoc s"
  by (auto simp: eb_schedule_def returns_def Let_def split_beta elim!: obind_DoneE dest!: assoc_create_minimal assoc_remove_all
      split: option.splits if_splits)

section \<open>Accepted beacons\<close>

text \<open>The conditions under which a beacon with header \<open>f\<close> and elements \<open>ies\<close> is joined: it could be parsed, it is secured and authentic for
  the slot number it announces, it belongs to the PAN, its join priority is below the limit and, if nodes synchronise by
  identifier, its sender is a lower node.\<close>

definition beacon_accepted :: "node_conf \<Rightarrow> frame802154_t \<Rightarrow> input_packet \<Rightarrow> node \<Rightarrow> frame802154_t \<Rightarrow> ieee802154_ies \<Rightarrow> bool" where
  "beacon_accepted cf junk inp x f ies \<longleftrightarrow>
     (\<exists>k hl ok buf. tsch_packet_parse_eb (ip_payload inp) (ip_len inp) (Some junk) (Some ies_zero) (Some 0) False = Done (k, f, Some ies, Some hl) \<and>
        k \<noteq> 0 \<and> security_enabled (fcf f) \<noteq> 0 \<and>
        tsch_security_parse_frame (tsch_is_associated (core x)) (tsch_is_pan_secured x) (Some (ip_payload inp)) (uint hl)
          (ip_len inp - uint hl - int (tsch_security_mic_len (Some f))) (Some f) (src_addr f) (ie_asn ies) = Done (ok, buf) \<and> ok \<noteq> 0 \<and>
        src_pid f = IEEE802154_PANID \<and> ie_join_priority ies < TSCH_MAX_JOIN_PRIORITY \<and>
        (sync_with_lower_node_id cf \<longrightarrow> lower_node cf (src_addr f)))"

text \<open>The state a node joins with. The slot of the beacon started before its timestamp, by the offset of transmissions.\<close>

definition joined :: "frame802154_t \<Rightarrow> ieee802154_ies \<Rightarrow> u32 \<Rightarrow> node \<Rightarrow> node \<Rightarrow> bool" where
  "joined f ies timestamp x y \<longleftrightarrow> tsch_is_associated (core y) \<and> current_link (core y) = None \<and> pan_id y = IEEE802154_PANID \<and>
     tsch_is_pan_secured y \<and> tsch_current_asn y = ie_asn ies \<and> last_sync_asn y = ie_asn ies \<and>
     tsch_join_priority y = ie_join_priority ies + 1 \<and>
     current_slot_start y = timestamp - timings y (tsch_timing y) ! tsch_ts_tx_offset \<and>
     tsch_association_count y = tsch_association_count x + 1"

text \<open>What the steps before the last keep.\<close>

definition join_keeps :: "node \<Rightarrow> node \<Rightarrow> bool" where
  "join_keeps x y \<longleftrightarrow> assoc (core y) = assoc (core x) \<and> pan_id y = pan_id x \<and> tsch_is_pan_secured y = tsch_is_pan_secured x \<and>
     tsch_association_count y = tsch_association_count x \<and> tsch_current_asn y = tsch_current_asn x \<and>
     tsch_join_priority y = tsch_join_priority x"

lemma join_keeps_trans: "join_keeps x y \<Longrightarrow> join_keeps y z \<Longrightarrow> join_keeps x z"
  by (simp add: join_keeps_def)

lemma eb_timing_keeps: "eb_timing cf rt ies x = Done y \<Longrightarrow> join_keeps x y"
  by (auto simp: eb_timing_def join_keeps_def split: if_splits)

lemma eb_hopping_keeps: "eb_hopping cf ies x = Done (ok, y) \<Longrightarrow> join_keeps x y"
  by (auto simp: eb_hopping_def set_hopping_sequence_def join_keeps_def elim!: obind_DoneE split: if_splits)

lemma eb_schedule_keeps: "eb_schedule cf ies (core x) = Done (ok, s) \<Longrightarrow> join_keeps x (x\<lparr>core := s\<rparr>)"
  by (auto simp: join_keeps_def dest: assoc_eb_schedule)

lemma assoc_time_source [simp]: "assoc (snd (tsch_queue_update_time_source rnd a s)) = assoc s"
  using assoc_add_nbr [of "the a" s]
  by (cases a; cases "tsch_queue_add_nbr (the a) s")
     (auto simp: tsch_queue_update_time_source_def time_source_switch_def tsch_set_ka_timeout_def tsch_schedule_keepalive_def assoc_def
       nbr_upd_def Let_def split: option.split)

lemma eb_join_spec:
  assumes "eb_join cf rnd rnd' clock timestamp f x = (r, y)"
  shows "if r = 1 then tsch_join_priority x \<le> TSCH_MAX_JOIN_PRIORITY \<and> tsch_is_associated (core y) \<and> current_link (core y) = None \<and>
      pan_id y = src_pid f \<and> tsch_is_pan_secured y = (security_enabled (fcf f) \<noteq> 0) \<and> tsch_current_asn y = tsch_current_asn x \<and>
      last_sync_asn y = tsch_current_asn x \<and> tsch_join_priority y = tsch_join_priority x \<and>
      current_slot_start y = timestamp - timings y (tsch_timing y) ! tsch_ts_tx_offset \<and>
      tsch_association_count y = tsch_association_count x + 1
    else r = 0 \<and> join_keeps x y"
  using assms assoc_add_nbr [of "src_addr f" "core x"]
  by (cases "tsch_queue_add_nbr (src_addr f) (core x)")
     (auto simp: eb_join_def join_keeps_def tsch_slot_operation_sync_def tsch_schedule_keepalive_def Let_def split: if_splits option.splits)

lemma parse_eb_results:
  assumes "tsch_packet_parse_eb buf n frame ies (Some h) w = Done (k, f, io, ho)"
  obtains i h' where "io = Some i" "ho = Some h'"
  using assms by (auto simp: tsch_packet_parse_eb_def Let_def elim!: obind_DoneE split: option.splits if_splits)

lemma join_priority_below:
  assumes "(jp :: u8) \<noteq> 0xff" "jp + 1 \<le> TSCH_MAX_JOIN_PRIORITY"
  shows "jp < TSCH_MAX_JOIN_PRIORITY"
proof -
  have "unat jp \<noteq> 255" using assms(1) by (simp add: word_unat_eq_iff)
  then have "unat (jp + 1) = unat jp + 1" using u8_bound [of jp] by (simp add: unat_word_ariths)
  then show ?thesis using assms(2) by (simp add: TSCH_MAX_JOIN_PRIORITY_def word_le_nat_alt word_less_nat_alt)
qed

text \<open>The steps after the checks.\<close>

lemma associate_steps:
  assumes "obind (eb_timing cf rt ies x) (\<lambda>x2. obind (eb_hopping cf ies x2) (\<lambda>(ok, x3).
      if \<not> ok then Done (0, x3)
      else obind (eb_schedule cf ies (core x3)) (\<lambda>(ok', s).
        if \<not> ok' then Done (0, x3\<lparr>core := s\<rparr>)
        else if sync_with_lower_node_id cf \<and> \<not> lower_node cf (src_addr f) then Done (0, x3\<lparr>core := s\<rparr>)
        else Done (eb_join cf rnd rnd' clock timestamp f (x3\<lparr>core := s\<rparr>))))) = Done (r, y)"
  shows "(r = 0 \<and> join_keeps x y) \<or>
    (\<exists>z. join_keeps x z \<and> eb_join cf rnd rnd' clock timestamp f z = (r, y) \<and> (sync_with_lower_node_id cf \<longrightarrow> lower_node cf (src_addr f)))"
proof -
  obtain x2 ok x3 where t: "eb_timing cf rt ies x = Done x2" and h: "eb_hopping cf ies x2 = Done (ok, x3)"
      and rest: "(if \<not> ok then Done (0, x3)
      else obind (eb_schedule cf ies (core x3)) (\<lambda>(ok', s).
        if \<not> ok' then Done (0, x3\<lparr>core := s\<rparr>)
        else if sync_with_lower_node_id cf \<and> \<not> lower_node cf (src_addr f) then Done (0, x3\<lparr>core := s\<rparr>)
        else Done (eb_join cf rnd rnd' clock timestamp f (x3\<lparr>core := s\<rparr>)))) = Done (r, y)"
    using assms by (auto elim!: obind_DoneE)
  have k3: "join_keeps x x3" using join_keeps_trans [OF eb_timing_keeps [OF t] eb_hopping_keeps [OF h]] .
  show ?thesis
  proof (cases ok)
    case True
    then obtain ok' s where s: "eb_schedule cf ies (core x3) = Done (ok', s)" using rest by (auto elim!: obind_DoneE)
    have "join_keeps x (x3\<lparr>core := s\<rparr>)" using join_keeps_trans [OF k3 eb_schedule_keeps [OF s]] .
    then show ?thesis using rest s True by (auto split: if_splits)
  qed (use rest k3 in auto)
qed

lemma associate_spec:
  assumes "tsch_associate cf rt rnd rnd' clock junk inp timestamp x = Done (r, y)"
  shows "if r = 1 then \<exists>f ies. beacon_accepted cf junk inp x f ies \<and> joined f ies timestamp x y
    else r = 0 \<and> tsch_is_associated (core y) = tsch_is_associated (core x) \<and> pan_id y = pan_id x \<and>
      tsch_is_pan_secured y = tsch_is_pan_secured x \<and> tsch_association_count y = tsch_association_count x"
proof (cases "tsch_packet_parse_eb (ip_payload inp) (ip_len inp) (Some junk) (Some ies_zero) (Some 0) False")
  case (Done p)
  obtain k f io ho where p: "p = (k, f, io, ho)" by (cases p)
  obtain ies hl where o: "io = Some ies" "ho = Some hl" using parse_eb_results [OF Done [unfolded p]] .
  define x1 where "x1 = x\<lparr>tsch_current_asn := ie_asn ies, tsch_join_priority := ie_join_priority ies + 1\<rparr>"
  let ?sec = "tsch_security_parse_frame (tsch_is_associated (core x)) (tsch_is_pan_secured x) (Some (ip_payload inp)) (uint hl)
      (ip_len inp - uint hl - int (tsch_security_mic_len (Some f))) (Some f) (src_addr f) (ie_asn ies)"
  show ?thesis
  proof (cases "k = 0 \<or> security_enabled (fcf f) = 0 \<or> (\<exists>b. ?sec = Done (0, b)) \<or> src_pid f \<noteq> IEEE802154_PANID \<or> ie_join_priority ies = 0xff")
    case True
    then have "(r, y) = (0, x) \<or> (r, y) = (0, x1)"
      using assms Done by (auto simp: tsch_associate_def p o Let_def x1_def elim!: obind_DoneE split: if_splits)
    then show ?thesis by (auto simp: x1_def)
  next
    case False
    then obtain ok b where sec: "?sec = Done (ok, b)" "ok \<noteq> 0"
      using assms Done by (auto simp: tsch_associate_def p o Let_def elim!: obind_DoneE split: if_splits)
    have "(r = 0 \<and> join_keeps x1 y) \<or> (\<exists>z. join_keeps x1 z \<and> eb_join cf rnd rnd' clock timestamp f z = (r, y) \<and>
        (sync_with_lower_node_id cf \<longrightarrow> lower_node cf (src_addr f)))"
      using assms Done False sec by (intro associate_steps [of cf rt ies]) (simp add: tsch_associate_def [unfolded Let_def] p o x1_def cong del: if_weak_cong)
    then show ?thesis
    proof (elim disjE exE conjE)
      fix z assume z: "join_keeps x1 z" "eb_join cf rnd rnd' clock timestamp f z = (r, y)"
        "sync_with_lower_node_id cf \<longrightarrow> lower_node cf (src_addr f)"
      note j = eb_join_spec [OF z(2)]
      show ?thesis
      proof (cases "r = 1")
        case True
        then have "ie_join_priority ies < TSCH_MAX_JOIN_PRIORITY"
          using j z(1) False join_priority_below by (simp add: join_keeps_def x1_def)
        then have "beacon_accepted cf junk inp x f ies"
          using Done sec z(3) False unfolding beacon_accepted_def p o by blast
        moreover have "joined f ies timestamp x y"
          using j z(1) True False by (simp add: joined_def join_keeps_def x1_def)
        ultimately show ?thesis using True by auto
      next
        case r: False
        then show ?thesis using j z(1) by (simp add: join_keeps_def x1_def assoc_def)
      qed
    qed (simp add: join_keeps_def x1_def assoc_def)
  qed
qed (use assms in \<open>auto simp: tsch_associate_def\<close>)

section \<open>An accepted beacon\<close>

text \<open>A beacon of the PAN \<^verbatim>\<open>0xabcd\<close> from the node \<^verbatim>\<open>02:02:02:02:02:02:02:02\<close> in slot 100 with join priority 1, and its code.\<close>

definition join_prefix :: "u8 list" where
  "join_prefix = [72, 235, 205, 171, 255, 255, 2, 2, 2, 2, 2, 2, 2, 2, 105, 1, 0, 63, 8, 136, 6, 26, 100, 0, 0, 0, 0, 1]"

definition join_frame :: frame802154_t where
  "join_frame = (case frame802154_parse (join_prefix @ replicate 4 0) 32 frame802154_zero of Done (_, f) \<Rightarrow> f | _ \<Rightarrow> frame802154_zero)"

definition join_ies :: ieee802154_ies where
  "join_ies = ies_zero\<lparr>ie_payload_ie_offset := 2, ie_asn := TSCH_ASN_INIT 0 100, ie_join_priority := 1\<rparr>"

definition join_beacon :: "u8 list" where
  "join_beacon = join_prefix @ frame_mic join_frame (replicate 8 2) (TSCH_ASN_INIT 0 100) [] join_prefix"

definition join_input :: input_packet where
  "join_input = \<lparr>ip_payload = join_beacon, ip_rx_asn = TSCH_ASN_INIT 0 0, ip_len = 32, ip_rssi = 0, ip_channel = 0\<rparr>"

definition join_node :: node where
  "join_node = (node_zero (\<lambda>_. replicate 12 328))\<lparr>core := tsch_boot\<rparr>"

lemma join_parse:
  "tsch_packet_parse_eb (join_prefix @ [a, b, c, d]) 32 (Some frame802154_zero) (Some ies_zero) (Some 0) False =
     Done (28, join_frame, Some join_ies, Some 18)"
  by code_simp

lemma join_offset: "ies_offset (drop 18 (join_prefix @ [a, b, c, d])) 10 = Done 0"
  by code_simp

lemma join_frame_fields:
  "security_enabled (fcf join_frame) \<noteq> 0" "src_pid join_frame = IEEE802154_PANID" "src_addr join_frame = replicate 8 2"
  "tsch_security_mic_len (Some join_frame) = 4" "security_level (security_control (aux_hdr join_frame)) = 1"
  "tsch_security_check_level False True (Some join_frame)" "key_index (aux_hdr join_frame) = 1"
  by code_simp+

lemma join_mic:
  obtains a b c d where "frame_mic join_frame (replicate 8 2) (TSCH_ASN_INIT 0 100) [] join_prefix = [a, b, c, d]"
  using length_frame_mic [OF join_frame_fields(1), of "replicate 8 2" "TSCH_ASN_INIT 0 100" "[]" join_prefix] join_frame_fields(4)
  by (auto simp: numeral_eq_Suc length_Suc_conv)

lemma join_authentic:
  "\<exists>b. tsch_security_parse_frame False True (Some join_beacon) 18 10 (Some join_frame) (replicate 8 2) (TSCH_ASN_INIT 0 100) = Done (1, b)"
proof -
  obtain a b c d where m: "join_beacon = join_prefix @ [a, b, c, d]" using join_mic unfolding join_beacon_def by metis
  have off: "ies_offset (drop 18 join_beacon) 10 = Done 0" unfolding m by (rule join_offset)
  have ad: "is_linkaddr (replicate 8 2)" by (simp add: is_linkaddr_def LINKADDR_SIZE_def)
  have l: "length join_prefix = unat (auth_len (security_level (security_control (aux_hdr join_frame))) 18 10)"
    "length ([] :: u8 list) = unat (enc_len (security_level (security_control (aux_hdr join_frame))) 10)"
    by (simp_all add: join_frame_fields auth_len_def enc_len_def join_prefix_def)
  have "open_frame join_beacon 18 10 join_frame (replicate 8 2) (TSCH_ASN_INIT 0 100) = Done (1, join_beacon)"
    using open_frame_eq [OF join_frame_fields(1) ad _ _ _ _ l, where r = join_beacon and R = "[]" and asn = "TSCH_ASN_INIT 0 100"]
    by (simp add: join_beacon_def frame_cipher_def rfc_crypt_def)
  then show ?thesis using off by (simp add: tsch_security_parse_frame_def join_frame_fields)
qed

declare tsch_schedule_remove_all_slotframes.simps [code] remove_links_loop.simps [code]

lemma join_steps_eval:
  "obind (eb_timing conf_example None join_ies (join_node\<lparr>tsch_current_asn := TSCH_ASN_INIT 0 100, tsch_join_priority := 2\<rparr>)) (\<lambda>x2.
   obind (eb_hopping conf_example join_ies x2) (\<lambda>(ok, x3).
   obind (eb_schedule conf_example join_ies (core x3)) (\<lambda>(ok', s).
   Done (ok \<and> ok' \<and> fst (eb_join conf_example 0 0 7 5000 join_frame (x3\<lparr>core := s\<rparr>)) = 1)))) = Done True"
  by code_simp

lemma join_accepted: "\<exists>y. tsch_associate conf_example None 0 0 7 frame802154_zero join_input 5000 join_node = Done (1, y)"
proof -
  obtain x2 x3 s where st: "eb_timing conf_example None join_ies (join_node\<lparr>tsch_current_asn := TSCH_ASN_INIT 0 100, tsch_join_priority := 2\<rparr>) = Done x2"
      "eb_hopping conf_example join_ies x2 = Done (True, x3)" "eb_schedule conf_example join_ies (core x3) = Done (True, s)"
      "fst (eb_join conf_example 0 0 7 5000 join_frame (x3\<lparr>core := s\<rparr>)) = 1"
    using join_steps_eval by (auto elim!: obind_DoneE)
  obtain y where y: "eb_join conf_example 0 0 7 5000 join_frame (x3\<lparr>core := s\<rparr>) = (1, y)"
    using st(4) by (metis prod.collapse)
  obtain a b c d where m: "join_beacon = join_prefix @ [a, b, c, d]" using join_mic unfolding join_beacon_def by metis
  have p: "tsch_packet_parse_eb join_beacon 32 (Some frame802154_zero) (Some ies_zero) (Some 0) False = Done (28, join_frame, Some join_ies, Some 18)"
    unfolding m by (rule join_parse)
  have f: "tsch_is_associated (core join_node) = False" "tsch_is_pan_secured join_node"
    by (code_simp, code_simp)
  have i: "ie_asn join_ies = TSCH_ASN_INIT 0 100" "ie_join_priority join_ies = 1" by (simp_all add: join_ies_def)
  have cf: "\<not> sync_with_lower_node_id conf_example" by (simp add: conf_example_def)
  obtain b' where "tsch_security_parse_frame False True (Some join_beacon) 18 10 (Some join_frame) (replicate 8 2) (TSCH_ASN_INIT 0 100) = Done (1, b')"
    using join_authentic by blast
  then show ?thesis
    using p st(1-3) y by (simp add: tsch_associate_def join_input_def f i cf join_frame_fields)
qed

section \<open>Properties\<close>



end
