(* ===== verification/Spec2Isabelle.thy ===== *)
theory Spec2Isabelle
  imports RingBuf Memb LinkedList Asn Packetbuf TschQueueProps TschScheduleProps NextLink SixpPktProps IeProps NbrTableProps FramerProps SixpLife MacSeq TschBeacon TimeSync SlotOpProps SlotInv TschMainProps TschJoin
begin

text \<open>Verification of the TSCH MAC layer of Contiki-NG.\<close>

end
